(* ===== verification/Emu_Prelude.thy ===== *)
theory Emu_Prelude
  imports Main "HOL-Library.Word"
begin

text \<open>
  Shared vocabulary of the development: the machine integers of the C sources, the
  outcome of a C call that may leave its caller by \<open>siglongjmp\<close>, \<open>exit\<close> or a failed
  assertion, and the generic facts about words that the components use.

  \<^item> \<open>u8\<close>, \<open>u16\<close>, \<open>u32\<close>, \<open>u64\<close> name the fixed-width integers. Signed C values are the
    same words read with \<open>sint\<close>; a widening cast is \<open>ucast\<close> or \<open>scast\<close>.
  \<^item> \<open>outcome\<close> is the result of a C function that works on the emulator state:
    \<open>Ret v s\<close> a normal return, \<open>Exn s\<close> a \<open>cpu_loop_exit\<close> (the \<open>siglongjmp\<close> into
    \<open>exec_env\<close>, which keeps every write made so far), \<open>Exit s\<close> a \<open>laemu_exit\<close>, and
    \<open>Crash\<close> an \<open>assert\<close> or \<open>abort\<close> that stops the emulator or an access outside
    an array.
\<close>

unbundle bit_operations_syntax

type_synonym u8 = "8 word"
type_synonym u16 = "16 word"
type_synonym u32 = "32 word"
type_synonym u64 = "64 word"

named_theorems field_defs \<open>positions and lengths of the register fields\<close>
named_theorems const_defs \<open>numeric constants of the sources\<close>

section \<open>Outcomes of C calls\<close>

datatype ('a, 's) outcome = Ret 'a 's | Exn 's | Exit 's | Crash

definition bind_out :: "('a, 's) outcome \<Rightarrow> ('a \<Rightarrow> 's \<Rightarrow> ('b, 's) outcome) \<Rightarrow> ('b, 's) outcome" where
  "bind_out m f = (case m of Ret v s \<Rightarrow> f v s | Exn s \<Rightarrow> Exn s | Exit s \<Rightarrow> Exit s | Crash \<Rightarrow> Crash)"

lemma bind_out_simps [simp]:
  "bind_out (Ret v s) f = f v s" "bind_out (Exn s) f = Exn s"
  "bind_out (Exit s) f = Exit s" "bind_out Crash f = Crash"
  by (simp_all add: bind_out_def)

lemma bind_out_assoc: "bind_out (bind_out m f) g = bind_out m (\<lambda>v s. bind_out (f v s) g)"
  by (cases m) simp_all

lemma bind_out_Ret_right [simp]: "bind_out m Ret = m"
  by (cases m) simp_all

text \<open>\<open>out_inv I m\<close>: every state that \<open>m\<close> can leave behind satisfies \<open>I\<close>.\<close>

fun out_inv :: "('s \<Rightarrow> bool) \<Rightarrow> ('a, 's) outcome \<Rightarrow> bool" where
  "out_inv I (Ret v s) = I s"
| "out_inv I (Exn s) = I s"
| "out_inv I (Exit s) = I s"
| "out_inv I Crash = True"

lemma out_inv_bind:
  assumes "out_inv I m" and "\<And>v s. m = Ret v s \<Longrightarrow> I s \<Longrightarrow> out_inv I (f v s)"
  shows "out_inv I (bind_out m f)"
  using assms by (cases m) simp_all

lemma out_inv_bindI:
  "out_inv I m \<Longrightarrow> (\<And>v s. I s \<Longrightarrow> out_inv I (f v s)) \<Longrightarrow> out_inv I (bind_out m f)"
  by (rule out_inv_bind)

lemma out_inv_if:
  "(c \<Longrightarrow> out_inv I m) \<Longrightarrow> (\<not> c \<Longrightarrow> out_inv I n) \<Longrightarrow> out_inv I (if c then m else n)"
  by simp

lemma out_inv_mono: "out_inv I m \<Longrightarrow> (\<And>s. I s \<Longrightarrow> J s) \<Longrightarrow> out_inv J m"
  by (cases m) simp_all

text \<open>\<open>returns m P\<close>: \<open>m\<close> returns normally, and its value and state satisfy \<open>P\<close>.\<close>

fun returns :: "('a, 's) outcome \<Rightarrow> ('a \<Rightarrow> 's \<Rightarrow> bool) \<Rightarrow> bool" where
  "returns (Ret v s) P = P v s"
| "returns _ P = False"

lemma returns_bind: "returns (bind_out m f) P \<longleftrightarrow> returns m (\<lambda>v s. returns (f v s) P)"
  by (cases m) simp_all

lemma returns_mono: "returns m P \<Longrightarrow> (\<And>v s. P v s \<Longrightarrow> Q v s) \<Longrightarrow> returns m Q"
  by (cases m) simp_all

lemma returns_conj: "returns m P \<Longrightarrow> returns m Q \<Longrightarrow> returns m (\<lambda>v s. P v s \<and> Q v s)"
  by (cases m) simp_all

lemma returns_seq: "returns m Q \<Longrightarrow> (\<And>v s. Q v s \<Longrightarrow> returns (f v s) P) \<Longrightarrow> returns (bind_out m f) P"
  by (cases m) simp_all

lemma returns_iff: "returns m P \<longleftrightarrow> (\<exists>v s. m = Ret v s \<and> P v s)"
  by (cases m) simp_all

text \<open>A loop body run \<open>n\<close> times.\<close>

fun iter_out :: "('s \<Rightarrow> (unit, 's) outcome) \<Rightarrow> nat \<Rightarrow> 's \<Rightarrow> (unit, 's) outcome" where
  "iter_out f 0 s = Ret () s"
| "iter_out f (Suc n) s = bind_out (f s) (\<lambda>_. iter_out f n)"

lemma iter_out_snoc: "iter_out f (Suc n) s = bind_out (iter_out f n s) (\<lambda>_. f)"
proof (induction n arbitrary: s)
  case 0
  show ?case by (cases "f s") simp_all
next
  case (Suc n)
  show ?case
  proof (cases "f s")
    case (Ret v s')
    then show ?thesis using Suc.IH [of s'] by simp
  qed simp_all
qed

section \<open>Words\<close>

lemma bit_u64_imp_le: "bit (w :: u64) n \<Longrightarrow> n < 64"
  using bit_imp_le_length by fastforce

lemma unat_take_bit: "unat (take_bit n (w :: 'a::len word)) = take_bit n (unat w)"
  by (simp add: unsigned_take_bit_eq)

lemma unat_take_bit_less: "unat (take_bit n (w :: 'a::len word)) < 2 ^ n"
  by (simp add: unat_take_bit)

lemma bit_u64_ge [simp]: "64 \<le> n \<Longrightarrow> \<not> bit (w :: u64) n"
  by (auto dest: bit_u64_imp_le)

lemma unat_ucast: "unat (ucast (w :: 'a::len word) :: 'b::len word) = unat w mod 2 ^ LENGTH('b)"
  by (simp add: unsigned_ucast_eq take_bit_eq_mod)

lemma unat_drop_bit_div: "unat (drop_bit n (w :: 'a::len word)) = unat w div 2 ^ n"
  by (simp only: unat_drop_bit_eq) (simp add: drop_bit_eq_div)

lemma nat_push_or: "(l :: nat) < 2 ^ n \<Longrightarrow> push_bit n h OR l = h * 2 ^ n + l"
proof -
  assume "l < 2 ^ n"
  then have l: "take_bit n l = l" by (simp add: take_bit_nat_eq_self)
  have "push_bit n h AND l = 0"
    by (subst l [symmetric], rule bit_eqI) (auto simp: bit_simps)
  then have "push_bit n h OR l = push_bit n h + l"
    by (simp add: disjunctive_add_eq_or)
  then show ?thesis by (simp add: push_bit_eq_mult)
qed

lemma unat_push_or:
  assumes "unat h * 2 ^ n + unat l < 2 ^ LENGTH('a)" and "unat l < 2 ^ n"
  shows "unat (push_bit n h OR l :: 'a::len word) = unat h * 2 ^ n + unat l"
proof -
  have "unat (push_bit n h) = take_bit LENGTH('a) (push_bit n (unat h))"
    by (simp only: unsigned_push_bit_eq)
  also have "\<dots> = push_bit n (unat h)"
    using assms(1) by (simp add: push_bit_eq_mult take_bit_nat_eq_self)
  finally show ?thesis using assms(2) by (simp only: unsigned_or_eq nat_push_or)
qed

lemma unat_bound: "unat (x :: 'a::len word) < 2 ^ LENGTH('a)"
  by (rule unsigned_less)

lemma u32_bound: "unat (x :: u32) < 4294967296"
  using unat_bound [of x] by simp

lemma u64_bound: "unat (x :: u64) < 18446744073709551616"
  using unat_bound [of x] by simp

lemma sless_0_bit: "a <s 0 \<longleftrightarrow> bit (a :: 'a::len word) (LENGTH('a) - 1)"
  by (simp add: word_sless_alt bit_last_iff)

lemma upt_0_1: "2 \<le> n \<Longrightarrow> [0..<n] = 0 # 1 # [2..<n]"
  by (simp add: upt_conv_Cons numeral_2_eq_2)

end
