(* ===== verification/Bitops.thy ===== *)
theory Bitops
  imports Emu_Prelude
begin

text \<open>
  The bit helpers of \<open>include/qemu/bitops.h\<close> and the register-field macros of
  \<open>include/hw/registerfields.h\<close>, on which every register access of the emulator rests.
  \<open>extract\<close>, \<open>sextract\<close> and \<open>deposit\<close> are the C expressions after their assertion;
  the assertion itself is \<open>bitfield_ok\<close>, and a caller whose operands are not constants
  tests it and crashes where it fails. A field of a register is the pair of its shift and
  length, so \<open>FIELD_EX64 w f\<close> is the macro \<open>FIELD_EX64(w, reg, field)\<close>.

  The laws of field access (read after write, independence of disjoint fields,
  last write wins) are stated as the locale \<open>field_access\<close>, interpreted for the 32- and the
  64-bit macros.
\<close>

section \<open>Rotations and half-word swaps\<close>

definition rol8 :: "u8 \<Rightarrow> nat \<Rightarrow> u8" where
  "rol8 w shift = push_bit (shift mod 8) w OR drop_bit ((8 - shift mod 8) mod 8) w"

definition ror8 :: "u8 \<Rightarrow> nat \<Rightarrow> u8" where
  "ror8 w shift = drop_bit (shift mod 8) w OR push_bit ((8 - shift mod 8) mod 8) w"

definition rol16 :: "u16 \<Rightarrow> nat \<Rightarrow> u16" where
  "rol16 w shift = push_bit (shift mod 16) w OR drop_bit ((16 - shift mod 16) mod 16) w"

definition ror16 :: "u16 \<Rightarrow> nat \<Rightarrow> u16" where
  "ror16 w shift = drop_bit (shift mod 16) w OR push_bit ((16 - shift mod 16) mod 16) w"

definition rol32 :: "u32 \<Rightarrow> nat \<Rightarrow> u32" where
  "rol32 w shift = push_bit (shift mod 32) w OR drop_bit ((32 - shift mod 32) mod 32) w"

definition ror32 :: "u32 \<Rightarrow> nat \<Rightarrow> u32" where
  "ror32 w shift = drop_bit (shift mod 32) w OR push_bit ((32 - shift mod 32) mod 32) w"

definition rol64 :: "u64 \<Rightarrow> nat \<Rightarrow> u64" where
  "rol64 w shift = push_bit (shift mod 64) w OR drop_bit ((64 - shift mod 64) mod 64) w"

definition ror64 :: "u64 \<Rightarrow> nat \<Rightarrow> u64" where
  "ror64 w shift = drop_bit (shift mod 64) w OR push_bit ((64 - shift mod 64) mod 64) w"

definition hswap32 :: "u32 \<Rightarrow> u32" where
  "hswap32 h = rol32 h 16"

definition hswap64 :: "u64 \<Rightarrow> u64" where
  "hswap64 h =
    (let m = 0x0000ffff0000ffff; h = rol64 h 32
     in push_bit 16 (h AND m) OR (drop_bit 16 h AND m))"

definition wswap64 :: "u64 \<Rightarrow> u64" where
  "wswap64 h = rol64 h 32"

section \<open>Bit fields\<close>

text \<open>The common assertion \<open>start >= 0 && length > 0 && length <= width - start\<close>.\<close>

definition bitfield_ok :: "nat \<Rightarrow> int \<Rightarrow> int \<Rightarrow> bool" where
  "bitfield_ok width start len \<longleftrightarrow> 0 \<le> start \<and> 0 < len \<and> len \<le> int width - start"

definition MAKE_64BIT_MASK :: "nat \<Rightarrow> nat \<Rightarrow> u64" where
  "MAKE_64BIT_MASK shift len = push_bit shift (drop_bit (64 - len) (NOT 0))"

definition BIT_ULL :: "nat \<Rightarrow> u64" where
  "BIT_ULL nr = push_bit nr 1"

definition extract32 :: "u32 \<Rightarrow> nat \<Rightarrow> nat \<Rightarrow> u32" where
  "extract32 value start len = drop_bit start value AND drop_bit (32 - len) (NOT 0)"

definition extract64 :: "u64 \<Rightarrow> nat \<Rightarrow> nat \<Rightarrow> u64" where
  "extract64 value start len = drop_bit start value AND drop_bit (64 - len) (NOT 0)"

definition sextract32 :: "u32 \<Rightarrow> nat \<Rightarrow> nat \<Rightarrow> u32" where
  "sextract32 value start len = signed_drop_bit (32 - len) (push_bit (32 - len - start) value)"

definition sextract64 :: "u64 \<Rightarrow> nat \<Rightarrow> nat \<Rightarrow> u64" where
  "sextract64 value start len = signed_drop_bit (64 - len) (push_bit (64 - len - start) value)"

definition deposit32 :: "u32 \<Rightarrow> nat \<Rightarrow> nat \<Rightarrow> u32 \<Rightarrow> u32" where
  "deposit32 value start len fieldval =
    (let mask = push_bit start (drop_bit (32 - len) (NOT 0))
     in (value AND NOT mask) OR (push_bit start fieldval AND mask))"

definition deposit64 :: "u64 \<Rightarrow> nat \<Rightarrow> nat \<Rightarrow> u64 \<Rightarrow> u64" where
  "deposit64 value start len fieldval =
    (let mask = push_bit start (drop_bit (64 - len) (NOT 0))
     in (value AND NOT mask) OR (push_bit start fieldval AND mask))"

text \<open>The bits each helper reads and writes; \<open>m < 64\<close> where a bit index is bounded.\<close>

lemma bit_ones_drop: "bit (drop_bit k (NOT 0 :: 'a::len word)) m \<longleftrightarrow> k + m < LENGTH('a)"
  by (auto simp: bit_simps)

lemma bit_extract64:
  "start + len \<le> 64 \<Longrightarrow> bit (extract64 w start len) m \<longleftrightarrow> m < len \<and> bit w (start + m)"
  by (auto simp: extract64_def bit_simps dest: bit_u64_imp_le)

lemma bit_extract32:
  "start + len \<le> 32 \<Longrightarrow> bit (extract32 w start len) m \<longleftrightarrow> m < len \<and> bit w (start + m)"
  by (auto simp: extract32_def bit_simps)

lemma bit_deposit64:
  assumes "start + len \<le> 64"
  shows "bit (deposit64 w start len v) m \<longleftrightarrow>
    m < 64 \<and> (if start \<le> m \<and> m < start + len then bit v (m - start) else bit w m)"
  using assms by (auto simp: deposit64_def Let_def bit_simps dest: bit_u64_imp_le)

lemma bit_deposit32:
  assumes "start + len \<le> 32"
  shows "bit (deposit32 w start len v) m \<longleftrightarrow>
    m < 32 \<and> (if start \<le> m \<and> m < start + len then bit v (m - start) else bit w m)"
  using assms by (auto simp: deposit32_def Let_def bit_simps dest: bit_imp_le_length)

lemma bit_MAKE_64BIT_MASK:
  "bit (MAKE_64BIT_MASK s l) m \<longleftrightarrow> s \<le> m \<and> m < 64 \<and> 64 - l + (m - s) < 64"
  by (auto simp: MAKE_64BIT_MASK_def bit_simps)

lemma bit_sextract64:
  assumes "start + len \<le> 64" and "0 < len"
  shows "bit (sextract64 w start len) m \<longleftrightarrow> m < 64 \<and> bit w (start + min m (len - 1))"
  using assms by (auto simp: sextract64_def bit_simps min_def not_le add.commute dest: bit_u64_imp_le)

lemma extract64_eq_take_bit:
  "start + len \<le> 64 \<Longrightarrow> extract64 w start len = take_bit len (drop_bit start w)"
  by (rule bit_word_eqI) (auto simp: bit_extract64 bit_simps)

lemma extract32_eq_take_bit:
  "start + len \<le> 32 \<Longrightarrow> extract32 w start len = take_bit len (drop_bit start w)"
  by (rule bit_word_eqI) (auto simp: bit_extract32 bit_simps)

section \<open>Register fields\<close>

type_synonym field = "nat \<times> nat"

fun field_ok :: "nat \<Rightarrow> field \<Rightarrow> bool" where
  "field_ok width (s, l) \<longleftrightarrow> 0 < l \<and> s + l \<le> width"

fun fields_disjoint :: "field \<Rightarrow> field \<Rightarrow> bool" where
  "fields_disjoint (s, l) (s', l') \<longleftrightarrow> s + l \<le> s' \<or> s' + l' \<le> s"

text \<open>The constants \<open>R_reg_field_MASK\<close> that the macro \<open>FIELD\<close> defines.\<close>

definition FIELD_MASK :: "field \<Rightarrow> u64" where
  "FIELD_MASK f = MAKE_64BIT_MASK (fst f) (snd f)"

definition FIELD_EX32 :: "u32 \<Rightarrow> field \<Rightarrow> u32" where
  "FIELD_EX32 storage f = extract32 storage (fst f) (snd f)"

definition FIELD_EX64 :: "u64 \<Rightarrow> field \<Rightarrow> u64" where
  "FIELD_EX64 storage f = extract64 storage (fst f) (snd f)"

text \<open>The deposit macros store the value in a bit-field of the field's length first.\<close>

definition FIELD_DP32 :: "u32 \<Rightarrow> field \<Rightarrow> u32 \<Rightarrow> u32" where
  "FIELD_DP32 storage f val =
    (let v = take_bit (snd f) val in deposit32 storage (fst f) (snd f) v)"

definition FIELD_DP64 :: "u64 \<Rightarrow> field \<Rightarrow> u64 \<Rightarrow> u64" where
  "FIELD_DP64 storage f val =
    (let v = take_bit (snd f) val in deposit64 storage (fst f) (snd f) v)"

lemma field_ok_bitfield_ok:
  "field_ok width (s, l) \<Longrightarrow> bitfield_ok width (int s) (int l)"
  by (simp add: bitfield_ok_def)

locale field_access =
  fixes ex :: "'w::len word \<Rightarrow> field \<Rightarrow> 'w word"
    and dp :: "'w word \<Rightarrow> field \<Rightarrow> 'w word \<Rightarrow> 'w word"
  assumes bit_ex: "field_ok LENGTH('w) (s, l) \<Longrightarrow>
      bit (ex w (s, l)) m \<longleftrightarrow> m < l \<and> bit w (s + m)"
    and bit_dp: "field_ok LENGTH('w) (s, l) \<Longrightarrow>
      bit (dp w (s, l) v) m \<longleftrightarrow>
        m < LENGTH('w) \<and> (if s \<le> m \<and> m < s + l then bit v (m - s) else bit w m)"
begin

lemma ex_dp_same: "field_ok LENGTH('w) (s, l) \<Longrightarrow> ex (dp w (s, l) v) (s, l) = take_bit l v"
  by (rule bit_word_eqI) (auto simp: bit_ex bit_dp bit_simps)

lemma ex_dp_other:
  assumes "field_ok LENGTH('w) (s, l)" and "field_ok LENGTH('w) (s', l')"
    and "fields_disjoint (s, l) (s', l')"
  shows "ex (dp w (s, l) v) (s', l') = ex w (s', l')"
  using assms by (intro bit_word_eqI) (auto simp: bit_ex bit_dp)

lemma dp_ex_id: "field_ok LENGTH('w) (s, l) \<Longrightarrow> dp w (s, l) (ex w (s, l)) = w"
  by (rule bit_word_eqI) (auto simp: bit_ex bit_dp)

lemma dp_dp_same: "field_ok LENGTH('w) (s, l) \<Longrightarrow> dp (dp w (s, l) u) (s, l) v = dp w (s, l) v"
  by (rule bit_word_eqI) (auto simp: bit_dp)

lemma dp_dp_swap:
  assumes "field_ok LENGTH('w) (s, l)" and "field_ok LENGTH('w) (s', l')"
    and "fields_disjoint (s, l) (s', l')"
  shows "dp (dp w (s, l) u) (s', l') v = dp (dp w (s', l') v) (s, l) u"
  using assms by (intro bit_word_eqI) (auto simp: bit_dp)

lemma ex_less: "field_ok LENGTH('w) (s, l) \<Longrightarrow> unat (ex w (s, l)) < 2 ^ l"
proof -
  assume ok: "field_ok LENGTH('w) (s, l)"
  have "ex w (s, l) = take_bit l (drop_bit s w)"
    using ok by (intro bit_word_eqI) (auto simp: bit_ex bit_simps)
  then show ?thesis by (simp add: unat_take_bit_less)
qed

lemma take_bit_ex: "field_ok LENGTH('w) (s, l) \<Longrightarrow> take_bit l (ex w (s, l)) = ex w (s, l)"
  by (rule bit_word_eqI) (auto simp: bit_ex bit_simps)

lemma ex_mod_2: "field_ok LENGTH('w) (s, Suc 0) \<Longrightarrow> ex w (s, Suc 0) mod 2 = ex w (s, Suc 0)"
  using take_bit_ex [of s "Suc 0" w] by simp

lemma ex_range_1: "field_ok LENGTH('w) (s, Suc 0) \<Longrightarrow> ex w (s, Suc 0) = 0 \<or> ex w (s, Suc 0) = 1"
  using ex_less [of s "Suc 0" w] by (simp add: word_unat_eq_iff) linarith

text \<open>Two disjoint fields overwritten and then restored: the register is unchanged.\<close>

lemma dp_restore_2:
  assumes "field_ok LENGTH('w) (s, l)" and "field_ok LENGTH('w) (s', l')"
    and "fields_disjoint (s, l) (s', l')"
  shows "dp (dp (dp (dp w (s, l) a) (s', l') b) (s, l) (ex w (s, l))) (s', l') (ex w (s', l')) = w"
  using assms by (intro bit_word_eqI) (auto simp: bit_ex bit_dp)

lemma ex_single_bit: "s < LENGTH('w) \<Longrightarrow> ex w (s, 1) = of_bool (bit w s)"
  by (rule bit_word_eqI) (auto simp: bit_ex bit_simps)

end

interpretation f64: field_access FIELD_EX64 FIELD_DP64
  by unfold_locales
    (auto simp: FIELD_EX64_def FIELD_DP64_def bit_extract64 bit_deposit64 bit_simps)

interpretation f32: field_access FIELD_EX32 FIELD_DP32
  by unfold_locales
    (auto simp: FIELD_EX32_def FIELD_DP32_def bit_extract32 bit_deposit32 bit_simps)

lemmas field_simps64 = f64.ex_dp_same f64.ex_dp_other f64.dp_dp_same f64.take_bit_ex f64.ex_mod_2
lemmas field_simps32 = f32.ex_dp_same f32.ex_dp_other f32.dp_dp_same f32.take_bit_ex f32.ex_mod_2

lemma FIELD_EX64_zero: "FIELD_EX64 0 f = 0"
  by (simp add: FIELD_EX64_def extract64_def)

text \<open>Field access: a value deposited in a field is read back (cut to the field's length), the
  other fields of the register keep their values, and depositing what a field holds changes
  nothing.\<close>

theorem field_deposit_extract:
  assumes "field_ok 64 f" and "field_ok 64 g" and "fields_disjoint f g"
  shows "FIELD_EX64 (FIELD_DP64 w f v) f = take_bit (snd f) v
    \<and> FIELD_EX64 (FIELD_DP64 w f v) g = FIELD_EX64 w g
    \<and> FIELD_DP64 w f (FIELD_EX64 w f) = w"
  using assms by (cases f; cases g) (simp add: f64.ex_dp_same f64.ex_dp_other f64.dp_ex_id)

theorem field_deposit_extract_witness:
  "FIELD_EX64 (FIELD_DP64 0x3fff (16, 6) 0x1ff) (16, 6) = 0x3f
    \<and> FIELD_EX64 (FIELD_DP64 0x3fff (16, 6) 0x1ff) (0, 13) = 0x1fff"
proof -
  have "FIELD_EX64 0x3fff (0, 13) = 0x1fff" by (simp add: FIELD_EX64_def extract64_eq_take_bit take_bit_eq_mod)
  then show ?thesis
    using field_deposit_extract [of "(16, 6)" "(0, 13)" "0x3fff" "0x1ff"] by (simp add: take_bit_eq_mod)
qed

end
