(* ===== verification/Host_Utils.thy ===== *)
theory Host_Utils
  imports Bitops
begin

text \<open>
  The arithmetic helpers of \<open>include/qemu/host-utils.h\<close> and \<open>host-utils.c\<close>: 64x64 to 128 bit
  products, counting of leading and trailing bits, bit and byte reversal, addition with carry,
  powers of two and 128-bit shifts. The pointers \<open>plow\<close>, \<open>phigh\<close> of the C functions are the
  pair \<open>(low, high)\<close> that the definitions return. The compiler's builtins
  (\<open>__builtin_clz\<close>, \<open>__builtin_popcount\<close>, \<open>__builtin_bswap\<close>) are part of the
  language and are written out.

  The lemmas give each helper its mathematical meaning: the portable multiplication of
  \<open>host-utils.c\<close> computes the same product as the \<open>__int128\<close> version, the byte- and
  nibble-swapping reversal reverses every bit, the shifts are the shifts of the
  128-bit number the pair stands for.
\<close>

section \<open>Products\<close>

definition mulu64 :: "u64 \<Rightarrow> u64 \<Rightarrow> u64 \<times> u64" where
  "mulu64 a b = (let r = (ucast a :: 128 word) * ucast b in (ucast r, ucast (drop_bit 64 r)))"

definition muls64 :: "u64 \<Rightarrow> u64 \<Rightarrow> u64 \<times> u64" where
  "muls64 a b = (let r = (scast a :: 128 word) * scast b in (ucast r, ucast (signed_drop_bit 64 r)))"

text \<open>The two halves of the union \<open>LL\<close>.\<close>

definition LL_low :: "u64 \<Rightarrow> u32" where
  "LL_low x = ucast x"

definition LL_high :: "u64 \<Rightarrow> u32" where
  "LL_high x = ucast (drop_bit 32 x)"

definition LL_make :: "u32 \<Rightarrow> u32 \<Rightarrow> u64" where
  "LL_make low high = push_bit 32 (ucast high) OR ucast low"

definition mul64 :: "u64 \<Rightarrow> u64 \<Rightarrow> u64 \<times> u64" where
  "mul64 a b =
    (let rl = (ucast (LL_low a) :: u64) * ucast (LL_low b);
         rm = (ucast (LL_low a) :: u64) * ucast (LL_high b);
         rn = (ucast (LL_high a) :: u64) * ucast (LL_low b);
         rh = (ucast (LL_high a) :: u64) * ucast (LL_high b);
         c = (ucast (LL_high rl) :: u64) + ucast (LL_low rm) + ucast (LL_low rn);
         rl = LL_make (LL_low rl) (ucast c);
         c = drop_bit 32 c;
         c = c + ucast (LL_high rm) + ucast (LL_high rn) + ucast (LL_low rh);
         rh = LL_make (ucast c) (LL_high rh);
         rh = LL_make (LL_low rh) (LL_high rh + ucast (drop_bit 32 c))
     in (rl, rh))"

definition muls64_portable :: "u64 \<Rightarrow> u64 \<Rightarrow> u64 \<times> u64" where
  "muls64_portable a b =
    (let (plow, rh) = mul64 a b;
         rh = (if b <s 0 then rh - a else rh);
         rh = (if a <s 0 then rh - b else rh)
     in (plow, rh))"

section \<open>Counting bits\<close>

primrec clz_below :: "nat \<Rightarrow> 'a::len word \<Rightarrow> nat" where
  "clz_below 0 w = 0"
| "clz_below (Suc n) w = (if bit w n then 0 else Suc (clz_below n w))"

primrec ctz_within :: "nat \<Rightarrow> 'a::len word \<Rightarrow> nat" where
  "ctz_within 0 w = 0"
| "ctz_within (Suc n) w = (if bit w 0 then 0 else Suc (ctz_within n (drop_bit 1 w)))"

primrec popcount_below :: "nat \<Rightarrow> 'a::len word \<Rightarrow> nat" where
  "popcount_below 0 w = 0"
| "popcount_below (Suc n) w = popcount_below n w + of_bool (bit w n)"

definition clz32 :: "u32 \<Rightarrow> nat" where
  "clz32 val = (if val \<noteq> 0 then clz_below 32 val else 32)"

definition clo32 :: "u32 \<Rightarrow> nat" where
  "clo32 val = clz32 (NOT val)"

definition clz64 :: "u64 \<Rightarrow> nat" where
  "clz64 val = (if val \<noteq> 0 then clz_below 64 val else 64)"

definition clo64 :: "u64 \<Rightarrow> nat" where
  "clo64 val = clz64 (NOT val)"

definition ctz32 :: "u32 \<Rightarrow> nat" where
  "ctz32 val = (if val \<noteq> 0 then ctz_within 32 val else 32)"

definition cto32 :: "u32 \<Rightarrow> nat" where
  "cto32 val = ctz32 (NOT val)"

definition ctz64 :: "u64 \<Rightarrow> nat" where
  "ctz64 val = (if val \<noteq> 0 then ctz_within 64 val else 64)"

definition cto64 :: "u64 \<Rightarrow> nat" where
  "cto64 val = ctz64 (NOT val)"

definition ctpop32 :: "u32 \<Rightarrow> nat" where
  "ctpop32 val = popcount_below 32 val"

definition ctpop64 :: "u64 \<Rightarrow> nat" where
  "ctpop64 val = popcount_below 64 val"

section \<open>Byte and bit reversal\<close>

definition bswap16 :: "u16 \<Rightarrow> u16" where
  "bswap16 x = push_bit 8 x OR drop_bit 8 x"

definition bswap32 :: "u32 \<Rightarrow> u32" where
  "bswap32 x = push_bit 24 x OR (push_bit 8 x AND 0x00ff0000)
     OR (drop_bit 8 x AND 0x0000ff00) OR drop_bit 24 x"

definition bswap64 :: "u64 \<Rightarrow> u64" where
  "bswap64 x = push_bit 56 x OR (push_bit 40 x AND 0x00ff000000000000)
     OR (push_bit 24 x AND 0x0000ff0000000000) OR (push_bit 8 x AND 0x000000ff00000000)
     OR (drop_bit 8 x AND 0x00000000ff000000) OR (drop_bit 24 x AND 0x0000000000ff0000)
     OR (drop_bit 40 x AND 0x000000000000ff00) OR drop_bit 56 x"

definition revbit8 :: "u8 \<Rightarrow> u8" where
  "revbit8 x =
    (let x = drop_bit 4 (x AND 0xf0) OR push_bit 4 (x AND 0x0f)
     in drop_bit 3 (x AND 0x88) OR drop_bit 1 (x AND 0x44)
        OR push_bit 1 (x AND 0x22) OR push_bit 3 (x AND 0x11))"

definition revbit16 :: "u16 \<Rightarrow> u16" where
  "revbit16 x =
    (let x = bswap16 x;
         x = drop_bit 4 (x AND 0xf0f0) OR push_bit 4 (x AND 0x0f0f)
     in drop_bit 3 (x AND 0x8888) OR drop_bit 1 (x AND 0x4444)
        OR push_bit 1 (x AND 0x2222) OR push_bit 3 (x AND 0x1111))"

definition revbit32 :: "u32 \<Rightarrow> u32" where
  "revbit32 x =
    (let x = bswap32 x;
         x = drop_bit 4 (x AND 0xf0f0f0f0) OR push_bit 4 (x AND 0x0f0f0f0f)
     in drop_bit 3 (x AND 0x88888888) OR drop_bit 1 (x AND 0x44444444)
        OR push_bit 1 (x AND 0x22222222) OR push_bit 3 (x AND 0x11111111))"

definition revbit64 :: "u64 \<Rightarrow> u64" where
  "revbit64 x =
    (let x = bswap64 x;
         x = drop_bit 4 (x AND 0xf0f0f0f0f0f0f0f0) OR push_bit 4 (x AND 0x0f0f0f0f0f0f0f0f)
     in drop_bit 3 (x AND 0x8888888888888888) OR drop_bit 1 (x AND 0x4444444444444444)
        OR push_bit 1 (x AND 0x2222222222222222) OR push_bit 3 (x AND 0x1111111111111111))"

section \<open>Sums, powers of two, 128-bit shifts\<close>

text \<open>\<open>__builtin_add_overflow\<close> and \<open>__builtin_sub_overflow\<close>: the flag and the truncated result.\<close>

definition uadd64_overflow :: "u64 \<Rightarrow> u64 \<Rightarrow> bool \<times> u64" where
  "uadd64_overflow x y = (2 ^ 64 \<le> unat x + unat y, x + y)"

definition usub64_overflow :: "u64 \<Rightarrow> u64 \<Rightarrow> bool \<times> u64" where
  "usub64_overflow x y = (unat x < unat y, x - y)"

definition uadd64_carry :: "u64 \<Rightarrow> u64 \<Rightarrow> bool \<Rightarrow> u64 \<times> bool" where
  "uadd64_carry x y pcarry =
    (let (c, x) = uadd64_overflow x (of_bool pcarry);
         (c', x) = uadd64_overflow x y
     in (x, c \<or> c'))"

definition usub64_borrow :: "u64 \<Rightarrow> u64 \<Rightarrow> bool \<Rightarrow> u64 \<times> bool" where
  "usub64_borrow x y pborrow =
    (let (b, x) = usub64_overflow x (of_bool pborrow);
         (b', x) = usub64_overflow x y
     in (x, b \<or> b'))"

definition is_power_of_2 :: "u64 \<Rightarrow> bool" where
  "is_power_of_2 v = (if v = 0 then False else v AND (v - 1) = 0)"

definition pow2floor :: "u64 \<Rightarrow> u64" where
  "pow2floor v = (if v = 0 then 0 else drop_bit (clz64 v) 0x8000000000000000)"

definition pow2ceil :: "u64 \<Rightarrow> u64" where
  "pow2ceil v =
    (let n = clz64 (v - 1)
     in if n = 0 then of_bool (v = 0) else drop_bit (n - 1) 0x8000000000000000)"

text \<open>\<open>shift &= 127\<close> keeps the low seven bits of the signed shift, so the model takes a
  natural number.\<close>

definition urshift :: "u64 \<times> u64 \<Rightarrow> nat \<Rightarrow> u64 \<times> u64" where
  "urshift p shift =
    (let (plow, phigh) = p; shift = shift mod 128
     in if shift = 0 then (plow, phigh)
        else let h = drop_bit (shift mod 64) phigh
          in if 64 \<le> shift then (h, 0)
             else (drop_bit (shift mod 64) plow OR push_bit (64 - shift mod 64) phigh, h))"

definition ulshift :: "u64 \<times> u64 \<Rightarrow> nat \<Rightarrow> bool \<Rightarrow> (u64 \<times> u64) \<times> bool" where
  "ulshift p shift overflow =
    (let (plow, phigh) = p; shift = shift mod 128
     in if shift = 0 then ((plow, phigh), overflow)
        else let (low, high) = urshift (plow, phigh) (128 - shift);
                 overflow = (if low OR high \<noteq> 0 then True else overflow)
          in if 64 \<le> shift then ((0, push_bit (shift mod 64) plow), overflow)
             else ((push_bit shift plow,
                    drop_bit (64 - shift mod 64) plow OR push_bit (shift mod 64) phigh), overflow))"

section \<open>What the helpers compute\<close>

text \<open>The 128-bit number of a pair \<open>(low, high)\<close>.\<close>

definition pair128 :: "u64 \<times> u64 \<Rightarrow> 128 word" where
  "pair128 p = push_bit 64 (ucast (snd p)) OR ucast (fst p)"

lemma bit_pair128: "bit (pair128 (l, h)) n \<longleftrightarrow> (if n < 64 then bit l n else bit h (n - 64))"
  by (auto simp: pair128_def bit_simps dest: bit_u64_imp_le)

lemma pair128_split: "pair128 (ucast r, ucast (drop_bit 64 r)) = r"
  by (rule bit_word_eqI) (auto simp: pair128_def bit_simps)

lemma pair128_inject [simp]: "pair128 p = pair128 q \<longleftrightarrow> p = q"
proof
  assume eq: "pair128 p = pair128 q"
  have "(\<lambda>r. (ucast r :: u64, ucast (drop_bit 64 r) :: u64)) (pair128 s) = s" for s
    by (cases s) (auto simp: pair128_def bit_simps intro!: bit_word_eqI)
  then show "p = q" using eq by metis
qed simp

lemma unat_LL_make: "unat (LL_make l h) = unat h * 2 ^ 32 + unat l"
proof -
  have u: "unat (ucast x :: u64) = unat x" for x :: u32
    using u32_bound [of x] by (simp add: unat_ucast)
  show ?thesis unfolding LL_make_def
    using u32_bound [of h] u32_bound [of l] by (subst unat_push_or) (simp_all add: u)
qed

lemma unat_LL_low: "unat (LL_low x) = unat x mod 2 ^ 32"
  by (simp add: LL_low_def unat_ucast)

lemma unat_LL_high: "unat (LL_high x) = unat x div 2 ^ 32"
proof -
  have "unat x div 2 ^ 32 < 2 ^ 32" using u64_bound [of x] by (simp add: less_mult_imp_div_less)
  then show ?thesis by (simp add: LL_high_def unat_ucast unat_drop_bit_div)
qed

lemma unat_pair128: "unat (pair128 (l, h)) = unat h * 2 ^ 64 + unat l"
proof -
  have u: "unat (ucast x :: 128 word) = unat x" for x :: u64
    using u64_bound [of x] by (simp add: unat_ucast)
  show ?thesis unfolding pair128_def
    using u64_bound [of h] u64_bound [of l] by (subst unat_push_or) (simp_all add: u)
qed

lemma unat_ucast_32_64 [simp]: "unat (ucast (x :: u32) :: u64) = unat x"
  using u32_bound [of x] by (simp add: unat_ucast)

text \<open>The product of two 32-bit halves, and the sums of halves, do not wrap in 64 bits.\<close>

lemma mul_u32_bound: "unat (x :: u32) * unat (y :: u32) \<le> 4294967295 * 4294967295"
  using u32_bound [of x] u32_bound [of y] by (intro mult_le_mono) simp_all

lemma unat_mul_halves: "unat ((ucast (x :: u32) :: u64) * ucast (y :: u32)) = unat x * unat y"
  using u32_bound [of x] u32_bound [of y] mul_u32_bound [of x y]
  by (simp add: unat_word_ariths unat_ucast)

text \<open>Schoolbook multiplication in base \<open>2 ^ 32\<close>, on numbers: the partial products \<open>p1\<close>
  to \<open>p4\<close> and the two carry words of the code.\<close>

lemma schoolbook_carry:
  fixes B :: nat
  assumes "q1 + r2 + r3 = B * k1 + s1" and "k1 + q2 + q3 + r4 = B * k2 + s2"
  shows "(q4 + k2) * (B * B * B) + s2 * (B * B) + (s1 * B + r1)
    = (B * q1 + r1) + B * ((B * q2 + r2) + (B * q3 + r3)) + B * B * (B * q4 + r4)"
proof -
  have "(B * q1 + r1) + B * ((B * q2 + r2) + (B * q3 + r3)) + B * B * (B * q4 + r4)
    = r1 + B * (q1 + r2 + r3) + B * B * (q2 + q3 + r4) + B * B * B * q4"
    by (simp add: algebra_simps)
  also have "\<dots> = r1 + B * s1 + B * B * (k1 + q2 + q3 + r4) + B * B * B * q4"
    by (simp only: assms(1)) (simp add: algebra_simps)
  also have "\<dots> = (q4 + k2) * (B * B * B) + s2 * (B * B) + (s1 * B + r1)"
    by (simp only: assms(2)) (simp add: algebra_simps)
  finally show ?thesis by simp
qed

lemma schoolbook:
  fixes p1 p2 p3 p4 B :: nat
  defines "c1 \<equiv> p1 div B + p2 mod B + p3 mod B"
  defines "c2 \<equiv> c1 div B + p2 div B + p3 div B + p4 mod B"
  shows "(p4 div B + c2 div B) * (B * B * B) + c2 mod B * (B * B) + (c1 mod B * B + p1 mod B)
    = p1 + B * (p2 + p3) + B * B * p4"
  using schoolbook_carry [of "p1 div B" "p2 mod B" "p3 mod B" B "c1 div B" "c1 mod B"
      "p2 div B" "p3 div B" "p4 mod B" "c2 div B" "c2 mod B" "p4 div B" "p1 mod B"]
  by (simp add: c1_def c2_def)

lemma mult_split:
  fixes B :: nat
  assumes "a = B * ah + al" and "b = B * bh + bl"
  shows "al * bl + B * (al * bh + ah * bl) + B * B * (ah * bh) = a * b"
  by (simp add: assms algebra_simps)

lemma LL_low_make [simp]: "LL_low (LL_make l h) = l"
  by (rule bit_word_eqI) (simp add: LL_low_def LL_make_def bit_simps)

lemma LL_high_make [simp]: "LL_high (LL_make l h) = h"
  by (rule bit_word_eqI) (auto simp: LL_high_def LL_make_def bit_simps dest: bit_imp_le_length)

lemma sum3_halves: "unat ((ucast (x :: u32) :: u64) + ucast (y :: u32) + ucast (z :: u32))
    = unat x + unat y + unat z"
  using u32_bound [of x] u32_bound [of y] u32_bound [of z] by (simp add: unat_word_ariths)

lemma sum4_halves: "unat (drop_bit 32 (w :: u64) + ucast (x :: u32) + ucast (y :: u32) + ucast (z :: u32))
    = unat (drop_bit 32 w) + unat x + unat y + unat z"
  using u32_bound [of x] u32_bound [of y] u32_bound [of z] u64_bound [of w]
  by (simp add: unat_word_ariths unat_drop_bit_div)

lemma unat_mul64: "unat (pair128 (mul64 a b)) = unat a * unat b"
proof -
  define B :: nat where "B = 4294967296"
  define p1 where "p1 = unat (LL_low a) * unat (LL_low b)"
  define p2 where "p2 = unat (LL_low a) * unat (LL_high b)"
  define p3 where "p3 = unat (LL_high a) * unat (LL_low b)"
  define p4 where "p4 = unat (LL_high a) * unat (LL_high b)"
  define c1 where "c1 = p1 div B + p2 mod B + p3 mod B"
  define c2 where "c2 = c1 div B + p2 div B + p3 div B + p4 mod B"
  have total: "(p4 div B + c2 div B) * (B * B * B) + c2 mod B * (B * B) + (c1 mod B * B + p1 mod B)
      = unat a * unat b"
    unfolding c2_def c1_def schoolbook p1_def p2_def p3_def p4_def
    by (rule mult_split) (simp_all add: unat_LL_low unat_LL_high B_def)
  have "unat a * unat b \<le> 18446744073709551615 * 18446744073709551615"
    using u64_bound [of a] u64_bound [of b] by (intro mult_le_mono) simp_all
  also have "\<dots> < B * (B * B * B)" by (simp add: B_def)
  finally have "(p4 div B + c2 div B) * (B * B * B) < B * (B * B * B)"
    using total by linarith
  then have high: "p4 div B + c2 div B < B"
    by (rule mult_right_less_imp_less) simp
  define RL RM RN RH where
    w: "RL = (ucast (LL_low a) :: u64) * ucast (LL_low b)"
      "RM = (ucast (LL_low a) :: u64) * ucast (LL_high b)"
      "RN = (ucast (LL_high a) :: u64) * ucast (LL_low b)"
      "RH = (ucast (LL_high a) :: u64) * ucast (LL_high b)"
  have p: "unat RL = p1" "unat RM = p2" "unat RN = p3" "unat RH = p4"
    by (simp_all only: w unat_mul_halves p1_def p2_def p3_def p4_def)
  define C1 where "C1 = (ucast (LL_high RL) :: u64) + ucast (LL_low RM) + ucast (LL_low RN)"
  define C2 where "C2 = drop_bit 32 C1 + ucast (LL_high RM) + ucast (LL_high RN) + ucast (LL_low RH)"
  have C1: "unat C1 = c1"
    by (simp add: C1_def sum3_halves unat_LL_low unat_LL_high p c1_def B_def)
  have C2: "unat C2 = c2"
    by (simp add: C2_def sum4_halves unat_LL_low unat_LL_high unat_drop_bit_div C1 p c2_def B_def)
  have "mul64 a b = (LL_make (LL_low RL) (ucast C1),
      LL_make (ucast C2) (LL_high RH + ucast (drop_bit 32 C2)))"
    unfolding mul64_def Let_def by (simp only: w C1_def C2_def LL_low_make LL_high_make)
  moreover have "unat (LL_high RH + ucast (drop_bit 32 C2) :: u32) = p4 div B + c2 div B"
    using high by (simp add: unat_word_ariths unat_ucast unat_LL_high unat_drop_bit_div C2 p B_def)
  moreover have "unat (ucast C2 :: u32) = c2 mod B" "unat (ucast C1 :: u32) = c1 mod B"
    by (simp_all add: unat_ucast C1 C2 B_def)
  ultimately show ?thesis
    by (simp add: unat_pair128 unat_LL_make unat_LL_low p total [symmetric]) (simp add: B_def)
qed

lemma mul64_mulu64: "mul64 a b = mulu64 a b"
proof -
  have "unat (pair128 (mulu64 a b)) = unat a * unat b"
  proof -
    have "unat a * unat b \<le> 18446744073709551615 * 18446744073709551615"
      using u64_bound [of a] u64_bound [of b] by (intro mult_le_mono) simp_all
    then show ?thesis using u64_bound [of a] u64_bound [of b]
      by (simp add: mulu64_def Let_def pair128_split unat_word_ariths unat_ucast)
  qed
  then have "pair128 (mul64 a b) = pair128 (mulu64 a b)"
    by (simp add: unat_mul64 word_unat_eq_iff)
  then show ?thesis by simp
qed

lemma bswap64_bit: "n < 64 \<Longrightarrow> bit (bswap64 x) n = bit x (8 * (7 - n div 8) + n mod 8)"
proof -
  have "\<forall>n \<in> set [0..<64]. bit (bswap64 x) n = bit x (8 * (7 - n div 8) + n mod 8)"
    by (simp add: bswap64_def upt_0_1 bit_simps) (simp add: numeral_2_eq_2)
  then show "n < 64 \<Longrightarrow> ?thesis" by simp
qed
lemma nibble_swap64_bit: "n < 64 \<Longrightarrow> bit (drop_bit 4 (x AND 0xf0f0f0f0f0f0f0f0) OR push_bit 4 (x AND 0x0f0f0f0f0f0f0f0f) :: u64) n 
  = bit x (8 * (n div 8) + (n + 4) mod 8)"
proof -
  have "\<forall>n \<in> set [0..<64]. bit (drop_bit 4 (x AND 0xf0f0f0f0f0f0f0f0) OR push_bit 4 (x AND 0x0f0f0f0f0f0f0f0f) :: u64) n = bit x (8 * (n div 8) + (n+4) mod 8)"
    by (simp add: upt_0_1 bit_simps) (simp add: numeral_2_eq_2)
  then show "n < 64 \<Longrightarrow> ?thesis" by simp
qed
lemma bit_swap64_bit: "n < 64 \<Longrightarrow> bit (drop_bit 3 (x AND 0x8888888888888888) OR drop_bit 1 (x AND 0x4444444444444444)
        OR push_bit 1 (x AND 0x2222222222222222) OR push_bit 3 (x AND 0x1111111111111111) :: u64) n 
  = bit x (4 * (n div 4) + (3 - n mod 4))"
proof -
  have "\<forall>n \<in> set [0..<64]. bit (drop_bit 3 (x AND 0x8888888888888888) OR drop_bit 1 (x AND 0x4444444444444444)
        OR push_bit 1 (x AND 0x2222222222222222) OR push_bit 3 (x AND 0x1111111111111111) :: u64) n  = bit x (4 * (n div 4) + (3 - n mod 4))"
    by (simp only: bit_or_iff bit_and_iff bit_push_bit_iff bit_drop_bit_eq comp_def possible_bit_word)
      (simp add: upt_0_1 flip: numeral_2_eq_2)
  then show "n < 64 \<Longrightarrow> ?thesis" by simp
qed
lemma swap64_index_less: fixes n :: nat assumes "n < 64" shows "4 * (n div 4) + (3 - n mod 4) < 64"
  "8 * (n div 8) + (n + 4) mod 8 < 64"
proof -
  have "n div 4 \<le> 15" "n div 8 \<le> 7" using assms by (simp_all add: less_mult_imp_div_less div_le_mono)
  then show "4 * (n div 4) + (3 - n mod 4) < 64" "8 * (n div 8) + (n + 4) mod 8 < 64"
    using mod_less_divisor [of 8 "n + 4"] by linarith+
qed

lemma swap64_index: fixes n :: nat assumes "n < 64" 
  shows "8 * (7 - (8 * ((4 * (n div 4) + (3 - n mod 4)) div 8) + ((4 * (n div 4) + (3 - n mod 4)) + 4) mod 8) div 8) + 
   (8 * ((4 * (n div 4) + (3 - n mod 4)) div 8) + ((4 * (n div 4) + (3 - n mod 4)) + 4) mod 8) mod 8 = 63 - n"
proof -
  have "\<forall>n \<in> set [0..<64]. 8 * (7 - (8 * ((4 * (n div 4) + (3 - n mod 4)) div 8) + ((4 * (n div 4) + (3 - n mod 4)) + 4) mod 8) div 8) + 
   (8 * ((4 * (n div 4) + (3 - n mod 4)) div 8) + ((4 * (n div 4) + (3 - n mod 4)) + 4) mod 8) mod 8 = 63 - n"
   by (simp add: upt_0_1)
  then show ?thesis using assms by simp
qed

lemma revbit64_rev: "n < 64 \<Longrightarrow> bit (revbit64 x) n = bit x (63 - n)"
  unfolding revbit64_def Let_def by (simp only: bit_swap64_bit nibble_swap64_bit bswap64_bit swap64_index_less swap64_index)

lemma scast_128: "(scast (a :: u64) :: 128 word) = ucast a - (if a <s 0 then push_bit 64 1 else 0)"
proof (cases "a <s 0")
  case True
  have "ucast a AND NOT (mask 64 :: 128 word) = 0"
    by (rule bit_word_eqI) (auto simp: bit_simps dest: bit_u64_imp_le)
  then have "ucast a + NOT (mask 64) = (ucast a OR NOT (mask 64) :: 128 word)"
    by (rule disjunctive_add_eq_or)
  also have "\<dots> = scast a"
    using True by (intro bit_word_eqI) (auto simp: sless_0_bit bit_simps min_def not_le not_less dest: le_neq_trans [of 63] bit_u64_imp_le)
  finally show ?thesis
    using True by (simp add: push_bit_eq_mult flip: minus_exp_eq_not_mask)
next
  case False
  then show ?thesis
    by (intro bit_word_eqI) (auto simp: sless_0_bit bit_simps min_def dest: le_neq_trans [of 63] bit_u64_imp_le)
qed

lemma word128_shift_64:
  obtains T :: "128 word" where "T * T = 0" and "T = of_nat (2 ^ 64)" and "\<And>x :: 128 word. push_bit 64 x = x * T"
proof
  show "(push_bit 64 1 :: 128 word) * push_bit 64 1 = 0" "(push_bit 64 1 :: 128 word) = of_nat (2 ^ 64)" by simp_all
  show "push_bit 64 x = x * push_bit 64 1" for x :: "128 word" by (simp add: push_bit_eq_mult)
qed

lemma push_ucast_add: "push_bit 64 (ucast (z + x :: u64) :: 128 word) = push_bit 64 (ucast z) + push_bit 64 (ucast x)"
proof -
  obtain T :: "128 word" where T: "T * T = 0" "T = of_nat (2 ^ 64)" "\<And>x :: 128 word. push_bit 64 x = x * T"
    by (rule word128_shift_64) blast
  have "unat (z + x) = unat z + unat x \<or> unat z + unat x = unat (z + x) + 2 ^ 64"
    using unat_plus_if' [of z x] by (simp split: if_splits)
  then have "(of_nat (unat (z + x)) :: 128 word) = of_nat (unat z) + of_nat (unat x)
      \<or> of_nat (unat z) + of_nat (unat x) = (of_nat (unat (z + x)) :: 128 word) + T"
    unfolding T(2) of_nat_add [symmetric] by (elim disj_forward) (simp_all only:)
  then have "(ucast (z + x) :: 128 word) * T = (ucast z + ucast x) * T"
    unfolding of_nat_unat
  proof
    assume "ucast z + ucast x = (ucast (z + x) :: 128 word) + T"
    then show ?thesis by (simp only: distrib_right T(1) add_0_right)
  qed (simp only:)
  then show ?thesis by (simp only: T(3) distrib_right)
qed

lemma pair128_add: "pair128 (l, h) = push_bit 64 (ucast h) + ucast l"
proof -
  have "(push_bit 64 (ucast h) :: 128 word) AND ucast l = 0"
    by (rule bit_word_eqI) (auto simp: bit_simps)
  then show ?thesis by (simp add: pair128_def disjunctive_add_eq_or)
qed

lemma pair128_sub: "pair128 (l, h - x) = pair128 (l, h) - push_bit 64 (ucast x)"
  using push_ucast_add [of "h - x" x] by (simp only: pair128_add diff_add_cancel) simp

lemma pair128_mulu64: "pair128 (mulu64 a b) = ucast a * ucast b"
  by (simp add: mulu64_def Let_def pair128_split)

lemma muls64_portable_correct: "muls64_portable a b = muls64 a b"
proof -
  obtain T :: "128 word" where T: "T * T = 0" "T = of_nat (2 ^ 64)" "\<And>x :: 128 word. push_bit 64 x = x * T"
    by (rule word128_shift_64) blast
  have "pair128 (muls64 a b) = scast a * scast b"
  proof -
    have "(ucast (signed_drop_bit 64 r) :: u64) = ucast (drop_bit 64 r)" for r :: "128 word"
      by (rule bit_word_eqI) (auto simp: bit_simps)
    then show ?thesis by (simp add: muls64_def Let_def pair128_split)
  qed
  also have "\<dots> = pair128 (muls64_portable a b)"
  proof -
    have s: "(scast x :: 128 word) = ucast x - (if x <s 0 then T else 0)" for x :: u64
      unfolding scast_128 T(3) by (simp only: mult_1)
    have "T * ucast (a + b) = T * ucast a + T * ucast b"
      using push_ucast_add [of a b] by (simp only: T(3) mult.commute)
    then show ?thesis unfolding muls64_portable_def mul64_mulu64 s
      by (cases "mulu64 a b")
        (use T(1) pair128_mulu64 [of a b] in \<open>simp add: pair128_sub T(3) algebra_simps\<close>)
  qed
  finally show ?thesis by simp
qed
lemma clz_below_spec:
  "clz_below n w \<le> n \<and> (\<forall>m. n - clz_below n w \<le> m \<and> m < n \<longrightarrow> \<not> bit w m)
    \<and> (clz_below n w < n \<longrightarrow> bit w (n - 1 - clz_below n w))"
proof (induction n)
  case (Suc n)
  then show ?case by (auto simp: less_Suc_eq Suc_diff_le)
qed simp

lemma clz64_zero_above: "64 - clz64 v \<le> m \<Longrightarrow> \<not> bit v m"
  using clz_below_spec [of 64 v] bit_u64_imp_le [of v m] by (auto simp: clz64_def split: if_splits)

lemma clz64_top: "v \<noteq> 0 \<Longrightarrow> clz64 v < 64 \<and> bit v (63 - clz64 v)"
proof -
  assume nz: "v \<noteq> 0"
  then obtain m where m: "bit v m" by (auto simp: bit_eq_iff)
  have "clz64 v \<noteq> 64" using clz64_zero_above [of v m] m by auto
  then show ?thesis using clz_below_spec [of 64 v] nz by (auto simp: clz64_def)
qed

lemma clz32_top: "v \<noteq> 0 \<Longrightarrow> clz32 v < 32 \<and> bit v (31 - clz32 v) \<and> (\<forall>m. 31 - clz32 v < m \<longrightarrow> \<not> bit v m)"
proof -
  assume nz: "v \<noteq> 0"
  then obtain m where m: "bit v m" by (auto simp: bit_eq_iff)
  have z: "\<not> bit v n" if "32 - clz_below 32 v \<le> n" for n
    using clz_below_spec [of 32 v] that bit_imp_le_length [of v n] by auto
  have "clz_below 32 v \<noteq> 32" using z [of m] m by auto
  then show ?thesis using clz_below_spec [of 32 v] nz z by (auto simp: clz32_def)
qed

lemma ctz_within_spec:
  "ctz_within n w \<le> n \<and> (\<forall>m < ctz_within n w. \<not> bit w m) \<and> (ctz_within n w < n \<longrightarrow> bit w (ctz_within n w))"
proof (induction n arbitrary: w)
  case (Suc n)
  show ?case using Suc [of "drop_bit 1 w"] by (auto simp: bit_simps less_Suc_eq_0_disj)
qed simp

lemma ctz64_low:
  assumes "v \<noteq> 0"
  shows "ctz64 v < 64 \<and> bit v (ctz64 v) \<and> (\<forall>m < ctz64 v. \<not> bit v m)"
proof -
  obtain m where m: "bit v m" using assms by (auto simp: bit_eq_iff)
  then have "m < 64" by (rule bit_u64_imp_le)
  then have "ctz_within 64 v \<noteq> 64" using ctz_within_spec [of 64 v] m by auto
  then show ?thesis using ctz_within_spec [of 64 v] assms by (auto simp: ctz64_def)
qed

lemma uadd64_carry_sum:
  "unat (fst (uadd64_carry x y c)) + 2 ^ 64 * of_bool (snd (uadd64_carry x y c))
    = unat x + unat y + of_bool c"
  using u64_bound [of x] u64_bound [of y]
  by (cases c) (auto simp: uadd64_carry_def uadd64_overflow_def unat_plus_if' split: prod.splits)

lemma usub64_borrow_diff:
  "unat (fst (usub64_borrow x y b)) + unat y + of_bool b
    = unat x + 2 ^ 64 * of_bool (snd (usub64_borrow x y b))"
  using u64_bound [of x] u64_bound [of y]
  by (cases b) (auto simp: usub64_borrow_def usub64_overflow_def unat_sub_if' split: prod.splits)

lemma urshift_drop: "pair128 (urshift p s) = drop_bit (s mod 128) (pair128 p)"
proof -
  obtain l h where p: "p = (l, h)" by (cases p)
  have m: "s mod 128 mod 64 = (if s mod 128 < 64 then s mod 128 else s mod 128 - 64)"
    by (simp add: le_mod_geq) 
  have lt: "s mod 128 < 128" by simp
  show ?thesis using lt unfolding p urshift_def Let_def prod.case m
    by (intro bit_word_eqI) (auto simp: bit_pair128 bit_simps ac_simps)
qed
lemma is_power_of_2_iff: "is_power_of_2 v \<longleftrightarrow> (\<exists>k < 64. v = 2 ^ k)"
proof
  assume "is_power_of_2 v"
  then have nz: "v \<noteq> 0" and z: "v AND (v - 1) = 0" by (auto simp: is_power_of_2_def split: if_splits)
  define k where "k = ctz64 v"
  have k: "k < 64" "bit v k" "\<forall>m<k. \<not> bit v m" using ctz64_low [OF nz] by (auto simp: k_def)
  define w where "w = v AND NOT (mask (Suc k))"
  have "w AND 2 ^ k = 0" "w AND mask k = 0" by (rule bit_word_eqI, auto simp: w_def bit_simps)+
  then have add: "w + 2 ^ k = w OR 2 ^ k" "w + mask k = w OR mask k"
    by (simp_all add: disjunctive_add_eq_or)
  have v: "v = w + 2 ^ k"
    unfolding add using k by (intro bit_word_eqI) (auto simp: w_def bit_simps not_less less_Suc_eq)
  then have "v - 1 = w + mask k" by (simp add: mask_eq_exp_minus_1)
  then have "v - 1 = w OR mask k" by (simp only: add(2))
  then have "v AND (v - 1) = (w OR 2 ^ k) AND (w OR mask k)" using v by (simp only: add(1))
  also have "\<dots> = w" by (rule bit_word_eqI) (auto simp: w_def bit_simps)
  finally have "w = 0" using z by simp
  then show "\<exists>k < 64. v = 2 ^ k" using v k by auto
next
  assume "\<exists>k < 64. v = 2 ^ k"
  then obtain k where "k < 64" "v = 2 ^ k" by blast
  then show "is_power_of_2 v" by (auto simp: is_power_of_2_def simp flip: mask_eq_exp_minus_1 intro!: bit_word_eqI simp: bit_simps)
qed

lemma ulshift_push: "pair128 (fst (ulshift p s ov)) = push_bit (s mod 128) (pair128 p)"
proof -
  obtain l h where p: "p = (l, h)" by (cases p)
  have m: "s mod 128 mod 64 = (if s mod 128 < 64 then s mod 128 else s mod 128 - 64)"
    by (simp add: le_mod_geq) 
  have lt: "s mod 128 < 128" by simp
  show ?thesis using lt unfolding p ulshift_def Let_def prod.case m
    by (intro bit_word_eqI) (auto simp: bit_pair128 bit_simps ac_simps split: prod.splits)
qed

lemma ulshift_flag:
  "snd (ulshift p s ov) \<longleftrightarrow> ov \<or> s mod 128 \<noteq> 0 \<and> drop_bit (128 - s mod 128) (pair128 p) \<noteq> 0"
proof -
  obtain l h where p: "p = (l, h)" by (cases p)
  have z: "pair128 q \<noteq> 0 \<longleftrightarrow> fst q OR snd q \<noteq> 0" for q
  proof -
    have "pair128 q = pair128 (0, 0) \<longleftrightarrow> fst q OR snd q = 0" 
      by (cases q) (auto simp: or_eq_0_iff)
    then show ?thesis by (simp add: pair128_def)
  qed
  have lt: "128 - s mod 128 < 128" if "s mod 128 \<noteq> 0" using that by simp
  show ?thesis
    using urshift_drop [of "(l, h)" "128 - s mod 128"] z [of "urshift (l, h) (128 - s mod 128)"]
    by (auto simp: p ulshift_def Let_def split: prod.splits)
qed


section \<open>Properties\<close>

lemma pair128_muls64: "pair128 (muls64 a b) = scast a * scast b"
proof -
  have "(ucast (signed_drop_bit 64 r) :: u64) = ucast (drop_bit 64 r)" for r :: "128 word"
    by (rule bit_word_eqI) (auto simp: bit_simps)
  then show ?thesis by (simp add: muls64_def Let_def pair128_split)
qed

lemma sint_u64_bounds: "- (2 ^ 63) \<le> sint (a :: u64)" "sint (a :: u64) < 2 ^ 63"
  using sint_greater_eq [of a] sint_less [of a] by simp_all

lemma sint_muls64: "sint (pair128 (muls64 a b)) = sint a * sint b"
proof -
  have "\<bar>sint a\<bar> \<le> 2 ^ 63" "\<bar>sint b\<bar> \<le> 2 ^ 63"
    using sint_u64_bounds [of a] sint_u64_bounds [of b] by simp_all
  then have "\<bar>sint a\<bar> * \<bar>sint b\<bar> \<le> 2 ^ 63 * 2 ^ 63" by (intro mult_mono) simp_all
  then have "\<bar>sint a * sint b\<bar> \<le> 2 ^ 126" by (simp add: abs_mult)
  then have "signed_take_bit 127 (sint a * sint b) = sint a * sint b"
    by (intro signed_take_bit_int_eq_self) simp_all
  moreover have "sint (scast x :: 128 word) = sint x" for x :: u64
    by (rule sint_up_scast) (simp add: is_up)
  ultimately show ?thesis by (simp add: pair128_muls64 sint_word_ariths)
qed

text \<open>The 64x64 to 128 bit multiplications are exact: the portable schoolbook
  multiplication of \<open>host-utils.c\<close> returns the full unsigned product without losing a carry,
  it agrees with the \<open>__int128\<close> version, and both signed versions return the full
  signed product.\<close>

theorem products_exact:
  "unat (pair128 (mul64 a b)) = unat a * unat b \<and> mulu64 a b = mul64 a b
    \<and> sint (pair128 (muls64_portable a b)) = sint a * sint b
    \<and> muls64 a b = muls64_portable a b"
  using unat_mul64 [of a b] sint_muls64 [of a b] by (simp add: mul64_mulu64 muls64_portable_correct)

text \<open>\<open>revbit64\<close> (swap bytes, then nibbles, then bits) reverses all 64 bits, and so is its
  own inverse.\<close>

theorem revbit64_reverses:
  "(bit (revbit64 x) n \<longleftrightarrow> n < 64 \<and> bit x (63 - n)) \<and> revbit64 (revbit64 x) = x"
proof -
  have *: "bit (revbit64 y) m \<longleftrightarrow> m < 64 \<and> bit y (63 - m)" for y m
    using revbit64_rev [of m y] bit_u64_imp_le [of "revbit64 y" m] by blast
  have "revbit64 (revbit64 x) = x" by (rule bit_word_eqI) (auto simp: *)
  then show ?thesis using * by blast
qed

text \<open>\<open>urshift\<close> and \<open>ulshift\<close> shift the 128-bit number that the pair holds, for every shift
  count modulo 128; \<open>ulshift\<close> raises its overflow flag exactly when a one bit is shifted out,
  and never clears it.\<close>

theorem shifts128:
  "pair128 (urshift p s) = drop_bit (s mod 128) (pair128 p)
    \<and> pair128 (fst (ulshift p s ov)) = push_bit (s mod 128) (pair128 p)
    \<and> (snd (ulshift p s ov) \<longleftrightarrow>
        ov \<or> (s mod 128 \<noteq> 0 \<and> drop_bit (128 - s mod 128) (pair128 p) \<noteq> 0))"
  by (simp add: urshift_drop ulshift_push ulshift_flag)

end
