(* ===== verification/Device_IO.thy ===== *)
theory Device_IO
  imports Emu_Prelude
begin

text \<open>
  The I/O dispatcher of \<open>device/device_io.c\<close>: a table of \<open>IO_DEV_MAX\<close> slots, the registration
  of a device on an address range, and the dispatch of a read or write to the device whose range
  contains the access.

  A slot is the record \<open>io_device_t\<close>. The pointer \<open>opaque\<close> and the callback it is passed to are
  one closure of the model, which acts on the world \<open>'w\<close> that the devices can reach; a callback
  may stop the emulator (the power-off port) or fail an assertion, hence the outcome.
  The table is the list \<open>io_devices\<close>, of length \<open>IO_DEV_MAX\<close>.

  \<open>io_table_ok\<close> is the invariant (the ranges in use do not wrap and are pairwise disjoint);
  registration keeps it, and it makes dispatch independent of the order of the slots.
\<close>

definition IO_DEV_MAX :: nat where
  "IO_DEV_MAX = 16"

record 'w io_device_t =
  dev_read :: "u64 \<Rightarrow> u32 \<Rightarrow> 'w \<Rightarrow> (u64, 'w) outcome"
  dev_write :: "u64 \<Rightarrow> u64 \<Rightarrow> u32 \<Rightarrow> 'w \<Rightarrow> (unit, 'w) outcome"
  dev_fini :: "('w \<Rightarrow> 'w) option"
  base_addr :: u64
  dev_size :: u32
  in_use :: bool

definition dev_start :: "'w io_device_t \<Rightarrow> u64" where
  "dev_start d = base_addr d"

definition dev_end :: "'w io_device_t \<Rightarrow> u64" where
  "dev_end d = base_addr d + ucast (dev_size d)"

text \<open>The search for a free slot, and for a device that overlaps the new range.\<close>

fun free_slot :: "nat \<Rightarrow> 'w io_device_t list \<Rightarrow> nat option" where
  "free_slot i [] = None"
| "free_slot i (d # ds) = (if \<not> in_use d then Some i else free_slot (Suc i) ds)"

definition overlaps :: "u64 \<Rightarrow> u64 \<Rightarrow> 'w io_device_t \<Rightarrow> bool" where
  "overlaps new_start new_end d \<longleftrightarrow>
    in_use d \<and> new_end > dev_start d \<and> new_start < dev_end d"

definition io_register_device ::
  "(u64 \<Rightarrow> u32 \<Rightarrow> 'w \<Rightarrow> (u64, 'w) outcome) \<Rightarrow> (u64 \<Rightarrow> u64 \<Rightarrow> u32 \<Rightarrow> 'w \<Rightarrow> (unit, 'w) outcome)
    \<Rightarrow> ('w \<Rightarrow> 'w) option \<Rightarrow> u64 \<Rightarrow> u32 \<Rightarrow> 'w io_device_t list \<Rightarrow> int \<times> 'w io_device_t list" where
  "io_register_device rd wr fini base sz devs =
    (case free_slot 0 devs of
      None \<Rightarrow> (-1, devs)
    | Some slot \<Rightarrow>
        if list_ex (overlaps base (base + ucast sz)) devs then (-1, devs)
        else (0, devs[slot := \<lparr>dev_read = rd, dev_write = wr, dev_fini = fini,
                               base_addr = base, dev_size = sz, in_use = True\<rparr>]))"

definition handles :: "u64 \<Rightarrow> u32 \<Rightarrow> 'w io_device_t \<Rightarrow> bool" where
  "handles addr sz d \<longleftrightarrow> in_use d \<and> addr \<ge> dev_start d \<and> addr + ucast sz \<le> dev_end d"

fun io_read :: "'w io_device_t list \<Rightarrow> u64 \<Rightarrow> u32 \<Rightarrow> 'w \<Rightarrow> (u64, 'w) outcome" where
  "io_read [] addr sz s = Ret 0 s"
| "io_read (d # ds) addr sz s =
    (if handles addr sz d then dev_read d (addr - dev_start d) sz s else io_read ds addr sz s)"

fun io_write :: "'w io_device_t list \<Rightarrow> u64 \<Rightarrow> u64 \<Rightarrow> u32 \<Rightarrow> 'w \<Rightarrow> (unit, 'w) outcome" where
  "io_write [] addr val sz s = Ret () s"
| "io_write (d # ds) addr val sz s =
    (if handles addr sz d then dev_write d (addr - dev_start d) val sz s
     else io_write ds addr val sz s)"

text \<open>The destructor: every device in use is finalised once and its slot freed.\<close>

fun io_fini_all :: "'w io_device_t list \<Rightarrow> 'w \<Rightarrow> 'w io_device_t list \<times> 'w" where
  "io_fini_all [] s = ([], s)"
| "io_fini_all (d # ds) s =
    (if in_use d
     then let s = (case dev_fini d of Some f \<Rightarrow> f s | None \<Rightarrow> s);
              (ds', s) = io_fini_all ds s
          in (d\<lparr>in_use := False\<rparr> # ds', s)
     else let (ds', s) = io_fini_all ds s in (d # ds', s))"

section \<open>The invariant of the table\<close>

definition range_ok :: "u64 \<Rightarrow> u32 \<Rightarrow> bool" where
  "range_ok base sz \<longleftrightarrow> unat base + unat sz < 2 ^ 64"

definition ranges_disjoint :: "'w io_device_t \<Rightarrow> 'w io_device_t \<Rightarrow> bool" where
  "ranges_disjoint d e \<longleftrightarrow> dev_end d \<le> dev_start e \<or> dev_end e \<le> dev_start d"

definition io_table_ok :: "'w io_device_t list \<Rightarrow> bool" where
  "io_table_ok devs \<longleftrightarrow> length devs = IO_DEV_MAX
    \<and> (\<forall>d \<in> set devs. in_use d \<longrightarrow> range_ok (base_addr d) (dev_size d))
    \<and> (\<forall>i < length devs. \<forall>j < length devs. i \<noteq> j \<longrightarrow> in_use (devs ! i) \<longrightarrow> in_use (devs ! j) \<longrightarrow>
         ranges_disjoint (devs ! i) (devs ! j))"

lemma free_slot_Some:
  "free_slot k devs = Some i \<Longrightarrow> k \<le> i \<and> i < k + length devs \<and> \<not> in_use (devs ! (i - k))"
proof (induction k devs rule: free_slot.induct)
  case (2 k d ds)
  show ?case
  proof (cases "in_use d")
    case True
    then have "Suc k \<le> i" "i < Suc k + length ds" "\<not> in_use (ds ! (i - Suc k))" using 2 by auto
    moreover have "i - k = Suc (i - Suc k)" using \<open>Suc k \<le> i\<close> by simp
    ultimately show ?thesis by simp
  qed (use 2 in auto)
qed simp

lemma free_slot_None: "free_slot k devs = None \<longleftrightarrow> (\<forall>d \<in> set devs. in_use d)"
  by (induction k devs rule: free_slot.induct) auto

lemma unat_dev_end:
  "range_ok (base_addr d) (dev_size d) \<Longrightarrow> unat (dev_end d) = unat (base_addr d) + unat (dev_size d)"
  using u32_bound [of "dev_size d"]
  by (simp add: dev_end_def range_ok_def unat_word_ariths unat_ucast)

lemma ranges_disjoint_sym: "ranges_disjoint d e \<longleftrightarrow> ranges_disjoint e d"
  by (auto simp: ranges_disjoint_def)

lemma register_ok:
  assumes ok: "io_table_ok devs" and rng: "range_ok base sz"
    and reg: "io_register_device rd wr fini base sz devs = (r, devs')"
  shows "io_table_ok devs'"
proof (cases "devs' = devs")
  case False
  let ?new = "\<lparr>dev_read = rd, dev_write = wr, dev_fini = fini,
    base_addr = base, dev_size = sz, in_use = True\<rparr>"
  obtain slot where slot: "free_slot 0 devs = Some slot"
    and no: "\<not> list_ex (overlaps base (base + ucast sz)) devs" and devs': "devs' = devs[slot := ?new]"
    using reg False by (auto simp: io_register_device_def split: option.splits if_splits)
  have s: "slot < length devs" "\<not> in_use (devs ! slot)" using free_slot_Some [OF slot] by auto
  have new: "ranges_disjoint ?new d" if "d \<in> set devs" "in_use d" for d
    using no that by (auto simp: list_ex_iff overlaps_def ranges_disjoint_def dev_start_def dev_end_def)
  have "ranges_disjoint (devs' ! i) (devs' ! j)"
    if "i < length devs'" "j < length devs'" "i \<noteq> j" "in_use (devs' ! i)" "in_use (devs' ! j)" for i j
    using that ok new s unfolding devs' io_table_ok_def
    by (cases "i = slot"; cases "j = slot") (auto simp: nth_list_update ranges_disjoint_sym)
  moreover have "in_use d \<longrightarrow> range_ok (base_addr d) (dev_size d)" if "d \<in> set devs'" for d
    using that ok rng set_update_subset_insert [of devs slot ?new]
    by (auto simp: devs' io_table_ok_def)
  ultimately show ?thesis using ok by (auto simp: io_table_ok_def devs')
qed (use ok in simp)

text \<open>Two devices of a sound table never claim the same access.\<close>

lemma handles_unique:
  assumes "io_table_ok devs" and "i < length devs" and "j < length devs"
    and "handles addr sz (devs ! i)" and "handles addr sz (devs ! j)"
    and "0 < unat sz" and "unat addr + unat sz < 2 ^ 64"
  shows "i = j"
proof (rule ccontr)
  assume "i \<noteq> j"
  then have "ranges_disjoint (devs ! i) (devs ! j)"
    using assms by (auto simp: io_table_ok_def handles_def)
  moreover have "unat (addr + ucast sz) = unat addr + unat sz"
    using assms(7) u32_bound [of sz] by (simp add: unat_word_ariths unat_ucast)
  ultimately show False
    using assms(4-7) by (auto simp: handles_def ranges_disjoint_def word_le_nat_alt)
qed

lemma io_read_at:
  assumes "i < length devs" and "handles addr sz (devs ! i)"
    and "\<And>j. j < length devs \<Longrightarrow> handles addr sz (devs ! j) \<Longrightarrow> j = i"
  shows "io_read devs addr sz s = dev_read (devs ! i) (addr - dev_start (devs ! i)) sz s"
  using assms
proof (induction devs arbitrary: i)
  case (Cons d ds)
  show ?case
  proof (cases i)
    case (Suc k)
    then have "\<not> handles addr sz d" using Cons.prems(3) [of 0] by auto
    moreover have "io_read ds addr sz s = dev_read (ds ! k) (addr - dev_start (ds ! k)) sz s"
    proof (rule Cons.IH)
      show "j = k" if "j < length ds" "handles addr sz (ds ! j)" for j
        using Cons.prems(3) [of "Suc j"] that Suc by simp
    qed (use Cons.prems Suc in simp_all)
    ultimately show ?thesis using Suc by simp
  qed (use Cons.prems in simp)
qed simp

lemma io_write_at:
  assumes "i < length devs" and "handles addr sz (devs ! i)"
    and "\<And>j. j < length devs \<Longrightarrow> handles addr sz (devs ! j) \<Longrightarrow> j = i"
  shows "io_write devs addr val sz s = dev_write (devs ! i) (addr - dev_start (devs ! i)) val sz s"
  using assms
proof (induction devs arbitrary: i)
  case (Cons d ds)
  show ?case
  proof (cases i)
    case (Suc k)
    then have "\<not> handles addr sz d" using Cons.prems(3) [of 0] by auto
    moreover have "io_write ds addr val sz s = dev_write (ds ! k) (addr - dev_start (ds ! k)) val sz s"
    proof (rule Cons.IH)
      show "j = k" if "j < length ds" "handles addr sz (ds ! j)" for j
        using Cons.prems(3) [of "Suc j"] that Suc by simp
    qed (use Cons.prems Suc in simp_all)
    ultimately show ?thesis using Suc by simp
  qed (use Cons.prems in simp)
qed simp

lemma io_read_unmapped: "(\<And>d. d \<in> set devs \<Longrightarrow> \<not> handles addr sz d) \<Longrightarrow> io_read devs addr sz s = Ret 0 s"
  by (induction devs) auto

lemma io_fini_all_frees: "\<forall>d \<in> set (fst (io_fini_all devs s)). \<not> in_use d"
proof (induction devs arbitrary: s)
  case (Cons d ds)
  then show ?case by (cases "in_use d") (simp_all add: Let_def case_prod_beta)
qed simp

section \<open>Properties\<close>

definition empty_slot :: "'w io_device_t" where
  "empty_slot = \<lparr>dev_read = \<lambda>a n s. Ret 0 s, dev_write = \<lambda>a v n s. Ret () s, dev_fini = None,
     base_addr = 0, dev_size = 0, in_use = False\<rparr>"

lemma register_slot:
  assumes "io_register_device rd wr fini base sz devs = (0, devs')"
  obtains slot where "slot < length devs" and "devs' = devs[slot := \<lparr>dev_read = rd, dev_write = wr,
    dev_fini = fini, base_addr = base, dev_size = sz, in_use = True\<rparr>]"
  using assms that by (auto simp: io_register_device_def split: option.splits if_splits
      dest: free_slot_Some)

text \<open>(C18) A successful registration keeps the table sound (no range wraps, ranges in use are
  disjoint), and from then on every access inside the new range, wherever its slot is, reaches
  the new device with the offset from its base.\<close>

theorem register_then_dispatch:
  assumes "io_table_ok devs" and "range_ok base sz"
    and "io_register_device rd wr fini base sz devs = (0, devs')"
    and "0 < unat n" and "unat off + unat n \<le> unat sz"
  shows "io_table_ok devs' \<and> io_read devs' (base + off) n s = rd off n s
    \<and> io_write devs' (base + off) v n s = wr off v n s"
proof -
  let ?new = "\<lparr>dev_read = rd, dev_write = wr, dev_fini = fini, base_addr = base, dev_size = sz,
    in_use = True\<rparr>"
  obtain slot where slot: "slot < length devs" and devs': "devs' = devs[slot := ?new]"
    using assms(3) by (rule register_slot)
  have ok: "io_table_ok devs'" using assms(1-3) by (rule register_ok)
  have sum: "unat (base + off) = unat base + unat off"
    using assms(2,5) by (simp add: range_ok_def unat_word_ariths)
  have sum_end: "unat (base + ucast sz) = unat base + unat sz"
    "unat (base + off + ucast n) = unat base + unat off + unat n"
    using assms(2,5) u32_bound [of sz] u32_bound [of n] sum
    by (simp_all add: range_ok_def unat_word_ariths unat_ucast)
  have h: "handles (base + off) n (devs' ! slot)"
    using slot assms(5) sum sum_end
    by (simp add: devs' handles_def dev_start_def dev_end_def word_le_nat_alt)
  have uniq: "j = slot" if "j < length devs'" "handles (base + off) n (devs' ! j)" for j
    using handles_unique [OF ok that(1) _ that(2) h assms(4)] slot sum assms(2,5)
    by (simp add: devs' range_ok_def)
  show ?thesis
    using ok io_read_at [OF _ h uniq] io_write_at [OF _ h uniq] slot
    by (simp add: devs' dev_start_def)
qed

theorem register_then_dispatch_witness:
  "io_table_ok (replicate 16 (empty_slot :: nat io_device_t))
    \<and> io_read (snd (io_register_device (\<lambda>a n s. Ret (a + 1) (Suc s)) (\<lambda>a v n s. Ret () s) None
        0x1fe001e0 8 (replicate 16 empty_slot))) 0x1fe001e5 1 7 = Ret 6 8"
proof -
  have ok: "io_table_ok (replicate 16 (empty_slot :: nat io_device_t))"
    by (simp add: io_table_ok_def IO_DEV_MAX_def empty_slot_def)
  define dv where "dv = snd (io_register_device (\<lambda>a n s. Ret (a + 1) (Suc s)) (\<lambda>a v n s. Ret () s) None
        0x1fe001e0 8 (replicate 16 empty_slot))"
  have "io_register_device (\<lambda>a n s. Ret (a + 1) (Suc s)) (\<lambda>a v n s. Ret () s) None
        0x1fe001e0 8 (replicate 16 empty_slot) = (0, dv)"
    by (simp add: dv_def io_register_device_def overlaps_def empty_slot_def numeral_eq_Suc)
  then show ?thesis
    using register_then_dispatch [where devs = "replicate 16 empty_slot" and base = "0x1fe001e0" and sz = 8
        and rd = "\<lambda>a n s. Ret (a + 1) (Suc s)" and wr = "\<lambda>a v n s. Ret () s" and fini = None
        and devs' = dv and n = 1 and off = 5 and s = 7] ok
    by (simp add: range_ok_def dv_def)
qed

end
