(* ===== verification/LA_Regs.thy ===== *)
theory LA_Regs
  imports Bitops
begin

text \<open>
  The architectural constants of the LoongArch headers: the fields of the control and status
  registers (\<open>loongarch64/cpu-csr.h\<close>, and those of \<open>loongarch64/cpu.h\<close> that the code uses),
  the CSR numbers, the write masks and the exception codes. A field is the pair of its
  position and length; the facts of the collections \<open>field_defs\<close> and \<open>const_defs\<close> unfold them.
\<close>

section \<open>Register fields\<close>

text \<open>Every \<open>FIELD\<close> of \<open>cpu-csr.h\<close>, and those of \<open>cpu.h\<close> that the code uses.\<close>

definition CSR_PRMD_PPLV :: field where [field_defs]: "CSR_PRMD_PPLV = (0, 2)"
definition CSR_PRMD_PIE :: field where [field_defs]: "CSR_PRMD_PIE = (2, 1)"
definition CSR_PRMD_PWE :: field where [field_defs]: "CSR_PRMD_PWE = (3, 1)"
definition CSR_EUEN_FPE :: field where [field_defs]: "CSR_EUEN_FPE = (0, 1)"
definition CSR_EUEN_SXE :: field where [field_defs]: "CSR_EUEN_SXE = (1, 1)"
definition CSR_EUEN_ASXE :: field where [field_defs]: "CSR_EUEN_ASXE = (2, 1)"
definition CSR_EUEN_BTE :: field where [field_defs]: "CSR_EUEN_BTE = (3, 1)"
definition CSR_MISC_VA32 :: field where [field_defs]: "CSR_MISC_VA32 = (0, 4)"
definition CSR_MISC_DRDTL :: field where [field_defs]: "CSR_MISC_DRDTL = (4, 4)"
definition CSR_MISC_RPCNTL :: field where [field_defs]: "CSR_MISC_RPCNTL = (8, 4)"
definition CSR_MISC_ALCL :: field where [field_defs]: "CSR_MISC_ALCL = (12, 4)"
definition CSR_MISC_DWPL :: field where [field_defs]: "CSR_MISC_DWPL = (16, 3)"
definition CSR_ECFG_LIE :: field where [field_defs]: "CSR_ECFG_LIE = (0, 13)"
definition CSR_ECFG_VS :: field where [field_defs]: "CSR_ECFG_VS = (16, 3)"
definition CSR_ESTAT_IS :: field where [field_defs]: "CSR_ESTAT_IS = (0, 13)"
definition CSR_ESTAT_ECODE :: field where [field_defs]: "CSR_ESTAT_ECODE = (16, 6)"
definition CSR_ESTAT_ESUBCODE :: field where [field_defs]: "CSR_ESTAT_ESUBCODE = (22, 9)"
definition CSR_TLBIDX_INDEX :: field where [field_defs]: "CSR_TLBIDX_INDEX = (0, 12)"
definition CSR_TLBIDX_PS :: field where [field_defs]: "CSR_TLBIDX_PS = (24, 6)"
definition CSR_TLBIDX_NE :: field where [field_defs]: "CSR_TLBIDX_NE = (31, 1)"
definition CSR_TLBEHI_32_VPPN :: field where [field_defs]: "CSR_TLBEHI_32_VPPN = (13, 19)"
definition CSR_TLBEHI_64_VPPN :: field where [field_defs]: "CSR_TLBEHI_64_VPPN = (13, 35)"
definition TLBENTRY_V :: field where [field_defs]: "TLBENTRY_V = (0, 1)"
definition TLBENTRY_D :: field where [field_defs]: "TLBENTRY_D = (1, 1)"
definition TLBENTRY_PLV :: field where [field_defs]: "TLBENTRY_PLV = (2, 2)"
definition TLBENTRY_MAT :: field where [field_defs]: "TLBENTRY_MAT = (4, 2)"
definition TLBENTRY_G :: field where [field_defs]: "TLBENTRY_G = (6, 1)"
definition TLBENTRY_HUGE :: field where [field_defs]: "TLBENTRY_HUGE = (6, 1)"
definition TLBENTRY_P :: field where [field_defs]: "TLBENTRY_P = (7, 1)"
definition TLBENTRY_W :: field where [field_defs]: "TLBENTRY_W = (8, 1)"
definition TLBENTRY_HGLOBAL :: field where [field_defs]: "TLBENTRY_HGLOBAL = (12, 1)"
definition TLBENTRY_LEVEL :: field where [field_defs]: "TLBENTRY_LEVEL = (13, 2)"
definition TLBENTRY_32_PPN :: field where [field_defs]: "TLBENTRY_32_PPN = (8, 24)"
definition TLBENTRY_64_PPN :: field where [field_defs]: "TLBENTRY_64_PPN = (12, 36)"
definition TLBENTRY_64_NR :: field where [field_defs]: "TLBENTRY_64_NR = (61, 1)"
definition TLBENTRY_64_NX :: field where [field_defs]: "TLBENTRY_64_NX = (62, 1)"
definition TLBENTRY_64_RPLV :: field where [field_defs]: "TLBENTRY_64_RPLV = (63, 1)"
definition CSR_ASID_ASID :: field where [field_defs]: "CSR_ASID_ASID = (0, 10)"
definition CSR_ASID_ASIDBITS :: field where [field_defs]: "CSR_ASID_ASIDBITS = (16, 8)"
definition CSR_PWCL_PTBASE :: field where [field_defs]: "CSR_PWCL_PTBASE = (0, 5)"
definition CSR_PWCL_PTWIDTH :: field where [field_defs]: "CSR_PWCL_PTWIDTH = (5, 5)"
definition CSR_PWCL_DIR1_BASE :: field where [field_defs]: "CSR_PWCL_DIR1_BASE = (10, 5)"
definition CSR_PWCL_DIR1_WIDTH :: field where [field_defs]: "CSR_PWCL_DIR1_WIDTH = (15, 5)"
definition CSR_PWCL_DIR2_BASE :: field where [field_defs]: "CSR_PWCL_DIR2_BASE = (20, 5)"
definition CSR_PWCL_DIR2_WIDTH :: field where [field_defs]: "CSR_PWCL_DIR2_WIDTH = (25, 5)"
definition CSR_PWCL_PTEWIDTH :: field where [field_defs]: "CSR_PWCL_PTEWIDTH = (30, 2)"
definition CSR_PWCH_DIR3_BASE :: field where [field_defs]: "CSR_PWCH_DIR3_BASE = (0, 6)"
definition CSR_PWCH_DIR3_WIDTH :: field where [field_defs]: "CSR_PWCH_DIR3_WIDTH = (6, 6)"
definition CSR_PWCH_DIR4_BASE :: field where [field_defs]: "CSR_PWCH_DIR4_BASE = (12, 6)"
definition CSR_PWCH_DIR4_WIDTH :: field where [field_defs]: "CSR_PWCH_DIR4_WIDTH = (18, 6)"
definition CSR_PWCH_HPTW_EN :: field where [field_defs]: "CSR_PWCH_HPTW_EN = (24, 1)"
definition CSR_STLBPS_PS :: field where [field_defs]: "CSR_STLBPS_PS = (0, 6)"
definition CSR_RVACFG_RBITS :: field where [field_defs]: "CSR_RVACFG_RBITS = (0, 4)"
definition CSR_PRCFG1_SAVE_NUM :: field where [field_defs]: "CSR_PRCFG1_SAVE_NUM = (0, 4)"
definition CSR_PRCFG1_TIMER_BITS :: field where [field_defs]: "CSR_PRCFG1_TIMER_BITS = (4, 8)"
definition CSR_PRCFG1_VSMAX :: field where [field_defs]: "CSR_PRCFG1_VSMAX = (12, 3)"
definition CSR_PRCFG3_TLB_TYPE :: field where [field_defs]: "CSR_PRCFG3_TLB_TYPE = (0, 4)"
definition CSR_PRCFG3_MTLB_ENTRY :: field where [field_defs]: "CSR_PRCFG3_MTLB_ENTRY = (4, 8)"
definition CSR_PRCFG3_STLB_WAYS :: field where [field_defs]: "CSR_PRCFG3_STLB_WAYS = (12, 8)"
definition CSR_PRCFG3_STLB_SETS :: field where [field_defs]: "CSR_PRCFG3_STLB_SETS = (20, 8)"
definition CSR_TCFG_EN :: field where [field_defs]: "CSR_TCFG_EN = (0, 1)"
definition CSR_TCFG_PERIODIC :: field where [field_defs]: "CSR_TCFG_PERIODIC = (1, 1)"
definition CSR_TCFG_INIT_VAL :: field where [field_defs]: "CSR_TCFG_INIT_VAL = (2, 46)"
definition CSR_LLBCTL_ROLLB :: field where [field_defs]: "CSR_LLBCTL_ROLLB = (0, 1)"
definition CSR_LLBCTL_WCLLB :: field where [field_defs]: "CSR_LLBCTL_WCLLB = (1, 1)"
definition CSR_LLBCTL_KLO :: field where [field_defs]: "CSR_LLBCTL_KLO = (2, 1)"
definition CSR_TLBRERA_ISTLBR :: field where [field_defs]: "CSR_TLBRERA_ISTLBR = (0, 1)"
definition CSR_TLBRERA_PC :: field where [field_defs]: "CSR_TLBRERA_PC = (2, 62)"
definition CSR_TLBREHI_PS :: field where [field_defs]: "CSR_TLBREHI_PS = (0, 6)"
definition CSR_TLBREHI_32_VPPN :: field where [field_defs]: "CSR_TLBREHI_32_VPPN = (13, 19)"
definition CSR_TLBREHI_64_VPPN :: field where [field_defs]: "CSR_TLBREHI_64_VPPN = (13, 35)"
definition CSR_TLBRPRMD_PPLV :: field where [field_defs]: "CSR_TLBRPRMD_PPLV = (0, 2)"
definition CSR_TLBRPRMD_PIE :: field where [field_defs]: "CSR_TLBRPRMD_PIE = (2, 1)"
definition CSR_TLBRPRMD_PWE :: field where [field_defs]: "CSR_TLBRPRMD_PWE = (4, 1)"
definition CSR_MERRCTL_ISMERR :: field where [field_defs]: "CSR_MERRCTL_ISMERR = (0, 1)"
definition CSR_DMW_PLV0 :: field where [field_defs]: "CSR_DMW_PLV0 = (0, 1)"
definition CSR_DMW_PLV1 :: field where [field_defs]: "CSR_DMW_PLV1 = (1, 1)"
definition CSR_DMW_PLV2 :: field where [field_defs]: "CSR_DMW_PLV2 = (2, 1)"
definition CSR_DMW_PLV3 :: field where [field_defs]: "CSR_DMW_PLV3 = (3, 1)"
definition CSR_DMW_MAT :: field where [field_defs]: "CSR_DMW_MAT = (4, 2)"
definition CSR_DMW_32_PSEG :: field where [field_defs]: "CSR_DMW_32_PSEG = (25, 3)"
definition CSR_DMW_32_VSEG :: field where [field_defs]: "CSR_DMW_32_VSEG = (29, 3)"
definition CSR_DMW_64_VSEG :: field where [field_defs]: "CSR_DMW_64_VSEG = (60, 4)"
definition CSR_DBG_DST :: field where [field_defs]: "CSR_DBG_DST = (0, 1)"
definition CSR_DBG_DREV :: field where [field_defs]: "CSR_DBG_DREV = (1, 7)"
definition CSR_DBG_DEI :: field where [field_defs]: "CSR_DBG_DEI = (8, 1)"
definition CSR_DBG_DCL :: field where [field_defs]: "CSR_DBG_DCL = (9, 1)"
definition CSR_DBG_DFW :: field where [field_defs]: "CSR_DBG_DFW = (10, 1)"
definition CSR_DBG_DMW :: field where [field_defs]: "CSR_DBG_DMW = (11, 1)"
definition CSR_DBG_ECODE :: field where [field_defs]: "CSR_DBG_ECODE = (16, 6)"
definition FCSR0_ENABLES :: field where [field_defs]: "FCSR0_ENABLES = (0, 5)"
definition FCSR0_RM :: field where [field_defs]: "FCSR0_RM = (8, 2)"
definition FCSR0_FLAGS :: field where [field_defs]: "FCSR0_FLAGS = (16, 5)"
definition FCSR0_CAUSE :: field where [field_defs]: "FCSR0_CAUSE = (24, 5)"
definition CPUCFG1_ARCH :: field where [field_defs]: "CPUCFG1_ARCH = (0, 2)"
definition CPUCFG1_PGMMU :: field where [field_defs]: "CPUCFG1_PGMMU = (2, 1)"
definition CPUCFG1_IOCSR :: field where [field_defs]: "CPUCFG1_IOCSR = (3, 1)"
definition CPUCFG1_PALEN :: field where [field_defs]: "CPUCFG1_PALEN = (4, 8)"
definition CPUCFG1_VALEN :: field where [field_defs]: "CPUCFG1_VALEN = (12, 8)"
definition CPUCFG1_UAL :: field where [field_defs]: "CPUCFG1_UAL = (20, 1)"
definition CPUCFG1_RI :: field where [field_defs]: "CPUCFG1_RI = (21, 1)"
definition CPUCFG1_EP :: field where [field_defs]: "CPUCFG1_EP = (22, 1)"
definition CPUCFG1_RPLV :: field where [field_defs]: "CPUCFG1_RPLV = (23, 1)"
definition CPUCFG1_HP :: field where [field_defs]: "CPUCFG1_HP = (24, 1)"
definition CPUCFG1_IOCSR_BRD :: field where [field_defs]: "CPUCFG1_IOCSR_BRD = (25, 1)"
definition CPUCFG1_MSG_INT :: field where [field_defs]: "CPUCFG1_MSG_INT = (26, 1)"
definition CPUCFG2_FP :: field where [field_defs]: "CPUCFG2_FP = (0, 1)"
definition CPUCFG2_FP_SP :: field where [field_defs]: "CPUCFG2_FP_SP = (1, 1)"
definition CPUCFG2_FP_DP :: field where [field_defs]: "CPUCFG2_FP_DP = (2, 1)"
definition CPUCFG2_FP_VER :: field where [field_defs]: "CPUCFG2_FP_VER = (3, 3)"
definition CPUCFG2_LSX :: field where [field_defs]: "CPUCFG2_LSX = (6, 1)"
definition CPUCFG2_LASX :: field where [field_defs]: "CPUCFG2_LASX = (7, 1)"
definition CPUCFG2_LVZ_VER :: field where [field_defs]: "CPUCFG2_LVZ_VER = (11, 3)"
definition CPUCFG2_LLFTP :: field where [field_defs]: "CPUCFG2_LLFTP = (14, 1)"
definition CPUCFG2_LLFTP_VER :: field where [field_defs]: "CPUCFG2_LLFTP_VER = (15, 3)"
definition CPUCFG2_LBT_X86 :: field where [field_defs]: "CPUCFG2_LBT_X86 = (18, 1)"
definition CPUCFG2_LBT_ARM :: field where [field_defs]: "CPUCFG2_LBT_ARM = (19, 1)"
definition CPUCFG2_LBT_MIPS :: field where [field_defs]: "CPUCFG2_LBT_MIPS = (20, 1)"
definition CPUCFG2_LSPW :: field where [field_defs]: "CPUCFG2_LSPW = (21, 1)"
definition CPUCFG2_LAM :: field where [field_defs]: "CPUCFG2_LAM = (22, 1)"
definition CPUCFG2_HPTW :: field where [field_defs]: "CPUCFG2_HPTW = (24, 1)"
definition CPUCFG2_FRECIPE :: field where [field_defs]: "CPUCFG2_FRECIPE = (25, 1)"
definition CPUCFG2_DIV32 :: field where [field_defs]: "CPUCFG2_DIV32 = (26, 1)"
definition CPUCFG2_LAM_BH :: field where [field_defs]: "CPUCFG2_LAM_BH = (27, 1)"
definition CPUCFG2_LAMCAS :: field where [field_defs]: "CPUCFG2_LAMCAS = (28, 1)"
definition CPUCFG2_LLACQ_SCREL :: field where [field_defs]: "CPUCFG2_LLACQ_SCREL = (29, 1)"
definition CPUCFG2_SCQ :: field where [field_defs]: "CPUCFG2_SCQ = (30, 1)"
definition CPUCFG3_SFB :: field where [field_defs]: "CPUCFG3_SFB = (1, 1)"
definition CPUCFG3_UCACC :: field where [field_defs]: "CPUCFG3_UCACC = (2, 1)"
definition CPUCFG3_LLEXC :: field where [field_defs]: "CPUCFG3_LLEXC = (3, 1)"
definition CPUCFG3_SCDLY :: field where [field_defs]: "CPUCFG3_SCDLY = (4, 1)"
definition CPUCFG3_LLDBAR :: field where [field_defs]: "CPUCFG3_LLDBAR = (5, 1)"
definition CPUCFG3_ITLBHMC :: field where [field_defs]: "CPUCFG3_ITLBHMC = (6, 1)"
definition CPUCFG3_ICHMC :: field where [field_defs]: "CPUCFG3_ICHMC = (7, 1)"
definition CPUCFG3_SPW_HP_HF :: field where [field_defs]: "CPUCFG3_SPW_HP_HF = (11, 1)"
definition CPUCFG5_CC_MUL :: field where [field_defs]: "CPUCFG5_CC_MUL = (0, 16)"
definition CPUCFG5_CC_DIV :: field where [field_defs]: "CPUCFG5_CC_DIV = (16, 16)"
definition CPUCFG16_L1_IUPRE :: field where [field_defs]: "CPUCFG16_L1_IUPRE = (0, 1)"
definition CPUCFG16_L1_DPRE :: field where [field_defs]: "CPUCFG16_L1_DPRE = (2, 1)"
definition CPUCFG16_L2_IUPRE :: field where [field_defs]: "CPUCFG16_L2_IUPRE = (3, 1)"
definition CPUCFG16_L2_IUUNIFY :: field where [field_defs]: "CPUCFG16_L2_IUUNIFY = (4, 1)"
definition CPUCFG16_L2_IUPRIV :: field where [field_defs]: "CPUCFG16_L2_IUPRIV = (5, 1)"
definition CPUCFG16_L2_IUINCL :: field where [field_defs]: "CPUCFG16_L2_IUINCL = (6, 1)"
definition CPUCFG16_L3_IUPRE :: field where [field_defs]: "CPUCFG16_L3_IUPRE = (10, 1)"
definition CPUCFG16_L3_IUUNIFY :: field where [field_defs]: "CPUCFG16_L3_IUUNIFY = (11, 1)"
definition CPUCFG16_L3_IUINCL :: field where [field_defs]: "CPUCFG16_L3_IUINCL = (13, 1)"
definition CPUCFG17_L1IU_WAYS :: field where [field_defs]: "CPUCFG17_L1IU_WAYS = (0, 16)"
definition CPUCFG17_L1IU_SETS :: field where [field_defs]: "CPUCFG17_L1IU_SETS = (16, 8)"
definition CPUCFG17_L1IU_SIZE :: field where [field_defs]: "CPUCFG17_L1IU_SIZE = (24, 7)"
definition CPUCFG18_L1D_WAYS :: field where [field_defs]: "CPUCFG18_L1D_WAYS = (0, 16)"
definition CPUCFG18_L1D_SETS :: field where [field_defs]: "CPUCFG18_L1D_SETS = (16, 8)"
definition CPUCFG18_L1D_SIZE :: field where [field_defs]: "CPUCFG18_L1D_SIZE = (24, 7)"
definition CPUCFG19_L2IU_WAYS :: field where [field_defs]: "CPUCFG19_L2IU_WAYS = (0, 16)"
definition CPUCFG19_L2IU_SETS :: field where [field_defs]: "CPUCFG19_L2IU_SETS = (16, 8)"
definition CPUCFG19_L2IU_SIZE :: field where [field_defs]: "CPUCFG19_L2IU_SIZE = (24, 7)"
definition CPUCFG20_L3IU_WAYS :: field where [field_defs]: "CPUCFG20_L3IU_WAYS = (0, 16)"
definition CPUCFG20_L3IU_SETS :: field where [field_defs]: "CPUCFG20_L3IU_SETS = (16, 8)"
definition CPUCFG20_L3IU_SIZE :: field where [field_defs]: "CPUCFG20_L3IU_SIZE = (24, 7)"
definition CSR_CRMD_PLV :: field where [field_defs]: "CSR_CRMD_PLV = (0, 2)"
definition CSR_CRMD_IE :: field where [field_defs]: "CSR_CRMD_IE = (2, 1)"
definition CSR_CRMD_DA :: field where [field_defs]: "CSR_CRMD_DA = (3, 1)"
definition CSR_CRMD_PG :: field where [field_defs]: "CSR_CRMD_PG = (4, 1)"
definition CSR_CRMD_DATF :: field where [field_defs]: "CSR_CRMD_DATF = (5, 2)"
definition CSR_CRMD_DATM :: field where [field_defs]: "CSR_CRMD_DATM = (7, 2)"
definition CSR_CRMD_WE :: field where [field_defs]: "CSR_CRMD_WE = (9, 1)"
definition TLB_MISC_E :: field where [field_defs]: "TLB_MISC_E = (0, 1)"
definition TLB_MISC_ASID :: field where [field_defs]: "TLB_MISC_ASID = (1, 10)"
definition TLB_MISC_G :: field where [field_defs]: "TLB_MISC_G = (11, 1)"
definition TLB_MISC_VPPN :: field where [field_defs]: "TLB_MISC_VPPN = (13, 35)"
definition TLB_MISC_PS :: field where [field_defs]: "TLB_MISC_PS = (48, 6)"

section \<open>CSR numbers and write masks\<close>

definition LOONGARCH_CSR_CRMD :: nat where [const_defs]: "LOONGARCH_CSR_CRMD = 0x0"
definition LOONGARCH_CSR_PRMD :: nat where [const_defs]: "LOONGARCH_CSR_PRMD = 0x1"
definition LOONGARCH_CSR_EUEN :: nat where [const_defs]: "LOONGARCH_CSR_EUEN = 0x2"
definition LOONGARCH_CSR_MISC :: nat where [const_defs]: "LOONGARCH_CSR_MISC = 0x3"
definition LOONGARCH_CSR_ECFG :: nat where [const_defs]: "LOONGARCH_CSR_ECFG = 0x4"
definition LOONGARCH_CSR_ESTAT :: nat where [const_defs]: "LOONGARCH_CSR_ESTAT = 0x5"
definition LOONGARCH_CSR_ERA :: nat where [const_defs]: "LOONGARCH_CSR_ERA = 0x6"
definition LOONGARCH_CSR_BADV :: nat where [const_defs]: "LOONGARCH_CSR_BADV = 0x7"
definition LOONGARCH_CSR_BADI :: nat where [const_defs]: "LOONGARCH_CSR_BADI = 0x8"
definition LOONGARCH_CSR_EENTRY :: nat where [const_defs]: "LOONGARCH_CSR_EENTRY = 0xc"
definition LOONGARCH_CSR_TLBIDX :: nat where [const_defs]: "LOONGARCH_CSR_TLBIDX = 0x10"
definition LOONGARCH_CSR_TLBEHI :: nat where [const_defs]: "LOONGARCH_CSR_TLBEHI = 0x11"
definition LOONGARCH_CSR_TLBELO0 :: nat where [const_defs]: "LOONGARCH_CSR_TLBELO0 = 0x12"
definition LOONGARCH_CSR_TLBELO1 :: nat where [const_defs]: "LOONGARCH_CSR_TLBELO1 = 0x13"
definition LOONGARCH_CSR_ASID :: nat where [const_defs]: "LOONGARCH_CSR_ASID = 0x18"
definition LOONGARCH_CSR_PGDL :: nat where [const_defs]: "LOONGARCH_CSR_PGDL = 0x19"
definition LOONGARCH_CSR_PGDH :: nat where [const_defs]: "LOONGARCH_CSR_PGDH = 0x1a"
definition LOONGARCH_CSR_PGD :: nat where [const_defs]: "LOONGARCH_CSR_PGD = 0x1b"
definition LOONGARCH_CSR_PWCL :: nat where [const_defs]: "LOONGARCH_CSR_PWCL = 0x1c"
definition LOONGARCH_CSR_PWCH :: nat where [const_defs]: "LOONGARCH_CSR_PWCH = 0x1d"
definition LOONGARCH_CSR_STLBPS :: nat where [const_defs]: "LOONGARCH_CSR_STLBPS = 0x1e"
definition LOONGARCH_CSR_RVACFG :: nat where [const_defs]: "LOONGARCH_CSR_RVACFG = 0x1f"
definition LOONGARCH_CSR_CPUID :: nat where [const_defs]: "LOONGARCH_CSR_CPUID = 0x20"
definition LOONGARCH_CSR_PRCFG1 :: nat where [const_defs]: "LOONGARCH_CSR_PRCFG1 = 0x21"
definition LOONGARCH_CSR_PRCFG2 :: nat where [const_defs]: "LOONGARCH_CSR_PRCFG2 = 0x22"
definition LOONGARCH_CSR_PRCFG3 :: nat where [const_defs]: "LOONGARCH_CSR_PRCFG3 = 0x23"
definition LOONGARCH_CSR_TID :: nat where [const_defs]: "LOONGARCH_CSR_TID = 0x40"
definition LOONGARCH_CSR_TCFG :: nat where [const_defs]: "LOONGARCH_CSR_TCFG = 0x41"
definition LOONGARCH_CSR_TVAL :: nat where [const_defs]: "LOONGARCH_CSR_TVAL = 0x42"
definition LOONGARCH_CSR_CNTC :: nat where [const_defs]: "LOONGARCH_CSR_CNTC = 0x43"
definition LOONGARCH_CSR_TICLR :: nat where [const_defs]: "LOONGARCH_CSR_TICLR = 0x44"
definition LOONGARCH_CSR_LLBCTL :: nat where [const_defs]: "LOONGARCH_CSR_LLBCTL = 0x60"
definition LOONGARCH_CSR_IMPCTL1 :: nat where [const_defs]: "LOONGARCH_CSR_IMPCTL1 = 0x80"
definition LOONGARCH_CSR_IMPCTL2 :: nat where [const_defs]: "LOONGARCH_CSR_IMPCTL2 = 0x81"
definition LOONGARCH_CSR_TLBRENTRY :: nat where [const_defs]: "LOONGARCH_CSR_TLBRENTRY = 0x88"
definition LOONGARCH_CSR_TLBRBADV :: nat where [const_defs]: "LOONGARCH_CSR_TLBRBADV = 0x89"
definition LOONGARCH_CSR_TLBRERA :: nat where [const_defs]: "LOONGARCH_CSR_TLBRERA = 0x8a"
definition LOONGARCH_CSR_TLBRSAVE :: nat where [const_defs]: "LOONGARCH_CSR_TLBRSAVE = 0x8b"
definition LOONGARCH_CSR_TLBRELO0 :: nat where [const_defs]: "LOONGARCH_CSR_TLBRELO0 = 0x8c"
definition LOONGARCH_CSR_TLBRELO1 :: nat where [const_defs]: "LOONGARCH_CSR_TLBRELO1 = 0x8d"
definition LOONGARCH_CSR_TLBREHI :: nat where [const_defs]: "LOONGARCH_CSR_TLBREHI = 0x8e"
definition LOONGARCH_CSR_TLBRPRMD :: nat where [const_defs]: "LOONGARCH_CSR_TLBRPRMD = 0x8f"
definition LOONGARCH_CSR_MERRCTL :: nat where [const_defs]: "LOONGARCH_CSR_MERRCTL = 0x90"
definition LOONGARCH_CSR_MERRINFO1 :: nat where [const_defs]: "LOONGARCH_CSR_MERRINFO1 = 0x91"
definition LOONGARCH_CSR_MERRINFO2 :: nat where [const_defs]: "LOONGARCH_CSR_MERRINFO2 = 0x92"
definition LOONGARCH_CSR_MERRENTRY :: nat where [const_defs]: "LOONGARCH_CSR_MERRENTRY = 0x93"
definition LOONGARCH_CSR_MERRERA :: nat where [const_defs]: "LOONGARCH_CSR_MERRERA = 0x94"
definition LOONGARCH_CSR_MERRSAVE :: nat where [const_defs]: "LOONGARCH_CSR_MERRSAVE = 0x95"
definition LOONGARCH_CSR_CTAG :: nat where [const_defs]: "LOONGARCH_CSR_CTAG = 0x98"
definition LOONGARCH_CSR_DBG :: nat where [const_defs]: "LOONGARCH_CSR_DBG = 0x500"
definition LOONGARCH_CSR_DERA :: nat where [const_defs]: "LOONGARCH_CSR_DERA = 0x501"
definition LOONGARCH_CSR_DSAVE :: nat where [const_defs]: "LOONGARCH_CSR_DSAVE = 0x502"

definition LOONGARCH_CSR_SAVE :: "nat \<Rightarrow> nat" where [const_defs]: "LOONGARCH_CSR_SAVE N = 0x30 + N"
definition LOONGARCH_CSR_DMW :: "nat \<Rightarrow> nat" where [const_defs]: "LOONGARCH_CSR_DMW N = 0x180 + N"

definition LOONGARCH_CSR_CRMD_WMASK :: u64 where
  "LOONGARCH_CSR_CRMD_WMASK = 0x3ff"
definition LOONGARCH_CSR_PRMD_WMASK :: u64 where
  "LOONGARCH_CSR_PRMD_WMASK = 0xf"
definition LOONGARCH_CSR_EUEN_WMASK :: u64 where
  "LOONGARCH_CSR_EUEN_WMASK = 0xf"
definition LOONGARCH_CSR_MISC_WMASK :: u64 where
  "LOONGARCH_CSR_MISC_WMASK = 0x7feee"
definition LOONGARCH_CSR_ECFG_WMASK :: u64 where
  "LOONGARCH_CSR_ECFG_WMASK = FIELD_MASK CSR_ECFG_LIE OR FIELD_MASK CSR_ECFG_VS"
definition LOONGARCH_CSR_ESTAT_WMASK :: u64 where
  "LOONGARCH_CSR_ESTAT_WMASK = 0x3"
definition LOONGARCH_CSR_EENTRY_WMASK :: u64 where
  "LOONGARCH_CSR_EENTRY_WMASK = (NOT 0) - 0xfff"
definition LOONGARCH_CSR_RVACFG_WMASK :: u64 where
  "LOONGARCH_CSR_RVACFG_WMASK = FIELD_MASK CSR_RVACFG_RBITS"
definition LOONGARCH_CSR_LLBCTL_WMASK :: u64 where
  "LOONGARCH_CSR_LLBCTL_WMASK = FIELD_MASK CSR_LLBCTL_KLO"
definition LOONGARCH_CSR_TLBIDX_WMASK :: u64 where
  "LOONGARCH_CSR_TLBIDX_WMASK = 0x7ff OR FIELD_MASK CSR_TLBIDX_PS OR FIELD_MASK CSR_TLBIDX_NE"
definition LOONGARCH_CSR_TLBEHI_64_WMASK :: u64 where
  "LOONGARCH_CSR_TLBEHI_64_WMASK = FIELD_MASK CSR_TLBEHI_64_VPPN"
definition LOONGARCH_CSR_TLBEHI_32_WMASK :: u64 where
  "LOONGARCH_CSR_TLBEHI_32_WMASK = FIELD_MASK CSR_TLBEHI_32_VPPN"
definition LOONGARCH_CSR_TLBELO_64_WMASK :: u64 where
  "LOONGARCH_CSR_TLBELO_64_WMASK = FIELD_MASK TLBENTRY_V OR FIELD_MASK TLBENTRY_D OR FIELD_MASK TLBENTRY_PLV OR FIELD_MASK TLBENTRY_MAT OR FIELD_MASK TLBENTRY_G OR FIELD_MASK TLBENTRY_64_PPN OR FIELD_MASK TLBENTRY_64_NR OR FIELD_MASK TLBENTRY_64_NX OR FIELD_MASK TLBENTRY_64_RPLV"
definition LOONGARCH_CSR_TLBELO_32_WMASK :: u64 where
  "LOONGARCH_CSR_TLBELO_32_WMASK = FIELD_MASK TLBENTRY_V OR FIELD_MASK TLBENTRY_D OR FIELD_MASK TLBENTRY_PLV OR FIELD_MASK TLBENTRY_MAT OR FIELD_MASK TLBENTRY_G OR FIELD_MASK TLBENTRY_32_PPN"
definition LOONGARCH_CSR_ASID_WMASK :: u64 where
  "LOONGARCH_CSR_ASID_WMASK = FIELD_MASK CSR_ASID_ASID"
definition LOONGARCH_CSR_PGDL_WMASK :: u64 where
  "LOONGARCH_CSR_PGDL_WMASK = (NOT 0) - 0xfff"
definition LOONGARCH_CSR_PGDH_WMASK :: u64 where
  "LOONGARCH_CSR_PGDH_WMASK = (NOT 0) - 0xfff"
definition LOONGARCH_CSR_PWCL_WMASK :: u64 where
  "LOONGARCH_CSR_PWCL_WMASK = 0xffffffff"
definition LOONGARCH_CSR_PWCH_WMASK :: u64 where
  "LOONGARCH_CSR_PWCH_WMASK = 0x1ffffff"
definition LOONGARCH_CSR_STLBPS_WMASK :: u64 where
  "LOONGARCH_CSR_STLBPS_WMASK = FIELD_MASK CSR_STLBPS_PS"
definition LOONGARCH_CSR_TLBRENTRY_64_WMASK :: u64 where
  "LOONGARCH_CSR_TLBRENTRY_64_WMASK = FIELD_MASK TLBENTRY_64_PPN"
definition LOONGARCH_CSR_TLBRENTRY_32_WMASK :: u64 where
  "LOONGARCH_CSR_TLBRENTRY_32_WMASK = FIELD_MASK TLBENTRY_32_PPN"
definition LOONGARCH_CSR_TLBRERA_WMASK :: u64 where
  "LOONGARCH_CSR_TLBRERA_WMASK = FIELD_MASK CSR_TLBRERA_ISTLBR OR FIELD_MASK CSR_TLBRERA_PC"
definition LOONGARCH_CSR_TLBRELO_64_WMASK :: u64 where
  "LOONGARCH_CSR_TLBRELO_64_WMASK = LOONGARCH_CSR_TLBELO_64_WMASK"
definition LOONGARCH_CSR_TLBRELO_32_WMASK :: u64 where
  "LOONGARCH_CSR_TLBRELO_32_WMASK = LOONGARCH_CSR_TLBELO_32_WMASK"
definition LOONGARCH_CSR_TLBREHI_64_WMASK :: u64 where
  "LOONGARCH_CSR_TLBREHI_64_WMASK = FIELD_MASK CSR_TLBREHI_64_VPPN OR FIELD_MASK CSR_TLBREHI_PS"
definition LOONGARCH_CSR_TLBREHI_32_WMASK :: u64 where
  "LOONGARCH_CSR_TLBREHI_32_WMASK = FIELD_MASK CSR_TLBREHI_32_VPPN OR FIELD_MASK CSR_TLBREHI_PS"
definition LOONGARCH_CSR_TLBRPRMD_WMASK :: u64 where
  "LOONGARCH_CSR_TLBRPRMD_WMASK = FIELD_MASK CSR_TLBRPRMD_PPLV OR FIELD_MASK CSR_TLBRPRMD_PIE OR FIELD_MASK CSR_TLBRPRMD_PWE"
definition LOONGARCH_CSR_DMW_64_WMASK :: u64 where
  "LOONGARCH_CSR_DMW_64_WMASK = FIELD_MASK CSR_DMW_PLV0 OR FIELD_MASK CSR_DMW_PLV1 OR FIELD_MASK CSR_DMW_PLV2 OR FIELD_MASK CSR_DMW_PLV3 OR FIELD_MASK CSR_DMW_MAT OR FIELD_MASK CSR_DMW_64_VSEG"
definition LOONGARCH_CSR_DMW_32_WMASK :: u64 where
  "LOONGARCH_CSR_DMW_32_WMASK = FIELD_MASK CSR_DMW_PLV0 OR FIELD_MASK CSR_DMW_PLV1 OR FIELD_MASK CSR_DMW_PLV2 OR FIELD_MASK CSR_DMW_PLV3 OR FIELD_MASK CSR_DMW_MAT OR FIELD_MASK CSR_DMW_32_VSEG OR FIELD_MASK CSR_DMW_32_PSEG"
definition LOONGARCH_CSR_TID_WMASK :: u64 where
  "LOONGARCH_CSR_TID_WMASK = 0xffffffff"

section \<open>Exception codes\<close>

text \<open>\<open>exception_index\<close> is a C \<open>int\<close> that takes the value -1 between exceptions.\<close>

definition EXCODE :: "int \<Rightarrow> int \<Rightarrow> int" where
  "EXCODE code subcode = push_bit 6 subcode OR code"
definition EXCODE_MCODE :: "int \<Rightarrow> int" where
  "EXCODE_MCODE code = code AND 0x3f"
definition EXCODE_SUBCODE :: "int \<Rightarrow> int" where
  "EXCODE_SUBCODE code = drop_bit 6 code"
definition EXCCODE_EXTERNAL_INT :: u32 where
  "EXCCODE_EXTERNAL_INT = 64"

definition EXCCODE_INT :: int where [const_defs]: "EXCCODE_INT = EXCODE 0 0"
definition EXCCODE_PIL :: int where [const_defs]: "EXCCODE_PIL = EXCODE 1 0"
definition EXCCODE_PIS :: int where [const_defs]: "EXCCODE_PIS = EXCODE 2 0"
definition EXCCODE_PIF :: int where [const_defs]: "EXCCODE_PIF = EXCODE 3 0"
definition EXCCODE_PME :: int where [const_defs]: "EXCCODE_PME = EXCODE 4 0"
definition EXCCODE_PNR :: int where [const_defs]: "EXCCODE_PNR = EXCODE 5 0"
definition EXCCODE_PNX :: int where [const_defs]: "EXCCODE_PNX = EXCODE 6 0"
definition EXCCODE_PPI :: int where [const_defs]: "EXCCODE_PPI = EXCODE 7 0"
definition EXCCODE_ADEF :: int where [const_defs]: "EXCCODE_ADEF = EXCODE 8 0"
definition EXCCODE_ADEM :: int where [const_defs]: "EXCCODE_ADEM = EXCODE 8 1"
definition EXCCODE_ALE :: int where [const_defs]: "EXCCODE_ALE = EXCODE 9 0"
definition EXCCODE_BCE :: int where [const_defs]: "EXCCODE_BCE = EXCODE 10 0"
definition EXCCODE_SYS :: int where [const_defs]: "EXCCODE_SYS = EXCODE 11 0"
definition EXCCODE_BRK :: int where [const_defs]: "EXCCODE_BRK = EXCODE 12 0"
definition EXCCODE_INE :: int where [const_defs]: "EXCCODE_INE = EXCODE 13 0"
definition EXCCODE_IPE :: int where [const_defs]: "EXCCODE_IPE = EXCODE 14 0"
definition EXCCODE_FPD :: int where [const_defs]: "EXCCODE_FPD = EXCODE 15 0"
definition EXCCODE_SXD :: int where [const_defs]: "EXCCODE_SXD = EXCODE 16 0"
definition EXCCODE_ASXD :: int where [const_defs]: "EXCCODE_ASXD = EXCODE 17 0"
definition EXCCODE_FPE :: int where [const_defs]: "EXCCODE_FPE = EXCODE 18 0"
definition EXCCODE_VFPE :: int where [const_defs]: "EXCCODE_VFPE = EXCODE 18 1"
definition EXCCODE_WPEF :: int where [const_defs]: "EXCCODE_WPEF = EXCODE 19 0"
definition EXCCODE_WPEM :: int where [const_defs]: "EXCCODE_WPEM = EXCODE 19 1"
definition EXCCODE_BTD :: int where [const_defs]: "EXCCODE_BTD = EXCODE 20 0"
definition EXCCODE_BTE :: int where [const_defs]: "EXCCODE_BTE = EXCODE 21 0"
definition EXCCODE_DBP :: int where [const_defs]: "EXCCODE_DBP = EXCODE 26 0"

lemmas exc_defs = const_defs EXCODE_def

text \<open>No field reaches past its register, so the assertions of \<open>extract\<close> and \<open>deposit\<close> hold for
  all of them.\<close>

lemma csr_fields_ok:
  "list_all (field_ok 64)
    [CSR_PRMD_PPLV,
     CSR_PRMD_PIE,
     CSR_PRMD_PWE,
     CSR_EUEN_FPE,
     CSR_EUEN_SXE,
     CSR_EUEN_ASXE,
     CSR_EUEN_BTE,
     CSR_MISC_VA32,
     CSR_MISC_DRDTL,
     CSR_MISC_RPCNTL,
     CSR_MISC_ALCL,
     CSR_MISC_DWPL,
     CSR_ECFG_LIE,
     CSR_ECFG_VS,
     CSR_ESTAT_IS,
     CSR_ESTAT_ECODE,
     CSR_ESTAT_ESUBCODE,
     CSR_TLBIDX_INDEX,
     CSR_TLBIDX_PS,
     CSR_TLBIDX_NE,
     CSR_TLBEHI_32_VPPN,
     CSR_TLBEHI_64_VPPN,
     TLBENTRY_V,
     TLBENTRY_D,
     TLBENTRY_PLV,
     TLBENTRY_MAT,
     TLBENTRY_G,
     TLBENTRY_HUGE,
     TLBENTRY_P,
     TLBENTRY_W,
     TLBENTRY_HGLOBAL,
     TLBENTRY_LEVEL,
     TLBENTRY_32_PPN,
     TLBENTRY_64_PPN,
     TLBENTRY_64_NR,
     TLBENTRY_64_NX,
     TLBENTRY_64_RPLV,
     CSR_ASID_ASID,
     CSR_ASID_ASIDBITS,
     CSR_PWCL_PTBASE,
     CSR_PWCL_PTWIDTH,
     CSR_PWCL_DIR1_BASE,
     CSR_PWCL_DIR1_WIDTH,
     CSR_PWCL_DIR2_BASE,
     CSR_PWCL_DIR2_WIDTH,
     CSR_PWCL_PTEWIDTH,
     CSR_PWCH_DIR3_BASE,
     CSR_PWCH_DIR3_WIDTH,
     CSR_PWCH_DIR4_BASE,
     CSR_PWCH_DIR4_WIDTH,
     CSR_PWCH_HPTW_EN,
     CSR_STLBPS_PS,
     CSR_RVACFG_RBITS,
     CSR_PRCFG1_SAVE_NUM,
     CSR_PRCFG1_TIMER_BITS,
     CSR_PRCFG1_VSMAX,
     CSR_PRCFG3_TLB_TYPE,
     CSR_PRCFG3_MTLB_ENTRY,
     CSR_PRCFG3_STLB_WAYS,
     CSR_PRCFG3_STLB_SETS,
     CSR_TCFG_EN,
     CSR_TCFG_PERIODIC,
     CSR_TCFG_INIT_VAL,
     CSR_LLBCTL_ROLLB,
     CSR_LLBCTL_WCLLB,
     CSR_LLBCTL_KLO,
     CSR_TLBRERA_ISTLBR,
     CSR_TLBRERA_PC,
     CSR_TLBREHI_PS,
     CSR_TLBREHI_32_VPPN,
     CSR_TLBREHI_64_VPPN,
     CSR_TLBRPRMD_PPLV,
     CSR_TLBRPRMD_PIE,
     CSR_TLBRPRMD_PWE,
     CSR_MERRCTL_ISMERR,
     CSR_DMW_PLV0,
     CSR_DMW_PLV1,
     CSR_DMW_PLV2,
     CSR_DMW_PLV3,
     CSR_DMW_MAT,
     CSR_DMW_32_PSEG,
     CSR_DMW_32_VSEG,
     CSR_DMW_64_VSEG,
     CSR_DBG_DST,
     CSR_DBG_DREV,
     CSR_DBG_DEI,
     CSR_DBG_DCL,
     CSR_DBG_DFW,
     CSR_DBG_DMW,
     CSR_DBG_ECODE,
     CSR_CRMD_PLV,
     CSR_CRMD_IE,
     CSR_CRMD_DA,
     CSR_CRMD_PG,
     CSR_CRMD_DATF,
     CSR_CRMD_DATM,
     CSR_CRMD_WE,
     TLB_MISC_E,
     TLB_MISC_ASID,
     TLB_MISC_G,
     TLB_MISC_VPPN,
     TLB_MISC_PS]"
  by (simp add: field_defs)

end
