(* ===== verification/LA_State.thy ===== *)
theory LA_State
  imports LA_Regs Device_IO
begin

text \<open>
  The state of the LoongArch core: the struct \<open>CPUArchState\<close> of \<open>loongarch64/cpu.h\<close> with the
  fields of \<open>CPUState\<close> it is embedded in, the guest RAM, and the global variables of the
  emulator that the core reads. The record is built in three parts: \<open>la_csrs\<close> (the CSRs),
  \<open>CPUArchState\<close> and \<open>machine\<close>.

  \<^item> A register number is a \<open>5 word\<close>: the decoder extracts it from five bits of the instruction.
  \<^item> \<open>ram\<close> maps a guest physical address to its byte. The host mapping behind it is
    \<open>alloc_ram\<close>, which backs exactly the addresses of \<open>addr_in_ram\<close>; an access to any other
    address hits a \<open>PROT_NONE\<close> page or no page and stops the emulator (\<open>Crash\<close>).
  \<^item> The instruction cache and its counter are kept beside this record, in \<open>LA_Exec\<close>: no instruction reads them.
  \<^item> \<open>prev_pc_ppage\<close> is \<open>prev_pc_ppage_host_addr\<close> as a guest physical page.
  \<^item> \<open>rand_seq\<close> and \<open>clock_seq\<close> are the values that \<open>rand()\<close> and \<open>nano_second()\<close> will return, and
    \<open>rand_pos\<close>, \<open>clock_pos\<close> how many of them have been used.
  \<^item> \<open>host_timer\<close> is the expiry that \<open>timer_settime\<close> was last given, in nanoseconds (0: disarmed).
  \<^item> The devices act on the world \<open>'d io_world\<close>: their own state, the interrupt status register
    (through \<open>loongarch_cpu_set_irq\<close>) and the guest RAM (DMA).
\<close>

type_synonym regno = "5 word"

section \<open>The state\<close>

text \<open>The CSRs, in the order of the struct.\<close>

record la_csrs =
  CSR_CRMD :: u64
  CSR_PRMD :: u64
  CSR_EUEN :: u64
  CSR_MISC :: u64
  CSR_ECFG :: u64
  CSR_ESTAT :: u64
  CSR_ERA :: u64
  CSR_BADV :: u64
  CSR_BADI :: u64
  CSR_EENTRY :: u64
  CSR_TLBIDX :: u64
  CSR_TLBEHI :: u64
  CSR_TLBELO0 :: u64
  CSR_TLBELO1 :: u64
  CSR_ASID :: u64
  CSR_PGDL :: u64
  CSR_PGDH :: u64
  CSR_PGD :: u64
  CSR_PWCL :: u64
  CSR_PWCH :: u64
  CSR_STLBPS :: u64
  CSR_RVACFG :: u64
  CSR_CPUID :: u64
  CSR_PRCFG1 :: u64
  CSR_PRCFG2 :: u64
  CSR_PRCFG3 :: u64
  CSR_SAVE :: "nat \<Rightarrow> u64"
  CSR_TID :: u64
  CSR_TCFG :: u64
  CSR_TVAL :: u64
  CSR_CNTC :: u64
  CSR_TICLR :: u64
  CSR_LLBCTL :: u64
  CSR_IMPCTL1 :: u64
  CSR_IMPCTL2 :: u64
  CSR_TLBRENTRY :: u64
  CSR_TLBRBADV :: u64
  CSR_TLBRERA :: u64
  CSR_TLBRSAVE :: u64
  CSR_TLBRELO0 :: u64
  CSR_TLBRELO1 :: u64
  CSR_TLBREHI :: u64
  CSR_TLBRPRMD :: u64
  CSR_MERRCTL :: u64
  CSR_MERRINFO1 :: u64
  CSR_MERRINFO2 :: u64
  CSR_MERRENTRY :: u64
  CSR_MERRERA :: u64
  CSR_MERRSAVE :: u64
  CSR_CTAG :: u64
  CSR_DMW :: "nat \<Rightarrow> u64"
  CSR_DBG :: u64
  CSR_DERA :: u64
  CSR_DSAVE :: u64

record LoongArchTLB =
  tlb_misc :: u64
  tlb_entry0 :: u64
  tlb_entry1 :: u64

record TLBCache =
  tc_va :: u64
  tc_pa :: u64

record CPUArchState = la_csrs +
  gpr :: "regno \<Rightarrow> u64"
  pc :: u64
  fpr :: "regno \<Rightarrow> 256 word"
  cf :: "nat \<Rightarrow> bool"
  fcsr0 :: u32
  fcsr0_mask :: u32
  cpucfg :: "nat \<Rightarrow> u32"
  scr :: "nat \<Rightarrow> u64"
  x86_top :: u8
  lladdr :: u64
  llval :: u64
  llval_lo :: u64
  llval_hi :: u64
  tlb :: "nat \<Rightarrow> LoongArchTLB"
  prev_pc_vpage :: u64
  prev_pc_ppage :: u64
  tc_load :: "nat \<Rightarrow> TLBCache"
  tc_store :: "nat \<Rightarrow> TLBCache"
  tc_fetch :: "nat \<Rightarrow> TLBCache"
  icount :: u64
  ecount :: u64
  syscall_count :: u64
  ecounter :: "nat \<Rightarrow> u64"
  tlbr_count :: u64
  irq_count :: u64
  timer_counter :: u64
  timer_int :: bool
  exception_index :: int
  cpu_index :: u64

type_synonym 'd io_world = "'d \<times> u64 \<times> (u64 \<Rightarrow> u8)"

record 'd machine = CPUArchState +
  ram :: "u64 \<Rightarrow> u8"
  ram_size :: u64
  determined :: bool
  hw_ptw :: bool
  ptw_hw_setVD :: bool
  check_tlb_mhit :: bool
  rand_seq :: "nat \<Rightarrow> u32"
  rand_pos :: nat
  clock_seq :: "nat \<Rightarrow> u64"
  clock_pos :: nat
  host_timer :: u64
  io_devices :: "'d io_world io_device_t list"
  devs :: 'd

section \<open>The machine that \<open>main\<close> starts from\<close>

text \<open>\<open>memset(cpu, 0, sizeof(ArchCPU))\<close>: every field of the CPU is zero. The globals have
  their initial values; the size of the RAM, the device table and its state are given.\<close>

definition zeroed_machine :: "u64 \<Rightarrow> 'd io_world io_device_t list \<Rightarrow> 'd \<Rightarrow> 'd machine" where
  "zeroed_machine sz table d = \<lparr>
    CSR_CRMD = 0,
    CSR_PRMD = 0,
    CSR_EUEN = 0,
    CSR_MISC = 0,
    CSR_ECFG = 0,
    CSR_ESTAT = 0,
    CSR_ERA = 0,
    CSR_BADV = 0,
    CSR_BADI = 0,
    CSR_EENTRY = 0,
    CSR_TLBIDX = 0,
    CSR_TLBEHI = 0,
    CSR_TLBELO0 = 0,
    CSR_TLBELO1 = 0,
    CSR_ASID = 0,
    CSR_PGDL = 0,
    CSR_PGDH = 0,
    CSR_PGD = 0,
    CSR_PWCL = 0,
    CSR_PWCH = 0,
    CSR_STLBPS = 0,
    CSR_RVACFG = 0,
    CSR_CPUID = 0,
    CSR_PRCFG1 = 0,
    CSR_PRCFG2 = 0,
    CSR_PRCFG3 = 0,
    CSR_SAVE = \<lambda>_. 0,
    CSR_TID = 0,
    CSR_TCFG = 0,
    CSR_TVAL = 0,
    CSR_CNTC = 0,
    CSR_TICLR = 0,
    CSR_LLBCTL = 0,
    CSR_IMPCTL1 = 0,
    CSR_IMPCTL2 = 0,
    CSR_TLBRENTRY = 0,
    CSR_TLBRBADV = 0,
    CSR_TLBRERA = 0,
    CSR_TLBRSAVE = 0,
    CSR_TLBRELO0 = 0,
    CSR_TLBRELO1 = 0,
    CSR_TLBREHI = 0,
    CSR_TLBRPRMD = 0,
    CSR_MERRCTL = 0,
    CSR_MERRINFO1 = 0,
    CSR_MERRINFO2 = 0,
    CSR_MERRENTRY = 0,
    CSR_MERRERA = 0,
    CSR_MERRSAVE = 0,
    CSR_CTAG = 0,
    CSR_DMW = \<lambda>_. 0,
    CSR_DBG = 0,
    CSR_DERA = 0,
    CSR_DSAVE = 0,
    gpr = \<lambda>_. 0, pc = 0, fpr = \<lambda>_. 0, cf = \<lambda>_. False, fcsr0 = 0, fcsr0_mask = 0,
    cpucfg = \<lambda>_. 0, scr = \<lambda>_. 0, x86_top = 0, lladdr = 0, llval = 0, llval_lo = 0, llval_hi = 0,
    tlb = \<lambda>_. \<lparr>tlb_misc = 0, tlb_entry0 = 0, tlb_entry1 = 0\<rparr>,
    prev_pc_vpage = 0, prev_pc_ppage = 0,
    tc_load = \<lambda>_. \<lparr>tc_va = 0, tc_pa = 0\<rparr>, tc_store = \<lambda>_. \<lparr>tc_va = 0, tc_pa = 0\<rparr>,
    tc_fetch = \<lambda>_. \<lparr>tc_va = 0, tc_pa = 0\<rparr>,
    icount = 0, ecount = 0, syscall_count = 0, ecounter = \<lambda>_. 0,
    tlbr_count = 0, irq_count = 0, timer_counter = 0, timer_int = False, exception_index = 0,
    cpu_index = 0,
    ram = \<lambda>_. 0, ram_size = sz, determined = False, hw_ptw = False, ptw_hw_setVD = True,
    check_tlb_mhit = False, rand_seq = \<lambda>_. 0, rand_pos = 0, clock_seq = \<lambda>_. 0, clock_pos = 0,
    host_timer = 0, io_devices = table, devs = d\<rparr>"

end
