(* ===== verification/LA_Exception.thy ===== *)
theory LA_Exception
  imports LA_State Host_Utils
begin

text \<open>
  Reset, exceptions and interrupts: \<open>cpu_reset\<close>, the two core descriptions
  (\<open>loongarch_la464_initfn\<close>, \<open>loongarch_centaur320_initfn\<close>) and
  \<open>loongarch_cpu_do_interrupt\<close> of \<open>loongarch64/cpu.c\<close>, the interrupt lines
  (\<open>loongarch_cpu_set_irq\<close>, \<open>loongarch_cpu_check_irq\<close>, \<open>loongarch_cpu_has_irq\<close>), the exception
  return \<open>helper_ertn\<close> of \<open>tlb_helper.c\<close>, and the mode predicates of \<open>cpu.h\<close>. The last branch of
  \<open>loongarch_cpu_check_irq\<close> (\<open>serial_timer_int\<close>, \<open>serial_check_io\<close>) is left out: it is taken only with the option
  \<open>serial_plus\<close>, and the model is of the default serial port.

  The lemmas show what an exception saves and what the return restores: the privilege level, the
  interrupt enable and the program counter survive the round trip, for the ordinary and for the
  TLB-refill exception; an interrupt is taken exactly when one is pending, enabled and unmasked.
\<close>

section \<open>Modes\<close>

definition CPUCFG1_ARCH_LA64 :: u32 where
  "CPUCFG1_ARCH_LA64 = 2"

definition is_la64 :: "'d machine \<Rightarrow> bool" where
  "is_la64 env \<longleftrightarrow> FIELD_EX32 (cpucfg env 1) CPUCFG1_ARCH = CPUCFG1_ARCH_LA64"

definition is_va32 :: "'d machine \<Rightarrow> bool" where
  "is_va32 env =
    (let va32 = \<not> is_la64 env;
         plv = FIELD_EX64 (CSR_CRMD env) CSR_CRMD_PLV
     in if plv \<ge> 1 \<and> FIELD_EX64 (CSR_MISC env) CSR_MISC_VA32 AND push_bit (unat plv) 1 \<noteq> 0
        then True else va32)"

definition set_pc :: "'d machine \<Rightarrow> u64 \<Rightarrow> 'd machine" where
  "set_pc env v = (if is_va32 env then env\<lparr>pc := ucast (ucast v :: u32)\<rparr> else env\<lparr>pc := v\<rparr>)"

definition MMU_KERNEL_IDX :: nat where "MMU_KERNEL_IDX = 0"
definition MMU_USER_IDX :: nat where "MMU_USER_IDX = 3"
definition MMU_DA_IDX :: nat where "MMU_DA_IDX = 4"

definition cpu_mmu_index :: "'d machine \<Rightarrow> nat" where
  "cpu_mmu_index env =
    (if FIELD_EX64 (CSR_CRMD env) CSR_CRMD_PG \<noteq> 0 then unat (FIELD_EX64 (CSR_CRMD env) CSR_CRMD_PLV)
     else MMU_DA_IDX)"

definition enable_hw_ptw :: "'d machine \<Rightarrow> bool" where
  "enable_hw_ptw env \<longleftrightarrow> hw_ptw env \<or>
    (FIELD_EX32 (cpucfg env 2) CPUCFG2_HPTW \<noteq> 0 \<and> FIELD_EX64 (CSR_PWCH env) CSR_PWCH_HPTW_EN \<noteq> 0)"

text \<open>\<open>cpu_clear_tc\<close> fills the three translation caches with ones, so that no page matches.\<close>

definition cpu_clear_tc :: "'d machine \<Rightarrow> 'd machine" where
  "cpu_clear_tc env = env\<lparr>tc_load := \<lambda>i. \<lparr>tc_va = - 1, tc_pa = - 1\<rparr>,
     tc_store := \<lambda>i. \<lparr>tc_va = - 1, tc_pa = - 1\<rparr>, tc_fetch := \<lambda>i. \<lparr>tc_va = - 1, tc_pa = - 1\<rparr>,
     prev_pc_vpage := - 1, prev_pc_ppage := - 1\<rparr>"

section \<open>Reset\<close>

definition FCSR0_M1 :: u32 where "FCSR0_M1 = 0x1f"
definition FCSR0_M2 :: u32 where "FCSR0_M2 = 0x1f1f0000"
definition FCSR0_M3 :: u32 where "FCSR0_M3 = 0x300"

definition cpu_reset :: "'d machine \<Rightarrow> 'd machine" where
  "cpu_reset env =
    (let crmd = FIELD_DP64 (CSR_CRMD env) CSR_CRMD_PLV 0;
         crmd = FIELD_DP64 crmd CSR_CRMD_IE 0;
         crmd = FIELD_DP64 crmd CSR_CRMD_DA 1;
         crmd = FIELD_DP64 crmd CSR_CRMD_PG 0;
         crmd = FIELD_DP64 crmd CSR_CRMD_DATF 0;
         crmd = FIELD_DP64 crmd CSR_CRMD_DATM 0;
         euen = FIELD_DP64 (CSR_EUEN env) CSR_EUEN_FPE 0;
         euen = FIELD_DP64 euen CSR_EUEN_SXE 0;
         euen = FIELD_DP64 euen CSR_EUEN_ASXE 0;
         euen = FIELD_DP64 euen CSR_EUEN_BTE 0;
         ecfg = FIELD_DP64 (CSR_ECFG env) CSR_ECFG_VS 0;
         ecfg = FIELD_DP64 ecfg CSR_ECFG_LIE 0
     in env\<lparr>fcsr0_mask := FCSR0_M1 OR FCSR0_M2 OR FCSR0_M3, fcsr0 := 0,
            CSR_CRMD := crmd, CSR_EUEN := euen, CSR_MISC := 0, CSR_ECFG := ecfg,
            CSR_ESTAT := CSR_ESTAT env AND NOT (MAKE_64BIT_MASK 0 2),
            CSR_RVACFG := FIELD_DP64 (CSR_RVACFG env) CSR_RVACFG_RBITS 0,
            CSR_CPUID := cpu_index env,
            CSR_TCFG := FIELD_DP64 (CSR_TCFG env) CSR_TCFG_EN 0,
            CSR_LLBCTL := FIELD_DP64 (CSR_LLBCTL env) CSR_LLBCTL_KLO 0,
            CSR_TLBRERA := FIELD_DP64 (CSR_TLBRERA env) CSR_TLBRERA_ISTLBR 0,
            CSR_MERRCTL := FIELD_DP64 (CSR_MERRCTL env) CSR_MERRCTL_ISMERR 0,
            CSR_TID := cpu_index env,
            CSR_DMW := \<lambda>n. if n < 4
              then FIELD_DP64 (FIELD_DP64 (FIELD_DP64 (FIELD_DP64 (CSR_DMW env n) CSR_DMW_PLV0 0)
                CSR_DMW_PLV1 0) CSR_DMW_PLV2 0) CSR_DMW_PLV3 0
              else CSR_DMW env n,
            pc := 0x1c000000, tlb := \<lambda>i. \<lparr>tlb_misc = 0, tlb_entry0 = 0, tlb_entry1 = 0\<rparr>,
            exception_index := - 1\<rparr>)"

text \<open>A chain of field deposits \<open>data = FIELD_DP32(data, reg, field, value)\<close>, from zero.\<close>

definition cfg_word :: "(field \<times> u32) list \<Rightarrow> u32" where
  "cfg_word xs = fold (\<lambda>(f, v) data. FIELD_DP32 data f v) xs 0"

definition loongarch_la464_initfn :: "'d machine \<Rightarrow> 'd machine" where
  "loongarch_la464_initfn env =
    (let cfg = (\<lambda>i. if i < 21 then 0 else cpucfg env i);
         cfg = cfg(0 := 0x14c010);
         cfg = cfg(1 := cfg_word [(CPUCFG1_ARCH, 2), (CPUCFG1_PGMMU, 1), (CPUCFG1_IOCSR, 1),
           (CPUCFG1_PALEN, 0x2f), (CPUCFG1_VALEN, 0x2f), (CPUCFG1_UAL, 1), (CPUCFG1_RI, 1),
           (CPUCFG1_EP, 1), (CPUCFG1_RPLV, 1), (CPUCFG1_HP, 1), (CPUCFG1_IOCSR_BRD, 1)]);
         cfg = cfg(2 := cfg_word [(CPUCFG2_FP, 1), (CPUCFG2_FP_SP, 1), (CPUCFG2_FP_DP, 1),
           (CPUCFG2_FP_VER, 1), (CPUCFG2_LSX, 1), (CPUCFG2_LASX, 1), (CPUCFG2_LLFTP, 1),
           (CPUCFG2_LLFTP_VER, 1), (CPUCFG2_LSPW, 1), (CPUCFG2_LAM, 1)]);
         cfg = cfg(4 := 100 * 1000 * 1000);
         cfg = cfg(5 := cfg_word [(CPUCFG5_CC_MUL, 1), (CPUCFG5_CC_DIV, 1)]);
         cfg = cfg(16 := cfg_word [(CPUCFG16_L1_IUPRE, 1), (CPUCFG16_L1_DPRE, 1),
           (CPUCFG16_L2_IUPRE, 1), (CPUCFG16_L2_IUUNIFY, 1), (CPUCFG16_L2_IUPRIV, 1),
           (CPUCFG16_L3_IUPRE, 1), (CPUCFG16_L3_IUUNIFY, 1), (CPUCFG16_L3_IUINCL, 1)]);
         cfg = cfg(17 := cfg_word [(CPUCFG17_L1IU_WAYS, 3), (CPUCFG17_L1IU_SETS, 8),
           (CPUCFG17_L1IU_SIZE, 6)]);
         cfg = cfg(18 := cfg_word [(CPUCFG18_L1D_WAYS, 3), (CPUCFG18_L1D_SETS, 8),
           (CPUCFG18_L1D_SIZE, 6)]);
         cfg = cfg(19 := cfg_word [(CPUCFG19_L2IU_WAYS, 15), (CPUCFG19_L2IU_SETS, 8),
           (CPUCFG19_L2IU_SIZE, 6)]);
         cfg = cfg(20 := cfg_word [(CPUCFG20_L3IU_WAYS, 15), (CPUCFG20_L3IU_SETS, 14),
           (CPUCFG20_L3IU_SIZE, 6)]);
         prcfg1 = FIELD_DP64 (CSR_PRCFG1 env) CSR_PRCFG1_SAVE_NUM 8;
         prcfg1 = FIELD_DP64 prcfg1 CSR_PRCFG1_TIMER_BITS 0x2f;
         prcfg1 = FIELD_DP64 prcfg1 CSR_PRCFG1_VSMAX 7;
         prcfg3 = FIELD_DP64 (CSR_PRCFG3 env) CSR_PRCFG3_TLB_TYPE 2;
         prcfg3 = FIELD_DP64 prcfg3 CSR_PRCFG3_MTLB_ENTRY 63;
         prcfg3 = FIELD_DP64 prcfg3 CSR_PRCFG3_STLB_WAYS 7;
         prcfg3 = FIELD_DP64 prcfg3 CSR_PRCFG3_STLB_SETS 8
     in env\<lparr>cpucfg := cfg, CSR_ASID := FIELD_DP64 0 CSR_ASID_ASIDBITS 0xa, CSR_PRCFG1 := prcfg1,
            CSR_PRCFG2 := 0x3ffff000, CSR_PRCFG3 := prcfg3\<rparr>)"

definition loongarch_centaur320_initfn :: "'d machine \<Rightarrow> 'd machine" where
  "loongarch_centaur320_initfn env =
    (let cfg = (\<lambda>i. if i < 21 then 0 else cpucfg env i);
         cfg = cfg(0 := 0x14c010);
         cfg = cfg(1 := cfg_word [(CPUCFG1_ARCH, 2), (CPUCFG1_PGMMU, 1), (CPUCFG1_IOCSR, 1),
           (CPUCFG1_PALEN, 0x2f), (CPUCFG1_VALEN, 0x2f), (CPUCFG1_UAL, 1), (CPUCFG1_RI, 1),
           (CPUCFG1_EP, 1), (CPUCFG1_RPLV, 1), (CPUCFG1_HP, 1), (CPUCFG1_IOCSR_BRD, 1),
           (CPUCFG1_MSG_INT, 1)]);
         cfg = cfg(2 := cfg_word [(CPUCFG2_FP, 1), (CPUCFG2_FP_SP, 1), (CPUCFG2_FP_DP, 1),
           (CPUCFG2_FP_VER, 1), (CPUCFG2_LSX, 1), (CPUCFG2_LASX, 0), (CPUCFG2_LVZ_VER, 1),
           (CPUCFG2_LLFTP, 1), (CPUCFG2_LLFTP_VER, 1), (CPUCFG2_LSPW, 1), (CPUCFG2_LAM, 1),
           (CPUCFG2_HPTW, 1)]);
         cfg = cfg(3 := cfg_word [(CPUCFG3_SFB, 1), (CPUCFG3_UCACC, 1), (CPUCFG3_LLEXC, 1),
           (CPUCFG3_SCDLY, 1), (CPUCFG3_LLDBAR, 1), (CPUCFG3_ITLBHMC, 1), (CPUCFG3_ICHMC, 1),
           (CPUCFG3_SPW_HP_HF, 1)]);
         cfg = cfg(4 := 2400000000);
         cfg = cfg(5 := cfg_word [(CPUCFG5_CC_MUL, 1), (CPUCFG5_CC_DIV, 1)]);
         cfg = cfg(16 := cfg_word [(CPUCFG16_L1_IUPRE, 1), (CPUCFG16_L1_DPRE, 1),
           (CPUCFG16_L2_IUUNIFY, 1), (CPUCFG16_L2_IUPRIV, 1), (CPUCFG16_L2_IUINCL, 1),
           (CPUCFG16_L3_IUUNIFY, 1)]);
         cfg = cfg(17 := cfg_word [(CPUCFG17_L1IU_WAYS, 7), (CPUCFG17_L1IU_SETS, 8),
           (CPUCFG17_L1IU_SIZE, 6)]);
         cfg = cfg(18 := cfg_word [(CPUCFG18_L1D_WAYS, 7), (CPUCFG18_L1D_SETS, 8),
           (CPUCFG18_L1D_SIZE, 6)]);
         prcfg1 = FIELD_DP64 (CSR_PRCFG1 env) CSR_PRCFG1_SAVE_NUM 8;
         prcfg1 = FIELD_DP64 prcfg1 CSR_PRCFG1_TIMER_BITS 0x2f;
         prcfg1 = FIELD_DP64 prcfg1 CSR_PRCFG1_VSMAX 7;
         prcfg3 = FIELD_DP64 (CSR_PRCFG3 env) CSR_PRCFG3_TLB_TYPE 1;
         prcfg3 = FIELD_DP64 prcfg3 CSR_PRCFG3_MTLB_ENTRY 0x3f
     in env\<lparr>cpucfg := cfg, CSR_ASID := FIELD_DP64 0 CSR_ASID_ASIDBITS 0xa, CSR_PRCFG1 := prcfg1,
            CSR_PRCFG2 := 0x1004000, CSR_PRCFG3 := prcfg3, CSR_STLBPS := 0xe,
            ptw_hw_setVD := False\<rparr>)"

section \<open>Exception entry\<close>

text \<open>\<open>cpu_ldl_code\<close> is a stub of the source: it returns the same word for every address.\<close>

definition cpu_ldl_code :: "'d machine \<Rightarrow> u64 \<Rightarrow> u32" where
  "cpu_ldl_code env addr = 0xcccccccc"

text \<open>The \<open>switch\<close> on the exception: the label \<open>set_DERA\<close>, and for each case the new state,
  \<open>cause\<close> and \<open>update_badinstr\<close>; \<open>None\<close> is the \<open>abort\<close> of an unsupported exception.\<close>

definition set_DERA :: "'d machine \<Rightarrow> 'd machine" where
  "set_DERA env =
    (let env = env\<lparr>CSR_DERA := pc env\<rparr>;
         env = env\<lparr>CSR_DBG := FIELD_DP64 (CSR_DBG env) CSR_DBG_DST 1\<rparr>
     in set_pc env (CSR_EENTRY env + 0x480))"

definition exception_cause :: "'d machine \<Rightarrow> ('d machine \<times> int \<times> bool) option" where
  "exception_cause env =
    (let e = exception_index env in
     if e = EXCCODE_DBP then
       Some (set_DERA (env\<lparr>CSR_DBG := FIELD_DP64 (FIELD_DP64 (CSR_DBG env) CSR_DBG_DCL 1) CSR_DBG_ECODE 0xC\<rparr>),
             - 1, True)
     else if e = EXCCODE_INT \<and> FIELD_EX64 (CSR_DBG env) CSR_DBG_DST \<noteq> 0 then
       Some (set_DERA (env\<lparr>CSR_DBG := FIELD_DP64 (CSR_DBG env) CSR_DBG_DEI 1\<rparr>), - 1, True)
     else if e \<in> {EXCCODE_INT, EXCCODE_PIF, EXCCODE_ADEF} then Some (env, e, False)
     else if e \<in> {EXCCODE_SYS, EXCCODE_BRK, EXCCODE_INE, EXCCODE_IPE, EXCCODE_FPD, EXCCODE_FPE,
                  EXCCODE_SXD, EXCCODE_ASXD, EXCCODE_BTD, EXCCODE_BCE, EXCCODE_ADEM, EXCCODE_PIL,
                  EXCCODE_PIS, EXCCODE_PME, EXCCODE_PNR, EXCCODE_PNX, EXCCODE_PPI} then Some (env, e, True)
     else None)"

text \<open>Saving the privilege level, the interrupt enable and the program counter.\<close>

definition save_tlbr :: "'d machine \<Rightarrow> 'd machine" where
  "save_tlbr env =
    (let prmd = FIELD_DP64 (CSR_TLBRPRMD env) CSR_TLBRPRMD_PPLV (FIELD_EX64 (CSR_CRMD env) CSR_CRMD_PLV);
         prmd = FIELD_DP64 prmd CSR_TLBRPRMD_PIE (FIELD_EX64 (CSR_CRMD env) CSR_CRMD_IE);
         crmd = FIELD_DP64 (CSR_CRMD env) CSR_CRMD_DA 1;
         crmd = FIELD_DP64 crmd CSR_CRMD_PG 0
     in env\<lparr>CSR_TLBRPRMD := prmd, CSR_CRMD := crmd,
            CSR_TLBRERA := FIELD_DP64 (CSR_TLBRERA env) CSR_TLBRERA_PC (drop_bit 2 (pc env))\<rparr>)"

definition save_exc :: "int \<Rightarrow> 'd machine \<Rightarrow> 'd machine" where
  "save_exc cause env =
    (let estat = FIELD_DP64 (CSR_ESTAT env) CSR_ESTAT_ECODE (word_of_int (EXCODE_MCODE cause));
         estat = FIELD_DP64 estat CSR_ESTAT_ESUBCODE (word_of_int (EXCODE_SUBCODE cause));
         prmd = FIELD_DP64 (CSR_PRMD env) CSR_PRMD_PPLV (FIELD_EX64 (CSR_CRMD env) CSR_CRMD_PLV);
         prmd = FIELD_DP64 prmd CSR_PRMD_PIE (FIELD_EX64 (CSR_CRMD env) CSR_CRMD_IE)
     in env\<lparr>CSR_ESTAT := if cause \<noteq> EXCCODE_INT \<or> FIELD_EX64 (CSR_ECFG env) CSR_ECFG_VS = 0
                          then estat else CSR_ESTAT env,
            CSR_PRMD := prmd, CSR_ERA := pc env\<rparr>)"

text \<open>The jump to the handler. All offsets are computed in 32 bits.\<close>

definition enter_int :: "u32 \<Rightarrow> 'd machine \<Rightarrow> 'd machine" where
  "enter_int vec_size env =
    (let env = env\<lparr>irq_count := irq_count env + 1\<rparr>;
         pending = (ucast (FIELD_EX64 (CSR_ESTAT env) CSR_ESTAT_IS) :: u32);
         pending = pending AND ucast (FIELD_EX64 (CSR_ECFG env) CSR_ECFG_LIE);
         vector = 31 - of_nat (clz32 pending)
     in set_pc env (CSR_EENTRY env + ucast ((EXCCODE_EXTERNAL_INT + vector) * vec_size)))"

definition enter_exc :: "bool \<Rightarrow> int \<Rightarrow> u32 \<Rightarrow> 'd machine \<Rightarrow> 'd machine" where
  "enter_exc tlbfill cause vec_size env =
    (if tlbfill
     then let env = env\<lparr>tlbr_count := tlbr_count env + 1\<rparr> in set_pc env (CSR_TLBRENTRY env)
     else let e = nat (exception_index env);
              env = env\<lparr>ecounter := (ecounter env)(e := ecounter env e + 1)\<rparr>
          in set_pc env (CSR_EENTRY env + ucast (word_of_int (EXCODE_MCODE cause) * vec_size)))"

definition loongarch_cpu_do_interrupt :: "'d machine \<Rightarrow> (unit, 'd machine) outcome" where
  "loongarch_cpu_do_interrupt env =
    (let tlbfill = FIELD_EX64 (CSR_TLBRERA env) CSR_TLBRERA_ISTLBR \<noteq> 0;
         vec_size = (ucast (FIELD_EX64 (CSR_ECFG env) CSR_ECFG_VS) :: u32)
     in case exception_cause env of
          None \<Rightarrow> Crash
        | Some (env, cause, update_badinstr) \<Rightarrow>
            let env = (if update_badinstr then env\<lparr>CSR_BADI := ucast (cpu_ldl_code env (pc env))\<rparr> else env);
                env = (if tlbfill then save_tlbr env else save_exc cause env);
                env = env\<lparr>CSR_CRMD := FIELD_DP64 (CSR_CRMD env) CSR_CRMD_PLV 0\<rparr>;
                env = env\<lparr>CSR_CRMD := FIELD_DP64 (CSR_CRMD env) CSR_CRMD_IE 0\<rparr>;
                vec_size = (if vec_size \<noteq> 0 then push_bit (unat vec_size) 1 * 4 else vec_size);
                env = (if exception_index env = EXCCODE_INT then enter_int vec_size env
                       else enter_exc tlbfill cause vec_size env)
            in Ret () (env\<lparr>exception_index := - 1\<rparr>))"

text \<open>\<open>do_raise_exception\<close> never returns: it ends in the \<open>siglongjmp\<close> to \<open>exec_env\<close>.\<close>

definition do_raise_exception :: "'d machine \<Rightarrow> int \<Rightarrow> ('a, 'd machine) outcome" where
  "do_raise_exception env exception = Exn ((cpu_clear_tc env)\<lparr>exception_index := exception\<rparr>)"

section \<open>Exception return\<close>

definition helper_ertn :: "'d machine \<Rightarrow> 'd machine" where
  "helper_ertn env =
    (let (env, csr_pplv, csr_pie) =
       (if FIELD_EX64 (CSR_TLBRERA env) CSR_TLBRERA_ISTLBR \<noteq> 0
        then let csr_pplv = FIELD_EX64 (CSR_TLBRPRMD env) CSR_TLBRPRMD_PPLV;
                 csr_pie = FIELD_EX64 (CSR_TLBRPRMD env) CSR_TLBRPRMD_PIE;
                 env = env\<lparr>CSR_TLBRERA := FIELD_DP64 (CSR_TLBRERA env) CSR_TLBRERA_ISTLBR 0\<rparr>;
                 env = env\<lparr>CSR_CRMD := FIELD_DP64 (CSR_CRMD env) CSR_CRMD_DA 0\<rparr>;
                 env = env\<lparr>CSR_CRMD := FIELD_DP64 (CSR_CRMD env) CSR_CRMD_PG 1\<rparr>
             in (set_pc env (CSR_TLBRERA env), csr_pplv, csr_pie)
        else let csr_pplv = FIELD_EX64 (CSR_PRMD env) CSR_PRMD_PPLV;
                 csr_pie = FIELD_EX64 (CSR_PRMD env) CSR_PRMD_PIE
             in (set_pc env (CSR_ERA env), csr_pplv, csr_pie));
         env = env\<lparr>CSR_CRMD := FIELD_DP64 (CSR_CRMD env) CSR_CRMD_PLV csr_pplv\<rparr>;
         env = env\<lparr>CSR_CRMD := FIELD_DP64 (CSR_CRMD env) CSR_CRMD_IE csr_pie\<rparr>;
         env = (if FIELD_EX64 (CSR_LLBCTL env) CSR_LLBCTL_KLO \<noteq> 1
                then env\<lparr>CSR_LLBCTL := FIELD_DP64 (CSR_LLBCTL env) CSR_LLBCTL_ROLLB 0, lladdr := 1\<rparr>
                else env)
     in env\<lparr>CSR_LLBCTL := FIELD_DP64 (CSR_LLBCTL env) CSR_LLBCTL_KLO 0\<rparr>)"

section \<open>Interrupt lines and the timer\<close>

definition N_IRQS :: int where "N_IRQS = 13"
definition IRQ_TIMER :: int where "IRQ_TIMER = 11"

text \<open>On the register alone, which is what a device reaches through its interrupt line.\<close>

definition estat_set_irq :: "u64 \<Rightarrow> int \<Rightarrow> int \<Rightarrow> u64 option" where
  "estat_set_irq estat irq level =
    (if irq < 0 \<or> irq \<ge> N_IRQS then None
     else Some (deposit64 estat (nat irq) 1 (of_bool (level \<noteq> 0))))"

definition loongarch_cpu_set_irq :: "int \<Rightarrow> int \<Rightarrow> 'd machine \<Rightarrow> (unit, 'd machine) outcome" where
  "loongarch_cpu_set_irq irq level env =
    (case estat_set_irq (CSR_ESTAT env) irq level of
       None \<Rightarrow> Crash | Some e \<Rightarrow> Ret () (env\<lparr>CSR_ESTAT := e\<rparr>))"

definition CONSTANT_TIMER_TICK_MASK :: u64 where "CONSTANT_TIMER_TICK_MASK = 0xfffffffffffc"
definition CONSTANT_TIMER_ENABLE :: u64 where "CONSTANT_TIMER_ENABLE = 0x1"
definition TIMER_PERIOD :: u64 where "TIMER_PERIOD = 10"
definition INT64_MAX :: u64 where "INT64_MAX = 0x7fffffffffffffff"

definition cpu_settimer :: "'d machine \<Rightarrow> 'd machine" where
  "cpu_settimer env = env\<lparr>host_timer := (CSR_TCFG env AND CONSTANT_TIMER_TICK_MASK) * TIMER_PERIOD\<rparr>"

definition cpu_disable_timer :: "'d machine \<Rightarrow> 'd machine" where
  "cpu_disable_timer env = env\<lparr>host_timer := 0\<rparr>"

text \<open>The signal handler of the host timer.\<close>

definition sigaction_entry_timer :: "'d machine \<Rightarrow> 'd machine" where
  "sigaction_entry_timer env = env\<lparr>timer_int := True\<rparr>"

definition loongarch_cpu_check_irq :: "'d machine \<Rightarrow> (unit, 'd machine) outcome" where
  "loongarch_cpu_check_irq env =
    (if determined env then
       let env = env\<lparr>timer_counter := timer_counter env - (CSR_TCFG env AND CONSTANT_TIMER_ENABLE)\<rparr>
       in if timer_counter env = 0
          then bind_out (loongarch_cpu_set_irq IRQ_TIMER 1 (env\<lparr>timer_counter := INT64_MAX\<rparr>)) (\<lambda>_ env.
            if FIELD_EX64 (CSR_TCFG env) CSR_TCFG_PERIODIC \<noteq> 0
            then Ret () (env\<lparr>timer_counter := CSR_TCFG env AND CONSTANT_TIMER_TICK_MASK\<rparr>)
            else Ret () (env\<lparr>CSR_TCFG := FIELD_DP64 (CSR_TCFG env) CSR_TCFG_EN 0\<rparr>))
          else Ret () env
     else if timer_int env
          then bind_out (loongarch_cpu_set_irq IRQ_TIMER 1 (env\<lparr>timer_int := False\<rparr>)) (\<lambda>_ env.
            if FIELD_EX64 (CSR_TCFG env) CSR_TCFG_PERIODIC \<noteq> 0
            then Ret () (cpu_settimer env)
            else Ret () (env\<lparr>CSR_TCFG := FIELD_DP64 (CSR_TCFG env) CSR_TCFG_EN 0\<rparr>))
          else Ret () env)"

definition loongarch_cpu_has_irq :: "'d machine \<Rightarrow> bool" where
  "loongarch_cpu_has_irq env \<longleftrightarrow> FIELD_EX64 (CSR_CRMD env) CSR_CRMD_IE \<noteq> 0
    \<and> FIELD_EX64 (CSR_ESTAT env) CSR_ESTAT_IS AND FIELD_EX64 (CSR_ECFG env) CSR_ECFG_LIE \<noteq> 0"

text \<open>The CPU part of \<open>main\<close>, for the core \<open>la464\<close>.\<close>

definition main_cpu_setup :: "u64 \<Rightarrow> 'd machine \<Rightarrow> 'd machine" where
  "main_cpu_setup entry_addr env =
    (let env = cpu_reset env;
         env = loongarch_la464_initfn env;
         env = cpu_clear_tc env;
         env = env\<lparr>timer_counter := INT64_MAX\<rparr>
     in env\<lparr>pc := entry_addr\<rparr>)"

section \<open>What entry and return save and restore\<close>

text \<open>The exceptions that are entered through the ordinary path: all the supported ones but the
  debug breakpoint and an interrupt in debug mode.\<close>

definition plain_exception :: "'d machine \<Rightarrow> bool" where
  "plain_exception env \<longleftrightarrow> (\<exists>u. exception_cause env = Some (env, exception_index env, u))"

text \<open>The highest-priority pending interrupt is the one with the greatest number.\<close>

definition pending_irqs :: "'d machine \<Rightarrow> u64" where
  "pending_irqs env = FIELD_EX64 (CSR_ESTAT env) CSR_ESTAT_IS AND FIELD_EX64 (CSR_ECFG env) CSR_ECFG_LIE"

lemmas fld = field_simps64 field_defs

lemma set_pc_simps [simp]:
  "CSR_CRMD (set_pc env v) = CSR_CRMD env" "CSR_PRMD (set_pc env v) = CSR_PRMD env"
  "CSR_ERA (set_pc env v) = CSR_ERA env" "CSR_TLBRERA (set_pc env v) = CSR_TLBRERA env"
  "CSR_TLBRPRMD (set_pc env v) = CSR_TLBRPRMD env" "CSR_LLBCTL (set_pc env v) = CSR_LLBCTL env"
  "CSR_MISC (set_pc env v) = CSR_MISC env" "cpucfg (set_pc env v) = cpucfg env"
  "gpr (set_pc env v) = gpr env" "ram (set_pc env v) = ram env" "tlb (set_pc env v) = tlb env"
  "CSR_DBG (set_pc env v) = CSR_DBG env" "exception_index (set_pc env v) = exception_index env"
  "CSR_ESTAT (set_pc env v) = CSR_ESTAT env" "CSR_ECFG (set_pc env v) = CSR_ECFG env"
  by (simp_all add: set_pc_def)

lemma enter_simps [simp]:
  "CSR_CRMD (enter_int vs env) = CSR_CRMD env" "CSR_PRMD (enter_int vs env) = CSR_PRMD env"
  "CSR_ERA (enter_int vs env) = CSR_ERA env" "CSR_TLBRERA (enter_int vs env) = CSR_TLBRERA env"
  "CSR_TLBRPRMD (enter_int vs env) = CSR_TLBRPRMD env" "cpucfg (enter_int vs env) = cpucfg env"
  "gpr (enter_int vs env) = gpr env" "ram (enter_int vs env) = ram env" "tlb (enter_int vs env) = tlb env"
  "CSR_CRMD (enter_exc t c vs env) = CSR_CRMD env" "CSR_PRMD (enter_exc t c vs env) = CSR_PRMD env"
  "CSR_ERA (enter_exc t c vs env) = CSR_ERA env" "CSR_TLBRERA (enter_exc t c vs env) = CSR_TLBRERA env"
  "CSR_TLBRPRMD (enter_exc t c vs env) = CSR_TLBRPRMD env" "cpucfg (enter_exc t c vs env) = cpucfg env"
  "gpr (enter_exc t c vs env) = gpr env" "ram (enter_exc t c vs env) = ram env"
  "tlb (enter_exc t c vs env) = tlb env"
  by (simp_all add: enter_int_def enter_exc_def Let_def)

lemma is_va32_PLV0: "is_la64 env \<Longrightarrow> FIELD_EX64 (CSR_CRMD env) CSR_CRMD_PLV = 0 \<Longrightarrow> \<not> is_va32 env"
  by (simp add: is_va32_def Let_def)

lemma entry_plain:
  assumes "plain_exception env" and t: "FIELD_EX64 (CSR_TLBRERA env) CSR_TLBRERA_ISTLBR = 0"
  obtains env' where "loongarch_cpu_do_interrupt env = Ret () env'"
    and "CSR_ERA env' = pc env" 
    and "FIELD_EX64 (CSR_PRMD env') CSR_PRMD_PPLV = FIELD_EX64 (CSR_CRMD env) CSR_CRMD_PLV"
    and "FIELD_EX64 (CSR_PRMD env') CSR_PRMD_PIE = FIELD_EX64 (CSR_CRMD env) CSR_CRMD_IE"
    and "CSR_CRMD env' = FIELD_DP64 (FIELD_DP64 (CSR_CRMD env) CSR_CRMD_PLV 0) CSR_CRMD_IE 0"
    and "CSR_TLBRERA env' = CSR_TLBRERA env" and "cpucfg env' = cpucfg env"
    and "gpr env' = gpr env" and "ram env' = ram env" and "tlb env' = tlb env"
proof -
  obtain u where u: "exception_cause env = Some (env, exception_index env, u)"
    using assms(1) by (auto simp: plain_exception_def)
  define s where "s = (if u then env\<lparr>CSR_BADI := ucast (cpu_ldl_code env (pc env))\<rparr> else env)"
  define s1 where "s1 = save_exc (exception_index env) s"
  define s2 where "s2 = s1\<lparr>CSR_CRMD := FIELD_DP64 (FIELD_DP64 (CSR_CRMD s1) CSR_CRMD_PLV 0) CSR_CRMD_IE 0\<rparr>"
  define vs where "vs = (ucast (FIELD_EX64 (CSR_ECFG env) CSR_ECFG_VS) :: u32)"
  define vs' where "vs' = (if vs \<noteq> 0 then push_bit (unat vs) 1 * 4 else vs)"
  define env' where "env' = (if exception_index s2 = EXCCODE_INT then enter_int vs' s2
       else enter_exc False (exception_index env) vs' s2)\<lparr>exception_index := - 1\<rparr>"
  have eq: "loongarch_cpu_do_interrupt env = Ret () env'"
    by (simp add: loongarch_cpu_do_interrupt_def u t s_def s1_def s2_def vs_def vs'_def env'_def Let_def)
  have "gpr s = gpr env" "ram s = ram env" "tlb s = tlb env" "pc s = pc env" "CSR_CRMD s = CSR_CRMD env"
   "CSR_PRMD s = CSR_PRMD env" "CSR_TLBRERA s = CSR_TLBRERA env"   "cpucfg s = cpucfg env"
    by (simp_all add: s_def)
  then show thesis
    by (intro that [OF eq]) (simp_all add: env'_def s1_def s2_def save_exc_def fld Let_def)
qed

lemma entry_refill:
  assumes "plain_exception env" and t: "FIELD_EX64 (CSR_TLBRERA env) CSR_TLBRERA_ISTLBR \<noteq> 0"
  obtains env' where "loongarch_cpu_do_interrupt env = Ret () env'"
    and "CSR_TLBRERA env' = FIELD_DP64 (CSR_TLBRERA env) CSR_TLBRERA_PC (drop_bit 2 (pc env))"
    and "FIELD_EX64 (CSR_TLBRPRMD env') CSR_TLBRPRMD_PPLV = FIELD_EX64 (CSR_CRMD env) CSR_CRMD_PLV"
    and "FIELD_EX64 (CSR_TLBRPRMD env') CSR_TLBRPRMD_PIE = FIELD_EX64 (CSR_CRMD env) CSR_CRMD_IE"
    and "CSR_CRMD env' = FIELD_DP64 (FIELD_DP64 (FIELD_DP64 (FIELD_DP64 (CSR_CRMD env)
          CSR_CRMD_DA 1) CSR_CRMD_PG 0) CSR_CRMD_PLV 0) CSR_CRMD_IE 0"
    and "cpucfg env' = cpucfg env"
    and "gpr env' = gpr env" and "ram env' = ram env" and "tlb env' = tlb env"
proof -
  obtain u where u: "exception_cause env = Some (env, exception_index env, u)"
    using assms(1) by (auto simp: plain_exception_def)
  define s where "s = (if u then env\<lparr>CSR_BADI := ucast (cpu_ldl_code env (pc env))\<rparr> else env)"
  define s1 where "s1 = save_tlbr s"
  define s2 where "s2 = s1\<lparr>CSR_CRMD := FIELD_DP64 (FIELD_DP64 (CSR_CRMD s1) CSR_CRMD_PLV 0) CSR_CRMD_IE 0\<rparr>"
  define vs where "vs = (ucast (FIELD_EX64 (CSR_ECFG env) CSR_ECFG_VS) :: u32)"
  define vs' where "vs' = (if vs \<noteq> 0 then push_bit (unat vs) 1 * 4 else vs)"
  define env' where "env' = (if exception_index s2 = EXCCODE_INT then enter_int vs' s2
       else enter_exc True (exception_index env) vs' s2)\<lparr>exception_index := - 1\<rparr>"
  have eq: "loongarch_cpu_do_interrupt env = Ret () env'"
    by (simp add: loongarch_cpu_do_interrupt_def u t s_def s1_def s2_def vs_def vs'_def env'_def Let_def)
  have "gpr s = gpr env" "ram s = ram env" "tlb s = tlb env" "pc s = pc env" "CSR_CRMD s = CSR_CRMD env"
    "CSR_TLBRPRMD s = CSR_TLBRPRMD env" "CSR_TLBRERA s = CSR_TLBRERA env" "cpucfg s = cpucfg env"
    by (simp_all add: s_def)
  then show thesis
    by (intro that [OF eq]) (simp_all add: env'_def s1_def s2_def save_tlbr_def fld Let_def)
qed

lemma ertn_plain:
  assumes "FIELD_EX64 (CSR_TLBRERA env) CSR_TLBRERA_ISTLBR = 0"
    and "is_la64 env" and "FIELD_EX64 (CSR_CRMD env) CSR_CRMD_PLV = 0"
  shows "pc (helper_ertn env) = CSR_ERA env"
    and "CSR_CRMD (helper_ertn env) = FIELD_DP64 (FIELD_DP64 (CSR_CRMD env)
          CSR_CRMD_PLV (FIELD_EX64 (CSR_PRMD env) CSR_PRMD_PPLV))
          CSR_CRMD_IE (FIELD_EX64 (CSR_PRMD env) CSR_PRMD_PIE)"
    and "gpr (helper_ertn env) = gpr env" and "ram (helper_ertn env) = ram env"
    and "tlb (helper_ertn env) = tlb env"
  using assms is_va32_PLV0 [of env] by (simp_all add: helper_ertn_def Let_def set_pc_def)

lemma ertn_refill:
  assumes "FIELD_EX64 (CSR_TLBRERA env) CSR_TLBRERA_ISTLBR \<noteq> 0"
    and "is_la64 env" and "FIELD_EX64 (CSR_CRMD env) CSR_CRMD_PLV = 0"
  shows "pc (helper_ertn env) = FIELD_DP64 (CSR_TLBRERA env) CSR_TLBRERA_ISTLBR 0"
    and "CSR_CRMD (helper_ertn env) = FIELD_DP64 (FIELD_DP64 (FIELD_DP64 (FIELD_DP64 (CSR_CRMD env)
          CSR_CRMD_DA 0) CSR_CRMD_PG 1)
          CSR_CRMD_PLV (FIELD_EX64 (CSR_TLBRPRMD env) CSR_TLBRPRMD_PPLV))
          CSR_CRMD_IE (FIELD_EX64 (CSR_TLBRPRMD env) CSR_TLBRPRMD_PIE)"
    and "FIELD_EX64 (CSR_TLBRERA (helper_ertn env)) CSR_TLBRERA_ISTLBR = 0"
    and "gpr (helper_ertn env) = gpr env" and "ram (helper_ertn env) = ram env"
    and "tlb (helper_ertn env) = tlb env"
proof -
  define e where "e = env\<lparr>CSR_TLBRERA := FIELD_DP64 (CSR_TLBRERA env) CSR_TLBRERA_ISTLBR 0,
    CSR_CRMD := FIELD_DP64 (FIELD_DP64 (CSR_CRMD env) CSR_CRMD_DA 0) CSR_CRMD_PG 1\<rparr>"
  have "\<not> is_va32 e"
    using assms by (intro is_va32_PLV0) (simp_all add: e_def is_la64_def fld)
  then have pc: "set_pc e v = e\<lparr>pc := v\<rparr>" for v by (simp add: set_pc_def)
  have eq: "helper_ertn env = (let env = (set_pc e (CSR_TLBRERA e));
         env = env\<lparr>CSR_CRMD := FIELD_DP64 (CSR_CRMD env) CSR_CRMD_PLV (FIELD_EX64 (CSR_TLBRPRMD env) CSR_TLBRPRMD_PPLV)\<rparr>;
         env = env\<lparr>CSR_CRMD := FIELD_DP64 (CSR_CRMD env) CSR_CRMD_IE (FIELD_EX64 (CSR_TLBRPRMD env) CSR_TLBRPRMD_PIE)\<rparr>;
         env = (if FIELD_EX64 (CSR_LLBCTL env) CSR_LLBCTL_KLO \<noteq> 1
                then env\<lparr>CSR_LLBCTL := FIELD_DP64 (CSR_LLBCTL env) CSR_LLBCTL_ROLLB 0, lladdr := 1\<rparr>
                else env)
     in env\<lparr>CSR_LLBCTL := FIELD_DP64 (CSR_LLBCTL env) CSR_LLBCTL_KLO 0\<rparr>)"
    using assms(1) by (simp add: helper_ertn_def e_def Let_def)
  show "pc (helper_ertn env) = FIELD_DP64 (CSR_TLBRERA env) CSR_TLBRERA_ISTLBR 0"
    and "CSR_CRMD (helper_ertn env) = FIELD_DP64 (FIELD_DP64 (FIELD_DP64 (FIELD_DP64 (CSR_CRMD env)
          CSR_CRMD_DA 0) CSR_CRMD_PG 1)
          CSR_CRMD_PLV (FIELD_EX64 (CSR_TLBRPRMD env) CSR_TLBRPRMD_PPLV))
          CSR_CRMD_IE (FIELD_EX64 (CSR_TLBRPRMD env) CSR_TLBRPRMD_PIE)"
    and "FIELD_EX64 (CSR_TLBRERA (helper_ertn env)) CSR_TLBRERA_ISTLBR = 0"
    and "gpr (helper_ertn env) = gpr env" and "ram (helper_ertn env) = ram env"
    and "tlb (helper_ertn env) = tlb env"
    by (simp_all add: eq pc Let_def) (simp_all add: e_def fld)
qed

lemma exc_return_plain:
  assumes "plain_exception env" and "FIELD_EX64 (CSR_TLBRERA env) CSR_TLBRERA_ISTLBR = 0" and "is_la64 env"
  obtains env' where "loongarch_cpu_do_interrupt env = Ret () env'"
    and "pc (helper_ertn env') = pc env" and "CSR_CRMD (helper_ertn env') = CSR_CRMD env"
    and "gpr (helper_ertn env') = gpr env" and "ram (helper_ertn env') = ram env"
    and "tlb (helper_ertn env') = tlb env"
proof -
  obtain e where e: "loongarch_cpu_do_interrupt env = Ret () e" "CSR_ERA e = pc env" 
    "FIELD_EX64 (CSR_PRMD e) CSR_PRMD_PPLV = FIELD_EX64 (CSR_CRMD env) CSR_CRMD_PLV"
    "FIELD_EX64 (CSR_PRMD e) CSR_PRMD_PIE = FIELD_EX64 (CSR_CRMD env) CSR_CRMD_IE"
    "CSR_CRMD e = FIELD_DP64 (FIELD_DP64 (CSR_CRMD env) CSR_CRMD_PLV 0) CSR_CRMD_IE 0"
    "CSR_TLBRERA e = CSR_TLBRERA env" "cpucfg e = cpucfg env"
    "gpr e = gpr env" "ram e = ram env" "tlb e = tlb env"
    using assms(1,2) by (rule entry_plain)
  have r: "FIELD_EX64 (CSR_TLBRERA e) CSR_TLBRERA_ISTLBR = 0" "is_la64 e"
    "FIELD_EX64 (CSR_CRMD e) CSR_CRMD_PLV = 0"
    using assms e by (simp_all add: is_la64_def fld)
  show thesis
    using e ertn_plain [OF r] by (intro that [OF e(1)]) (simp_all add: field_defs f64.dp_restore_2)
qed

lemma word_and_3_eq_0: "(w :: u64) AND 3 = 0 \<Longrightarrow> \<not> bit w 0 \<and> \<not> bit w 1"
proof -
  assume a: "w AND 3 = 0"
  have "bit (w AND 3) 0 = bit w 0" "bit (w AND 3) 1 = bit w 1" by (simp_all add: bit_simps)
  with a show ?thesis by simp
qed

lemma word_and_2_eq_0: "(w :: u64) AND 2 = 0 \<Longrightarrow> \<not> bit w 1"
proof -
  assume a: "w AND 2 = 0"
  have "bit (w AND 2) 1 = bit w 1" by (simp add: bit_simps)
  with a show ?thesis by simp
qed

text \<open>The return from a refill, from any state that has the saved copies.\<close>

lemma return_after_refill:
  assumes e: "CSR_TLBRERA e = FIELD_DP64 tlbrera CSR_TLBRERA_PC (drop_bit 2 (pc env))"
      "FIELD_EX64 (CSR_TLBRPRMD e) CSR_TLBRPRMD_PPLV = FIELD_EX64 (CSR_CRMD env) CSR_CRMD_PLV"
      "FIELD_EX64 (CSR_TLBRPRMD e) CSR_TLBRPRMD_PIE = FIELD_EX64 (CSR_CRMD env) CSR_CRMD_IE"
      "CSR_CRMD e = FIELD_DP64 (FIELD_DP64 (FIELD_DP64 (FIELD_DP64 (CSR_CRMD env)
          CSR_CRMD_DA 1) CSR_CRMD_PG 0) CSR_CRMD_PLV 0) CSR_CRMD_IE 0"
    and la: "is_la64 e" and ist: "FIELD_EX64 tlbrera CSR_TLBRERA_ISTLBR \<noteq> 0"
    and al: "pc env AND 3 = 0" "tlbrera AND 2 = 0"
    and da: "FIELD_EX64 (CSR_CRMD env) CSR_CRMD_DA = 0" "FIELD_EX64 (CSR_CRMD env) CSR_CRMD_PG = 1"
  shows "pc (helper_ertn e) = pc env \<and> CSR_CRMD (helper_ertn e) = CSR_CRMD env"
proof -
  have r: "FIELD_EX64 (CSR_TLBRERA e) CSR_TLBRERA_ISTLBR \<noteq> 0" "FIELD_EX64 (CSR_CRMD e) CSR_CRMD_PLV = 0"
    using ist e by (simp_all add: fld)
  have pc: "FIELD_DP64 (CSR_TLBRERA e) CSR_TLBRERA_ISTLBR 0 = pc env"
  proof -
    have "Suc (Suc (n - 2)) = n" if "2 \<le> n" for n using that by simp
    then show ?thesis
      unfolding e(1) using word_and_3_eq_0 [OF al(1)] word_and_2_eq_0 [OF al(2)]
      by (intro bit_word_eqI) (auto simp: field_defs f64.bit_dp bit_simps not_le less_2_cases_iff)
  qed
  have crmd: "FIELD_DP64 (FIELD_DP64 (FIELD_DP64 (FIELD_DP64 (CSR_CRMD e) CSR_CRMD_DA 0) CSR_CRMD_PG 1)
      CSR_CRMD_PLV (FIELD_EX64 (CSR_CRMD env) CSR_CRMD_PLV))
      CSR_CRMD_IE (FIELD_EX64 (CSR_CRMD env) CSR_CRMD_IE) = CSR_CRMD env"
  proof -
    have "\<not> bit (CSR_CRMD env) 3" "bit (CSR_CRMD env) 4"
      using da f64.ex_single_bit [of 3 "CSR_CRMD env"] f64.ex_single_bit [of 4 "CSR_CRMD env"]
      by (simp_all add: field_defs split: if_splits)
    note bits = this
    show ?thesis unfolding e(4) field_defs
    proof (rule bit_word_eqI)
      fix n :: nat
      consider "n = 0" | "n = 1" | "n = 2" | "n = 3" | "n = 4" | "5 \<le> n" by linarith
      then show "bit (FIELD_DP64 (FIELD_DP64 (FIELD_DP64 (FIELD_DP64 (FIELD_DP64 (FIELD_DP64 (FIELD_DP64
          (FIELD_DP64 (CSR_CRMD env) (3, 1) 1) (4, 1) 0) (0, 2) 0) (2, 1) 0) (3, 1) 0) (4, 1) 1)
          (0, 2) (FIELD_EX64 (CSR_CRMD env) (0, 2))) (2, 1) (FIELD_EX64 (CSR_CRMD env) (2, 1))) n
        = bit (CSR_CRMD env) n"
        by cases (use bits in \<open>auto simp: f64.bit_dp f64.bit_ex dest: bit_u64_imp_le\<close>)
    qed
  qed
  show ?thesis
    using pc crmd e(2,3) ertn_refill [OF r(1) la r(2)] by simp
qed

lemma exc_return_refill:
  assumes "plain_exception env" and "FIELD_EX64 (CSR_TLBRERA env) CSR_TLBRERA_ISTLBR \<noteq> 0" and "is_la64 env"
    and da: "FIELD_EX64 (CSR_CRMD env) CSR_CRMD_DA = 0" "FIELD_EX64 (CSR_CRMD env) CSR_CRMD_PG = 1"
    and al: "pc env AND 3 = 0" "CSR_TLBRERA env AND 2 = 0"
  obtains env' where "loongarch_cpu_do_interrupt env = Ret () env'"
    and "FIELD_EX64 (CSR_CRMD env') CSR_CRMD_DA = 1" and "FIELD_EX64 (CSR_CRMD env') CSR_CRMD_PG = 0"
    and "pc (helper_ertn env') = pc env" and "CSR_CRMD (helper_ertn env') = CSR_CRMD env"
    and "gpr (helper_ertn env') = gpr env" and "ram (helper_ertn env') = ram env"
    and "tlb (helper_ertn env') = tlb env"
proof -
  obtain e where e: "loongarch_cpu_do_interrupt env = Ret () e"
    "CSR_TLBRERA e = FIELD_DP64 (CSR_TLBRERA env) CSR_TLBRERA_PC (drop_bit 2 (pc env))"
    "FIELD_EX64 (CSR_TLBRPRMD e) CSR_TLBRPRMD_PPLV = FIELD_EX64 (CSR_CRMD env) CSR_CRMD_PLV"
    "FIELD_EX64 (CSR_TLBRPRMD e) CSR_TLBRPRMD_PIE = FIELD_EX64 (CSR_CRMD env) CSR_CRMD_IE"
    "CSR_CRMD e = FIELD_DP64 (FIELD_DP64 (FIELD_DP64 (FIELD_DP64 (CSR_CRMD env)
          CSR_CRMD_DA 1) CSR_CRMD_PG 0) CSR_CRMD_PLV 0) CSR_CRMD_IE 0"
    "cpucfg e = cpucfg env" "gpr e = gpr env" "ram e = ram env" "tlb e = tlb env"
    using assms(1,2) by (rule entry_refill)
  have r: "FIELD_EX64 (CSR_TLBRERA e) CSR_TLBRERA_ISTLBR \<noteq> 0" "is_la64 e"
    "FIELD_EX64 (CSR_CRMD e) CSR_CRMD_PLV = 0"
    using assms e by (simp_all add: is_la64_def fld)
  show thesis
    using e r(2) return_after_refill [OF e(2-5)] assms ertn_refill [OF r]
    by (intro that [OF e(1)]) (simp_all add: fld)
qed

lemma bit_pending: "bit (pending_irqs env) k \<longleftrightarrow> k < 13 \<and> bit (CSR_ESTAT env) k \<and> bit (CSR_ECFG env) k"
  by (auto simp: pending_irqs_def bit_simps field_defs f64.bit_ex)

lemma enter_int_vector:
  assumes "pending_irqs env \<noteq> 0"
  obtains k where "k < 13" and "bit (pending_irqs env) k" and "\<And>j. bit (pending_irqs env) j \<Longrightarrow> j \<le> k"
    and "enter_int vs env = set_pc (env\<lparr>irq_count := irq_count env + 1\<rparr>)
          (CSR_EENTRY env + ucast ((EXCCODE_EXTERNAL_INT + of_nat k) * vs))"
proof -
  define p where "p = (ucast (pending_irqs env) :: u32)"
  have bp: "bit p n \<longleftrightarrow> bit (pending_irqs env) n" for n
    by (auto simp: p_def bit_simps bit_pending)
  obtain n where "bit (pending_irqs env) n" using assms by (auto simp: bit_eq_iff)
  then have "p \<noteq> 0" using bp [of n] by auto
  then have top: "clz32 p < 32" "bit p (31 - clz32 p)" "\<And>m. 31 - clz32 p < m \<Longrightarrow> \<not> bit p m"
    using clz32_top [of p] by auto
  have p: "(ucast (FIELD_EX64 (CSR_ESTAT env) CSR_ESTAT_IS) :: u32) AND ucast (FIELD_EX64 (CSR_ECFG env) CSR_ECFG_LIE) = p"
    by (rule bit_word_eqI) (auto simp: p_def pending_irqs_def bit_simps)
  have v: "(31 - of_nat (clz32 p) :: u32) = of_nat (31 - clz32 p)"
    using top(1) by (simp add: of_nat_diff)
  show thesis
  proof (rule that [of "31 - clz32 p"])
    show "31 - clz32 p < 13" "bit (pending_irqs env) (31 - clz32 p)" using top(2) bp by (auto simp: bit_pending)
    show "j \<le> 31 - clz32 p" if "bit (pending_irqs env) j" for j using top(3) [of j] bp that by force
  qed (simp add: enter_int_def Let_def p v)
qed

lemma int_entry:
  assumes "exception_index env = EXCCODE_INT" and "FIELD_EX64 (CSR_DBG env) CSR_DBG_DST = 0"
    and "is_la64 env" and "pending_irqs env \<noteq> 0"
    and "FIELD_EX64 (CSR_TLBRERA env) CSR_TLBRERA_ISTLBR = 0"
  obtains k env' where "k < 13" and "bit (pending_irqs env) k" and "\<And>j. bit (pending_irqs env) j \<Longrightarrow> j \<le> k"
    and "loongarch_cpu_do_interrupt env = Ret () env'"
    and "pc env' = CSR_EENTRY env + ucast ((EXCCODE_EXTERNAL_INT + of_nat k) *
      (let vs = ucast (FIELD_EX64 (CSR_ECFG env) CSR_ECFG_VS) :: u32 in if vs \<noteq> 0 then push_bit (unat vs) 1 * 4 else vs))"
proof -
  have u: "exception_cause env = Some (env, EXCCODE_INT, False)"
    using assms(1,2) by (simp add: exception_cause_def Let_def exc_defs)
  define s1 where "s1 = save_exc EXCCODE_INT env"
  define s2 where "s2 = s1\<lparr>CSR_CRMD := FIELD_DP64 (FIELD_DP64 (CSR_CRMD s1) CSR_CRMD_PLV 0) CSR_CRMD_IE 0\<rparr>"
  define vs where "vs = (ucast (FIELD_EX64 (CSR_ECFG env) CSR_ECFG_VS) :: u32)"
  define vs' where "vs' = (if vs \<noteq> 0 then push_bit (unat vs) 1 * 4 else vs)"
  have s2: "CSR_ECFG s2 = CSR_ECFG env" "cpucfg s2 = cpucfg env" "CSR_EENTRY s2 = CSR_EENTRY env"
    "FIELD_EX64 (CSR_ESTAT s2) CSR_ESTAT_IS = FIELD_EX64 (CSR_ESTAT env) CSR_ESTAT_IS"
    "FIELD_EX64 (CSR_CRMD s2) CSR_CRMD_PLV = 0"
    "exception_index s2 = EXCCODE_INT"
    using assms(1) by (simp_all add: s2_def s1_def save_exc_def Let_def fld)
  have eq: "loongarch_cpu_do_interrupt env = Ret () ((enter_int vs' s2)\<lparr>exception_index := - 1\<rparr>)"
    using s2(6) assms(1) by (simp add: loongarch_cpu_do_interrupt_def u assms(5) s1_def s2_def vs_def vs'_def Let_def)
  have p: "pending_irqs s2 = pending_irqs env" using s2 by (simp add: pending_irqs_def)
  obtain k where k: "k < 13" "bit (pending_irqs env) k" "\<And>j. bit (pending_irqs env) j \<Longrightarrow> j \<le> k"
    "enter_int vs' s2 = set_pc (s2\<lparr>irq_count := irq_count s2 + 1\<rparr>)
          (CSR_EENTRY s2 + ucast ((EXCCODE_EXTERNAL_INT + of_nat k) * vs'))"
    using enter_int_vector [of s2 vs'] assms(4) p by metis
  have "\<not> is_va32 (s2\<lparr>irq_count := irq_count s2 + 1\<rparr>)"
    using assms(3) s2 by (intro is_va32_PLV0) (simp_all add: is_la64_def)
  then have "pc (enter_int vs' s2) = CSR_EENTRY env + ucast ((EXCCODE_EXTERNAL_INT + of_nat k) * vs')"
    by (simp add: k(4) set_pc_def s2)
  then show thesis
    by (intro that [OF k(1-3) eq]) (simp_all add: vs_def vs'_def Let_def)
qed

section \<open>The timer\<close>

text \<open>\<open>n\<close> iterations of the check that \<open>exec_env\<close> makes before every instruction.\<close>

definition check_irqs :: "nat \<Rightarrow> 'd machine \<Rightarrow> (unit, 'd machine) outcome" where
  "check_irqs n env = iter_out loongarch_cpu_check_irq n env"

lemma check_irq_tick:
  assumes "determined env" and "CSR_TCFG env AND CONSTANT_TIMER_ENABLE = 1" and "timer_counter env \<noteq> 1"
  shows "loongarch_cpu_check_irq env = Ret () (env\<lparr>timer_counter := timer_counter env - 1\<rparr>)"
  using assms by (simp add: loongarch_cpu_check_irq_def)

lemma check_irqs_ticks:
  assumes "determined env" and "CSR_TCFG env AND CONSTANT_TIMER_ENABLE = 1" and "k < unat (timer_counter env)"
  shows "check_irqs k env = Ret () (env\<lparr>timer_counter := timer_counter env - of_nat k\<rparr>)"
  using assms
proof (induction k arbitrary: env)
  case (Suc k)
  let ?env = "env\<lparr>timer_counter := timer_counter env - 1\<rparr>"
  have pos: "0 < unat (timer_counter env)" using Suc.prems(3) by simp
  have "unat (timer_counter env - 1) = unat (timer_counter env) - 1"
    using pos by (simp add: unat_sub_if' Suc_leI)
  then have "check_irqs k ?env = Ret () (?env\<lparr>timer_counter := timer_counter env - 1 - of_nat k\<rparr>)"
    using Suc.prems Suc.IH [of ?env] by simp
  moreover have "timer_counter env \<noteq> 1" using Suc.prems(3) by auto
  ultimately show ?case using Suc.prems by (simp add: check_irq_tick check_irqs_def algebra_simps)
qed (simp add: check_irqs_def)

lemma check_irq_fire:
  assumes "determined env" and "CSR_TCFG env AND CONSTANT_TIMER_ENABLE = 1" and "timer_counter env = 1"
  shows "loongarch_cpu_check_irq env = Ret () (
    let env = env\<lparr>CSR_ESTAT := deposit64 (CSR_ESTAT env) 11 1 1, timer_counter := INT64_MAX\<rparr> in
    if FIELD_EX64 (CSR_TCFG env) CSR_TCFG_PERIODIC \<noteq> 0
    then env\<lparr>timer_counter := CSR_TCFG env AND CONSTANT_TIMER_TICK_MASK\<rparr>
    else env\<lparr>CSR_TCFG := FIELD_DP64 (CSR_TCFG env) CSR_TCFG_EN 0\<rparr>)"
  using assms by (simp add: loongarch_cpu_check_irq_def loongarch_cpu_set_irq_def estat_set_irq_def
      IRQ_TIMER_def N_IRQS_def Let_def)

lemma timer_expiry:
  assumes "determined env" and "CSR_TCFG env AND CONSTANT_TIMER_ENABLE = 1"
    and "n = unat (timer_counter env)" and "0 < n"
  shows "(\<forall>k < n. check_irqs k env = Ret () (env\<lparr>timer_counter := timer_counter env - of_nat k\<rparr>))
    \<and> (\<exists>env'. check_irqs n env = Ret () env' \<and> bit (CSR_ESTAT env') 11
        \<and> (if FIELD_EX64 (CSR_TCFG env) CSR_TCFG_PERIODIC \<noteq> 0
            then timer_counter env' = CSR_TCFG env AND CONSTANT_TIMER_TICK_MASK \<and> CSR_TCFG env' = CSR_TCFG env
            else FIELD_EX64 (CSR_TCFG env') CSR_TCFG_EN = 0))"
proof -
  obtain m where m: "n = Suc m" using assms(4) by (cases n) auto
  let ?env = "env\<lparr>timer_counter := timer_counter env - of_nat m\<rparr>"
  have "timer_counter env - of_nat m = 1"
  proof -
    have "timer_counter env = of_nat (Suc m)" using assms(3) m by (metis of_nat_unat ucast_id)
    then show ?thesis by simp
  qed
  then have f: "timer_counter ?env = 1" by simp
  have t: "check_irqs m env = Ret () ?env" using assms m by (intro check_irqs_ticks) simp_all
  have "check_irqs n env = loongarch_cpu_check_irq ?env"
    using iter_out_snoc [of loongarch_cpu_check_irq m env] t m by (simp only: check_irqs_def bind_out_simps)
  then show ?thesis
    using assms(1,2,3) check_irq_fire [of ?env] f
    by (auto simp: check_irqs_ticks Let_def fld bit_deposit64)
qed

section \<open>Properties\<close>

text \<open>A booted machine: the state of \<open>main\<close> when \<open>exec_env\<close> starts.\<close>

abbreviation booted :: "u64 \<Rightarrow> unit machine" where
  "booted entry_addr \<equiv> main_cpu_setup entry_addr (zeroed_machine 0x100000000 (replicate 16 empty_slot) ())"

lemma booted_cfg1: "FIELD_EX32 (cpucfg (main_cpu_setup e m) 1) CPUCFG1_ARCH = 2"
proof -
  have "cpucfg (main_cpu_setup e m) 1 = cfg_word [(CPUCFG1_ARCH, 2), (CPUCFG1_PGMMU, 1), (CPUCFG1_IOCSR, 1),
           (CPUCFG1_PALEN, 0x2f), (CPUCFG1_VALEN, 0x2f), (CPUCFG1_UAL, 1), (CPUCFG1_RI, 1),
           (CPUCFG1_EP, 1), (CPUCFG1_RPLV, 1), (CPUCFG1_HP, 1), (CPUCFG1_IOCSR_BRD, 1)]"
    by (simp add: main_cpu_setup_def loongarch_la464_initfn_def cpu_clear_tc_def Let_def)
  then show ?thesis by (simp add: cfg_word_def field_defs field_simps32 take_bit_eq_mod)
qed

lemma main_cpu_setup_la64: "is_la64 (main_cpu_setup e m)"
  using booted_cfg1 [of e m] by (simp add: is_la64_def CPUCFG1_ARCH_LA64_def)

lemma main_cpu_setup_fields:
  "FIELD_EX64 (CSR_CRMD (main_cpu_setup e m)) CSR_CRMD_PLV = 0"
  "FIELD_EX64 (CSR_CRMD (main_cpu_setup e m)) CSR_CRMD_IE = 0"
  "FIELD_EX64 (CSR_CRMD (main_cpu_setup e m)) CSR_CRMD_DA = 1"
  "FIELD_EX64 (CSR_CRMD (main_cpu_setup e m)) CSR_CRMD_PG = 0"
  "FIELD_EX64 (CSR_TLBRERA (main_cpu_setup e m)) CSR_TLBRERA_ISTLBR = 0"
  "tlb (main_cpu_setup e m) = (\<lambda>_. \<lparr>tlb_misc = 0, tlb_entry0 = 0, tlb_entry1 = 0\<rparr>)"
  "pc (main_cpu_setup e m) = e"
  "gpr (main_cpu_setup e m) = gpr m" "ram (main_cpu_setup e m) = ram m"
  "exception_index (main_cpu_setup e m) = - 1"
  "tc_load (main_cpu_setup e m) i = \<lparr>tc_va = - 1, tc_pa = - 1\<rparr>"
  "CSR_DBG (main_cpu_setup e m) = CSR_DBG m"
  by (simp_all add: main_cpu_setup_def cpu_reset_def loongarch_la464_initfn_def cpu_clear_tc_def Let_def fld)

text \<open>(C17) The machine that \<open>main\<close> hands to \<open>exec_env\<close> is a 64-bit core at privilege level 0, in
  direct-address mode, with interrupts disabled, no refill in progress, an empty TLB, no interrupt
  to take, and the entry point of the kernel as its program counter.\<close>

theorem boot_state:
  "let env = main_cpu_setup entry_addr m in
     is_la64 env \<and> \<not> is_va32 env \<and> FIELD_EX64 (CSR_CRMD env) CSR_CRMD_PLV = 0
     \<and> FIELD_EX64 (CSR_CRMD env) CSR_CRMD_DA = 1 \<and> FIELD_EX64 (CSR_CRMD env) CSR_CRMD_PG = 0
     \<and> FIELD_EX64 (CSR_TLBRERA env) CSR_TLBRERA_ISTLBR = 0
     \<and> (\<forall>i. FIELD_EX64 (tlb_misc (tlb env i)) TLB_MISC_E = 0)
     \<and> \<not> loongarch_cpu_has_irq env \<and> pc env = entry_addr \<and> ram env = ram m"
  by (simp add: Let_def main_cpu_setup_la64 is_va32_PLV0 main_cpu_setup_fields FIELD_EX64_zero
      loongarch_cpu_has_irq_def)

text \<open>(C15) An exception that is not a TLB refill and the return from it are inverse: after
  \<open>loongarch_cpu_do_interrupt\<close> and \<open>helper_ertn\<close> the program counter and the whole of CRMD (privilege
  level, interrupt enable, translation mode) are what they were, and neither registers, memory nor
  TLB have changed.\<close>

theorem exception_return_roundtrip:
  assumes "plain_exception env" and "FIELD_EX64 (CSR_TLBRERA env) CSR_TLBRERA_ISTLBR = 0" and "is_la64 env"
  shows "\<exists>env'. loongarch_cpu_do_interrupt env = Ret () env' \<and> pc (helper_ertn env') = pc env
    \<and> CSR_CRMD (helper_ertn env') = CSR_CRMD env \<and> gpr (helper_ertn env') = gpr env
    \<and> ram (helper_ertn env') = ram env \<and> tlb (helper_ertn env') = tlb env"
  using assms by (rule exc_return_plain) blast

theorem exception_return_roundtrip_witness:
  "\<exists>env'. loongarch_cpu_do_interrupt ((booted 0x1000)\<lparr>exception_index := EXCCODE_SYS\<rparr>) = Ret () env'
    \<and> pc (helper_ertn env') = 0x1000"
proof -
  let ?env = "(booted 0x1000)\<lparr>exception_index := EXCCODE_SYS\<rparr>"
  have "plain_exception ?env"
    by (auto simp: plain_exception_def exception_cause_def Let_def exc_defs)
  moreover have "FIELD_EX64 (CSR_TLBRERA ?env) CSR_TLBRERA_ISTLBR = 0" "is_la64 ?env"
    using main_cpu_setup_la64 [of "0x1000" "zeroed_machine 0x100000000 (replicate 16 empty_slot) ()"]
    by (simp_all add: main_cpu_setup_fields is_la64_def)
  ultimately show ?thesis
    using exception_return_roundtrip [of ?env] by (auto simp: main_cpu_setup_fields)
qed

text \<open>(C16) A TLB refill and the return from it are inverse too: the refill saves its own copies and
  switches to direct-address mode, and \<open>ertn\<close> restores the program counter and the whole of CRMD,
  for an aligned program counter and a core that was in mapped mode.\<close>

theorem refill_return_roundtrip:
  assumes "plain_exception env" and "FIELD_EX64 (CSR_TLBRERA env) CSR_TLBRERA_ISTLBR \<noteq> 0"
    and "is_la64 env" and "FIELD_EX64 (CSR_CRMD env) CSR_CRMD_DA = 0"
    and "FIELD_EX64 (CSR_CRMD env) CSR_CRMD_PG = 1"
    and "pc env AND 3 = 0" and "CSR_TLBRERA env AND 2 = 0"
  shows "\<exists>env'. loongarch_cpu_do_interrupt env = Ret () env'
    \<and> FIELD_EX64 (CSR_CRMD env') CSR_CRMD_DA = 1 \<and> FIELD_EX64 (CSR_CRMD env') CSR_CRMD_PG = 0
    \<and> pc (helper_ertn env') = pc env \<and> CSR_CRMD (helper_ertn env') = CSR_CRMD env
    \<and> gpr (helper_ertn env') = gpr env \<and> ram (helper_ertn env') = ram env"
  using assms by (rule exc_return_refill) blast

theorem refill_return_roundtrip_witness:
  "\<exists>env'. loongarch_cpu_do_interrupt ((booted 0x4000)\<lparr>exception_index := EXCCODE_PIL,
      CSR_TLBRERA := 1, CSR_CRMD := 0x17\<rparr>) = Ret () env'
    \<and> pc (helper_ertn env') = 0x4000 \<and> CSR_CRMD (helper_ertn env') = 0x17"
proof -
  let ?env = "(booted 0x4000)\<lparr>exception_index := EXCCODE_PIL, CSR_TLBRERA := 1, CSR_CRMD := 0x17\<rparr>"
  have "plain_exception ?env"
    by (auto simp: plain_exception_def exception_cause_def Let_def exc_defs)
  moreover have "FIELD_EX64 1 CSR_TLBRERA_ISTLBR \<noteq> 0" "FIELD_EX64 0x17 CSR_CRMD_DA = 0"
     "FIELD_EX64 0x17 CSR_CRMD_PG = 1"
    by (simp_all add: field_defs FIELD_EX64_def extract64_eq_take_bit)
  moreover have "is_la64 ?env"
    using main_cpu_setup_la64 [of "0x4000" "zeroed_machine 0x100000000 (replicate 16 empty_slot) ()"]
    by (simp add: is_la64_def)
  ultimately show ?thesis
    using refill_return_roundtrip [of ?env] by (auto simp: main_cpu_setup_fields)
qed

text \<open>Interrupt dispatch: when an unmasked interrupt is pending, the handler entered is that of
  the pending interrupt with the greatest number, at \<open>EENTRY + (64 + number) * vector size\<close>.\<close>

theorem interrupt_vectoring:
  assumes "exception_index env = EXCCODE_INT" and "FIELD_EX64 (CSR_DBG env) CSR_DBG_DST = 0"
    and "is_la64 env" and "loongarch_cpu_has_irq env"
    and "FIELD_EX64 (CSR_TLBRERA env) CSR_TLBRERA_ISTLBR = 0"
  shows "\<exists>k env'. bit (pending_irqs env) k \<and> (\<forall>j. bit (pending_irqs env) j \<longrightarrow> j \<le> k) \<and> k < 13
    \<and> loongarch_cpu_do_interrupt env = Ret () env'
    \<and> pc env' = CSR_EENTRY env + ucast ((64 + of_nat k) *
      (let vs = ucast (FIELD_EX64 (CSR_ECFG env) CSR_ECFG_VS) :: u32
       in if vs \<noteq> 0 then push_bit (unat vs) 1 * 4 else vs))"
proof -
  have "pending_irqs env \<noteq> 0" using assms(4) by (simp add: loongarch_cpu_has_irq_def pending_irqs_def)
  from assms(1-3) this assms(5) show ?thesis
    by (rule int_entry) (auto simp: EXCCODE_EXTERNAL_INT_def)
qed

theorem interrupt_vectoring_witness:
  "\<exists>k env'. loongarch_cpu_do_interrupt ((booted 0x4000)\<lparr>exception_index := EXCCODE_INT,
      CSR_CRMD := 0x14, CSR_ESTAT := 0x804, CSR_ECFG := 0x11fff\<rparr>) = Ret () env' \<and> k < (13 :: nat)"
proof -
  let ?env = "(booted 0x4000)\<lparr>exception_index := EXCCODE_INT, CSR_CRMD := 0x14, CSR_ESTAT := 0x804,
    CSR_ECFG := 0x11fff\<rparr>"
  have "FIELD_EX64 0x14 CSR_CRMD_IE = 1" "FIELD_EX64 0x804 CSR_ESTAT_IS = 0x804" "FIELD_EX64 0x11fff CSR_ECFG_LIE = 0x1fff"
    by (simp_all add: field_defs FIELD_EX64_def extract64_eq_take_bit take_bit_eq_mod)
  then have "loongarch_cpu_has_irq ?env" by (simp add: loongarch_cpu_has_irq_def)
  moreover have "is_la64 ?env"
    using main_cpu_setup_la64 [of "0x4000" "zeroed_machine 0x100000000 (replicate 16 empty_slot) ()"]
    by (simp add: is_la64_def)
  moreover have "FIELD_EX64 (CSR_DBG ?env) CSR_DBG_DST = 0"
    by (simp add: main_cpu_setup_fields zeroed_machine_def FIELD_EX64_zero)
  ultimately show ?thesis
    using interrupt_vectoring [of ?env] by (auto simp: main_cpu_setup_fields)
qed

text \<open>The deterministic timer: with the timer enabled and \<open>n\<close> ticks left, the timer interrupt is
  not raised by the first \<open>n - 1\<close> checks and is raised by the \<open>n\<close>-th; a periodic timer is then
  reloaded with its initial value, a one-shot timer is disabled.\<close>

theorem timer_fires_after_n:
  assumes "determined env" and "CSR_TCFG env AND CONSTANT_TIMER_ENABLE = 1"
    and "n = unat (timer_counter env)" and "0 < n"
  shows "(\<forall>k < n. check_irqs k env = Ret () (env\<lparr>timer_counter := timer_counter env - of_nat k\<rparr>))
    \<and> (\<exists>env'. check_irqs n env = Ret () env' \<and> bit (CSR_ESTAT env') 11
        \<and> (if FIELD_EX64 (CSR_TCFG env) CSR_TCFG_PERIODIC \<noteq> 0
            then timer_counter env' = CSR_TCFG env AND CONSTANT_TIMER_TICK_MASK \<and> CSR_TCFG env' = CSR_TCFG env
            else FIELD_EX64 (CSR_TCFG env') CSR_TCFG_EN = 0))"
  using assms by (rule timer_expiry)

theorem timer_fires_after_n_witness:
  "\<exists>env'. check_irqs 3 ((booted 0)\<lparr>determined := True, CSR_TCFG := 0x17, timer_counter := 3\<rparr>) = Ret () env'
    \<and> bit (CSR_ESTAT env') 11"
  using timer_fires_after_n [of "(booted 0)\<lparr>determined := True, CSR_TCFG := 0x17, timer_counter := 3\<rparr>" 3]
  by (auto simp: CONSTANT_TIMER_ENABLE_def)

end
