(* ===== verification/Bytes.thy ===== *)
theory Bytes
  imports Emu_Prelude
begin

text \<open>
  Numbers as bytes in little-endian order, as the RAM accessors of both targets (\<open>loongarch64/cpu.h\<close>, \<open>riscv64/cpu.h\<close>) read and write
  them on the hosts the emulator runs on, and sign extension. A load of what was stored returns it; a store changes no other byte.
\<close>

text \<open>The little-endian number of a list of bytes, and the bytes of a number.\<close>

fun le_load :: "u8 list \<Rightarrow> u64" where
  "le_load [] = 0"
| "le_load (b # bs) = push_bit 8 (le_load bs) OR ucast b"

primrec le_bytes :: "nat \<Rightarrow> u64 \<Rightarrow> u8 list" where
  "le_bytes 0 v = []"
| "le_bytes (Suc n) v = ucast v # le_bytes n (drop_bit 8 v)"

definition store_bytes :: "u64 \<Rightarrow> u8 list \<Rightarrow> (u64 \<Rightarrow> u8) \<Rightarrow> u64 \<Rightarrow> u8" where
  "store_bytes addr bs mem = (\<lambda>a. if unat (a - addr) < length bs then bs ! unat (a - addr) else mem a)"

definition sext :: "nat \<Rightarrow> u64 \<Rightarrow> u64" where
  "sext n v = signed_take_bit (n - 1) v"

lemma le_bytes_length [simp]: "length (le_bytes n v) = n"
  by (induction n arbitrary: v) simp_all

lemma le_load_bytes: "n \<le> 8 \<Longrightarrow> le_load (le_bytes n v) = take_bit (8 * n) v"
proof (induction n arbitrary: v)
  case (Suc n)
  then have "le_load (le_bytes n (drop_bit 8 v)) = take_bit (8 * n) (drop_bit 8 v)" by simp
  then show ?case
    using Suc.prems by (intro bit_word_eqI) (auto simp: bit_simps)
qed simp

lemma nth_le_bytes: "i < n \<Longrightarrow> le_bytes n v ! i = ucast (drop_bit (8 * i) v)"
  by (induction n arbitrary: i v) (auto simp: nth_Cons' drop_bit_drop_bit less_Suc_eq_0_disj ac_simps)

lemma store_bytes_same:
  "length bs \<le> 8 \<Longrightarrow> map (\<lambda>i. store_bytes addr bs mem (addr + of_nat i)) [0..<length bs] = bs"
  by (rule nth_equalityI) (simp_all add: store_bytes_def unat_of_nat)

lemma store_bytes_other:
  "length bs \<le> unat (a - addr) \<Longrightarrow> store_bytes addr bs mem a = mem a"
  by (simp add: store_bytes_def)

end
