(* ===== verification/LA_RAM.thy ===== *)
theory LA_RAM
  imports LA_State Bytes
begin

text \<open>
  Guest RAM: the address map of \<open>main.c\<close> (\<open>addr_in_ram\<close>, \<open>addr_range_in_ram\<close>), the test \<open>is_io\<close> of
  \<open>interpreter.c\<close>, and the accessors \<open>ram_ldb\<close> ... \<open>ram_st256\<close> of \<open>cpu.h\<close>, byte by byte in little-endian
  order as on the hosts the emulator runs on. An access any byte of which is not backed by
  \<open>alloc_ram\<close> is \<open>Crash\<close>.

  The lemmas show that RAM and I/O addresses partition the address space below the end of RAM,
  that a load returns what was last stored at its address, and that a store changes no
  byte outside its range.
\<close>

definition SZ_256M :: u64 where "SZ_256M = 0x10000000"
definition SZ_2G :: u64 where "SZ_2G = 0x80000000"
definition SZ_32M :: u64 where "SZ_32M = 0x2000000"

lemmas size_defs = SZ_256M_def SZ_2G_def SZ_32M_def

definition addr_in_ram :: "'d machine \<Rightarrow> u64 \<Rightarrow> bool" where
  "addr_in_ram env pa \<longleftrightarrow> pa < SZ_256M \<or> (pa \<ge> SZ_2G + SZ_256M \<and> pa < ram_size env + SZ_2G)
    \<or> (pa \<ge> 0x1c000000 \<and> pa < 0x1c000000 + SZ_32M)"

definition addr_range_in_ram :: "'d machine \<Rightarrow> u64 \<Rightarrow> u64 \<Rightarrow> bool" where
  "addr_range_in_ram env begin_addr end_addr \<longleftrightarrow>
    end_addr \<le> SZ_256M \<or> (begin_addr \<ge> SZ_2G + SZ_256M \<and> end_addr \<le> ram_size env + SZ_2G)"

definition is_io :: "u64 \<Rightarrow> bool" where
  "is_io ha \<longleftrightarrow> (ha \<ge> 0x10000000 \<and> ha < 0x1c000000) \<or> (ha \<ge> 0x1e000000 \<and> ha < 0x90000000)"

section \<open>Reading and writing bytes\<close>

definition ram_ok :: "nat \<Rightarrow> u64 \<Rightarrow> 'd machine \<Rightarrow> bool" where
  "ram_ok n addr env = list_all (\<lambda>i. addr_in_ram env (addr + of_nat i)) [0..<n]"

definition ram_ld :: "nat \<Rightarrow> u64 \<Rightarrow> 'd machine \<Rightarrow> (u64, 'd machine) outcome" where
  "ram_ld n addr env =
    (if ram_ok n addr env then Ret (le_load (map (\<lambda>i. ram env (addr + of_nat i)) [0..<n])) env
     else Crash)"

definition ram_st :: "nat \<Rightarrow> u64 \<Rightarrow> u64 \<Rightarrow> 'd machine \<Rightarrow> (unit, 'd machine) outcome" where
  "ram_st n addr data env =
    (if ram_ok n addr env then Ret () (env\<lparr>ram := store_bytes addr (le_bytes n data) (ram env)\<rparr>)
     else Crash)"

section \<open>The accessors\<close>

definition ram_ldb :: "u64 \<Rightarrow> 'd machine \<Rightarrow> (u64, 'd machine) outcome" where
  "ram_ldb addr env = bind_out (ram_ld 1 addr env) (\<lambda>v. Ret (sext 8 v))"

definition ram_ldh :: "u64 \<Rightarrow> 'd machine \<Rightarrow> (u64, 'd machine) outcome" where
  "ram_ldh addr env = bind_out (ram_ld 2 addr env) (\<lambda>v. Ret (sext 16 v))"

definition ram_ldw :: "u64 \<Rightarrow> 'd machine \<Rightarrow> (u64, 'd machine) outcome" where
  "ram_ldw addr env = bind_out (ram_ld 4 addr env) (\<lambda>v. Ret (sext 32 v))"

definition ram_ldd :: "u64 \<Rightarrow> 'd machine \<Rightarrow> (u64, 'd machine) outcome" where
  "ram_ldd addr env = ram_ld 8 addr env"

definition ram_ldub :: "u64 \<Rightarrow> 'd machine \<Rightarrow> (u64, 'd machine) outcome" where
  "ram_ldub addr env = ram_ld 1 addr env"

definition ram_lduh :: "u64 \<Rightarrow> 'd machine \<Rightarrow> (u64, 'd machine) outcome" where
  "ram_lduh addr env = ram_ld 2 addr env"

definition ram_lduw :: "u64 \<Rightarrow> 'd machine \<Rightarrow> (u64, 'd machine) outcome" where
  "ram_lduw addr env = ram_ld 4 addr env"

definition ram_ldud :: "u64 \<Rightarrow> 'd machine \<Rightarrow> (u64, 'd machine) outcome" where
  "ram_ldud addr env = ram_ld 8 addr env"

definition ram_stb :: "u64 \<Rightarrow> u64 \<Rightarrow> 'd machine \<Rightarrow> (unit, 'd machine) outcome" where
  "ram_stb addr data env = ram_st 1 addr data env"

definition ram_sth :: "u64 \<Rightarrow> u64 \<Rightarrow> 'd machine \<Rightarrow> (unit, 'd machine) outcome" where
  "ram_sth addr data env = ram_st 2 addr data env"

definition ram_stw :: "u64 \<Rightarrow> u64 \<Rightarrow> 'd machine \<Rightarrow> (unit, 'd machine) outcome" where
  "ram_stw addr data env = ram_st 4 addr data env"

definition ram_std :: "u64 \<Rightarrow> u64 \<Rightarrow> 'd machine \<Rightarrow> (unit, 'd machine) outcome" where
  "ram_std addr data env = ram_st 8 addr data env"

text \<open>The wide accessors move an array of 64-bit words.\<close>

fun ram_ld_words :: "nat \<Rightarrow> u64 \<Rightarrow> 'd machine \<Rightarrow> (u64 list, 'd machine) outcome" where
  "ram_ld_words 0 addr env = Ret [] env"
| "ram_ld_words (Suc n) addr env = bind_out (ram_ldud addr env) (\<lambda>d env.
     bind_out (ram_ld_words n (addr + 8) env) (\<lambda>ds. Ret (d # ds)))"

definition ram_ld128 :: "u64 \<Rightarrow> 'd machine \<Rightarrow> (u64 list, 'd machine) outcome" where
  "ram_ld128 addr env = ram_ld_words 2 addr env"

definition ram_ld256 :: "u64 \<Rightarrow> 'd machine \<Rightarrow> (u64 list, 'd machine) outcome" where
  "ram_ld256 addr env = ram_ld_words 4 addr env"

fun ram_st_words :: "u64 \<Rightarrow> u64 list \<Rightarrow> 'd machine \<Rightarrow> (unit, 'd machine) outcome" where
  "ram_st_words addr [] env = Ret () env"
| "ram_st_words addr (d # ds) env = bind_out (ram_std addr d env) (\<lambda>_. ram_st_words (addr + 8) ds)"

definition ram_st128 :: "u64 \<Rightarrow> u64 list \<Rightarrow> 'd machine \<Rightarrow> (unit, 'd machine) outcome" where
  "ram_st128 addr data env = ram_st_words addr (take 2 data) env"

definition ram_st256 :: "u64 \<Rightarrow> u64 list \<Rightarrow> 'd machine \<Rightarrow> (unit, 'd machine) outcome" where
  "ram_st256 addr data env = ram_st_words addr (take 4 data) env"

definition ldq_phys :: "u64 \<Rightarrow> 'd machine \<Rightarrow> (u64, 'd machine) outcome" where
  "ldq_phys addr env = ram_ldd addr env"

lemmas ram_access_defs = ram_ldb_def ram_ldh_def ram_ldw_def ram_ldd_def ram_ldub_def ram_lduh_def
  ram_lduw_def ram_ldud_def ram_stb_def ram_sth_def ram_stw_def ram_std_def

section \<open>Load after store\<close>

lemma ram_ok_ram_update [simp]: "ram_ok n addr (env\<lparr>ram := m\<rparr>) = ram_ok n addr env"
  by (simp add: ram_ok_def addr_in_ram_def)

lemma ram_ld_after_st:
  assumes "ram_st n addr data env = Ret () env'" and "n \<le> 8"
  shows "ram_ld n addr env' = Ret (take_bit (8 * n) data) env'"
proof -
  have ok: "ram_ok n addr env" and env': "env' = env\<lparr>ram := store_bytes addr (le_bytes n data) (ram env)\<rparr>"
    using assms(1) by (auto simp: ram_st_def split: if_splits)
  then show ?thesis
    using store_bytes_same [of "le_bytes n data" addr "ram env"] assms(2)
    by (simp add: ram_ld_def le_load_bytes)
qed

lemma ram_st_other:
  assumes "ram_st n addr data env = Ret () env'" and "n \<le> unat (a - addr)"
  shows "ram env' a = ram env a"
  using assms by (auto simp: ram_st_def store_bytes_other split: if_splits)

lemma ram_ld_Ret: "ram_ld n addr env = Ret v env' \<Longrightarrow> env' = env"
  by (simp add: ram_ld_def split: if_splits)

lemma ram_ld_cases: "ram_ld n addr env = Crash \<or> (\<exists>v. ram_ld n addr env = Ret v env)"
  by (simp add: ram_ld_def)

section \<open>Properties\<close>

text \<open>Address map: for RAM of at least 256 MiB, no address is both RAM and I/O, and every address
  below the end of RAM is one or the other.\<close>

theorem ram_io_partition:
  assumes "0x10000000 \<le> ram_size env" and "ram_size env < 0x1000000000000"
  shows "(addr_in_ram env pa \<longrightarrow> \<not> is_io pa)
    \<and> (pa < ram_size env + SZ_2G \<longrightarrow> addr_in_ram env pa \<or> is_io pa)"
proof -
  have "unat (ram_size env + 0x80000000) = unat (ram_size env) + 0x80000000"
    using assms(2) by (simp add: unat_word_ariths word_less_nat_alt)
  then show ?thesis
    using assms by (auto simp: addr_in_ram_def is_io_def size_defs word_le_nat_alt word_less_nat_alt)
qed

theorem ram_io_partition_witness:
  "addr_in_ram (zeroed_machine 0x100000000 [] ()) 0x90000000
    \<and> \<not> is_io 0x90000000 \<and> is_io 0x1fe001e0"
proof -
  let ?m = "zeroed_machine 0x100000000 [] ()"
  have "addr_in_ram ?m 0x90000000" by (simp add: addr_in_ram_def zeroed_machine_def size_defs)
  moreover have "addr_in_ram ?m 0x1fe001e0 \<or> is_io 0x1fe001e0"
    using ram_io_partition [of ?m "0x1fe001e0"] by (simp add: zeroed_machine_def size_defs)
  moreover have "\<not> addr_in_ram ?m 0x1fe001e0" by (simp add: addr_in_ram_def zeroed_machine_def size_defs)
  ultimately show ?thesis
    using ram_io_partition [of ?m "0x90000000"] by (simp add: zeroed_machine_def)
qed

text \<open>A store to RAM of 1, 2, 4 or 8 bytes is read back by the load of that size at that address,
  cut to the size, and leaves every byte outside the stored range as it was.\<close>

theorem ram_load_after_store:
  assumes "ram_st n addr data env = Ret () env'" and "n \<le> 8"
  shows "ram_ld n addr env' = Ret (take_bit (8 * n) data) env'
    \<and> (\<forall>a. n \<le> unat (a - addr) \<longrightarrow> ram env' a = ram env a)"
  using assms ram_ld_after_st ram_st_other by blast

theorem ram_load_after_store_witness:
  "\<exists>env'. ram_st 4 0x2000 0x1122334455667788 (zeroed_machine 0x100000000 [] ()) = Ret () env'
    \<and> ram_ld 4 0x2000 env' = Ret 0x55667788 env'"
proof -
  let ?m = "zeroed_machine 0x100000000 [] ()"
  have "ram_ok 4 0x2000 ?m"
    by (simp add: ram_ok_def addr_in_ram_def size_defs upt_0_1)
  then obtain env' where "ram_st 4 0x2000 0x1122334455667788 ?m = Ret () env'" by (simp add: ram_st_def)
  then show ?thesis
    using ram_load_after_store [of 4 "0x2000" "0x1122334455667788" ?m env'] by (simp add: take_bit_eq_mod)
qed

end
