(* ===== verification/LA_TLB.thy ===== *)
theory LA_TLB
  imports LA_Exception LA_RAM
begin

text \<open>
  Address translation: the TLB helpers of \<open>loongarch64/tlb_helper.c\<close> and the page-table walk and
  lookup of \<open>loongarch64/cpu_helper.c\<close>.

  The TLB of 2112 entries (2048 set-associative STLB entries in 8 ways of 256, 64 fully associative
  MTLB entries) is the field \<open>tlb\<close>; an index at or past the end is an access outside the array
  (\<open>Crash\<close>). The loops over the entries are written as the update of every entry that the loop
  visits, since an iteration touches only its own entry.

  A shift by an amount that is not below the width is undefined in C; the model takes the low six
  bits of the amount, as the shifts of the hosts do (\<open>shr64\<close>, \<open>shl64\<close>).
\<close>

section \<open>Types\<close>

datatype MMUAccessType = MMU_DATA_LOAD | MMU_DATA_STORE | MMU_INST_FETCH

datatype TLBRET = TLBRET_MATCH | TLBRET_BADADDR | TLBRET_NOMATCH | TLBRET_INVALID | TLBRET_DIRTY
  | TLBRET_RI | TLBRET_XI | TLBRET_PE | TLBRET_PTW_SET_D

definition PAGE_READ :: nat where "PAGE_READ = 1"
definition PAGE_WRITE :: nat where "PAGE_WRITE = 2"
definition PAGE_EXEC :: nat where "PAGE_EXEC = 4"

definition LOONGARCH_STLB :: nat where "LOONGARCH_STLB = 2048"
definition LOONGARCH_MTLB :: nat where "LOONGARCH_MTLB = 64"
definition LOONGARCH_TLB_MAX :: nat where "LOONGARCH_TLB_MAX = LOONGARCH_STLB + LOONGARCH_MTLB"

lemmas tlb_size_defs = LOONGARCH_TLB_MAX_def LOONGARCH_STLB_def LOONGARCH_MTLB_def

definition TARGET_PAGE_BITS :: nat where "TARGET_PAGE_BITS = 12"
definition TARGET_PAGE_MASK :: u64 where "TARGET_PAGE_MASK = push_bit TARGET_PAGE_BITS (- 1)"
definition TARGET_PHYS_MASK :: u64 where "TARGET_PHYS_MASK = MAKE_64BIT_MASK 0 48"
definition TARGET_VIRT_MASK :: u64 where "TARGET_VIRT_MASK = MAKE_64BIT_MASK 0 48"

definition shr64 :: "u64 \<Rightarrow> int \<Rightarrow> u64" where
  "shr64 x n = drop_bit (nat (n mod 64)) x"

definition shl64 :: "u64 \<Rightarrow> int \<Rightarrow> u64" where
  "shl64 x n = push_bit (nat (n mod 64)) x"

text \<open>Fields as small unsigned integers.\<close>

definition exn :: "u64 \<Rightarrow> field \<Rightarrow> nat" where
  "exn w f = unat (FIELD_EX64 w f)"

definition tlb_clear_E :: "LoongArchTLB \<Rightarrow> LoongArchTLB" where
  "tlb_clear_E t = t\<lparr>tlb_misc := FIELD_DP64 (tlb_misc t) TLB_MISC_E 0\<rparr>"

section \<open>Maintenance\<close>

definition tlb_flush :: "'d machine \<Rightarrow> 'd machine" where
  "tlb_flush env = cpu_clear_tc env"

definition check_ps :: "'d machine \<Rightarrow> nat \<Rightarrow> bool" where
  "check_ps env tlb_ps \<longleftrightarrow> (if tlb_ps \<ge> 64 then False else BIT_ULL tlb_ps AND CSR_PRCFG2 env \<noteq> 0)"

definition get_dir_base_width :: "'d machine \<Rightarrow> u64 \<Rightarrow> nat \<times> nat" where
  "get_dir_base_width env level =
    (if level = 1 then (exn (CSR_PWCL env) CSR_PWCL_DIR1_BASE, exn (CSR_PWCL env) CSR_PWCL_DIR1_WIDTH)
     else if level = 2 then (exn (CSR_PWCL env) CSR_PWCL_DIR2_BASE, exn (CSR_PWCL env) CSR_PWCL_DIR2_WIDTH)
     else if level = 3 then (exn (CSR_PWCH env) CSR_PWCH_DIR3_BASE, exn (CSR_PWCH env) CSR_PWCH_DIR3_WIDTH)
     else if level = 4 then (exn (CSR_PWCH env) CSR_PWCH_DIR4_BASE, exn (CSR_PWCH env) CSR_PWCH_DIR4_WIDTH)
     else (exn (CSR_PWCL env) CSR_PWCL_PTBASE, exn (CSR_PWCL env) CSR_PWCL_PTWIDTH))"

text \<open>The page size of entry \<open>i\<close>: only the MTLB entries have one of their own.\<close>

definition entry_ps :: "'d machine \<Rightarrow> nat \<Rightarrow> nat" where
  "entry_ps env i = (if i \<ge> LOONGARCH_STLB then exn (tlb_misc (tlb env i)) TLB_MISC_PS
                     else exn (CSR_STLBPS env) CSR_STLBPS_PS)"

definition entry_g :: "'d machine \<Rightarrow> nat \<Rightarrow> bool" where
  "entry_g env i \<longleftrightarrow> FIELD_EX64 (tlb_entry0 (tlb env i)) TLBENTRY_G \<noteq> 0"

definition entry_asid :: "'d machine \<Rightarrow> nat \<Rightarrow> u64" where
  "entry_asid env i = FIELD_EX64 (tlb_misc (tlb env i)) TLB_MISC_ASID"

definition entry_e :: "'d machine \<Rightarrow> nat \<Rightarrow> bool" where
  "entry_e env i \<longleftrightarrow> FIELD_EX64 (tlb_misc (tlb env i)) TLB_MISC_E \<noteq> 0"

text \<open>\<open>vpn == (tlb_vppn >> compare_shift)\<close> for a page size \<open>ps\<close>.\<close>

definition vppn_match :: "'d machine \<Rightarrow> nat \<Rightarrow> nat \<Rightarrow> u64 \<Rightarrow> bool" where
  "vppn_match env ps i addr \<longleftrightarrow>
    shr64 (addr AND TARGET_VIRT_MASK) (int ps + 1)
      = shr64 (FIELD_EX64 (tlb_misc (tlb env i)) TLB_MISC_VPPN) (int ps + 1 - 13)"

text \<open>Invalidating every entry of the array that satisfies a condition.\<close>

definition invalidate_where :: "(nat \<Rightarrow> bool) \<Rightarrow> 'd machine \<Rightarrow> 'd machine" where
  "invalidate_where P env =
    env\<lparr>tlb := \<lambda>i. if i < LOONGARCH_TLB_MAX \<and> P i then tlb_clear_E (tlb env i) else tlb env i\<rparr>"

definition helper_tlbclr :: "'d machine \<Rightarrow> 'd machine" where
  "helper_tlbclr env =
    (let csr_asid = FIELD_EX64 (CSR_ASID env) CSR_ASID_ASID;
         index = exn (CSR_TLBIDX env) CSR_TLBIDX_INDEX;
         mine = (\<lambda>i. \<not> entry_g env i \<and> entry_asid env i = csr_asid)
     in tlb_flush
       (if index < LOONGARCH_STLB
        then invalidate_where (\<lambda>i. i < LOONGARCH_STLB \<and> i mod 256 = index mod 256 \<and> mine i) env
        else if index < LOONGARCH_TLB_MAX
        then invalidate_where (\<lambda>i. i \<ge> LOONGARCH_STLB \<and> mine i) env
        else env))"

definition helper_tlbflush :: "'d machine \<Rightarrow> 'd machine" where
  "helper_tlbflush env =
    (let index = exn (CSR_TLBIDX env) CSR_TLBIDX_INDEX
     in tlb_flush
       (if index < LOONGARCH_STLB
        then invalidate_where (\<lambda>i. i < LOONGARCH_STLB \<and> i mod 256 = index mod 256) env
        else if index < LOONGARCH_TLB_MAX
        then invalidate_where (\<lambda>i. i \<ge> LOONGARCH_STLB) env
        else env))"

definition helper_invtlb_all :: "'d machine \<Rightarrow> 'd machine" where
  "helper_invtlb_all env = tlb_flush (invalidate_where (\<lambda>i. True) env)"

definition helper_invtlb_all_g :: "bool \<Rightarrow> 'd machine \<Rightarrow> 'd machine" where
  "helper_invtlb_all_g g env = tlb_flush (invalidate_where (\<lambda>i. entry_g env i = g) env)"

definition helper_invtlb_all_asid :: "u64 \<Rightarrow> 'd machine \<Rightarrow> 'd machine" where
  "helper_invtlb_all_asid info env =
    (let asid = info AND FIELD_MASK CSR_ASID_ASID
     in tlb_flush (invalidate_where (\<lambda>i. \<not> entry_g env i \<and> entry_asid env i = asid) env))"

definition helper_invtlb_page_asid :: "u64 \<Rightarrow> u64 \<Rightarrow> 'd machine \<Rightarrow> 'd machine" where
  "helper_invtlb_page_asid info addr env =
    (let asid = info AND 0x3ff
     in tlb_flush (invalidate_where (\<lambda>i. entry_e env i \<and> \<not> entry_g env i \<and> entry_asid env i = asid
          \<and> vppn_match env (entry_ps env i) i addr) env))"

definition helper_invtlb_page_asid_or_g :: "u64 \<Rightarrow> u64 \<Rightarrow> 'd machine \<Rightarrow> 'd machine" where
  "helper_invtlb_page_asid_or_g info addr env =
    (let asid = info AND 0x3ff
     in tlb_flush (invalidate_where (\<lambda>i. entry_e env i \<and> (entry_g env i \<or> entry_asid env i = asid)
          \<and> vppn_match env (entry_ps env i) i addr) env))"

section \<open>Search\<close>

text \<open>An entry matches if it exists, belongs to the address space or is global, and its page pair
  contains the address.\<close>

definition tlb_hit :: "'d machine \<Rightarrow> u64 \<Rightarrow> nat \<Rightarrow> bool" where
  "tlb_hit env vaddr i \<longleftrightarrow> entry_e env i
    \<and> (FIELD_EX64 (tlb_misc (tlb env i)) TLB_MISC_G = 1
        \<or> entry_asid env i = FIELD_EX64 (CSR_ASID env) CSR_ASID_ASID)
    \<and> vppn_match env (entry_ps env i) i vaddr"

text \<open>The order in which the two loops visit the entries: the eight ways of the set that the
  address selects, then the MTLB.\<close>

definition stlb_set :: "'d machine \<Rightarrow> u64 \<Rightarrow> nat" where
  "stlb_set env vaddr =
    unat (shr64 (vaddr AND TARGET_VIRT_MASK) (int (exn (CSR_STLBPS env) CSR_STLBPS_PS) + 1) AND 0xff)"

definition search_order :: "'d machine \<Rightarrow> u64 \<Rightarrow> nat list" where
  "search_order env vaddr =
    map (\<lambda>i. i * 256 + stlb_set env vaddr) [0..<8] @ [LOONGARCH_STLB..<LOONGARCH_TLB_MAX]"

text \<open>Without the multi-hit check the first match is returned. With it the search goes on, and a
  second match fails an assertion (\<open>None\<close>).\<close>

fun search_loop :: "bool \<Rightarrow> (nat \<Rightarrow> bool) \<Rightarrow> nat option \<Rightarrow> nat list \<Rightarrow> nat option option" where
  "search_loop mhit m found [] = Some found"
| "search_loop mhit m found (i # is) =
    (if m i
     then if mhit then if found \<noteq> None then None else search_loop mhit m (Some i) is
          else Some (Some i)
     else search_loop mhit m found is)"

definition loongarch_tlb_search :: "'d machine \<Rightarrow> u64 \<Rightarrow> (nat option, 'd machine) outcome" where
  "loongarch_tlb_search env vaddr =
    (case search_loop (check_tlb_mhit env) (tlb_hit env vaddr) None (search_order env vaddr) of
       None \<Rightarrow> Crash | Some r \<Rightarrow> Ret r env)"

section \<open>Filling and reading entries\<close>

text \<open>The refill registers while a refill is in progress, the ordinary ones otherwise.\<close>

definition in_refill :: "'d machine \<Rightarrow> bool" where
  "in_refill env \<longleftrightarrow> FIELD_EX64 (CSR_TLBRERA env) CSR_TLBRERA_ISTLBR \<noteq> 0"

definition fill_ps :: "'d machine \<Rightarrow> nat" where
  "fill_ps env = (if in_refill env then exn (CSR_TLBREHI env) CSR_TLBREHI_PS
                  else exn (CSR_TLBIDX env) CSR_TLBIDX_PS)"

definition fill_vppn :: "'d machine \<Rightarrow> u64" where
  "fill_vppn env =
    (if in_refill env
     then if is_la64 env then FIELD_EX64 (CSR_TLBREHI env) CSR_TLBREHI_64_VPPN
          else FIELD_EX64 (CSR_TLBREHI env) CSR_TLBREHI_32_VPPN
     else if is_la64 env then FIELD_EX64 (CSR_TLBEHI env) CSR_TLBEHI_64_VPPN
          else FIELD_EX64 (CSR_TLBEHI env) CSR_TLBEHI_32_VPPN)"

definition fill_tlb_entry :: "nat \<Rightarrow> 'd machine \<Rightarrow> 'd machine" where
  "fill_tlb_entry index env =
    (let csr_ps = fill_ps env; csr_vppn = fill_vppn env;
         lo0 = (if in_refill env then CSR_TLBRELO0 env else CSR_TLBELO0 env);
         lo1 = (if in_refill env then CSR_TLBRELO1 env else CSR_TLBELO1 env)
     in if \<not> check_ps env csr_ps then env
        else let misc = tlb_misc (tlb env index);
                 misc = (if index \<ge> LOONGARCH_STLB then FIELD_DP64 misc TLB_MISC_PS (of_nat csr_ps) else misc);
                 misc = FIELD_DP64 misc TLB_MISC_VPPN csr_vppn;
                 misc = FIELD_DP64 misc TLB_MISC_E 1;
                 misc = FIELD_DP64 misc TLB_MISC_ASID (FIELD_EX64 (CSR_ASID env) CSR_ASID_ASID);
                 g = (FIELD_EX64 lo0 TLBENTRY_G AND FIELD_EX64 lo1 TLBENTRY_G);
                 misc = FIELD_DP64 misc TLB_MISC_G g
             in env\<lparr>tlb := (tlb env)(index :=
                  (tlb env index)\<lparr>tlb_misc := misc, tlb_entry0 := lo0, tlb_entry1 := lo1\<rparr>)\<rparr>)"

text \<open>\<open>get_random_tlb\<close>, with the next value of \<open>rand()\<close>.\<close>

definition get_random_tlb :: "nat \<Rightarrow> nat \<Rightarrow> 'd machine \<Rightarrow> nat \<times> 'd machine" where
  "get_random_tlb low high env =
    (unat (rand_seq env (rand_pos env)) mod (high - low + 1) + low,
     env\<lparr>rand_pos := rand_pos env + 1\<rparr>)"

definition helper_tlbsrch :: "'d machine \<Rightarrow> (unit, 'd machine) outcome" where
  "helper_tlbsrch env =
    bind_out (loongarch_tlb_search env (if in_refill env then CSR_TLBREHI env else CSR_TLBEHI env))
      (\<lambda>match env. case match of
         Some index \<Rightarrow> Ret () (env\<lparr>CSR_TLBIDX :=
           FIELD_DP64 (FIELD_DP64 (CSR_TLBIDX env) CSR_TLBIDX_INDEX (of_nat index)) CSR_TLBIDX_NE 0\<rparr>)
       | None \<Rightarrow> Ret () (env\<lparr>CSR_TLBIDX := FIELD_DP64 (CSR_TLBIDX env) CSR_TLBIDX_NE 1\<rparr>))"

definition helper_tlbrd :: "'d machine \<Rightarrow> (unit, 'd machine) outcome" where
  "helper_tlbrd env =
    (let index = exn (CSR_TLBIDX env) CSR_TLBIDX_INDEX in
     if index \<ge> LOONGARCH_TLB_MAX then Crash
     else if \<not> entry_e env index
     then Ret () (env\<lparr>CSR_TLBIDX := FIELD_DP64 (FIELD_DP64 (CSR_TLBIDX env) CSR_TLBIDX_NE 1) CSR_TLBIDX_PS 0,
            CSR_ASID := FIELD_DP64 (CSR_ASID env) CSR_ASID_ASID 0,
            CSR_TLBEHI := 0, CSR_TLBELO0 := 0, CSR_TLBELO1 := 0\<rparr>)
     else Ret () (env\<lparr>CSR_TLBIDX := FIELD_DP64 (FIELD_DP64 (CSR_TLBIDX env) CSR_TLBIDX_NE 0) CSR_TLBIDX_PS
              (of_nat (entry_ps env index) AND 0x3f),
            CSR_TLBEHI := push_bit 13 (FIELD_EX64 (tlb_misc (tlb env index)) TLB_MISC_VPPN),
            CSR_TLBELO0 := tlb_entry0 (tlb env index),
            CSR_TLBELO1 := tlb_entry1 (tlb env index)\<rparr>))"

definition helper_tlbwr :: "'d machine \<Rightarrow> (unit, 'd machine) outcome" where
  "helper_tlbwr env =
    (let index = exn (CSR_TLBIDX env) CSR_TLBIDX_INDEX in
     if FIELD_EX64 (CSR_TLBIDX env) CSR_TLBIDX_NE \<noteq> 0
     then if index \<ge> LOONGARCH_TLB_MAX then Crash
          else Ret () (env\<lparr>tlb := (tlb env)(index := tlb_clear_E (tlb env index))\<rparr>)
     else if index \<ge> LOONGARCH_TLB_MAX \<and> check_ps env (fill_ps env) then Crash
     else Ret () (fill_tlb_entry index env))"

definition helper_tlbfill :: "'d machine \<Rightarrow> 'd machine" where
  "helper_tlbfill env =
    (let entryhi = (if in_refill env then CSR_TLBREHI env else CSR_TLBEHI env);
         pagesize = fill_ps env;
         stlb_ps = exn (CSR_STLBPS env) CSR_STLBPS_PS
     in if \<not> check_ps env pagesize then env
        else if \<not> check_ps env stlb_ps then env
        else let (index, env) =
               (if pagesize = stlb_ps
                then let address = entryhi AND NOT (MAKE_64BIT_MASK 0 13);
                         (set, env) = get_random_tlb 0 7 env;
                         stlb_idx = unat (shr64 address (int stlb_ps + 1) AND 0xff)
                     in (set * 256 + stlb_idx, env)
                else get_random_tlb LOONGARCH_STLB (LOONGARCH_TLB_MAX - 1) env)
             in fill_tlb_entry index env)"

section \<open>Page-table walk\<close>

text \<open>\<open>helper_lddir\<close> returns the entry and the address it was read from; the out parameter keeps its
  old value on the paths that do not read memory.\<close>

definition helper_lddir :: "u64 \<Rightarrow> u64 \<Rightarrow> u64 \<Rightarrow> 'd machine \<Rightarrow> (u64 \<times> u64, 'd machine) outcome" where
  "helper_lddir base level dir_phys_addr env =
    (if level = 0 \<or> level > 4 then Ret (base, dir_phys_addr) env
     else if FIELD_EX64 base TLBENTRY_HUGE \<noteq> 0
     then if level = 4 then Ret (base, dir_phys_addr) env
          else if FIELD_EX64 base TLBENTRY_LEVEL \<noteq> 0 then Ret (base, dir_phys_addr) env
          else Ret (FIELD_DP64 base TLBENTRY_LEVEL level, dir_phys_addr) env
     else let badvaddr = CSR_TLBRBADV env;
              base = base AND TARGET_PHYS_MASK;
              shift = (exn (CSR_PWCL env) CSR_PWCL_PTEWIDTH + 1) * 3;
              (dir_base, dir_width) = get_dir_base_width env level;
              index = drop_bit dir_base badvaddr AND (scast (push_bit (dir_width mod 32) 1 - 1 :: u32));
              phys = base OR push_bit shift index
          in bind_out (ldq_phys (phys AND TARGET_PHYS_MASK) env) (\<lambda>ret. Ret (ret, phys)))"

definition helper_ldpte :: "u64 \<Rightarrow> bool \<Rightarrow> u64 \<Rightarrow> 'd machine \<Rightarrow> (u64, 'd machine) outcome" where
  "helper_ldpte base odd_page pte_phys_addr env =
    (let ptbase = exn (CSR_PWCL env) CSR_PWCL_PTBASE;
         ptwidth = exn (CSR_PWCL env) CSR_PWCL_PTWIDTH;
         finish = (\<lambda>(tmp0, ps, phys) env.
           let env = (if odd_page then env\<lparr>CSR_TLBRELO1 := tmp0\<rparr> else env\<lparr>CSR_TLBRELO0 := tmp0\<rparr>)
           in Ret phys (env\<lparr>CSR_TLBREHI := FIELD_DP64 (CSR_TLBREHI env) CSR_TLBREHI_PS ps\<rparr>))
     in if FIELD_EX64 base TLBENTRY_HUGE \<noteq> 0
        then let (dir_base, dir_width) = get_dir_base_width env (FIELD_EX64 base TLBENTRY_LEVEL);
                 base = FIELD_DP64 base TLBENTRY_LEVEL 0;
                 base = FIELD_DP64 base TLBENTRY_HUGE 0;
                 base = (if FIELD_EX64 base TLBENTRY_HGLOBAL \<noteq> 0
                         then FIELD_DP64 (FIELD_DP64 base TLBENTRY_HGLOBAL 0) TLBENTRY_G 1 else base);
                 ps = (of_nat dir_base + of_nat dir_width - 1 :: u64);
                 tmp0 = (if odd_page then base + shl64 1 (uint ps) else base)
             in finish (tmp0, ps, pte_phys_addr) env
        else let shift = (exn (CSR_PWCL env) CSR_PWCL_PTEWIDTH + 1) * 3;
                 badv = CSR_TLBRBADV env;
                 ptindex = drop_bit ptbase badv AND (scast (push_bit (ptwidth mod 32) 1 - 1 :: u32));
                 ptindex = ptindex AND NOT 1;
                 ptoffset0 = push_bit shift ptindex;
                 ptoffset1 = push_bit shift (ptindex + 1);
                 phys = base OR (if odd_page then ptoffset1 else ptoffset0)
             in bind_out (ldq_phys (phys AND TARGET_PHYS_MASK) env)
                  (\<lambda>tmp0. finish (tmp0, of_nat ptbase, phys)))"

definition helper_csrrd_pgd :: "'d machine \<Rightarrow> u64" where
  "helper_csrrd_pgd env =
    (let v = (if CSR_TLBRERA env AND 1 \<noteq> 0 then CSR_TLBRBADV env else CSR_BADV env)
     in if bit v 63 then CSR_PGDH env else CSR_PGDL env)"

section \<open>Translation\<close>

text \<open>\<open>loongarch_map_tlb_entry\<close>: the access checks on the half of the entry that the address selects,
  then the physical address and the page protection.\<close>

definition loongarch_map_tlb_entry ::
  "'d machine \<Rightarrow> u64 \<Rightarrow> MMUAccessType \<Rightarrow> nat \<Rightarrow> nat \<Rightarrow> TLBRET \<times> u64 \<times> nat" where
  "loongarch_map_tlb_entry env address access_type index mmu_idx =
    (let t = tlb env index;
         plv = mmu_idx;
         tlb_ps = entry_ps env index;
         n = bit address tlb_ps;
         tlb_entry = (if n then tlb_entry1 t else tlb_entry0 t);
         tlb_v = FIELD_EX64 tlb_entry TLBENTRY_V;
         tlb_d = FIELD_EX64 tlb_entry TLBENTRY_D;
         tlb_w = FIELD_EX64 tlb_entry TLBENTRY_W;
         tlb_plv = exn tlb_entry TLBENTRY_PLV;
         la64 = is_la64 env;
         tlb_ppn = (if la64 then FIELD_EX64 tlb_entry TLBENTRY_64_PPN else FIELD_EX64 tlb_entry TLBENTRY_32_PPN);
         tlb_nx = (if la64 then FIELD_EX64 tlb_entry TLBENTRY_64_NX else 0);
         tlb_nr = (if la64 then FIELD_EX64 tlb_entry TLBENTRY_64_NR else 0);
         tlb_rplv = (if la64 then FIELD_EX64 tlb_entry TLBENTRY_64_RPLV else 0);
         tlb_ppn = tlb_ppn AND NOT (shl64 1 (int tlb_ps - 12) - 1)
     in if enable_hw_ptw env \<and> ptw_hw_setVD env \<and> access_type = MMU_DATA_STORE \<and> tlb_w \<noteq> 0 \<and> tlb_d = 0
        then (TLBRET_PTW_SET_D, 0, 0)
        else if tlb_v = 0 then (TLBRET_INVALID, 0, 0)
        else if access_type = MMU_INST_FETCH \<and> tlb_nx \<noteq> 0 then (TLBRET_XI, 0, 0)
        else if access_type = MMU_DATA_LOAD \<and> tlb_nr \<noteq> 0 then (TLBRET_RI, 0, 0)
        else if (tlb_rplv = 0 \<and> plv > tlb_plv) \<or> (tlb_rplv = 1 \<and> plv \<noteq> tlb_plv) then (TLBRET_PE, 0, 0)
        else if access_type = MMU_DATA_STORE \<and> tlb_d = 0 then (TLBRET_DIRTY, 0, 0)
        else (TLBRET_MATCH, push_bit 12 tlb_ppn OR (address AND MAKE_64BIT_MASK 0 tlb_ps),
              PAGE_READ + (if tlb_d \<noteq> 0 then PAGE_WRITE else 0) + (if tlb_nx = 0 then PAGE_EXEC else 0)))"

text \<open>The hardware walker's update of the V and D bits, in the register and in the page table.\<close>

definition hw_ptw_setVD ::
  "u64 \<Rightarrow> u64 \<Rightarrow> MMUAccessType \<Rightarrow> 'd machine \<Rightarrow> (u64, 'd machine) outcome" where
  "hw_ptw_setVD csr_tlbrelo pte_addr access_type env =
    (let p = FIELD_EX64 csr_tlbrelo TLBENTRY_P \<noteq> 0;
         v = FIELD_EX64 csr_tlbrelo TLBENTRY_V \<noteq> 0;
         w = FIELD_EX64 csr_tlbrelo TLBENTRY_W \<noteq> 0;
         d = FIELD_EX64 csr_tlbrelo TLBENTRY_D \<noteq> 0;
         write_v = (p \<and> \<not> v);
         write_d = (access_type = MMU_DATA_STORE \<and> w \<and> \<not> d);
         csr_tlbrelo = FIELD_DP64 csr_tlbrelo TLBENTRY_V (of_bool p);
         csr_tlbrelo = (if write_d then FIELD_DP64 csr_tlbrelo TLBENTRY_D 1 else csr_tlbrelo)
     in bind_out (ram_ldd (pte_addr AND TARGET_PHYS_MASK) env) (\<lambda>pte env.
        let pte = (if write_v then FIELD_DP64 pte TLBENTRY_V 1 else pte);
            pte = (if write_d then FIELD_DP64 pte TLBENTRY_D 1 else pte)
        in bind_out (ram_std (pte_addr AND TARGET_PHYS_MASK) pte env) (\<lambda>_. Ret csr_tlbrelo)))"

text \<open>The loop over the directory levels: \<open>pt_base\<close>, \<open>dir_phys_addr\<close> and the huge-page address.\<close>

fun walk_dirs :: "nat list \<Rightarrow> u64 \<times> u64 \<times> u64 option \<Rightarrow> 'd machine
    \<Rightarrow> (u64 \<times> u64 \<times> u64 option, 'd machine) outcome" where
  "walk_dirs [] st env = Ret st env"
| "walk_dirs (level # levels) (pt_base, dir_phys_addr, huge) env =
    (let (dir_base, dir_width) = get_dir_base_width env (of_nat level)
     in if dir_width \<noteq> 0
        then bind_out (helper_lddir pt_base (of_nat level) dir_phys_addr env) (\<lambda>(pt_base, dir_phys_addr) env.
          let huge = (if FIELD_EX64 pt_base TLBENTRY_HUGE \<noteq> 0 \<and> huge = None then Some dir_phys_addr else huge)
          in walk_dirs levels (pt_base, dir_phys_addr, huge) env)
        else walk_dirs levels (pt_base, dir_phys_addr, huge) env)"

definition ptw_update_VD ::
  "u64 \<Rightarrow> MMUAccessType \<Rightarrow> u64 option \<Rightarrow> u64 \<Rightarrow> u64 \<Rightarrow> 'd machine \<Rightarrow> (unit, 'd machine) outcome" where
  "ptw_update_VD address access_type huge pte0_phys_addr pte1_phys_addr env =
    bind_out
      (case huge of
         Some huge_phys_addr \<Rightarrow>
           bind_out (hw_ptw_setVD (CSR_TLBRELO0 env) huge_phys_addr access_type env) (\<lambda>lo0 env.
           bind_out (hw_ptw_setVD (CSR_TLBRELO1 env) huge_phys_addr access_type (env\<lparr>CSR_TLBRELO0 := lo0\<rparr>)) (\<lambda>lo1 env.
             Ret () (env\<lparr>CSR_TLBRELO1 := lo1\<rparr>)))
       | None \<Rightarrow>
           if bit address (exn (CSR_STLBPS env) CSR_STLBPS_PS)
           then bind_out (hw_ptw_setVD (CSR_TLBRELO1 env) pte1_phys_addr access_type env) (\<lambda>lo1 env.
             Ret () (env\<lparr>CSR_TLBRELO1 := lo1\<rparr>))
           else bind_out (hw_ptw_setVD (CSR_TLBRELO0 env) pte0_phys_addr access_type env) (\<lambda>lo0 env.
             Ret () (env\<lparr>CSR_TLBRELO0 := lo0\<rparr>)))
      (\<lambda>_ env.
        let env = env\<lparr>CSR_TLBRELO0 := FIELD_DP64 (CSR_TLBRELO0 env) TLBENTRY_V (FIELD_EX64 (CSR_TLBRELO0 env) TLBENTRY_P),
                      CSR_TLBRELO1 := FIELD_DP64 (CSR_TLBRELO1 env) TLBENTRY_V (FIELD_EX64 (CSR_TLBRELO1 env) TLBENTRY_P)\<rparr>
        in Ret () (helper_invtlb_page_asid_or_g (CSR_ASID env) address env))"

definition set_tlbrehi_vppn :: "u64 \<Rightarrow> 'd machine \<Rightarrow> 'd machine" where
  "set_tlbrehi_vppn address env =
    env\<lparr>CSR_TLBREHI :=
      (if is_la64 env then FIELD_DP64 (CSR_TLBREHI env) CSR_TLBREHI_64_VPPN (extract64 address 13 35)
       else FIELD_DP64 (CSR_TLBREHI env) CSR_TLBREHI_32_VPPN (extract64 address 13 19))\<rparr>"

text \<open>The hardware page-table walk of \<open>loongarch_map_address\<close>: it uses the refill registers and
  restores them.\<close>

definition hw_page_walk :: "u64 \<Rightarrow> MMUAccessType \<Rightarrow> 'd machine \<Rightarrow> (unit, 'd machine) outcome" where
  "hw_page_walk address access_type env0 =
    (let env = env0\<lparr>CSR_TLBRERA := FIELD_DP64 (CSR_TLBRERA env0) CSR_TLBRERA_ISTLBR 1, CSR_TLBRBADV := address\<rparr>;
         env = set_tlbrehi_vppn address env;
         pt_base = (if bit address 63 then CSR_PGDH env else CSR_PGDL env)
     in bind_out (walk_dirs [4, 3, 2, 1] (pt_base, 0, None) env) (\<lambda>(pt_base, dir_phys_addr, huge) env.
        bind_out (helper_ldpte pt_base False 0 env) (\<lambda>pte0_phys_addr env.
        bind_out (helper_ldpte pt_base True 0 env) (\<lambda>pte1_phys_addr env.
        bind_out (if ptw_hw_setVD env
                  then ptw_update_VD address access_type huge pte0_phys_addr pte1_phys_addr env
                  else Ret () env) (\<lambda>_ env.
          Ret () ((helper_tlbfill env)\<lparr>CSR_TLBRERA := CSR_TLBRERA env0, CSR_TLBRBADV := CSR_TLBRBADV env0,
             CSR_TLBREHI := CSR_TLBREHI env0, CSR_TLBRELO0 := CSR_TLBRELO0 env0,
             CSR_TLBRELO1 := CSR_TLBRELO1 env0\<rparr>))))))"

text \<open>One round of \<open>loongarch_map_address\<close>: the TLB lookup; \<open>None\<close> when the walker is needed.\<close>

definition tlb_lookup :: "u64 \<Rightarrow> MMUAccessType \<Rightarrow> nat \<Rightarrow> 'd machine
    \<Rightarrow> ((TLBRET \<times> u64 \<times> nat) option, 'd machine) outcome" where
  "tlb_lookup address access_type mmu_idx env =
    bind_out (loongarch_tlb_search env address) (\<lambda>match env.
      case match of
        Some index \<Rightarrow>
          let r = loongarch_map_tlb_entry env address access_type index mmu_idx
          in if fst r \<noteq> TLBRET_PTW_SET_D then Ret (Some r) env else Ret None env
      | None \<Rightarrow> Ret None env)"

text \<open>The rounds: \<open>counter\<close> is the C variable after its decrement, 1 in the first round.\<close>

fun map_address_rounds :: "nat \<Rightarrow> u64 \<Rightarrow> MMUAccessType \<Rightarrow> nat \<Rightarrow> 'd machine
    \<Rightarrow> (TLBRET \<times> u64 \<times> nat, 'd machine) outcome" where
  "map_address_rounds counter address access_type mmu_idx env =
    bind_out (tlb_lookup address access_type mmu_idx env) (\<lambda>r env.
      case r of
        Some x \<Rightarrow> Ret x env
      | None \<Rightarrow>
         (case counter of
            0 \<Rightarrow> Ret (TLBRET_NOMATCH, 0, 0) env
          | Suc c \<Rightarrow>
              if enable_hw_ptw env
              then bind_out (hw_page_walk address access_type env)
                     (\<lambda>_. map_address_rounds c address access_type mmu_idx)
              else Ret (TLBRET_NOMATCH, 0, 0) env))"

declare map_address_rounds.simps [simp del]

definition loongarch_map_address :: "u64 \<Rightarrow> MMUAccessType \<Rightarrow> nat \<Rightarrow> 'd machine
    \<Rightarrow> (TLBRET \<times> u64 \<times> nat, 'd machine) outcome" where
  "loongarch_map_address address access_type mmu_idx env =
    map_address_rounds 1 address access_type mmu_idx env"

definition dmw_va2pa :: "'d machine \<Rightarrow> u64 \<Rightarrow> u64 \<Rightarrow> u64" where
  "dmw_va2pa env va dmw =
    (if is_la64 env then va AND TARGET_VIRT_MASK
     else let pseg = FIELD_EX32 (ucast dmw) CSR_DMW_32_PSEG
          in (va AND MAKE_64BIT_MASK 0 29) OR ucast (push_bit 29 pseg))"

text \<open>The first direct-map window, in the order of the registers, that maps the address.\<close>

definition dmw_hit :: "'d machine \<Rightarrow> u64 \<Rightarrow> nat \<Rightarrow> nat \<Rightarrow> bool" where
  "dmw_hit env address mmu_idx i =
    (let plv = (of_bool (mmu_idx = MMU_KERNEL_IDX) OR push_bit 3 (of_bool (mmu_idx = MMU_USER_IDX)) :: u64);
         base_v = (if is_la64 env then ucast (drop_bit 60 address) else ucast (drop_bit 29 address) :: u32);
         base_c = (if is_la64 env then ucast (FIELD_EX64 (CSR_DMW env i) CSR_DMW_64_VSEG)
                   else ucast (FIELD_EX64 (CSR_DMW env i) CSR_DMW_32_VSEG) :: u32)
     in plv AND CSR_DMW env i \<noteq> 0 \<and> base_c = base_v)"

definition get_physical_address :: "u64 \<Rightarrow> MMUAccessType \<Rightarrow> nat \<Rightarrow> 'd machine
    \<Rightarrow> (TLBRET \<times> u64 \<times> nat, 'd machine) outcome" where
  "get_physical_address address access_type mmu_idx env =
    (let da = FIELD_EX64 (CSR_CRMD env) CSR_CRMD_DA;
         pg = FIELD_EX64 (CSR_CRMD env) CSR_CRMD_PG
     in if da \<noteq> 0 \<and> pg = 0
        then Ret (TLBRET_MATCH, address AND TARGET_PHYS_MASK, PAGE_READ + PAGE_WRITE + PAGE_EXEC) env
        else case find (dmw_hit env address mmu_idx) [0..<4] of
          Some i \<Rightarrow> Ret (TLBRET_MATCH, dmw_va2pa env address (CSR_DMW env i), PAGE_READ + PAGE_WRITE + PAGE_EXEC) env
        | None \<Rightarrow>
            let addr_high = sextract64 address 48 16
            in if \<not> (addr_high = 0 \<or> addr_high = - 1) then Ret (TLBRET_BADADDR, 0, 0) env
               else loongarch_map_address address access_type mmu_idx env)"

section \<open>Faults\<close>

definition page_invalid_code :: "MMUAccessType \<Rightarrow> int" where
  "page_invalid_code access_type =
    (case access_type of MMU_DATA_LOAD \<Rightarrow> EXCCODE_PIL | MMU_DATA_STORE \<Rightarrow> EXCCODE_PIS
       | MMU_INST_FETCH \<Rightarrow> EXCCODE_PIF)"

definition mmu_exception_code :: "MMUAccessType \<Rightarrow> TLBRET \<Rightarrow> int" where
  "mmu_exception_code access_type tlb_error =
    (case tlb_error of
       TLBRET_NOMATCH \<Rightarrow> page_invalid_code access_type
     | TLBRET_INVALID \<Rightarrow> page_invalid_code access_type
     | TLBRET_DIRTY \<Rightarrow> EXCCODE_PME
     | TLBRET_XI \<Rightarrow> EXCCODE_PNX
     | TLBRET_RI \<Rightarrow> EXCCODE_PNR
     | TLBRET_PE \<Rightarrow> EXCCODE_PPI
     | _ \<Rightarrow> if access_type = MMU_INST_FETCH then EXCCODE_ADEF else EXCCODE_ADEM)"

definition raise_mmu_exception :: "u64 \<Rightarrow> MMUAccessType \<Rightarrow> TLBRET \<Rightarrow> 'd machine \<Rightarrow> 'd machine" where
  "raise_mmu_exception address access_type tlb_error env =
    (let env = env\<lparr>exception_index := mmu_exception_code access_type tlb_error\<rparr>;
         env = (if tlb_error = TLBRET_NOMATCH
                then set_tlbrehi_vppn address (env\<lparr>CSR_TLBRERA := FIELD_DP64 (CSR_TLBRERA env) CSR_TLBRERA_ISTLBR 1,
                       CSR_TLBRBADV := address\<rparr>)
                else env\<lparr>CSR_BADV := if FIELD_EX64 (CSR_DBG env) CSR_DBG_DST = 0 then address else CSR_BADV env,
                       CSR_TLBEHI := address AND push_bit 1 TARGET_PAGE_MASK\<rparr>)
     in if enable_hw_ptw env \<and> exception_index env \<ge> EXCCODE_PIL \<and> exception_index env \<le> EXCCODE_PPI
        then helper_invtlb_page_asid_or_g (CSR_ASID env) address env else env)"

text \<open>\<open>check_get_physical_address\<close>, with \<open>record_excp\<close> the null pointer as in every access of a
  running guest: a failed translation raises the exception and leaves through \<open>cpu_loop_exit\<close>.\<close>

definition check_get_physical_address :: "u64 \<Rightarrow> MMUAccessType \<Rightarrow> nat \<Rightarrow> 'd machine
    \<Rightarrow> (u64, 'd machine) outcome" where
  "check_get_physical_address address access_type mmu_idx env =
    bind_out (get_physical_address address access_type mmu_idx env) (\<lambda>(ret, physical, prot) env.
      if ret = TLBRET_MATCH then Ret physical env
      else Exn (raise_mmu_exception address access_type ret env))"

definition probe_get_physical_address :: "u64 \<Rightarrow> MMUAccessType \<Rightarrow> 'd machine
    \<Rightarrow> (int \<times> u64 \<times> nat, 'd machine) outcome" where
  "probe_get_physical_address address access_type env =
    (let mmu_idx = (if FIELD_EX64 (CSR_CRMD env) CSR_CRMD_PLV = 0 then MMU_KERNEL_IDX else MMU_USER_IDX)
     in bind_out (get_physical_address address access_type mmu_idx env) (\<lambda>(ret, physical, prot).
          Ret (if ret = TLBRET_MATCH then 0 else - 1, physical, prot)))"

definition loongarch_cpu_get_phys_page_debug :: "u64 \<Rightarrow> 'd machine \<Rightarrow> (u64, 'd machine) outcome" where
  "loongarch_cpu_get_phys_page_debug addr env =
    bind_out (get_physical_address addr MMU_DATA_LOAD (cpu_mmu_index env) env) (\<lambda>(ret, phys_addr, prot).
      Ret (if ret \<noteq> TLBRET_MATCH then - 1 else phys_addr))"

section \<open>Specification\<close>

text \<open>The invariant of the TLB. A valid entry that is global for the search (both halves global) is
  global for the invalidation helpers (which test the even half), and a valid MTLB entry has a
  page size that the core supports.\<close>

definition tlb_wf :: "'d machine \<Rightarrow> bool" where
  "tlb_wf env \<longleftrightarrow> (\<forall>i < LOONGARCH_TLB_MAX. entry_e env i \<longrightarrow>
     (FIELD_EX64 (tlb_misc (tlb env i)) TLB_MISC_G = 1 \<longrightarrow> entry_g env i)
     \<and> (i \<ge> LOONGARCH_STLB \<longrightarrow> check_ps env (entry_ps env i)))"

text \<open>The register that names the page of a fill, and the page pair that contains an address.\<close>

definition fill_entryhi :: "'d machine \<Rightarrow> u64" where
  "fill_entryhi env = (if in_refill env then CSR_TLBREHI env else CSR_TLBEHI env)"

definition page_pair :: "nat \<Rightarrow> u64 \<Rightarrow> u64" where
  "page_pair ps addr = drop_bit (ps + 1) (take_bit 48 addr)"

section \<open>Search\<close>

lemma search_loop_first:
  "search_loop False m None is = Some (find m is)"
  by (induction "is") auto

lemma search_loop_mhit:
  "search_loop True m None is = (if length (filter m is) \<le> 1 then Some (find m is) else None)"
proof -
  have found: "search_loop True m (Some j) is = (if filter m is = [] then Some (Some j) else None)" for j "is"
    by (induction "is") auto
  show ?thesis by (induction "is") (auto simp: found)
qed

lemma find_Some_set: "find P xs = Some x \<Longrightarrow> x \<in> set xs \<and> P x"
  by (induction xs) (auto split: if_splits)

lemma find_eq_None: "find P xs = None \<longleftrightarrow> (\<forall>x \<in> set xs. \<not> P x)"
  by (induction xs) auto

text \<open>With or without the check, a search that returns gives the first matching entry in the order of
  the loops.\<close>

lemma tlb_search_Ret:
  "loongarch_tlb_search env vaddr = Ret r env' \<Longrightarrow>
    env' = env \<and> r = find (tlb_hit env vaddr) (search_order env vaddr)"
  by (cases "check_tlb_mhit env")
    (auto simp: loongarch_tlb_search_def search_loop_first search_loop_mhit split: if_splits)

lemma tlb_search_no_check:
  "\<not> check_tlb_mhit env \<Longrightarrow>
    loongarch_tlb_search env vaddr = Ret (find (tlb_hit env vaddr) (search_order env vaddr)) env"
  by (simp add: loongarch_tlb_search_def search_loop_first)

lemma and_0xff: "(w :: u64) AND 0xff = take_bit 8 w"
  by (simp add: take_bit_eq_mask mask_eq_exp_minus_1)

lemma stlb_set_less: "stlb_set env vaddr < 256"
proof -
  have "stlb_set env vaddr = unat (take_bit 8 (shr64 (vaddr AND TARGET_VIRT_MASK)
      (int (exn (CSR_STLBPS env) CSR_STLBPS_PS) + 1)))"
    by (simp add: stlb_set_def take_bit_eq_mask mask_eq_exp_minus_1)
  then show ?thesis using unat_take_bit_less [of 8] by simp
qed

lemma search_order_bound: "i \<in> set (search_order env vaddr) \<Longrightarrow> i < LOONGARCH_TLB_MAX"
  using stlb_set_less [of env vaddr] by (auto simp: search_order_def tlb_size_defs)

lemma tlb_search_miss:
  assumes "\<And>i. i < LOONGARCH_TLB_MAX \<Longrightarrow> \<not> tlb_hit env vaddr i"
  shows "loongarch_tlb_search env vaddr = Ret None env"
proof -
  have no: "\<forall>i \<in> set (search_order env vaddr). \<not> tlb_hit env vaddr i"
    using assms search_order_bound by blast
  then have "filter (tlb_hit env vaddr) (search_order env vaddr) = []" by (simp add: filter_empty_conv)
  moreover have "find (tlb_hit env vaddr) (search_order env vaddr) = None" using no by (simp add: find_eq_None)
  ultimately show ?thesis
    by (cases "check_tlb_mhit env") (simp_all add: loongarch_tlb_search_def search_loop_first search_loop_mhit)
qed

section \<open>Invalidation\<close>

lemma tlb_flush_simps [simp]:
  "tlb (tlb_flush env) = tlb env" "CSR_ASID (tlb_flush env) = CSR_ASID env"
  "CSR_STLBPS (tlb_flush env) = CSR_STLBPS env" "check_tlb_mhit (tlb_flush env) = check_tlb_mhit env"
  by (simp_all add: tlb_flush_def cpu_clear_tc_def)

lemma invalidate_where_simps [simp]:
  "CSR_ASID (invalidate_where P env) = CSR_ASID env" "CSR_STLBPS (invalidate_where P env) = CSR_STLBPS env"
  "tlb (invalidate_where P env) i
    = (if i < LOONGARCH_TLB_MAX \<and> P i then tlb_clear_E (tlb env i) else tlb env i)"
  by (simp_all add: invalidate_where_def)

lemma tlb_clear_E_E [simp]: "FIELD_EX64 (tlb_misc (tlb_clear_E t)) TLB_MISC_E = 0"
  by (simp add: tlb_clear_E_def fld)

lemma tlb_hit_cong:
  assumes "tlb a i = tlb b i" and "CSR_ASID a = CSR_ASID b" and "CSR_STLBPS a = CSR_STLBPS b"
  shows "tlb_hit a v i = tlb_hit b v i"
  using assms by (simp add: tlb_hit_def entry_e_def entry_asid_def vppn_match_def entry_ps_def)

lemma tlb_search_cong:
  assumes "tlb a = tlb b" and "CSR_ASID a = CSR_ASID b" and "CSR_STLBPS a = CSR_STLBPS b"
    and "check_tlb_mhit a = check_tlb_mhit b" and "loongarch_tlb_search b v = Ret r b"
  shows "loongarch_tlb_search a v = Ret r a"
proof -
  have "tlb_hit a v = tlb_hit b v" using assms by (intro ext tlb_hit_cong) simp_all
  moreover have "search_order a v = search_order b v" using assms by (simp add: search_order_def stlb_set_def)
  ultimately show ?thesis using assms by (simp add: loongarch_tlb_search_def split: option.splits)
qed

lemma tlb_hit_tlb_flush [simp]: "tlb_hit (tlb_flush env) v i = tlb_hit env v i"
  by (rule tlb_hit_cong) simp_all

lemma tlb_hit_invalidate:
  assumes "i < LOONGARCH_TLB_MAX"
  shows "tlb_hit (invalidate_where P env) v i \<longleftrightarrow> \<not> P i \<and> tlb_hit env v i"
proof (cases "P i")
  case True
  then show ?thesis using assms by (simp add: tlb_hit_def entry_e_def)
next
  case False
  have "tlb_hit (invalidate_where P env) v i = tlb_hit env v i"
    by (rule tlb_hit_cong) (use False in simp_all)
  then show ?thesis using False by simp
qed

section \<open>The invariant of the TLB\<close>

lemma tlb_wf_cong:
  assumes "tlb_wf a" and "CSR_PRCFG2 b = CSR_PRCFG2 a"
    and "\<And>i. i < LOONGARCH_TLB_MAX \<Longrightarrow> tlb b i = tlb a i \<or> \<not> entry_e b i"
  shows "tlb_wf b"
  using assms by (simp add: tlb_wf_def entry_e_def entry_g_def entry_ps_def check_ps_def) metis

lemma exn_less: "field_ok 64 (s, l) \<Longrightarrow> exn w (s, l) < 2 ^ l"
  unfolding exn_def using f64.ex_less [of s l w] by simp

lemma fill_tlb_entry_entry:
  assumes "check_ps env (fill_ps env)"
  shows "let t = tlb (fill_tlb_entry index env) index in
    FIELD_EX64 (tlb_misc t) TLB_MISC_E = 1
    \<and> FIELD_EX64 (tlb_misc t) TLB_MISC_VPPN = take_bit 35 (fill_vppn env)
    \<and> FIELD_EX64 (tlb_misc t) TLB_MISC_ASID = FIELD_EX64 (CSR_ASID env) CSR_ASID_ASID
    \<and> FIELD_EX64 (tlb_misc t) TLB_MISC_G = FIELD_EX64 (tlb_entry0 t) TLBENTRY_G AND FIELD_EX64 (tlb_entry1 t) TLBENTRY_G
    \<and> (index \<ge> LOONGARCH_STLB \<longrightarrow> exn (tlb_misc t) TLB_MISC_PS = fill_ps env)
    \<and> tlb_entry0 t = (if in_refill env then CSR_TLBRELO0 env else CSR_TLBELO0 env)
    \<and> tlb_entry1 t = (if in_refill env then CSR_TLBRELO1 env else CSR_TLBELO1 env)"
proof -
  have ps: "fill_ps env < 64" by (simp add: fill_ps_def field_defs exn_less [of _ 6, simplified])
  then have "unat (take_bit 6 (of_nat (fill_ps env) :: u64)) = fill_ps env"
    by (simp add: unat_take_bit unat_of_nat take_bit_nat_eq_self_iff)
  then show ?thesis
    using assms unfolding fill_tlb_entry_def Let_def
    by (simp add: fld exn_def)
qed


lemma fill_tlb_entry_other:
  "i \<noteq> index \<Longrightarrow> tlb (fill_tlb_entry index env) i = tlb env i"
  by (simp add: fill_tlb_entry_def Let_def)

lemma fill_tlb_entry_simps [simp]:
  "CSR_ASID (fill_tlb_entry index env) = CSR_ASID env" "CSR_STLBPS (fill_tlb_entry index env) = CSR_STLBPS env"
  "CSR_PRCFG2 (fill_tlb_entry index env) = CSR_PRCFG2 env"
  "check_tlb_mhit (fill_tlb_entry index env) = check_tlb_mhit env"
  by (simp_all add: fill_tlb_entry_def Let_def)

lemma fill_tlb_entry_bad_ps: "\<not> check_ps env (fill_ps env) \<Longrightarrow> fill_tlb_entry index env = env"
  by (simp add: fill_tlb_entry_def)

lemma fill_tlb_entry_wf:
  assumes "tlb_wf env"
  shows "tlb_wf (fill_tlb_entry index env)"
proof (cases "check_ps env (fill_ps env)")
  case True
  let ?e = "fill_tlb_entry index env"
  note f = fill_tlb_entry_entry [OF True, of index, unfolded Let_def]
  have cp: "check_ps ?e n = check_ps env n" for n by (simp add: check_ps_def)
  have bit0: "(a AND b = 1) \<Longrightarrow> a \<noteq> 0" for a b :: u64 by auto
  have "FIELD_EX64 (tlb_misc (tlb ?e index)) TLB_MISC_G = 1 \<longrightarrow> entry_g ?e index"
    using f bit0 by (metis entry_g_def)
  moreover have "index \<ge> LOONGARCH_STLB \<longrightarrow> check_ps ?e (entry_ps ?e index)"
    using f True cp by (simp add: entry_ps_def)
  moreover have "entry_e ?e i = entry_e env i" "entry_g ?e i = entry_g env i" "entry_ps ?e i = entry_ps env i"
    "tlb ?e i = tlb env i" if "i \<noteq> index" for i
    using fill_tlb_entry_other [OF that, of env] by (simp_all add: entry_e_def entry_g_def entry_ps_def)
  ultimately show ?thesis
    using assms cp by (simp add: tlb_wf_def) metis
qed (use assms in \<open>simp add: fill_tlb_entry_bad_ps\<close>)

lemma invalidate_where_wf: "tlb_wf env \<Longrightarrow> tlb_wf (invalidate_where P env)"
  by (rule tlb_wf_cong [of env]) (auto simp: invalidate_where_def entry_e_def)

lemma tlb_flush_wf: "tlb_wf env \<Longrightarrow> tlb_wf (tlb_flush env)"
  by (rule tlb_wf_cong [of env]) (simp_all add: tlb_flush_def cpu_clear_tc_def)

lemma get_random_tlb_bound:
  assumes "low \<le> high"
  shows "low \<le> fst (get_random_tlb low high env)" "fst (get_random_tlb low high env) \<le> high"
proof -
  define r where "r = unat (rand_seq env (rand_pos env)) mod (high - low + 1)"
  have "r < high - low + 1" by (simp add: r_def)
  moreover have "fst (get_random_tlb low high env) = r + low" by (simp add: get_random_tlb_def r_def)
  ultimately show "low \<le> fst (get_random_tlb low high env)" "fst (get_random_tlb low high env) \<le> high"
    using assms by linarith+
qed

lemma get_random_tlb_env: "snd (get_random_tlb low high env) = env\<lparr>rand_pos := rand_pos env + 1\<rparr>"
  by (simp add: get_random_tlb_def)

lemma helper_tlbfill_cases:
  assumes "check_ps env (fill_ps env)" and "check_ps env (exn (CSR_STLBPS env) CSR_STLBPS_PS)"
  obtains index where "helper_tlbfill env = fill_tlb_entry index (env\<lparr>rand_pos := rand_pos env + 1\<rparr>)"
    and "index < LOONGARCH_TLB_MAX"
    and "if fill_ps env = exn (CSR_STLBPS env) CSR_STLBPS_PS
         then index < LOONGARCH_STLB \<and> index mod 256 =
           unat (shr64 (fill_entryhi env AND NOT (MAKE_64BIT_MASK 0 13)) (int (fill_ps env) + 1) AND 0xff)
         else LOONGARCH_STLB \<le> index"
proof (cases "fill_ps env = exn (CSR_STLBPS env) CSR_STLBPS_PS")
  case True
  define set where "set = fst (get_random_tlb 0 7 env)"
  define k where "k = unat (shr64 (fill_entryhi env AND NOT (MAKE_64BIT_MASK 0 13)) (int (fill_ps env) + 1) AND 0xff)"
  have "k = unat (take_bit 8 (shr64 (fill_entryhi env AND NOT (MAKE_64BIT_MASK 0 13)) (int (fill_ps env) + 1)))"
    by (simp add: k_def take_bit_eq_mask mask_eq_exp_minus_1)
  then have k: "k < 256" using unat_take_bit_less [of 8] by simp
  have set: "set \<le> 7" using get_random_tlb_bound [of 0 7 env] by (simp add: set_def)
  have "helper_tlbfill env = fill_tlb_entry (set * 256 + k) (env\<lparr>rand_pos := rand_pos env + 1\<rparr>)"
    using assms True
    by (simp add: helper_tlbfill_def Let_def k_def set_def fill_entryhi_def get_random_tlb_def)
  then show thesis
    using True k set by (intro that [of "set * 256 + k"]) (simp_all add: tlb_size_defs k_def)
next
  case False
  define i where "i = fst (get_random_tlb LOONGARCH_STLB (LOONGARCH_TLB_MAX - 1) env)"
  have "helper_tlbfill env = fill_tlb_entry i (env\<lparr>rand_pos := rand_pos env + 1\<rparr>)"
    using assms False by (simp add: helper_tlbfill_def Let_def i_def get_random_tlb_def)
  moreover have "LOONGARCH_STLB \<le> i" "i < LOONGARCH_TLB_MAX"
    using get_random_tlb_bound [of LOONGARCH_STLB "LOONGARCH_TLB_MAX - 1" env]
    by (simp_all add: i_def tlb_size_defs)
  ultimately show thesis using False by (intro that [of i]) simp_all
qed


section \<open>A filled entry is found\<close>

text \<open>The page sizes that the core \<open>la464\<close> supports: 4 KiB to 512 MiB.\<close>

lemma check_ps_la464:
  assumes "CSR_PRCFG2 env = 0x3ffff000" and "check_ps env ps"
  shows "12 \<le> ps \<and> ps \<le> 29"
proof -
  have ps: "ps < 64" using assms by (auto simp: check_ps_def split: if_splits)
  have "bit (CSR_PRCFG2 env) ps"
  proof (rule ccontr)
    assume "\<not> bit (CSR_PRCFG2 env) ps"
    then have "BIT_ULL ps AND CSR_PRCFG2 env = 0"
      by (intro bit_word_eqI) (auto simp: BIT_ULL_def bit_simps)
    then show False using assms by (auto simp: check_ps_def split: if_splits)
  qed
  moreover have "\<forall>n \<in> set [0..<64]. bit (0x3ffff000 :: u64) n \<longrightarrow> 12 \<le> n \<and> n \<le> 29"
    by (simp add: upt_0_1)
  ultimately show ?thesis using ps assms(1) by auto
qed

lemma virt_mask: "addr AND TARGET_VIRT_MASK = take_bit 48 addr"
  by (rule bit_word_eqI) (auto simp: TARGET_VIRT_MASK_def bit_MAKE_64BIT_MASK bit_simps)

lemma shr64_small: "0 \<le> n \<Longrightarrow> n < 64 \<Longrightarrow> shr64 x n = drop_bit (nat n) x"
  by (simp add: shr64_def)

lemma vppn_match_pair:
  assumes "12 \<le> ps" and "ps \<le> 62"
    and "FIELD_EX64 (tlb_misc (tlb env i)) TLB_MISC_VPPN = take_bit 35 (drop_bit 13 hi)"
  shows "vppn_match env ps i addr \<longleftrightarrow> page_pair ps addr = page_pair ps hi"
proof -
  have "shr64 (take_bit 35 (drop_bit 13 hi)) (int ps + 1 - 13) = page_pair ps hi"
  proof -
    have n: "nat (int ps + 1 - 13) = ps - 12" "13 + (ps - 12) = ps + 1" using assms(1) by simp_all
    have "drop_bit (ps - 12) (take_bit 35 (drop_bit 13 hi)) = drop_bit (ps + 1) (take_bit 48 hi)"
      by (rule bit_word_eqI) (use assms(1) in \<open>auto simp: bit_simps algebra_simps\<close>)
    then show ?thesis using assms(1,2) n by (simp add: shr64_small page_pair_def)
  qed
  moreover have "shr64 (addr AND TARGET_VIRT_MASK) (int ps + 1) = page_pair ps addr"
    using assms(1,2) by (simp add: shr64_small page_pair_def virt_mask nat_add_distrib)
  ultimately show ?thesis using assms(3) by (simp add: vppn_match_def)
qed

lemma stlb_set_pair:
  assumes "12 \<le> ps" "ps \<le> 38" "exn (CSR_STLBPS env) CSR_STLBPS_PS = ps" and "page_pair ps addr = page_pair ps hi"
  shows "stlb_set env addr = unat (shr64 (hi AND NOT (MAKE_64BIT_MASK 0 13)) (int ps + 1) AND 0xff)"
proof -
  have "shr64 (hi AND NOT (MAKE_64BIT_MASK 0 13)) (int ps + 1) AND 0xff = page_pair ps hi AND 0xff"
    using assms(1,2) unfolding and_0xff
    by (simp add: shr64_small nat_add_distrib)
      (rule bit_word_eqI, auto simp: page_pair_def bit_simps bit_MAKE_64BIT_MASK)
  moreover have "shr64 (addr AND TARGET_VIRT_MASK) (int ps + 1) = page_pair ps addr"
    using assms(1,2) by (simp add: shr64_small page_pair_def virt_mask nat_add_distrib)
  ultimately show ?thesis using assms(3,4) by (simp add: stlb_set_def)
qed


lemma fill_vppn_la64: "is_la64 env \<Longrightarrow> fill_vppn env = take_bit 35 (drop_bit 13 (fill_entryhi env))"
  by (simp add: fill_vppn_def fill_entryhi_def field_defs FIELD_EX64_def extract64_eq_take_bit)

lemma filled_entry_hit:
  assumes "is_la64 env" and "check_ps env (fill_ps env)" and "12 \<le> fill_ps env" "fill_ps env \<le> 38"
    and "index \<ge> LOONGARCH_STLB \<or> fill_ps env = exn (CSR_STLBPS env) CSR_STLBPS_PS"
    and "page_pair (fill_ps env) vaddr = page_pair (fill_ps env) (fill_entryhi env)"
  shows "tlb_hit (fill_tlb_entry index env) vaddr index"
proof -
  let ?e = "fill_tlb_entry index env"
  note f = fill_tlb_entry_entry [OF assms(2), of index, unfolded Let_def]
  have ps: "entry_ps ?e index = fill_ps env" using assms(5) f by (auto simp: entry_ps_def)
  have "vppn_match ?e (fill_ps env) index vaddr"
    using assms f by (subst vppn_match_pair [where hi = "fill_entryhi env"]) (simp_all add: fill_vppn_la64)
  then show ?thesis using f ps by (simp add: tlb_hit_def entry_e_def entry_asid_def)
qed

lemma filter_unique:
  assumes "distinct xs" and "x \<in> set xs" and "P x" and "\<forall>y \<in> set xs. P y \<longrightarrow> y = x"
  shows "filter P xs = [x]"
proof -
  have s: "set (filter P xs) = {x}" using assms unfolding set_filter by blast
  then have "length (filter P xs) = 1" using assms(1) distinct_card [of "filter P xs"] by simp
  then obtain y where "filter P xs = [y]" by (auto simp: length_Suc_conv)
  then show ?thesis using s by simp
qed

lemma find_filter: "find P xs = (case filter P xs of [] \<Rightarrow> None | y # ys \<Rightarrow> Some y)"
  by (induction xs) auto

lemma search_order_distinct: "distinct (search_order env vaddr)"
  using stlb_set_less [of env vaddr] by (auto simp: search_order_def distinct_map inj_on_def tlb_size_defs)

lemma tlb_search_unique:
  assumes "index \<in> set (search_order env vaddr)" and "tlb_hit env vaddr index"
    and "\<forall>i < LOONGARCH_TLB_MAX. tlb_hit env vaddr i \<longrightarrow> i = index"
  shows "loongarch_tlb_search env vaddr = Ret (Some index) env"
proof -
  have "filter (tlb_hit env vaddr) (search_order env vaddr) = [index]"
    using assms search_order_bound by (intro filter_unique search_order_distinct) blast+
  then show ?thesis
    by (cases "check_tlb_mhit env")
      (simp_all add: loongarch_tlb_search_def search_loop_first search_loop_mhit find_filter)
qed

lemma tlbfill_found:
  assumes la: "is_la64 env" and prcfg: "CSR_PRCFG2 env = 0x3ffff000"
    and ps: "check_ps env (fill_ps env)" "check_ps env (exn (CSR_STLBPS env) CSR_STLBPS_PS)"
    and miss: "\<And>i. i < LOONGARCH_TLB_MAX \<Longrightarrow> \<not> tlb_hit env vaddr i"
    and pair: "page_pair (fill_ps env) vaddr = page_pair (fill_ps env) (fill_entryhi env)"
  obtains index where "index < LOONGARCH_TLB_MAX"
    and "loongarch_tlb_search (helper_tlbfill env) vaddr = Ret (Some index) (helper_tlbfill env)"
    and "tlb_entry0 (tlb (helper_tlbfill env) index) = (if in_refill env then CSR_TLBRELO0 env else CSR_TLBELO0 env)"
    and "tlb_entry1 (tlb (helper_tlbfill env) index) = (if in_refill env then CSR_TLBRELO1 env else CSR_TLBELO1 env)"
proof -
  obtain index where fill: "helper_tlbfill env = fill_tlb_entry index (env\<lparr>rand_pos := rand_pos env + 1\<rparr>)"
    and idx: "index < LOONGARCH_TLB_MAX"
    and place: "if fill_ps env = exn (CSR_STLBPS env) CSR_STLBPS_PS
         then index < LOONGARCH_STLB \<and> index mod 256 =
           unat (shr64 (fill_entryhi env AND NOT (MAKE_64BIT_MASK 0 13)) (int (fill_ps env) + 1) AND 0xff)
         else LOONGARCH_STLB \<le> index"
    using ps by (rule helper_tlbfill_cases)
  let ?r = "env\<lparr>rand_pos := rand_pos env + 1\<rparr>"
  have r: "fill_ps ?r = fill_ps env" "fill_entryhi ?r = fill_entryhi env" "is_la64 ?r = is_la64 env"
    "check_ps ?r n = check_ps env n" "in_refill ?r = in_refill env" "tlb_hit ?r v i = tlb_hit env v i" for n v i
    by (simp_all add: fill_ps_def fill_entryhi_def is_la64_def check_ps_def in_refill_def tlb_hit_def entry_e_def
        entry_asid_def vppn_match_def entry_ps_def)
  have range: "12 \<le> fill_ps env \<and> fill_ps env \<le> 29" by (rule check_ps_la464 [OF prcfg ps(1)])
  have hit: "tlb_hit (helper_tlbfill env) vaddr index"
    unfolding fill using la ps pair range place r by (intro filled_entry_hit) (auto split: if_splits)
  have stlbps: "CSR_STLBPS (helper_tlbfill env) = CSR_STLBPS env" by (simp add: fill)
  have "index \<in> set (search_order (helper_tlbfill env) vaddr)"
  proof (cases "fill_ps env = exn (CSR_STLBPS env) CSR_STLBPS_PS")
    case True
    then have "stlb_set (helper_tlbfill env) vaddr = index mod 256"
      using place pair range stlbps by (subst stlb_set_pair [where ps = "fill_ps env" and hi = "fill_entryhi env"]) auto
    moreover have "index div 256 < 8"
      using True place by (simp add: LOONGARCH_STLB_def less_mult_imp_div_less)
    ultimately show ?thesis
      by (auto simp: search_order_def image_iff intro!: bexI [of _ "index div 256"])
  next
    case False
    then show ?thesis using place idx by (auto simp: search_order_def)
  qed
  moreover have "i = index" if "i < LOONGARCH_TLB_MAX" "tlb_hit (helper_tlbfill env) vaddr i" for i
  proof (rule ccontr)
    assume "i \<noteq> index"
    then have "tlb_hit (helper_tlbfill env) vaddr i = tlb_hit env vaddr i"
      by (intro tlb_hit_cong) (simp_all add: fill fill_tlb_entry_other)
    then show False using miss that by simp
  qed
  ultimately have "loongarch_tlb_search (helper_tlbfill env) vaddr = Ret (Some index) (helper_tlbfill env)"
    using hit by (intro tlb_search_unique) blast+
  then show thesis
    using idx fill_tlb_entry_entry [of ?r index] ps r
    by (intro that [of index]) (simp_all add: fill Let_def)
qed


section \<open>Access rights\<close>

lemma map_tlb_entry_match:
  assumes "loongarch_map_tlb_entry env address access_type index mmu_idx = (TLBRET_MATCH, pa, prot)"
    and "is_la64 env"
  defines "e \<equiv> if bit address (entry_ps env index) then tlb_entry1 (tlb env index) else tlb_entry0 (tlb env index)"
  shows "bit e 0"
    and "access_type = MMU_DATA_STORE \<Longrightarrow> bit e 1"
    and "access_type = MMU_INST_FETCH \<Longrightarrow> \<not> bit e 62"
    and "access_type = MMU_DATA_LOAD \<Longrightarrow> \<not> bit e 61"
    and "if bit e 63 then mmu_idx = exn e TLBENTRY_PLV else mmu_idx \<le> exn e TLBENTRY_PLV"
    and "pa = push_bit 12 (FIELD_EX64 e TLBENTRY_64_PPN AND NOT (shl64 1 (int (entry_ps env index) - 12) - 1))
           OR (address AND MAKE_64BIT_MASK 0 (entry_ps env index))"
proof -
  have single: "FIELD_EX64 w (s, Suc 0) = of_bool (bit w s)" if "s < 64" for w s
    using f64.ex_single_bit [of s w] that by simp
  have "bit e 0 \<and> (access_type = MMU_DATA_STORE \<longrightarrow> bit e 1) \<and> (access_type = MMU_INST_FETCH \<longrightarrow> \<not> bit e 62)
    \<and> (access_type = MMU_DATA_LOAD \<longrightarrow> \<not> bit e 61)
    \<and> (if bit e 63 then mmu_idx = exn e TLBENTRY_PLV else mmu_idx \<le> exn e TLBENTRY_PLV)
    \<and> pa = push_bit 12 (FIELD_EX64 e TLBENTRY_64_PPN AND NOT (shl64 1 (int (entry_ps env index) - 12) - 1))
           OR (address AND MAKE_64BIT_MASK 0 (entry_ps env index))"
    using assms(1,2) unfolding loongarch_map_tlb_entry_def Let_def e_def [symmetric]
    by (simp add: single field_defs not_less split: if_splits) (auto simp: not_less)
  then show "bit e 0" "access_type = MMU_DATA_STORE \<Longrightarrow> bit e 1" "access_type = MMU_INST_FETCH \<Longrightarrow> \<not> bit e 62"
    "access_type = MMU_DATA_LOAD \<Longrightarrow> \<not> bit e 61"
    "if bit e 63 then mmu_idx = exn e TLBENTRY_PLV else mmu_idx \<le> exn e TLBENTRY_PLV"
    "pa = push_bit 12 (FIELD_EX64 e TLBENTRY_64_PPN AND NOT (shl64 1 (int (entry_ps env index) - 12) - 1))
           OR (address AND MAKE_64BIT_MASK 0 (entry_ps env index))"
    by blast+
qed

lemma tlb_lookup_Ret:
  assumes "tlb_lookup address access_type mmu_idx env = Ret (Some r) env'"
  obtains index where "index < LOONGARCH_TLB_MAX" and "tlb_hit env address index" and "env' = env"
    and "r = loongarch_map_tlb_entry env address access_type index mmu_idx"
    and "loongarch_tlb_search env address = Ret (Some index) env"
proof (cases "loongarch_tlb_search env address")
  case (Ret m e)
  then obtain index where m: "m = Some index" and e: "e = env" "env' = env"
      and r: "r = loongarch_map_tlb_entry env address access_type index mmu_idx"
    using assms tlb_search_Ret [OF Ret]
    by (auto simp: tlb_lookup_def Let_def split: option.splits if_splits)
  then have "index \<in> set (search_order env address) \<and> tlb_hit env address index"
    using tlb_search_Ret [OF Ret] find_Some_set by metis
  then show thesis using that search_order_bound e r m Ret by blast
qed (use assms in \<open>simp_all add: tlb_lookup_def\<close>)

lemma map_address_no_ptw:
  assumes "\<not> enable_hw_ptw env" and "loongarch_map_address address access_type mmu_idx env = Ret (TLBRET_MATCH, pa, prot) env'"
  obtains index where "index < LOONGARCH_TLB_MAX" and "tlb_hit env address index" and "env' = env"
    and "loongarch_map_tlb_entry env address access_type index mmu_idx = (TLBRET_MATCH, pa, prot)"
    and "loongarch_tlb_search env address = Ret (Some index) env"
proof (cases "tlb_lookup address access_type mmu_idx env")
  case (Ret r e)
  have e: "e = env"
  proof (cases "loongarch_tlb_search env address")
    case (Ret m e')
    then show ?thesis
      using \<open>tlb_lookup address access_type mmu_idx env = Ret r e\<close> tlb_search_Ret [OF Ret]
      by (auto simp: tlb_lookup_def Let_def split: option.splits if_splits)
  qed (use Ret in \<open>simp_all add: tlb_lookup_def\<close>)
  then have "r = Some (TLBRET_MATCH, pa, prot) \<and> env' = env"
    using Ret assms
    by (auto simp: loongarch_map_address_def map_address_rounds.simps [of "Suc 0"] split: option.splits)
  then show thesis using Ret e that tlb_lookup_Ret by metis
qed (use assms in \<open>simp_all add: loongarch_map_address_def map_address_rounds.simps [of "Suc 0"]\<close>)

section \<open>The maintenance operations\<close>

text \<open>The contract that the maintenance operations share: an operation disables the entries it selects,
  forgets the cached translations and does nothing else.\<close>

locale tlb_maintenance =
  fixes op :: "'d machine \<Rightarrow> 'd machine" and selects :: "'d machine \<Rightarrow> nat \<Rightarrow> bool"
  assumes op_def: "op env = tlb_flush (invalidate_where (selects env) env)"
begin

lemma hit_after:
  "i < LOONGARCH_TLB_MAX \<Longrightarrow> tlb_hit (op env) v i \<longleftrightarrow> \<not> selects env i \<and> tlb_hit env v i"
  by (simp add: op_def tlb_hit_invalidate)

lemma keeps_wf: "tlb_wf env \<Longrightarrow> tlb_wf (op env)"
  by (simp add: op_def tlb_flush_wf invalidate_where_wf)

lemma search_after:
  assumes "\<And>i. i < LOONGARCH_TLB_MAX \<Longrightarrow> tlb_hit env v i \<Longrightarrow> selects env i"
  shows "loongarch_tlb_search (op env) v = Ret None (op env)"
  by (rule tlb_search_miss) (use assms hit_after in blast)

lemma caches_empty:
  "tc_va (tc_load (op env) i) = - 1" "tc_va (tc_store (op env) i) = - 1" "tc_va (tc_fetch (op env) i) = - 1"
  by (simp_all add: op_def tlb_flush_def cpu_clear_tc_def)

lemma frame:
  "gpr (op env) = gpr env" "ram (op env) = ram env" "pc (op env) = pc env" "CSR_CRMD (op env) = CSR_CRMD env"
  "CSR_PRCFG2 (op env) = CSR_PRCFG2 env"
  by (simp_all add: op_def tlb_flush_def cpu_clear_tc_def invalidate_where_def)

end

lemma invalidate_none: "invalidate_where (\<lambda>i. False) env = env"
  by (simp add: invalidate_where_def)

interpretation tlbclr: tlb_maintenance helper_tlbclr
  "\<lambda>env i. \<not> entry_g env i \<and> entry_asid env i = FIELD_EX64 (CSR_ASID env) CSR_ASID_ASID
    \<and> (let index = exn (CSR_TLBIDX env) CSR_TLBIDX_INDEX in
        if index < LOONGARCH_STLB then i < LOONGARCH_STLB \<and> i mod 256 = index mod 256
        else index < LOONGARCH_TLB_MAX \<and> i \<ge> LOONGARCH_STLB)"
  by unfold_locales (simp add: helper_tlbclr_def Let_def invalidate_none conj_commute conj_left_commute)

interpretation tlbflush: tlb_maintenance helper_tlbflush
  "\<lambda>env i. let index = exn (CSR_TLBIDX env) CSR_TLBIDX_INDEX in
        if index < LOONGARCH_STLB then i < LOONGARCH_STLB \<and> i mod 256 = index mod 256
        else index < LOONGARCH_TLB_MAX \<and> i \<ge> LOONGARCH_STLB"
  by unfold_locales (simp add: helper_tlbflush_def Let_def invalidate_none)

interpretation invtlb_all: tlb_maintenance helper_invtlb_all "\<lambda>env i. True"
  by unfold_locales (simp add: helper_invtlb_all_def)

interpretation invtlb_all_g: tlb_maintenance "helper_invtlb_all_g g" "\<lambda>env i. entry_g env i = g" for g
  by unfold_locales (simp add: helper_invtlb_all_g_def)

interpretation invtlb_all_asid: tlb_maintenance "helper_invtlb_all_asid info"
  "\<lambda>env i. \<not> entry_g env i \<and> entry_asid env i = info AND FIELD_MASK CSR_ASID_ASID" for info
  by unfold_locales (simp add: helper_invtlb_all_asid_def Let_def)

interpretation invtlb_page_asid: tlb_maintenance "helper_invtlb_page_asid info addr"
  "\<lambda>env i. entry_e env i \<and> \<not> entry_g env i \<and> entry_asid env i = info AND 0x3ff
    \<and> vppn_match env (entry_ps env i) i addr" for info addr
  by unfold_locales (simp add: helper_invtlb_page_asid_def Let_def)

interpretation invtlb_page_asid_or_g: tlb_maintenance "helper_invtlb_page_asid_or_g info addr"
  "\<lambda>env i. entry_e env i \<and> (entry_g env i \<or> entry_asid env i = info AND 0x3ff)
    \<and> vppn_match env (entry_ps env i) i addr" for info addr
  by unfold_locales (simp add: helper_invtlb_page_asid_or_g_def Let_def)

section \<open>The invariant along a translation\<close>

lemma tlb_wf_eq: "tlb_wf a \<Longrightarrow> tlb b = tlb a \<Longrightarrow> CSR_PRCFG2 b = CSR_PRCFG2 a \<Longrightarrow> tlb_wf b"
  by (rule tlb_wf_cong [of a]) simp_all

lemma tlb_search_inv: "I env \<Longrightarrow> out_inv I (loongarch_tlb_search env v)"
  by (simp add: loongarch_tlb_search_def split: option.split)

lemma tlb_lookup_inv: "I env \<Longrightarrow> out_inv I (tlb_lookup a acc m env)"
  unfolding tlb_lookup_def
  by (auto simp: Let_def split: option.split intro!: out_inv_bind tlb_search_inv)

lemma ram_ld_inv: "I env \<Longrightarrow> out_inv I (ram_ld n addr env)"
  by (simp add: ram_ld_def)

lemma helper_lddir_inv: "I env \<Longrightarrow> out_inv I (helper_lddir base level d env)"
  unfolding helper_lddir_def ldq_phys_def ram_ldd_def
  by (auto simp: Let_def split: prod.split intro!: out_inv_bind ram_ld_inv)

text \<open>What a translation, with the walker and the faults, and the TLB instructions keep: any condition that their
  updates of the state do not touch.\<close>

locale mmu_inv =
  fixes I :: "'d machine \<Rightarrow> bool"
  assumes upd [simp]: "I (env\<lparr>CSR_TLBRERA := v\<rparr>) = I env" "I (env\<lparr>CSR_TLBRBADV := v\<rparr>) = I env"
    "I (env\<lparr>CSR_TLBREHI := v\<rparr>) = I env" "I (env\<lparr>CSR_TLBRELO0 := v\<rparr>) = I env"
    "I (env\<lparr>CSR_TLBRELO1 := v\<rparr>) = I env" "I (env\<lparr>CSR_TLBIDX := v\<rparr>) = I env"
    "I (env\<lparr>CSR_TLBEHI := v\<rparr>) = I env" "I (env\<lparr>CSR_TLBELO0 := v\<rparr>) = I env"
    "I (env\<lparr>CSR_TLBELO1 := v\<rparr>) = I env" "I (env\<lparr>CSR_ASID := v\<rparr>) = I env"
    "I (env\<lparr>CSR_BADV := v\<rparr>) = I env" "I (env\<lparr>exception_index := e\<rparr>) = I env"
    "I (env\<lparr>ram := mem\<rparr>) = I env" "I (env\<lparr>rand_pos := n\<rparr>) = I env"
    and fill: "I env \<Longrightarrow> I (fill_tlb_entry i env)"
    and clear: "I env \<Longrightarrow> I (env\<lparr>tlb := (tlb env)(i := tlb_clear_E (tlb env i))\<rparr>)"
    and invtlb: "I env \<Longrightarrow> I (helper_invtlb_page_asid_or_g asid a env)"
begin

lemma ram_st_I: "I env \<Longrightarrow> out_inv I (ram_st n addr v env)"
  by (simp add: ram_st_def)

lemma helper_tlbwr_I: "I env \<Longrightarrow> out_inv I (helper_tlbwr env)"
  by (simp add: helper_tlbwr_def Let_def fill clear)

lemma helper_tlbfill_I: "I env \<Longrightarrow> I (helper_tlbfill env)"
  by (auto simp: helper_tlbfill_def Let_def get_random_tlb_def intro!: fill)

lemma helper_tlbsrch_I: "I env \<Longrightarrow> out_inv I (helper_tlbsrch env)"
  unfolding helper_tlbsrch_def by (auto intro!: out_inv_bind tlb_search_inv split: option.split)

lemma helper_tlbrd_I: "I env \<Longrightarrow> out_inv I (helper_tlbrd env)"
  by (simp add: helper_tlbrd_def Let_def)

lemma helper_ldpte_I: "I env \<Longrightarrow> out_inv I (helper_ldpte base n d env)"
  unfolding helper_ldpte_def ldq_phys_def ram_ldd_def
  by (auto simp: Let_def split: prod.split intro!: out_inv_bind ram_ld_inv)

lemma walk_dirs_I: "I env \<Longrightarrow> out_inv I (walk_dirs levels st env)"
proof (induction levels st env rule: walk_dirs.induct)
  case (2 level levels pt_base d huge env)
  show ?case
    using "2.prems" "2.IH" by (auto simp: Let_def split: prod.split intro!: out_inv_bind helper_lddir_inv)
qed simp

lemma hw_ptw_setVD_I: "I env \<Longrightarrow> out_inv I (hw_ptw_setVD relo addr acc env)"
  unfolding hw_ptw_setVD_def ram_ldd_def ram_std_def Let_def
  by (intro out_inv_bind ram_ld_inv ram_st_I) simp_all

lemma ptw_update_VD_I: "I env \<Longrightarrow> out_inv I (ptw_update_VD a acc huge p0 p1 env)"
  unfolding ptw_update_VD_def
  by (auto simp: Let_def split: option.split intro!: out_inv_bind hw_ptw_setVD_I invtlb)

lemma hw_page_walk_I:
  assumes "I env"
  shows "out_inv I (hw_page_walk address access_type env)"
  unfolding hw_page_walk_def Let_def
proof (rule out_inv_bindI)
  fix st :: "u64 \<times> u64 \<times> u64 option" and s :: "'d machine"
  assume "I s"
  then show "out_inv I ((\<lambda>(pt_base, dir_phys_addr, huge) env'.
        bind_out (helper_ldpte pt_base False 0 env') (\<lambda>pte0_phys_addr env'.
        bind_out (helper_ldpte pt_base True 0 env') (\<lambda>pte1_phys_addr env'.
        bind_out (if ptw_hw_setVD env'
                  then ptw_update_VD address access_type huge pte0_phys_addr pte1_phys_addr env'
                  else Ret () env') (\<lambda>_ env'.
          Ret () ((helper_tlbfill env')\<lparr>CSR_TLBRERA := CSR_TLBRERA env, CSR_TLBRBADV := CSR_TLBRBADV env,
             CSR_TLBREHI := CSR_TLBREHI env, CSR_TLBRELO0 := CSR_TLBRELO0 env,
             CSR_TLBRELO1 := CSR_TLBRELO1 env\<rparr>))))) st s)"
    by (cases st) (simp add: out_inv_bindI helper_ldpte_I ptw_update_VD_I helper_tlbfill_I)
qed (rule walk_dirs_I, use assms in \<open>simp add: set_tlbrehi_vppn_def\<close>)

lemma map_address_rounds_I: "I env \<Longrightarrow> out_inv I (map_address_rounds c a acc m env)"
proof (induction c arbitrary: env)
  case 0
  then show ?case
    by (subst map_address_rounds.simps) (auto split: option.split intro!: out_inv_bind tlb_lookup_inv)
next
  case (Suc c)
  then show ?case
    by (subst map_address_rounds.simps)
      (auto split: option.split intro!: out_inv_bind tlb_lookup_inv hw_page_walk_I)
qed

lemma get_physical_address_I: "I env \<Longrightarrow> out_inv I (get_physical_address a acc m env)"
  by (simp add: get_physical_address_def Let_def loongarch_map_address_def map_address_rounds_I split: option.split)

lemma raise_mmu_exception_I: "I env \<Longrightarrow> I (raise_mmu_exception a acc r env)"
  unfolding raise_mmu_exception_def Let_def by (simp add: invtlb set_tlbrehi_vppn_def)

lemma translation_I: "I env \<Longrightarrow> out_inv I (check_get_physical_address a acc m env)"
  unfolding check_get_physical_address_def
  by (auto intro!: out_inv_bind get_physical_address_I raise_mmu_exception_I split: prod.split)

end

lemma tlb_wf_update:
  "tlb_wf (env\<lparr>CSR_TLBRERA := v\<rparr>) = tlb_wf env" "tlb_wf (env\<lparr>CSR_TLBRBADV := v\<rparr>) = tlb_wf env"
  "tlb_wf (env\<lparr>CSR_TLBREHI := v\<rparr>) = tlb_wf env" "tlb_wf (env\<lparr>CSR_TLBRELO0 := v\<rparr>) = tlb_wf env"
  "tlb_wf (env\<lparr>CSR_TLBRELO1 := v\<rparr>) = tlb_wf env" "tlb_wf (env\<lparr>CSR_TLBIDX := v\<rparr>) = tlb_wf env"
  "tlb_wf (env\<lparr>CSR_TLBEHI := v\<rparr>) = tlb_wf env" "tlb_wf (env\<lparr>CSR_TLBELO0 := v\<rparr>) = tlb_wf env"
  "tlb_wf (env\<lparr>CSR_TLBELO1 := v\<rparr>) = tlb_wf env" "tlb_wf (env\<lparr>CSR_ASID := v\<rparr>) = tlb_wf env"
  "tlb_wf (env\<lparr>CSR_BADV := v\<rparr>) = tlb_wf env" "tlb_wf (env\<lparr>exception_index := e\<rparr>) = tlb_wf env"
  "tlb_wf (env\<lparr>ram := mem\<rparr>) = tlb_wf env" "tlb_wf (env\<lparr>rand_pos := n\<rparr>) = tlb_wf env"
  by (auto elim!: tlb_wf_eq)

interpretation tlb_wf_kept: mmu_inv tlb_wf
proof unfold_locales
  fix env :: "'a machine" and i
  assume wf: "tlb_wf env"
  show "tlb_wf (env\<lparr>tlb := (tlb env)(i := tlb_clear_E (tlb env i))\<rparr>)"
    by (rule tlb_wf_cong [OF wf]) (simp_all add: entry_e_def)
qed (simp_all add: tlb_wf_update fill_tlb_entry_wf invtlb_page_asid_or_g.keeps_wf)

text \<open>The general registers, the program counter and the mode.\<close>

interpretation regs_kept: mmu_inv "\<lambda>e. gpr e = g \<and> pc e = p" for g p
  by unfold_locales
    (simp_all add: fill_tlb_entry_def helper_invtlb_page_asid_or_g_def tlb_flush_def cpu_clear_tc_def
      invalidate_where_def Let_def)

lemma asid_field: "w AND 0x3ff = FIELD_EX64 w CSR_ASID_ASID"
  by (simp add: field_defs FIELD_EX64_def extract64_eq_take_bit take_bit_eq_mask mask_eq_exp_minus_1)

lemma dmw_hit_user:
  assumes "is_la64 env" and "dmw_hit env address MMU_USER_IDX i"
  shows "bit (CSR_DMW env i) 3"
proof (rule ccontr)
  assume "\<not> bit (CSR_DMW env i) 3"
  then have "(push_bit 3 1 :: u64) AND CSR_DMW env i = 0"
    by (intro bit_word_eqI) (simp only: bit_and_iff bit_push_bit_iff bit_1_iff bit_0_eq, auto)
  then show False using assms by (simp add: dmw_hit_def Let_def MMU_USER_IDX_def MMU_KERNEL_IDX_def)
qed

lemma dmw_hit_segment:
  assumes "is_la64 env" and "dmw_hit env address m i"
  shows "FIELD_EX64 (CSR_DMW env i) CSR_DMW_64_VSEG = drop_bit 60 address"
proof -
  have n: "unat (drop_bit 60 w) < 2 ^ 4" for w :: u64
    using unsigned_less [of w, where ?'a = nat] by (simp add: unat_drop_bit_eq drop_bit_eq_div unat_div less_mult_imp_div_less)
  have v: "FIELD_EX64 (CSR_DMW env i) CSR_DMW_64_VSEG = drop_bit 60 (CSR_DMW env i)"
    by (rule bit_word_eqI) (auto simp: field_defs FIELD_EX64_def extract64_eq_take_bit bit_simps dest: bit_imp_le_length)
  have "unat (ucast (drop_bit 60 w) :: u32) = unat (drop_bit 60 w)" for w :: u64
    using n [of w] by (simp add: unsigned_ucast_eq take_bit_nat_eq_self)
  moreover have "(ucast (drop_bit 60 (CSR_DMW env i)) :: u32) = ucast (drop_bit 60 address)"
    using assms v by (simp add: dmw_hit_def Let_def)
  ultimately show ?thesis using v by (metis word_unat_eq_iff)
qed

lemma invtlb_page_misses:
  assumes "tlb_wf env"
  shows "loongarch_tlb_search (helper_invtlb_page_asid_or_g (CSR_ASID env) addr env) addr
    = Ret None (helper_invtlb_page_asid_or_g (CSR_ASID env) addr env)"
proof (rule invtlb_page_asid_or_g.search_after)
  fix i
  assume "i < LOONGARCH_TLB_MAX" "tlb_hit env addr i"
  then show "entry_e env i \<and> (entry_g env i \<or> entry_asid env i = CSR_ASID env AND 0x3ff)
    \<and> vppn_match env (entry_ps env i) i addr"
    using assms by (auto simp: tlb_wf_def tlb_hit_def asid_field)
qed

lemma fault_page_misses:
  assumes "tlb_wf env" and "enable_hw_ptw env" and "r \<in> {TLBRET_INVALID, TLBRET_DIRTY, TLBRET_RI, TLBRET_XI, TLBRET_PE}"
  shows "loongarch_tlb_search (raise_mmu_exception addr access_type r env) addr
    = Ret None (raise_mmu_exception addr access_type r env)"
proof -
  let ?e = "env\<lparr>exception_index := mmu_exception_code access_type r,
    CSR_BADV := if FIELD_EX64 (CSR_DBG env) CSR_DBG_DST = 0 then addr else CSR_BADV env,
    CSR_TLBEHI := addr AND push_bit 1 TARGET_PAGE_MASK\<rparr>"
  have "EXCCODE_PIL \<le> mmu_exception_code access_type r \<and> mmu_exception_code access_type r \<le> EXCCODE_PPI"
    using assms(3) by (cases access_type) (auto simp: mmu_exception_code_def page_invalid_code_def exc_defs)
  then have "raise_mmu_exception addr access_type r env = helper_invtlb_page_asid_or_g (CSR_ASID ?e) addr ?e"
    using assms(2,3) by (auto simp: raise_mmu_exception_def Let_def enable_hw_ptw_def)
  moreover have "tlb_wf ?e" using assms(1) by (simp add: tlb_wf_update)
  ultimately show ?thesis using invtlb_page_misses [of ?e addr] by (simp only:)
qed

section \<open>Properties\<close>

text \<open>(C8) The invariant of the TLB (global for the search implies global for the invalidations; MTLB
  page sizes are supported ones) holds of the reset machine and is kept by every operation on the
  TLB, on every path: the maintenance instructions, tlbsrch, tlbrd, tlbwr, tlbfill, and a translation
  including the hardware page-table walk and the fault it may end in.\<close>

theorem tlb_invariant:
  "tlb_wf (main_cpu_setup entry_addr m)
    \<and> (tlb_wf env \<longrightarrow> tlb_wf (helper_tlbclr env) \<and> tlb_wf (helper_tlbflush env) \<and> tlb_wf (helper_invtlb_all env)
        \<and> tlb_wf (helper_invtlb_all_g g env) \<and> tlb_wf (helper_invtlb_all_asid info env)
        \<and> tlb_wf (helper_invtlb_page_asid info addr env) \<and> tlb_wf (helper_invtlb_page_asid_or_g info addr env)
        \<and> out_inv tlb_wf (helper_tlbsrch env) \<and> out_inv tlb_wf (helper_tlbrd env)
        \<and> out_inv tlb_wf (helper_tlbwr env) \<and> tlb_wf (helper_tlbfill env)
        \<and> out_inv tlb_wf (check_get_physical_address addr access_type mmu_idx env))"
  by (simp add: tlbclr.keeps_wf tlbflush.keeps_wf invtlb_all.keeps_wf invtlb_all_g.keeps_wf
      invtlb_all_asid.keeps_wf invtlb_page_asid.keeps_wf invtlb_page_asid_or_g.keeps_wf
      tlb_wf_kept.helper_tlbsrch_I tlb_wf_kept.helper_tlbrd_I tlb_wf_kept.helper_tlbwr_I
      tlb_wf_kept.helper_tlbfill_I tlb_wf_kept.translation_I)
    (simp add: tlb_wf_def entry_e_def main_cpu_setup_fields FIELD_EX64_zero)

theorem tlb_invariant_witness:
  "tlb_wf (booted 0) \<and> tlb_wf (helper_tlbfill (booted 0))"
  using tlb_invariant by blast

text \<open>(C9) Invalidation. The invalidation of one address in the current address space (the emulator makes it when the
  hardware walker is on, before the walker fills an entry and when a page fault is raised) disables every entry that a
  lookup of the address could find, global ones included, and the entries that do not map the address are found as
  before. So after a page fault with the walker on, the faulting address misses. The invtlb instruction, in every one of
  its forms, disables all entries: no lookup finds one.\<close>

theorem invalidated_page_misses:
  assumes "tlb_wf env"
  shows "loongarch_tlb_search (helper_invtlb_page_asid_or_g (CSR_ASID env) addr env) addr
      = Ret None (helper_invtlb_page_asid_or_g (CSR_ASID env) addr env)
    \<and> (\<forall>v. \<forall>i < LOONGARCH_TLB_MAX. \<not> vppn_match env (entry_ps env i) i addr \<longrightarrow>
        tlb_hit (helper_invtlb_page_asid_or_g (CSR_ASID env) addr env) v i = tlb_hit env v i)
    \<and> (enable_hw_ptw env \<and> r \<in> {TLBRET_INVALID, TLBRET_DIRTY, TLBRET_RI, TLBRET_XI, TLBRET_PE} \<longrightarrow>
        loongarch_tlb_search (raise_mmu_exception addr access_type r env) addr
          = Ret None (raise_mmu_exception addr access_type r env))
    \<and> (\<forall>v. loongarch_tlb_search (helper_invtlb_all env) v = Ret None (helper_invtlb_all env))"
  using invtlb_page_misses [OF assms] fault_page_misses [OF assms]
    invtlb_page_asid_or_g.hit_after [of _ "CSR_ASID env" addr env] invtlb_all.search_after by blast

text \<open>(C7) In mapped mode, an access at privilege level 3 is translated only through a direct-map
  window that is open to level 3 and whose segment is that of the address, or through a matching TLB entry whose half for the address is valid, is
  accessible from level 3, is dirty for a store, readable for a load and executable for a fetch; the
  physical address is the frame of that half with the offset in the page. The lookup changes nothing.\<close>

theorem user_access_checked:
  assumes "is_la64 env" and "\<not> enable_hw_ptw env" and "FIELD_EX64 (CSR_CRMD env) CSR_CRMD_DA = 0"
    and "get_physical_address address access_type MMU_USER_IDX env = Ret (TLBRET_MATCH, pa, prot) env'"
  shows "env' = env
    \<and> ((\<exists>i < 4. bit (CSR_DMW env i) 3 \<and> FIELD_EX64 (CSR_DMW env i) CSR_DMW_64_VSEG = drop_bit 60 address
            \<and> pa = take_bit 48 address)
       \<or> (\<exists>index < LOONGARCH_TLB_MAX. tlb_hit env address index
            \<and> (let e = (if bit address (entry_ps env index) then tlb_entry1 (tlb env index) else tlb_entry0 (tlb env index))
               in bit e 0 \<and> exn e TLBENTRY_PLV = 3
                  \<and> (access_type = MMU_DATA_STORE \<longrightarrow> bit e 1)
                  \<and> (access_type = MMU_INST_FETCH \<longrightarrow> \<not> bit e 62)
                  \<and> (access_type = MMU_DATA_LOAD \<longrightarrow> \<not> bit e 61)
                  \<and> pa = push_bit 12 (FIELD_EX64 e TLBENTRY_64_PPN AND NOT (shl64 1 (int (entry_ps env index) - 12) - 1))
                       OR (address AND MAKE_64BIT_MASK 0 (entry_ps env index)))))"
proof (cases "find (dmw_hit env address MMU_USER_IDX) [0..<4]")
  case (Some i)
  then have "i < 4" "dmw_hit env address MMU_USER_IDX i" using find_Some_set by fastforce+
  moreover from Some have "env' = env" "pa = take_bit 48 address"
    using assms by (auto simp: get_physical_address_def Let_def dmw_va2pa_def virt_mask)
  ultimately show ?thesis using dmw_hit_user [OF assms(1)] dmw_hit_segment [OF assms(1)] by blast
next
  case None
  then have "loongarch_map_address address access_type MMU_USER_IDX env = Ret (TLBRET_MATCH, pa, prot) env'"
    using assms by (auto simp: get_physical_address_def Let_def split: if_splits)
  with assms(2) obtain index where i: "index < LOONGARCH_TLB_MAX" "tlb_hit env address index" "env' = env"
    and m: "loongarch_map_tlb_entry env address access_type index MMU_USER_IDX = (TLBRET_MATCH, pa, prot)"
    by (rule map_address_no_ptw)
  have "exn e TLBENTRY_PLV < 4" for e using exn_less [of 2 2 e] by (simp add: field_defs)
  then have "exn e TLBENTRY_PLV = 3"
    if "if bit e 63 then MMU_USER_IDX = exn e TLBENTRY_PLV else MMU_USER_IDX \<le> exn e TLBENTRY_PLV" for e
    using that by (auto simp: MMU_USER_IDX_def split: if_splits intro: le_antisym [OF less_Suc_eq_le [THEN iffD1]])
  then show ?thesis
    using i map_tlb_entry_match [OF m assms(1)] unfolding Let_def by blast
qed

text \<open>A machine at level 3 with a window for segment 9 and one MTLB entry, for the pair of pages at \<open>0x8000\<close>.\<close>

abbreviation user_mapped :: "unit machine" where
  "user_mapped \<equiv> (booted 0)\<lparr>CSR_CRMD := 0x13, CSR_STLBPS := 12, CSR_DMW := \<lambda>_. 0x9000000000000008,
    tlb := (tlb (booted 0))(2048 := \<lparr>tlb_misc = 0x000c000000008001, tlb_entry0 = 0x200f, tlb_entry1 = 0x300f\<rparr>)\<rparr>"

lemma user_mapped_frame:
  "is_la64 user_mapped" "\<not> enable_hw_ptw user_mapped" "\<not> check_tlb_mhit user_mapped" "tlb_wf user_mapped"
  "FIELD_EX64 (CSR_CRMD user_mapped) CSR_CRMD_DA = 0"
proof -
  show "is_la64 user_mapped"
    using main_cpu_setup_la64 [of 0 "zeroed_machine 0x100000000 (replicate 16 empty_slot) ()"] by (simp add: is_la64_def)
  show "\<not> enable_hw_ptw user_mapped"
    by (simp add: enable_hw_ptw_def main_cpu_setup_def cpu_reset_def loongarch_la464_initfn_def cpu_clear_tc_def
        zeroed_machine_def Let_def FIELD_EX64_zero)
  show "\<not> check_tlb_mhit user_mapped"
    by (simp add: main_cpu_setup_def cpu_reset_def loongarch_la464_initfn_def cpu_clear_tc_def zeroed_machine_def Let_def)
  show "FIELD_EX64 (CSR_CRMD user_mapped) CSR_CRMD_DA = 0"
    by (simp add: field_defs FIELD_EX64_def extract64_eq_take_bit)
  have p: "CSR_PRCFG2 user_mapped = 0x3ffff000"
    by (simp add: main_cpu_setup_def cpu_reset_def loongarch_la464_initfn_def cpu_clear_tc_def zeroed_machine_def Let_def)
  show "tlb_wf user_mapped"
    using p by (auto simp: tlb_wf_def entry_e_def entry_ps_def check_ps_def BIT_ULL_def main_cpu_setup_fields FIELD_EX64_zero
      exn_def field_defs FIELD_EX64_def extract64_eq_take_bit)
qed

lemma user_mapped_asid: "CSR_ASID user_mapped = 0xa0000"
  by (simp add: main_cpu_setup_def cpu_reset_def loongarch_la464_initfn_def cpu_clear_tc_def zeroed_machine_def Let_def
      field_defs FIELD_DP64_def deposit64_def mask_eq_exp_minus_1)

lemma user_mapped_search:
  assumes "v \<in> {0x8000, 0x8abc}"
  shows "loongarch_tlb_search user_mapped v = Ret (Some 2048) user_mapped"
proof -
  have e: "\<not> tlb_hit user_mapped u i" if "i \<noteq> 2048" for u i
    using that by (simp add: tlb_hit_def entry_e_def main_cpu_setup_fields FIELD_EX64_zero)
  have h: "tlb_hit user_mapped v 2048"
    using user_mapped_asid assms
    by (auto simp: tlb_hit_def entry_e_def entry_asid_def entry_ps_def LOONGARCH_STLB_def vppn_match_def virt_mask exn_def field_defs
      FIELD_EX64_def extract64_eq_take_bit shr64_def)
  have "[LOONGARCH_STLB..<LOONGARCH_TLB_MAX] = 2048 # [2049..<LOONGARCH_TLB_MAX]"
    by (simp add: LOONGARCH_STLB_def LOONGARCH_MTLB_def LOONGARCH_TLB_MAX_def upt_conv_Cons)
  moreover have "find (tlb_hit user_mapped v) (map (\<lambda>i. i * 256 + stlb_set user_mapped v) [0..<8]) = None"
    using e stlb_set_less [of user_mapped v] by (auto simp: find_None_iff)
  moreover have "find P (xs @ ys) = find P ys" if "find P xs = None" for P and xs ys :: "nat list"
    using that by (induction xs) (simp_all split: if_splits)
  ultimately have "find (tlb_hit user_mapped v) (search_order user_mapped v) = Some 2048"
    using h by (simp add: search_order_def)
  then show ?thesis using tlb_search_no_check [OF user_mapped_frame(3)] by simp
qed

theorem invalidated_page_misses_witness:
  "loongarch_tlb_search user_mapped 0x8000 = Ret (Some 2048) user_mapped
    \<and> loongarch_tlb_search (helper_invtlb_page_asid_or_g (CSR_ASID user_mapped) 0x8000 user_mapped) 0x8000
      = Ret None (helper_invtlb_page_asid_or_g (CSR_ASID user_mapped) 0x8000 user_mapped)"
  using invalidated_page_misses [OF user_mapped_frame(4)] user_mapped_search by blast

theorem user_access_checked_witness:
  "get_physical_address 0x9000000000001000 MMU_DATA_LOAD MMU_USER_IDX user_mapped
      = Ret (TLBRET_MATCH, 0x1000, 7) user_mapped
    \<and> get_physical_address 0x8abc MMU_DATA_STORE MMU_USER_IDX user_mapped = Ret (TLBRET_MATCH, 0x2abc, 7) user_mapped
    \<and> (\<exists>i < LOONGARCH_TLB_MAX. tlb_hit user_mapped 0x8abc i)
    \<and> FIELD_EX64 (CSR_DMW user_mapped 0) CSR_DMW_64_VSEG = drop_bit 60 0x9000000000001000"
proof -
  let ?w = "0x9000000000001000 :: u64" and ?m = "0x8abc :: u64"
  have hit: "dmw_hit user_mapped ?w MMU_USER_IDX 0" "\<not> dmw_hit user_mapped ?m MMU_USER_IDX i" for i
    using user_mapped_frame(1) by (simp_all add: dmw_hit_def Let_def MMU_USER_IDX_def MMU_KERNEL_IDX_def field_defs
        FIELD_EX64_def extract64_eq_take_bit)
  have w: "get_physical_address ?w MMU_DATA_LOAD MMU_USER_IDX user_mapped = Ret (TLBRET_MATCH, 0x1000, 7) user_mapped"
    using user_mapped_frame(1,5) hit(1)
    by (simp add: get_physical_address_def Let_def PAGE_READ_def PAGE_WRITE_def PAGE_EXEC_def upt_0_1 dmw_va2pa_def virt_mask)
  have "loongarch_map_tlb_entry user_mapped ?m MMU_DATA_STORE 2048 MMU_USER_IDX = (TLBRET_MATCH, 0x2abc, 7)"
    using user_mapped_frame(1,2)
    by (simp add: loongarch_map_tlb_entry_def Let_def entry_ps_def LOONGARCH_STLB_def exn_def field_defs FIELD_EX64_def
      extract64_eq_take_bit shl64_def MAKE_64BIT_MASK_def mask_eq_exp_minus_1 MMU_USER_IDX_def PAGE_READ_def PAGE_WRITE_def PAGE_EXEC_def)
  then have "loongarch_map_address ?m MMU_DATA_STORE MMU_USER_IDX user_mapped = Ret (TLBRET_MATCH, 0x2abc, 7) user_mapped"
    using user_mapped_search [of ?m]
    by (simp add: loongarch_map_address_def map_address_rounds.simps [of "Suc 0"] tlb_lookup_def Let_def)
  then have m: "get_physical_address ?m MMU_DATA_STORE MMU_USER_IDX user_mapped = Ret (TLBRET_MATCH, 0x2abc, 7) user_mapped"
    using user_mapped_frame(5) hit(2) by (simp add: get_physical_address_def Let_def find_None_iff [THEN iffD2] sextract64_def)
  have "FIELD_EX64 (CSR_DMW user_mapped 0) CSR_DMW_64_VSEG = drop_bit 60 ?w"
    by (simp add: field_defs FIELD_EX64_def extract64_eq_take_bit)
  then show ?thesis
    using w m user_access_checked [OF user_mapped_frame(1,2,5) w] user_access_checked [OF user_mapped_frame(1,2,5) m] by auto
qed

end
