(* ===== verification/LA_Refill.thy ===== *)
theory LA_Refill
  imports LA_TLB
begin

text \<open>
  The TLB refill cycle, across the translation (\<open>cpu_helper.c\<close>), the exception entry and return
  (\<open>cpu.c\<close>, \<open>helper_ertn\<close>) and tlbfill (\<open>tlb_helper.c\<close>): a miss enters the refill handler with the
  address in the refill registers, and after tlbfill and ertn the access finds the entry that the
  handler has loaded.
\<close>

text \<open>What the refill handler does once it has loaded the two entries and the page size: tlbfill and
  the return.\<close>

definition refill_handler :: "u64 \<Rightarrow> u64 \<Rightarrow> nat \<Rightarrow> 'd machine \<Rightarrow> 'd machine" where
  "refill_handler lo0 lo1 ps env = helper_ertn (helper_tlbfill (env\<lparr>CSR_TLBRELO0 := lo0, CSR_TLBRELO1 := lo1,
     CSR_TLBREHI := FIELD_DP64 (CSR_TLBREHI env) CSR_TLBREHI_PS (of_nat ps)\<rparr>))"

lemma entry_refill_eq:
  assumes "exception_index env \<in> {EXCCODE_PIF, EXCCODE_PIL, EXCCODE_PIS}" and "is_la64 env"
    and "FIELD_EX64 (CSR_TLBRERA env) CSR_TLBRERA_ISTLBR \<noteq> 0"
  obtains badi where "loongarch_cpu_do_interrupt env = Ret () (env\<lparr>CSR_BADI := badi,
    CSR_TLBRPRMD := FIELD_DP64 (FIELD_DP64 (CSR_TLBRPRMD env) CSR_TLBRPRMD_PPLV (FIELD_EX64 (CSR_CRMD env) CSR_CRMD_PLV))
        CSR_TLBRPRMD_PIE (FIELD_EX64 (CSR_CRMD env) CSR_CRMD_IE),
    CSR_TLBRERA := FIELD_DP64 (CSR_TLBRERA env) CSR_TLBRERA_PC (drop_bit 2 (pc env)),
    CSR_CRMD := FIELD_DP64 (FIELD_DP64 (FIELD_DP64 (FIELD_DP64 (CSR_CRMD env) CSR_CRMD_DA 1) CSR_CRMD_PG 0)
        CSR_CRMD_PLV 0) CSR_CRMD_IE 0,
    tlbr_count := tlbr_count env + 1, pc := CSR_TLBRENTRY env, exception_index := - 1\<rparr>)"
proof -
  have "\<exists>u. exception_cause env = Some (env, exception_index env, u)"
    using assms(1) by (auto simp: exception_cause_def Let_def exc_defs)
  then obtain u where u: "exception_cause env = Some (env, exception_index env, u)" by blast
  define badi where "badi = (if u then ucast (cpu_ldl_code env (pc env)) else CSR_BADI env)"
  define s where "s = (if u then env\<lparr>CSR_BADI := ucast (cpu_ldl_code env (pc env))\<rparr> else env)"
  have s: "s = env\<lparr>CSR_BADI := badi\<rparr>" by (simp add: s_def badi_def)
  define s2 where "s2 = (save_tlbr s)\<lparr>CSR_CRMD := FIELD_DP64 (FIELD_DP64 (CSR_CRMD (save_tlbr s)) CSR_CRMD_PLV 0)
    CSR_CRMD_IE 0, tlbr_count := tlbr_count env + 1\<rparr>"
  have va: "\<not> is_va32 s2"
    using assms(2) by (intro is_va32_PLV0) (simp_all add: s2_def s save_tlbr_def is_la64_def Let_def fld)
  have x: "exception_index env \<noteq> EXCCODE_INT" using assms(1) by (auto simp: exc_defs)
  have "loongarch_cpu_do_interrupt env = Ret () ((set_pc s2 (CSR_TLBRENTRY env))\<lparr>exception_index := - 1\<rparr>)"
    using assms(3) x by (simp add: loongarch_cpu_do_interrupt_def u s_def s2_def Let_def enter_exc_def save_tlbr_def)
  then show thesis
    using va by (intro that [of badi]) (simp add: set_pc_def s2_def s save_tlbr_def Let_def)
qed

lemma map_address_miss:
  assumes "\<not> enable_hw_ptw env" and "\<forall>i < LOONGARCH_TLB_MAX. \<not> tlb_hit env address i"
  shows "loongarch_map_address address access_type mmu_idx env = Ret (TLBRET_NOMATCH, 0, 0) env"
  using assms tlb_search_miss [of env address]
  by (simp add: loongarch_map_address_def map_address_rounds.simps [of "Suc 0"] tlb_lookup_def)

lemma page_pair_rehi:
  assumes "12 \<le> ps"
  shows "page_pair ps (FIELD_DP64 (FIELD_DP64 w CSR_TLBREHI_64_VPPN (extract64 address 13 35)) CSR_TLBREHI_PS v)
    = page_pair ps address"
  using assms
  by (intro bit_word_eqI) (auto simp: page_pair_def bit_simps field_defs f64.bit_dp extract64_eq_take_bit)

lemma ertn_frame:
  "tlb (helper_ertn env) = tlb env" "CSR_ASID (helper_ertn env) = CSR_ASID env"
  "CSR_STLBPS (helper_ertn env) = CSR_STLBPS env" "check_tlb_mhit (helper_ertn env) = check_tlb_mhit env"
  "gpr (helper_ertn env) = gpr env" "ram (helper_ertn env) = ram env"
  by (simp_all add: helper_ertn_def Let_def set_pc_def)

lemma tlbfill_frame:
  "CSR_TLBRERA (helper_tlbfill env) = CSR_TLBRERA env" "CSR_TLBRPRMD (helper_tlbfill env) = CSR_TLBRPRMD env"
  "CSR_CRMD (helper_tlbfill env) = CSR_CRMD env" "cpucfg (helper_tlbfill env) = cpucfg env"
  "gpr (helper_tlbfill env) = gpr env" "ram (helper_tlbfill env) = ram env"
  by (simp_all add: helper_tlbfill_def fill_tlb_entry_def get_random_tlb_def Let_def)


text \<open>A miss raises the refill exception with the address in the refill registers.\<close>

lemma miss_raises_refill:
  assumes la: "is_la64 env" and ptw: "\<not> enable_hw_ptw env"
    and mode: "FIELD_EX64 (CSR_CRMD env) CSR_CRMD_DA = 0"
    and addr: "sextract64 address 48 16 \<in> {0, - 1}" "\<forall>i < 4. \<not> dmw_hit env address mmu_idx i"
    and miss: "\<forall>i < LOONGARCH_TLB_MAX. \<not> tlb_hit env address i"
  shows "check_get_physical_address address access_type mmu_idx env = Exn (env\<lparr>
      exception_index := page_invalid_code access_type,
      CSR_TLBRERA := FIELD_DP64 (CSR_TLBRERA env) CSR_TLBRERA_ISTLBR 1, CSR_TLBRBADV := address,
      CSR_TLBREHI := FIELD_DP64 (CSR_TLBREHI env) CSR_TLBREHI_64_VPPN (extract64 address 13 35)\<rparr>)"
proof -
  have "find (dmw_hit env address mmu_idx) [0..<4] = None"
    using addr(2) by (simp add: find_eq_None)
  then have "get_physical_address address access_type mmu_idx env = Ret (TLBRET_NOMATCH, 0, 0) env"
    using mode addr(1) map_address_miss [OF ptw miss] by (auto simp: get_physical_address_def Let_def)
  moreover have "raise_mmu_exception address access_type TLBRET_NOMATCH env = env\<lparr>
      exception_index := page_invalid_code access_type,
      CSR_TLBRERA := FIELD_DP64 (CSR_TLBRERA env) CSR_TLBRERA_ISTLBR 1, CSR_TLBRBADV := address,
      CSR_TLBREHI := FIELD_DP64 (CSR_TLBREHI env) CSR_TLBREHI_64_VPPN (extract64 address 13 35)\<rparr>"
    using la ptw by (simp add: raise_mmu_exception_def Let_def mmu_exception_code_def set_tlbrehi_vppn_def
        is_la64_def enable_hw_ptw_def) blast
  ultimately show ?thesis by (simp add: check_get_physical_address_def)
qed

lemma istlbr_keeps_bit1: "FIELD_DP64 w CSR_TLBRERA_ISTLBR 1 AND 2 = w AND 2"
proof (rule bit_word_eqI)
  fix n :: nat
  have "bit (2 :: u64) n \<longleftrightarrow> n = 1" using bit_exp_iff [of 1 n, where 'a = u64] by auto
  then show "bit (FIELD_DP64 w CSR_TLBRERA_ISTLBR 1 AND 2) n = bit (w AND 2) n"
    by (auto simp: bit_and_iff field_defs f64.bit_dp)
qed

lemma refill_handler_finds:
  assumes la: "is_la64 e" and prcfg: "CSR_PRCFG2 e = 0x3ffff000" and ist: "in_refill e"
    and ps: "check_ps e ps" "check_ps e (exn (CSR_STLBPS e) CSR_STLBPS_PS)"
    and miss: "\<forall>i < LOONGARCH_TLB_MAX. \<not> tlb_hit e address i"
    and hi: "CSR_TLBREHI e = FIELD_DP64 w CSR_TLBREHI_64_VPPN (extract64 address 13 35)"
  obtains index where "index < LOONGARCH_TLB_MAX"
    and "loongarch_tlb_search (refill_handler lo0 lo1 ps e) address = Ret (Some index) (refill_handler lo0 lo1 ps e)"
    and "tlb_entry0 (tlb (refill_handler lo0 lo1 ps e) index) = lo0"
    and "tlb_entry1 (tlb (refill_handler lo0 lo1 ps e) index) = lo1"
proof -
  define h where "h = e\<lparr>CSR_TLBRELO0 := lo0, CSR_TLBRELO1 := lo1,
     CSR_TLBREHI := FIELD_DP64 (CSR_TLBREHI e) CSR_TLBREHI_PS (of_nat ps)\<rparr>"
  have ps12: "12 \<le> ps \<and> ps \<le> 29" by (rule check_ps_la464 [OF prcfg ps(1)])
  have pssmall: "unat (take_bit 6 (of_nat ps :: u64)) = ps"
    using ps12 by (simp add: unat_take_bit unat_of_nat take_bit_nat_eq_self_iff)
  have h: "in_refill h" "fill_ps h = ps" "is_la64 h" "CSR_PRCFG2 h = 0x3ffff000"
      "fill_entryhi h = FIELD_DP64 (FIELD_DP64 w CSR_TLBREHI_64_VPPN (extract64 address 13 35)) CSR_TLBREHI_PS (of_nat ps)"
      "check_ps h n = check_ps e n" "CSR_STLBPS h = CSR_STLBPS e" "CSR_TLBRELO0 h = lo0" "CSR_TLBRELO1 h = lo1" for n
    using la prcfg pssmall ist hi
    by (simp_all add: h_def in_refill_def fill_ps_def fill_entryhi_def is_la64_def check_ps_def fld exn_def)
  have missh: "\<not> tlb_hit h address i" if "i < LOONGARCH_TLB_MAX" for i
  proof -
    have "tlb_hit h address i = tlb_hit e address i" by (rule tlb_hit_cong) (simp_all add: h_def)
    then show ?thesis using miss that by simp
  qed
  have pair: "page_pair (fill_ps h) address = page_pair (fill_ps h) (fill_entryhi h)"
    using ps12 by (simp add: h page_pair_rehi)
  obtain index where ix: "index < LOONGARCH_TLB_MAX"
    "loongarch_tlb_search (helper_tlbfill h) address = Ret (Some index) (helper_tlbfill h)"
    "tlb_entry0 (tlb (helper_tlbfill h) index) = lo0" "tlb_entry1 (tlb (helper_tlbfill h) index) = lo1"
    using tlbfill_found [OF h(3,4) _ _ missh pair] ps h by (metis (no_types, lifting))
  have "refill_handler lo0 lo1 ps e = helper_ertn (helper_tlbfill h)" by (simp add: refill_handler_def h_def)
  then show thesis
    using ix tlb_search_cong [OF ertn_frame(1-4) ix(2)] by (intro that [of index]) (simp_all add: ertn_frame)
qed

lemma booted_frame:
  "CSR_PRCFG2 (booted e) = 0x3ffff000" "CSR_TLBRERA (booted e) = 0" "\<not> hw_ptw (booted e)"
  "CSR_PWCH (booted e) = 0"
  by (simp_all add: main_cpu_setup_def cpu_reset_def loongarch_la464_initfn_def cpu_clear_tc_def zeroed_machine_def
     Let_def field_defs FIELD_DP64_def deposit64_def)

section \<open>Properties\<close>

text \<open>(C3) The TLB refill cycle. In mapped mode, an access to an address that no direct-map window and
  no TLB entry maps raises the refill exception; its handler starts at TLBRENTRY with the address
  in TLBRBADV. After the handler has loaded a pair of entries and a supported page size, executed tlbfill and
  returned, the program counter and the mode are those of the faulting access, registers and memory
  are unchanged, and the lookup of the address finds exactly the loaded pair.\<close>

theorem refill_cycle:
  assumes "is_la64 env" and "\<not> enable_hw_ptw env" and "CSR_PRCFG2 env = 0x3ffff000"
    and "FIELD_EX64 (CSR_CRMD env) CSR_CRMD_DA = 0" and "FIELD_EX64 (CSR_CRMD env) CSR_CRMD_PG = 1"
    and "pc env AND 3 = 0" and "CSR_TLBRERA env AND 2 = 0"
    and "sextract64 address 48 16 \<in> {0, - 1}" and "\<forall>i < 4. \<not> dmw_hit env address mmu_idx i"
    and "\<forall>i < LOONGARCH_TLB_MAX. \<not> tlb_hit env address i"
    and "check_ps env ps" and "check_ps env (exn (CSR_STLBPS env) CSR_STLBPS_PS)"
  shows "\<exists>env1 env2. check_get_physical_address address access_type mmu_idx env = Exn env1
    \<and> loongarch_cpu_do_interrupt env1 = Ret () env2 \<and> pc env2 = CSR_TLBRENTRY env \<and> CSR_TLBRBADV env2 = address
    \<and> (let env3 = refill_handler lo0 lo1 ps env2 in
         pc env3 = pc env \<and> CSR_CRMD env3 = CSR_CRMD env \<and> gpr env3 = gpr env \<and> ram env3 = ram env
         \<and> (\<exists>index < LOONGARCH_TLB_MAX. loongarch_tlb_search env3 address = Ret (Some index) env3
              \<and> tlb_entry0 (tlb env3 index) = lo0 \<and> tlb_entry1 (tlb env3 index) = lo1))"
proof -
  define env1 where "env1 = env\<lparr>exception_index := page_invalid_code access_type,
      CSR_TLBRERA := FIELD_DP64 (CSR_TLBRERA env) CSR_TLBRERA_ISTLBR 1, CSR_TLBRBADV := address,
      CSR_TLBREHI := FIELD_DP64 (CSR_TLBREHI env) CSR_TLBREHI_64_VPPN (extract64 address 13 35)\<rparr>"
  have c1: "check_get_physical_address address access_type mmu_idx env = Exn env1"
    unfolding env1_def using assms by (intro miss_raises_refill)
  have exc: "exception_index env1 \<in> {EXCCODE_PIF, EXCCODE_PIL, EXCCODE_PIS}"
    by (simp add: env1_def page_invalid_code_def split: MMUAccessType.split)
  have la1: "is_la64 env1" using assms(1) by (simp add: env1_def is_la64_def)
  have ist: "FIELD_EX64 (CSR_TLBRERA env1) CSR_TLBRERA_ISTLBR \<noteq> 0" by (simp add: env1_def fld)
  obtain badi where "loongarch_cpu_do_interrupt env1 = Ret () (env1\<lparr>CSR_BADI := badi,
    CSR_TLBRPRMD := FIELD_DP64 (FIELD_DP64 (CSR_TLBRPRMD env1) CSR_TLBRPRMD_PPLV (FIELD_EX64 (CSR_CRMD env1) CSR_CRMD_PLV))
        CSR_TLBRPRMD_PIE (FIELD_EX64 (CSR_CRMD env1) CSR_CRMD_IE),
    CSR_TLBRERA := FIELD_DP64 (CSR_TLBRERA env1) CSR_TLBRERA_PC (drop_bit 2 (pc env1)),
    CSR_CRMD := FIELD_DP64 (FIELD_DP64 (FIELD_DP64 (FIELD_DP64 (CSR_CRMD env1) CSR_CRMD_DA 1) CSR_CRMD_PG 0)
        CSR_CRMD_PLV 0) CSR_CRMD_IE 0,
    tlbr_count := tlbr_count env1 + 1, pc := CSR_TLBRENTRY env1, exception_index := - 1\<rparr>)"
      (is "_ = Ret () ?env2")
    using exc la1 ist by (rule entry_refill_eq)
  then have di: "loongarch_cpu_do_interrupt env1 = Ret () ?env2" .
  have e2: "is_la64 ?env2" "CSR_PRCFG2 ?env2 = 0x3ffff000" "in_refill ?env2"
      "check_ps ?env2 n = check_ps env n" "CSR_STLBPS ?env2 = CSR_STLBPS env"
      "CSR_TLBREHI ?env2 = FIELD_DP64 (CSR_TLBREHI env) CSR_TLBREHI_64_VPPN (extract64 address 13 35)" for n
    using assms(1,3) by (simp_all add: env1_def is_la64_def in_refill_def check_ps_def fld)
  have "tlb_hit ?env2 address i = tlb_hit env address i" for i
    by (rule tlb_hit_cong) (simp_all add: env1_def)
  then obtain index where "index < LOONGARCH_TLB_MAX"
    "loongarch_tlb_search (refill_handler lo0 lo1 ps ?env2) address = Ret (Some index) (refill_handler lo0 lo1 ps ?env2)"
    "tlb_entry0 (tlb (refill_handler lo0 lo1 ps ?env2) index) = lo0"
    "tlb_entry1 (tlb (refill_handler lo0 lo1 ps ?env2) index) = lo1"
    using refill_handler_finds [OF e2(1-3) _ _ _ e2(6)] assms(10-12) e2(4,5) by (metis (no_types, lifting))
  moreover have "pc (refill_handler lo0 lo1 ps ?env2) = pc env \<and> CSR_CRMD (refill_handler lo0 lo1 ps ?env2) = CSR_CRMD env"
    unfolding refill_handler_def
    by (rule return_after_refill [where tlbrera = "CSR_TLBRERA env1"])
      (use assms(4-7) la1 ist in \<open>simp_all add: tlbfill_frame is_la64_def env1_def istlbr_keeps_bit1\<close>, simp_all add: fld)
  moreover have "gpr (refill_handler lo0 lo1 ps ?env2) = gpr env \<and> ram (refill_handler lo0 lo1 ps ?env2) = ram env"
    by (simp add: refill_handler_def ertn_frame tlbfill_frame env1_def)
  moreover have "pc ?env2 = CSR_TLBRENTRY env \<and> CSR_TLBRBADV ?env2 = address" by (simp add: env1_def)
  ultimately show ?thesis using c1 di unfolding Let_def by blast
qed

theorem refill_cycle_witness:
  "\<exists>env1 env2. check_get_physical_address 0x8000 MMU_DATA_LOAD 3
      ((booted 0x4000)\<lparr>CSR_CRMD := 0x13, CSR_STLBPS := 12, CSR_DMW := \<lambda>_. 0\<rparr>) = Exn env1
    \<and> loongarch_cpu_do_interrupt env1 = Ret () env2 \<and> pc (refill_handler 0x200f 0x300f 12 env2) = 0x4000"
proof -
  let ?env = "(booted 0x4000)\<lparr>CSR_CRMD := 0x13, CSR_STLBPS := 12, CSR_DMW := \<lambda>_. 0\<rparr>"
  have "is_la64 ?env" "\<not> enable_hw_ptw ?env"
    using booted_frame [of "0x4000"] main_cpu_setup_la64 [of "0x4000" "zeroed_machine 0x100000000 (replicate 16 empty_slot) ()"]
    by (simp_all add: is_la64_def enable_hw_ptw_def FIELD_EX64_zero)
  moreover have "CSR_PRCFG2 ?env = 0x3ffff000" "pc ?env AND 3 = 0" "CSR_TLBRERA ?env AND 2 = 0"
    using booted_frame [of "0x4000"] by (simp_all add: main_cpu_setup_fields)
  moreover have "FIELD_EX64 (CSR_CRMD ?env) CSR_CRMD_DA = 0" "FIELD_EX64 (CSR_CRMD ?env) CSR_CRMD_PG = 1"
    by (simp_all add: field_defs FIELD_EX64_def extract64_eq_take_bit)
  moreover have "sextract64 0x8000 48 16 \<in> {0, - 1}"
    by (simp add: sextract64_def)
  moreover have "\<forall>i < 4. \<not> dmw_hit ?env 0x8000 3 i" by (simp add: dmw_hit_def Let_def)
  moreover have "\<forall>i < LOONGARCH_TLB_MAX. \<not> tlb_hit ?env 0x8000 i"
    by (simp add: tlb_hit_def entry_e_def main_cpu_setup_fields FIELD_EX64_zero)
  moreover have "check_ps ?env 12" "check_ps ?env (exn (CSR_STLBPS ?env) CSR_STLBPS_PS)"
    using booted_frame [of "0x4000"]
    by (simp_all add: check_ps_def BIT_ULL_def exn_def field_defs FIELD_EX64_def extract64_eq_take_bit)
  ultimately show ?thesis
    using refill_cycle [of ?env "0x8000" 3 12 MMU_DATA_LOAD "0x200f" "0x300f"]
    unfolding Let_def by (auto simp: main_cpu_setup_fields)
qed

end
