(* ===== verification/LA_Mem.thy ===== *)
theory LA_Mem
  imports LA_Refill
begin

text \<open>
  Memory accesses of the interpreter (\<open>loongarch64/interpreter.c\<close>): the three translation caches
  (\<open>fetch_pa\<close>, \<open>load_pa\<close>, \<open>store_pa\<close>), the loads \<open>ld_b\<close> ... \<open>ld_256\<close> and stores \<open>st_b\<close> ... \<open>st_256\<close>
  with their I/O, aligned and cross-page paths, and \<open>do_io_ld\<close>, \<open>do_io_st\<close> of \<open>main.c\<close>, which pass
  an access to the device table.

  A load returns its value sign-extended to 64 bits, as the signed C type converts. The pointer
  \<open>record_excp\<close> is null in every access of a running guest, so a failed translation leaves through
  \<open>Exn\<close>; the out parameter \<open>ha_is_io\<close> is the second component of the result.

  The lemmas show that the caches are transparent (an access through a cache gives what the MMU
  gives, for as long as translations do not change), that a store that faults has changed no byte
  of memory although a cross-page store is made byte by byte, and that a load reads back what a store
  of its size wrote at the same virtual address, across a page boundary too.
\<close>

definition TC_INDEX :: "u64 \<Rightarrow> nat" where
  "TC_INDEX va = unat (drop_bit TARGET_PAGE_BITS va AND 0xff)"

definition page_offset :: "u64 \<Rightarrow> u64" where
  "page_offset addr = addr AND 0xfff"

section \<open>Alignment\<close>

definition is_one_page :: "u64 \<Rightarrow> u64 \<Rightarrow> bool" where
  "is_one_page addr bytes \<longleftrightarrow> addr AND TARGET_PAGE_MASK = (addr + bytes - 1) AND TARGET_PAGE_MASK"

definition is_two_page :: "u64 \<Rightarrow> u64 \<Rightarrow> bool" where
  "is_two_page addr bytes \<longleftrightarrow> \<not> is_one_page addr bytes"

definition is_aligned :: "u64 \<Rightarrow> u64 \<Rightarrow> bool" where
  "is_aligned addr bytes \<longleftrightarrow> is_one_page addr bytes"

definition is_unaligned :: "u64 \<Rightarrow> u64 \<Rightarrow> bool" where
  "is_unaligned addr bytes \<longleftrightarrow> \<not> is_aligned addr bytes"

section \<open>Translation caches\<close>

definition access_mmu_idx :: "'d machine \<Rightarrow> nat" where
  "access_mmu_idx env = (if FIELD_EX64 (CSR_CRMD env) CSR_CRMD_PLV = 0 then MMU_KERNEL_IDX else MMU_USER_IDX)"

definition fetch_pa :: "u64 \<Rightarrow> 'd machine \<Rightarrow> (u64, 'd machine) outcome" where
  "fetch_pa addr env =
    (let tc_index = TC_INDEX addr;
         tc = tc_fetch env tc_index;
         page_addr = addr AND TARGET_PAGE_MASK
     in if page_addr = tc_va tc then Ret (page_offset addr OR tc_pa tc) env
        else bind_out (check_get_physical_address addr MMU_INST_FETCH (access_mmu_idx env) env) (\<lambda>ha env.
          Ret ha (env\<lparr>tc_fetch := (tc_fetch env)(tc_index := \<lparr>tc_va = page_addr, tc_pa = ha AND TARGET_PAGE_MASK\<rparr>)\<rparr>)))"

definition load_pa :: "u64 \<Rightarrow> 'd machine \<Rightarrow> (u64 \<times> bool, 'd machine) outcome" where
  "load_pa addr env =
    (let tc_index = TC_INDEX addr;
         tc = tc_load env tc_index;
         page_addr = addr AND TARGET_PAGE_MASK
     in if page_addr = tc_va tc then Ret (page_offset addr OR tc_pa tc, False) env
        else bind_out (check_get_physical_address addr MMU_DATA_LOAD (access_mmu_idx env) env) (\<lambda>ha env.
          if is_io ha then Ret (ha, True) env
          else Ret (ha, False)
            (env\<lparr>tc_load := (tc_load env)(tc_index := \<lparr>tc_va = page_addr, tc_pa = ha AND TARGET_PAGE_MASK\<rparr>)\<rparr>)))"

definition store_pa :: "u64 \<Rightarrow> 'd machine \<Rightarrow> (u64 \<times> bool, 'd machine) outcome" where
  "store_pa addr env =
    (let tc_index = TC_INDEX addr;
         tc = tc_store env tc_index;
         page_addr = addr AND TARGET_PAGE_MASK
     in if page_addr = tc_va tc then Ret (page_offset addr OR tc_pa tc, False) env
        else bind_out (check_get_physical_address addr MMU_DATA_STORE (access_mmu_idx env) env) (\<lambda>ha env.
          if is_io ha then Ret (ha, True) env
          else Ret (ha, False)
            (env\<lparr>tc_store := (tc_store env)(tc_index := \<lparr>tc_va = page_addr, tc_pa = ha AND TARGET_PAGE_MASK\<rparr>)\<rparr>)))"

section \<open>Devices\<close>

text \<open>A device access runs on the part of the machine that the devices can reach.\<close>

definition io_lift :: "('a, 'd io_world) outcome \<Rightarrow> 'd machine \<Rightarrow> ('a, 'd machine) outcome" where
  "io_lift r env =
    (let put = (\<lambda>(d, estat, mem). env\<lparr>devs := d, CSR_ESTAT := estat, ram := mem\<rparr>)
     in case r of Ret v w \<Rightarrow> Ret v (put w) | Exn w \<Rightarrow> Exn (put w) | Exit w \<Rightarrow> Exit (put w) | Crash \<Rightarrow> Crash)"

definition do_io_st :: "u64 \<Rightarrow> u64 \<Rightarrow> u32 \<Rightarrow> 'd machine \<Rightarrow> (unit, 'd machine) outcome" where
  "do_io_st ha data sz env = io_lift (io_write (io_devices env) ha data sz (devs env, CSR_ESTAT env, ram env)) env"

definition do_io_ld :: "u64 \<Rightarrow> u32 \<Rightarrow> 'd machine \<Rightarrow> (u64, 'd machine) outcome" where
  "do_io_ld ha sz env = io_lift (io_read (io_devices env) ha sz (devs env, CSR_ESTAT env, ram env)) env"

section \<open>Loads\<close>

definition add_addr :: "u64 \<Rightarrow> u64 \<Rightarrow> u64" where
  "add_addr base disp = base + disp"

definition ld_b :: "u64 \<Rightarrow> 'd machine \<Rightarrow> (u64, 'd machine) outcome" where
  "ld_b va env =
    bind_out (load_pa va env) (\<lambda>(ha, ha_is_io) env.
      bind_out (if ha_is_io then do_io_ld ha 1 env else ram_ldb ha env) (\<lambda>data. Ret (sext 8 data)))"

text \<open>The loop of a load that crosses a page: bytes \<open>n - 1\<close> down to 0.\<close>

fun ld_bytes :: "nat \<Rightarrow> u64 \<Rightarrow> u64 \<Rightarrow> 'd machine \<Rightarrow> (u64, 'd machine) outcome" where
  "ld_bytes 0 va data env = Ret data env"
| "ld_bytes (Suc i) va data env =
    bind_out (ld_b (va + of_nat i) env) (\<lambda>b. ld_bytes i va (data OR push_bit (8 * i) (b AND 0xff)))"

text \<open>The common body of \<open>ld_h\<close>, \<open>ld_w\<close> and \<open>ld_d\<close>, with the accessor for an access in one page.\<close>

definition ld_body :: "nat \<Rightarrow> (u64 \<Rightarrow> 'd machine \<Rightarrow> (u64, 'd machine) outcome) \<Rightarrow> u64 \<Rightarrow> 'd machine
    \<Rightarrow> (u64, 'd machine) outcome" where
  "ld_body data_size ram_access va env =
    bind_out (load_pa va env) (\<lambda>(ha, ha_is_io) env.
      if ha_is_io then do_io_ld ha (of_nat data_size) env
      else if is_aligned va (of_nat data_size) then ram_access ha env
      else ld_bytes data_size va 0 env)"

definition ld_h :: "u64 \<Rightarrow> 'd machine \<Rightarrow> (u64, 'd machine) outcome" where
  "ld_h va env = bind_out (ld_body 2 ram_ldh va env) (\<lambda>data. Ret (sext 16 data))"

definition ld_w :: "u64 \<Rightarrow> 'd machine \<Rightarrow> (u64, 'd machine) outcome" where
  "ld_w va env = bind_out (ld_body 4 ram_ldw va env) (\<lambda>data. Ret (sext 32 data))"

definition ld_d :: "u64 \<Rightarrow> 'd machine \<Rightarrow> (u64, 'd machine) outcome" where
  "ld_d va env = ld_body 8 ram_ldd va env"

text \<open>The vector loads: the words in order; an I/O address fails an assertion.\<close>

fun ld_words :: "nat \<Rightarrow> u64 \<Rightarrow> 'd machine \<Rightarrow> (u64 list, 'd machine) outcome" where
  "ld_words 0 va env = Ret [] env"
| "ld_words (Suc n) va env = bind_out (ld_d va env) (\<lambda>d env. bind_out (ld_words n (va + 8) env) (\<lambda>ds. Ret (d # ds)))"

definition ld_128 :: "u64 \<Rightarrow> 'd machine \<Rightarrow> (u64 list, 'd machine) outcome" where
  "ld_128 va env =
    bind_out (load_pa va env) (\<lambda>(ha, ha_is_io) env.
      if ha_is_io then Crash
      else if is_aligned va 16 then ram_ld128 ha env else ld_words 2 va env)"

definition ld_256 :: "u64 \<Rightarrow> 'd machine \<Rightarrow> (u64 list, 'd machine) outcome" where
  "ld_256 va env =
    bind_out (load_pa va env) (\<lambda>(ha, ha_is_io) env.
      if ha_is_io then Crash
      else if is_aligned va 32 then ram_ld256 ha env else ld_words 4 va env)"

section \<open>Stores\<close>

definition st_b :: "u64 \<Rightarrow> u64 \<Rightarrow> 'd machine \<Rightarrow> (unit, 'd machine) outcome" where
  "st_b va data env =
    bind_out (store_pa va env) (\<lambda>(ha, ha_is_io) env.
      if ha_is_io then do_io_st ha (take_bit 8 data) 1 env else ram_stb ha (take_bit 8 data) env)"

fun st_bytes :: "nat \<Rightarrow> u64 \<Rightarrow> u64 \<Rightarrow> 'd machine \<Rightarrow> (unit, 'd machine) outcome" where
  "st_bytes 0 va data env = Ret () env"
| "st_bytes (Suc i) va data env =
    bind_out (st_b (va + of_nat i) (drop_bit (8 * i) data AND 0xff) env) (\<lambda>_. st_bytes i va data)"

definition st_body :: "nat \<Rightarrow> (u64 \<Rightarrow> u64 \<Rightarrow> 'd machine \<Rightarrow> (unit, 'd machine) outcome) \<Rightarrow> u64 \<Rightarrow> u64 \<Rightarrow> 'd machine
    \<Rightarrow> (unit, 'd machine) outcome" where
  "st_body data_size ram_access va data env =
    bind_out (store_pa va env) (\<lambda>(ha, ha_is_io) env.
      if ha_is_io then do_io_st ha data (of_nat data_size) env
      else if is_aligned va (of_nat data_size) then ram_access ha data env
      else st_bytes data_size va data env)"

definition st_h :: "u64 \<Rightarrow> u64 \<Rightarrow> 'd machine \<Rightarrow> (unit, 'd machine) outcome" where
  "st_h va data env = st_body 2 ram_sth va (take_bit 16 data) env"

definition st_w :: "u64 \<Rightarrow> u64 \<Rightarrow> 'd machine \<Rightarrow> (unit, 'd machine) outcome" where
  "st_w va data env = st_body 4 ram_stw va (take_bit 32 data) env"

definition st_d :: "u64 \<Rightarrow> u64 \<Rightarrow> 'd machine \<Rightarrow> (unit, 'd machine) outcome" where
  "st_d va data env = st_body 8 ram_std va data env"

fun st_words :: "u64 \<Rightarrow> u64 list \<Rightarrow> 'd machine \<Rightarrow> (unit, 'd machine) outcome" where
  "st_words va [] env = Ret () env"
| "st_words va (d # ds) env = bind_out (st_d va d env) (\<lambda>_. st_words (va + 8) ds)"

definition st_128 :: "u64 \<Rightarrow> u64 list \<Rightarrow> 'd machine \<Rightarrow> (unit, 'd machine) outcome" where
  "st_128 va data env =
    bind_out (store_pa va env) (\<lambda>(ha, ha_is_io) env.
      if ha_is_io then Crash
      else if is_aligned va 16 then ram_st128 ha data env else st_words va (take 2 data) env)"

definition st_256 :: "u64 \<Rightarrow> u64 list \<Rightarrow> 'd machine \<Rightarrow> (unit, 'd machine) outcome" where
  "st_256 va data env =
    bind_out (store_pa va env) (\<lambda>(ha, ha_is_io) env.
      if ha_is_io then Crash
      else if is_aligned va 32 then ram_st256 ha data env else st_words va (take 4 data) env)"

section \<open>Specification\<close>

definition same_page :: "u64 \<Rightarrow> u64 \<Rightarrow> bool" where
  "same_page a b \<longleftrightarrow> a AND TARGET_PAGE_MASK = b AND TARGET_PAGE_MASK"

definition mmu_plain :: "'d machine \<Rightarrow> bool" where
  "mmu_plain env \<longleftrightarrow> is_la64 env \<and> \<not> enable_hw_ptw env \<and> CSR_PRCFG2 env = 0x3ffff000
    \<and> (\<forall>i < LOONGARCH_TLB_MAX. entry_e env i \<longrightarrow> check_ps env (entry_ps env i))"

definition in_page :: "u64 \<Rightarrow> u64 \<Rightarrow> u64" where
  "in_page pa b = page_offset b OR (pa AND TARGET_PAGE_MASK)"

definition translate :: "MMUAccessType \<Rightarrow> u64 \<Rightarrow> 'd machine \<Rightarrow> (u64, 'd machine) outcome" where
  "translate acc va env = check_get_physical_address va acc (access_mmu_idx env) env"

definition tc_entry_ok :: "MMUAccessType \<Rightarrow> (u64 \<Rightarrow> bool) \<Rightarrow> TLBCache \<Rightarrow> 'd machine \<Rightarrow> bool" where
  "tc_entry_ok acc cacheable tc env \<longleftrightarrow> (\<forall>va. va AND TARGET_PAGE_MASK = tc_va tc \<longrightarrow>
     translate acc va env = Ret (page_offset va OR tc_pa tc) env \<and> cacheable (page_offset va OR tc_pa tc))"

definition tc_coherent :: "'d machine \<Rightarrow> bool" where
  "tc_coherent env \<longleftrightarrow> (\<forall>i. tc_entry_ok MMU_DATA_LOAD (\<lambda>pa. \<not> is_io pa) (tc_load env i) env
     \<and> tc_entry_ok MMU_DATA_STORE (\<lambda>pa. \<not> is_io pa) (tc_store env i) env
     \<and> tc_entry_ok MMU_INST_FETCH (\<lambda>pa. True) (tc_fetch env i) env)"

text \<open>The part of the state that a translation reads.\<close>

definition mmu_agree :: "'d machine \<Rightarrow> 'd machine \<Rightarrow> bool" where
  "mmu_agree a b \<longleftrightarrow> CSR_CRMD a = CSR_CRMD b \<and> CSR_DMW a = CSR_DMW b \<and> CSR_ASID a = CSR_ASID b
    \<and> CSR_STLBPS a = CSR_STLBPS b \<and> CSR_PRCFG2 a = CSR_PRCFG2 b \<and> CSR_PWCH a = CSR_PWCH b
    \<and> cpucfg a = cpucfg b \<and> hw_ptw a = hw_ptw b \<and> ptw_hw_setVD a = ptw_hw_setVD b
    \<and> tlb a = tlb b \<and> check_tlb_mhit a = check_tlb_mhit b"

definition io_no_exn :: "'d machine \<Rightarrow> bool" where
  "io_no_exn env \<longleftrightarrow> (\<forall>d \<in> set (io_devices env). \<forall>a v s w e. dev_write d a v s w \<noteq> Exn e)"

text \<open>The state of the machine that memory accesses rely on.\<close>

definition mem_ok :: "'d machine \<Rightarrow> bool" where
  "mem_ok env \<longleftrightarrow> mmu_plain env \<and> tc_coherent env \<and> io_no_exn env"

definition mem_same :: "'d machine \<Rightarrow> 'd machine \<Rightarrow> bool" where
  "mem_same e' e \<longleftrightarrow> mem_ok e' \<and> mmu_agree e' e \<and> ram_size e' = ram_size e"

definition bytes_at :: "MMUAccessType \<Rightarrow> nat \<Rightarrow> u64 \<Rightarrow> (nat \<Rightarrow> u64) \<Rightarrow> 'd machine \<Rightarrow> bool" where
  "bytes_at acc n va p env \<longleftrightarrow> (\<forall>i < n. translate acc (va + of_nat i) env = Ret (p i) env
     \<and> \<not> is_io (p i) \<and> addr_in_ram env (p i))"

text \<open>Where the bytes of an access are, the same for loads and stores, and at different addresses.\<close>

definition mapped :: "nat \<Rightarrow> u64 \<Rightarrow> (nat \<Rightarrow> u64) \<Rightarrow> 'd machine \<Rightarrow> bool" where
  "mapped n va p env \<longleftrightarrow> bytes_at MMU_DATA_STORE n va p env \<and> bytes_at MMU_DATA_LOAD n va p env \<and> inj_on p {..<n}"

section \<open>Translation is uniform in a page\<close>

text \<open>The physical address of \<open>b\<close>, given that of another address of its page.\<close>

lemma bit_page_mask: "bit TARGET_PAGE_MASK n \<longleftrightarrow> 12 \<le> n \<and> n < 64"
  by (auto simp: TARGET_PAGE_MASK_def TARGET_PAGE_BITS_def bit_push_bit_iff bit_not_iff bit_mask_iff dest: bit_u64_imp_le)

lemma page_offset_take: "page_offset a = take_bit 12 a"
  by (simp add: page_offset_def take_bit_eq_mask mask_eq_exp_minus_1)

lemma same_page_bit: "same_page a b \<Longrightarrow> 12 \<le> n \<Longrightarrow> bit a n = bit b n"
proof -
  assume "same_page a b" "12 \<le> n"
  then have "bit (a AND TARGET_PAGE_MASK) n = bit (b AND TARGET_PAGE_MASK) n" by (simp add: same_page_def)
  then show ?thesis using \<open>12 \<le> n\<close> by (cases "n < 64") (auto simp: bit_and_iff bit_page_mask)
qed

lemma same_pageI: "(\<And>n. 12 \<le> n \<Longrightarrow> bit a n = bit b n) \<Longrightarrow> same_page a b"
  unfolding same_page_def by (rule bit_word_eqI) (auto simp: bit_and_iff bit_page_mask)

lemma bit_in_page: "bit (in_page pa b) n \<longleftrightarrow> (if n < 12 then bit b n else bit pa n)"
  by (cases "n < 64") (auto simp: in_page_def page_offset_take bit_simps bit_page_mask)

lemma same_page_refl [simp]: "same_page a a" by (simp add: same_page_def)

lemma same_page_sym: "same_page a b \<Longrightarrow> same_page b a" by (simp add: same_page_def)

lemma same_page_trans: "same_page a b \<Longrightarrow> same_page b c \<Longrightarrow> same_page a c" by (simp add: same_page_def)

lemma in_page_self [simp]: "in_page a a = a"
  by (rule bit_word_eqI) (simp add: bit_in_page)

lemma in_page_in_page [simp]: "in_page (in_page pa a) b = in_page pa b"
  by (rule bit_word_eqI) (simp add: bit_in_page)

lemma in_page_mask: "page_offset b OR (in_page pa a AND TARGET_PAGE_MASK) = in_page pa b"
  using in_page_in_page [of pa a b] by (simp only: in_page_def)

lemma drop_page:
  "same_page a b \<Longrightarrow> 12 \<le> n \<Longrightarrow> drop_bit n (take_bit m a) = drop_bit n (take_bit m b)"
  by (rule bit_word_eqI) (auto simp: bit_simps same_page_bit)

lemma vppn_match_page:
  assumes "same_page a b" and "12 \<le> ps" and "ps \<le> 62"
  shows "vppn_match env ps i a = vppn_match env ps i b"
  using assms drop_page [of a b "ps + 1" 48]
  by (simp add: vppn_match_def virt_mask shr64_small nat_add_distrib)

lemma mmu_plain_ps:
  assumes "mmu_plain env" and "i < LOONGARCH_TLB_MAX" and "entry_e env i"
  shows "12 \<le> entry_ps env i \<and> entry_ps env i \<le> 29"
  using assms check_ps_la464 [of env "entry_ps env i"] by (simp add: mmu_plain_def)

lemma tlb_hit_page:
  assumes "mmu_plain env" and "same_page a b" and "i < LOONGARCH_TLB_MAX"
  shows "tlb_hit env a i = tlb_hit env b i"
  using assms mmu_plain_ps [OF assms(1,3)] vppn_match_page [OF assms(2), of "entry_ps env i" env i]
  by (auto simp: tlb_hit_def)

lemma tlb_search_page:
  assumes "mmu_plain env" and "same_page a b"
  shows "loongarch_tlb_search env a = loongarch_tlb_search env b"
proof -
  let ?P = "\<lambda>v. filter (tlb_hit env v) (map (\<lambda>i. i * 256 + stlb_set env v) [0..<8])"
  have bnd: "i * 256 + stlb_set env v < LOONGARCH_STLB" if "i < 8" for i v
    using that stlb_set_less [of env v] by (simp add: LOONGARCH_STLB_def)
  have bnd': "i * 256 + stlb_set env v < LOONGARCH_TLB_MAX" if "i < 8" for i v
    using bnd [OF that, of v] by (simp add: tlb_size_defs)
  have "?P a = ?P b"
  proof (cases "\<exists>i < LOONGARCH_STLB. entry_e env i")
    case True
    then obtain i where "i < LOONGARCH_STLB" "entry_e env i" by blast
    then have "12 \<le> exn (CSR_STLBPS env) CSR_STLBPS_PS \<and> exn (CSR_STLBPS env) CSR_STLBPS_PS \<le> 29"
      using mmu_plain_ps [OF assms(1), of i] by (simp add: entry_ps_def tlb_size_defs)
    then have "stlb_set env a = stlb_set env b"
      using drop_page [OF assms(2), of "exn (CSR_STLBPS env) CSR_STLBPS_PS + 1" 48]
      by (simp add: stlb_set_def virt_mask shr64_small nat_add_distrib)
    then show ?thesis
      using bnd' tlb_hit_page [OF assms] by (intro filter_cong) auto
  next
    case False
    then have "?P v = []" for v using bnd by (auto simp: filter_empty_conv tlb_hit_def)
    then show ?thesis by simp
  qed
  moreover have "filter (tlb_hit env a) [LOONGARCH_STLB..<LOONGARCH_TLB_MAX]
      = filter (tlb_hit env b) [LOONGARCH_STLB..<LOONGARCH_TLB_MAX]"
    using tlb_hit_page [OF assms] by (intro filter_cong) auto
  ultimately have "filter (tlb_hit env a) (search_order env a) = filter (tlb_hit env b) (search_order env b)"
    by (simp add: search_order_def)
  then show ?thesis
    by (cases "check_tlb_mhit env")
      (simp_all add: loongarch_tlb_search_def search_loop_first search_loop_mhit find_filter)
qed

lemma map_tlb_entry_page:
  assumes "same_page a b" and ps: "12 \<le> entry_ps env i" "entry_ps env i \<le> 29"
    and m: "loongarch_map_tlb_entry env a acc i m = (TLBRET_MATCH, pa, prot)"
  shows "loongarch_map_tlb_entry env b acc i m = (TLBRET_MATCH, in_page pa b, prot)"
proof -
  have n: "bit a (entry_ps env i) = bit b (entry_ps env i)" using assms by (intro same_page_bit)
  have pa: "in_page (push_bit 12 p OR (a AND MAKE_64BIT_MASK 0 (entry_ps env i))) b
      = push_bit 12 p OR (b AND MAKE_64BIT_MASK 0 (entry_ps env i))" for p
    using ps same_page_bit [OF assms(1)]
    by (intro bit_word_eqI) (auto simp: bit_in_page bit_simps bit_MAKE_64BIT_MASK)
  have "loongarch_map_tlb_entry env b acc i m =
      (case loongarch_map_tlb_entry env a acc i m of (r, pa, prot) \<Rightarrow>
         (r, if r = TLBRET_MATCH then in_page pa b else pa, prot))"
    unfolding loongarch_map_tlb_entry_def Let_def n
    by (simp only: if_distrib [where f = "case_prod f" for f] prod.case TLBRET.distinct if_False if_True refl
        simp_thms pa)
  then show ?thesis using m by simp
qed

lemma map_address_page:
  assumes "mmu_plain env" and "same_page a b"
    and "loongarch_map_address a acc m env = Ret (TLBRET_MATCH, pa, prot) env'"
  shows "loongarch_map_address b acc m env = Ret (TLBRET_MATCH, in_page pa b, prot) env \<and> env' = env"
proof -
  have "\<not> enable_hw_ptw env" using assms(1) by (simp add: mmu_plain_def)
  then obtain index where i: "index < LOONGARCH_TLB_MAX" "tlb_hit env a index" "env' = env"
    and m: "loongarch_map_tlb_entry env a acc index m = (TLBRET_MATCH, pa, prot)"
    and s: "loongarch_tlb_search env a = Ret (Some index) env"
    using assms(3) by (rule map_address_no_ptw)
  have "12 \<le> entry_ps env index \<and> entry_ps env index \<le> 29"
    using mmu_plain_ps [OF assms(1)] i by (simp add: tlb_hit_def)
  then have "loongarch_map_tlb_entry env b acc index m = (TLBRET_MATCH, in_page pa b, prot)"
    using map_tlb_entry_page [OF assms(2) _ _ m] by simp
  moreover have "loongarch_tlb_search env b = Ret (Some index) env"
    using s tlb_search_page [OF assms(1,2)] by simp
  ultimately show ?thesis
    using i by (simp add: loongarch_map_address_def map_address_rounds.simps [of "Suc 0"] tlb_lookup_def)
qed

lemma dmw_hit_page: "same_page a b \<Longrightarrow> dmw_hit env a m i = dmw_hit env b m i"
proof -
  assume s: "same_page a b"
  have "drop_bit 60 a = drop_bit 60 b" "drop_bit 29 a = drop_bit 29 b"
    using s by (auto intro!: bit_word_eqI simp: bit_simps same_page_bit)
  then show ?thesis by (simp add: dmw_hit_def Let_def)
qed

lemma get_physical_address_page:
  assumes "mmu_plain env" and "same_page a b"
    and "get_physical_address a acc m env = Ret (TLBRET_MATCH, pa, prot) env'"
  shows "get_physical_address b acc m env = Ret (TLBRET_MATCH, in_page pa b, prot) env \<and> env' = env"
proof -
  have la: "is_la64 env" using assms(1) by (simp add: mmu_plain_def)
  have t: "in_page (take_bit 48 a) b = take_bit 48 b"
    using same_page_bit [OF assms(2)] by (intro bit_word_eqI) (auto simp: bit_in_page bit_simps)
  have d: "find (dmw_hit env a m) [0..<4] = find (dmw_hit env b m) [0..<4]"
    by (intro arg_cong [where f = "\<lambda>P. find P [0..<4]"] ext dmw_hit_page assms)
  have x: "sextract64 a 48 16 = sextract64 b 48 16"
    using same_page_bit [OF assms(2)] by (intro bit_word_eqI) (simp add: bit_sextract64)
  have p: "x AND TARGET_PHYS_MASK = take_bit 48 x" for x
    using virt_mask [of x] by (simp add: TARGET_PHYS_MASK_def TARGET_VIRT_MASK_def)
  show ?thesis
    using assms(3) map_address_page [OF assms(1,2)] t d x la
    by (auto simp: get_physical_address_def Let_def p dmw_va2pa_def virt_mask split: if_splits option.splits)
qed

section \<open>The caches are transparent\<close>

lemma mmu_agree_sym: "mmu_agree a b \<Longrightarrow> mmu_agree b a"
  by (simp add: mmu_agree_def)

lemma mmu_agree_refl [simp]: "mmu_agree a a"
  by (simp add: mmu_agree_def)

lemma mmu_agree_preds:
  assumes "mmu_agree a b"
  shows "is_la64 a = is_la64 b" "enable_hw_ptw a = enable_hw_ptw b" "entry_e a i = entry_e b i"
    "check_ps a n = check_ps b n" "entry_ps a i = entry_ps b i" "tlb_hit a v i = tlb_hit b v i"
    "search_order a v = search_order b v" "access_mmu_idx a = access_mmu_idx b"
    "dmw_hit a v m j = dmw_hit b v m j"
  using assms unfolding mmu_agree_def
  by (simp_all add: is_la64_def enable_hw_ptw_def entry_e_def check_ps_def entry_ps_def tlb_hit_def entry_asid_def
      vppn_match_def search_order_def stlb_set_def access_mmu_idx_def dmw_hit_def)

lemma mmu_plain_agree: "mmu_agree a b \<Longrightarrow> mmu_plain b \<Longrightarrow> mmu_plain a"
  by (simp add: mmu_plain_def mmu_agree_preds [of a b]) (simp add: mmu_agree_def)

lemma map_tlb_entry_agree:
  "mmu_agree a b \<Longrightarrow> loongarch_map_tlb_entry a v acc i m = loongarch_map_tlb_entry b v acc i m"
  unfolding loongarch_map_tlb_entry_def
  by (simp only: mmu_agree_preds [of a b]) (simp add: mmu_agree_def)

lemma tlb_search_agree:
  assumes "mmu_agree a b" and "loongarch_tlb_search b v = Ret r b"
  shows "loongarch_tlb_search a v = Ret r a"
  using assms by (intro tlb_search_cong [of a b]) (simp_all add: mmu_agree_def)

lemma map_address_agree:
  assumes "mmu_agree a b" and "\<not> enable_hw_ptw b"
    and "loongarch_map_address v acc m b = Ret (TLBRET_MATCH, pa, prot) b'"
  shows "loongarch_map_address v acc m a = Ret (TLBRET_MATCH, pa, prot) a"
proof -
  obtain i where "loongarch_map_tlb_entry b v acc i m = (TLBRET_MATCH, pa, prot)"
      "loongarch_tlb_search b v = Ret (Some i) b"
    using assms(2,3) by (rule map_address_no_ptw)
  then have "loongarch_map_tlb_entry a v acc i m = (TLBRET_MATCH, pa, prot)"
      "loongarch_tlb_search a v = Ret (Some i) a"
    using map_tlb_entry_agree [OF assms(1)] tlb_search_agree [OF assms(1)] by simp_all
  then show ?thesis
    by (simp add: loongarch_map_address_def map_address_rounds.simps [of "Suc 0"] tlb_lookup_def)
qed

lemma translate_Ret:
  assumes "translate acc v env = Ret pa env'"
  obtains prot where "get_physical_address v acc (access_mmu_idx env) env = Ret (TLBRET_MATCH, pa, prot) env'"
  using assms
  by (cases "get_physical_address v acc (access_mmu_idx env) env")
    (auto simp: translate_def check_get_physical_address_def split: if_splits prod.splits)

lemma translate_agree:
  assumes "mmu_agree a b" and "\<not> enable_hw_ptw b" and "translate acc v b = Ret pa b'"
  shows "translate acc v a = Ret pa a"
proof -
  obtain prot where g: "get_physical_address v acc (access_mmu_idx b) b = Ret (TLBRET_MATCH, pa, prot) b'"
    using assms(3) by (rule translate_Ret)
  have eq: "CSR_CRMD a = CSR_CRMD b" "CSR_DMW a = CSR_DMW b" "dmw_va2pa a x y = dmw_va2pa b x y" for x y
    using assms(1) mmu_agree_preds [OF assms(1)] by (simp_all add: mmu_agree_def dmw_va2pa_def)
  have d: "dmw_hit a v m = dmw_hit b v m" for m by (rule ext) (simp add: mmu_agree_preds [OF assms(1)])
  have "get_physical_address v acc (access_mmu_idx a) a = Ret (TLBRET_MATCH, pa, prot) a"
    using g map_address_agree [OF assms(1,2)] mmu_agree_preds(8) [OF assms(1)]
    by (auto simp: get_physical_address_def Let_def eq d split: if_splits option.splits)
  then show ?thesis by (simp add: translate_def check_get_physical_address_def)
qed

lemma translate_page:
  assumes "mmu_plain env" and "same_page a b" and "translate acc a env = Ret pa env'"
  shows "translate acc b env = Ret (in_page pa b) env \<and> env' = env"
proof -
  obtain prot where "get_physical_address a acc (access_mmu_idx env) env = Ret (TLBRET_MATCH, pa, prot) env'"
    using assms(3) by (rule translate_Ret)
  then show ?thesis
    using get_physical_address_page [OF assms(1,2)] by (simp add: translate_def check_get_physical_address_def)
qed

lemma translate_env: "mmu_plain env \<Longrightarrow> translate acc a env = Ret pa env' \<Longrightarrow> env' = env"
  using translate_page [of env a a acc pa env'] by simp

text \<open>The contract of a cached port, over its cache and the accesses that it may cache.\<close>

locale tc_port =
  fixes acc :: MMUAccessType and cacheable :: "u64 \<Rightarrow> bool"
    and tc_of :: "'d machine \<Rightarrow> nat \<Rightarrow> TLBCache" and put :: "(nat \<Rightarrow> TLBCache) \<Rightarrow> 'd machine \<Rightarrow> 'd machine"
    and lookup :: "u64 \<Rightarrow> 'd machine \<Rightarrow> (u64 \<times> bool, 'd machine) outcome"
  assumes lookup_eq: "lookup addr env =
      (if addr AND TARGET_PAGE_MASK = tc_va (tc_of env (TC_INDEX addr))
       then Ret (page_offset addr OR tc_pa (tc_of env (TC_INDEX addr)), False) env
       else bind_out (translate acc addr env) (\<lambda>ha env.
         if \<not> cacheable ha then Ret (ha, True) env
         else Ret (ha, False) (put ((tc_of env)(TC_INDEX addr :=
           \<lparr>tc_va = addr AND TARGET_PAGE_MASK, tc_pa = ha AND TARGET_PAGE_MASK\<rparr>)) env)))"
    and tc_put: "tc_of (put f env) = f" and put_tc: "put (tc_of env) env = env"
    and put_agree: "mmu_agree (put f env) env"
    and cacheable_page: "cacheable (in_page pa b) = cacheable pa"
begin

lemma entry_ok_agree:
  assumes "mmu_plain env" and "mmu_agree e env" and "tc_entry_ok acc' c tc env"
  shows "tc_entry_ok acc' c tc e"
  using assms translate_agree [of e env] by (simp add: tc_entry_ok_def mmu_plain_def)

lemma lookup_Ret:
  assumes "mmu_plain env" and "\<forall>i. tc_entry_ok acc cacheable (tc_of env i) env"
    and "lookup addr env = Ret (ha, io) env'"
  shows "translate acc addr env = Ret ha env" and "io = (\<not> cacheable ha)"
    and "\<exists>f. env' = put f env \<and> (\<forall>i. tc_entry_ok acc cacheable (f i) env)"
proof -
  have "translate acc addr env = Ret ha env \<and> io = (\<not> cacheable ha)
      \<and> (\<exists>f. env' = put f env \<and> (\<forall>i. tc_entry_ok acc cacheable (f i) env))"
  proof (cases "addr AND TARGET_PAGE_MASK = tc_va (tc_of env (TC_INDEX addr))")
    case True
    then have "ha = page_offset addr OR tc_pa (tc_of env (TC_INDEX addr))" "\<not> io" "env' = env"
      using assms(3) by (auto simp: lookup_eq)
    then show ?thesis
      using assms(2) True put_tc [of env] unfolding tc_entry_ok_def by metis
  next
    case False
    then obtain e where t: "translate acc addr env = Ret ha e"
      using assms(3) by (cases "translate acc addr env") (auto simp: lookup_eq split: if_splits)
    then have e: "e = env" using assms(1) translate_env by blast
    have io: "io = (\<not> cacheable ha)" "env' = (if cacheable ha then put ((tc_of env)(TC_INDEX addr :=
           \<lparr>tc_va = addr AND TARGET_PAGE_MASK, tc_pa = ha AND TARGET_PAGE_MASK\<rparr>)) env else env)"
      using False assms(3) t e by (auto simp: lookup_eq split: if_splits)
    have "tc_entry_ok acc cacheable \<lparr>tc_va = addr AND TARGET_PAGE_MASK, tc_pa = ha AND TARGET_PAGE_MASK\<rparr> env"
      if c: "cacheable ha"
    proof -
      have "page_offset va OR (ha AND TARGET_PAGE_MASK) = in_page ha va" for va by (simp add: in_page_def)
      moreover have "translate acc va env = Ret (in_page ha va) env" if "va AND TARGET_PAGE_MASK = addr AND TARGET_PAGE_MASK" for va
        using translate_page [OF assms(1) _ t, of va] that by (simp add: same_page_def)
      ultimately show ?thesis using c cacheable_page by (simp add: tc_entry_ok_def)
    qed
    then have "\<forall>i. tc_entry_ok acc cacheable ((if cacheable ha then (tc_of env)(TC_INDEX addr :=
        \<lparr>tc_va = addr AND TARGET_PAGE_MASK, tc_pa = ha AND TARGET_PAGE_MASK\<rparr>) else tc_of env) i) env"
      using assms(2) by simp
    moreover have "env' = put (if cacheable ha then (tc_of env)(TC_INDEX addr :=
        \<lparr>tc_va = addr AND TARGET_PAGE_MASK, tc_pa = ha AND TARGET_PAGE_MASK\<rparr>) else tc_of env) env"
      using io put_tc [of env] by simp
    ultimately have "\<exists>f. env' = put f env \<and> (\<forall>i. tc_entry_ok acc cacheable (f i) env)" by blast
    then show ?thesis using t e io by blast
  qed
  then show "translate acc addr env = Ret ha env" and "io = (\<not> cacheable ha)"
    and "\<exists>f. env' = put f env \<and> (\<forall>i. tc_entry_ok acc cacheable (f i) env)" by blast+
qed

lemma lookup_Exn:
  assumes "mmu_plain env" and "\<forall>i. tc_entry_ok acc cacheable (tc_of env i) env"
  shows "lookup addr env = Exn e \<longleftrightarrow> translate acc addr env = Exn e"
  using assms
  by (cases "translate acc addr env") (auto simp: lookup_eq tc_entry_ok_def)

lemma lookup_Crash:
  assumes "mmu_plain env" and "\<forall>i. tc_entry_ok acc cacheable (tc_of env i) env" and "translate acc addr env = Crash"
  shows "lookup addr env = Crash"
  using assms by (auto simp: lookup_eq tc_entry_ok_def)

text \<open>After a lookup that cached the page, a lookup in the same page hits and changes nothing.\<close>

lemma lookup_again:
  assumes "mmu_plain env" and "lookup addr env = Ret (ha, False) env'" and "same_page addr b"
    and "mmu_agree e env'" and "tc_of e (TC_INDEX addr) = tc_of env' (TC_INDEX addr)"
  shows "\<exists>ha'. lookup b e = Ret (ha', False) e"
proof -
  have i: "TC_INDEX b = TC_INDEX addr"
    using same_page_bit [OF assms(3)]
    by (auto simp: TC_INDEX_def TARGET_PAGE_BITS_def intro!: arg_cong [where f = unat] bit_word_eqI simp: bit_simps)
  have "addr AND TARGET_PAGE_MASK = tc_va (tc_of env' (TC_INDEX addr))"
    using assms(2) tc_put
    by (cases "translate acc addr env") (auto simp: lookup_eq split: if_splits)
  then have "b AND TARGET_PAGE_MASK = tc_va (tc_of e (TC_INDEX b))"
    using i assms(3,5) by (simp add: same_page_def)
  then show ?thesis by (simp add: lookup_eq)
qed

end

lemma is_io_frame:
  "is_io ha \<longleftrightarrow> (let k = unat ha div 4096 in (0x10000 \<le> k \<and> k < 0x1c000) \<or> (0x1e000 \<le> k \<and> k < 0x90000))"
  by (simp add: is_io_def word_le_nat_alt word_less_nat_alt less_eq_div_iff_mult_less_eq div_less_iff_less_mult Let_def)

lemma is_io_page: "is_io (in_page pa b) = is_io pa"
proof -
  have "drop_bit 12 (in_page pa b) = drop_bit 12 pa"
    by (rule bit_word_eqI) (simp add: bit_simps bit_in_page)
  then have "unat (in_page pa b) div 4096 = unat pa div 4096"
    using unat_drop_bit_div [of 12 "in_page pa b"] unat_drop_bit_div [of 12 pa] by simp
  then show ?thesis by (simp add: is_io_frame)
qed

interpretation load_port: tc_port MMU_DATA_LOAD "\<lambda>pa. \<not> is_io pa" tc_load "\<lambda>f env. env\<lparr>tc_load := f\<rparr>" load_pa
  by unfold_locales (simp_all add: load_pa_def translate_def mmu_agree_def is_io_page if_distrib Let_def)

interpretation store_port: tc_port MMU_DATA_STORE "\<lambda>pa. \<not> is_io pa" tc_store "\<lambda>f env. env\<lparr>tc_store := f\<rparr>" store_pa
  by unfold_locales (simp_all add: store_pa_def translate_def mmu_agree_def is_io_page Let_def)

interpretation fetch_port: tc_port MMU_INST_FETCH "\<lambda>pa. True" tc_fetch "\<lambda>f env. env\<lparr>tc_fetch := f\<rparr>"
  "\<lambda>addr env. bind_out (fetch_pa addr env) (\<lambda>ha. Ret (ha, False))"
  by unfold_locales (simp_all add: fetch_pa_def translate_def mmu_agree_def Let_def bind_out_assoc)

lemmas entry_ok_agree = load_port.entry_ok_agree

lemma tc_coherent_agree:
  assumes "mmu_plain env" and "mmu_agree e env" and "tc_coherent env"
    and "\<And>i. tc_entry_ok MMU_DATA_LOAD (\<lambda>pa. \<not> is_io pa) (tc_load e i) env"
    and "\<And>i. tc_entry_ok MMU_DATA_STORE (\<lambda>pa. \<not> is_io pa) (tc_store e i) env"
    and "\<And>i. tc_entry_ok MMU_INST_FETCH (\<lambda>pa. True) (tc_fetch e i) env"
  shows "tc_coherent e"
  unfolding tc_coherent_def using assms by (blast intro: entry_ok_agree)

lemma load_pa_Ret:
  assumes "mmu_plain env" and "tc_coherent env" and "load_pa va env = Ret (ha, io) env'"
  shows "translate MMU_DATA_LOAD va env = Ret ha env" and "io = is_io ha"
    and "\<exists>f. env' = env\<lparr>tc_load := f\<rparr>" and "tc_coherent env'"
proof -
  have ok: "\<forall>i. tc_entry_ok MMU_DATA_LOAD (\<lambda>pa. \<not> is_io pa) (tc_load env i) env"
    using assms(2) by (simp add: tc_coherent_def)
  note l = load_port.lookup_Ret [OF assms(1) ok assms(3)]
  show "translate MMU_DATA_LOAD va env = Ret ha env" "io = is_io ha" using l by auto
  obtain f where f: "env' = env\<lparr>tc_load := f\<rparr>" "\<forall>i. tc_entry_ok MMU_DATA_LOAD (\<lambda>pa. \<not> is_io pa) (f i) env"
    using l(3) by blast
  then show "\<exists>f. env' = env\<lparr>tc_load := f\<rparr>" by blast
  show "tc_coherent env'"
    using f assms(2) load_port.put_agree [of f env]
    by (intro tc_coherent_agree [OF assms(1) _ assms(2)]) (simp_all add: tc_coherent_def)
qed

lemma store_pa_Ret:
  assumes "mmu_plain env" and "tc_coherent env" and "store_pa va env = Ret (ha, io) env'"
  shows "translate MMU_DATA_STORE va env = Ret ha env" and "io = is_io ha"
    and "\<exists>f. env' = env\<lparr>tc_store := f\<rparr>" and "tc_coherent env'"
proof -
  have ok: "\<forall>i. tc_entry_ok MMU_DATA_STORE (\<lambda>pa. \<not> is_io pa) (tc_store env i) env"
    using assms(2) by (simp add: tc_coherent_def)
  note l = store_port.lookup_Ret [OF assms(1) ok assms(3)]
  show "translate MMU_DATA_STORE va env = Ret ha env" "io = is_io ha" using l by auto
  obtain f where f: "env' = env\<lparr>tc_store := f\<rparr>" "\<forall>i. tc_entry_ok MMU_DATA_STORE (\<lambda>pa. \<not> is_io pa) (f i) env"
    using l(3) by blast
  then show "\<exists>f. env' = env\<lparr>tc_store := f\<rparr>" by blast
  show "tc_coherent env'"
    using f assms(2) store_port.put_agree [of f env]
    by (intro tc_coherent_agree [OF assms(1) _ assms(2)]) (simp_all add: tc_coherent_def)
qed

lemma fetch_pa_Ret:
  assumes "mmu_plain env" and "tc_coherent env" and "fetch_pa va env = Ret ha env'"
  shows "translate MMU_INST_FETCH va env = Ret ha env"
    and "\<exists>f. env' = env\<lparr>tc_fetch := f\<rparr>" and "tc_coherent env'"
proof -
  have ok: "\<forall>i. tc_entry_ok MMU_INST_FETCH (\<lambda>pa. True) (tc_fetch env i) env"
    using assms(2) by (simp add: tc_coherent_def)
  note l = fetch_port.lookup_Ret [OF assms(1) ok, of va ha False env', simplified assms(3) bind_out_simps, OF refl]
  show "translate MMU_INST_FETCH va env = Ret ha env" using l by auto
  obtain f where f: "env' = env\<lparr>tc_fetch := f\<rparr>" "\<forall>i. tc_entry_ok MMU_INST_FETCH (\<lambda>pa. True) (f i) env"
    using l(3) by blast
  then show "\<exists>f. env' = env\<lparr>tc_fetch := f\<rparr>" by blast
  show "tc_coherent env'"
    using f assms(2) fetch_port.put_agree [of f env]
    by (intro tc_coherent_agree [OF assms(1) _ assms(2)]) (simp_all add: tc_coherent_def)
qed

section \<open>Pages of the bytes of an access\<close>

lemma add_in_page:
  assumes "take_bit 12 q = 0" and "j < 4096"
  shows "same_page (q + of_nat j) (q :: u64)"
proof -
  have j: "take_bit 12 (of_nat j :: u64) = of_nat j"
    using assms(2) by (simp add: take_bit_of_nat take_bit_nat_eq_self)
  have q: "\<not> bit q n" if "n < 12" for n
    using assms(1) that by (metis bit_take_bit_iff bit_0_eq bot_apply bot_bool_def)
  have jn: "\<not> bit (of_nat j :: u64) n" if "12 \<le> n" for n using j that by (metis bit_take_bit_iff not_le)
  have "q AND of_nat j = 0" by (rule bit_word_eqI) (use q jn in \<open>auto simp: bit_simps not_le [symmetric]\<close>)
  then have "q + of_nat j = q OR of_nat j" by (simp add: disjunctive_add_eq_or)
  then show ?thesis using jn by (intro same_pageI) (simp only: bit_or_iff, blast)
qed

lemma page_base:
  fixes a :: u64
  obtains q off where "a = q + of_nat off" and "take_bit 12 q = 0" and "off < 4096"
proof -
  define q where "q = a AND TARGET_PAGE_MASK"
  have q: "take_bit 12 q = 0" unfolding q_def by (rule bit_word_eqI) (auto simp: bit_simps bit_page_mask)
  have "q AND take_bit 12 a = 0" unfolding q_def by (rule bit_word_eqI) (auto simp: bit_simps bit_page_mask)
  then have "q + take_bit 12 a = q OR take_bit 12 a" by (simp add: disjunctive_add_eq_or)
  also have "\<dots> = a" unfolding q_def
    by (rule bit_word_eqI) (auto simp: bit_simps bit_page_mask not_less dest: bit_u64_imp_le)
  finally have "a = q + of_nat (unat (take_bit 12 a))" by simp
  then show thesis using q unat_take_bit_less [of 12 a] by (intro that) simp_all
qed

text \<open>A byte of an access lies in the page of the first or of the last byte.\<close>

lemma byte_page:
  assumes "i < n" and "n \<le> 4096"
  shows "same_page (va + of_nat i) va \<or> same_page (va + of_nat i) (va + of_nat (n - 1))"
proof -
  obtain q off where va: "va = q + of_nat off" "take_bit 12 q = 0" "off < 4096" by (rule page_base)
  have sum: "va + of_nat j = q + of_nat (off + j)" for j by (simp add: va(1))
  show ?thesis
  proof (cases "off + i < 4096")
    case True
    then have "same_page (va + of_nat i) q" "same_page va q"
      unfolding sum [of i] using add_in_page [OF va(2)] va(1,3) by blast+
    then show ?thesis using same_page_sym same_page_trans by blast
  next
    case False
    define k where "k = off + i - 4096"
    define l where "l = off + (n - 1) - 4096"
    have kl: "k < 4096" "l < 4096" "off + i = 4096 + k" "off + (n - 1) = 4096 + l"
      using False assms va(3) by (auto simp: k_def l_def)
    let ?r = "q + 4096"
    have "q = push_bit 12 (drop_bit 12 q)" using bits_ident [of 12 q] va(2) by simp
    then have "q + 4096 = push_bit 12 (drop_bit 12 q + 1)" by (simp add: push_bit_add)
    then have r: "take_bit 12 ?r = 0" by (simp only: take_bit_push_bit) simp
    have "va + of_nat i = ?r + of_nat k" "va + of_nat (n - 1) = ?r + of_nat l"
      unfolding sum kl by simp_all
    then have "same_page (va + of_nat i) ?r" "same_page (va + of_nat (n - 1)) ?r"
      using add_in_page [OF r kl(1)] add_in_page [OF r kl(2)] by simp_all
    then show ?thesis using same_page_sym same_page_trans by blast
  qed
qed

section \<open>What an access keeps\<close>

locale access_inv = mmu_inv +
  assumes acc_upd [simp]: "I (env\<lparr>tc_load := f\<rparr>) = I env" "I (env\<lparr>tc_store := f\<rparr>) = I env"
    "I (env\<lparr>tc_fetch := f\<rparr>) = I env" "I (env\<lparr>devs := d, CSR_ESTAT := e\<rparr>) = I env"
begin

lemma pa_I:
  assumes "I env"
  shows "out_inv I (load_pa va env)" and "out_inv I (store_pa va env)" and "out_inv I (fetch_pa va env)"
  unfolding load_pa_def store_pa_def fetch_pa_def Let_def
  by (intro out_inv_if out_inv_bindI translation_I assms; simp add: assms)+

lemma io_I:
  assumes "I env"
  shows "out_inv I (do_io_ld ha sz env)" and "out_inv I (do_io_st ha v sz env)"
  using assms by (auto simp: do_io_ld_def do_io_st_def io_lift_def Let_def split: outcome.split prod.split)

lemma ld_b_I: "I env \<Longrightarrow> out_inv I (ld_b va env)"
  unfolding ld_b_def ram_ldb_def by (auto intro!: out_inv_bindI pa_I io_I ram_ld_inv split: prod.split)

lemma ld_bytes_I: "I env \<Longrightarrow> out_inv I (ld_bytes n va d env)"
  by (induction n va d env rule: ld_bytes.induct) (auto intro!: out_inv_bindI ld_b_I)

lemma ld_body_I:
  assumes "\<And>ha e. I e \<Longrightarrow> out_inv I (acc ha e)" and "I env"
  shows "out_inv I (ld_body n acc va env)"
  unfolding ld_body_def using assms
  by (auto intro!: out_inv_bindI pa_I io_I ld_bytes_I split: prod.split)

lemma loads_I:
  assumes "I env"
  shows "out_inv I (ld_h va env)" and "out_inv I (ld_w va env)" and "out_inv I (ld_d va env)"
  unfolding ld_h_def ld_w_def ld_d_def using assms
  by (auto intro!: out_inv_bindI ld_body_I ram_ld_inv simp: ram_ldh_def ram_ldw_def ram_ldd_def)

lemma st_b_I: "I env \<Longrightarrow> out_inv I (st_b va v env)"
  unfolding st_b_def ram_stb_def by (auto intro!: out_inv_bindI pa_I io_I ram_st_I split: prod.split)

lemma st_bytes_I: "I env \<Longrightarrow> out_inv I (st_bytes n va d env)"
  by (induction n va d env rule: st_bytes.induct) (auto intro!: out_inv_bindI st_b_I)

lemma st_body_I:
  assumes "\<And>ha v e. I e \<Longrightarrow> out_inv I (acc ha v e)" and "I env"
  shows "out_inv I (st_body n acc va v env)"
  unfolding st_body_def using assms
  by (auto intro!: out_inv_bindI pa_I io_I st_bytes_I split: prod.split)

lemma stores_I:
  assumes "I env"
  shows "out_inv I (st_h va v env)" and "out_inv I (st_w va v env)" and "out_inv I (st_d va v env)"
  unfolding st_h_def st_w_def st_d_def using assms
  by (auto intro!: st_body_I ram_st_I simp: ram_sth_def ram_stw_def ram_std_def)

end

interpretation regs_access: access_inv "\<lambda>e. gpr e = g \<and> pc e = p" for g p
  by unfold_locales simp_all

section \<open>Stores that fault\<close>

text \<open>No device leaves its callback by a \<open>siglongjmp\<close>.\<close>

lemma io_write_list_no_exn:
  "(\<forall>d \<in> set ds. \<forall>a v s w e. dev_write d a v s w \<noteq> Exn e) \<Longrightarrow> io_write ds ha data sz w \<noteq> Exn e"
  by (induction ds) auto

lemma io_write_no_exn: "io_no_exn env \<Longrightarrow> do_io_st ha data sz env \<noteq> Exn e"
  using io_write_list_no_exn [of "io_devices env" ha data sz "(devs env, CSR_ESTAT env, ram env)"]
  by (auto simp only: do_io_st_def io_lift_def Let_def io_no_exn_def split: outcome.splits)

lemma do_io_st_frame:
  assumes "do_io_st ha data sz env = Ret () env'"
  shows "mmu_agree env' env" "tc_load env' = tc_load env" "tc_store env' = tc_store env" "tc_fetch env' = tc_fetch env"
    "io_devices env' = io_devices env"
  using assms by (auto simp: do_io_st_def io_lift_def mmu_agree_def Let_def split: outcome.splits prod.splits)

lemma ram_st_frame:
  assumes "ram_st n ha data env = Ret () env'"
  shows "mmu_agree env' env" "tc_load env' = tc_load env" "tc_store env' = tc_store env" "tc_fetch env' = tc_fetch env"
    "io_devices env' = io_devices env"
  using assms by (auto simp: ram_st_def mmu_agree_def split: if_splits)

lemma mmu_agree_trans: "mmu_agree a b \<Longrightarrow> mmu_agree b c \<Longrightarrow> mmu_agree a c"
  by (simp add: mmu_agree_def)

lemma tc_coherent_frame:
  assumes "mmu_plain env" "tc_coherent env" "mmu_agree e env" "tc_load e = tc_load env" "tc_store e = tc_store env"
    "tc_fetch e = tc_fetch env"
  shows "tc_coherent e"
  using assms by (intro tc_coherent_agree [OF assms(1,3,2)]) (simp_all add: tc_coherent_def)

lemma mem_ok_frame:
  assumes "mem_ok env" "mmu_agree e env" "tc_load e = tc_load env" "tc_store e = tc_store env"
    "tc_fetch e = tc_fetch env" "io_devices e = io_devices env"
  shows "mem_ok e"
  using assms by (simp add: mem_ok_def mmu_plain_agree [of e env] tc_coherent_frame [of env e] io_no_exn_def)

lemma store_pa_cases:
  assumes "mem_ok env"
  shows "(translate MMU_DATA_STORE va env = Ret pa env \<longrightarrow>
      (\<exists>env'. store_pa va env = Ret (pa, is_io pa) env' \<and> mem_ok env' \<and> mmu_agree env' env \<and> ram env' = ram env
         \<and> ram_size env' = ram_size env \<and> devs env' = devs env))
    \<and> (store_pa va env = Exn e \<longleftrightarrow> translate MMU_DATA_STORE va env = Exn e)"
proof -
  have p: "mmu_plain env" "tc_coherent env" "io_no_exn env" using assms by (simp_all add: mem_ok_def)
  have ok: "\<forall>i. tc_entry_ok MMU_DATA_STORE (\<lambda>pa. \<not> is_io pa) (tc_store env i) env"
    using p(2) by (simp add: tc_coherent_def)
  have "\<exists>env'. store_pa va env = Ret (pa, is_io pa) env' \<and> mem_ok env' \<and> mmu_agree env' env \<and> ram env' = ram env
      \<and> ram_size env' = ram_size env \<and> devs env' = devs env"
    if t: "translate MMU_DATA_STORE va env = Ret pa env"
  proof -
    have "\<exists>ha io env'. store_pa va env = Ret (ha, io) env'"
      using t by (auto simp: store_port.lookup_eq)
    then obtain ha io env' where s: "store_pa va env = Ret (ha, io) env'" by blast
    note r = store_pa_Ret [OF p(1,2) s]
    obtain f where f: "env' = env\<lparr>tc_store := f\<rparr>" using r(3) by blast
    have "mmu_agree env' env" unfolding f by (rule store_port.put_agree)
    moreover have "mem_ok env'"
      using p r(4) mmu_plain_agree [OF \<open>mmu_agree env' env\<close>] f by (simp add: mem_ok_def io_no_exn_def)
    ultimately show ?thesis using s r(1,2) t f by simp
  qed
  then show ?thesis using store_port.lookup_Exn [OF p(1) ok] by blast
qed

lemma store_pa_Exn: "mem_ok env \<Longrightarrow> store_pa va env = Exn e \<longleftrightarrow> translate MMU_DATA_STORE va env = Exn e"
  using store_pa_cases by blast

lemma st_b_step:
  assumes "mem_ok env" and "translate MMU_DATA_STORE va env = Ret pa env"
  shows "st_b va v env \<noteq> Exn e"
    and "st_b va v env = Ret () env' \<Longrightarrow> mem_ok env' \<and> mmu_agree env' env"
proof -
  obtain e1 where s: "store_pa va env = Ret (pa, is_io pa) e1" "mem_ok e1" "mmu_agree e1 env"
    using store_pa_cases [OF assms(1)] assms(2) by blast
  have n: "io_no_exn e1" using s(2) by (simp add: mem_ok_def)
  show "st_b va v env \<noteq> Exn e"
    using io_write_no_exn [OF n] by (simp add: st_b_def s ram_stb_def ram_st_def)
  show "mem_ok env' \<and> mmu_agree env' env" if "st_b va v env = Ret () env'"
  proof (cases "is_io pa")
    case True
    then have "do_io_st pa (take_bit 8 v) 1 e1 = Ret () env'" using that by (simp add: st_b_def s)
    then show ?thesis using do_io_st_frame [of _ _ _ e1 env'] mem_ok_frame [OF s(2)] mmu_agree_trans s(3) by blast
  next
    case False
    then have "ram_st 1 pa (take_bit 8 v) e1 = Ret () env'" using that by (simp add: st_b_def s ram_stb_def)
    then show ?thesis using ram_st_frame [of _ _ _ e1 env'] mem_ok_frame [OF s(2)] mmu_agree_trans s(3) by blast
  qed
qed

lemma translate_agree_plain:
  assumes "mmu_plain env" "mmu_agree e env" "translate acc a env = Ret pa env"
  shows "translate acc a e = Ret pa e"
  using assms by (intro translate_agree [of e env]) (simp_all add: mmu_plain_def)

lemma st_bytes_no_exn:
  assumes "mem_ok env" and "\<forall>i < n. \<exists>pa. translate MMU_DATA_STORE (va + of_nat i) env = Ret pa env"
  shows "st_bytes n va v env \<noteq> Exn e"
  using assms
proof (induction n arbitrary: env)
  case (Suc n)
  obtain pa where t: "translate MMU_DATA_STORE (va + of_nat n) env = Ret pa env" using Suc.prems(2) by blast
  note s = st_b_step [OF Suc.prems(1) t, of "drop_bit (8 * n) v AND 0xff"]
  show ?case
  proof (cases "st_b (va + of_nat n) (drop_bit (8 * n) v AND 0xff) env")
    case (Ret u env')
    then have e: "mem_ok env'" "mmu_agree env' env" using s(2) [of env'] by simp_all
    have "\<forall>i < n. \<exists>pa. translate MMU_DATA_STORE (va + of_nat i) env' = Ret pa env'"
      using Suc.prems e translate_agree_plain [of env env'] by (metis less_Suc_eq mem_ok_def)
    then show ?thesis using Suc.IH [OF e(1)] Ret by simp
  qed (use s in simp_all)
qed simp

lemma gpa_no_ptw:
  assumes "\<not> enable_hw_ptw env"
  shows "get_physical_address a acc m env = Crash \<or> (\<exists>r. get_physical_address a acc m env = Ret r env)"
proof -
  have "tlb_lookup a acc m env = Crash \<or> (\<exists>r. tlb_lookup a acc m env = Ret r env)"
    by (auto simp: tlb_lookup_def loongarch_tlb_search_def Let_def split: option.split)
  then have "loongarch_map_address a acc m env = Crash \<or> (\<exists>r. loongarch_map_address a acc m env = Ret r env)"
  proof
    assume "\<exists>r. tlb_lookup a acc m env = Ret r env"
    then obtain r where "tlb_lookup a acc m env = Ret r env" by blast
    then show ?thesis
      using assms by (cases r) (auto simp: loongarch_map_address_def map_address_rounds.simps [of "Suc 0"])
  qed (simp add: loongarch_map_address_def map_address_rounds.simps [of "Suc 0"])
  then show ?thesis by (auto simp: get_physical_address_def Let_def split: option.split)
qed

lemma raise_frame:
  assumes "\<not> enable_hw_ptw env"
  shows "ram (raise_mmu_exception a acc r env) = ram env \<and> devs (raise_mmu_exception a acc r env) = devs env
    \<and> gpr (raise_mmu_exception a acc r env) = gpr env \<and> pc (raise_mmu_exception a acc r env) = pc env"
proof -
  have f: "ram (helper_invtlb_page_asid_or_g i a e) = ram e" "devs (helper_invtlb_page_asid_or_g i a e) = devs e"
    "gpr (helper_invtlb_page_asid_or_g i a e) = gpr e" "pc (helper_invtlb_page_asid_or_g i a e) = pc e"
    for i a and e :: "'a machine"
    by (simp_all add: helper_invtlb_page_asid_or_g_def tlb_flush_def cpu_clear_tc_def invalidate_where_def Let_def)
  show ?thesis unfolding raise_mmu_exception_def Let_def set_tlbrehi_vppn_def by (simp add: f)
qed

lemma translate_Exn_frame:
  assumes "\<not> enable_hw_ptw env" and "translate acc va env = Exn e"
  shows "ram e = ram env \<and> devs e = devs env \<and> gpr e = gpr env \<and> pc e = pc env"
proof -
  obtain r pa prot where "get_physical_address va acc (access_mmu_idx env) env = Ret (r, pa, prot) env"
    using assms gpa_no_ptw [OF assms(1), of va acc "access_mmu_idx env"]
    by (auto simp: translate_def check_get_physical_address_def)
  then have "e = raise_mmu_exception va acc r env"
    using assms(2) by (auto simp: translate_def check_get_physical_address_def split: if_splits)
  then show ?thesis using raise_frame [OF assms(1)] by blast
qed

lemma translate_no_Exit: "\<not> enable_hw_ptw env \<Longrightarrow> translate acc a env \<noteq> Exit e"
  using gpa_no_ptw [of env a acc "access_mmu_idx env"]
  by (auto simp: translate_def check_get_physical_address_def split: prod.splits if_splits)

lemma st_body_Exn:
  assumes ok: "mem_ok env" and n: "0 < n" "n \<le> 8"
    and acc: "\<And>ha e e'. ram_access ha v e \<noteq> Exn e'"
    and x: "st_body n ram_access va v env = Exn env'"
  shows "ram env' = ram env \<and> devs env' = devs env \<and> gpr env' = gpr env \<and> pc env' = pc env"
proof (cases "store_pa va env")
  case (Ret hio e1)
  have p: "mmu_plain env" "tc_coherent env" using ok by (simp_all add: mem_ok_def)
  obtain ha io where hio: "hio = (ha, io)" by (cases hio)
  note r = store_pa_Ret [OF p Ret [unfolded hio]]
  have s: "mem_ok e1" "mmu_agree e1 env" "ram e1 = ram env" "devs e1 = devs env" "gpr e1 = gpr env" "pc e1 = pc env"
    using store_pa_cases [OF ok, of va ha] r Ret by auto
  have "\<not> io" "\<not> is_aligned va (of_nat n)" and b: "st_bytes n va v e1 = Exn env'"
    using x acc io_write_no_exn [of e1] s(1) by (auto simp: st_body_def Ret hio mem_ok_def split: if_splits)
  have first: "translate MMU_DATA_STORE va e1 = Ret ha e1"
    using translate_agree_plain [OF p(1) s(2) r(1)] .
  obtain k where k: "n = Suc k" using n by (cases n) auto
  have pe1: "mmu_plain e1" "\<not> enable_hw_ptw e1" using s(1) by (simp_all add: mem_ok_def mmu_plain_def)
  show ?thesis
  proof (cases "translate MMU_DATA_STORE (va + of_nat k) e1")
    case (Ret pa e2)
    then have e2: "translate MMU_DATA_STORE (va + of_nat k) e1 = Ret pa e1"
      using translate_env [OF pe1(1)] by auto
    have "\<exists>pa. translate MMU_DATA_STORE (va + of_nat i) e1 = Ret pa e1" if "i < n" for i
      using byte_page [OF that, of va] n(2) k translate_page [OF pe1(1) same_page_sym first, of "va + of_nat i"]
        translate_page [OF pe1(1) same_page_sym e2, of "va + of_nat i"] by auto
    then show ?thesis using st_bytes_no_exn [OF s(1)] b by blast
  next
    case (Exn e2)
    then have "st_b (va + of_nat k) (drop_bit (8 * k) v AND 0xff) e1 = Exn e2"
      using store_pa_Exn [OF s(1), THEN iffD2, OF Exn] by (simp add: st_b_def)
    then have "env' = e2" using b k by simp
    then show ?thesis using translate_Exn_frame [OF pe1(2) Exn] s by simp
  next
    case (Exit e2)
    then show ?thesis using translate_no_Exit [OF pe1(2)] by blast
  next
    case Crash
    then have "store_pa (va + of_nat k) e1 = Crash"
      using s(1) by (intro store_port.lookup_Crash) (simp_all add: mem_ok_def tc_coherent_def)
    then show ?thesis using b k by (simp add: st_b_def)
  qed
next
  case (Exn e)
  then have "translate MMU_DATA_STORE va env = Exn e" using store_pa_Exn [OF ok] by blast
  moreover have "env' = e" using x Exn by (simp add: st_body_def)
  ultimately show ?thesis
    using translate_Exn_frame [of env] ok by (simp add: mem_ok_def mmu_plain_def)
qed (use x in \<open>simp_all add: st_body_def\<close>)

section \<open>A load after a store\<close>

lemma aligned_add_or:
  assumes "take_bit 12 q = 0" and "j < 4096"
  shows "q + of_nat j = (q OR of_nat j :: u64)" "\<And>n. 12 \<le> n \<Longrightarrow> \<not> bit (of_nat j :: u64) n"
    "\<And>n. n < 12 \<Longrightarrow> \<not> bit q n"
proof -
  have j: "take_bit 12 (of_nat j :: u64) = of_nat j"
    using assms(2) by (simp add: take_bit_of_nat take_bit_nat_eq_self)
  show q: "\<not> bit q n" if "n < 12" for n
    using assms(1) that by (metis bit_take_bit_iff bit_0_eq bot_apply bot_bool_def)
  show jn: "\<not> bit (of_nat j :: u64) n" if "12 \<le> n" for n using j that by (metis bit_take_bit_iff not_le)
  have "q AND of_nat j = 0" by (rule bit_word_eqI) (use q jn in \<open>auto simp: bit_simps not_le [symmetric]\<close>)
  then show "q + of_nat j = (q OR of_nat j :: u64)" by (simp add: disjunctive_add_eq_or)
qed

lemma same_page_offset:
  assumes "take_bit 12 q = 0" and "off < 4096" and "i < 4096" and "same_page (q + of_nat (off + i)) (q :: u64)"
  shows "off + i < 4096"
proof (rule ccontr)
  assume "\<not> off + i < 4096"
  then obtain k where k: "off + i = 4096 + k" "k < 4096" using assms by (metis add_less_mono le_add_diff_inverse mult_2 nat_add_left_cancel_less not_less numeral_Bit0)
  have "q = push_bit 12 (drop_bit 12 q)" using bits_ident [of 12 q] assms(1) by simp
  then have "q + 4096 = push_bit 12 (drop_bit 12 q + 1)" by (simp add: push_bit_add)
  then have r: "take_bit 12 (q + 4096) = 0" by (simp only: take_bit_push_bit) simp
  have "q + of_nat (off + i) = (q + 4096) + of_nat k" unfolding k by simp
  then have "same_page (q + 4096) q"
    using add_in_page [OF r k(2)] assms(4) same_page_sym same_page_trans by metis
  then have "bit (q + 4096) n = bit q n" for n
    using same_page_bit [of "q + 4096" q n] aligned_add_or(3) [OF r, of 0 n] aligned_add_or(3) [OF assms(1), of 0 n]
    by (cases "n < 12") simp_all
  then have "q + 4096 = q" by (intro bit_word_eqI) simp
  then show False by simp
qed

lemma in_page_add:
  assumes "in_page pa va = pa" and "same_page (va + of_nat i) va" and "i < 4096"
  shows "in_page pa (va + of_nat i) = pa + of_nat i"
proof -
  obtain q off where va: "va = q + of_nat off" "take_bit 12 q = 0" "off < 4096" by (rule page_base)
  obtain r off' where pa: "pa = r + of_nat off'" "take_bit 12 r = 0" "off' < 4096" by (rule page_base)
  have "same_page va q" unfolding va(1) by (rule add_in_page [OF va(2,3)])
  then have oi: "off + i < 4096"
    using assms(2,3) va same_page_trans by (intro same_page_offset [of q]) (auto simp: add.assoc)
  have "take_bit 12 (of_nat off' :: u64) = take_bit 12 (of_nat off)"
  proof (rule bit_word_eqI)
    fix n :: nat
    have "bit pa n = bit va n" if "n < 12" using assms(1) that bit_in_page [of pa va n] by simp
    then show "bit (take_bit 12 (of_nat off' :: u64)) n = bit (take_bit 12 (of_nat off :: u64)) n"
      unfolding bit_take_bit_iff va(1) pa(1) aligned_add_or(1) [OF va(2,3)] aligned_add_or(1) [OF pa(2,3)] bit_or_iff
      using aligned_add_or(3) [OF va(2,3)] aligned_add_or(3) [OF pa(2,3)] by blast
  qed
  then have off: "off' = off"
    using va(3) pa(3) unat_take_bit [of 12 "of_nat off :: u64"] unat_take_bit [of 12 "of_nat off' :: u64"]
    by (simp add: unat_of_nat take_bit_nat_eq_self)
  have v: "va + of_nat i = q OR of_nat (off + i)" and p: "pa + of_nat i = r OR of_nat (off + i)"
    using aligned_add_or(1) [OF va(2) oi] aligned_add_or(1) [OF pa(2) oi] va(1) pa(1) off by (simp_all add: add.assoc)
  show ?thesis unfolding p
    by (rule bit_word_eqI)
      (use aligned_add_or(2,3) [OF va(2) oi] aligned_add_or(3) [OF pa(2) oi] aligned_add_or(1,2) [OF pa(2,3)] pa(1)
        in \<open>simp only: bit_in_page v bit_or_iff if_split, auto simp: bit_or_iff\<close>)
qed

lemma load_pa_ok:
  assumes "mem_ok env" and "translate MMU_DATA_LOAD va env = Ret pa env"
  obtains env' where "load_pa va env = Ret (pa, is_io pa) env'" and "mem_same env' env" and "ram env' = ram env"
proof -
  have p: "mmu_plain env" "tc_coherent env" "io_no_exn env" using assms(1) by (simp_all add: mem_ok_def)
  have "\<exists>ha io env'. load_pa va env = Ret (ha, io) env'"
    using assms(2) by (auto simp: load_port.lookup_eq)
  then obtain ha io env' where s: "load_pa va env = Ret (ha, io) env'" by blast
  note r = load_pa_Ret [OF p(1,2) s]
  obtain f where f: "env' = env\<lparr>tc_load := f\<rparr>" using r(3) by blast
  have "mmu_agree env' env" unfolding f by (rule load_port.put_agree)
  moreover have "mem_ok env'"
    using p r(4) mmu_plain_agree [OF \<open>mmu_agree env' env\<close>] f by (simp add: mem_ok_def io_no_exn_def)
  ultimately show thesis using s r(1,2) assms(2) f by (intro that [of env']) (simp_all add: mem_same_def)
qed

lemma store_pa_ok:
  assumes "mem_ok env" and "translate MMU_DATA_STORE va env = Ret pa env"
  obtains env' where "store_pa va env = Ret (pa, is_io pa) env'" and "mem_same env' env" and "ram env' = ram env"
  using store_pa_cases [OF assms(1)] assms(2) unfolding mem_same_def by blast

lemma mem_same_trans: "mem_same a b \<Longrightarrow> mem_same b c \<Longrightarrow> mem_same a c"
  by (auto simp: mem_same_def intro: mmu_agree_trans)

lemma mem_same_translate:
  "mem_same e' e \<Longrightarrow> mem_ok e \<Longrightarrow> translate acc a e = Ret pa e \<Longrightarrow> translate acc a e' = Ret pa e'"
  by (auto simp: mem_same_def mem_ok_def intro: translate_agree_plain)

lemma mem_same_ram: "mem_same e' e \<Longrightarrow> addr_in_ram e' a = addr_in_ram e a" "mem_same e' e \<Longrightarrow> ram_ok n a e' = ram_ok n a e"
  by (simp_all add: mem_same_def addr_in_ram_def ram_ok_def)

lemma ram_st_same:
  assumes "mem_ok e" and "ram_ok n a e"
  obtains e' where "ram_st n a v e = Ret () e'" and "mem_same e' e" and "ram e' = store_bytes a (le_bytes n v) (ram e)"
proof -
  let ?e = "e\<lparr>ram := store_bytes a (le_bytes n v) (ram e)\<rparr>"
  have st: "ram_st n a v e = Ret () ?e" using assms by (simp add: ram_st_def)
  moreover have "mem_same ?e e"
    using ram_st_frame [OF st] mem_ok_frame [OF assms(1)] by (simp add: mem_same_def)
  ultimately show thesis by (intro that [of ?e]) simp_all
qed

text \<open>Byte \<open>i\<close> of the access at \<open>va\<close> is RAM at \<open>p i\<close>.\<close>

lemma bytes_at_same: "bytes_at acc n va p e \<Longrightarrow> mem_ok e \<Longrightarrow> mem_same e' e \<Longrightarrow> bytes_at acc n va p e'"
  using mem_same_translate mem_same_ram(1) by (fastforce simp: bytes_at_def)

lemma store_bytes_1: "store_bytes a [b] m = m(a := b)"
  by (rule ext) (auto simp: store_bytes_def unat_eq_0)

lemma st_b_ram:
  assumes "mem_ok e" and "translate MMU_DATA_STORE va e = Ret pa e" and "\<not> is_io pa" and "addr_in_ram e pa"
  obtains e' where "st_b va v e = Ret () e'" and "mem_same e' e" and "ram e' = (ram e)(pa := ucast v)"
proof -
  obtain e1 where e1: "store_pa va e = Ret (pa, is_io pa) e1" "mem_same e1 e" "ram e1 = ram e"
    using assms(1,2) by (rule store_pa_ok)
  have ok: "mem_ok e1" "ram_ok 1 pa e1" using e1 assms(4) by (simp_all add: mem_same_def ram_ok_def addr_in_ram_def)
  obtain e2 where e2: "ram_st 1 pa (take_bit 8 v) e1 = Ret () e2" "mem_same e2 e1"
      "ram e2 = store_bytes pa (le_bytes 1 (take_bit 8 v)) (ram e1)"
    using ok by (rule ram_st_same)
  have "(ucast (take_bit 8 v) :: u8) = ucast v" by (rule bit_word_eqI) (simp add: bit_simps)
  then show thesis
    using e1 e2 assms(3) mem_same_trans by (intro that [of e2]) (auto simp: st_b_def ram_stb_def store_bytes_1)
qed

lemma st_bytes_ram:
  assumes "mem_ok e" and "bytes_at MMU_DATA_STORE n va p e" and "inj_on p {..<n}" and "n \<le> 8"
  shows "\<exists>e'. st_bytes n va v e = Ret () e' \<and> mem_same e' e
    \<and> (\<forall>i < n. ram e' (p i) = ucast (drop_bit (8 * i) v)) \<and> (\<forall>a. a \<notin> p ` {..<n} \<longrightarrow> ram e' a = ram e a)"
  using assms
proof (induction n arbitrary: e)
  case 0
  then show ?case by (simp add: mem_same_def)
next
  case (Suc n)
  obtain e1 where e1: "st_b (va + of_nat n) (drop_bit (8 * n) v AND 0xff) e = Ret () e1" "mem_same e1 e"
      "ram e1 = (ram e)(p n := ucast (drop_bit (8 * n) v AND 0xff))"
    using st_b_ram [OF Suc.prems(1), of "va + of_nat n" "p n"] Suc.prems(2) unfolding bytes_at_def by blast
  have b: "(ucast (drop_bit (8 * n) v AND 0xff) :: u8) = ucast (drop_bit (8 * n) v)"
    unfolding and_0xff by (rule bit_word_eqI) (simp add: bit_simps)
  have "mem_ok e1" "bytes_at MMU_DATA_STORE n va p e1" "inj_on p {..<n}" "n \<le> 8"
    using e1(2) bytes_at_same [OF Suc.prems(2,1) e1(2)] Suc.prems(3,4)
    by (auto simp: mem_same_def bytes_at_def intro: inj_on_subset)
  from Suc.IH [OF this] obtain e2 where e2: "st_bytes n va v e1 = Ret () e2" "mem_same e2 e1"
      "\<forall>i < n. ram e2 (p i) = ucast (drop_bit (8 * i) v)" "\<forall>a. a \<notin> p ` {..<n} \<longrightarrow> ram e2 a = ram e1 a" by blast
  have "p n \<noteq> p x" if "x < n" for x using Suc.prems(3) that inj_onD [of p "{..<Suc n}" n x] by auto
  then have "p n \<notin> p ` {..<n}" by auto
  then have "ram e2 (p n) = ucast (drop_bit (8 * n) v)" using e2(4) e1(3) b by simp
  then have "\<forall>i < Suc n. ram e2 (p i) = ucast (drop_bit (8 * i) v)" using e2(3) by (auto simp: less_Suc_eq)
  moreover have "\<forall>a. a \<notin> p ` {..<Suc n} \<longrightarrow> ram e2 a = ram e a" using e2(4) e1(3) by (auto simp: lessThan_Suc)
  ultimately show ?case using e1 e2 mem_same_trans by auto
qed

lemma bit_u8_imp_le: "bit (b :: u8) n \<Longrightarrow> n < 8"
  using bit_imp_le_length by fastforce

lemma sext_8_byte: "sext 8 (sext 8 (ucast b)) AND 0xff = (ucast (b :: u8) :: u64)"
proof -
  have le: "bit b n \<Longrightarrow> n < 8" for n by (rule bit_u8_imp_le)
  have 7: "n < 8 \<Longrightarrow> 7 \<le> n \<Longrightarrow> n = 7" for n :: nat by simp
  show ?thesis unfolding and_0xff
    by (rule bit_word_eqI) (auto simp: sext_def bit_simps min_def dest: le 7)
qed

lemma ld_b_ram:
  assumes "mem_ok e" and "translate MMU_DATA_LOAD va e = Ret pa e" and "\<not> is_io pa" and "addr_in_ram e pa"
  obtains e' where "ld_b va e = Ret (sext 8 (sext 8 (ucast (ram e pa)))) e'" and "mem_same e' e" and "ram e' = ram e"
proof -
  obtain e1 where e1: "load_pa va e = Ret (pa, is_io pa) e1" "mem_same e1 e" "ram e1 = ram e"
    using assms(1,2) by (rule load_pa_ok)
  have "ram_ok 1 pa e1" using e1 assms(4) by (simp add: mem_same_def ram_ok_def addr_in_ram_def)
  then show thesis
    using e1 assms(3) by (intro that [of e1]) (simp_all add: ld_b_def ram_ldb_def ram_ld_def)
qed

lemma ld_bytes_ram:
  assumes "mem_ok e" and "bytes_at MMU_DATA_LOAD n va p e" and "n \<le> 8"
  shows "\<exists>x e'. ld_bytes n va d e = Ret x e' \<and> mem_same e' e \<and> ram e' = ram e
    \<and> (\<forall>m. bit x m \<longleftrightarrow> bit d m \<or> (m < 8 * n \<and> bit (ram e (p (m div 8))) (m mod 8)))"
  using assms
proof (induction n arbitrary: e d)
  case 0
  then show ?case by (simp add: mem_same_def)
next
  case (Suc n)
  obtain e1 where e1: "ld_b (va + of_nat n) e = Ret (sext 8 (sext 8 (ucast (ram e (p n))))) e1" "mem_same e1 e" "ram e1 = ram e"
    using ld_b_ram [OF Suc.prems(1), of "va + of_nat n" "p n"] Suc.prems(2) unfolding bytes_at_def by blast
  let ?d = "d OR push_bit (8 * n) (ucast (ram e (p n)))"
  have "mem_ok e1" "bytes_at MMU_DATA_LOAD n va p e1" "n \<le> 8"
    using e1(2) bytes_at_same [OF Suc.prems(2,1) e1(2)] Suc.prems(3) by (auto simp: mem_same_def bytes_at_def)
  from Suc.IH [OF this, of ?d] obtain x e2 where x: "ld_bytes n va ?d e1 = Ret x e2" "mem_same e2 e1" "ram e2 = ram e1"
      "\<forall>m. bit x m \<longleftrightarrow> bit ?d m \<or> (m < 8 * n \<and> bit (ram e1 (p (m div 8))) (m mod 8))" by blast
  have "bit x m \<longleftrightarrow> bit d m \<or> (m < 8 * Suc n \<and> bit (ram e (p (m div 8))) (m mod 8))" for m
  proof -
    have d: "bit ?d m \<longleftrightarrow> bit d m \<or> (8 * n \<le> m \<and> m < 64 \<and> bit (ram e (p n)) (m - 8 * n))"
      by (auto simp: bit_simps)
    consider "m < 8 * n" | "8 * n \<le> m" "m < 8 * n + 8" | "8 * n + 8 \<le> m" by linarith
    then show ?thesis
    proof cases
      case 1
      then show ?thesis unfolding x(4) [rule_format] d e1(3) by simp
    next
      case 2
      then have "m div 8 = n" "m mod 8 = m - 8 * n" by (simp_all add: div_nat_eqI modulo_nat_def)
      then show ?thesis unfolding x(4) [rule_format] d e1(3) using 2 Suc.prems(3) by simp
    next
      case 3
      then have "\<not> bit (ram e (p n)) (m - 8 * n)" using bit_u8_imp_le [of "ram e (p n)" "m - 8 * n"] by linarith
      then show ?thesis unfolding x(4) [rule_format] d e1(3) using 3 by simp
    qed
  qed
  moreover have "ld_bytes (Suc n) va d e = Ret x e2" using e1(1) x(1) by (simp only: ld_bytes.simps bind_out_simps sext_8_byte)
  ultimately show ?case
    using e1(2,3) x(2,3) mem_same_trans [of e2 e1 e] by auto
qed

lemma bytes_at_linear:
  assumes "mmu_plain e" and "bytes_at acc n va p e" and "is_aligned va (of_nat n)" and "0 < n" and "n \<le> 8" and "i < n"
  shows "p i = p 0 + of_nat i"
proof -
  have t: "translate acc (va + of_nat j) e = Ret (p j) e" if "j < n" for j using assms(2) that by (simp add: bytes_at_def)
  have t0: "translate acc va e = Ret (p 0) e" using t [of 0] assms(4) by simp
  have eq: "va + of_nat n - 1 = va + of_nat (n - 1)" using assms(4) by (cases n) simp_all
  have "same_page va (va + of_nat n - 1)"
    using assms(3) unfolding is_aligned_def is_one_page_def same_page_def .
  then have "same_page (va + of_nat (n - 1)) va" unfolding eq by (rule same_page_sym)
  then have same: "same_page (va + of_nat i) va"
    using byte_page [OF assms(6), of va] assms(5) same_page_trans by auto
  have "in_page (p 0) va = p 0" using translate_page [OF assms(1) _ t0, of va] t0 by simp
  then have "in_page (p 0) (va + of_nat i) = p 0 + of_nat i"
    using same assms(5,6) by (intro in_page_add) simp_all
  then show ?thesis
    using translate_page [OF assms(1) same_page_sym [OF same] t0] t [OF assms(6)] by simp
qed

lemma bytes_at_ram_ok:
  assumes "mmu_plain e" and "bytes_at acc n va p e" and "is_aligned va (of_nat n)" and "0 < n" and "n \<le> 8"
  shows "ram_ok n (p 0) e"
proof -
  have "addr_in_ram e (p 0 + of_nat i)" if "i < n" for i
    using bytes_at_linear [OF assms that] assms(2) that unfolding bytes_at_def by metis
  then show ?thesis by (simp add: ram_ok_def list_all_iff)
qed

lemma roundtrip_body:
  assumes ok: "mem_ok e" and m: "mapped n va p e" and n: "0 < n" "n \<le> 8"
    and f: "\<And>x. take_bit (8 * n) (f x) = take_bit (8 * n) x"
  shows "\<exists>e' x e''. st_body n (ram_st n) va v e = Ret () e'
    \<and> ld_body n (\<lambda>ha e. bind_out (ram_ld n ha e) (\<lambda>x. Ret (f x))) va e' = Ret x e''
    \<and> take_bit (8 * n) x = take_bit (8 * n) v"
proof -
  have pl: "mmu_plain e" using ok by (simp add: mem_ok_def)
  have ms: "bytes_at MMU_DATA_STORE n va p e" and ml: "bytes_at MMU_DATA_LOAD n va p e" and inj: "inj_on p {..<n}"
    using m by (simp_all add: mapped_def)
  have t0: "translate MMU_DATA_STORE va e = Ret (p 0) e" "translate MMU_DATA_LOAD va e = Ret (p 0) e" "\<not> is_io (p 0)"
    using ms ml n(1) by (auto simp: bytes_at_def dest: spec [of _ 0])
  obtain e1 where e1: "store_pa va e = Ret (p 0, is_io (p 0)) e1" "mem_same e1 e" "ram e1 = ram e"
    using ok t0(1) by (rule store_pa_ok)
  show ?thesis
  proof (cases "is_aligned va (of_nat n)")
    case True
    have "ram_ok n (p 0) e" by (rule bytes_at_ram_ok [OF pl ms True n])
    then have r: "mem_ok e1" "ram_ok n (p 0) e1" using e1 mem_same_ram(2) [OF e1(2)] by (simp_all add: mem_same_def)
    obtain e2 where e2: "ram_st n (p 0) v e1 = Ret () e2" "mem_same e2 e1" using r by (rule ram_st_same) blast
    have s2: "mem_same e2 e" "mem_ok e2" using mem_same_trans [OF e2(2) e1(2)] e2(2) by (simp_all add: mem_same_def)
    obtain e3 where e3: "load_pa va e2 = Ret (p 0, is_io (p 0)) e3" "mem_same e3 e2" "ram e3 = ram e2"
      using s2(2) mem_same_translate [OF s2(1) ok t0(2)] by (rule load_pa_ok)
    have "ram_ld n (p 0) e2 = Ret (take_bit (8 * n) v) e2" using e2(1) n(2) by (rule ram_ld_after_st)
    then have "ram_ld n (p 0) e3 = Ret (take_bit (8 * n) v) e3"
      using e3(2,3) mem_same_ram(2) [OF e3(2)] by (simp add: ram_ld_def split: if_splits)
    then show ?thesis
      using e1 e2 e3 True t0(3) f by (auto simp: st_body_def ld_body_def)
  next
    case False
    have b: "mem_ok e1" "bytes_at MMU_DATA_STORE n va p e1"
      using e1(2) bytes_at_same [OF ms ok e1(2)] by (simp_all add: mem_same_def)
    obtain e2 where e2: "st_bytes n va v e1 = Ret () e2" "mem_same e2 e1"
        "\<forall>i < n. ram e2 (p i) = ucast (drop_bit (8 * i) v)"
      using st_bytes_ram [OF b inj n(2)] by blast
    have s2: "mem_same e2 e" "mem_ok e2" using mem_same_trans [OF e2(2) e1(2)] e2(2) by (simp_all add: mem_same_def)
    obtain e3 where e3: "load_pa va e2 = Ret (p 0, is_io (p 0)) e3" "mem_same e3 e2" "ram e3 = ram e2"
      using s2(2) mem_same_translate [OF s2(1) ok t0(2)] by (rule load_pa_ok)
    have s3: "mem_same e3 e" "mem_ok e3" using mem_same_trans [OF e3(2) s2(1)] e3(2) by (simp_all add: mem_same_def)
    obtain x e4 where x: "ld_bytes n va 0 e3 = Ret x e4"
        "\<forall>m. bit x m \<longleftrightarrow> bit (0 :: u64) m \<or> (m < 8 * n \<and> bit (ram e3 (p (m div 8))) (m mod 8))"
      using ld_bytes_ram [OF s3(2) bytes_at_same [OF ml ok s3(1)] n(2), of 0] by blast
    have "take_bit (8 * n) x = take_bit (8 * n) v"
    proof (rule bit_word_eqI)
      fix m :: nat
      assume "m < LENGTH(64)"
      have "bit (ram e3 (p (m div 8))) (m mod 8) = bit v m" if "m < 8 * n"
      proof -
        have "ram e3 (p (m div 8)) = ucast (drop_bit (8 * (m div 8)) v)" using that e2(3) e3(3) by simp
        then show ?thesis by (simp add: bit_simps)
      qed
      then show "bit (take_bit (8 * n) x) m = bit (take_bit (8 * n) v) m"
        using x(2) by (auto simp: bit_take_bit_iff)
    qed
    then show ?thesis using e1 e2 e3 x(1) False t0(3) by (auto simp: st_body_def ld_body_def)
  qed
qed

lemma bit_sext: "0 < n \<Longrightarrow> bit (sext n x) m \<longleftrightarrow> m < 64 \<and> bit x (min (n - 1) m)"
  by (auto simp: sext_def bit_simps)

lemma sext_cong:
  assumes "0 < n" and "take_bit n x = take_bit n y"
  shows "sext n x = sext n y"
proof -
  have "bit x (min (n - 1) k) = bit y (min (n - 1) k)" for k
    using assms by (metis bit_take_bit_iff min.strict_coboundedI1 diff_less zero_less_one)
  then show ?thesis using assms(1) by (intro bit_word_eqI) (simp add: bit_sext)
qed

lemma sext_low: "0 < n \<Longrightarrow> take_bit n (sext n x) = take_bit n x"
proof -
  assume n: "0 < n"
  have "min (n - 1) k = k" if "k < n" for k using that by simp
  then show ?thesis using n by (intro bit_word_eqI) (auto simp: bit_take_bit_iff bit_sext)
qed

lemma sext_sext: "0 < n \<Longrightarrow> sext n (take_bit n x) = sext n x"
  by (rule sext_cong) simp_all

lemma ram_ld_Ret_id: "(\<lambda>ha e. bind_out (ram_ld n ha e) (\<lambda>x. Ret x)) = ram_ld n"
  by (intro ext) simp

lemma st_b_body: "st_b va v e = st_body 1 (ram_st 1) va (take_bit 8 v) e"
  unfolding st_b_def st_body_def ram_stb_def is_aligned_def is_one_page_def
  by (rule arg_cong [where f = "bind_out (store_pa va e)"]) (simp add: fun_eq_iff)

lemma ld_b_body: "ld_b va e = bind_out (ld_body 1 ram_ldb va e) (\<lambda>data. Ret (sext 8 data))"
  unfolding ld_b_def ld_body_def bind_out_assoc is_aligned_def is_one_page_def
  by (rule arg_cong [where f = "bind_out (load_pa va e)"]) (simp add: fun_eq_iff)

lemma cleared_coherent:
  assumes "\<And>i. tc_va (tc_load env i) = - 1 \<and> tc_va (tc_store env i) = - 1 \<and> tc_va (tc_fetch env i) = - 1"
  shows "tc_coherent env"
proof -
  have "va AND TARGET_PAGE_MASK \<noteq> - 1" for va
  proof
    assume "va AND TARGET_PAGE_MASK = - 1"
    then have "bit (va AND TARGET_PAGE_MASK) 0" by simp
    then show False by (simp add: bit_and_iff bit_page_mask del: bit_0)
  qed
  then show ?thesis using assms by (simp add: tc_coherent_def tc_entry_ok_def)
qed

lemma main_cpu_setup_tc:
  "tc_load (main_cpu_setup e m) i = \<lparr>tc_va = - 1, tc_pa = - 1\<rparr>"
  "tc_store (main_cpu_setup e m) i = \<lparr>tc_va = - 1, tc_pa = - 1\<rparr>"
  "tc_fetch (main_cpu_setup e m) i = \<lparr>tc_va = - 1, tc_pa = - 1\<rparr>"
  by (simp_all add: main_cpu_setup_def cpu_clear_tc_def Let_def)

lemma ld_w_body: "ld_w va e =
    bind_out (ld_body 4 (\<lambda>ha e. bind_out (ram_ld 4 ha e) (\<lambda>x. Ret (sext 32 x))) va e) (\<lambda>d. Ret (sext 32 d))"
  by (simp add: ld_w_def ram_ldw_def [abs_def])

lemma ld_h_body: "ld_h va e =
    bind_out (ld_body 2 (\<lambda>ha e. bind_out (ram_ld 2 ha e) (\<lambda>x. Ret (sext 16 x))) va e) (\<lambda>d. Ret (sext 16 d))"
  by (simp add: ld_h_def ram_ldh_def [abs_def])

lemma ld_d_body: "ld_d va e = ld_body 8 (ram_ld 8) va e"
  by (simp add: ld_d_def ram_ldd_def [abs_def])

lemma roundtrip_sext:
  assumes "mem_ok e" and "mapped n va p e" and "0 < n" and "n \<le> 8"
  shows "\<exists>e' e''. st_body n (ram_st n) va (take_bit (8 * n) v) e = Ret () e'
    \<and> bind_out (ld_body n (\<lambda>ha e. bind_out (ram_ld n ha e) (\<lambda>x. Ret (sext (8 * n) x))) va e') (\<lambda>d. Ret (sext (8 * n) d))
      = Ret (sext (8 * n) v) e''"
proof -
  have f: "take_bit (8 * n) (sext (8 * n) x) = take_bit (8 * n) x" for x using assms(3) by (simp add: sext_low)
  obtain e' x e'' where x: "st_body n (ram_st n) va (take_bit (8 * n) v) e = Ret () e'"
      "ld_body n (\<lambda>ha e. bind_out (ram_ld n ha e) (\<lambda>x. Ret (sext (8 * n) x))) va e' = Ret x e''"
      "take_bit (8 * n) x = take_bit (8 * n) (take_bit (8 * n) v)"
    using roundtrip_body [OF assms, of "sext (8 * n)" "take_bit (8 * n) v"] f by blast
  have "sext (8 * n) x = sext (8 * n) v" using x(3) assms(3) by (intro sext_cong) simp_all
  then show ?thesis using x(1,2) by simp
qed

section \<open>Properties\<close>

text \<open>(C6) The translation caches are transparent. In a machine without the hardware walker whose caches
  agree with the MMU, a lookup through a cache gives the physical address that the MMU gives and
  tells RAM from I/O correctly, faults exactly when the MMU faults, changes nothing but its cache, and leaves the
  caches in agreement. The caches of a machine that has just been set up agree with the MMU.\<close>

theorem caches_transparent:
  assumes "mmu_plain env" and "tc_coherent env"
  shows "(load_pa va env = Ret (ha, io) env' \<longrightarrow> translate MMU_DATA_LOAD va env = Ret ha env \<and> io = is_io ha
      \<and> env' = env\<lparr>tc_load := tc_load env'\<rparr> \<and> tc_coherent env')
    \<and> (store_pa va env = Ret (ha, io) env' \<longrightarrow> translate MMU_DATA_STORE va env = Ret ha env \<and> io = is_io ha
      \<and> env' = env\<lparr>tc_store := tc_store env'\<rparr> \<and> tc_coherent env')
    \<and> (fetch_pa va env = Ret ha env' \<longrightarrow> translate MMU_INST_FETCH va env = Ret ha env
      \<and> env' = env\<lparr>tc_fetch := tc_fetch env'\<rparr> \<and> tc_coherent env')
    \<and> (load_pa va env = Exn e \<longleftrightarrow> translate MMU_DATA_LOAD va env = Exn e)
    \<and> (store_pa va env = Exn e \<longleftrightarrow> translate MMU_DATA_STORE va env = Exn e)
    \<and> tc_coherent (main_cpu_setup entry_addr m)"
proof -
  have ok: "\<forall>i. tc_entry_ok MMU_DATA_LOAD (\<lambda>pa. \<not> is_io pa) (tc_load env i) env"
      "\<forall>i. tc_entry_ok MMU_DATA_STORE (\<lambda>pa. \<not> is_io pa) (tc_store env i) env"
    using assms(2) by (simp_all add: tc_coherent_def)
  have l: "translate MMU_DATA_LOAD va env = Ret ha env \<and> io = is_io ha \<and> env' = env\<lparr>tc_load := tc_load env'\<rparr> \<and> tc_coherent env'"
    if "load_pa va env = Ret (ha, io) env'"
    using load_pa_Ret [OF assms that] by (elim exE) simp
  have s: "translate MMU_DATA_STORE va env = Ret ha env \<and> io = is_io ha \<and> env' = env\<lparr>tc_store := tc_store env'\<rparr> \<and> tc_coherent env'"
    if "store_pa va env = Ret (ha, io) env'"
    using store_pa_Ret [OF assms that] by (elim exE) simp
  have f: "translate MMU_INST_FETCH va env = Ret ha env \<and> env' = env\<lparr>tc_fetch := tc_fetch env'\<rparr> \<and> tc_coherent env'"
    if "fetch_pa va env = Ret ha env'"
    using fetch_pa_Ret [OF assms that] by (elim exE) simp
  have c: "tc_coherent (main_cpu_setup entry_addr m)"
    by (rule cleared_coherent) (simp add: main_cpu_setup_tc)
  show ?thesis
    using l s f c load_port.lookup_Exn [OF assms(1) ok(1)] store_port.lookup_Exn [OF assms(1) ok(2)] by blast
qed

text \<open>(C5) Memory exceptions are precise, with coherent translation caches and the hardware walker off (\<open>mem_ok\<close>). A store of 1, 2, 4 or 8 bytes that raises a translation
  exception has changed neither memory nor a device, nor a register, also when it crosses a page and
  is made byte by byte: the second page is tried before anything is written.\<close>

theorem faulting_store_writes_nothing:
  assumes "mem_ok env"
    and "st_b va v env = Exn env' \<or> st_h va v env = Exn env' \<or> st_w va v env = Exn env' \<or> st_d va v env = Exn env'"
  shows "ram env' = ram env \<and> devs env' = devs env \<and> gpr env' = gpr env \<and> pc env' = pc env"
proof -
  have acc: "ram_st n ha x e \<noteq> Exn e'" for n ha x and e :: "'a machine" and e' by (simp add: ram_st_def)
  have "n \<in> {1, 2, 4, 8} \<Longrightarrow> st_body n (ram_st n) va x env = Exn env' \<Longrightarrow> ?thesis" for n x
    using st_body_Exn [OF assms(1) _ _ acc, where n = n and va = va and v = x and env' = env'] by auto
  then show ?thesis
    using assms(2) unfolding st_b_body st_h_def st_w_def st_d_def ram_sth_def [abs_def] ram_stw_def [abs_def] ram_std_def [abs_def]
    by blast
qed

text \<open>(C4) Memory keeps what is stored, through virtual addresses, with coherent translation caches and the hardware walker
  off (\<open>mem_ok\<close>). When the bytes of an access are RAM that
  the program may read and write, a store of 8, 4, 2 or 1 bytes returns, and the load of that
  size from the same address returns the value (sign-extended from its size), whether the access
  lies in one page or crosses into a page that is mapped elsewhere.\<close>

theorem store_load_roundtrip:
  assumes "mem_ok env"
  shows "(mapped 8 va p env \<longrightarrow> (\<exists>env' env''. st_d va v env = Ret () env' \<and> ld_d va env' = Ret v env''))
    \<and> (mapped 4 va p env \<longrightarrow> (\<exists>env' env''. st_w va v env = Ret () env' \<and> ld_w va env' = Ret (sext 32 v) env''))
    \<and> (mapped 2 va p env \<longrightarrow> (\<exists>env' env''. st_h va v env = Ret () env' \<and> ld_h va env' = Ret (sext 16 v) env''))
    \<and> (mapped 1 va p env \<longrightarrow> (\<exists>env' env''. st_b va v env = Ret () env' \<and> ld_b va env' = Ret (sext 8 v) env''))"
proof (intro conjI impI)
  show "\<exists>env' env''. st_d va v env = Ret () env' \<and> ld_d va env' = Ret v env''" if "mapped 8 va p env"
    using roundtrip_body [OF assms that, of "\<lambda>x. x" v]
    by (auto simp: ld_d_body st_d_def ram_std_def [abs_def] take_bit_word_eq_self)
  show "\<exists>env' env''. st_w va v env = Ret () env' \<and> ld_w va env' = Ret (sext 32 v) env''" if "mapped 4 va p env"
    using roundtrip_sext [OF assms that, of v] by (simp add: ld_w_body st_w_def ram_stw_def [abs_def])
  show "\<exists>env' env''. st_h va v env = Ret () env' \<and> ld_h va env' = Ret (sext 16 v) env''" if "mapped 2 va p env"
    using roundtrip_sext [OF assms that, of v] by (simp add: ld_h_body st_h_def ram_sth_def [abs_def])
  show "\<exists>env' env''. st_b va v env = Ret () env' \<and> ld_b va env' = Ret (sext 8 v) env''" if "mapped 1 va p env"
    using roundtrip_sext [OF assms that, of v] by (simp add: ld_b_body st_b_body ram_ldb_def [abs_def])
qed

lemma booted_mem_ok: "mem_ok (booted e)"
proof -
  have "mmu_plain (booted e)"
    using main_cpu_setup_la64 [of e "zeroed_machine 0x100000000 (replicate 16 empty_slot) ()"] booted_frame [of e]
    by (simp add: mmu_plain_def enable_hw_ptw_def entry_e_def main_cpu_setup_fields FIELD_EX64_zero)
  moreover have "tc_coherent (booted e)" by (rule cleared_coherent) (simp add: main_cpu_setup_tc)
  moreover have "io_no_exn (booted e)"
    by (simp add: io_no_exn_def main_cpu_setup_def cpu_reset_def loongarch_la464_initfn_def cpu_clear_tc_def
        zeroed_machine_def Let_def empty_slot_def)
  ultimately show ?thesis by (simp add: mem_ok_def)
qed

lemma booted_translate: "translate acc va (booted e) = Ret (take_bit 48 va) (booted e)"
proof -
  have "x AND TARGET_PHYS_MASK = take_bit 48 x" for x
    using virt_mask [of x] by (simp add: TARGET_PHYS_MASK_def TARGET_VIRT_MASK_def)
  then show ?thesis
    by (simp add: translate_def check_get_physical_address_def get_physical_address_def main_cpu_setup_fields)
qed

lemma load_pa_fill:
  assumes "tc_va (tc_load env (TC_INDEX va)) \<noteq> va AND TARGET_PAGE_MASK"
    and "translate MMU_DATA_LOAD va env = Ret ha env" and "\<not> is_io ha"
  obtains env' where "load_pa va env = Ret (ha, False) env'"
  using assms by (simp add: load_pa_def translate_def Let_def)

lemma booted_load: obtains env' where "load_pa 0x1234 (booted 0) = Ret (0x1234, False) env'"
proof -
  have "take_bit 48 0x1234 = (0x1234 :: u64)" "\<not> is_io 0x1234" by (simp_all add: take_bit_eq_mod is_io_def)
  then have t: "translate MMU_DATA_LOAD 0x1234 (booted 0) = Ret 0x1234 (booted 0)"
    using booted_translate [of MMU_DATA_LOAD "0x1234" 0] by simp
  have "tc_va (tc_load (booted 0) (TC_INDEX 0x1234)) \<noteq> 0x1234 AND TARGET_PAGE_MASK"
    by (simp add: main_cpu_setup_tc TARGET_PAGE_MASK_def TARGET_PAGE_BITS_def mask_eq_exp_minus_1)
  then show thesis using t \<open>\<not> is_io 0x1234\<close> that by (rule load_pa_fill)
qed

theorem caches_transparent_witness:
  "\<exists>env'. load_pa 0x1234 (booted 0) = Ret (0x1234, False) env' \<and> tc_coherent env'
    \<and> translate MMU_DATA_LOAD 0x1234 (booted 0) = Ret 0x1234 (booted 0)"
proof -
  have ok: "mmu_plain (booted 0)" "tc_coherent (booted 0)" using booted_mem_ok [of 0] by (simp_all add: mem_ok_def)
  obtain env' where "load_pa 0x1234 (booted 0) = Ret (0x1234, False) env'" by (rule booted_load)
  then show ?thesis using caches_transparent [OF ok, of "0x1234" "0x1234" False env'] by blast
qed

text \<open>A machine in mapped mode with no window and an empty TLB: every translation faults.\<close>

abbreviation unmapped :: "(regno \<Rightarrow> u64) \<Rightarrow> unit machine" where
  "unmapped g \<equiv> (booted 0)\<lparr>CSR_CRMD := 0x10, CSR_DMW := \<lambda>_. 0, gpr := g\<rparr>"

lemma unmapped_faults:
  shows "mem_ok (unmapped g)" and "sextract64 va 48 16 \<in> {0, - 1} \<Longrightarrow> \<exists>e. translate acc va (unmapped g) = Exn e"
proof -
  have la: "is_la64 (unmapped g)" and ptw: "\<not> enable_hw_ptw (unmapped g)"
    using booted_frame [of 0] main_cpu_setup_la64 [of 0 "zeroed_machine 0x100000000 (replicate 16 empty_slot) ()"]
    by (simp_all add: is_la64_def enable_hw_ptw_def FIELD_EX64_zero)
  have e: "\<not> entry_e (unmapped g) i" for i by (simp add: entry_e_def main_cpu_setup_fields FIELD_EX64_zero)
  have "io_no_exn (unmapped g)" using booted_mem_ok [of 0] by (simp add: mem_ok_def io_no_exn_def)
  moreover have "tc_coherent (unmapped g)" by (rule cleared_coherent) (simp add: main_cpu_setup_tc)
  ultimately show "mem_ok (unmapped g)" using la ptw e booted_frame [of 0] by (simp add: mem_ok_def mmu_plain_def)
  assume va: "sextract64 va 48 16 \<in> {0, - 1}"
  show "\<exists>e. translate acc va (unmapped g) = Exn e"
    unfolding translate_def
    by (rule exI, rule miss_raises_refill [OF la ptw])
      (use va in \<open>simp_all add: e field_defs FIELD_EX64_def extract64_eq_take_bit dmw_hit_def Let_def tlb_hit_def\<close>)
qed

theorem faulting_store_writes_nothing_witness:
  "\<exists>env'. st_d 0xffc 7 (unmapped (\<lambda>_. 0)) = Exn env' \<and> ram env' = ram (unmapped (\<lambda>_. 0))"
proof -
  let ?g = "\<lambda>_. 0"
  obtain e where "store_pa 0xffc (unmapped ?g) = Exn e"
    using store_pa_Exn [OF unmapped_faults(1)] unmapped_faults(2) [of "0xffc"] by (fastforce simp: sextract64_def)
  then have "st_d 0xffc 7 (unmapped ?g) = Exn e" by (simp add: st_d_def st_body_def)
  then show ?thesis using faulting_store_writes_nothing [OF unmapped_faults(1)] by blast
qed

theorem store_load_roundtrip_witness:
  "\<exists>env' env''. st_d 0xffc 0x1122334455667788 (booted 0) = Ret () env' \<and> ld_d 0xffc env' = Ret 0x1122334455667788 env''"
proof -
  let ?p = "\<lambda>i. 0xffc + of_nat i :: u64"
  have "addr_in_ram (booted 0) (?p i)" "\<not> is_io (?p i)" "take_bit 48 (?p i) = ?p i" if "i < 8" for i
  proof -
    have "unat (?p i) = 0xffc + i" using that by (simp add: unat_word_ariths unat_of_nat)
    then show "addr_in_ram (booted 0) (?p i)" "\<not> is_io (?p i)"
      using that by (simp_all add: addr_in_ram_def is_io_def size_defs word_less_nat_alt word_le_nat_alt)
    show "take_bit 48 (?p i) = ?p i"
      using \<open>unat (?p i) = 0xffc + i\<close> that by (intro word_unat_eq_iff [THEN iffD2]) (simp add: unat_take_bit take_bit_nat_eq_self)
  qed
  moreover have "inj_on ?p {..<8}"
  proof (rule inj_onI)
    fix x y :: nat
    assume a: "x \<in> {..<8}" "y \<in> {..<8}" "?p x = ?p y"
    then have "unat (?p x) = unat (?p y)" by simp
    then show "x = y" using a(1,2) by (simp add: unat_word_ariths unat_of_nat)
  qed
  ultimately have "mapped 8 0xffc ?p (booted 0)"
    by (simp add: mapped_def bytes_at_def booted_translate)
  then show ?thesis using store_load_roundtrip [OF booted_mem_ok, of "0xffc" ?p 0 "0x1122334455667788"] by blast
qed

end
