(* ===== verification/LA_CSR.thy ===== *)
theory LA_CSR
  imports LA_Mem
begin

text \<open>
  The control and status registers as the CSR instructions see them: \<open>helper_read_csr\<close>,
  \<open>helper_write_csr\<close> and \<open>mask_write\<close> of \<open>loongarch64/interpreter.c\<close>.

  The switch of the source is split into two tables and the cases with an effect of their own.
  \<open>plain_csrs\<close> lists the cases that are a field and a masked write of that field, with the write mask;
  \<open>readonly_csrs\<close> the cases that return a field and ignore the write. A register index is the
  14-bit field of the instruction. An unknown index reads as 0 and ignores the write.
\<close>

section \<open>The tables\<close>

type_synonym 'd csr_case = "nat \<times> ('d machine \<Rightarrow> u64) \<times> (u64 \<Rightarrow> 'd machine \<Rightarrow> 'd machine) \<times> u64"

definition plain_csrs :: "'d csr_case list" where
  "plain_csrs = [
    (LOONGARCH_CSR_CRMD, CSR_CRMD, \<lambda>v env. env\<lparr>CSR_CRMD := v\<rparr>, LOONGARCH_CSR_CRMD_WMASK),
    (LOONGARCH_CSR_PRMD, CSR_PRMD, \<lambda>v env. env\<lparr>CSR_PRMD := v\<rparr>, LOONGARCH_CSR_PRMD_WMASK),
    (LOONGARCH_CSR_EUEN, CSR_EUEN, \<lambda>v env. env\<lparr>CSR_EUEN := v\<rparr>, LOONGARCH_CSR_EUEN_WMASK),
    (LOONGARCH_CSR_MISC, CSR_MISC, \<lambda>v env. env\<lparr>CSR_MISC := v\<rparr>, LOONGARCH_CSR_MISC_WMASK),
    (LOONGARCH_CSR_ECFG, CSR_ECFG, \<lambda>v env. env\<lparr>CSR_ECFG := v\<rparr>, LOONGARCH_CSR_ECFG_WMASK),
    (LOONGARCH_CSR_ESTAT, CSR_ESTAT, \<lambda>v env. env\<lparr>CSR_ESTAT := v\<rparr>, LOONGARCH_CSR_ESTAT_WMASK),
    (LOONGARCH_CSR_ERA, CSR_ERA, \<lambda>v env. env\<lparr>CSR_ERA := v\<rparr>, - 1),
    (LOONGARCH_CSR_BADV, CSR_BADV, \<lambda>v env. env\<lparr>CSR_BADV := v\<rparr>, - 1),
    (LOONGARCH_CSR_EENTRY, CSR_EENTRY, \<lambda>v env. env\<lparr>CSR_EENTRY := v\<rparr>, LOONGARCH_CSR_EENTRY_WMASK),
    (LOONGARCH_CSR_TLBELO0, CSR_TLBELO0, \<lambda>v env. env\<lparr>CSR_TLBELO0 := v\<rparr>, LOONGARCH_CSR_TLBELO_64_WMASK),
    (LOONGARCH_CSR_TLBELO1, CSR_TLBELO1, \<lambda>v env. env\<lparr>CSR_TLBELO1 := v\<rparr>, LOONGARCH_CSR_TLBELO_64_WMASK),
    (LOONGARCH_CSR_PGDL, CSR_PGDL, \<lambda>v env. env\<lparr>CSR_PGDL := v\<rparr>, LOONGARCH_CSR_PGDL_WMASK),
    (LOONGARCH_CSR_PGDH, CSR_PGDH, \<lambda>v env. env\<lparr>CSR_PGDH := v\<rparr>, LOONGARCH_CSR_PGDH_WMASK),
    (LOONGARCH_CSR_PWCH, CSR_PWCH, \<lambda>v env. env\<lparr>CSR_PWCH := v\<rparr>, LOONGARCH_CSR_PWCH_WMASK),
    (LOONGARCH_CSR_RVACFG, CSR_RVACFG, \<lambda>v env. env\<lparr>CSR_RVACFG := v\<rparr>, LOONGARCH_CSR_RVACFG_WMASK),
    (LOONGARCH_CSR_CNTC, CSR_CNTC, \<lambda>v env. env\<lparr>CSR_CNTC := v\<rparr>, - 1),
    (LOONGARCH_CSR_IMPCTL1, CSR_IMPCTL1, \<lambda>v env. env\<lparr>CSR_IMPCTL1 := v\<rparr>, - 1),
    (LOONGARCH_CSR_IMPCTL2, CSR_IMPCTL2, \<lambda>v env. env\<lparr>CSR_IMPCTL2 := v\<rparr>, - 1),
    (LOONGARCH_CSR_TLBRENTRY, CSR_TLBRENTRY, \<lambda>v env. env\<lparr>CSR_TLBRENTRY := v\<rparr>, LOONGARCH_CSR_TLBRENTRY_64_WMASK),
    (LOONGARCH_CSR_TLBRBADV, CSR_TLBRBADV, \<lambda>v env. env\<lparr>CSR_TLBRBADV := v\<rparr>, - 1),
    (LOONGARCH_CSR_TLBRERA, CSR_TLBRERA, \<lambda>v env. env\<lparr>CSR_TLBRERA := v\<rparr>, LOONGARCH_CSR_TLBRERA_WMASK),
    (LOONGARCH_CSR_TLBRSAVE, CSR_TLBRSAVE, \<lambda>v env. env\<lparr>CSR_TLBRSAVE := v\<rparr>, - 1),
    (LOONGARCH_CSR_TLBRELO0, CSR_TLBRELO0, \<lambda>v env. env\<lparr>CSR_TLBRELO0 := v\<rparr>, LOONGARCH_CSR_TLBRELO_64_WMASK),
    (LOONGARCH_CSR_TLBRELO1, CSR_TLBRELO1, \<lambda>v env. env\<lparr>CSR_TLBRELO1 := v\<rparr>, LOONGARCH_CSR_TLBRELO_64_WMASK),
    (LOONGARCH_CSR_TLBRPRMD, CSR_TLBRPRMD, \<lambda>v env. env\<lparr>CSR_TLBRPRMD := v\<rparr>, LOONGARCH_CSR_TLBRPRMD_WMASK),
    (LOONGARCH_CSR_MERRCTL, CSR_MERRCTL, \<lambda>v env. env\<lparr>CSR_MERRCTL := v\<rparr>, - 1),
    (LOONGARCH_CSR_MERRINFO1, CSR_MERRINFO1, \<lambda>v env. env\<lparr>CSR_MERRINFO1 := v\<rparr>, - 1),
    (LOONGARCH_CSR_MERRINFO2, CSR_MERRINFO2, \<lambda>v env. env\<lparr>CSR_MERRINFO2 := v\<rparr>, - 1),
    (LOONGARCH_CSR_MERRENTRY, CSR_MERRENTRY, \<lambda>v env. env\<lparr>CSR_MERRENTRY := v\<rparr>, - 1),
    (LOONGARCH_CSR_MERRERA, CSR_MERRERA, \<lambda>v env. env\<lparr>CSR_MERRERA := v\<rparr>, - 1),
    (LOONGARCH_CSR_MERRSAVE, CSR_MERRSAVE, \<lambda>v env. env\<lparr>CSR_MERRSAVE := v\<rparr>, - 1),
    (LOONGARCH_CSR_CTAG, CSR_CTAG, \<lambda>v env. env\<lparr>CSR_CTAG := v\<rparr>, - 1),
    (LOONGARCH_CSR_DERA, CSR_DERA, \<lambda>v env. env\<lparr>CSR_DERA := v\<rparr>, - 1),
    (LOONGARCH_CSR_DSAVE, CSR_DSAVE, \<lambda>v env. env\<lparr>CSR_DSAVE := v\<rparr>, - 1)]"

definition readonly_csrs :: "(nat \<times> ('d machine \<Rightarrow> u64)) list" where
  "readonly_csrs = [(LOONGARCH_CSR_BADI, CSR_BADI), (LOONGARCH_CSR_CPUID, CSR_CPUID), (LOONGARCH_CSR_PRCFG1, CSR_PRCFG1), (LOONGARCH_CSR_PRCFG2, CSR_PRCFG2), (LOONGARCH_CSR_PRCFG3, CSR_PRCFG3), (LOONGARCH_CSR_DBG, CSR_DBG)]"

section \<open>Reads\<close>

text \<open>The registers that hold an address are sign-extended from the length of a virtual address, which
  \<open>sextract64\<close> asserts to be at most 64.\<close>

definition read_va :: "u64 \<Rightarrow> 'd machine \<Rightarrow> (u64, 'd machine) outcome" where
  "read_va v env =
    (let len = unat (FIELD_EX32 (cpucfg env 1) CPUCFG1_VALEN) + 1
     in if bitfield_ok 64 0 (int len) then Ret (sextract64 v 0 len) env else Crash)"

definition helper_read_csr :: "nat \<Rightarrow> 'd machine \<Rightarrow> (u64, 'd machine) outcome" where
  "helper_read_csr csr_index env =
    (case map_of plain_csrs csr_index of Some (get, _, _) \<Rightarrow> Ret (get env) env
     | None \<Rightarrow> (case map_of readonly_csrs csr_index of Some get \<Rightarrow> Ret (get env) env
     | None \<Rightarrow>
        if csr_index = LOONGARCH_CSR_TLBIDX then Ret (sextract64 (CSR_TLBIDX env) 0 32) env
        else if csr_index = LOONGARCH_CSR_TLBEHI then read_va (CSR_TLBEHI env) env
        else if csr_index = LOONGARCH_CSR_ASID then Ret (CSR_ASID env) env
        else if csr_index = LOONGARCH_CSR_PGD then Ret (helper_csrrd_pgd env) env
        else if csr_index = LOONGARCH_CSR_PWCL then Ret (sextract64 (CSR_PWCL env) 0 32) env
        else if csr_index = LOONGARCH_CSR_STLBPS then Ret (CSR_STLBPS env) env
        else if csr_index \<in> {LOONGARCH_CSR_SAVE 0..LOONGARCH_CSR_SAVE 7}
             then Ret (CSR_SAVE env (csr_index - LOONGARCH_CSR_SAVE 0)) env
        else if csr_index = LOONGARCH_CSR_TID then Ret (sextract64 (CSR_TID env) 0 32) env
        else if csr_index = LOONGARCH_CSR_TCFG then Ret (CSR_TCFG env) env
        else if csr_index = LOONGARCH_CSR_TVAL then Ret (timer_counter env) env
        else if csr_index = LOONGARCH_CSR_TICLR then Ret 0 env
        else if csr_index = LOONGARCH_CSR_LLBCTL then Ret (CSR_LLBCTL env) env
        else if csr_index = LOONGARCH_CSR_TLBREHI then read_va (CSR_TLBREHI env) env
        else if csr_index \<in> {LOONGARCH_CSR_DMW 0..LOONGARCH_CSR_DMW 3}
             then Ret (CSR_DMW env (csr_index - LOONGARCH_CSR_DMW 0)) env
        else Ret 0 env))"

section \<open>Writes\<close>

definition mask_write :: "u64 \<Rightarrow> u64 \<Rightarrow> u64 \<Rightarrow> u64" where
  "mask_write old new msk = (old AND NOT msk) OR (new AND msk)"

text \<open>The timer configuration arms or stops the timer: the counter in deterministic mode, the host timer
  otherwise.\<close>

definition write_tcfg :: "u64 \<Rightarrow> 'd machine \<Rightarrow> 'd machine" where
  "write_tcfg v env =
    (let env = env\<lparr>CSR_TCFG := v\<rparr>
     in if CSR_TCFG env AND 1 \<noteq> 0
        then if determined env then env\<lparr>timer_counter := CSR_TCFG env AND CONSTANT_TIMER_TICK_MASK\<rparr>
             else cpu_settimer env
        else if determined env then env\<lparr>timer_counter := - 1\<rparr> else cpu_disable_timer env)"

definition write_llbctl :: "u64 \<Rightarrow> u64 \<Rightarrow> 'd machine \<Rightarrow> 'd machine" where
  "write_llbctl new_v msk env =
    (let v = CSR_LLBCTL env;
         v = (if new_v AND msk AND FIELD_MASK CSR_LLBCTL_WCLLB \<noteq> 0 then FIELD_DP64 v CSR_LLBCTL_ROLLB 0 else v);
         v = (if msk AND FIELD_MASK CSR_LLBCTL_KLO \<noteq> 0
              then FIELD_DP64 v CSR_LLBCTL_KLO (drop_bit 2 (new_v AND FIELD_MASK CSR_LLBCTL_KLO)) else v)
     in env\<lparr>CSR_LLBCTL := v\<rparr>)"

text \<open>\<open>helper_write_csr\<close> returns the old value. The registers that the translation caches depend on and that
  clear them here are ASID, STLBPS and the direct-map windows.\<close>

definition helper_write_csr :: "nat \<Rightarrow> u64 \<Rightarrow> u64 \<Rightarrow> 'd machine \<Rightarrow> (u64, 'd machine) outcome" where
  "helper_write_csr csr_index new_v msk env =
    (case map_of plain_csrs csr_index of
       Some (get, put, wmask) \<Rightarrow> Ret (get env) (put (mask_write (get env) new_v (msk AND wmask)) env)
     | None \<Rightarrow> (case map_of readonly_csrs csr_index of Some get \<Rightarrow> Ret (get env) env
     | None \<Rightarrow>
        if csr_index = LOONGARCH_CSR_TLBIDX
        then Ret (sextract64 (CSR_TLBIDX env) 0 32)
               (env\<lparr>CSR_TLBIDX := mask_write (CSR_TLBIDX env) new_v (msk AND LOONGARCH_CSR_TLBIDX_WMASK)\<rparr>)
        else if csr_index = LOONGARCH_CSR_TLBEHI
        then bind_out (read_va (CSR_TLBEHI env) env) (\<lambda>old_v env. Ret old_v
               (env\<lparr>CSR_TLBEHI := mask_write (CSR_TLBEHI env) new_v (msk AND LOONGARCH_CSR_TLBEHI_64_WMASK)\<rparr>))
        else if csr_index = LOONGARCH_CSR_ASID
        then Ret (CSR_ASID env) (cpu_clear_tc
               (env\<lparr>CSR_ASID := mask_write (CSR_ASID env) new_v (msk AND LOONGARCH_CSR_ASID_WMASK)\<rparr>))
        else if csr_index = LOONGARCH_CSR_PGD then Ret (helper_csrrd_pgd env) env
        else if csr_index = LOONGARCH_CSR_PWCL
        then Ret (sextract64 (CSR_PWCL env) 0 32)
               (if \<not> check_ps env (exn new_v CSR_PWCL_PTBASE) then env
                else env\<lparr>CSR_PWCL := mask_write (CSR_PWCL env) new_v (msk AND LOONGARCH_CSR_PWCL_WMASK)\<rparr>)
        else if csr_index = LOONGARCH_CSR_STLBPS
        then Ret (CSR_STLBPS env) (cpu_clear_tc
               (env\<lparr>CSR_STLBPS := mask_write (CSR_STLBPS env) new_v (msk AND LOONGARCH_CSR_STLBPS_WMASK)\<rparr>))
        else if csr_index \<in> {LOONGARCH_CSR_SAVE 0..LOONGARCH_CSR_SAVE 7}
        then let n = csr_index - LOONGARCH_CSR_SAVE 0
             in Ret (CSR_SAVE env n)
                  (env\<lparr>CSR_SAVE := (CSR_SAVE env)(n := mask_write (CSR_SAVE env n) new_v msk)\<rparr>)
        else if csr_index = LOONGARCH_CSR_TID
        then Ret (sextract64 (CSR_TID env) 0 32)
               (env\<lparr>CSR_TID := mask_write (CSR_TID env) new_v (msk AND LOONGARCH_CSR_TID_WMASK)\<rparr>)
        else if csr_index = LOONGARCH_CSR_TCFG
        then Ret (CSR_TCFG env) (write_tcfg (mask_write (CSR_TCFG env) new_v msk) env)
        else if csr_index = LOONGARCH_CSR_TVAL then Ret (CSR_TVAL env) env
        else if csr_index = LOONGARCH_CSR_TICLR
        then if new_v AND msk AND 1 \<noteq> 0
             then bind_out (loongarch_cpu_set_irq IRQ_TIMER 0 (env\<lparr>timer_int := False\<rparr>)) (\<lambda>_. Ret 0)
             else Ret 0 env
        else if csr_index = LOONGARCH_CSR_LLBCTL
        then Ret (CSR_LLBCTL env) (write_llbctl new_v msk env)
        else if csr_index = LOONGARCH_CSR_TLBREHI
        then bind_out (read_va (CSR_TLBREHI env) env) (\<lambda>old_v env. Ret old_v
               (env\<lparr>CSR_TLBREHI := mask_write (CSR_TLBREHI env) new_v (msk AND LOONGARCH_CSR_TLBREHI_64_WMASK)\<rparr>))
        else if csr_index \<in> {LOONGARCH_CSR_DMW 0..LOONGARCH_CSR_DMW 3}
        then let n = csr_index - LOONGARCH_CSR_DMW 0
             in Ret (CSR_DMW env n) (cpu_clear_tc (env\<lparr>CSR_DMW := (CSR_DMW env)(n :=
                  mask_write (CSR_DMW env n) new_v (msk AND LOONGARCH_CSR_DMW_64_WMASK))\<rparr>))
        else Ret 0 env))"

section \<open>Laws of a plain register\<close>

text \<open>What a case of \<open>plain_csrs\<close> relies on: the field is written and read back, and the write touches
  neither the general registers, nor the program counter, nor memory, nor the TLB and the caches.\<close>

locale csr_field =
  fixes get :: "'d machine \<Rightarrow> u64" and put :: "u64 \<Rightarrow> 'd machine \<Rightarrow> 'd machine"
  assumes get_put: "get (put v env) = v"
    and put_get: "put (get env) env = env"
    and put_put: "put v (put w env) = put v env"
    and frame: "gpr (put v env) = gpr env" "pc (put v env) = pc env" "ram (put v env) = ram env"
      "tlb (put v env) = tlb env" "devs (put v env) = devs env"
begin

lemma masked_write_read: "get (put (mask_write (get env) v m) env) = mask_write (get env) v m"
  by (rule get_put)

lemma masked_write_all: "m = - 1 \<Longrightarrow> put (mask_write (get env) v m) env = put v env"
  by (simp add: mask_write_def)

lemma masked_write_none: "m = 0 \<Longrightarrow> put (mask_write (get env) v m) env = env"
  by (simp add: mask_write_def put_get)

lemma exchange_back:
  "put (mask_write (get (put (mask_write (get env) v m) env)) (get env) m) (put (mask_write (get env) v m) env) = env"
proof -
  have "mask_write (mask_write x v m) x m = x" for x
    by (rule bit_eqI) (auto simp: mask_write_def bit_simps)
  then show ?thesis by (simp add: get_put put_put put_get)
qed

end

interpretation csr_save: csr_field "\<lambda>env. CSR_SAVE env n" "\<lambda>v env. env\<lparr>CSR_SAVE := (CSR_SAVE env)(n := v)\<rparr>" for n
  by unfold_locales simp_all

interpretation csr_dmw: csr_field "\<lambda>env. CSR_DMW env n" "\<lambda>v env. env\<lparr>CSR_DMW := (CSR_DMW env)(n := v)\<rparr>" for n
  by unfold_locales simp_all

lemma plain_fields: "list_all (\<lambda>(_, get, put, _). csr_field get put) plain_csrs"
  by (simp add: plain_csrs_def csr_field_def)

lemma plain_distinct: "distinct (map fst plain_csrs)"
  by (simp add: plain_csrs_def const_defs)

lemma plain_independent:
  "list_all (\<lambda>(n, get, _, _). list_all (\<lambda>(m, _, put, _). m \<noteq> n \<longrightarrow> (\<forall>v env. get (put v env) = get env)) plain_csrs) plain_csrs"
  by (simp add: plain_csrs_def const_defs)

lemma plain_lookup: "(n, get, put, wm) \<in> set plain_csrs \<Longrightarrow> map_of plain_csrs n = Some (get, put, wm)"
  by (rule map_of_is_SomeI [OF plain_distinct])

lemma plain_read: "(n, get, put, wm) \<in> set plain_csrs \<Longrightarrow> helper_read_csr n env = Ret (get env) env"
  by (simp add: helper_read_csr_def plain_lookup)

lemma plain_write:
  "(n, get, put, wm) \<in> set plain_csrs \<Longrightarrow>
   helper_write_csr n v msk env = Ret (get env) (put (mask_write (get env) v (msk AND wm)) env)"
  by (simp add: helper_write_csr_def plain_lookup)

lemma plain_field: "(n, get, put, wm) \<in> set plain_csrs \<Longrightarrow> csr_field get put"
  using plain_fields by (fastforce simp: list_all_iff)

lemma plain_other:
  assumes "(n, get, put, wm) \<in> set plain_csrs" and "(m, get', put', wm') \<in> set plain_csrs" and "m \<noteq> n"
  shows "get' (put v env) = get' env"
proof -
  have "list_all (\<lambda>(k, _, put, _). k \<noteq> m \<longrightarrow> (\<forall>v env. get' (put v env) = get' env)) plain_csrs"
    using plain_independent assms(2) by (fastforce simp: list_all_iff)
  then show ?thesis using assms(1,3) by (fastforce simp: list_all_iff)
qed

section \<open>The timer registers\<close>

lemma csr_special_lookup:
  "map_of plain_csrs LOONGARCH_CSR_TCFG = None" "map_of readonly_csrs LOONGARCH_CSR_TCFG = None"
  "map_of plain_csrs LOONGARCH_CSR_TICLR = None" "map_of readonly_csrs LOONGARCH_CSR_TICLR = None"
  by (simp_all add: plain_csrs_def readonly_csrs_def const_defs)

lemma write_csr_tcfg:
  "helper_write_csr LOONGARCH_CSR_TCFG v msk env = Ret (CSR_TCFG env) (write_tcfg (mask_write (CSR_TCFG env) v msk) env)"
  unfolding helper_write_csr_def csr_special_lookup option.case by (simp add: const_defs)

lemma write_csr_ticlr:
  "helper_write_csr LOONGARCH_CSR_TICLR v msk env =
    (if v AND msk AND 1 \<noteq> 0 then Ret 0 (env\<lparr>CSR_ESTAT := deposit64 (CSR_ESTAT env) 11 1 0, timer_int := False\<rparr>)
     else Ret 0 env)"
  unfolding helper_write_csr_def csr_special_lookup option.case
  by (simp add: const_defs loongarch_cpu_set_irq_def estat_set_irq_def N_IRQS_def IRQ_TIMER_def)

section \<open>The load cache after a hit\<close>

lemma load_pa_cached:
  assumes "mmu_plain env" and "tc_coherent env" and "load_pa va env = Ret (ha, False) env1"
  shows "tc_va (tc_load env1 (TC_INDEX va)) = va AND TARGET_PAGE_MASK"
    and "page_offset va OR tc_pa (tc_load env1 (TC_INDEX va)) = ha"
proof -
  show va: "tc_va (tc_load env1 (TC_INDEX va)) = va AND TARGET_PAGE_MASK"
  proof (cases "va AND TARGET_PAGE_MASK = tc_va (tc_load env (TC_INDEX va))")
    case True
    then show ?thesis using assms(3) by (simp add: load_pa_def Let_def)
  next
    case False
    then show ?thesis
      using assms(3) by (cases "check_get_physical_address va MMU_DATA_LOAD (access_mmu_idx env) env")
        (auto simp: load_pa_def Let_def split: if_splits)
  qed
  note l = load_pa_Ret [OF assms]
  have "translate MMU_DATA_LOAD va env1 = Ret ha env1"
    using l(1,3) assms(1) translate_agree [of env1 env] by (auto simp: mmu_agree_def mmu_plain_def)
  then show "page_offset va OR tc_pa (tc_load env1 (TC_INDEX va)) = ha"
    using l(4) va unfolding tc_coherent_def tc_entry_ok_def by (metis outcome.inject(1))
qed

lemma load_pa_hit:
  assumes "tc_va (tc_load env (TC_INDEX va)) = va AND TARGET_PAGE_MASK"
  shows "load_pa va env = Ret (page_offset va OR tc_pa (tc_load env (TC_INDEX va)), False) env"
  using assms by (simp add: load_pa_def Let_def)

section \<open>Properties\<close>

text \<open>The plain control registers behave as registers. A write returns the old value and changes exactly
  the bits that both the instruction's mask and the register's write mask select; the read that
  follows returns them; no other plain register, general register, memory byte or TLB entry
  changes; and writing the old value back with the same mask restores the machine.\<close>

theorem csr_write_read:
  assumes "(n, get, put, wmask) \<in> set plain_csrs"
  shows "\<exists>env'. helper_read_csr n env = Ret (get env) env \<and> helper_write_csr n v msk env = Ret (get env) env'
    \<and> helper_read_csr n env' = Ret (mask_write (get env) v (msk AND wmask)) env'
    \<and> (\<forall>(m, get', _) \<in> set plain_csrs. m \<noteq> n \<longrightarrow>
        helper_read_csr m env = Ret (get' env) env \<and> helper_read_csr m env' = Ret (get' env) env')
    \<and> gpr env' = gpr env \<and> pc env' = pc env \<and> ram env' = ram env \<and> tlb env' = tlb env
    \<and> (\<exists>old. helper_write_csr n (get env) msk env' = Ret old env)"
proof -
  note f = plain_field [OF assms]
  let ?env' = "put (mask_write (get env) v (msk AND wmask)) env"
  have "\<forall>(m, get', _) \<in> set plain_csrs. m \<noteq> n \<longrightarrow>
      helper_read_csr m env = Ret (get' env) env \<and> helper_read_csr m ?env' = Ret (get' env) ?env'"
    using plain_other [OF assms] plain_read by fastforce
  moreover have "helper_write_csr n (get env) msk ?env' = Ret (get ?env') env"
    using plain_write [OF assms] csr_field.exchange_back [OF f] by simp
  ultimately show ?thesis
    using plain_read [OF assms] plain_write [OF assms] csr_field.masked_write_read [OF f] csr_field.frame [OF f] by auto
qed

theorem csr_write_read_witness:
  "\<exists>env'. helper_write_csr LOONGARCH_CSR_CRMD 0xffff (- 1) (booted 0) = Ret 8 env'
    \<and> helper_read_csr LOONGARCH_CSR_CRMD env' = Ret 0x3ff env'"
proof -
  have m: "(LOONGARCH_CSR_CRMD, CSR_CRMD, \<lambda>v env. env\<lparr>CSR_CRMD := v\<rparr>, LOONGARCH_CSR_CRMD_WMASK) \<in> set plain_csrs"
    by (simp add: plain_csrs_def)
  have "CSR_CRMD (booted 0) = 8"
    by (simp add: main_cpu_setup_def cpu_reset_def loongarch_la464_initfn_def cpu_clear_tc_def zeroed_machine_def Let_def
        field_defs FIELD_DP64_def deposit64_def mask_eq_exp_minus_1)
  then show ?thesis
    using csr_write_read [OF m, of "booted 0" "0xffff" "- 1"]
    by (auto simp: mask_write_def LOONGARCH_CSR_CRMD_WMASK_def)
qed

text \<open>Arming the timer. In deterministic mode, after a write of TCFG that sets the enable bit and an initial
  value, the interrupt status is untouched by fewer checks than that value and has the timer
  interrupt pending after exactly that many; a write of 1 to TICLR then takes the interrupt away and
  leaves every other interrupt as it is.\<close>

theorem armed_timer_interrupts:
  assumes "determined env" and "bit v 0" and "n = unat (v AND CONSTANT_TIMER_TICK_MASK)" and "0 < n"
  shows "\<exists>env1. helper_write_csr LOONGARCH_CSR_TCFG v (- 1) env = Ret (CSR_TCFG env) env1
    \<and> (\<forall>k < n. \<exists>e. check_irqs k env1 = Ret () e \<and> CSR_ESTAT e = CSR_ESTAT env)
    \<and> (\<exists>env2. check_irqs n env1 = Ret () env2 \<and> bit (CSR_ESTAT env2) 11
        \<and> (\<exists>env3. helper_write_csr LOONGARCH_CSR_TICLR 1 (- 1) env2 = Ret 0 env3 \<and> \<not> bit (CSR_ESTAT env3) 11
            \<and> (\<forall>j. j \<noteq> 11 \<longrightarrow> bit (CSR_ESTAT env3) j = bit (CSR_ESTAT env2) j)))"
proof -
  let ?env1 = "env\<lparr>CSR_TCFG := v, timer_counter := v AND CONSTANT_TIMER_TICK_MASK\<rparr>"
  have odd: "v AND 1 = 1" using assms(2) by (simp add: bit_0 and_one_eq odd_iff_mod_2_eq_one)
  then have w: "helper_write_csr LOONGARCH_CSR_TCFG v (- 1) env = Ret (CSR_TCFG env) ?env1"
    using assms(1) by (simp add: write_csr_tcfg write_tcfg_def mask_write_def)
  have "CSR_TCFG ?env1 AND CONSTANT_TIMER_ENABLE = 1" using odd by (simp add: CONSTANT_TIMER_ENABLE_def)
  note t = timer_expiry [OF _ this, of n] 
  have pre: "determined ?env1" "n = unat (timer_counter ?env1)" using assms(1,3) by simp_all
  note t = t [OF pre assms(4)]
  obtain env2 where env2: "check_irqs n ?env1 = Ret () env2" "bit (CSR_ESTAT env2) 11" using t by blast
  have "\<forall>k < n. \<exists>e. check_irqs k ?env1 = Ret () e \<and> CSR_ESTAT e = CSR_ESTAT env" using t by auto
  moreover have "\<exists>env3. helper_write_csr LOONGARCH_CSR_TICLR 1 (- 1) env2 = Ret 0 env3 \<and> \<not> bit (CSR_ESTAT env3) 11
      \<and> (\<forall>j. j \<noteq> 11 \<longrightarrow> bit (CSR_ESTAT env3) j = bit (CSR_ESTAT env2) j)"
    by (auto simp: write_csr_ticlr bit_deposit64 dest: bit_u64_imp_le)
  ultimately show ?thesis using w env2 by blast
qed

theorem armed_timer_interrupts_witness:
  "\<exists>env1 env2. helper_write_csr LOONGARCH_CSR_TCFG 9 (- 1) ((booted 0)\<lparr>determined := True\<rparr>)
      = Ret (CSR_TCFG ((booted 0)\<lparr>determined := True\<rparr>)) env1 \<and> check_irqs 8 env1 = Ret () env2 \<and> bit (CSR_ESTAT env2) 11"
proof -
  let ?env = "(booted 0)\<lparr>determined := True\<rparr>"
  have "determined ?env" by simp
  moreover have "bit (9 :: u64) 0" "8 = unat ((9 :: u64) AND CONSTANT_TIMER_TICK_MASK)" "0 < (8 :: nat)"
    by (simp_all add: CONSTANT_TIMER_TICK_MASK_def)
  ultimately show ?thesis using armed_timer_interrupts [of ?env 9 8] by blast
qed

text \<open>(C25) A write of CRMD does not clear the translation caches. A page that a load of RAM has cached is
  still answered from the cache after the instruction that switches from direct addressing to
  paging, whatever the MMU now says of the address.\<close>

theorem crmd_write_keeps_translations:
  assumes "mmu_plain env" and "tc_coherent env" and "load_pa va env = Ret (ha, False) env1"
    and "helper_write_csr LOONGARCH_CSR_CRMD v msk env1 = Ret old env2"
  shows "load_pa va env2 = Ret (ha, False) env2 \<and> CSR_CRMD env2 = mask_write old v (msk AND LOONGARCH_CSR_CRMD_WMASK)"
proof -
  have "(LOONGARCH_CSR_CRMD, CSR_CRMD, \<lambda>v env. env\<lparr>CSR_CRMD := v\<rparr>, LOONGARCH_CSR_CRMD_WMASK) \<in> set plain_csrs"
    by (simp add: plain_csrs_def)
  from plain_write [OF this, of v msk env1] assms(4)
  have env2: "env2 = env1\<lparr>CSR_CRMD := mask_write (CSR_CRMD env1) v (msk AND LOONGARCH_CSR_CRMD_WMASK)\<rparr>" "old = CSR_CRMD env1"
    by simp_all
  then show ?thesis using load_pa_cached [OF assms(1-3)] load_pa_hit [of env2 va] by simp
qed

theorem crmd_write_keeps_translations_witness:
  "\<exists>env1 env2. load_pa 0x1234 (booted 0) = Ret (0x1234, False) env1
    \<and> helper_write_csr LOONGARCH_CSR_CRMD 0x10 (- 1) env1 = Ret (CSR_CRMD env1) env2
    \<and> load_pa 0x1234 env2 = Ret (0x1234, False) env2 \<and> CSR_CRMD env2 AND 0x10 \<noteq> 0"
proof -
  have ok: "mmu_plain (booted 0)" "tc_coherent (booted 0)" using booted_mem_ok [of 0] by (simp_all add: mem_ok_def)
  obtain env1 where l: "load_pa 0x1234 (booted 0) = Ret (0x1234, False) env1" by (rule booted_load)
  have m: "(LOONGARCH_CSR_CRMD, CSR_CRMD, \<lambda>v env. env\<lparr>CSR_CRMD := v\<rparr>, LOONGARCH_CSR_CRMD_WMASK) \<in> set plain_csrs"
    by (simp add: plain_csrs_def)
  obtain env2 where w: "helper_write_csr LOONGARCH_CSR_CRMD 0x10 (- 1) env1 = Ret (CSR_CRMD env1) env2"
    using plain_write [OF m] by blast
  have "CSR_CRMD env2 AND 0x10 \<noteq> 0"
  proof -
    have "bit (CSR_CRMD env2) 4"
      using crmd_write_keeps_translations [OF ok l w]
      by (simp add: mask_write_def LOONGARCH_CSR_CRMD_WMASK_def bit_simps)
    then have "bit (CSR_CRMD env2 AND 0x10) 4" by (simp add: bit_simps)
    then show ?thesis by (metis bit_0_eq bot_fun_def bot_bool_def)
  qed
  then show ?thesis using l w crmd_write_keeps_translations [OF ok l w] by blast
qed

end
