(* ===== verification/LA_Insn.thy ===== *)
theory LA_Insn
  imports LA_CSR "HOL-Library.Signed_Division"
begin

text \<open>
  The integer instructions of \<open>loongarch64/interpreter.c\<close>: one \<open>trans\<close> function per instruction.

  \<^item> A \<open>trans\<close> function takes the decoded arguments and the machine, and returns a boolean (false: not an
    instruction of this core) or leaves by an exception. The argument structs that the decoder
    generates are one record here, \<open>insn_arg\<close>, with the fields of all of them; register numbers are five bits
    wide, an immediate is a C \<open>int\<close>.
  \<^item> \<open>set_rd a v\<close> is the tail that most functions share: write \<open>gpr[rd]\<close>, advance the program counter, return
    true. \<open>gpr_src\<close> and \<open>gen_set_gpr\<close> are the accessors behind \<open>RJ\<close>, \<open>RJU\<close>, \<open>SET_RD\<close>, which keep register 0
    at zero; the other functions use the array, and \<open>interpreter\<close> resets register 0 afterwards.
  \<^item> \<open>(int64_t)(int32_t)x\<close> is \<open>sext 32 x\<close> and \<open>(uint32_t)x\<close> is \<open>take_bit 32 x\<close>. A 32-bit shift by 32 (a rotation by 0)
    takes its amount modulo 32, as the hosts do.
  \<^item> Signed division of the least value by -1 traps on the host: \<open>Crash\<close>.
\<close>

section \<open>Arguments\<close>

record insn_arg =
  rd :: regno
  rj :: regno
  rk :: regno
  imm :: int
  sa :: int
  ms :: int
  ls :: int
  offs :: int
  csr :: nat
  cj :: nat

type_synonym 'd trans = "insn_arg \<Rightarrow> 'd machine \<Rightarrow> (bool, 'd machine) outcome"

definition immw :: "insn_arg \<Rightarrow> u64" where
  "immw a = word_of_int (imm a)"

section \<open>Register access\<close>

datatype DisasExtend = EXT_NONE | EXT_SIGN | EXT_ZERO

fun extend :: "DisasExtend \<Rightarrow> u64 \<Rightarrow> u64" where
  "extend EXT_NONE v = v"
| "extend EXT_SIGN v = sext 32 v"
| "extend EXT_ZERO v = take_bit 32 v"

definition gpr_src :: "'d machine \<Rightarrow> regno \<Rightarrow> DisasExtend \<Rightarrow> u64" where
  "gpr_src env reg_num src_ext = (if reg_num = 0 then 0 else extend src_ext (gpr env reg_num))"

definition gen_set_gpr :: "regno \<Rightarrow> u64 \<Rightarrow> DisasExtend \<Rightarrow> 'd machine \<Rightarrow> 'd machine" where
  "gen_set_gpr reg_num t dst_ext env =
    (if reg_num \<noteq> 0 then env\<lparr>gpr := (gpr env)(reg_num := extend dst_ext t)\<rparr> else env)"

definition cpu_set_pc :: "u64 \<Rightarrow> 'd machine \<Rightarrow> 'd machine" where
  "cpu_set_pc target env = env\<lparr>pc := target\<rparr>"

definition next_insn :: "'d machine \<Rightarrow> (bool, 'd machine) outcome" where
  "next_insn env = Ret True (cpu_set_pc (pc env + 4) env)"

definition set_rd :: "insn_arg \<Rightarrow> u64 \<Rightarrow> 'd machine \<Rightarrow> (bool, 'd machine) outcome" where
  "set_rd a v env = next_insn (env\<lparr>gpr := (gpr env)(rd a := v)\<rparr>)"

definition gen_rd :: "insn_arg \<Rightarrow> DisasExtend \<Rightarrow> u64 \<Rightarrow> 'd machine \<Rightarrow> (bool, 'd machine) outcome" where
  "gen_rd a ext v env = next_insn (gen_set_gpr (rd a) v ext env)"

section \<open>Helpers\<close>

text \<open>\<open>SAFE_DIV_MOD\<close>, signed and unsigned. \<open>sdiv\<close> and \<open>smod\<close> truncate towards zero, as C does.\<close>

definition safe_signed :: "(int \<Rightarrow> int \<Rightarrow> int) \<Rightarrow> nat \<Rightarrow> u64 \<Rightarrow> u64 \<Rightarrow> u64 option" where
  "safe_signed f w x y =
    (let n = sint (sext w x); d = sint (sext w y)
     in if d = 0 then Some 0
        else if n = - (2 ^ (w - 1)) \<and> d = - 1 then None
        else Some (word_of_int (f n d)))"

definition safe_sdiv :: "nat \<Rightarrow> u64 \<Rightarrow> u64 \<Rightarrow> u64 option" where
  "safe_sdiv = safe_signed (\<lambda>n d. n sdiv d)"

definition safe_smod :: "nat \<Rightarrow> u64 \<Rightarrow> u64 \<Rightarrow> u64 option" where
  "safe_smod = safe_signed (\<lambda>n d. n smod d)"

definition udiv_or_0 :: "u64 \<Rightarrow> u64 \<Rightarrow> u64" where
  "udiv_or_0 n d = (if d = 0 then 0 else n div d)"

definition umod_or_0 :: "u64 \<Rightarrow> u64 \<Rightarrow> u64" where
  "umod_or_0 n d = (if d = 0 then 0 else n mod d)"

definition rotr_w_val :: "u64 \<Rightarrow> nat \<Rightarrow> u64" where
  "rotr_w_val v n = (let x = (ucast v :: u32) in scast (drop_bit n x OR push_bit ((32 - n) mod 32) x))"

definition rotr_d_val :: "u64 \<Rightarrow> nat \<Rightarrow> u64" where
  "rotr_d_val x n = drop_bit n x OR push_bit ((64 - n) mod 64) x"

definition helper_bitswap :: "u64 \<Rightarrow> u64" where
  "helper_bitswap v =
    (let v = (drop_bit 1 v AND 0x5555555555555555) OR push_bit 1 (v AND 0x5555555555555555);
         v = (drop_bit 2 v AND 0x3333333333333333) OR push_bit 2 (v AND 0x3333333333333333)
     in (drop_bit 4 v AND 0x0F0F0F0F0F0F0F0F) OR push_bit 4 (v AND 0x0F0F0F0F0F0F0F0F))"

fun orc_b_loop :: "nat list \<Rightarrow> u64 \<Rightarrow> u64 \<Rightarrow> u64" where
  "orc_b_loop [] x r = r"
| "orc_b_loop (i # is) x r =
    (let t = push_bit i 0xff in orc_b_loop is x (if x AND t \<noteq> 0 then r OR t else r))"

section \<open>Arithmetic and logic\<close>

definition trans_add_w :: "insn_arg \<Rightarrow> 'd machine \<Rightarrow> (bool, 'd machine) outcome" where
  "trans_add_w a env = set_rd a (sext 32 (gpr env (rj a) + gpr env (rk a))) env"

definition trans_add_d :: "insn_arg \<Rightarrow> 'd machine \<Rightarrow> (bool, 'd machine) outcome" where
  "trans_add_d a env = set_rd a (gpr env (rj a) + gpr env (rk a)) env"

definition trans_sub_w :: "insn_arg \<Rightarrow> 'd machine \<Rightarrow> (bool, 'd machine) outcome" where
  "trans_sub_w a env = set_rd a (sext 32 (gpr env (rj a) - gpr env (rk a))) env"

definition trans_sub_d :: "insn_arg \<Rightarrow> 'd machine \<Rightarrow> (bool, 'd machine) outcome" where
  "trans_sub_d a env = set_rd a (gpr env (rj a) - gpr env (rk a)) env"

definition trans_slt :: "insn_arg \<Rightarrow> 'd machine \<Rightarrow> (bool, 'd machine) outcome" where
  "trans_slt a env = set_rd a (of_bool (gpr env (rj a) <s gpr env (rk a))) env"

definition trans_sltu :: "insn_arg \<Rightarrow> 'd machine \<Rightarrow> (bool, 'd machine) outcome" where
  "trans_sltu a env = set_rd a (of_bool (gpr env (rj a) < gpr env (rk a))) env"

definition trans_slti :: "insn_arg \<Rightarrow> 'd machine \<Rightarrow> (bool, 'd machine) outcome" where
  "trans_slti a env = set_rd a (of_bool (gpr env (rj a) <s immw a)) env"

definition trans_sltui :: "insn_arg \<Rightarrow> 'd machine \<Rightarrow> (bool, 'd machine) outcome" where
  "trans_sltui a env = set_rd a (of_bool (gpr env (rj a) < immw a)) env"

definition trans_nor :: "insn_arg \<Rightarrow> 'd machine \<Rightarrow> (bool, 'd machine) outcome" where
  "trans_nor a env = set_rd a (NOT (gpr env (rj a) OR gpr env (rk a))) env"

definition trans_and :: "insn_arg \<Rightarrow> 'd machine \<Rightarrow> (bool, 'd machine) outcome" where
  "trans_and a env = set_rd a (gpr env (rj a) AND gpr env (rk a)) env"

definition trans_or :: "insn_arg \<Rightarrow> 'd machine \<Rightarrow> (bool, 'd machine) outcome" where
  "trans_or a env = set_rd a (gpr env (rj a) OR gpr env (rk a)) env"

definition trans_xor :: "insn_arg \<Rightarrow> 'd machine \<Rightarrow> (bool, 'd machine) outcome" where
  "trans_xor a env = set_rd a (gpr env (rj a) XOR gpr env (rk a)) env"

definition trans_orn :: "insn_arg \<Rightarrow> 'd machine \<Rightarrow> (bool, 'd machine) outcome" where
  "trans_orn a env = set_rd a (gpr env (rj a) OR NOT (gpr env (rk a))) env"

definition trans_andn :: "insn_arg \<Rightarrow> 'd machine \<Rightarrow> (bool, 'd machine) outcome" where
  "trans_andn a env = set_rd a (gpr env (rj a) AND NOT (gpr env (rk a))) env"

definition trans_mul_w :: "insn_arg \<Rightarrow> 'd machine \<Rightarrow> (bool, 'd machine) outcome" where
  "trans_mul_w a env = set_rd a (sext 32 (gpr env (rj a) * gpr env (rk a))) env"

definition trans_mulh_w :: "insn_arg \<Rightarrow> 'd machine \<Rightarrow> (bool, 'd machine) outcome" where
  "trans_mulh_w a env = set_rd a (signed_drop_bit 32 (sext 32 (gpr env (rj a)) * sext 32 (gpr env (rk a)))) env"

definition trans_mulh_wu :: "insn_arg \<Rightarrow> 'd machine \<Rightarrow> (bool, 'd machine) outcome" where
  "trans_mulh_wu a env =
    set_rd a (signed_drop_bit 32 (take_bit 32 (gpr env (rj a)) * take_bit 32 (gpr env (rk a)))) env"

definition trans_mul_d :: "insn_arg \<Rightarrow> 'd machine \<Rightarrow> (bool, 'd machine) outcome" where
  "trans_mul_d a env = set_rd a (gpr env (rj a) * gpr env (rk a)) env"

definition trans_mulh_d :: "insn_arg \<Rightarrow> 'd machine \<Rightarrow> (bool, 'd machine) outcome" where
  "trans_mulh_d a env = set_rd a (snd (muls64 (gpr env (rj a)) (gpr env (rk a)))) env"

definition trans_mulh_du :: "insn_arg \<Rightarrow> 'd machine \<Rightarrow> (bool, 'd machine) outcome" where
  "trans_mulh_du a env = set_rd a (snd (mulu64 (gpr env (rj a)) (gpr env (rk a)))) env"

definition trans_mulw_d_w :: "insn_arg \<Rightarrow> 'd machine \<Rightarrow> (bool, 'd machine) outcome" where
  "trans_mulw_d_w a env = set_rd a (sext 32 (gpr env (rj a)) * sext 32 (gpr env (rk a))) env"

definition trans_mulw_d_wu :: "insn_arg \<Rightarrow> 'd machine \<Rightarrow> (bool, 'd machine) outcome" where
  "trans_mulw_d_wu a env = set_rd a (take_bit 32 (gpr env (rj a)) * take_bit 32 (gpr env (rk a))) env"

definition trans_div_w :: "insn_arg \<Rightarrow> 'd machine \<Rightarrow> (bool, 'd machine) outcome" where
  "trans_div_w a env =
    (case safe_sdiv 32 (gpr env (rj a)) (gpr env (rk a)) of None \<Rightarrow> Crash | Some v \<Rightarrow> set_rd a v env)"

definition trans_mod_w :: "insn_arg \<Rightarrow> 'd machine \<Rightarrow> (bool, 'd machine) outcome" where
  "trans_mod_w a env =
    (case safe_smod 32 (gpr env (rj a)) (gpr env (rk a)) of None \<Rightarrow> Crash | Some v \<Rightarrow> set_rd a v env)"

definition trans_div_wu :: "insn_arg \<Rightarrow> 'd machine \<Rightarrow> (bool, 'd machine) outcome" where
  "trans_div_wu a env =
    set_rd a (sext 32 (udiv_or_0 (take_bit 32 (gpr env (rj a))) (take_bit 32 (gpr env (rk a))))) env"

definition trans_mod_wu :: "insn_arg \<Rightarrow> 'd machine \<Rightarrow> (bool, 'd machine) outcome" where
  "trans_mod_wu a env = set_rd a (umod_or_0 (take_bit 32 (gpr env (rj a))) (take_bit 32 (gpr env (rk a)))) env"

definition trans_div_d :: "insn_arg \<Rightarrow> 'd machine \<Rightarrow> (bool, 'd machine) outcome" where
  "trans_div_d a env =
    (case safe_sdiv 64 (gpr env (rj a)) (gpr env (rk a)) of None \<Rightarrow> Crash | Some v \<Rightarrow> set_rd a v env)"

definition trans_mod_d :: "insn_arg \<Rightarrow> 'd machine \<Rightarrow> (bool, 'd machine) outcome" where
  "trans_mod_d a env =
    (case safe_smod 64 (gpr env (rj a)) (gpr env (rk a)) of None \<Rightarrow> Crash | Some v \<Rightarrow> set_rd a v env)"

definition trans_div_du :: "insn_arg \<Rightarrow> 'd machine \<Rightarrow> (bool, 'd machine) outcome" where
  "trans_div_du a env = set_rd a (udiv_or_0 (gpr env (rj a)) (gpr env (rk a))) env"

definition trans_mod_du :: "insn_arg \<Rightarrow> 'd machine \<Rightarrow> (bool, 'd machine) outcome" where
  "trans_mod_du a env = set_rd a (umod_or_0 (gpr env (rj a)) (gpr env (rk a))) env"

definition trans_alsl_w :: "insn_arg \<Rightarrow> 'd machine \<Rightarrow> (bool, 'd machine) outcome" where
  "trans_alsl_w a env = set_rd a (sext 32 (push_bit (nat (sa a)) (gpr env (rj a)) + gpr env (rk a))) env"

definition trans_alsl_wu :: "insn_arg \<Rightarrow> 'd machine \<Rightarrow> (bool, 'd machine) outcome" where
  "trans_alsl_wu a env = set_rd a (take_bit 32 (push_bit (nat (sa a)) (gpr env (rj a)) + gpr env (rk a))) env"

definition trans_alsl_d :: "insn_arg \<Rightarrow> 'd machine \<Rightarrow> (bool, 'd machine) outcome" where
  "trans_alsl_d a env = set_rd a (push_bit (nat (sa a)) (gpr env (rj a)) + gpr env (rk a)) env"

definition trans_lu12i_w :: "insn_arg \<Rightarrow> 'd machine \<Rightarrow> (bool, 'd machine) outcome" where
  "trans_lu12i_w a env = set_rd a (sext 32 (push_bit 12 (immw a))) env"

definition trans_lu32i_d :: "insn_arg \<Rightarrow> 'd machine \<Rightarrow> (bool, 'd machine) outcome" where
  "trans_lu32i_d a env = set_rd a (take_bit 32 (gpr env (rd a)) OR push_bit 32 (immw a)) env"

definition trans_lu52i_d :: "insn_arg \<Rightarrow> 'd machine \<Rightarrow> (bool, 'd machine) outcome" where
  "trans_lu52i_d a env = set_rd a (deposit64 (gpr env (rj a)) 52 12 (immw a)) env"

definition trans_pcaddi :: "insn_arg \<Rightarrow> 'd machine \<Rightarrow> (bool, 'd machine) outcome" where
  "trans_pcaddi a env = set_rd a (pc env + sext 32 (push_bit 2 (immw a))) env"

definition trans_pcalau12i :: "insn_arg \<Rightarrow> 'd machine \<Rightarrow> (bool, 'd machine) outcome" where
  "trans_pcalau12i a env = set_rd a ((pc env + sext 32 (push_bit 12 (immw a))) AND NOT 0xfff) env"

definition trans_pcaddu12i :: "insn_arg \<Rightarrow> 'd machine \<Rightarrow> (bool, 'd machine) outcome" where
  "trans_pcaddu12i a env = set_rd a (pc env + sext 32 (push_bit 12 (immw a))) env"

definition trans_pcaddu18i :: "insn_arg \<Rightarrow> 'd machine \<Rightarrow> (bool, 'd machine) outcome" where
  "trans_pcaddu18i a env = set_rd a (pc env + push_bit 18 (immw a)) env"

definition trans_addi_w :: "insn_arg \<Rightarrow> 'd machine \<Rightarrow> (bool, 'd machine) outcome" where
  "trans_addi_w a env = set_rd a (sext 32 (gpr env (rj a) + immw a)) env"

definition trans_addi_d :: "insn_arg \<Rightarrow> 'd machine \<Rightarrow> (bool, 'd machine) outcome" where
  "trans_addi_d a env = set_rd a (gpr env (rj a) + immw a) env"

definition trans_addu16i_d :: "insn_arg \<Rightarrow> 'd machine \<Rightarrow> (bool, 'd machine) outcome" where
  "trans_addu16i_d a env = set_rd a (gpr env (rj a) + sext 32 (push_bit 16 (immw a))) env"

definition trans_andi :: "insn_arg \<Rightarrow> 'd machine \<Rightarrow> (bool, 'd machine) outcome" where
  "trans_andi a env = set_rd a (gpr env (rj a) AND immw a) env"

definition trans_ori :: "insn_arg \<Rightarrow> 'd machine \<Rightarrow> (bool, 'd machine) outcome" where
  "trans_ori a env = set_rd a (gpr env (rj a) OR immw a) env"

definition trans_xori :: "insn_arg \<Rightarrow> 'd machine \<Rightarrow> (bool, 'd machine) outcome" where
  "trans_xori a env = set_rd a (gpr env (rj a) XOR immw a) env"

definition trans_sll_w :: "insn_arg \<Rightarrow> 'd machine \<Rightarrow> (bool, 'd machine) outcome" where
  "trans_sll_w a env = set_rd a (sext 32 (push_bit (unat (gpr env (rk a) AND 0x1f)) (gpr env (rj a)))) env"

definition trans_srl_w :: "insn_arg \<Rightarrow> 'd machine \<Rightarrow> (bool, 'd machine) outcome" where
  "trans_srl_w a env =
    set_rd a (sext 32 (drop_bit (unat (gpr env (rk a) AND 0x1f)) (take_bit 32 (gpr env (rj a))))) env"

definition trans_sra_w :: "insn_arg \<Rightarrow> 'd machine \<Rightarrow> (bool, 'd machine) outcome" where
  "trans_sra_w a env = set_rd a (signed_drop_bit (unat (gpr env (rk a) AND 0x1f)) (sext 32 (gpr env (rj a)))) env"

definition trans_sll_d :: "insn_arg \<Rightarrow> 'd machine \<Rightarrow> (bool, 'd machine) outcome" where
  "trans_sll_d a env = set_rd a (push_bit (unat (gpr env (rk a) AND 0x3f)) (gpr env (rj a))) env"

definition trans_srl_d :: "insn_arg \<Rightarrow> 'd machine \<Rightarrow> (bool, 'd machine) outcome" where
  "trans_srl_d a env = set_rd a (drop_bit (unat (gpr env (rk a) AND 0x3f)) (gpr env (rj a))) env"

definition trans_sra_d :: "insn_arg \<Rightarrow> 'd machine \<Rightarrow> (bool, 'd machine) outcome" where
  "trans_sra_d a env = set_rd a (signed_drop_bit (unat (gpr env (rk a) AND 0x3f)) (gpr env (rj a))) env"

definition trans_rotr_w :: "insn_arg \<Rightarrow> 'd machine \<Rightarrow> (bool, 'd machine) outcome" where
  "trans_rotr_w a env = set_rd a (rotr_w_val (gpr env (rj a)) (unat (gpr env (rk a) AND 0x1f))) env"

definition trans_rotr_d :: "insn_arg \<Rightarrow> 'd machine \<Rightarrow> (bool, 'd machine) outcome" where
  "trans_rotr_d a env = set_rd a (rotr_d_val (gpr env (rj a)) (unat (gpr env (rk a) AND 0x3f))) env"

definition trans_slli_w :: "insn_arg \<Rightarrow> 'd machine \<Rightarrow> (bool, 'd machine) outcome" where
  "trans_slli_w a env = set_rd a (sext 32 (push_bit (nat (imm a)) (gpr env (rj a)))) env"

definition trans_slli_d :: "insn_arg \<Rightarrow> 'd machine \<Rightarrow> (bool, 'd machine) outcome" where
  "trans_slli_d a env = set_rd a (push_bit (nat (imm a)) (gpr env (rj a))) env"

definition trans_srli_w :: "insn_arg \<Rightarrow> 'd machine \<Rightarrow> (bool, 'd machine) outcome" where
  "trans_srli_w a env = set_rd a (sext 32 (drop_bit (nat (imm a)) (take_bit 32 (gpr env (rj a))))) env"

definition trans_srli_d :: "insn_arg \<Rightarrow> 'd machine \<Rightarrow> (bool, 'd machine) outcome" where
  "trans_srli_d a env = set_rd a (drop_bit (nat (imm a)) (gpr env (rj a))) env"

definition trans_srai_w :: "insn_arg \<Rightarrow> 'd machine \<Rightarrow> (bool, 'd machine) outcome" where
  "trans_srai_w a env = set_rd a (signed_drop_bit (nat (imm a)) (sext 32 (gpr env (rj a)))) env"

definition trans_srai_d :: "insn_arg \<Rightarrow> 'd machine \<Rightarrow> (bool, 'd machine) outcome" where
  "trans_srai_d a env = set_rd a (signed_drop_bit (nat (imm a)) (gpr env (rj a))) env"

definition trans_rotri_w :: "insn_arg \<Rightarrow> 'd machine \<Rightarrow> (bool, 'd machine) outcome" where
  "trans_rotri_w a env = set_rd a (rotr_w_val (gpr env (rj a)) (nat (imm a AND 0x1f))) env"

definition trans_rotri_d :: "insn_arg \<Rightarrow> 'd machine \<Rightarrow> (bool, 'd machine) outcome" where
  "trans_rotri_d a env = set_rd a (rotr_d_val (gpr env (rj a)) (nat (imm a AND 0x3f))) env"

definition trans_ext_w_h :: "insn_arg \<Rightarrow> 'd machine \<Rightarrow> (bool, 'd machine) outcome" where
  "trans_ext_w_h a env = set_rd a (sext 16 (gpr env (rj a))) env"

definition trans_ext_w_b :: "insn_arg \<Rightarrow> 'd machine \<Rightarrow> (bool, 'd machine) outcome" where
  "trans_ext_w_b a env = set_rd a (sext 8 (gpr env (rj a))) env"

definition trans_clo_w :: "insn_arg \<Rightarrow> 'd machine \<Rightarrow> (bool, 'd machine) outcome" where
  "trans_clo_w a env =
    set_rd a (if gpr env (rj a) \<noteq> 0 then of_nat (clo32 (ucast (gpr env (rj a)))) else 0) env"

definition trans_clz_w :: "insn_arg \<Rightarrow> 'd machine \<Rightarrow> (bool, 'd machine) outcome" where
  "trans_clz_w a env =
    set_rd a (if gpr env (rj a) \<noteq> 0 then of_nat (clz32 (ucast (gpr env (rj a)))) else 32) env"

definition trans_cto_w :: "insn_arg \<Rightarrow> 'd machine \<Rightarrow> (bool, 'd machine) outcome" where
  "trans_cto_w a env =
    set_rd a (if gpr env (rj a) \<noteq> 0 then of_nat (cto32 (ucast (gpr env (rj a)))) else 0) env"

definition trans_ctz_w :: "insn_arg \<Rightarrow> 'd machine \<Rightarrow> (bool, 'd machine) outcome" where
  "trans_ctz_w a env =
    set_rd a (if gpr env (rj a) \<noteq> 0 then of_nat (ctz32 (ucast (gpr env (rj a)))) else 32) env"

definition trans_clo_d :: "insn_arg \<Rightarrow> 'd machine \<Rightarrow> (bool, 'd machine) outcome" where
  "trans_clo_d a env = set_rd a (if gpr env (rj a) \<noteq> 0 then of_nat (clo64 (gpr env (rj a))) else 0) env"

definition trans_clz_d :: "insn_arg \<Rightarrow> 'd machine \<Rightarrow> (bool, 'd machine) outcome" where
  "trans_clz_d a env = set_rd a (if gpr env (rj a) \<noteq> 0 then of_nat (clz64 (gpr env (rj a))) else 64) env"

definition trans_cto_d :: "insn_arg \<Rightarrow> 'd machine \<Rightarrow> (bool, 'd machine) outcome" where
  "trans_cto_d a env = set_rd a (if gpr env (rj a) \<noteq> 0 then of_nat (cto64 (gpr env (rj a))) else 0) env"

definition trans_ctz_d :: "insn_arg \<Rightarrow> 'd machine \<Rightarrow> (bool, 'd machine) outcome" where
  "trans_ctz_d a env = set_rd a (if gpr env (rj a) \<noteq> 0 then of_nat (ctz64 (gpr env (rj a))) else 64) env"

definition trans_revb_2h :: "insn_arg \<Rightarrow> 'd machine \<Rightarrow> (bool, 'd machine) outcome" where
  "trans_revb_2h a env =
    set_rd a (let m = 0x00FF00FF; x = (ucast (gpr env (rj a)) :: u32)
      in scast ((drop_bit 8 x AND m) OR push_bit 8 (x AND m))) env"

definition trans_revb_4h :: "insn_arg \<Rightarrow> 'd machine \<Rightarrow> (bool, 'd machine) outcome" where
  "trans_revb_4h a env =
    set_rd a (let m = 0x00FF00FF00FF00FF; x = gpr env (rj a) in (drop_bit 8 x AND m) OR push_bit 8 (x AND m)) env"

definition trans_revb_2w :: "insn_arg \<Rightarrow> 'd machine \<Rightarrow> (bool, 'd machine) outcome" where
  "trans_revb_2w a env =
    set_rd a (let x = gpr env (rj a)
      in drop_bit 24 (x AND 0xFF00000000000000)
        OR drop_bit 8 (x AND 0x00FF000000000000)
        OR push_bit 8 (x AND 0x0000FF0000000000)
        OR push_bit 24 (x AND 0x000000FF00000000)
        OR drop_bit 24 (x AND 0x00000000FF000000)
        OR drop_bit 8 (x AND 0x0000000000FF0000)
        OR push_bit 8 (x AND 0x000000000000FF00)
        OR push_bit 24 (x AND 0x00000000000000FF)) env"

definition trans_revb_d :: "insn_arg \<Rightarrow> 'd machine \<Rightarrow> (bool, 'd machine) outcome" where
  "trans_revb_d a env =
    set_rd a (let x = gpr env (rj a)
      in drop_bit 56 (x AND 0xFF00000000000000)
        OR drop_bit 40 (x AND 0x00FF000000000000)
        OR drop_bit 24 (x AND 0x0000FF0000000000)
        OR drop_bit 8 (x AND 0x000000FF00000000)
        OR push_bit 8 (x AND 0x00000000FF000000)
        OR push_bit 24 (x AND 0x0000000000FF0000)
        OR push_bit 40 (x AND 0x000000000000FF00)
        OR push_bit 56 (x AND 0x00000000000000FF)) env"

definition trans_revh_2w :: "insn_arg \<Rightarrow> 'd machine \<Rightarrow> (bool, 'd machine) outcome" where
  "trans_revh_2w a env =
    set_rd a (let x = gpr env (rj a)
      in drop_bit 16 (x AND 0xFFFF000000000000)
        OR push_bit 16 (x AND 0x0000FFFF00000000)
        OR drop_bit 16 (x AND 0x00000000FFFF0000)
        OR push_bit 16 (x AND 0x000000000000FFFF)) env"

definition trans_revh_d :: "insn_arg \<Rightarrow> 'd machine \<Rightarrow> (bool, 'd machine) outcome" where
  "trans_revh_d a env =
    set_rd a (let m = 0x0000FFFF0000FFFF; x = gpr env (rj a);
      t = (drop_bit 16 x AND m) OR push_bit 16 (x AND m)
      in drop_bit 32 t OR push_bit 32 t) env"

definition trans_bitrev_4b :: "insn_arg \<Rightarrow> 'd machine \<Rightarrow> (bool, 'd machine) outcome" where
  "trans_bitrev_4b a env = gen_rd a EXT_SIGN (helper_bitswap (gpr env (rj a))) env"

definition trans_bitrev_8b :: "insn_arg \<Rightarrow> 'd machine \<Rightarrow> (bool, 'd machine) outcome" where
  "trans_bitrev_8b a env = gen_rd a EXT_NONE (helper_bitswap (gpr env (rj a))) env"

definition trans_bitrev_w :: "insn_arg \<Rightarrow> 'd machine \<Rightarrow> (bool, 'd machine) outcome" where
  "trans_bitrev_w a env = gen_rd a EXT_SIGN (ucast (revbit32 (ucast (gpr env (rj a))))) env"

definition trans_bitrev_d :: "insn_arg \<Rightarrow> 'd machine \<Rightarrow> (bool, 'd machine) outcome" where
  "trans_bitrev_d a env = gen_rd a EXT_NONE (revbit64 (gpr env (rj a))) env"

definition trans_bytepick_w :: "insn_arg \<Rightarrow> 'd machine \<Rightarrow> (bool, 'd machine) outcome" where
  "trans_bytepick_w a env =
    set_rd a (let t = push_bit 32 (gpr env (rk a)) OR take_bit 32 (gpr env (rj a))
      in sext 32 (drop_bit (nat (32 - sa a * 8)) t)) env"

definition trans_bytepick_d :: "insn_arg \<Rightarrow> 'd machine \<Rightarrow> (bool, 'd machine) outcome" where
  "trans_bytepick_d a env =
    set_rd a (let high = push_bit (nat (sa a * 8)) (gpr env (rk a)); 
      low = (if sa a \<noteq> 0 then drop_bit (nat (64 - sa a * 8)) (gpr env (rj a)) else 0)
      in high OR low) env"

definition trans_maskeqz :: "insn_arg \<Rightarrow> 'd machine \<Rightarrow> (bool, 'd machine) outcome" where
  "trans_maskeqz a env = set_rd a (if gpr env (rk a) = 0 then 0 else gpr env (rj a)) env"

definition trans_masknez :: "insn_arg \<Rightarrow> 'd machine \<Rightarrow> (bool, 'd machine) outcome" where
  "trans_masknez a env = set_rd a (if gpr env (rk a) \<noteq> 0 then 0 else gpr env (rj a)) env"

definition trans_add_wu :: "insn_arg \<Rightarrow> 'd machine \<Rightarrow> (bool, 'd machine) outcome" where
  "trans_add_wu a env = gen_rd a EXT_NONE (gpr_src env (rj a) EXT_ZERO + gpr_src env (rk a) EXT_NONE) env"

definition trans_alsl_uw :: "insn_arg \<Rightarrow> 'd machine \<Rightarrow> (bool, 'd machine) outcome" where
  "trans_alsl_uw a env =
    gen_rd a EXT_NONE (take_bit 32 (push_bit (nat (sa a)) (gpr_src env (rj a) EXT_ZERO)) + gpr_src env (rk a) EXT_NONE) env"

definition trans_bitinv :: "insn_arg \<Rightarrow> 'd machine \<Rightarrow> (bool, 'd machine) outcome" where
  "trans_bitinv a env =
    gen_rd a EXT_NONE (gpr_src env (rj a) EXT_NONE XOR push_bit (unat (gpr_src env (rk a) EXT_NONE AND 0x3f)) 1) env"

definition trans_bitinvi :: "insn_arg \<Rightarrow> 'd machine \<Rightarrow> (bool, 'd machine) outcome" where
  "trans_bitinvi a env = gen_rd a EXT_NONE (gpr_src env (rj a) EXT_NONE XOR push_bit (nat (imm a)) 1) env"

definition trans_max :: "insn_arg \<Rightarrow> 'd machine \<Rightarrow> (bool, 'd machine) outcome" where
  "trans_max a env =
    gen_rd a EXT_NONE (let x = gpr_src env (rj a) EXT_NONE; y = gpr_src env (rk a) EXT_NONE in if x <s y then y else x) env"

definition trans_maxu :: "insn_arg \<Rightarrow> 'd machine \<Rightarrow> (bool, 'd machine) outcome" where
  "trans_maxu a env = gen_rd a EXT_NONE (max (gpr_src env (rj a) EXT_NONE) (gpr_src env (rk a) EXT_NONE)) env"

definition trans_maxwu :: "insn_arg \<Rightarrow> 'd machine \<Rightarrow> (bool, 'd machine) outcome" where
  "trans_maxwu a env = gen_rd a EXT_NONE (max (gpr_src env (rj a) EXT_ZERO) (gpr_src env (rk a) EXT_ZERO)) env"

definition trans_min :: "insn_arg \<Rightarrow> 'd machine \<Rightarrow> (bool, 'd machine) outcome" where
  "trans_min a env =
    gen_rd a EXT_NONE (let x = gpr_src env (rj a) EXT_NONE; y = gpr_src env (rk a) EXT_NONE in if x <s y then x else y) env"

definition trans_minu :: "insn_arg \<Rightarrow> 'd machine \<Rightarrow> (bool, 'd machine) outcome" where
  "trans_minu a env = gen_rd a EXT_NONE (min (gpr_src env (rj a) EXT_NONE) (gpr_src env (rk a) EXT_NONE)) env"

definition trans_minwu :: "insn_arg \<Rightarrow> 'd machine \<Rightarrow> (bool, 'd machine) outcome" where
  "trans_minwu a env = gen_rd a EXT_NONE (min (gpr_src env (rj a) EXT_ZERO) (gpr_src env (rk a) EXT_ZERO)) env"

definition trans_orc_b :: "insn_arg \<Rightarrow> 'd machine \<Rightarrow> (bool, 'd machine) outcome" where
  "trans_orc_b a env =
    gen_rd a EXT_NONE (orc_b_loop [0, 8, 16, 24, 32, 40, 48, 56] (gpr_src env (rj a) EXT_NONE) 0) env"

definition trans_pcnt_w :: "insn_arg \<Rightarrow> 'd machine \<Rightarrow> (bool, 'd machine) outcome" where
  "trans_pcnt_w a env = gen_rd a EXT_NONE (of_nat (ctpop32 (ucast (gpr_src env (rj a) EXT_ZERO)))) env"

definition trans_pcnt_d :: "insn_arg \<Rightarrow> 'd machine \<Rightarrow> (bool, 'd machine) outcome" where
  "trans_pcnt_d a env = gen_rd a EXT_NONE (of_nat (ctpop64 (gpr_src env (rj a) EXT_NONE))) env"

definition trans_slli_wu :: "insn_arg \<Rightarrow> 'd machine \<Rightarrow> (bool, 'd machine) outcome" where
  "trans_slli_wu a env = gen_rd a EXT_NONE (push_bit (nat (imm a)) (gpr_src env (rj a) EXT_ZERO)) env"

definition trans_xnor :: "insn_arg \<Rightarrow> 'd machine \<Rightarrow> (bool, 'd machine) outcome" where
  "trans_xnor a env = gen_rd a EXT_NONE (NOT (gpr_src env (rj a) EXT_NONE XOR gpr_src env (rk a) EXT_NONE)) env"


section \<open>Bit strings\<close>

text \<open>\<open>deposit\<close> and \<open>extract\<close> assert that the field lies in the word. The insertions do not check \<open>ls <= ms\<close>
  first, as the extractions do.\<close>

definition trans_bstrins_w :: "insn_arg \<Rightarrow> 'd machine \<Rightarrow> (bool, 'd machine) outcome" where
  "trans_bstrins_w a env =
    (let len = ms a - ls a + 1
     in if bitfield_ok 32 (ls a) len
        then set_rd a (scast (deposit32 (ucast (gpr env (rd a))) (nat (ls a)) (nat len) (ucast (gpr env (rj a))))) env
        else Crash)"

definition trans_bstrpick_w :: "insn_arg \<Rightarrow> 'd machine \<Rightarrow> (bool, 'd machine) outcome" where
  "trans_bstrpick_w a env =
    (let len = ms a - ls a + 1
     in if ls a > ms a then Ret False env
        else if bitfield_ok 32 (ls a) len
        then set_rd a (scast (extract32 (ucast (gpr env (rj a))) (nat (ls a)) (nat len))) env
        else Crash)"

definition trans_bstrins_d :: "insn_arg \<Rightarrow> 'd machine \<Rightarrow> (bool, 'd machine) outcome" where
  "trans_bstrins_d a env =
    (let len = ms a - ls a + 1
     in if bitfield_ok 64 (ls a) len
        then set_rd a (deposit64 (gpr env (rd a)) (nat (ls a)) (nat len) (gpr env (rj a))) env
        else Crash)"

definition trans_bstrpick_d :: "insn_arg \<Rightarrow> 'd machine \<Rightarrow> (bool, 'd machine) outcome" where
  "trans_bstrpick_d a env =
    (let len = ms a - ls a + 1
     in if ls a > ms a then Ret False env
        else if bitfield_ok 64 (ls a) len
        then set_rd a (extract64 (gpr env (rj a)) (nat (ls a)) (nat len)) env
        else Crash)"

section \<open>The list of these instructions\<close>

text \<open>Every instruction above that cannot crash, for the statements about all of them.\<close>

definition alu_ops :: "'d trans list" where
  "alu_ops = [
    trans_add_w, trans_add_d, trans_sub_w, trans_sub_d, trans_slt, trans_sltu, trans_slti, trans_sltui,
    trans_nor, trans_and, trans_or, trans_xor, trans_orn, trans_andn, trans_mul_w, trans_mulh_w,
    trans_mulh_wu, trans_mul_d, trans_mulh_d, trans_mulh_du, trans_mulw_d_w, trans_mulw_d_wu, trans_div_wu,
    trans_mod_wu, trans_div_du, trans_mod_du, trans_alsl_w, trans_alsl_wu, trans_alsl_d, trans_lu12i_w,
    trans_lu32i_d, trans_lu52i_d, trans_pcaddi, trans_pcalau12i, trans_pcaddu12i, trans_pcaddu18i,
    trans_addi_w, trans_addi_d, trans_addu16i_d, trans_andi, trans_ori, trans_xori, trans_sll_w,
    trans_srl_w, trans_sra_w, trans_sll_d, trans_srl_d, trans_sra_d, trans_rotr_w, trans_rotr_d,
    trans_slli_w, trans_slli_d, trans_srli_w, trans_srli_d, trans_srai_w, trans_srai_d, trans_rotri_w,
    trans_rotri_d, trans_ext_w_h, trans_ext_w_b, trans_clo_w, trans_clz_w, trans_cto_w, trans_ctz_w,
    trans_clo_d, trans_clz_d, trans_cto_d, trans_ctz_d, trans_revb_2h, trans_revb_4h, trans_revb_2w,
    trans_revb_d, trans_revh_2w, trans_revh_d, trans_bitrev_4b, trans_bitrev_8b, trans_bitrev_w,
    trans_bitrev_d, trans_bytepick_w, trans_bytepick_d, trans_maskeqz, trans_masknez, trans_add_wu,
    trans_alsl_uw, trans_bitinv, trans_bitinvi, trans_max, trans_maxu, trans_maxwu, trans_min, trans_minu,
    trans_minwu, trans_orc_b, trans_pcnt_w, trans_pcnt_d, trans_slli_wu, trans_xnor]"

lemmas alu_defs =
  trans_add_w_def trans_add_d_def trans_sub_w_def trans_sub_d_def trans_slt_def trans_sltu_def
  trans_slti_def trans_sltui_def trans_nor_def trans_and_def trans_or_def trans_xor_def trans_orn_def
  trans_andn_def trans_mul_w_def trans_mulh_w_def trans_mulh_wu_def trans_mul_d_def trans_mulh_d_def
  trans_mulh_du_def trans_mulw_d_w_def trans_mulw_d_wu_def trans_div_wu_def trans_mod_wu_def
  trans_div_du_def trans_mod_du_def trans_alsl_w_def trans_alsl_wu_def trans_alsl_d_def trans_lu12i_w_def
  trans_lu32i_d_def trans_lu52i_d_def trans_pcaddi_def trans_pcalau12i_def trans_pcaddu12i_def
  trans_pcaddu18i_def trans_addi_w_def trans_addi_d_def trans_addu16i_d_def trans_andi_def trans_ori_def
  trans_xori_def trans_sll_w_def trans_srl_w_def trans_sra_w_def trans_sll_d_def trans_srl_d_def
  trans_sra_d_def trans_rotr_w_def trans_rotr_d_def trans_slli_w_def trans_slli_d_def trans_srli_w_def
  trans_srli_d_def trans_srai_w_def trans_srai_d_def trans_rotri_w_def trans_rotri_d_def trans_ext_w_h_def
  trans_ext_w_b_def trans_clo_w_def trans_clz_w_def trans_cto_w_def trans_ctz_w_def trans_clo_d_def
  trans_clz_d_def trans_cto_d_def trans_ctz_d_def trans_revb_2h_def trans_revb_4h_def trans_revb_2w_def
  trans_revb_d_def trans_revh_2w_def trans_revh_d_def trans_bitrev_4b_def trans_bitrev_8b_def
  trans_bitrev_w_def trans_bitrev_d_def trans_bytepick_w_def trans_bytepick_d_def trans_maskeqz_def
  trans_masknez_def trans_add_wu_def trans_alsl_uw_def trans_bitinv_def trans_bitinvi_def trans_max_def
  trans_maxu_def trans_maxwu_def trans_min_def trans_minu_def trans_minwu_def trans_orc_b_def
  trans_pcnt_w_def trans_pcnt_d_def trans_slli_wu_def trans_xnor_def

lemma set_rd_eq: "set_rd a v env = Ret True (env\<lparr>gpr := (gpr env)(rd a := v), pc := pc env + 4\<rparr>)"
  by (simp add: set_rd_def next_insn_def cpu_set_pc_def)

lemma set_rd_effect: "\<exists>v. set_rd a w env = Ret True (env\<lparr>gpr := (gpr env)(rd a := v), pc := pc env + 4\<rparr>)"
  by (auto simp: set_rd_eq)

lemma gen_rd_effect: "\<exists>v. gen_rd a x w env = Ret True (env\<lparr>gpr := (gpr env)(rd a := v), pc := pc env + 4\<rparr>)"
proof (cases "rd a = 0")
  case True
  then show ?thesis
    by (intro exI [of _ "gpr env 0"]) (simp add: gen_rd_def gen_set_gpr_def next_insn_def cpu_set_pc_def)
qed (auto simp: gen_rd_def gen_set_gpr_def next_insn_def cpu_set_pc_def)

section \<open>Bits of the operands\<close>

lemma bit_immw: "bit (immw a) n \<longleftrightarrow> n < 64 \<and> bit (imm a) n"
  by (auto simp: immw_def bit_simps)

lemma constant_parts:
  fixes c :: u64
  shows "deposit64 (take_bit 32 (sext 32 (push_bit 12 (immw (a\<lparr>imm := signed_take_bit 19 (uint (drop_bit 12 c))\<rparr>)))
      OR immw (a\<lparr>imm := uint (take_bit 12 c)\<rparr>)) OR push_bit 32 (immw (a\<lparr>imm := signed_take_bit 19 (uint (drop_bit 32 c))\<rparr>)))
    52 12 (immw (a\<lparr>imm := signed_take_bit 11 (uint (drop_bit 52 c))\<rparr>)) = c" (is "?l = c")
proof (rule bit_word_eqI)
  fix n assume "n < LENGTH(64)"
  then consider "n < 12" | "12 \<le> n" "n < 31" | "n = 31" | "32 \<le> n" "n < 51" | "n = 51" | "52 \<le> n" "n < 63" | "n = 63" by force
  then show "bit ?l n = bit c n"
    by cases (simp_all add: bit_deposit64 bit_simps bit_sext bit_immw min_def)
qed

section \<open>Signed division\<close>

lemma sint_of_int:
  assumes "- (2 ^ 63) \<le> k" and "k < 2 ^ 63"
  shows "sint (word_of_int k :: u64) = k"
  using assms by (simp add: sint_sbintrunc' signed_take_bit_int_eq_self)

lemma sint_sext_bounds:
  assumes "0 < w" and "w \<le> 64"
  shows "- (2 ^ (w - 1)) \<le> sint (sext w v)" "sint (sext w v) < 2 ^ (w - 1)"
proof -
  have eq: "sint (sext w v) = signed_take_bit (w - 1) (sint v)"
    using assms by (intro bit_eqI) (auto simp: bit_simps sext_def min_def)
  show "- (2 ^ (w - 1)) \<le> sint (sext w v)" "sint (sext w v) < 2 ^ (w - 1)"
    unfolding eq by (simp_all add: signed_take_bit_int_greater_eq_minus_exp signed_take_bit_int_less_exp)
qed

lemma sdiv_bounds:
  fixes n d :: int
  assumes "d \<noteq> 0" and "- (2 ^ m) \<le> n" and "n < 2 ^ m" and "\<not> (n = - (2 ^ m) \<and> d = - 1)"
  shows "- (2 ^ m) \<le> n sdiv d" and "n sdiv d < 2 ^ m"
proof -
  have q: "\<bar>n sdiv d\<bar> = \<bar>n\<bar> div \<bar>d\<bar>" 
    by (cases "n = 0") (simp_all add: signed_divide_int_def abs_mult assms(1) pos_imp_zdiv_nonneg_iff)
  have le: "\<bar>n\<bar> div \<bar>d\<bar> \<le> \<bar>n\<bar>" using q sdiv_int_range [of n d] by auto
  show "- (2 ^ m) \<le> n sdiv d" using q le assms(2,3) by linarith
  show "n sdiv d < 2 ^ m"
  proof (cases "n = - (2 ^ m)")
    case False
    then show ?thesis using q le assms(2,3) by linarith
  next
    case True
    show ?thesis
    proof (cases "0 < d")
      case True
      then have "n sdiv d \<le> 0" using \<open>n = - (2 ^ m)\<close> by (simp add: signed_divide_int_def sgn_mult mult_le_0_iff pos_imp_zdiv_nonneg_iff)
      then show ?thesis by (simp add: le_less_trans)
    next
      case False
      then have "2 \<le> \<bar>d\<bar>" using assms(1,4) True by linarith
      then have "\<bar>n\<bar> div \<bar>d\<bar> < \<bar>n\<bar>" using True by (simp add: int_div_less_self)
      moreover have "\<bar>n\<bar> = 2 ^ m" using True by simp
      ultimately show ?thesis using q by linarith
    qed
  qed
qed

lemma smod_remainder:
  fixes n d :: int
  assumes "d \<noteq> 0"
  shows "\<bar>n smod d\<bar> < \<bar>d\<bar>" and "n smod d = 0 \<or> sgn (n smod d) = sgn n"
proof -
  show "\<bar>n smod d\<bar> < \<bar>d\<bar>" using smod_int_range [OF assms, of n] by auto
  show "n smod d = 0 \<or> sgn (n smod d) = sgn n"
  proof -
    have "0 \<le> n \<Longrightarrow> 0 \<le> n smod d" "n \<le> 0 \<Longrightarrow> n smod d \<le> 0"
      using assms smod_int_compares(2,4,6,7) [of n d] by (meson linorder_cases)+
    moreover have "n = 0 \<Longrightarrow> n smod d = 0" by simp
    ultimately show ?thesis by (auto simp: sgn_if)
  qed
qed

section \<open>Reversals and products\<close>

lemma revb_d_bswap: "trans_revb_d a env = set_rd a (bswap64 (gpr env (rj a))) env"
proof -
  have "drop_bit 56 (x AND 0xFF00000000000000) OR drop_bit 40 (x AND 0x00FF000000000000)
      OR drop_bit 24 (x AND 0x0000FF0000000000) OR drop_bit 8 (x AND 0x000000FF00000000)
      OR push_bit 8 (x AND 0x00000000FF000000) OR push_bit 24 (x AND 0x0000000000FF0000)
      OR push_bit 40 (x AND 0x000000000000FF00) OR push_bit 56 (x AND 0x00000000000000FF) = bswap64 x" (is "?l = _") for x
  proof (rule bit_word_eqI)
    have "\<forall>n \<in> set [0..<64]. bit ?l n = bit (bswap64 x) n"
      by (simp add: bswap64_def upt_0_1 bit_simps)
    then show "bit ?l n = bit (bswap64 x) n" if "n < LENGTH(64)" for n using that by simp
  qed
  then show ?thesis by (simp add: trans_revb_d_def Let_def)
qed

lemma revh_d_hswap: "trans_revh_d a env = set_rd a (hswap64 (gpr env (rj a))) env"
proof -
  have "(let m = 0x0000FFFF0000FFFF; t = (drop_bit 16 x AND m) OR push_bit 16 (x AND m) in drop_bit 32 t OR push_bit 32 t)
      = hswap64 x" (is "?l = _") for x
  proof (rule bit_word_eqI)
    have "\<forall>n \<in> set [0..<64]. bit ?l n = bit (hswap64 x) n"
      by (simp add: hswap64_def rol64_def upt_0_1 bit_simps Let_def)
    then show "bit ?l n = bit (hswap64 x) n" if "n < LENGTH(64)" for n using that by simp
  qed
  then show ?thesis by (simp add: trans_revh_d_def Let_def)
qed

lemma bit_twice: "bit (x * 2 :: u64) n \<longleftrightarrow> n \<noteq> 0 \<and> n < 64 \<and> bit x (n - 1)"
  by (auto simp: mult.commute [of x 2] bit_double_iff)

lemma bitswap_bit: "n < 64 \<Longrightarrow> bit (helper_bitswap x) n = bit x (8 * (n div 8) + (7 - n mod 8))"
proof -
  have "\<forall>n \<in> set [0..<64]. bit (helper_bitswap x) n = bit x (8 * (n div 8) + (7 - n mod 8))"
    by (simp add: helper_bitswap_def upt_0_1 bit_simps bit_twice Let_def) (simp add: numeral_2_eq_2)
  then show "n < 64 \<Longrightarrow> ?thesis" by simp
qed

lemma revbit64_bitswap: "revbit64 x = helper_bitswap (bswap64 x)"
proof (rule bit_word_eqI)
  fix n assume "n < LENGTH(64)"
  define q r where "q = n div 8" and "r = n mod 8"
  then have qr: "n = 8 * q + r" "q < 8" "r < 8" using \<open>n < LENGTH(64)\<close> by simp_all
  have "8 * q + (7 - r) < 64" "(8 * q + (7 - r)) div 8 = q" "(8 * q + (7 - r)) mod 8 = 7 - r"
    using qr by (simp_all del: add_diff_assoc)
  moreover have "8 * (7 - q) + (7 - r) = 63 - n" "n < 64" "n div 8 = q" "n mod 8 = r" using qr by simp_all
  ultimately show "bit (revbit64 x) n = bit (helper_bitswap (bswap64 x)) n"
    by (simp only: revbit64_rev bitswap_bit bswap64_bit)
qed

lemma mul_low: "fst (muls64 x y) = x * y" "fst (mulu64 x y) = x * y"
proof -
  have t: "take_bit 64 (signed_take_bit 63 z) = take_bit 64 z" for z :: int
    by (simp add: take_bit_signed_take_bit)
  have "take_bit 64 (signed_take_bit 63 m * signed_take_bit 63 n) = take_bit 64 (m * n)" for m n :: int
    using take_bit_mult [of 64 "signed_take_bit 63 m" "signed_take_bit 63 n"]
      take_bit_mult [of 64 m n] unfolding t by simp
  then show "fst (muls64 x y) = x * y"
    unfolding muls64_def Let_def fst_conv by transfer simp
  show "fst (mulu64 x y) = x * y"
    unfolding mulu64_def Let_def fst_conv by transfer (simp add: take_bit_mult)
qed

section \<open>Properties\<close>

text \<open>Arguments with every field zero, to build the witnesses from.\<close>

abbreviation no_args :: insn_arg where
  "no_args \<equiv> \<lparr>rd = 0, rj = 0, rk = 0, imm = 0, sa = 0, ms = 0, ls = 0, offs = 0, csr = 0, cj = 0\<rparr>"

text \<open>The arithmetic and logic instructions change nothing but their destination register and the program
  counter, which moves to the next instruction; none of them can raise an exception or stop the emulator.\<close>

theorem alu_frame:
  "list_all (\<lambda>t. \<exists>v. t a env = Ret True (env\<lparr>gpr := (gpr env)(rd a := v), pc := pc env + 4\<rparr>)) alu_ops"
  unfolding alu_ops_def list.pred_inject alu_defs
  by (intro conjI set_rd_effect gen_rd_effect list.pred_inject(1))

text \<open>Loading a constant: lu12i.w, ori, lu32i.d and lu52i.d with the four parts of a 64-bit constant as
  their signed and unsigned immediates leave exactly that constant in the register.\<close>

theorem constant_loaded:
  assumes "rj a = rd a"
  shows "\<exists>env'. bind_out (trans_lu12i_w (a\<lparr>imm := signed_take_bit 19 (uint (drop_bit 12 c))\<rparr>) env) (\<lambda>_ env.
      bind_out (trans_ori (a\<lparr>imm := uint (take_bit 12 c)\<rparr>) env) (\<lambda>_ env.
      bind_out (trans_lu32i_d (a\<lparr>imm := signed_take_bit 19 (uint (drop_bit 32 c))\<rparr>) env) (\<lambda>_.
      trans_lu52i_d (a\<lparr>imm := signed_take_bit 11 (uint (drop_bit 52 c))\<rparr>)))) = Ret True env'
    \<and> gpr env' (rd a) = c \<and> pc env' = pc env + 16 \<and> (\<forall>r. r \<noteq> rd a \<longrightarrow> gpr env' r = gpr env r)"
  using assms constant_parts [of c a]
  by (simp add: trans_lu12i_w_def trans_ori_def trans_lu32i_d_def trans_lu52i_d_def set_rd_eq)

theorem constant_loaded_witness:
  "\<exists>env'. bind_out (trans_lu12i_w (no_args\<lparr>rd := 4, rj := 4, imm := signed_take_bit 19 (uint (drop_bit 12 (0x1122334455667788 :: u64)))\<rparr>) (booted 0))
      (\<lambda>_ env. bind_out (trans_ori (no_args\<lparr>rd := 4, rj := 4, imm := uint (take_bit 12 (0x1122334455667788 :: u64))\<rparr>) env)
      (\<lambda>_ env. bind_out (trans_lu32i_d (no_args\<lparr>rd := 4, rj := 4, imm := signed_take_bit 19 (uint (drop_bit 32 (0x1122334455667788 :: u64)))\<rparr>) env)
      (\<lambda>_. trans_lu52i_d (no_args\<lparr>rd := 4, rj := 4, imm := signed_take_bit 11 (uint (drop_bit 52 (0x1122334455667788 :: u64)))\<rparr>)))) = Ret True env'
    \<and> gpr env' 4 = 0x1122334455667788"
proof -
  let ?a = "no_args\<lparr>rd := 4, rj := 4\<rparr>"
  have "rj ?a = rd ?a" by simp
  from constant_loaded [OF this, of "0x1122334455667788" "booted 0"]
  show ?thesis unfolding insn_arg.update_convs insn_arg.select_convs by blast
qed

text \<open>Signed division. For a divisor that is not zero, and unless the least value is divided by -1, div and
  mod return the quotient truncated towards zero and the remainder with the sign of the dividend; a
  divisor of zero gives 0; the least value divided by -1 stops the emulator.\<close>

theorem signed_division:
  assumes "(w, dv, md) \<in> {(32, trans_div_w, trans_mod_w), (64, trans_div_d, trans_mod_d)}"
    and "n = sint (sext w (gpr env (rj a)))" and "d = sint (sext w (gpr env (rk a)))"
  shows "(d = 0 \<longrightarrow> dv a env = set_rd a 0 env \<and> md a env = set_rd a 0 env)
    \<and> (n = - (2 ^ (w - 1)) \<and> d = - 1 \<longrightarrow> dv a env = Crash \<and> md a env = Crash)
    \<and> (d \<noteq> 0 \<and> \<not> (n = - (2 ^ (w - 1)) \<and> d = - 1) \<longrightarrow> (\<exists>q r. dv a env = set_rd a q env \<and> md a env = set_rd a r env
        \<and> n = d * sint q + sint r \<and> \<bar>sint r\<bar> < \<bar>d\<bar> \<and> (sint r = 0 \<or> sgn (sint r) = sgn n)))"
proof -
  have w: "0 < w" "w \<le> 64" "(w :: nat) = 32 \<or> w = 64" using assms(1) by auto
  have dv: "dv a env = (case safe_sdiv w (gpr env (rj a)) (gpr env (rk a)) of None \<Rightarrow> Crash | Some v \<Rightarrow> set_rd a v env)"
    and md: "md a env = (case safe_smod w (gpr env (rj a)) (gpr env (rk a)) of None \<Rightarrow> Crash | Some v \<Rightarrow> set_rd a v env)"
    using assms(1) by (auto simp: trans_div_w_def trans_mod_w_def trans_div_d_def trans_mod_d_def)
  note b = sint_sext_bounds [OF w(1,2), of "gpr env (rj a)", folded assms(2)]
  have r: "\<exists>q r. dv a env = set_rd a q env \<and> md a env = set_rd a r env
        \<and> n = d * sint q + sint r \<and> \<bar>sint r\<bar> < \<bar>d\<bar> \<and> (sint r = 0 \<or> sgn (sint r) = sgn n)"
    if d: "d \<noteq> 0" "\<not> (n = - (2 ^ (w - 1)) \<and> d = - 1)"
  proof -
    have p: "(2 :: int) ^ (w - 1) \<le> 2 ^ 63" using w(3) by auto
    note q = sdiv_bounds [OF d(1) b d(2)]
    have sq: "sint (word_of_int (n sdiv d) :: u64) = n sdiv d" using q p by (intro sint_of_int) linarith+
    note m = smod_remainder [OF d(1), of n]
    have "\<bar>d\<bar> \<le> 2 ^ (w - 1)" using sint_sext_bounds [OF w(1,2), of "gpr env (rk a)", folded assms(3)] by linarith
    then have "sint (word_of_int (n smod d) :: u64) = n smod d" using m(1) p by (intro sint_of_int) linarith+
    moreover have "dv a env = set_rd a (word_of_int (n sdiv d)) env" "md a env = set_rd a (word_of_int (n smod d)) env"
      using d by (auto simp: dv md safe_sdiv_def safe_smod_def safe_signed_def Let_def simp flip: assms(2,3))
    ultimately show ?thesis using sq m mult_sdiv_smod_eq [of d n] by metis
  qed
  then show ?thesis
    by (simp add: dv md safe_sdiv_def safe_smod_def safe_signed_def Let_def flip: assms(2,3))
qed

theorem signed_division_witness:
  "\<exists>q (r :: u64). trans_div_w (no_args\<lparr>rd := 4, rj := 5, rk := 6\<rparr>) ((booted 0)\<lparr>gpr := (\<lambda>_. 0)(5 := - 7, 6 := 2)\<rparr>)
      = set_rd (no_args\<lparr>rd := 4, rj := 5, rk := 6\<rparr>) q ((booted 0)\<lparr>gpr := (\<lambda>_. 0)(5 := - 7, 6 := 2)\<rparr>)
    \<and> - 7 = 2 * sint q + sint r \<and> \<bar>sint r\<bar> < 2"
proof -
  let ?a = "no_args\<lparr>rd := 4, rj := 5, rk := 6\<rparr>" and ?env = "(booted 0)\<lparr>gpr := (\<lambda>_. 0)(5 := - 7, 6 := 2)\<rparr>"
  have "sext 32 (- 7) = - 7" "sext 32 2 = 2" by (simp_all add: sext_def signed_take_bit_def bit_simps mask_eq_exp_minus_1)
  then have "- 7 = sint (sext 32 (gpr ?env (rj ?a)))" "2 = sint (sext 32 (gpr ?env (rk ?a)))" by simp_all
  note d = signed_division [OF _ this, of trans_div_w trans_mod_w]
  show ?thesis using d by simp blast
qed

text \<open>Wide multiplication: mul.d and mulh.d together are the full signed 128-bit product of the operands,
  mul.d and mulh.du the full unsigned one.\<close>

theorem wide_product:
  "\<exists>lo hi hiu. trans_mul_d a env = set_rd a lo env \<and> trans_mulh_d a env = set_rd a hi env
    \<and> trans_mulh_du a env = set_rd a hiu env
    \<and> sint (pair128 (lo, hi)) = sint (gpr env (rj a)) * sint (gpr env (rk a))
    \<and> unat (pair128 (lo, hiu)) = unat (gpr env (rj a)) * unat (gpr env (rk a))"
proof -
  let ?x = "gpr env (rj a)" and ?y = "gpr env (rk a)"
  have "(?x * ?y, snd (muls64 ?x ?y)) = muls64 ?x ?y" "(?x * ?y, snd (mulu64 ?x ?y)) = mulu64 ?x ?y"
    using mul_low [of ?x ?y] by (metis prod.collapse)+
  then show ?thesis
    using sint_muls64 [of ?x ?y] unat_mul64 [of ?x ?y]
    by (simp add: trans_mul_d_def trans_mulh_d_def trans_mulh_du_def mul64_mulu64) metis
qed

text \<open>Byte, half-word and bit reversal: revb.d swaps the eight bytes and revh.d the four half-words as the
  host's byte swaps do, and bitrev.8b after revb.d gives bitrev.d.\<close>

theorem reversals:
  assumes "rd a \<noteq> 0"
  shows "trans_revb_d a env = set_rd a (bswap64 (gpr env (rj a))) env
    \<and> trans_revh_d a env = set_rd a (hswap64 (gpr env (rj a))) env
    \<and> (\<exists>env1 env2. bind_out (trans_revb_d a env) (\<lambda>_. trans_bitrev_8b (a\<lparr>rj := rd a\<rparr>)) = Ret True env1
        \<and> trans_bitrev_d a env = Ret True env2 \<and> gpr env1 = gpr env2)"
  using assms by (auto simp: revb_d_bswap revh_d_hswap set_rd_eq trans_bitrev_8b_def trans_bitrev_d_def gen_rd_def
      gen_set_gpr_def next_insn_def cpu_set_pc_def revbit64_bitswap)

theorem reversals_witness:
  "trans_revb_d (no_args\<lparr>rd := 4, rj := 5\<rparr>) (booted 0)
    = set_rd (no_args\<lparr>rd := 4, rj := 5\<rparr>) (bswap64 (gpr (booted 0) 5)) (booted 0)"
proof -
  let ?a = "no_args\<lparr>rd := 4, rj := 5\<rparr>"
  have "rd ?a \<noteq> 0" by simp
  from reversals [OF this, of "booted 0"] show ?thesis by simp
qed

text \<open>Bit strings: what bstrins.d inserts, bstrpick.d with the same positions reads back, cut to its
  length, and no other bit of the register changes. With the positions in the wrong order bstrpick.d
  is not an instruction, and bstrins.d fails an assertion and stops the emulator.\<close>

theorem bitstring_insert_pick:
  assumes "0 \<le> ls a" and "ms a < 64"
  shows "(ls a \<le> ms a \<longrightarrow> (\<exists>env'. trans_bstrins_d a env = Ret True env'
        \<and> trans_bstrpick_d (a\<lparr>rj := rd a\<rparr>) env' = set_rd a (take_bit (nat (ms a - ls a + 1)) (gpr env (rj a))) env'
        \<and> (\<forall>n. int n < ls a \<or> ms a < int n \<longrightarrow> bit (gpr env' (rd a)) n = bit (gpr env (rd a)) n)))
    \<and> (ms a < ls a \<longrightarrow> trans_bstrpick_d a env = Ret False env \<and> trans_bstrins_d a env = Crash)"
proof (intro conjI impI)
  assume le: "ls a \<le> ms a"
  define s l where "s = nat (ls a)" and "l = nat (ms a - ls a + 1)"
  have ok: "bitfield_ok 64 (ls a) (ms a - ls a + 1)" using assms le by (simp add: bitfield_ok_def)
  have sl: "s + l \<le> 64" "ls a = int s" "ms a - ls a + 1 = int l" "0 < l" using assms le by (simp_all add: s_def l_def)
  let ?v = "deposit64 (gpr env (rd a)) s l (gpr env (rj a))"
  have "extract64 ?v s l = take_bit l (gpr env (rj a))"
    using sl(1) by (intro bit_word_eqI) (auto simp: bit_extract64 bit_deposit64 bit_simps)
  moreover have "bit ?v n = bit (gpr env (rd a)) n" if "int n < ls a \<or> ms a < int n" for n
    using that sl by (auto simp: bit_deposit64 dest: bit_u64_imp_le)
  ultimately show "\<exists>env'. trans_bstrins_d a env = Ret True env'
        \<and> trans_bstrpick_d (a\<lparr>rj := rd a\<rparr>) env' = set_rd a (take_bit (nat (ms a - ls a + 1)) (gpr env (rj a))) env'
        \<and> (\<forall>n. int n < ls a \<or> ms a < int n \<longrightarrow> bit (gpr env' (rd a)) n = bit (gpr env (rd a)) n)"
    using ok le by (simp add: trans_bstrins_d_def trans_bstrpick_d_def Let_def set_rd_eq flip: s_def l_def)
qed (simp_all add: trans_bstrpick_d_def trans_bstrins_d_def Let_def bitfield_ok_def)

theorem bitstring_insert_pick_witness:
  "\<exists>env'. trans_bstrins_d (no_args\<lparr>rd := 4, rj := 5, ls := 8, ms := 15\<rparr>) (booted 0) = Ret True env'"
proof -
  let ?a = "no_args\<lparr>rd := 4, rj := 5, ls := 8, ms := 15\<rparr>"
  have "0 \<le> ls ?a" "ms ?a < 64" "ls ?a \<le> ms ?a" by simp_all
  then show ?thesis using bitstring_insert_pick [of ?a "booted 0"] by blast
qed

end
