(* ===== verification/LA_Insn_Mem.thy ===== *)
theory LA_Insn_Mem
  imports LA_Insn
begin

text \<open>
  The memory instructions of \<open>loongarch64/interpreter.c\<close>: loads and stores, load-linked and store-conditional,
  and the atomic operations, on top of the translated accesses of \<open>LA_Mem\<close>.

  The lemmas show what the atomic operations and the store-conditional do, on memory seen as numbers of their
  width, and that an instruction that raises an exception has changed nothing the program can see.

  The instructions \<open>ldgt\<close>, \<open>ldle\<close>, \<open>stgt\<close>, \<open>stle\<close> of every size are \<open>__NOT_IMPLEMENTED__\<close>: they end the emulation.
\<close>

section \<open>Loads and stores\<close>

definition trans_ld_b :: "insn_arg \<Rightarrow> 'd machine \<Rightarrow> (bool, 'd machine) outcome" where
  "trans_ld_b a env = bind_out (ld_b (add_addr (gpr env (rj a)) (immw a)) env) (set_rd a)"

definition trans_ld_h :: "insn_arg \<Rightarrow> 'd machine \<Rightarrow> (bool, 'd machine) outcome" where
  "trans_ld_h a env = bind_out (ld_h (add_addr (gpr env (rj a)) (immw a)) env) (set_rd a)"

definition trans_ld_w :: "insn_arg \<Rightarrow> 'd machine \<Rightarrow> (bool, 'd machine) outcome" where
  "trans_ld_w a env = bind_out (ld_w (add_addr (gpr env (rj a)) (immw a)) env) (set_rd a)"

definition trans_ld_d :: "insn_arg \<Rightarrow> 'd machine \<Rightarrow> (bool, 'd machine) outcome" where
  "trans_ld_d a env = bind_out (ld_d (add_addr (gpr env (rj a)) (immw a)) env) (set_rd a)"

definition trans_st_b :: "insn_arg \<Rightarrow> 'd machine \<Rightarrow> (bool, 'd machine) outcome" where
  "trans_st_b a env =
    bind_out (st_b (add_addr (gpr env (rj a)) (immw a)) (gpr env (rd a)) env) (\<lambda>_. next_insn)"

definition trans_st_h :: "insn_arg \<Rightarrow> 'd machine \<Rightarrow> (bool, 'd machine) outcome" where
  "trans_st_h a env =
    bind_out (st_h (add_addr (gpr env (rj a)) (immw a)) (gpr env (rd a)) env) (\<lambda>_. next_insn)"

definition trans_st_w :: "insn_arg \<Rightarrow> 'd machine \<Rightarrow> (bool, 'd machine) outcome" where
  "trans_st_w a env =
    bind_out (st_w (add_addr (gpr env (rj a)) (immw a)) (gpr env (rd a)) env) (\<lambda>_. next_insn)"

definition trans_st_d :: "insn_arg \<Rightarrow> 'd machine \<Rightarrow> (bool, 'd machine) outcome" where
  "trans_st_d a env =
    bind_out (st_d (add_addr (gpr env (rj a)) (immw a)) (gpr env (rd a)) env) (\<lambda>_. next_insn)"

definition trans_ld_bu :: "insn_arg \<Rightarrow> 'd machine \<Rightarrow> (bool, 'd machine) outcome" where
  "trans_ld_bu a env =
    bind_out (ld_b (add_addr (gpr env (rj a)) (immw a)) env) (\<lambda>v. set_rd a (take_bit 8 v))"

definition trans_ld_hu :: "insn_arg \<Rightarrow> 'd machine \<Rightarrow> (bool, 'd machine) outcome" where
  "trans_ld_hu a env =
    bind_out (ld_h (add_addr (gpr env (rj a)) (immw a)) env) (\<lambda>v. set_rd a (take_bit 16 v))"

definition trans_ld_wu :: "insn_arg \<Rightarrow> 'd machine \<Rightarrow> (bool, 'd machine) outcome" where
  "trans_ld_wu a env =
    bind_out (ld_w (add_addr (gpr env (rj a)) (immw a)) env) (\<lambda>v. set_rd a (take_bit 32 v))"

definition trans_ldx_b :: "insn_arg \<Rightarrow> 'd machine \<Rightarrow> (bool, 'd machine) outcome" where
  "trans_ldx_b a env = bind_out (ld_b (add_addr (gpr env (rj a)) (gpr env (rk a))) env) (set_rd a)"

definition trans_ldx_h :: "insn_arg \<Rightarrow> 'd machine \<Rightarrow> (bool, 'd machine) outcome" where
  "trans_ldx_h a env = bind_out (ld_h (add_addr (gpr env (rj a)) (gpr env (rk a))) env) (set_rd a)"

definition trans_ldx_w :: "insn_arg \<Rightarrow> 'd machine \<Rightarrow> (bool, 'd machine) outcome" where
  "trans_ldx_w a env = bind_out (ld_w (add_addr (gpr env (rj a)) (gpr env (rk a))) env) (set_rd a)"

definition trans_ldx_d :: "insn_arg \<Rightarrow> 'd machine \<Rightarrow> (bool, 'd machine) outcome" where
  "trans_ldx_d a env = bind_out (ld_d (add_addr (gpr env (rj a)) (gpr env (rk a))) env) (set_rd a)"

definition trans_stx_b :: "insn_arg \<Rightarrow> 'd machine \<Rightarrow> (bool, 'd machine) outcome" where
  "trans_stx_b a env =
    bind_out (st_b (add_addr (gpr env (rj a)) (gpr env (rk a))) (gpr env (rd a)) env) (\<lambda>_. next_insn)"

definition trans_stx_h :: "insn_arg \<Rightarrow> 'd machine \<Rightarrow> (bool, 'd machine) outcome" where
  "trans_stx_h a env =
    bind_out (st_h (add_addr (gpr env (rj a)) (gpr env (rk a))) (gpr env (rd a)) env) (\<lambda>_. next_insn)"

definition trans_stx_w :: "insn_arg \<Rightarrow> 'd machine \<Rightarrow> (bool, 'd machine) outcome" where
  "trans_stx_w a env =
    bind_out (st_w (add_addr (gpr env (rj a)) (gpr env (rk a))) (gpr env (rd a)) env) (\<lambda>_. next_insn)"

definition trans_stx_d :: "insn_arg \<Rightarrow> 'd machine \<Rightarrow> (bool, 'd machine) outcome" where
  "trans_stx_d a env =
    bind_out (st_d (add_addr (gpr env (rj a)) (gpr env (rk a))) (gpr env (rd a)) env) (\<lambda>_. next_insn)"

definition trans_ldx_bu :: "insn_arg \<Rightarrow> 'd machine \<Rightarrow> (bool, 'd machine) outcome" where
  "trans_ldx_bu a env =
    bind_out (ld_b (add_addr (gpr env (rj a)) (gpr env (rk a))) env) (\<lambda>v. set_rd a (take_bit 8 v))"

definition trans_ldx_hu :: "insn_arg \<Rightarrow> 'd machine \<Rightarrow> (bool, 'd machine) outcome" where
  "trans_ldx_hu a env =
    bind_out (ld_h (add_addr (gpr env (rj a)) (gpr env (rk a))) env) (\<lambda>v. set_rd a (take_bit 16 v))"

definition trans_ldx_wu :: "insn_arg \<Rightarrow> 'd machine \<Rightarrow> (bool, 'd machine) outcome" where
  "trans_ldx_wu a env =
    bind_out (ld_w (add_addr (gpr env (rj a)) (gpr env (rk a))) env) (\<lambda>v. set_rd a (take_bit 32 v))"

definition trans_ldptr_w :: "insn_arg \<Rightarrow> 'd machine \<Rightarrow> (bool, 'd machine) outcome" where
  "trans_ldptr_w a env = bind_out (ld_w (add_addr (gpr env (rj a)) (immw a)) env) (set_rd a)"

definition trans_stptr_w :: "insn_arg \<Rightarrow> 'd machine \<Rightarrow> (bool, 'd machine) outcome" where
  "trans_stptr_w a env =
    bind_out (st_w (add_addr (gpr env (rj a)) (immw a)) (gpr env (rd a)) env) (\<lambda>_. next_insn)"

definition trans_ldptr_d :: "insn_arg \<Rightarrow> 'd machine \<Rightarrow> (bool, 'd machine) outcome" where
  "trans_ldptr_d a env = bind_out (ld_d (add_addr (gpr env (rj a)) (immw a)) env) (set_rd a)"

definition trans_stptr_d :: "insn_arg \<Rightarrow> 'd machine \<Rightarrow> (bool, 'd machine) outcome" where
  "trans_stptr_d a env =
    bind_out (st_d (add_addr (gpr env (rj a)) (immw a)) (gpr env (rd a)) env) (\<lambda>_. next_insn)"

text \<open>Prefetch and barriers do nothing, but \<open>ibar 65\<close> ends the emulation.\<close>

definition trans_preld :: "insn_arg \<Rightarrow> 'd machine \<Rightarrow> (bool, 'd machine) outcome" where
  "trans_preld a env = next_insn env"

definition trans_preldx :: "insn_arg \<Rightarrow> 'd machine \<Rightarrow> (bool, 'd machine) outcome" where
  "trans_preldx a env = next_insn env"

definition trans_dbar :: "insn_arg \<Rightarrow> 'd machine \<Rightarrow> (bool, 'd machine) outcome" where
  "trans_dbar a env = next_insn env"

definition trans_ibar :: "insn_arg \<Rightarrow> 'd machine \<Rightarrow> (bool, 'd machine) outcome" where
  "trans_ibar a env = (if imm a = 65 then Exit env else next_insn env)"

section \<open>Load-linked and store-conditional\<close>

text \<open>A load-linked records the physical address, the value, and the aligned 16 bytes around it for sc.q; a
  store-conditional succeeds if the link bit is set, the address is the recorded one and memory still holds the
  recorded value. An I/O address is accessed as RAM.\<close>

definition ROUND_DOWN_16 :: "u64 \<Rightarrow> u64" where
  "ROUND_DOWN_16 ha = ha AND - 16"

definition ll_link :: "insn_arg \<Rightarrow> u64 \<Rightarrow> u64 \<Rightarrow> 'd machine \<Rightarrow> (bool, 'd machine) outcome" where
  "ll_link a ha v env =
    (let env = env\<lparr>gpr := (gpr env)(rd a := v)\<rparr>; ha_aligned = ROUND_DOWN_16 ha
     in bind_out (ram_ldd ha_aligned env) (\<lambda>lo env. bind_out (ram_ldd (ha_aligned + 8) env) (\<lambda>hi env.
          next_insn (env\<lparr>llval_lo := lo, llval_hi := hi, lladdr := ha, llval := gpr env (rd a),
            CSR_LLBCTL := FIELD_DP64 (CSR_LLBCTL env) CSR_LLBCTL_ROLLB 1\<rparr>))))"

definition sc_body :: "(u64 \<Rightarrow> 'd machine \<Rightarrow> (u64, 'd machine) outcome)
    \<Rightarrow> (u64 \<Rightarrow> u64 \<Rightarrow> 'd machine \<Rightarrow> (unit, 'd machine) outcome)
    \<Rightarrow> insn_arg \<Rightarrow> 'd machine \<Rightarrow> (bool, 'd machine) outcome" where
  "sc_body ld st a env =
    bind_out (store_pa (gpr env (rj a) + immw a) env) (\<lambda>(ha, _) env.
      bind_out (if FIELD_EX64 (CSR_LLBCTL env) CSR_LLBCTL_ROLLB \<noteq> 0 \<and> lladdr env = ha
                then bind_out (ld ha env) (\<lambda>v env. Ret (llval env = v) env) else Ret False env) (\<lambda>ok env.
        if ok then bind_out (st ha (gpr env (rd a)) env) (\<lambda>_. set_rd a 1) else set_rd a 0 env))"

definition trans_ll_w :: "insn_arg \<Rightarrow> 'd machine \<Rightarrow> (bool, 'd machine) outcome" where
  "trans_ll_w a env =
    bind_out (load_pa (gpr env (rj a) + immw a) env) (\<lambda>(ha, _) env. bind_out (ram_ldw ha env) (ll_link a ha))"

definition trans_sc_w :: "insn_arg \<Rightarrow> 'd machine \<Rightarrow> (bool, 'd machine) outcome" where
  "trans_sc_w a env = sc_body ram_ldw ram_stw a env"

definition trans_ll_d :: "insn_arg \<Rightarrow> 'd machine \<Rightarrow> (bool, 'd machine) outcome" where
  "trans_ll_d a env =
    bind_out (load_pa (gpr env (rj a) + immw a) env) (\<lambda>(ha, _) env. bind_out (ram_ldd ha env) (ll_link a ha))"

definition trans_sc_d :: "insn_arg \<Rightarrow> 'd machine \<Rightarrow> (bool, 'd machine) outcome" where
  "trans_sc_d a env = sc_body ram_ldd ram_std a env"

section \<open>Atomic memory operations\<close>

text \<open>Translate for a store, load the old value, store the new one, return the old one. \<open>f\<close> computes the new
  value from \<open>gpr[rk]\<close> and the old value. The names without \<open>_db\<close> are the same functions.\<close>

definition amo :: "(u64 \<Rightarrow> 'd machine \<Rightarrow> (u64, 'd machine) outcome)
    \<Rightarrow> (u64 \<Rightarrow> u64 \<Rightarrow> 'd machine \<Rightarrow> (unit, 'd machine) outcome) \<Rightarrow> (u64 \<Rightarrow> u64 \<Rightarrow> u64)
    \<Rightarrow> insn_arg \<Rightarrow> 'd machine \<Rightarrow> (bool, 'd machine) outcome" where
  "amo ld st f a env =
    bind_out (store_pa (gpr env (rj a)) env) (\<lambda>(ha, _) env.
      bind_out (ld ha env) (\<lambda>old_v env.
        bind_out (st ha (f (gpr env (rk a)) old_v) env) (\<lambda>_. set_rd a old_v)))"

definition smax :: "u64 \<Rightarrow> u64 \<Rightarrow> u64" where "smax x y = (if y <s x then x else y)"
definition smin :: "u64 \<Rightarrow> u64 \<Rightarrow> u64" where "smin x y = (if x <s y then x else y)"

definition trans_amswap_db_w :: "insn_arg \<Rightarrow> 'd machine \<Rightarrow> (bool, 'd machine) outcome" where
  "trans_amswap_db_w a env = amo ram_ldw ram_stw (\<lambda>x _. x) a env"

definition trans_amswap_db_d :: "insn_arg \<Rightarrow> 'd machine \<Rightarrow> (bool, 'd machine) outcome" where
  "trans_amswap_db_d a env = amo ram_ldd ram_std (\<lambda>x _. x) a env"

definition trans_amadd_db_w :: "insn_arg \<Rightarrow> 'd machine \<Rightarrow> (bool, 'd machine) outcome" where
  "trans_amadd_db_w a env = amo ram_ldw ram_stw (+) a env"

definition trans_amadd_db_d :: "insn_arg \<Rightarrow> 'd machine \<Rightarrow> (bool, 'd machine) outcome" where
  "trans_amadd_db_d a env = amo ram_ldd ram_std (+) a env"

definition trans_amand_db_w :: "insn_arg \<Rightarrow> 'd machine \<Rightarrow> (bool, 'd machine) outcome" where
  "trans_amand_db_w a env = amo ram_ldw ram_stw (AND) a env"

definition trans_amand_db_d :: "insn_arg \<Rightarrow> 'd machine \<Rightarrow> (bool, 'd machine) outcome" where
  "trans_amand_db_d a env = amo ram_ldd ram_std (AND) a env"

definition trans_amor_db_w :: "insn_arg \<Rightarrow> 'd machine \<Rightarrow> (bool, 'd machine) outcome" where
  "trans_amor_db_w a env = amo ram_ldw ram_stw (OR) a env"

definition trans_amor_db_d :: "insn_arg \<Rightarrow> 'd machine \<Rightarrow> (bool, 'd machine) outcome" where
  "trans_amor_db_d a env = amo ram_ldd ram_std (OR) a env"

definition trans_amxor_db_w :: "insn_arg \<Rightarrow> 'd machine \<Rightarrow> (bool, 'd machine) outcome" where
  "trans_amxor_db_w a env = amo ram_ldw ram_stw (XOR) a env"

definition trans_amxor_db_d :: "insn_arg \<Rightarrow> 'd machine \<Rightarrow> (bool, 'd machine) outcome" where
  "trans_amxor_db_d a env = amo ram_ldd ram_std (XOR) a env"

definition trans_ammax_db_w :: "insn_arg \<Rightarrow> 'd machine \<Rightarrow> (bool, 'd machine) outcome" where
  "trans_ammax_db_w a env = amo ram_ldw ram_stw (\<lambda>x. smax (sext 32 x)) a env"

definition trans_ammax_db_d :: "insn_arg \<Rightarrow> 'd machine \<Rightarrow> (bool, 'd machine) outcome" where
  "trans_ammax_db_d a env = amo ram_ldd ram_stw smax a env"

definition trans_ammin_db_w :: "insn_arg \<Rightarrow> 'd machine \<Rightarrow> (bool, 'd machine) outcome" where
  "trans_ammin_db_w a env = amo ram_ldw ram_stw (\<lambda>x. smin (sext 32 x)) a env"

definition trans_ammin_db_d :: "insn_arg \<Rightarrow> 'd machine \<Rightarrow> (bool, 'd machine) outcome" where
  "trans_ammin_db_d a env = amo ram_ldd ram_stw smin a env"

definition trans_ammax_db_wu :: "insn_arg \<Rightarrow> 'd machine \<Rightarrow> (bool, 'd machine) outcome" where
  "trans_ammax_db_wu a env = amo ram_ldw ram_stw (\<lambda>x y. max (take_bit 32 x) (take_bit 32 y)) a env"

definition trans_ammax_db_du :: "insn_arg \<Rightarrow> 'd machine \<Rightarrow> (bool, 'd machine) outcome" where
  "trans_ammax_db_du a env = amo ram_ldd ram_stw max a env"

definition trans_ammin_db_wu :: "insn_arg \<Rightarrow> 'd machine \<Rightarrow> (bool, 'd machine) outcome" where
  "trans_ammin_db_wu a env = amo ram_ldw ram_stw (\<lambda>x y. min (take_bit 32 x) (take_bit 32 y)) a env"

definition trans_ammin_db_du :: "insn_arg \<Rightarrow> 'd machine \<Rightarrow> (bool, 'd machine) outcome" where
  "trans_ammin_db_du a env = amo ram_ldd ram_stw min a env"

definition trans_amswap_w :: "insn_arg \<Rightarrow> 'd machine \<Rightarrow> (bool, 'd machine) outcome" where
  "trans_amswap_w a env = trans_amswap_db_w a env"

definition trans_amswap_d :: "insn_arg \<Rightarrow> 'd machine \<Rightarrow> (bool, 'd machine) outcome" where
  "trans_amswap_d a env = trans_amswap_db_d a env"

definition trans_amadd_w :: "insn_arg \<Rightarrow> 'd machine \<Rightarrow> (bool, 'd machine) outcome" where
  "trans_amadd_w a env = trans_amadd_db_w a env"

definition trans_amadd_d :: "insn_arg \<Rightarrow> 'd machine \<Rightarrow> (bool, 'd machine) outcome" where
  "trans_amadd_d a env = trans_amadd_db_d a env"

definition trans_amand_w :: "insn_arg \<Rightarrow> 'd machine \<Rightarrow> (bool, 'd machine) outcome" where
  "trans_amand_w a env = trans_amand_db_w a env"

definition trans_amand_d :: "insn_arg \<Rightarrow> 'd machine \<Rightarrow> (bool, 'd machine) outcome" where
  "trans_amand_d a env = trans_amand_db_d a env"

definition trans_amor_w :: "insn_arg \<Rightarrow> 'd machine \<Rightarrow> (bool, 'd machine) outcome" where
  "trans_amor_w a env = trans_amor_db_w a env"

definition trans_amor_d :: "insn_arg \<Rightarrow> 'd machine \<Rightarrow> (bool, 'd machine) outcome" where
  "trans_amor_d a env = trans_amor_db_d a env"

definition trans_amxor_w :: "insn_arg \<Rightarrow> 'd machine \<Rightarrow> (bool, 'd machine) outcome" where
  "trans_amxor_w a env = trans_amxor_db_w a env"

definition trans_amxor_d :: "insn_arg \<Rightarrow> 'd machine \<Rightarrow> (bool, 'd machine) outcome" where
  "trans_amxor_d a env = trans_amxor_db_d a env"

definition trans_ammax_w :: "insn_arg \<Rightarrow> 'd machine \<Rightarrow> (bool, 'd machine) outcome" where
  "trans_ammax_w a env = trans_ammax_db_w a env"

definition trans_ammax_d :: "insn_arg \<Rightarrow> 'd machine \<Rightarrow> (bool, 'd machine) outcome" where
  "trans_ammax_d a env = trans_ammax_db_d a env"

definition trans_ammin_w :: "insn_arg \<Rightarrow> 'd machine \<Rightarrow> (bool, 'd machine) outcome" where
  "trans_ammin_w a env = trans_ammin_db_w a env"

definition trans_ammin_d :: "insn_arg \<Rightarrow> 'd machine \<Rightarrow> (bool, 'd machine) outcome" where
  "trans_ammin_d a env = trans_ammin_db_d a env"

definition trans_ammax_wu :: "insn_arg \<Rightarrow> 'd machine \<Rightarrow> (bool, 'd machine) outcome" where
  "trans_ammax_wu a env = trans_ammax_db_wu a env"

definition trans_ammax_du :: "insn_arg \<Rightarrow> 'd machine \<Rightarrow> (bool, 'd machine) outcome" where
  "trans_ammax_du a env = trans_ammax_db_du a env"

definition trans_ammin_wu :: "insn_arg \<Rightarrow> 'd machine \<Rightarrow> (bool, 'd machine) outcome" where
  "trans_ammin_wu a env = trans_ammin_db_wu a env"

definition trans_ammin_du :: "insn_arg \<Rightarrow> 'd machine \<Rightarrow> (bool, 'd machine) outcome" where
  "trans_ammin_du a env = trans_ammin_db_du a env"

text \<open>The byte and half-word operations and compare-and-swap are present if the configuration says so.\<close>

definition trans_amadd_db_b :: "insn_arg \<Rightarrow> 'd machine \<Rightarrow> (bool, 'd machine) outcome" where
  "trans_amadd_db_b a env =
    (if FIELD_EX32 (cpucfg env 2) CPUCFG2_LAM_BH = 0 then Ret False env else amo ram_ldb ram_stb (+) a env)"

definition trans_amadd_db_h :: "insn_arg \<Rightarrow> 'd machine \<Rightarrow> (bool, 'd machine) outcome" where
  "trans_amadd_db_h a env =
    (if FIELD_EX32 (cpucfg env 2) CPUCFG2_LAM_BH = 0 then Ret False env else amo ram_ldh ram_sth (+) a env)"

definition trans_amswap_db_b :: "insn_arg \<Rightarrow> 'd machine \<Rightarrow> (bool, 'd machine) outcome" where
  "trans_amswap_db_b a env =
    (if FIELD_EX32 (cpucfg env 2) CPUCFG2_LAM_BH = 0 then Ret False env else amo ram_ldb ram_stb (\<lambda>x _. x) a env)"

definition trans_amswap_db_h :: "insn_arg \<Rightarrow> 'd machine \<Rightarrow> (bool, 'd machine) outcome" where
  "trans_amswap_db_h a env =
    (if FIELD_EX32 (cpucfg env 2) CPUCFG2_LAM_BH = 0 then Ret False env else amo ram_ldh ram_sth (\<lambda>x _. x) a env)"

definition trans_amadd_b :: "insn_arg \<Rightarrow> 'd machine \<Rightarrow> (bool, 'd machine) outcome" where
  "trans_amadd_b a env = trans_amadd_db_b a env"

definition trans_amadd_h :: "insn_arg \<Rightarrow> 'd machine \<Rightarrow> (bool, 'd machine) outcome" where
  "trans_amadd_h a env = trans_amadd_db_h a env"

definition trans_amswap_b :: "insn_arg \<Rightarrow> 'd machine \<Rightarrow> (bool, 'd machine) outcome" where
  "trans_amswap_b a env = trans_amswap_db_b a env"

definition trans_amswap_h :: "insn_arg \<Rightarrow> 'd machine \<Rightarrow> (bool, 'd machine) outcome" where
  "trans_amswap_h a env = trans_amswap_db_h a env"

definition amcas :: "(u64 \<Rightarrow> 'd machine \<Rightarrow> (u64, 'd machine) outcome)
    \<Rightarrow> (u64 \<Rightarrow> u64 \<Rightarrow> 'd machine \<Rightarrow> (unit, 'd machine) outcome) \<Rightarrow> nat
    \<Rightarrow> insn_arg \<Rightarrow> 'd machine \<Rightarrow> (bool, 'd machine) outcome" where
  "amcas ld st w a env =
    (if FIELD_EX32 (cpucfg env 2) CPUCFG2_LAMCAS = 0 then Ret False env
     else bind_out (store_pa (gpr env (rj a)) env) (\<lambda>(ha, _) env.
       bind_out (ld ha env) (\<lambda>old_v env.
         bind_out (if sext w old_v = sext w (gpr env (rd a)) then st ha (gpr env (rk a)) env else Ret () env)
           (\<lambda>_. set_rd a old_v))))"

definition trans_amcas_db_b :: "insn_arg \<Rightarrow> 'd machine \<Rightarrow> (bool, 'd machine) outcome" where
  "trans_amcas_db_b a env = amcas ram_ldb ram_stb 8 a env"

definition trans_amcas_db_h :: "insn_arg \<Rightarrow> 'd machine \<Rightarrow> (bool, 'd machine) outcome" where
  "trans_amcas_db_h a env = amcas ram_ldh ram_sth 16 a env"

definition trans_amcas_db_w :: "insn_arg \<Rightarrow> 'd machine \<Rightarrow> (bool, 'd machine) outcome" where
  "trans_amcas_db_w a env = amcas ram_ldw ram_stw 32 a env"

definition trans_amcas_db_d :: "insn_arg \<Rightarrow> 'd machine \<Rightarrow> (bool, 'd machine) outcome" where
  "trans_amcas_db_d a env = amcas ram_ldd ram_std 64 a env"

definition trans_amcas_b :: "insn_arg \<Rightarrow> 'd machine \<Rightarrow> (bool, 'd machine) outcome" where
  "trans_amcas_b a env = trans_amcas_db_b a env"

definition trans_amcas_h :: "insn_arg \<Rightarrow> 'd machine \<Rightarrow> (bool, 'd machine) outcome" where
  "trans_amcas_h a env = trans_amcas_db_h a env"

definition trans_amcas_w :: "insn_arg \<Rightarrow> 'd machine \<Rightarrow> (bool, 'd machine) outcome" where
  "trans_amcas_w a env = trans_amcas_db_w a env"

definition trans_amcas_d :: "insn_arg \<Rightarrow> 'd machine \<Rightarrow> (bool, 'd machine) outcome" where
  "trans_amcas_d a env = trans_amcas_db_d a env"

definition trans_llacq_w :: "insn_arg \<Rightarrow> 'd machine \<Rightarrow> (bool, 'd machine) outcome" where
  "trans_llacq_w a env =
    (if FIELD_EX32 (cpucfg env 2) CPUCFG2_LLACQ_SCREL = 0 then Ret False env else trans_ll_w (a\<lparr>imm := 0\<rparr>) env)"

definition trans_llacq_d :: "insn_arg \<Rightarrow> 'd machine \<Rightarrow> (bool, 'd machine) outcome" where
  "trans_llacq_d a env =
    (if FIELD_EX32 (cpucfg env 2) CPUCFG2_LLACQ_SCREL = 0 then Ret False env else trans_ll_d (a\<lparr>imm := 0\<rparr>) env)"

definition trans_screl_w :: "insn_arg \<Rightarrow> 'd machine \<Rightarrow> (bool, 'd machine) outcome" where
  "trans_screl_w a env =
    (if FIELD_EX32 (cpucfg env 2) CPUCFG2_LLACQ_SCREL = 0 then Ret False env else trans_sc_w (a\<lparr>imm := 0\<rparr>) env)"

definition trans_screl_d :: "insn_arg \<Rightarrow> 'd machine \<Rightarrow> (bool, 'd machine) outcome" where
  "trans_screl_d a env =
    (if FIELD_EX32 (cpucfg env 2) CPUCFG2_LLACQ_SCREL = 0 then Ret False env else trans_sc_d (a\<lparr>imm := 0\<rparr>) env)"

definition trans_sc_q :: "insn_arg \<Rightarrow> 'd machine \<Rightarrow> (bool, 'd machine) outcome" where
  "trans_sc_q a env =
    (if FIELD_EX32 (cpucfg env 2) CPUCFG2_SCQ = 0 then Ret False env
     else bind_out (store_pa (gpr env (rj a)) env) (\<lambda>(ha, _) env.
       bind_out (if FIELD_EX64 (CSR_LLBCTL env) CSR_LLBCTL_ROLLB \<noteq> 0 \<and> ROUND_DOWN_16 (lladdr env) = ha
                 then bind_out (ram_ldd ha env) (\<lambda>lo env.
                   if llval_lo env = lo then bind_out (ram_ldd (ha + 8) env) (\<lambda>hi env. Ret (llval_hi env = hi) env)
                   else Ret False env)
                 else Ret False env) (\<lambda>ok env.
         if ok then bind_out (ram_std ha (gpr env (rd a)) env) (\<lambda>_ env.
                 bind_out (ram_std (ha + 8) (gpr env (rk a)) env) (\<lambda>_. set_rd a 1))
         else set_rd a 0 env)))"

section \<open>What the instructions do to memory\<close>


text \<open>The bytes at a physical address as a number of a given width.\<close>

definition word_at :: "u64 \<Rightarrow> 'd machine \<Rightarrow> 'w::len word" where
  "word_at ha env = ucast (le_load (map (\<lambda>i. ram env (ha + of_nat i)) [0..<LENGTH('w) div 8]))"

definition amo_done :: "'d trans \<Rightarrow> ('w::len word \<Rightarrow> 'w word \<Rightarrow> 'v::len word)
    \<Rightarrow> insn_arg \<Rightarrow> u64 \<Rightarrow> 'd machine \<Rightarrow> bool" where
  "amo_done ins f a ha env \<longleftrightarrow> (\<exists>env'. ins a env = Ret True env' \<and> pc env' = pc env + 4
     \<and> gpr env' = (gpr env)(rd a := scast (word_at ha env :: 'w word))
     \<and> word_at ha env' = f (ucast (gpr env (rk a))) (word_at ha env)
     \<and> (\<forall>b. LENGTH('v) div 8 \<le> unat (b - ha) \<longrightarrow> ram env' b = ram env b))"

lemma ucast_take_bit: "LENGTH('w::len) \<le> n \<Longrightarrow> (ucast (take_bit n x :: u64) :: 'w word) = ucast x"
  by (rule bit_word_eqI) (auto simp: bit_simps)

lemma scast_word_at:
  assumes "LENGTH('w::len) = 8 * n" and "0 < n" and "n \<le> 8"
  shows "scast (word_at ha env :: 'w word) = sext (8 * n) (le_load (map (\<lambda>i. ram env (ha + of_nat i)) [0..<n]))"
  using assms by (intro bit_word_eqI) (auto simp: word_at_def bit_simps bit_sext)

lemma amo_step:
  fixes g :: "'w::len word \<Rightarrow> 'w word \<Rightarrow> 'v::len word"
  assumes ok: "mem_ok env" and t: "translate MMU_DATA_STORE (gpr env (rj a)) env = Ret ha env"
    and n: "LENGTH('w) = 8 * n" "0 < n" "n \<le> 8" and m: "LENGTH('v) = 8 * m" "m \<le> n" and r: "ram_ok n ha env"
    and f: "\<And>x y. ucast (f x (scast (y :: 'w word))) = g (ucast x) y"
  shows "amo_done (amo (\<lambda>ha e. bind_out (ram_ld n ha e) (\<lambda>v. Ret (sext (8 * n) v))) (ram_st m) f) g a ha env"
proof -
  have p: "mmu_plain env" "tc_coherent env" using ok by (simp_all add: mem_ok_def)
  obtain e1 where s: "store_pa (gpr env (rj a)) env = Ret (ha, is_io ha) e1"
    using ok t by (rule store_pa_ok)
  obtain c where e1: "e1 = env\<lparr>tc_store := c\<rparr>" using store_pa_Ret(3) [OF p s] by blast
  let ?old = "le_load (map (\<lambda>i. ram env (ha + of_nat i)) [0..<n])"
  let ?v = "f (gpr env (rk a)) (sext (8 * n) ?old)"
  have ro: "ram_ok n ha e1" "ram_ok m ha e1"
    using r m(2) by (auto simp: e1 ram_ok_def addr_in_ram_def list_all_iff)
  then have l: "ram_ld n ha e1 = Ret ?old e1" by (simp add: ram_ld_def e1)
  obtain e2 where st: "ram_st m ha ?v e1 = Ret () e2" and e2: "e2 = e1\<lparr>ram := store_bytes ha (le_bytes m ?v) (ram e1)\<rparr>"
    using ro by (simp add: ram_st_def)
  let ?e3 = "e2\<lparr>gpr := (gpr e2)(rd a := sext (8 * n) ?old), pc := pc e2 + 4\<rparr>"
  have run: "amo (\<lambda>ha e. bind_out (ram_ld n ha e) (\<lambda>v. Ret (sext (8 * n) v))) (ram_st m) f a env = Ret True ?e3"
    using s l st by (simp add: amo_def set_rd_def next_insn_def cpu_set_pc_def e1)
  have old: "scast (word_at ha env :: 'w word) = sext (8 * n) ?old" using n by (rule scast_word_at)
  have "le_load (map (\<lambda>i. ram e2 (ha + of_nat i)) [0..<m]) = take_bit (8 * m) ?v"
    using ram_ld_after_st [OF st] n(3) m(2) by (simp add: ram_ld_def split: if_splits)
  then have new: "word_at ha e2 = g (ucast (gpr env (rk a))) (word_at ha env)"
    using f [of "gpr env (rk a)" "word_at ha env"] old m by (simp add: word_at_def [of ha e2] ucast_take_bit)
  have other: "m \<le> unat (b - ha) \<Longrightarrow> ram e2 b = ram env b" for b
    using ram_st_other [OF st, of b] by (simp add: e1)
  show ?thesis
    unfolding amo_done_def using run old new other m
    by (intro exI [of _ ?e3]) (simp add: e1 e2 word_at_def)
qed

text \<open>Casts to a narrower width commute with the operations.\<close>

lemma ucast_plus: "(ucast (x + y :: u64) :: u32) = ucast x + ucast y"
  by (simp add: word_unat_eq_iff unat_word_ariths unat_ucast mod_mod_cancel mod_simps)

lemma sint_scast32: "sint (scast (x :: u32) :: u64) = sint x"
  by (simp add: sint_up_scast is_up)

lemma ucast_scast: "(ucast (scast (y :: u32) :: u64) :: u32) = y"
  by (rule bit_word_eqI) (auto simp: bit_simps)

lemma sext_ucast: "sext 32 x = scast (ucast x :: u32)"
  by (rule bit_word_eqI) (auto simp: bit_sext bit_simps)

lemma take_bit_ucast: "take_bit 32 x = (ucast (ucast x :: u32) :: u64)"
  by (rule bit_word_eqI) (auto simp: bit_simps)

lemma ucast_le: "(ucast (x :: u32) :: u64) \<le> ucast y \<longleftrightarrow> x \<le> y"
  by (simp add: word_le_nat_alt unat_ucast)

lemma ucast_ucast: "(ucast (ucast (y :: u32) :: u64) :: u32) = y"
  by (rule bit_word_eqI) (auto simp: bit_simps)

lemma sext_64: "sext 64 x = x"
  by (rule bit_word_eqI) (simp add: bit_sext)

lemma ucast_bitops:
  "(ucast (x AND y :: u64) :: 'w::len word) = ucast x AND ucast y"
  "(ucast (x OR y :: u64) :: 'w::len word) = ucast x OR ucast y"
  "(ucast (x XOR y :: u64) :: 'w::len word) = ucast x XOR ucast y"
  by (auto intro!: bit_word_eqI simp: bit_simps)

definition signed_max :: "'w::len word \<Rightarrow> 'w word \<Rightarrow> 'w word" where
  "signed_max x y = (if sint y < sint x then x else y)"

definition signed_min :: "'w::len word \<Rightarrow> 'w word \<Rightarrow> 'w word" where
  "signed_min x y = (if sint x < sint y then x else y)"

text \<open>The instructions with the operation on numbers of their width.\<close>

definition amo_w_ops :: "('d trans \<times> (u32 \<Rightarrow> u32 \<Rightarrow> u32)) list" where
  "amo_w_ops = [(trans_amswap_w, \<lambda>x _. x), (trans_amadd_w, (+)), (trans_amand_w, (AND)), (trans_amor_w, (OR)),
    (trans_amxor_w, (XOR)), (trans_ammax_w, signed_max), (trans_ammin_w, signed_min), (trans_ammax_wu, max), (trans_ammin_wu, min),
    (trans_amswap_db_w, \<lambda>x _. x), (trans_amadd_db_w, (+)), (trans_amand_db_w, (AND)), (trans_amor_db_w, (OR)),
    (trans_amxor_db_w, (XOR)), (trans_ammax_db_w, signed_max), (trans_ammin_db_w, signed_min), (trans_ammax_db_wu, max),
    (trans_ammin_db_wu, min)]"

definition amo_d_ops :: "('d trans \<times> (u64 \<Rightarrow> u64 \<Rightarrow> u64)) list" where
  "amo_d_ops = [(trans_amswap_d, \<lambda>x _. x), (trans_amadd_d, (+)), (trans_amand_d, (AND)), (trans_amor_d, (OR)),
    (trans_amxor_d, (XOR)), (trans_amswap_db_d, \<lambda>x _. x), (trans_amadd_db_d, (+)), (trans_amand_db_d, (AND)),
    (trans_amor_db_d, (OR)), (trans_amxor_db_d, (XOR))]"

lemma ram_ldw_eq: "ram_ldw = (\<lambda>ha e. bind_out (ram_ld 4 ha e) (\<lambda>v. Ret (sext (8 * 4) v)))"
  by (simp add: ram_ldw_def [abs_def])

lemma ram_ldd_eq: "ram_ldd = (\<lambda>ha e. bind_out (ram_ld 8 ha e) (\<lambda>v. Ret (sext (8 * 8) v)))"
  by (simp add: ram_ldd_def [abs_def] sext_64)

lemmas amo_w_defs = trans_amswap_w_def trans_amadd_w_def trans_amand_w_def trans_amor_w_def trans_amxor_w_def
  trans_ammax_w_def trans_ammin_w_def trans_ammax_wu_def trans_ammin_wu_def
  trans_amswap_db_w_def trans_amadd_db_w_def trans_amand_db_w_def trans_amor_db_w_def trans_amxor_db_w_def
  trans_ammax_db_w_def trans_ammin_db_w_def trans_ammax_db_wu_def trans_ammin_db_wu_def

lemmas amo_d_defs = trans_amswap_d_def trans_amadd_d_def trans_amand_d_def trans_amor_d_def trans_amxor_d_def
  trans_amswap_db_d_def trans_amadd_db_d_def trans_amand_db_d_def trans_amor_db_d_def trans_amxor_db_d_def

lemma narrow_max:
  "ucast (smax (sext 32 x) (scast (y :: u32))) = signed_max (ucast x) y"
  "ucast (smin (sext 32 x) (scast (y :: u32))) = signed_min (ucast x) y"
  "ucast (max (take_bit 32 x) (take_bit 32 (scast (y :: u32)))) = max (ucast x) y"
  "ucast (min (take_bit 32 x) (take_bit 32 (scast (y :: u32)))) = min (ucast x) y"
proof -
  show "ucast (smax (sext 32 x) (scast (y :: u32))) = signed_max (ucast x) y"
    by (simp add: smax_def signed_max_def sext_ucast word_sless_alt sint_scast32 if_distrib [of ucast] ucast_scast)
  show "ucast (smin (sext 32 x) (scast (y :: u32))) = signed_min (ucast x) y"
    by (simp add: smin_def signed_min_def sext_ucast word_sless_alt sint_scast32 if_distrib [of ucast] ucast_scast)
  show "ucast (max (take_bit 32 x) (take_bit 32 (scast (y :: u32)))) = max (ucast x) y"
    by (simp only: take_bit_ucast ucast_scast max_def ucast_le if_distrib [of ucast] ucast_ucast)
  show "ucast (min (take_bit 32 x) (take_bit 32 (scast (y :: u32)))) = min (ucast x) y"
    by (simp only: take_bit_ucast ucast_scast min_def ucast_le if_distrib [of ucast] ucast_ucast)
qed

definition amo_minmax_d_ops :: "('d trans \<times> (u64 \<Rightarrow> u64 \<Rightarrow> u64)) list" where
  "amo_minmax_d_ops = [(trans_ammax_d, signed_max), (trans_ammin_d, signed_min), (trans_ammax_du, max), (trans_ammin_du, min)]"

lemmas amo_minmax_defs = trans_ammax_d_def trans_ammin_d_def trans_ammax_du_def trans_ammin_du_def
  trans_ammax_db_d_def trans_ammin_db_d_def trans_ammax_db_du_def trans_ammin_db_du_def

lemma amo_w:
  assumes "mem_ok env" and "translate MMU_DATA_STORE (gpr env (rj a)) env = Ret ha env" and "ram_ok 8 ha env"
    and "\<And>x y. ucast (f x (scast (y :: u32))) = g (ucast x) y"
  shows "amo_done (amo ram_ldw ram_stw f) (g :: _ \<Rightarrow> _ \<Rightarrow> u32) a ha env"
proof -
  have r: "ram_ok 4 ha env" using assms(3) by (simp add: ram_ok_def list_all_iff)
  show ?thesis
    using amo_step [where n = 4 and m = 4, OF assms(1,2) _ _ _ _ _ r, of f g] assms(4)
    by (simp add: ram_ldw_eq ram_stw_def [abs_def])
qed

lemma amo_d:
  assumes "mem_ok env" and "translate MMU_DATA_STORE (gpr env (rj a)) env = Ret ha env" and "ram_ok 8 ha env"
  shows "amo_done (amo ram_ldd ram_std f) f a ha env"
    and "amo_done (amo ram_ldd ram_stw f) (\<lambda>x y. ucast (f x y) :: u32) a ha env"
  using amo_step [where n = 8 and m = 8, OF assms(1,2) _ _ _ _ _ assms(3), of f f]
    amo_step [where n = 8 and m = 4, OF assms(1,2) _ _ _ _ _ assms(3), of f "\<lambda>x y. ucast (f x y) :: u32"]
  by (simp_all add: ram_ldd_eq ram_std_def [abs_def] ram_stw_def [abs_def])

lemma smax_signed: "smax = signed_max" "smin = signed_min"
  by (simp_all add: fun_eq_iff smax_def smin_def signed_max_def signed_min_def word_sless_alt)

section \<open>Link and conditional store\<close>

definition link_of :: "'d machine \<Rightarrow> bool \<times> u64 \<times> u64" where
  "link_of env = (FIELD_EX64 (CSR_LLBCTL env) CSR_LLBCTL_ROLLB \<noteq> 0, lladdr env, llval env)"

definition sc_done :: "'d trans \<Rightarrow> ('w::len word) \<Rightarrow> insn_arg \<Rightarrow> u64 \<Rightarrow> 'd machine \<Rightarrow> bool" where
  "sc_done ins w b ha env \<longleftrightarrow> (\<exists>env'. ins b env = Ret True env' \<and> pc env' = pc env + 4
     \<and> (if word_at ha env = w
        then gpr env' = (gpr env)(rd b := 1) \<and> word_at ha env' = (ucast (gpr env (rd b)) :: 'w word)
          \<and> (\<forall>c. LENGTH('w) div 8 \<le> unat (c - ha) \<longrightarrow> ram env' c = ram env c)
        else gpr env' = (gpr env)(rd b := 0) \<and> ram env' = ram env))"

lemma ll_link_Ret: "ll_link a ha v env = Ret True env' \<Longrightarrow> link_of env' = (True, ha, v)"
  by (cases "ram_ldd (ROUND_DOWN_16 ha) (env\<lparr>gpr := (gpr env)(rd a := v)\<rparr>)")
    (auto simp: ll_link_def ram_ldd_def ram_ld_def next_insn_def cpu_set_pc_def link_of_def Let_def field_defs
      f64.ex_dp_same split: if_splits)

lemma ll_step:
  assumes ok: "mem_ok env" and t: "translate MMU_DATA_LOAD va env = Ret ha env"
    and n: "LENGTH('w::len) = 8 * n" "0 < n" "n \<le> 8"
    and x: "bind_out (load_pa va env) (\<lambda>(ha, _) env.
        bind_out (bind_out (ram_ld n ha env) (\<lambda>v. Ret (sext (8 * n) v))) (ll_link a ha)) = Ret True env'"
  shows "link_of env' = (True, ha, scast (word_at ha env :: 'w word))"
proof -
  have p: "mmu_plain env" "tc_coherent env" using ok by (simp_all add: mem_ok_def)
  obtain e1 where s: "load_pa va env = Ret (ha, is_io ha) e1"
    using ok t by (rule load_pa_ok)
  obtain c where e1: "e1 = env\<lparr>tc_load := c\<rparr>" using load_pa_Ret(3) [OF p s] by blast
  have "ll_link a ha (sext (8 * n) (le_load (map (\<lambda>i. ram env (ha + of_nat i)) [0..<n]))) e1 = Ret True env'"
    using x s by (simp add: ram_ld_def e1 split: if_splits)
  then have "link_of env' = (True, ha, sext (8 * n) (le_load (map (\<lambda>i. ram env (ha + of_nat i)) [0..<n])))"
    by (rule ll_link_Ret)
  then show ?thesis by (simp only: scast_word_at [OF n])
qed

lemma scast_inj_word: "LENGTH('w::len) \<le> 64 \<Longrightarrow> (scast (x :: 'w word) :: u64) = scast y \<longleftrightarrow> x = y"
proof
  assume a: "LENGTH('w) \<le> 64" "(scast x :: u64) = scast y"
  have "bit x n = bit y n" if "n < LENGTH('w)" for n
    using arg_cong [OF a(2), of "\<lambda>w. bit w n"] that a(1)
    by (cases "n = LENGTH('w) - Suc 0") (simp_all add: bit_simps min_def split: if_splits)
  then show "x = y" by (rule bit_word_eqI)
qed simp

lemma sc_step:
  assumes ok: "mem_ok env" and t: "translate MMU_DATA_STORE (gpr env (rj b) + immw b) env = Ret ha env"
    and n: "LENGTH('w::len) = 8 * n" "0 < n" "n \<le> 8" and r: "ram_ok n ha env"
    and l: "link_of env = (True, ha, scast (w :: 'w word))"
  shows "sc_done (sc_body (\<lambda>ha e. bind_out (ram_ld n ha e) (\<lambda>v. Ret (sext (8 * n) v))) (ram_st n)) w b ha env"
proof -
  let ?ld = "\<lambda>ha e. bind_out (ram_ld n ha e) (\<lambda>v. Ret (sext (8 * n) v))"
  have p: "mmu_plain env" "tc_coherent env" using ok by (simp_all add: mem_ok_def)
  obtain e1 where s: "store_pa (gpr env (rj b) + immw b) env = Ret (ha, is_io ha) e1"
    using ok t by (rule store_pa_ok)
  obtain c where e1: "e1 = env\<lparr>tc_store := c\<rparr>" using store_pa_Ret(3) [OF p s] by blast
  have ro: "ram_ok n ha e1" using r by (simp add: e1 ram_ok_def addr_in_ram_def)
  have ld: "?ld ha e1 = Ret (scast (word_at ha env :: 'w word)) e1"
    using ro scast_word_at [OF n, of ha env] by (simp add: ram_ld_def e1)
  have link: "FIELD_EX64 (CSR_LLBCTL e1) CSR_LLBCTL_ROLLB \<noteq> 0 \<and> lladdr e1 = ha" "llval e1 = scast w"
    using l by (simp_all add: e1 link_of_def)
  obtain e2 where st: "ram_st n ha (gpr env (rd b)) e1 = Ret () e2"
    and e2: "e2 = e1\<lparr>ram := store_bytes ha (le_bytes n (gpr env (rd b))) (ram e1)\<rparr>"
    using ro by (simp add: ram_st_def)
  have eq: "llval e1 = scast (word_at ha env :: 'w word) \<longleftrightarrow> word_at ha env = w"
    using scast_inj_word [of w "word_at ha env"] n link(2) by auto
  have "le_load (map (\<lambda>i. ram e2 (ha + of_nat i)) [0..<n]) = take_bit (8 * n) (gpr env (rd b))"
    using ram_ld_after_st [OF st n(3)] by (simp add: ram_ld_def split: if_splits)
  then have new: "word_at ha e2 = (ucast (gpr env (rd b)) :: 'w word)"
    using n by (simp add: word_at_def ucast_take_bit)
  have other: "n \<le> unat (c - ha) \<Longrightarrow> ram e2 c = ram env c" for c
    using ram_st_other [OF st, of c] by (simp add: e1)
  let ?e3 = "if word_at ha env = w then e2\<lparr>gpr := (gpr e2)(rd b := 1), pc := pc e2 + 4\<rparr>
    else e1\<lparr>gpr := (gpr e1)(rd b := 0), pc := pc e1 + 4\<rparr>"
  have "sc_body ?ld (ram_st n) b env = Ret True ?e3"
    using s ld link eq st by (simp add: sc_body_def set_rd_def next_insn_def cpu_set_pc_def e1)
  then show ?thesis
    unfolding sc_done_def using new other n
    by (intro exI [of _ ?e3]) (auto simp: e1 e2 word_at_def)
qed

section \<open>Exceptions are precise\<close>

definition load_ops :: "'d trans list" where
  "load_ops = [trans_ld_b, trans_ld_h, trans_ld_w, trans_ld_d, trans_ld_bu, trans_ld_hu, trans_ld_wu,
    trans_ldx_b, trans_ldx_h, trans_ldx_w, trans_ldx_d, trans_ldx_bu, trans_ldx_hu, trans_ldx_wu, trans_ldptr_w, trans_ldptr_d]"

definition store_ops :: "'d trans list" where
  "store_ops = [trans_st_b, trans_st_h, trans_st_w, trans_st_d, trans_stx_b, trans_stx_h, trans_stx_w, trans_stx_d,
    trans_stptr_w, trans_stptr_d, trans_sc_w, trans_sc_d, trans_ll_w, trans_ll_d] @ map fst amo_w_ops @ map fst amo_d_ops @ map fst amo_minmax_d_ops"

lemmas load_defs = trans_ld_b_def trans_ld_h_def trans_ld_w_def trans_ld_d_def trans_ld_bu_def trans_ld_hu_def trans_ld_wu_def
  trans_ldx_b_def trans_ldx_h_def trans_ldx_w_def trans_ldx_d_def trans_ldx_bu_def trans_ldx_hu_def trans_ldx_wu_def
  trans_ldptr_w_def trans_ldptr_d_def

lemmas store_defs = trans_st_b_def trans_st_h_def trans_st_w_def trans_st_d_def trans_stx_b_def trans_stx_h_def
  trans_stx_w_def trans_stx_d_def trans_stptr_w_def trans_stptr_d_def

text \<open>If \<open>m\<close> leaves by an exception, the state satisfies \<open>P\<close>.\<close>

definition exn_keeps :: "('d machine \<Rightarrow> bool) \<Rightarrow> ('a, 'd machine) outcome \<Rightarrow> bool" where
  "exn_keeps P m \<longleftrightarrow> (\<forall>e. m = Exn e \<longrightarrow> P e)"

abbreviation never_exn :: "('a, 'd machine) outcome \<Rightarrow> bool" where
  "never_exn m \<equiv> exn_keeps (\<lambda>_. False) m"

lemma exn_keeps_bind: "exn_keeps P m \<Longrightarrow> (\<And>v s. never_exn (f v s)) \<Longrightarrow> exn_keeps P (bind_out m f)"
  by (cases m) (auto simp: exn_keeps_def)

lemma exn_keeps_if: "exn_keeps P m \<Longrightarrow> exn_keeps P n \<Longrightarrow> exn_keeps P (if c then m else n)"
  by simp

lemma exn_keeps_case: "(\<And>x y. exn_keeps P (f x y e)) \<Longrightarrow> exn_keeps P ((case p of (x, y) \<Rightarrow> f x y) e)"
  by (cases p) simp

lemma exn_keeps_out_inv: "out_inv I m \<Longrightarrow> (\<And>e. I e \<Longrightarrow> P e) \<Longrightarrow> exn_keeps P m"
  by (cases m) (auto simp: exn_keeps_def)

lemma never_exn_simple:
  "never_exn (Ret v e)" "never_exn (set_rd a w env)" "never_exn (next_insn env)" "never_exn (ram_ld n ha env)"
  "never_exn (ram_st n ha w env)" "never_exn (ram_ldw ha env)" "never_exn (ram_ldd ha env)" "never_exn (ram_stw ha w env)"
  "never_exn (ram_std ha w env)"
  by (simp_all add: exn_keeps_def set_rd_def next_insn_def ram_ldw_def ram_ldd_def ram_stw_def ram_std_def ram_ld_def ram_st_def)

lemmas never_exn_intros = never_exn_simple exn_keeps_bind exn_keeps_if exn_keeps_case

lemma never_exn_ll: "never_exn (ll_link a ha v env)"
  unfolding ll_link_def Let_def by (intro never_exn_intros)

abbreviation unchanged :: "'d machine \<Rightarrow> 'd machine \<Rightarrow> bool" where
  "unchanged env \<equiv> (\<lambda>e. ram e = ram env \<and> devs e = devs env \<and> gpr e = gpr env \<and> pc e = pc env)"

lemma loads_precise:
  "exn_keeps (\<lambda>e. gpr e = gpr env \<and> pc e = pc env) (ld_b va env)"
  "exn_keeps (\<lambda>e. gpr e = gpr env \<and> pc e = pc env) (ld_h va env)"
  "exn_keeps (\<lambda>e. gpr e = gpr env \<and> pc e = pc env) (ld_w va env)"
  "exn_keeps (\<lambda>e. gpr e = gpr env \<and> pc e = pc env) (ld_d va env)"
  by (rule exn_keeps_out_inv [where I = "\<lambda>e. gpr e = gpr env \<and> pc e = pc env"];
      (rule regs_access.ld_b_I regs_access.loads_I)?; simp)+

lemma stores_precise:
  assumes "mem_ok env"
  shows "exn_keeps (unchanged env) (st_b va v env)" and "exn_keeps (unchanged env) (st_h va v env)"
    and "exn_keeps (unchanged env) (st_w va v env)" and "exn_keeps (unchanged env) (st_d va v env)"
proof -
  have b: "exn_keeps (unchanged env) (st_body n (ram_st n) va w env)" if "0 < n" "n \<le> 8" for n w
    unfolding exn_keeps_def using st_body_Exn [OF assms that, of "ram_st n" w va] by (simp add: ram_st_def)
  show "exn_keeps (unchanged env) (st_b va v env)" "exn_keeps (unchanged env) (st_h va v env)"
    "exn_keeps (unchanged env) (st_w va v env)" "exn_keeps (unchanged env) (st_d va v env)"
    unfolding st_b_body st_h_def st_w_def st_d_def ram_sth_def [abs_def] ram_stw_def [abs_def] ram_std_def [abs_def]
    by (intro b; simp)+
qed

lemma translations_precise:
  assumes "mem_ok env"
  shows "exn_keeps (unchanged env) (store_pa va env)" and "exn_keeps (unchanged env) (load_pa va env)"
proof -
  have p: "mmu_plain env" "tc_coherent env" "\<not> enable_hw_ptw env" using assms by (simp_all add: mem_ok_def mmu_plain_def)
  have t: "translate acc va env = Exn e \<Longrightarrow> unchanged env e" for acc e by (rule translate_Exn_frame [OF p(3)])
  show "exn_keeps (unchanged env) (store_pa va env)" using t store_pa_Exn [OF assms] by (simp add: exn_keeps_def)
  show "exn_keeps (unchanged env) (load_pa va env)"
    using t load_port.lookup_Exn [OF p(1)] p(2) by (simp add: exn_keeps_def tc_coherent_def)
qed

lemma atomics_precise:
  assumes "mem_ok env" and "\<And>ha e. never_exn (ld ha e)" and "\<And>ha v e. never_exn (st ha v e)"
  shows "exn_keeps (unchanged env) (amo ld st f a env)" and "exn_keeps (unchanged env) (sc_body ld st a env)"
  unfolding amo_def sc_body_def
  by (intro never_exn_intros translations_precise assms)+

lemma ll_precise:
  assumes "mem_ok env" and "\<And>ha e. never_exn (ld ha e)"
  shows "exn_keeps (unchanged env) (bind_out (load_pa va env) (\<lambda>(ha, _) env. bind_out (ld ha env) (ll_link a ha)))"
  by (intro never_exn_intros never_exn_ll translations_precise assms)

section \<open>Properties\<close>

text \<open>(C21) The atomic operations of \<open>amo_w_ops\<close> and \<open>amo_d_ops\<close>: swap, add, and, or, xor on words and doublewords, and
  signed and unsigned maximum and minimum on words, each also in its form with a barrier (\<open>_db\<close>). With coherent translation caches and the hardware walker off, for
  an address that the program may write and that has eight bytes of RAM, each of these instructions returns
  the old number of its width, sign-extended, in rd, and memory holds the result of its operation on the old
  number and on rk, at that width, signed or unsigned as its name says; no other byte and no other register
  changes. The doubleword maximum and minimum are not among them: they store 32 bits only.\<close>

theorem amo_correct:
  assumes "mem_ok env" and "translate MMU_DATA_STORE (gpr env (rj a)) env = Ret ha env" and "ram_ok 8 ha env"
  shows "list_all (\<lambda>(ins, f). amo_done ins f a ha env) amo_w_ops \<and> list_all (\<lambda>(ins, f). amo_done ins f a ha env) amo_d_ops"
proof
  show "list_all (\<lambda>(ins, f). amo_done ins f a ha env) amo_w_ops"
    unfolding amo_w_ops_def list.pred_inject amo_w_defs [abs_def] split
    by (intro conjI list.pred_inject(1) amo_w [OF assms]) (simp_all add: narrow_max ucast_plus ucast_bitops ucast_scast)
  show "list_all (\<lambda>(ins, f). amo_done ins f a ha env) amo_d_ops"
    unfolding amo_d_ops_def list.pred_inject amo_d_defs [abs_def] split
    by (intro conjI list.pred_inject(1) amo_d [OF assms])
qed

text \<open>(C24) The 64-bit atomic minimum and maximum store 32 bits. They compare and return the 64-bit old value, but
  they replace the low half of the number in memory only: the four bytes above keep their old value.\<close>

theorem minmax_d_stores_low_half:
  assumes "mem_ok env" and "translate MMU_DATA_STORE (gpr env (rj a)) env = Ret ha env" and "ram_ok 8 ha env"
  shows "list_all (\<lambda>(ins, f). amo_done ins (\<lambda>x y. ucast (f x y) :: u32) a ha env) amo_minmax_d_ops"
  unfolding amo_minmax_d_ops_def list.pred_inject amo_minmax_defs [abs_def] split smax_signed
  by (intro conjI list.pred_inject(1) amo_d(2) [OF assms])

text \<open>Store-conditional. After a load-linked of an address, a store-conditional to the same physical address
  whose link is still the one recorded stores and returns 1 if memory holds the value that was loaded, and
  otherwise returns 0 and leaves memory alone; a store in between that put the same value back is not seen.\<close>

theorem ll_then_sc:
  assumes "mem_ok env" and "translate MMU_DATA_LOAD (gpr env (rj a) + immw a) env = Ret ha env"
    and "mem_ok e" and "translate MMU_DATA_STORE (gpr e (rj b) + immw b) e = Ret ha e" and "ram_ok 8 ha e"
  shows "(trans_ll_w a env = Ret True env' \<longrightarrow> link_of e = link_of env'
      \<longrightarrow> sc_done trans_sc_w (word_at ha env :: u32) b ha e)
    \<and> (trans_ll_d a env = Ret True env' \<longrightarrow> link_of e = link_of env'
      \<longrightarrow> sc_done trans_sc_d (word_at ha env :: u64) b ha e)"
proof (intro conjI impI)
  assume "trans_ll_w a env = Ret True env'" "link_of e = link_of env'"
  then have "link_of e = (True, ha, scast (word_at ha env :: u32))"
    using ll_step [where 'w = 32 and n = 4, OF assms(1,2), of a env'] by (simp add: trans_ll_w_def ram_ldw_eq)
  moreover have "ram_ok 4 ha e" using assms(5) by (simp add: ram_ok_def list_all_iff)
  ultimately show "sc_done trans_sc_w (word_at ha env :: u32) b ha e"
    using sc_step [where 'w = 32 and n = 4, OF assms(3,4)]
    by (simp add: trans_sc_w_def [abs_def] ram_ldw_eq ram_stw_def [abs_def])
next
  assume "trans_ll_d a env = Ret True env'" "link_of e = link_of env'"
  then have "link_of e = (True, ha, scast (word_at ha env :: u64))"
    using ll_step [where 'w = 64 and n = 8, OF assms(1,2), of a env'] by (simp add: trans_ll_d_def ram_ldd_eq)
  then show "sc_done trans_sc_d (word_at ha env :: u64) b ha e"
    using sc_step [where 'w = 64 and n = 8, OF assms(3,4)] assms(5)
    by (simp add: trans_sc_d_def [abs_def] ram_ldd_eq ram_std_def [abs_def])
qed


text \<open>(C20) Exceptions are precise, with coherent translation caches and the hardware walker off (\<open>mem_ok\<close>). A load that raises an exception has changed no register and not the program
  counter, and a store, atomic operation, load-linked or store-conditional that raises one has changed neither
  memory nor devices either, so that the handler can return to the instruction.\<close>

theorem precise_exceptions:
  assumes "mem_ok env"
  shows "list_all (\<lambda>ins. exn_keeps (\<lambda>e. gpr e = gpr env \<and> pc e = pc env) (ins a env)) load_ops
    \<and> list_all (\<lambda>ins. exn_keeps (unchanged env) (ins a env)) store_ops"
proof
  show "list_all (\<lambda>ins. exn_keeps (\<lambda>e. gpr e = gpr env \<and> pc e = pc env) (ins a env)) load_ops"
    unfolding load_ops_def list.pred_inject load_defs
    by (intro conjI list.pred_inject(1) exn_keeps_bind never_exn_simple loads_precise)
  show "list_all (\<lambda>ins. exn_keeps (unchanged env) (ins a env)) store_ops"
    unfolding store_ops_def amo_w_ops_def amo_d_ops_def amo_minmax_d_ops_def list.map fst_conv append.simps list.pred_inject
      store_defs amo_w_defs amo_d_defs amo_minmax_defs trans_sc_w_def trans_sc_d_def trans_ll_w_def trans_ll_d_def
    by (intro conjI list.pred_inject(1) exn_keeps_bind [OF stores_precise(1)] exn_keeps_bind [OF stores_precise(2)]
        exn_keeps_bind [OF stores_precise(3)] exn_keeps_bind [OF stores_precise(4)] never_exn_simple atomics_precise ll_precise assms)
qed

text \<open>A machine after boot whose register 5 holds the address 0x1000.\<close>

abbreviation demo :: "unit machine" where
  "demo \<equiv> (booted 0)\<lparr>gpr := \<lambda>r. if r = 5 then 0x1000 else 9\<rparr>"

abbreviation demo_args :: insn_arg where
  "demo_args \<equiv> no_args\<lparr>rd := 4, rj := 5, rk := 6\<rparr>"

lemma demo_agree: "mmu_agree e demo \<Longrightarrow> translate acc 0x1000 e = Ret 0x1000 e"
proof -
  assume "mmu_agree e demo"
  then have "mmu_agree e (booted 0)" by (simp add: mmu_agree_def)
  moreover have "translate acc 0x1000 (booted 0) = Ret 0x1000 (booted 0)"
    using booted_translate [of acc "0x1000" 0] by (simp add: take_bit_eq_mod)
  ultimately show ?thesis using translate_agree_plain [of "booted 0" e] booted_mem_ok [of 0] by (simp add: mem_ok_def)
qed

lemma demo_ok: "mem_ok demo" "translate acc 0x1000 demo = Ret 0x1000 demo" "ram_ok 16 0x1000 demo" "ram_ok 8 0x1000 demo"
proof -
  have "mmu_agree demo (booted 0)" by (simp add: mmu_agree_def)
  then show "mem_ok demo" by (rule mem_ok_frame [OF booted_mem_ok]) simp_all
  show "translate acc 0x1000 demo = Ret 0x1000 demo" by (rule demo_agree) simp
  show "ram_ok 16 0x1000 demo" "ram_ok 8 0x1000 demo"
    by (simp_all add: ram_ok_def addr_in_ram_def upt_rec size_defs)
qed

theorem amo_correct_witness:
  "list_all (\<lambda>(ins, f). amo_done ins f demo_args 0x1000 demo) amo_w_ops"
  using amo_correct [of demo demo_args "0x1000"] demo_ok by simp

theorem minmax_d_stores_low_half_witness:
  "list_all (\<lambda>(ins, f). amo_done ins (\<lambda>x y. ucast (f x y) :: u32) demo_args 0x1000 demo) amo_minmax_d_ops"
  using minmax_d_stores_low_half [of demo demo_args "0x1000"] demo_ok by simp

lemma ll_w_returns:
  assumes ok: "mem_ok env" and t: "translate MMU_DATA_LOAD (gpr env (rj a) + immw a) env = Ret ha env"
    and r: "ram_ok 16 ha env" and al: "ROUND_DOWN_16 ha = ha"
  obtains env' where "trans_ll_w a env = Ret True env'"
proof -
  have p: "mmu_plain env" "tc_coherent env" using ok by (simp_all add: mem_ok_def)
  obtain e1 where s: "load_pa (gpr env (rj a) + immw a) env = Ret (ha, is_io ha) e1"
    using ok t by (rule load_pa_ok)
  obtain c where e1: "e1 = env\<lparr>tc_load := c\<rparr>" using load_pa_Ret(3) [OF p s] by blast
  have in16: "addr_in_ram env (ha + of_nat i)" if "i < 16" for i using r that by (simp add: ram_ok_def list_all_iff)
  have "ram_ok 4 ha (env\<lparr>tc_load := c\<rparr>)" "ram_ok 8 ha (env\<lparr>tc_load := c, gpr := g\<rparr>)"
    "ram_ok 8 (ha + 8) (env\<lparr>tc_load := c, gpr := g\<rparr>)" for g
    using in16 [of "8 + i" for i] in16
    by (auto simp: ram_ok_def list_all_iff addr_in_ram_def add.assoc)
  then have "\<exists>env'. trans_ll_w a env = Ret True env'"
    using s al
    by (simp add: trans_ll_w_def ll_link_def ram_ldw_def ram_ldd_def ram_ld_def e1 next_insn_def Let_def)
  then show thesis using that by blast
qed

theorem ll_then_sc_witness:
  "sc_done trans_sc_w (word_at 0x1000 demo :: u32) demo_args 0x1000
     (demo\<lparr>CSR_LLBCTL := 1, lladdr := 0x1000, llval := scast (word_at 0x1000 demo :: u32)\<rparr>)"
proof -
  let ?e = "demo\<lparr>CSR_LLBCTL := 1, lladdr := 0x1000, llval := scast (word_at 0x1000 demo :: u32)\<rparr>"
  have a: "gpr demo (rj demo_args) + immw demo_args = 0x1000" by (simp add: immw_def)
  obtain env' where l: "trans_ll_w demo_args demo = Ret True env'"
    by (rule ll_w_returns [OF demo_ok(1), of demo_args "0x1000"]) (simp_all add: immw_def demo_ok ROUND_DOWN_16_def)
  have "link_of env' = (True, 0x1000, scast (word_at 0x1000 demo :: u32))"
    using ll_step [where 'w = 32 and n = 4, OF demo_ok(1), of "0x1000" "0x1000" demo_args env'] l a demo_ok
    by (simp add: trans_ll_w_def ram_ldw_eq)
  then have "link_of ?e = link_of env'" by (simp add: link_of_def field_defs FIELD_EX64_def extract64_eq_take_bit)
  moreover have ag: "mmu_agree ?e demo" by (simp add: mmu_agree_def)
  moreover have "mem_ok ?e" by (rule mem_ok_frame [OF demo_ok(1) ag]) simp_all
  moreover have "ram_ok 8 0x1000 ?e" by (simp add: ram_ok_def addr_in_ram_def upt_rec size_defs)
  ultimately show ?thesis
    using ll_then_sc [of demo demo_args "0x1000" ?e demo_args env'] l a demo_ok demo_agree [OF ag] by simp
qed

text \<open>Every translation faults.\<close>

theorem precise_exceptions_witness:
  "\<exists>e e'. trans_ld_w demo_args (unmapped (\<lambda>_. 0x1000)) = Exn e \<and> gpr e = (\<lambda>_. 0x1000)
    \<and> trans_amadd_w demo_args (unmapped (\<lambda>_. 0x1000)) = Exn e' \<and> unchanged (unmapped (\<lambda>_. 0x1000)) e'"
proof -
  let ?env = "unmapped (\<lambda>_. 0x1000)"
  have t: "\<exists>e. translate acc 0x1000 ?env = Exn e" for acc
    by (rule unmapped_faults) (simp add: sextract64_def)
  have p: "mmu_plain ?env" "tc_coherent ?env" using unmapped_faults(1) [of "\<lambda>_. 0x1000"] by (simp_all add: mem_ok_def)
  obtain e where e: "load_pa 0x1000 ?env = Exn e"
    using t [of MMU_DATA_LOAD] load_port.lookup_Exn [OF p(1)] p(2) by (fastforce simp: tc_coherent_def)
  obtain e' where e': "store_pa 0x1000 ?env = Exn e'"
    using t [of MMU_DATA_STORE] store_pa_Exn [OF unmapped_faults(1)] by blast
  have x: "trans_ld_w demo_args ?env = Exn e"
    using e by (simp add: trans_ld_w_def ld_w_def ld_body_def immw_def add_addr_def)
  have y: "trans_amadd_w demo_args ?env = Exn e'" using e' by (simp add: trans_amadd_w_def trans_amadd_db_w_def amo_def)
  show ?thesis
    using x y precise_exceptions [OF unmapped_faults(1), where a = demo_args]
    by (auto simp: load_ops_def store_ops_def amo_w_ops_def exn_keeps_def)
qed

end
