(* ===== verification/LA_Insn_Sys.thy ===== *)
theory LA_Insn_Sys
  imports LA_Insn_Mem
begin

text \<open>
  Branches, traps, timers and the privileged instructions of \<open>loongarch64/interpreter.c\<close>.

  \<^item> \<open>CHECK_PLV(0)\<close> is \<open>CHECK_PLV\<close>: the instruction traps with \<open>EXCCODE_IPE\<close> unless the core is at level 0.
    \<open>CHECK_FPE(8)\<close> is \<open>CHECK_FPE8\<close>.
  \<^item> \<open>__NOT_IMPLEMENTED__\<close> ends the emulation (\<open>Exit\<close>); so does a branch to itself, the convention by which a
    guest stops the emulator.
  \<^item> The accesses to I/O control registers only print a message. \<open>a->rd = 0\<close> in four of them changes the argument struct, not
    the core: the effect on the instruction cache is \<open>clears_rd\<close> (\<open>LA_Decode\<close>) and \<open>write_arg\<close> (\<open>LA_Exec\<close>).
  \<^item> \<open>idle\<close> sleeps on the host until an interrupt is pending. Whether the host timer fires during a sleep is
    given by a list with one element per sleep; the result is \<open>None\<close> as long as the core sleeps.
\<close>

section \<open>Guards\<close>

definition CHECK_PLV :: "'d machine \<Rightarrow> (bool, 'd machine) outcome \<Rightarrow> (bool, 'd machine) outcome" where
  "CHECK_PLV env body =
    (if FIELD_EX64 (CSR_CRMD env) CSR_CRMD_PLV \<noteq> 0 then do_raise_exception env EXCCODE_IPE else body)"

definition CHECK_FPE8 :: "'d machine \<Rightarrow> (bool, 'd machine) outcome \<Rightarrow> (bool, 'd machine) outcome" where
  "CHECK_FPE8 env body =
    (if FIELD_EX32 (cpucfg env 2) CPUCFG2_FP = 0 then Ret False env
     else if FIELD_EX64 (CSR_EUEN env) CSR_EUEN_FPE = 0 then do_raise_exception env EXCCODE_FPD else body)"

section \<open>Branches\<close>

definition offsw :: "insn_arg \<Rightarrow> u64" where
  "offsw a = word_of_int (offs a)"

definition branch :: "bool \<Rightarrow> insn_arg \<Rightarrow> 'd machine \<Rightarrow> (bool, 'd machine) outcome" where
  "branch taken a env = Ret True (cpu_set_pc (if taken then pc env + offsw a else pc env + 4) env)"

definition trans_beqz :: "insn_arg \<Rightarrow> 'd machine \<Rightarrow> (bool, 'd machine) outcome" where
  "trans_beqz a env = branch (gpr env (rj a) = 0) a env"

definition trans_bnez :: "insn_arg \<Rightarrow> 'd machine \<Rightarrow> (bool, 'd machine) outcome" where
  "trans_bnez a env = branch (gpr env (rj a) \<noteq> 0) a env"

definition trans_bceqz :: "insn_arg \<Rightarrow> 'd machine \<Rightarrow> (bool, 'd machine) outcome" where
  "trans_bceqz a env = CHECK_FPE8 env (branch (\<not> cf env (cj a)) a env)"

definition trans_bcnez :: "insn_arg \<Rightarrow> 'd machine \<Rightarrow> (bool, 'd machine) outcome" where
  "trans_bcnez a env = CHECK_FPE8 env (branch (cf env (cj a)) a env)"

definition trans_jirl :: "insn_arg \<Rightarrow> 'd machine \<Rightarrow> (bool, 'd machine) outcome" where
  "trans_jirl a env =
    (let target = gpr env (rj a) + immw a;
         env = env\<lparr>gpr := (gpr env)(rd a := pc env + 4)\<rparr>
     in Ret True (cpu_set_pc target env))"

definition trans_b :: "insn_arg \<Rightarrow> 'd machine \<Rightarrow> (bool, 'd machine) outcome" where
  "trans_b a env = (if offs a = 0 then Exit env else Ret True (cpu_set_pc (pc env + offsw a) env))"

definition trans_bl :: "insn_arg \<Rightarrow> 'd machine \<Rightarrow> (bool, 'd machine) outcome" where
  "trans_bl a env =
    (let env = env\<lparr>gpr := (gpr env)(1 := pc env + 4)\<rparr>
     in Ret True (cpu_set_pc (pc env + offsw a) env))"

definition trans_beq :: "insn_arg \<Rightarrow> 'd machine \<Rightarrow> (bool, 'd machine) outcome" where
  "trans_beq a env = branch (gpr env (rj a) = gpr env (rd a)) a env"

definition trans_bne :: "insn_arg \<Rightarrow> 'd machine \<Rightarrow> (bool, 'd machine) outcome" where
  "trans_bne a env = branch (gpr env (rj a) \<noteq> gpr env (rd a)) a env"

definition trans_blt :: "insn_arg \<Rightarrow> 'd machine \<Rightarrow> (bool, 'd machine) outcome" where
  "trans_blt a env = branch (gpr env (rj a) <s gpr env (rd a)) a env"

definition trans_bge :: "insn_arg \<Rightarrow> 'd machine \<Rightarrow> (bool, 'd machine) outcome" where
  "trans_bge a env = branch (gpr env (rd a) \<le>s gpr env (rj a)) a env"

definition trans_bltu :: "insn_arg \<Rightarrow> 'd machine \<Rightarrow> (bool, 'd machine) outcome" where
  "trans_bltu a env = branch (gpr env (rj a) < gpr env (rd a)) a env"

definition trans_bgeu :: "insn_arg \<Rightarrow> 'd machine \<Rightarrow> (bool, 'd machine) outcome" where
  "trans_bgeu a env = branch (gpr env (rd a) \<le> gpr env (rj a)) a env"

section \<open>Traps and counters\<close>

definition trans_break :: "insn_arg \<Rightarrow> 'd machine \<Rightarrow> (bool, 'd machine) outcome" where
  "trans_break a env = do_raise_exception env EXCCODE_BRK"

definition trans_syscall :: "insn_arg \<Rightarrow> 'd machine \<Rightarrow> (bool, 'd machine) outcome" where
  "trans_syscall a env = do_raise_exception (env\<lparr>syscall_count := syscall_count env + 1\<rparr>) EXCCODE_SYS"

definition trans_asrtle_d :: "insn_arg \<Rightarrow> 'd machine \<Rightarrow> (bool, 'd machine) outcome" where
  "trans_asrtle_d a env =
    (if gpr env (rj a) > gpr env (rk a) then do_raise_exception (env\<lparr>CSR_BADV := gpr env (rj a)\<rparr>) EXCCODE_BCE
     else next_insn env)"

definition trans_asrtgt_d :: "insn_arg \<Rightarrow> 'd machine \<Rightarrow> (bool, 'd machine) outcome" where
  "trans_asrtgt_d a env =
    (if gpr env (rj a) \<le> gpr env (rk a) then do_raise_exception (env\<lparr>CSR_BADV := gpr env (rj a)\<rparr>) EXCCODE_BCE
     else next_insn env)"

text \<open>\<open>TIME_SCALE\<close> is 1.\<close>

definition la_get_tval :: "'d machine \<Rightarrow> u64 \<times> 'd machine" where
  "la_get_tval env =
    (if determined env then (icount env + CSR_CNTC env, env)
     else (clock_seq env (clock_pos env) div TIMER_PERIOD + CSR_CNTC env, env\<lparr>clock_pos := clock_pos env + 1\<rparr>))"

definition trans_rdtimel_w :: "insn_arg \<Rightarrow> 'd machine \<Rightarrow> (bool, 'd machine) outcome" where
  "trans_rdtimel_w a env =
    (let (tval, env) = la_get_tval env;
         env = gen_set_gpr (rd a) tval EXT_SIGN env
     in next_insn (env\<lparr>gpr := (gpr env)(rj a := 0)\<rparr>))"

definition trans_rdtimeh_w :: "insn_arg \<Rightarrow> 'd machine \<Rightarrow> (bool, 'd machine) outcome" where
  "trans_rdtimeh_w a env =
    (let (tval, env) = la_get_tval env;
         env = gen_set_gpr (rd a) (signed_drop_bit 32 tval) EXT_SIGN env
     in next_insn (env\<lparr>gpr := (gpr env)(rj a := 0)\<rparr>))"

definition trans_rdtime_d :: "insn_arg \<Rightarrow> 'd machine \<Rightarrow> (bool, 'd machine) outcome" where
  "trans_rdtime_d a env =
    (let (tval, env) = la_get_tval env;
         env = env\<lparr>gpr := (gpr env)(rd a := tval)\<rparr>
     in next_insn (env\<lparr>gpr := (gpr env)(rj a := 0)\<rparr>))"

text \<open>The index is a C \<open>int\<close> that the comparison with a \<open>size_t\<close> converts.\<close>

definition trans_cpucfg :: "insn_arg \<Rightarrow> 'd machine \<Rightarrow> (bool, 'd machine) outcome" where
  "trans_cpucfg a env =
    (let index = sext 32 (gpr env (rj a))
     in set_rd a (if index \<ge> 21 then 0 else ucast (cpucfg env (unat index))) env)"

section \<open>Privileged instructions\<close>

definition trans_csrrd :: "insn_arg \<Rightarrow> 'd machine \<Rightarrow> (bool, 'd machine) outcome" where
  "trans_csrrd a env = CHECK_PLV env (bind_out (helper_read_csr (csr a) env) (set_rd a))"

definition trans_csrwr :: "insn_arg \<Rightarrow> 'd machine \<Rightarrow> (bool, 'd machine) outcome" where
  "trans_csrwr a env =
    CHECK_PLV env (bind_out (helper_write_csr (csr a) (gpr env (rd a)) (- 1) env) (set_rd a))"

definition trans_csrxchg :: "insn_arg \<Rightarrow> 'd machine \<Rightarrow> (bool, 'd machine) outcome" where
  "trans_csrxchg a env =
    CHECK_PLV env (bind_out (helper_write_csr (csr a) (gpr env (rd a)) (gpr env (rj a)) env) (set_rd a))"

text \<open>The I/O CSRs are not implemented: the instructions do nothing. The reads leave their destination register
  as it is; \<open>a->rd = 0\<close> changes the decoded arguments, not the register.\<close>

definition trans_iocsrrd_b :: "insn_arg \<Rightarrow> 'd machine \<Rightarrow> (bool, 'd machine) outcome" where
  "trans_iocsrrd_b a env = CHECK_PLV env (next_insn env)"

definition trans_iocsrrd_h :: "insn_arg \<Rightarrow> 'd machine \<Rightarrow> (bool, 'd machine) outcome" where
  "trans_iocsrrd_h a env = CHECK_PLV env (next_insn env)"

definition trans_iocsrrd_w :: "insn_arg \<Rightarrow> 'd machine \<Rightarrow> (bool, 'd machine) outcome" where
  "trans_iocsrrd_w a env = CHECK_PLV env (next_insn env)"

definition trans_iocsrrd_d :: "insn_arg \<Rightarrow> 'd machine \<Rightarrow> (bool, 'd machine) outcome" where
  "trans_iocsrrd_d a env = CHECK_PLV env (next_insn env)"

definition trans_iocsrwr_b :: "insn_arg \<Rightarrow> 'd machine \<Rightarrow> (bool, 'd machine) outcome" where
  "trans_iocsrwr_b a env = CHECK_PLV env (next_insn env)"

definition trans_iocsrwr_h :: "insn_arg \<Rightarrow> 'd machine \<Rightarrow> (bool, 'd machine) outcome" where
  "trans_iocsrwr_h a env = CHECK_PLV env (next_insn env)"

definition trans_iocsrwr_w :: "insn_arg \<Rightarrow> 'd machine \<Rightarrow> (bool, 'd machine) outcome" where
  "trans_iocsrwr_w a env = CHECK_PLV env (next_insn env)"

definition trans_iocsrwr_d :: "insn_arg \<Rightarrow> 'd machine \<Rightarrow> (bool, 'd machine) outcome" where
  "trans_iocsrwr_d a env = CHECK_PLV env (next_insn env)"

definition trans_tlbsrch :: "insn_arg \<Rightarrow> 'd machine \<Rightarrow> (bool, 'd machine) outcome" where
  "trans_tlbsrch a env = CHECK_PLV env (bind_out (helper_tlbsrch env) (\<lambda>_. next_insn))"

definition trans_tlbrd :: "insn_arg \<Rightarrow> 'd machine \<Rightarrow> (bool, 'd machine) outcome" where
  "trans_tlbrd a env = CHECK_PLV env (bind_out (helper_tlbrd env) (\<lambda>_. next_insn))"

definition trans_tlbwr :: "insn_arg \<Rightarrow> 'd machine \<Rightarrow> (bool, 'd machine) outcome" where
  "trans_tlbwr a env = CHECK_PLV env (bind_out (helper_tlbwr env) (\<lambda>_ env. next_insn (cpu_clear_tc env)))"

definition trans_tlbfill :: "insn_arg \<Rightarrow> 'd machine \<Rightarrow> (bool, 'd machine) outcome" where
  "trans_tlbfill a env = CHECK_PLV env (next_insn (helper_tlbfill env))"

definition trans_tlbclr :: "insn_arg \<Rightarrow> 'd machine \<Rightarrow> (bool, 'd machine) outcome" where
  "trans_tlbclr a env = CHECK_PLV env (Exit env)"

definition trans_tlbflush :: "insn_arg \<Rightarrow> 'd machine \<Rightarrow> (bool, 'd machine) outcome" where
  "trans_tlbflush a env = CHECK_PLV env (Exit env)"

text \<open>Every form of \<open>invtlb\<close> invalidates the whole TLB.\<close>

definition trans_invtlb :: "insn_arg \<Rightarrow> 'd machine \<Rightarrow> (bool, 'd machine) outcome" where
  "trans_invtlb a env = CHECK_PLV env (next_insn (cpu_clear_tc (helper_invtlb_all env)))"

definition trans_cacop :: "insn_arg \<Rightarrow> 'd machine \<Rightarrow> (bool, 'd machine) outcome" where
  "trans_cacop a env = CHECK_PLV env (next_insn env)"

definition trans_lddir :: "insn_arg \<Rightarrow> 'd machine \<Rightarrow> (bool, 'd machine) outcome" where
  "trans_lddir a env =
    CHECK_PLV env (bind_out (helper_lddir (gpr env (rj a)) (immw a) 0 env) (\<lambda>(dir, _). set_rd a dir))"

definition trans_ldpte :: "insn_arg \<Rightarrow> 'd machine \<Rightarrow> (bool, 'd machine) outcome" where
  "trans_ldpte a env = CHECK_PLV env (bind_out (helper_ldpte (gpr env (rj a)) (imm a \<noteq> 0) 0 env) (\<lambda>_. next_insn))"

definition trans_ertn :: "insn_arg \<Rightarrow> 'd machine \<Rightarrow> (bool, 'd machine) outcome" where
  "trans_ertn a env = CHECK_PLV env (Ret True (cpu_clear_tc (helper_ertn env)))"

definition trans_dbcl :: "insn_arg \<Rightarrow> 'd machine \<Rightarrow> (bool, 'd machine) outcome" where
  "trans_dbcl a env = CHECK_PLV env (Exit env)"

text \<open>The loop of \<open>idle\<close>: check for an interrupt, sleep, and again.\<close>

fun idle_wait :: "bool list \<Rightarrow> 'd machine \<Rightarrow> (unit, 'd machine) outcome option" where
  "idle_wait alarms env =
    (case loongarch_cpu_check_irq env of
       Ret _ env \<Rightarrow> if loongarch_cpu_has_irq env then Some (Ret () env)
         else (case alarms of [] \<Rightarrow> None
               | fires # alarms \<Rightarrow> idle_wait alarms (if fires then sigaction_entry_timer env else env))
     | Exn env \<Rightarrow> Some (Exn env) | Exit env \<Rightarrow> Some (Exit env) | Crash \<Rightarrow> Some Crash)"

definition trans_idle :: "bool list \<Rightarrow> insn_arg \<Rightarrow> 'd machine \<Rightarrow> (bool, 'd machine) outcome option" where
  "trans_idle alarms a env =
    (if FIELD_EX64 (CSR_CRMD env) CSR_CRMD_PLV \<noteq> 0 then Some (do_raise_exception env EXCCODE_IPE)
     else if FIELD_EX64 (CSR_CRMD env) CSR_CRMD_IE = 0 then Some (Exit env)
     else if determined env then Some (next_insn env)
     else (case idle_wait alarms env of None \<Rightarrow> None | Some r \<Rightarrow> Some (bind_out r (\<lambda>_. next_insn))))"

section \<open>Reference lists\<close>

definition branch_ops :: "('d trans \<times> (u64 \<Rightarrow> u64 \<Rightarrow> bool)) list" where
  "branch_ops = [(trans_beqz, \<lambda>x _. uint x = 0), (trans_bnez, \<lambda>x _. uint x \<noteq> 0),
    (trans_beq, \<lambda>x y. uint x = uint y), (trans_bne, \<lambda>x y. uint x \<noteq> uint y),
    (trans_blt, \<lambda>x y. sint x < sint y), (trans_bge, \<lambda>x y. sint x \<ge> sint y),
    (trans_bltu, \<lambda>x y. uint x < uint y), (trans_bgeu, \<lambda>x y. uint x \<ge> uint y)]"

definition privileged_ops :: "'d trans list" where
  "privileged_ops = [trans_csrrd, trans_csrwr, trans_csrxchg, trans_iocsrrd_b, trans_iocsrrd_h, trans_iocsrrd_w,
    trans_iocsrrd_d, trans_iocsrwr_b, trans_iocsrwr_h, trans_iocsrwr_w, trans_iocsrwr_d, trans_tlbsrch, trans_tlbrd,
    trans_tlbwr, trans_tlbfill, trans_tlbclr, trans_tlbflush, trans_invtlb, trans_cacop, trans_lddir, trans_ldpte,
    trans_ertn, trans_dbcl]"

lemmas branch_defs = trans_beqz_def trans_bnez_def trans_beq_def trans_bne_def trans_blt_def trans_bge_def
  trans_bltu_def trans_bgeu_def branch_def offsw_def cpu_set_pc_def

lemmas privileged_defs = trans_csrrd_def trans_csrwr_def trans_csrxchg_def trans_iocsrrd_b_def trans_iocsrrd_h_def
  trans_iocsrrd_w_def trans_iocsrrd_d_def trans_iocsrwr_b_def trans_iocsrwr_h_def trans_iocsrwr_w_def
  trans_iocsrwr_d_def trans_tlbsrch_def trans_tlbrd_def trans_tlbwr_def trans_tlbfill_def trans_tlbclr_def
  trans_tlbflush_def trans_invtlb_def trans_cacop_def trans_lddir_def trans_ldpte_def trans_ertn_def trans_dbcl_def

lemma CHECK_PLV_user:
  "FIELD_EX64 (CSR_CRMD env) CSR_CRMD_PLV \<noteq> 0 \<Longrightarrow> CHECK_PLV env body = do_raise_exception env EXCCODE_IPE"
  by (simp add: CHECK_PLV_def)

section \<open>Idle\<close>

declare idle_wait.simps [simp del]

lemma check_irq_host:
  assumes "\<not> determined env"
  shows "loongarch_cpu_check_irq env = Ret () (if timer_int env
     then let env = env\<lparr>timer_int := False, CSR_ESTAT := deposit64 (CSR_ESTAT env) 11 1 1\<rparr>
          in if FIELD_EX64 (CSR_TCFG env) CSR_TCFG_PERIODIC \<noteq> 0 then cpu_settimer env
             else env\<lparr>CSR_TCFG := FIELD_DP64 (CSR_TCFG env) CSR_TCFG_EN 0\<rparr>
     else env)"
  using assms by (simp add: loongarch_cpu_check_irq_def loongarch_cpu_set_irq_def estat_set_irq_def
      IRQ_TIMER_def N_IRQS_def Let_def)

lemma timer_has_irq:
  assumes "FIELD_EX64 (CSR_CRMD env) CSR_CRMD_IE \<noteq> 0" and "bit (CSR_ECFG env) 11" and "bit (CSR_ESTAT env) 11"
  shows "loongarch_cpu_has_irq env"
proof -
  have "bit (FIELD_EX64 (CSR_ESTAT env) CSR_ESTAT_IS AND FIELD_EX64 (CSR_ECFG env) CSR_ECFG_LIE) 11"
    using assms(2,3) by (simp add: bit_simps FIELD_EX64_def field_defs bit_extract64)
  then show ?thesis using assms(1) by (auto simp: loongarch_cpu_has_irq_def)
qed

lemma idle_sleeps:
  assumes "\<not> determined env" and "\<not> timer_int env" and "\<not> loongarch_cpu_has_irq env"
  shows "idle_wait [] env = None" and "idle_wait (False # alarms) env = idle_wait alarms env"
    and "idle_wait (True # alarms) env = idle_wait alarms (env\<lparr>timer_int := True\<rparr>)"
  using assms by (simp_all add: idle_wait.simps [of _ env] check_irq_host sigaction_entry_timer_def)

lemma idle_alarm:
  assumes "\<not> determined env" and "FIELD_EX64 (CSR_CRMD env) CSR_CRMD_IE \<noteq> 0" and "bit (CSR_ECFG env) 11"
  obtains env' where "idle_wait alarms (env\<lparr>timer_int := True\<rparr>) = Some (Ret () env')" and "loongarch_cpu_has_irq env'"
    and "bit (CSR_ESTAT env') 11" and "gpr env' = gpr env" and "pc env' = pc env" and "ram env' = ram env"
proof -
  obtain env' where c: "loongarch_cpu_check_irq (env\<lparr>timer_int := True\<rparr>) = Ret () env'"
    and f: "bit (CSR_ESTAT env') 11" "CSR_CRMD env' = CSR_CRMD env" "CSR_ECFG env' = CSR_ECFG env"
      "gpr env' = gpr env" "pc env' = pc env" "ram env' = ram env"
    using assms(1) check_irq_host [of "env\<lparr>timer_int := True\<rparr>"]
    by (simp add: Let_def bit_deposit64 cpu_settimer_def split: if_splits)
  have "loongarch_cpu_has_irq env'" using f assms(2,3) by (intro timer_has_irq) simp_all
  then show thesis using c f by (intro that [of env']) (simp_all add: idle_wait.simps)
qed

section \<open>Properties\<close>

text \<open>(C22) The privileged instructions trap outside level 0. At any other level each of them raises the
  instruction-privilege exception and does nothing else: the only changes are the exception number and the
  cleared translation caches.\<close>

theorem privileged_traps:
  assumes "FIELD_EX64 (CSR_CRMD env) CSR_CRMD_PLV \<noteq> 0"
  shows "list_all (\<lambda>ins. ins a env = Exn ((cpu_clear_tc env)\<lparr>exception_index := EXCCODE_IPE\<rparr>)) privileged_ops
    \<and> trans_idle alarms a env = Some (Exn ((cpu_clear_tc env)\<lparr>exception_index := EXCCODE_IPE\<rparr>))"
  using assms unfolding privileged_ops_def list.pred_inject privileged_defs trans_idle_def
  by (simp add: CHECK_PLV_user do_raise_exception_def)

theorem privileged_traps_witness:
  "list_all (\<lambda>ins. ins no_args ((booted 0)\<lparr>CSR_CRMD := 3\<rparr>)
      = Exn ((cpu_clear_tc ((booted 0)\<lparr>CSR_CRMD := 3\<rparr>))\<lparr>exception_index := EXCCODE_IPE\<rparr>)) privileged_ops"
proof -
  have "FIELD_EX64 (CSR_CRMD ((booted 0)\<lparr>CSR_CRMD := 3\<rparr>)) CSR_CRMD_PLV \<noteq> 0"
    by (simp add: field_defs FIELD_EX64_def extract64_eq_take_bit take_bit_eq_mod)
  from privileged_traps [OF this, of no_args "[]"] show ?thesis by blast
qed

text \<open>Branches and calls. A conditional branch goes to its offset exactly if its condition holds of the register
  values, read as signed or unsigned numbers as its name says, and otherwise to the next instruction, and
  changes nothing else; after a \<open>bl\<close>, a \<open>jirl\<close> through the link register comes back behind the call.\<close>

theorem branches_and_calls:
  "list_all (\<lambda>(ins, taken). ins a env =
      Ret True (env\<lparr>pc := pc env + (if taken (gpr env (rj a)) (gpr env (rd a)) then word_of_int (offs a) else 4)\<rparr>)) branch_ops
    \<and> (\<exists>e. trans_bl a env = Ret True e \<and> pc e = pc env + word_of_int (offs a)
        \<and> trans_jirl (no_args\<lparr>rj := 1\<rparr>) (e\<lparr>pc := p, ram := m\<rparr>)
          = Ret True (e\<lparr>pc := pc env + 4, ram := m, gpr := (gpr e)(0 := p + 4)\<rparr>))"
proof
  show "list_all (\<lambda>(ins, taken). ins a env =
      Ret True (env\<lparr>pc := pc env + (if taken (gpr env (rj a)) (gpr env (rd a)) then word_of_int (offs a) else 4)\<rparr>)) branch_ops"
    unfolding branch_ops_def list.pred_inject branch_defs split
    by (simp add: word_uint_eq_iff word_sless_alt word_sle_eq word_less_def word_le_def)
qed (simp add: trans_bl_def trans_jirl_def cpu_set_pc_def offsw_def immw_def)

text \<open>Idle waits for the timer and wakes. At level 0 with interrupts and the timer interrupt enabled and
  nothing pending, on the host timer: the core sleeps as long as the timer does not fire, and the sleep in which
  it fires is the last one; the instruction then completes with the timer interrupt pending.\<close>

theorem idle_wakes:
  assumes "FIELD_EX64 (CSR_CRMD env) CSR_CRMD_PLV = 0" and "FIELD_EX64 (CSR_CRMD env) CSR_CRMD_IE \<noteq> 0"
    and "bit (CSR_ECFG env) 11" and "\<not> determined env" and "\<not> timer_int env" and "\<not> loongarch_cpu_has_irq env"
  shows "trans_idle (replicate k False) a env = None
    \<and> (\<exists>env'. trans_idle (replicate k False @ True # alarms) a env = Some (Ret True env')
        \<and> loongarch_cpu_has_irq env' \<and> bit (CSR_ESTAT env') 11 \<and> pc env' = pc env + 4 \<and> gpr env' = gpr env \<and> ram env' = ram env)"
proof
  have s: "idle_wait (replicate k False @ rest) env = idle_wait rest env" for rest
    using idle_sleeps [OF assms(4-6)] by (induction k) simp_all
  then show "trans_idle (replicate k False) a env = None"
    using idle_sleeps(1) [OF assms(4-6)] s [of "[]"] assms(1,2,4) by (simp add: trans_idle_def)
  obtain env' where e: "idle_wait alarms (env\<lparr>timer_int := True\<rparr>) = Some (Ret () env')" "loongarch_cpu_has_irq env'"
    "bit (CSR_ESTAT env') 11" "gpr env' = gpr env" "pc env' = pc env" "ram env' = ram env"
    by (rule idle_alarm [OF assms(4,2,3)])
  then have "trans_idle (replicate k False @ True # alarms) a env = Some (Ret True (env'\<lparr>pc := pc env' + 4\<rparr>))"
    using s idle_sleeps(3) [OF assms(4-6)] assms(1,2,4) by (simp add: trans_idle_def next_insn_def cpu_set_pc_def)
  moreover have "loongarch_cpu_has_irq (env'\<lparr>pc := pc env' + 4\<rparr>)" using e(2) by (simp add: loongarch_cpu_has_irq_def)
  ultimately show "\<exists>env'. trans_idle (replicate k False @ True # alarms) a env = Some (Ret True env')
        \<and> loongarch_cpu_has_irq env' \<and> bit (CSR_ESTAT env') 11 \<and> pc env' = pc env + 4 \<and> gpr env' = gpr env \<and> ram env' = ram env"
    using e by (intro exI [of _ "env'\<lparr>pc := pc env' + 4\<rparr>"]) simp
qed

theorem idle_wakes_witness:
  "\<exists>env'. trans_idle [False, False, True] no_args ((booted 0)\<lparr>CSR_CRMD := 0xc, CSR_ECFG := 0x800\<rparr>) = Some (Ret True env')
    \<and> loongarch_cpu_has_irq env'"
proof -
  let ?env = "(booted 0)\<lparr>CSR_CRMD := 0xc, CSR_ECFG := 0x800\<rparr>"
  have "FIELD_EX64 (CSR_CRMD ?env) CSR_CRMD_PLV = 0" "FIELD_EX64 (CSR_CRMD ?env) CSR_CRMD_IE \<noteq> 0" "bit (CSR_ECFG ?env) 11"
    by (simp_all add: field_defs FIELD_EX64_def extract64_eq_take_bit take_bit_eq_mod)
  moreover have "\<not> determined ?env" "\<not> timer_int ?env" "\<not> loongarch_cpu_has_irq ?env"
    by (simp_all add: loongarch_cpu_has_irq_def main_cpu_setup_def cpu_reset_def loongarch_la464_initfn_def
        cpu_clear_tc_def zeroed_machine_def Let_def FIELD_EX64_zero)
  ultimately show ?thesis
    using idle_wakes [of ?env 2 no_args "[]"] by (auto simp: numeral_2_eq_2)
qed

end
