(* ===== verification/LA_Crc.thy ===== *)
theory LA_Crc
  imports LA_Insn
begin

text \<open>
  The CRC instructions of \<open>loongarch64/interpreter.c\<close>: the two tables, the byte loops \<open>crc32\<close> and \<open>crc32c\<close>, the
  helpers and one function per instruction.

  The lemmas show that the table-driven computation is the division by the generator polynomial,
  bit by bit from the lowest: each table entry is eight steps of the shift register, and the step is linear.
\<close>

section \<open>Tables\<close>

definition crc_table :: "u32 list" where
  "crc_table =
    [0, 0x77073096, 0xee0e612c, 0x990951ba, 0x076dc419, 0x706af48f, 0xe963a535, 0x9e6495a3,
     0x0edb8832, 0x79dcb8a4, 0xe0d5e91e, 0x97d2d988, 0x09b64c2b, 0x7eb17cbd, 0xe7b82d07, 0x90bf1d91,
     0x1db71064, 0x6ab020f2, 0xf3b97148, 0x84be41de, 0x1adad47d, 0x6ddde4eb, 0xf4d4b551, 0x83d385c7,
     0x136c9856, 0x646ba8c0, 0xfd62f97a, 0x8a65c9ec, 0x14015c4f, 0x63066cd9, 0xfa0f3d63, 0x8d080df5,
     0x3b6e20c8, 0x4c69105e, 0xd56041e4, 0xa2677172, 0x3c03e4d1, 0x4b04d447, 0xd20d85fd, 0xa50ab56b,
     0x35b5a8fa, 0x42b2986c, 0xdbbbc9d6, 0xacbcf940, 0x32d86ce3, 0x45df5c75, 0xdcd60dcf, 0xabd13d59,
     0x26d930ac, 0x51de003a, 0xc8d75180, 0xbfd06116, 0x21b4f4b5, 0x56b3c423, 0xcfba9599, 0xb8bda50f,
     0x2802b89e, 0x5f058808, 0xc60cd9b2, 0xb10be924, 0x2f6f7c87, 0x58684c11, 0xc1611dab, 0xb6662d3d,
     0x76dc4190, 0x01db7106, 0x98d220bc, 0xefd5102a, 0x71b18589, 0x06b6b51f, 0x9fbfe4a5, 0xe8b8d433,
     0x7807c9a2, 0x0f00f934, 0x9609a88e, 0xe10e9818, 0x7f6a0dbb, 0x086d3d2d, 0x91646c97, 0xe6635c01,
     0x6b6b51f4, 0x1c6c6162, 0x856530d8, 0xf262004e, 0x6c0695ed, 0x1b01a57b, 0x8208f4c1, 0xf50fc457,
     0x65b0d9c6, 0x12b7e950, 0x8bbeb8ea, 0xfcb9887c, 0x62dd1ddf, 0x15da2d49, 0x8cd37cf3, 0xfbd44c65,
     0x4db26158, 0x3ab551ce, 0xa3bc0074, 0xd4bb30e2, 0x4adfa541, 0x3dd895d7, 0xa4d1c46d, 0xd3d6f4fb,
     0x4369e96a, 0x346ed9fc, 0xad678846, 0xda60b8d0, 0x44042d73, 0x33031de5, 0xaa0a4c5f, 0xdd0d7cc9,
     0x5005713c, 0x270241aa, 0xbe0b1010, 0xc90c2086, 0x5768b525, 0x206f85b3, 0xb966d409, 0xce61e49f,
     0x5edef90e, 0x29d9c998, 0xb0d09822, 0xc7d7a8b4, 0x59b33d17, 0x2eb40d81, 0xb7bd5c3b, 0xc0ba6cad,
     0xedb88320, 0x9abfb3b6, 0x03b6e20c, 0x74b1d29a, 0xead54739, 0x9dd277af, 0x04db2615, 0x73dc1683,
     0xe3630b12, 0x94643b84, 0x0d6d6a3e, 0x7a6a5aa8, 0xe40ecf0b, 0x9309ff9d, 0x0a00ae27, 0x7d079eb1,
     0xf00f9344, 0x8708a3d2, 0x1e01f268, 0x6906c2fe, 0xf762575d, 0x806567cb, 0x196c3671, 0x6e6b06e7,
     0xfed41b76, 0x89d32be0, 0x10da7a5a, 0x67dd4acc, 0xf9b9df6f, 0x8ebeeff9, 0x17b7be43, 0x60b08ed5,
     0xd6d6a3e8, 0xa1d1937e, 0x38d8c2c4, 0x4fdff252, 0xd1bb67f1, 0xa6bc5767, 0x3fb506dd, 0x48b2364b,
     0xd80d2bda, 0xaf0a1b4c, 0x36034af6, 0x41047a60, 0xdf60efc3, 0xa867df55, 0x316e8eef, 0x4669be79,
     0xcb61b38c, 0xbc66831a, 0x256fd2a0, 0x5268e236, 0xcc0c7795, 0xbb0b4703, 0x220216b9, 0x5505262f,
     0xc5ba3bbe, 0xb2bd0b28, 0x2bb45a92, 0x5cb36a04, 0xc2d7ffa7, 0xb5d0cf31, 0x2cd99e8b, 0x5bdeae1d,
     0x9b64c2b0, 0xec63f226, 0x756aa39c, 0x026d930a, 0x9c0906a9, 0xeb0e363f, 0x72076785, 0x05005713,
     0x95bf4a82, 0xe2b87a14, 0x7bb12bae, 0x0cb61b38, 0x92d28e9b, 0xe5d5be0d, 0x7cdcefb7, 0x0bdbdf21,
     0x86d3d2d4, 0xf1d4e242, 0x68ddb3f8, 0x1fda836e, 0x81be16cd, 0xf6b9265b, 0x6fb077e1, 0x18b74777,
     0x88085ae6, 0xff0f6a70, 0x66063bca, 0x11010b5c, 0x8f659eff, 0xf862ae69, 0x616bffd3, 0x166ccf45,
     0xa00ae278, 0xd70dd2ee, 0x4e048354, 0x3903b3c2, 0xa7672661, 0xd06016f7, 0x4969474d, 0x3e6e77db,
     0xaed16a4a, 0xd9d65adc, 0x40df0b66, 0x37d83bf0, 0xa9bcae53, 0xdebb9ec5, 0x47b2cf7f, 0x30b5ffe9,
     0xbdbdf21c, 0xcabac28a, 0x53b39330, 0x24b4a3a6, 0xbad03605, 0xcdd70693, 0x54de5729, 0x23d967bf,
     0xb3667a2e, 0xc4614ab8, 0x5d681b02, 0x2a6f2b94, 0xb40bbe37, 0xc30c8ea1, 0x5a05df1b, 0x2d02ef8d]"

definition crc32c_table :: "u32 list" where
  "crc32c_table =
    [0, 0xf26b8303, 0xe13b70f7, 0x1350f3f4, 0xc79a971f, 0x35f1141c, 0x26a1e7e8, 0xd4ca64eb,
     0x8ad958cf, 0x78b2dbcc, 0x6be22838, 0x9989ab3b, 0x4d43cfd0, 0xbf284cd3, 0xac78bf27, 0x5e133c24,
     0x105ec76f, 0xe235446c, 0xf165b798, 0x030e349b, 0xd7c45070, 0x25afd373, 0x36ff2087, 0xc494a384,
     0x9a879fa0, 0x68ec1ca3, 0x7bbcef57, 0x89d76c54, 0x5d1d08bf, 0xaf768bbc, 0xbc267848, 0x4e4dfb4b,
     0x20bd8ede, 0xd2d60ddd, 0xc186fe29, 0x33ed7d2a, 0xe72719c1, 0x154c9ac2, 0x061c6936, 0xf477ea35,
     0xaa64d611, 0x580f5512, 0x4b5fa6e6, 0xb93425e5, 0x6dfe410e, 0x9f95c20d, 0x8cc531f9, 0x7eaeb2fa,
     0x30e349b1, 0xc288cab2, 0xd1d83946, 0x23b3ba45, 0xf779deae, 0x05125dad, 0x1642ae59, 0xe4292d5a,
     0xba3a117e, 0x4851927d, 0x5b016189, 0xa96ae28a, 0x7da08661, 0x8fcb0562, 0x9c9bf696, 0x6ef07595,
     0x417b1dbc, 0xb3109ebf, 0xa0406d4b, 0x522bee48, 0x86e18aa3, 0x748a09a0, 0x67dafa54, 0x95b17957,
     0xcba24573, 0x39c9c670, 0x2a993584, 0xd8f2b687, 0x0c38d26c, 0xfe53516f, 0xed03a29b, 0x1f682198,
     0x5125dad3, 0xa34e59d0, 0xb01eaa24, 0x42752927, 0x96bf4dcc, 0x64d4cecf, 0x77843d3b, 0x85efbe38,
     0xdbfc821c, 0x2997011f, 0x3ac7f2eb, 0xc8ac71e8, 0x1c661503, 0xee0d9600, 0xfd5d65f4, 0x0f36e6f7,
     0x61c69362, 0x93ad1061, 0x80fde395, 0x72966096, 0xa65c047d, 0x5437877e, 0x4767748a, 0xb50cf789,
     0xeb1fcbad, 0x197448ae, 0x0a24bb5a, 0xf84f3859, 0x2c855cb2, 0xdeeedfb1, 0xcdbe2c45, 0x3fd5af46,
     0x7198540d, 0x83f3d70e, 0x90a324fa, 0x62c8a7f9, 0xb602c312, 0x44694011, 0x5739b3e5, 0xa55230e6,
     0xfb410cc2, 0x092a8fc1, 0x1a7a7c35, 0xe811ff36, 0x3cdb9bdd, 0xceb018de, 0xdde0eb2a, 0x2f8b6829,
     0x82f63b78, 0x709db87b, 0x63cd4b8f, 0x91a6c88c, 0x456cac67, 0xb7072f64, 0xa457dc90, 0x563c5f93,
     0x082f63b7, 0xfa44e0b4, 0xe9141340, 0x1b7f9043, 0xcfb5f4a8, 0x3dde77ab, 0x2e8e845f, 0xdce5075c,
     0x92a8fc17, 0x60c37f14, 0x73938ce0, 0x81f80fe3, 0x55326b08, 0xa759e80b, 0xb4091bff, 0x466298fc,
     0x1871a4d8, 0xea1a27db, 0xf94ad42f, 0x0b21572c, 0xdfeb33c7, 0x2d80b0c4, 0x3ed04330, 0xccbbc033,
     0xa24bb5a6, 0x502036a5, 0x4370c551, 0xb11b4652, 0x65d122b9, 0x97baa1ba, 0x84ea524e, 0x7681d14d,
     0x2892ed69, 0xdaf96e6a, 0xc9a99d9e, 0x3bc21e9d, 0xef087a76, 0x1d63f975, 0x0e330a81, 0xfc588982,
     0xb21572c9, 0x407ef1ca, 0x532e023e, 0xa145813d, 0x758fe5d6, 0x87e466d5, 0x94b49521, 0x66df1622,
     0x38cc2a06, 0xcaa7a905, 0xd9f75af1, 0x2b9cd9f2, 0xff56bd19, 0x0d3d3e1a, 0x1e6dcdee, 0xec064eed,
     0xc38d26c4, 0x31e6a5c7, 0x22b65633, 0xd0ddd530, 0x0417b1db, 0xf67c32d8, 0xe52cc12c, 0x1747422f,
     0x49547e0b, 0xbb3ffd08, 0xa86f0efc, 0x5a048dff, 0x8ecee914, 0x7ca56a17, 0x6ff599e3, 0x9d9e1ae0,
     0xd3d3e1ab, 0x21b862a8, 0x32e8915c, 0xc083125f, 0x144976b4, 0xe622f5b7, 0xf5720643, 0x07198540,
     0x590ab964, 0xab613a67, 0xb831c993, 0x4a5a4a90, 0x9e902e7b, 0x6cfbad78, 0x7fab5e8c, 0x8dc0dd8f,
     0xe330a81a, 0x115b2b19, 0x020bd8ed, 0xf0605bee, 0x24aa3f05, 0xd6c1bc06, 0xc5914ff2, 0x37faccf1,
     0x69e9f0d5, 0x9b8273d6, 0x88d28022, 0x7ab90321, 0xae7367ca, 0x5c18e4c9, 0x4f48173d, 0xbd23943e,
     0xf36e6f75, 0x0105ec76, 0x12551f82, 0xe03e9c81, 0x34f4f86a, 0xc69f7b69, 0xd5cf889d, 0x27a40b9e,
     0x79b737ba, 0x8bdcb4b9, 0x988c474d, 0x6ae7c44e, 0xbe2da0a5, 0x4c4623a6, 0x5f16d052, 0xad7d5351]"

section \<open>Loops and helpers\<close>

definition crc_step :: "u32 list \<Rightarrow> u8 \<Rightarrow> u32 \<Rightarrow> u32" where
  "crc_step table b crc = table ! unat ((crc XOR ucast b) AND 0xff) XOR drop_bit 8 crc"

text \<open>The result is an \<open>unsigned long\<close> whose upper half is zero.\<close>

definition crc32 :: "u32 \<Rightarrow> u8 list \<Rightarrow> u32" where
  "crc32 crc buf = fold (crc_step crc_table) buf (crc XOR 0xffffffff) XOR 0xffffffff"

definition crc32c :: "u32 \<Rightarrow> u8 list \<Rightarrow> u32" where
  "crc32c crc buf = fold (crc_step crc32c_table) buf crc XOR 0xffffffff"

definition crc_mask :: "nat \<Rightarrow> u64" where
  "crc_mask sz = (if sz * 8 = 64 then - 1 else push_bit (sz * 8) 1 - 1)"

definition helper_crc32 :: "u64 \<Rightarrow> u64 \<Rightarrow> nat \<Rightarrow> u64" where
  "helper_crc32 val m sz =
    (let buf = le_bytes 8 (m AND crc_mask sz)
     in scast (crc32 (ucast (val XOR 0xffffffff)) (take sz buf) XOR 0xffffffff))"

definition helper_crc32c :: "u64 \<Rightarrow> u64 \<Rightarrow> nat \<Rightarrow> u64" where
  "helper_crc32c val m sz =
    (let buf = le_bytes 8 (m AND crc_mask sz)
     in scast (crc32c (ucast val) (take sz buf) XOR 0xffffffff))"

section \<open>Instructions\<close>

definition trans_crc_w_b_w :: "insn_arg \<Rightarrow> 'd machine \<Rightarrow> (bool, 'd machine) outcome" where
  "trans_crc_w_b_w a env = set_rd a (helper_crc32 (gpr env (rk a)) (gpr env (rj a)) 1) env"

definition trans_crc_w_h_w :: "insn_arg \<Rightarrow> 'd machine \<Rightarrow> (bool, 'd machine) outcome" where
  "trans_crc_w_h_w a env = set_rd a (helper_crc32 (gpr env (rk a)) (gpr env (rj a)) 2) env"

definition trans_crc_w_w_w :: "insn_arg \<Rightarrow> 'd machine \<Rightarrow> (bool, 'd machine) outcome" where
  "trans_crc_w_w_w a env = set_rd a (helper_crc32 (gpr env (rk a)) (gpr env (rj a)) 4) env"

definition trans_crc_w_d_w :: "insn_arg \<Rightarrow> 'd machine \<Rightarrow> (bool, 'd machine) outcome" where
  "trans_crc_w_d_w a env = set_rd a (helper_crc32 (gpr env (rk a)) (gpr env (rj a)) 8) env"

definition trans_crcc_w_b_w :: "insn_arg \<Rightarrow> 'd machine \<Rightarrow> (bool, 'd machine) outcome" where
  "trans_crcc_w_b_w a env = set_rd a (helper_crc32c (gpr env (rk a)) (gpr env (rj a)) 1) env"

definition trans_crcc_w_h_w :: "insn_arg \<Rightarrow> 'd machine \<Rightarrow> (bool, 'd machine) outcome" where
  "trans_crcc_w_h_w a env = set_rd a (helper_crc32c (gpr env (rk a)) (gpr env (rj a)) 2) env"

definition trans_crcc_w_w_w :: "insn_arg \<Rightarrow> 'd machine \<Rightarrow> (bool, 'd machine) outcome" where
  "trans_crcc_w_w_w a env = set_rd a (helper_crc32c (gpr env (rk a)) (gpr env (rj a)) 4) env"

definition trans_crcc_w_d_w :: "insn_arg \<Rightarrow> 'd machine \<Rightarrow> (bool, 'd machine) outcome" where
  "trans_crcc_w_d_w a env = set_rd a (helper_crc32c (gpr env (rk a)) (gpr env (rj a)) 8) env"

section \<open>The shift register\<close>

definition crc_shift :: "u32 \<Rightarrow> u32 \<Rightarrow> u32" where
  "crc_shift poly c = drop_bit 1 c XOR (if bit c 0 then poly else 0)"

definition crc_bit :: "u32 \<Rightarrow> bool \<Rightarrow> u32 \<Rightarrow> u32" where
  "crc_bit poly m c = crc_shift poly (c XOR of_bool m)"

definition crc_bits :: "u32 \<Rightarrow> nat \<Rightarrow> u64 \<Rightarrow> u32 \<Rightarrow> u32" where
  "crc_bits poly n m c = fold (\<lambda>i. crc_bit poly (bit m i)) [0..<n] c"

definition POLY_CRC32 :: u32 where "POLY_CRC32 = 0xedb88320"
definition POLY_CRC32C :: u32 where "POLY_CRC32C = 0x82f63b78"

lemma crc_shift_xor: "crc_shift poly (x XOR y) = crc_shift poly x XOR crc_shift poly y"
  by (auto simp: crc_shift_def bit_simps intro!: bit_word_eqI)

lemma crc_shift_push: "crc_shift poly (c XOR x) = crc_shift poly (c XOR of_bool (bit x 0)) XOR drop_bit 1 x"
  by (auto simp: crc_shift_def bit_simps intro!: bit_word_eqI)

text \<open>Eight shifts of the value with the byte added first are eight steps that take one bit each.\<close>

lemma crc_shift_bits:
  "take_bit k x = x \<Longrightarrow> (crc_shift poly ^^ k) (c XOR x) = fold (\<lambda>i. crc_bit poly (bit x i)) [0..<k] c"
proof (induction k arbitrary: x c)
  case (Suc k)
  have "bit (drop_bit 1 x) n \<Longrightarrow> n < k" for n
    using Suc.prems by (metis Suc_less_eq bit_drop_bit_eq bit_take_bit_iff comp_apply plus_1_eq_Suc)
  then have t: "take_bit k (drop_bit 1 x) = drop_bit 1 x" by (intro bit_word_eqI) (auto simp: bit_take_bit_iff)
  have "(crc_shift poly ^^ Suc k) (c XOR x) = (crc_shift poly ^^ k) (crc_bit poly (bit x 0) c XOR drop_bit 1 x)"
    by (simp add: funpow_swap1 crc_shift_push [of poly c x] crc_bit_def del: bit_0)
  also have "\<dots> = fold (\<lambda>i. crc_bit poly (bit (drop_bit 1 x) i)) [0..<k] (crc_bit poly (bit x 0) c)"
    by (rule Suc.IH [OF t])
  also have "\<dots> = fold (\<lambda>i. crc_bit poly (bit x i)) [0..<Suc k] c"
    by (simp add: upt_conv_Cons [of 0 "Suc k"] map_Suc_upt [symmetric] fold_map comp_def bit_simps del: upt_Suc bit_0)
  finally show ?case .
qed simp

lemma crc_shift_zero: "(crc_shift poly ^^ k) 0 = 0"
  by (induction k) (simp_all add: crc_shift_def)

lemma crc_shifts_xor: "(crc_shift poly ^^ k) (x XOR y) = (crc_shift poly ^^ k) x XOR (crc_shift poly ^^ k) y"
  by (induction k) (simp_all add: crc_shift_xor)

lemma crc_shifts_high: "take_bit k x = 0 \<Longrightarrow> (crc_shift poly ^^ k) x = drop_bit k x"
proof (induction k arbitrary: x)
  case (Suc k)
  have z: "\<not> bit x n" if "n < Suc k" for n using Suc.prems that by (metis bit_take_bit_iff bit_0_eq bot_apply bot_bool_def)
  then have "take_bit k (drop_bit 1 x) = 0" by (intro bit_word_eqI) (auto simp: bit_simps)
  then have "(crc_shift poly ^^ k) (drop_bit 1 x) = drop_bit k (drop_bit 1 x)" by (rule Suc.IH)
  moreover have "crc_shift poly x = drop_bit 1 x" using z [of 0] by (simp add: crc_shift_def del: bit_0)
  ultimately show ?case by (simp add: funpow_swap1)
qed simp

text \<open>A table for a polynomial holds eight shifts of every byte.\<close>

definition crc_table_ok :: "u32 \<Rightarrow> u32 list \<Rightarrow> bool" where
  "crc_table_ok poly table \<longleftrightarrow> table = map (\<lambda>i. (crc_shift poly ^^ 8) (of_nat i)) [0..<256]"

lemma crc_step_bits:
  assumes "crc_table_ok poly table"
  shows "crc_step table b c = fold (\<lambda>i. crc_bit poly (bit b i)) [0..<8] c"
proof -
  define x where "x = c XOR ucast b"
  have "unat (x AND 0xff) < 256"
    using unat_take_bit_less [of 8 x] by (simp add: take_bit_eq_mask mask_eq_exp_minus_1)
  then have "table ! unat (x AND 0xff) = (crc_shift poly ^^ 8) (x AND 0xff)"
    using assms by (simp add: crc_table_ok_def)
  moreover have "(crc_shift poly ^^ 8) (x AND NOT 0xff) = drop_bit 8 c"
  proof -
    have "take_bit 8 (x AND NOT 0xff) = 0"
      by (simp add: take_bit_eq_mask mask_eq_exp_minus_1 ac_simps)
    then have "(crc_shift poly ^^ 8) (x AND NOT 0xff) = drop_bit 8 (x AND NOT 0xff)" by (rule crc_shifts_high)
    also have "\<dots> = drop_bit 8 (x AND NOT (mask 8))" by (simp add: mask_eq_exp_minus_1)
    also have "\<dots> = drop_bit 8 c"
      unfolding x_def by (rule bit_word_eqI) (auto simp: bit_simps dest: bit_imp_le_length)
    finally show ?thesis .
  qed
  moreover have "x = (x AND 0xff) XOR (x AND NOT 0xff)" by (rule bit_word_eqI) (auto simp: bit_simps)
  ultimately have "crc_step table b c = (crc_shift poly ^^ 8) x"
    unfolding crc_step_def x_def [symmetric] by (metis crc_shifts_xor)
  also have "\<dots> = fold (\<lambda>i. crc_bit poly (bit (ucast b :: u32) i)) [0..<8] c"
    unfolding x_def by (rule crc_shift_bits) (rule bit_word_eqI, auto simp: bit_simps dest: bit_imp_le_length)
  also have "\<dots> = fold (\<lambda>i. crc_bit poly (bit b i)) [0..<8] c"
    by (rule fold_cong) (auto simp: bit_simps)
  finally show ?thesis .
qed

lemma crc_bits_add: "crc_bits poly (k + n) m c = crc_bits poly n (drop_bit k m) (crc_bits poly k m c)"
proof -
  have "[0..<k + n] = [0..<k] @ map (\<lambda>i. i + k) [0..<n]" by (metis add.commute add_0 le0 map_add_upt upt_add_eq_append)
  then show ?thesis by (simp add: crc_bits_def fold_map comp_def bit_simps add.commute)
qed

lemma crc_bits_cong:
  assumes "take_bit n m = take_bit n m'"
  shows "crc_bits poly n m c = crc_bits poly n m' c"
proof -
  have "bit m i = bit m' i" if "i < n" for i using assms that by (metis bit_take_bit_iff)
  then show ?thesis unfolding crc_bits_def by (intro fold_cong) auto
qed

lemma crc_bytes:
  assumes "crc_table_ok poly table" and "n \<le> 8"
  shows "fold (crc_step table) (le_bytes n m) c = crc_bits poly (8 * n) m c"
  using assms(2)
proof (induction n arbitrary: m c)
  case (Suc n)
  have "crc_step table (ucast m) c = crc_bits poly 8 m c"
    unfolding crc_step_bits [OF assms(1)] crc_bits_def by (rule fold_cong) (auto simp: bit_simps)
  then show ?case using Suc crc_bits_add [of poly 8 "8 * n" m c] by simp
qed (simp add: crc_bits_def)


text \<open>By linearity a table is determined by its entries at the powers of two.\<close>

fun crc_rows :: "u32 list \<Rightarrow> u32 list" where
  "crc_rows [] = [0]"
| "crc_rows (b # bs) = (let t = crc_rows bs in t @ map (\<lambda>x. b XOR x) t)"

definition crc_basis :: "u32 \<Rightarrow> nat \<Rightarrow> u32 list" where
  "crc_basis poly k = map (\<lambda>i. (crc_shift poly ^^ 8) (push_bit i 1)) (rev [0..<k])"

lemma crc_rows_table:
  "k \<le> 8 \<Longrightarrow> crc_rows (crc_basis poly k) = map (\<lambda>i. (crc_shift poly ^^ 8) (of_nat i)) [0..<2 ^ k]"
proof (induction k)
  case 0
  show ?case by (simp add: crc_basis_def crc_shift_zero)
next
  case (Suc k)
  have up: "[0..<2 ^ Suc k] = [0..<2 ^ k] @ map (\<lambda>i. i + 2 ^ k) [0..<2 ^ k]"
    using upt_add_eq_append [of 0 "2 ^ k" "2 ^ k"] by (simp add: map_add_upt flip: mult_2)
  have x: "(of_nat (i + 2 ^ k) :: u32) = push_bit k 1 XOR of_nat i" if "i < 2 ^ k" for i
  proof -
    have "take_bit k (of_nat i :: u32) = of_nat i" using that by (simp add: take_bit_of_nat take_bit_nat_eq_self)
    then have n: "\<not> bit (of_nat i :: u32) k" by (metis bit_take_bit_iff less_irrefl)
    then have "push_bit k 1 AND (of_nat i :: u32) = 0"
      by (intro bit_word_eqI) (auto simp: bit_simps bit_1_iff)
    then have "push_bit k 1 + (of_nat i :: u32) = push_bit k 1 XOR of_nat i"
      by (metis disjunctive_add_eq_or disjunctive_add_eq_xor)
    then show ?thesis by (simp add: push_bit_eq_mult add.commute)
  qed
  have "crc_rows (crc_basis poly (Suc k)) = crc_rows (crc_basis poly k) @
      map (\<lambda>x. (crc_shift poly ^^ 8) (push_bit k 1) XOR x) (crc_rows (crc_basis poly k))"
    by (simp add: crc_basis_def Let_def)
  also have "\<dots> = map (\<lambda>i. (crc_shift poly ^^ 8) (of_nat i)) [0..<2 ^ Suc k]"
    using Suc.IH Suc.prems unfolding up map_append list.map_comp
    by (auto simp: x crc_shifts_xor simp del: push_bit_of_1 of_nat_add)
  finally show ?case .
qed

lemma crc_table_basis: "table = crc_rows (crc_basis poly 8) \<Longrightarrow> crc_table_ok poly table"
  using crc_rows_table [of 8 poly] by (simp add: crc_table_ok_def)

lemma drop_push_one: "i \<le> 8 \<Longrightarrow> drop_bit i (push_bit i 1) = (1 :: u32)"
  by (rule bit_word_eqI) (auto simp: bit_simps bit_1_iff)

lemma crc_shift_one: "i \<le> 8 \<Longrightarrow> (crc_shift poly ^^ 8) (push_bit i 1) = (crc_shift poly ^^ (8 - i)) 1"
proof -
  assume "i \<le> 8"
  then have "(crc_shift poly ^^ 8) (push_bit i 1) = (crc_shift poly ^^ (8 - i)) ((crc_shift poly ^^ i) (push_bit i 1))"
    by (metis comp_apply funpow_add le_add_diff_inverse2)
  also have "(crc_shift poly ^^ i) (push_bit i 1) = 1"
    using \<open>i \<le> 8\<close> crc_shifts_high [of i "push_bit i 1" poly] by (simp add: take_bit_push_bit drop_push_one del: push_bit_of_1)
  finally show ?thesis .
qed

lemma crc32_steps:
  "crc_shift 0xedb88320 1 = 0xedb88320"
  "crc_shift 0xedb88320 0xedb88320 = 0x76dc4190"
  "crc_shift 0xedb88320 0x76dc4190 = 0x3b6e20c8"
  "crc_shift 0xedb88320 0x3b6e20c8 = 0x1db71064"
  "crc_shift 0xedb88320 0x1db71064 = 0x0edb8832"
  "crc_shift 0xedb88320 0x0edb8832 = 0x076dc419"
  "crc_shift 0xedb88320 0x076dc419 = 0xee0e612c"
  "crc_shift 0xedb88320 0xee0e612c = 0x77073096"
  by (simp_all add: crc_shift_def)

lemma crc32c_steps:
  "crc_shift 0x82f63b78 1 = 0x82f63b78"
  "crc_shift 0x82f63b78 0x82f63b78 = 0x417b1dbc"
  "crc_shift 0x82f63b78 0x417b1dbc = 0x20bd8ede"
  "crc_shift 0x82f63b78 0x20bd8ede = 0x105ec76f"
  "crc_shift 0x82f63b78 0x105ec76f = 0x8ad958cf"
  "crc_shift 0x82f63b78 0x8ad958cf = 0xc79a971f"
  "crc_shift 0x82f63b78 0xc79a971f = 0xe13b70f7"
  "crc_shift 0x82f63b78 0xe13b70f7 = 0xf26b8303"
  by (simp_all add: crc_shift_def)

lemma crc_basis_8: "crc_basis poly 8 = map (\<lambda>i. (crc_shift poly ^^ i) 1) [1, 2, 3, 4, 5, 6, 7, 8]"
  using crc_shift_one [of 1 poly] crc_shift_one [of 2 poly] crc_shift_one [of 3 poly] crc_shift_one [of 4 poly]
    crc_shift_one [of 5 poly] crc_shift_one [of 6 poly] crc_shift_one [of 7 poly]
  by (simp add: crc_basis_def upt_rec)

lemma crc32_basis: "crc_basis POLY_CRC32 8 = [0xedb88320, 0x76dc4190, 0x3b6e20c8, 0x1db71064, 0x0edb8832, 0x076dc419, 0xee0e612c, 0x77073096]"
  unfolding crc_basis_8 by (simp add: POLY_CRC32_def crc32_steps eval_nat_numeral)

lemma crc32c_basis: "crc_basis POLY_CRC32C 8 = [0x82f63b78, 0x417b1dbc, 0x20bd8ede, 0x105ec76f, 0x8ad958cf, 0xc79a971f, 0xe13b70f7, 0xf26b8303]"
  unfolding crc_basis_8 by (simp add: POLY_CRC32C_def crc32c_steps eval_nat_numeral)

lemma crc_table_crc32: "crc_table_ok POLY_CRC32 crc_table"
  by (rule crc_table_basis) (simp add: crc32_basis crc_table_def)

lemma crc_table_crc32c: "crc_table_ok POLY_CRC32C crc32c_table"
  by (rule crc_table_basis) (simp add: crc32c_basis crc32c_table_def)

lemma crc_mask_eq: "sz \<le> 8 \<Longrightarrow> m AND crc_mask sz = take_bit (8 * sz) m"
proof (cases "sz = 8")
  case True
  then show ?thesis by (simp add: crc_mask_def take_bit_word_eq_self)
qed (simp add: crc_mask_def take_bit_eq_mask mask_eq_exp_minus_1 mult.commute)

lemma take_le_bytes: "n \<le> k \<Longrightarrow> take n (le_bytes k v) = le_bytes n v"
  by (rule nth_equalityI) (simp_all add: nth_le_bytes)

lemma helper_crc_bits:
  assumes "sz \<le> 8"
  shows "helper_crc32 val m sz = scast (crc_bits POLY_CRC32 (8 * sz) m (ucast val))"
    and "helper_crc32c val m sz = scast (crc_bits POLY_CRC32C (8 * sz) m (ucast val))"
proof -
  have c: "crc_bits p (8 * sz) (take_bit (8 * sz) m) c = crc_bits p (8 * sz) m c" for p c
    by (rule crc_bits_cong) simp
  have x: "(ucast (val XOR 0xffffffff) :: u32) XOR 0xffffffff = ucast val"
  proof -
    have "(0xffffffff :: u64) = mask 32" "(0xffffffff :: u32) = mask 32" by (simp_all add: mask_eq_exp_minus_1)
    then show ?thesis by (simp only:) (rule bit_word_eqI, auto simp: bit_simps)
  qed
  have xx: "(y XOR 0xffffffff) XOR 0xffffffff = (y :: u32)" for y by (simp add: xor.assoc)
  show "helper_crc32 val m sz = scast (crc_bits POLY_CRC32 (8 * sz) m (ucast val))"
    using assms
    by (simp add: helper_crc32_def crc32_def Let_def crc_mask_eq take_le_bytes crc_bytes [OF crc_table_crc32] c x xx del: le_bytes.simps)
  show "helper_crc32c val m sz = scast (crc_bits POLY_CRC32C (8 * sz) m (ucast val))"
    using assms
    by (simp add: helper_crc32c_def crc32c_def Let_def crc_mask_eq take_le_bytes crc_bytes [OF crc_table_crc32c] c xx del: le_bytes.simps)
qed

section \<open>Properties\<close>

text \<open>(C23) The CRC instructions compute the cyclic redundancy check of their generator polynomial. The table-driven
  loops give what the shift register gives that takes the message bit by bit from the lowest one (0xEDB88320 for
  crc, 0x82F63B78 for crcc, reflected), and the check of a message can be taken in parts: the 64-bit instruction is
  two 32-bit ones.\<close>

theorem crc_is_polynomial_division:
  "(n \<le> 8 \<longrightarrow> helper_crc32 v m n = scast (crc_bits POLY_CRC32 (8 * n) m (ucast v))
      \<and> helper_crc32c v m n = scast (crc_bits POLY_CRC32C (8 * n) m (ucast v)))
    \<and> helper_crc32 v m 8 = helper_crc32 (helper_crc32 v m 4) (drop_bit 32 m) 4
    \<and> helper_crc32c v m 8 = helper_crc32c (helper_crc32c v m 4) (drop_bit 32 m) 4"
proof -
  have u: "ucast (scast (x :: u32) :: u64) = x" for x by (rule bit_word_eqI) (auto simp: bit_simps)
  show ?thesis
    using helper_crc_bits [of 8 v m] helper_crc_bits [of 4 v m] helper_crc_bits [of 4 _ "drop_bit 32 m"]
      helper_crc_bits [of n v m] crc_bits_add [of _ 32 32 m] by (simp add: u)
qed

theorem crc_is_polynomial_division_witness:
  "helper_crc32 0xffffffff 0x41 1 = scast (crc_bits POLY_CRC32 8 0x41 0xffffffff)"
  using crc_is_polynomial_division [of 1 "0xffffffff" "0x41"] by simp

end
