(* ===== verification/LA_Decode.thy ===== *)
theory LA_Decode
  imports LA_Insn_Sys LA_Crc
begin

text \<open>
  The decoder: the formats and the patterns of \<open>loongarch64/insns.decode\<close> for the instructions that are modelled.
  The build turns this file into a C function that extracts the fields of the pattern that matches and calls
  the \<open>trans\<close> function; the patterns do not overlap, except for the group of \<open>csrrd\<close>, \<open>csrwr\<close> and \<open>csrxchg\<close>, whose
  first match counts.

  \<^item> A pattern is a mask, the value of the masked bits, the format and the function. \<open>hint\<close> and \<open>cop\<close> are fields that
    no function reads.
  \<^item> The floating-point, vector and binary-translation instructions and \<open>idle\<close>, whose outcome depends on the
    host timer, are a parameter: the decoder for the words that the table does not match.
  \<^item> The locale \<open>decoder\<close> is what the execution loop relies on: a function that answers false has done nothing, and one
    that raises an exception has changed neither a general register nor the program counter. It is proved here for
    every function of the table (\<open>table_tame\<close>).
  \<^item> \<open>exec_decoder\<close> adds that the functions which write to their argument struct (\<open>clears_rd\<close>) do not read what they write.
\<close>

section \<open>Formats\<close>

definition fmt_i15 :: "u32 \<Rightarrow> insn_arg" where
  "fmt_i15 w = no_args\<lparr>imm := uint (extract32 w 0 15)\<rparr>"

definition fmt_rr :: "u32 \<Rightarrow> insn_arg" where
  "fmt_rr w = no_args\<lparr>rd := ucast (extract32 w 0 5), rj := ucast (extract32 w 5 5)\<rparr>"

definition fmt_rr_jk :: "u32 \<Rightarrow> insn_arg" where
  "fmt_rr_jk w = no_args\<lparr>rj := ucast (extract32 w 5 5), rk := ucast (extract32 w 10 5)\<rparr>"

definition fmt_rrr :: "u32 \<Rightarrow> insn_arg" where
  "fmt_rrr w = no_args\<lparr>rd := ucast (extract32 w 0 5), rj := ucast (extract32 w 5 5), rk := ucast (extract32 w 10 5)\<rparr>"

definition fmt_r_i20 :: "u32 \<Rightarrow> insn_arg" where
  "fmt_r_i20 w = no_args\<lparr>rd := ucast (extract32 w 0 5), imm := sint (sextract32 w 5 20)\<rparr>"

definition fmt_rr_ui5 :: "u32 \<Rightarrow> insn_arg" where
  "fmt_rr_ui5 w = no_args\<lparr>rd := ucast (extract32 w 0 5), rj := ucast (extract32 w 5 5), imm := uint (extract32 w 10 5)\<rparr>"

definition fmt_rr_ui6 :: "u32 \<Rightarrow> insn_arg" where
  "fmt_rr_ui6 w = no_args\<lparr>rd := ucast (extract32 w 0 5), rj := ucast (extract32 w 5 5), imm := uint (extract32 w 10 6)\<rparr>"

definition fmt_rr_ui8 :: "u32 \<Rightarrow> insn_arg" where
  "fmt_rr_ui8 w = no_args\<lparr>rd := ucast (extract32 w 0 5), rj := ucast (extract32 w 5 5), imm := uint (extract32 w 10 8)\<rparr>"

definition fmt_rr_i12 :: "u32 \<Rightarrow> insn_arg" where
  "fmt_rr_i12 w = no_args\<lparr>rd := ucast (extract32 w 0 5), rj := ucast (extract32 w 5 5), imm := sint (sextract32 w 10 12)\<rparr>"

definition fmt_rr_ui12 :: "u32 \<Rightarrow> insn_arg" where
  "fmt_rr_ui12 w = no_args\<lparr>rd := ucast (extract32 w 0 5), rj := ucast (extract32 w 5 5), imm := uint (extract32 w 10 12)\<rparr>"

definition fmt_rr_i14s2 :: "u32 \<Rightarrow> insn_arg" where
  "fmt_rr_i14s2 w = no_args\<lparr>rd := ucast (extract32 w 0 5), rj := ucast (extract32 w 5 5), imm := (sint (sextract32 w 10 14)) * 4\<rparr>"

definition fmt_rr_i16 :: "u32 \<Rightarrow> insn_arg" where
  "fmt_rr_i16 w = no_args\<lparr>rd := ucast (extract32 w 0 5), rj := ucast (extract32 w 5 5), imm := sint (sextract32 w 10 16)\<rparr>"

definition fmt_rr_i16s2 :: "u32 \<Rightarrow> insn_arg" where
  "fmt_rr_i16s2 w = no_args\<lparr>rd := ucast (extract32 w 0 5), rj := ucast (extract32 w 5 5), imm := sint (sextract32 w 10 16) * 4\<rparr>"

definition fmt_hint_r_i12 :: "u32 \<Rightarrow> insn_arg" where
  "fmt_hint_r_i12 w = no_args\<lparr>rj := ucast (extract32 w 5 5), imm := sint (sextract32 w 10 12)\<rparr>"

definition fmt_hint_rr :: "u32 \<Rightarrow> insn_arg" where
  "fmt_hint_rr w = no_args\<lparr>rj := ucast (extract32 w 5 5), rk := ucast (extract32 w 10 5)\<rparr>"

definition fmt_rrr_sa2p1 :: "u32 \<Rightarrow> insn_arg" where
  "fmt_rrr_sa2p1 w = no_args\<lparr>rd := ucast (extract32 w 0 5), rj := ucast (extract32 w 5 5), rk := ucast (extract32 w 10 5), sa := uint (extract32 w 15 2) + 1\<rparr>"

definition fmt_rrr_sa2 :: "u32 \<Rightarrow> insn_arg" where
  "fmt_rrr_sa2 w = no_args\<lparr>rd := ucast (extract32 w 0 5), rj := ucast (extract32 w 5 5), rk := ucast (extract32 w 10 5), sa := uint (extract32 w 15 2)\<rparr>"

definition fmt_rrr_sa3 :: "u32 \<Rightarrow> insn_arg" where
  "fmt_rrr_sa3 w = no_args\<lparr>rd := ucast (extract32 w 0 5), rj := ucast (extract32 w 5 5), rk := ucast (extract32 w 10 5), sa := uint (extract32 w 15 3)\<rparr>"

definition fmt_rr_2bw :: "u32 \<Rightarrow> insn_arg" where
  "fmt_rr_2bw w = no_args\<lparr>rd := ucast (extract32 w 0 5), rj := ucast (extract32 w 5 5), ms := uint (extract32 w 16 5), ls := uint (extract32 w 10 5)\<rparr>"

definition fmt_rr_2bd :: "u32 \<Rightarrow> insn_arg" where
  "fmt_rr_2bd w = no_args\<lparr>rd := ucast (extract32 w 0 5), rj := ucast (extract32 w 5 5), ms := uint (extract32 w 16 6), ls := uint (extract32 w 10 6)\<rparr>"

definition fmt_r_offs21 :: "u32 \<Rightarrow> insn_arg" where
  "fmt_r_offs21 w = no_args\<lparr>rj := ucast (extract32 w 5 5), offs := (sint (sextract32 w 0 5) * 2 ^ 16 + uint (extract32 w 10 16)) * 4\<rparr>"

definition fmt_c_offs21 :: "u32 \<Rightarrow> insn_arg" where
  "fmt_c_offs21 w = no_args\<lparr>offs := (sint (sextract32 w 0 5) * 2 ^ 16 + uint (extract32 w 10 16)) * 4, cj := unat (extract32 w 5 3)\<rparr>"

definition fmt_offs26 :: "u32 \<Rightarrow> insn_arg" where
  "fmt_offs26 w = no_args\<lparr>offs := (sint (sextract32 w 0 10) * 2 ^ 16 + uint (extract32 w 10 16)) * 4\<rparr>"

definition fmt_rr_offs16 :: "u32 \<Rightarrow> insn_arg" where
  "fmt_rr_offs16 w = no_args\<lparr>rd := ucast (extract32 w 0 5), rj := ucast (extract32 w 5 5), offs := sint (sextract32 w 10 16) * 4\<rparr>"

definition fmt_r_csr :: "u32 \<Rightarrow> insn_arg" where
  "fmt_r_csr w = no_args\<lparr>rd := ucast (extract32 w 0 5), csr := unat (extract32 w 10 14)\<rparr>"

definition fmt_rr_csr :: "u32 \<Rightarrow> insn_arg" where
  "fmt_rr_csr w = no_args\<lparr>rd := ucast (extract32 w 0 5), rj := ucast (extract32 w 5 5), csr := unat (extract32 w 10 14)\<rparr>"

definition fmt_empty :: "u32 \<Rightarrow> insn_arg" where
  "fmt_empty w = no_args"

definition fmt_i_rr :: "u32 \<Rightarrow> insn_arg" where
  "fmt_i_rr w = no_args\<lparr>rj := ucast (extract32 w 5 5), rk := ucast (extract32 w 10 5), imm := uint (extract32 w 0 5)\<rparr>"

definition fmt_cop_r_i :: "u32 \<Rightarrow> insn_arg" where
  "fmt_cop_r_i w = no_args\<lparr>rj := ucast (extract32 w 5 5), imm := sint (sextract32 w 10 12)\<rparr>"

definition fmt_j_i :: "u32 \<Rightarrow> insn_arg" where
  "fmt_j_i w = no_args\<lparr>rj := ucast (extract32 w 5 5), imm := uint (extract32 w 10 8)\<rparr>"

section \<open>Patterns\<close>

type_synonym 'd pattern = "u32 \<times> u32 \<times> (u32 \<Rightarrow> insn_arg) \<times> 'd trans"

definition decode_table :: "'d pattern list" where
  "decode_table = [
    (0xffff8000, 0x00100000, fmt_rrr, trans_add_w),
    (0xffff8000, 0x00108000, fmt_rrr, trans_add_d),
    (0xffff8000, 0x00110000, fmt_rrr, trans_sub_w),
    (0xffff8000, 0x00118000, fmt_rrr, trans_sub_d),
    (0xffff8000, 0x00120000, fmt_rrr, trans_slt),
    (0xffff8000, 0x00128000, fmt_rrr, trans_sltu),
    (0xffc00000, 0x02000000, fmt_rr_i12, trans_slti),
    (0xffc00000, 0x02400000, fmt_rr_i12, trans_sltui),
    (0xffff8000, 0x00140000, fmt_rrr, trans_nor),
    (0xffff8000, 0x00148000, fmt_rrr, trans_and),
    (0xffff8000, 0x00150000, fmt_rrr, trans_or),
    (0xffff8000, 0x00158000, fmt_rrr, trans_xor),
    (0xffff8000, 0x00160000, fmt_rrr, trans_orn),
    (0xffff8000, 0x00168000, fmt_rrr, trans_andn),
    (0xffff8000, 0x001c0000, fmt_rrr, trans_mul_w),
    (0xffff8000, 0x001c8000, fmt_rrr, trans_mulh_w),
    (0xffff8000, 0x001d0000, fmt_rrr, trans_mulh_wu),
    (0xffff8000, 0x001d8000, fmt_rrr, trans_mul_d),
    (0xffff8000, 0x001e0000, fmt_rrr, trans_mulh_d),
    (0xffff8000, 0x001e8000, fmt_rrr, trans_mulh_du),
    (0xffff8000, 0x001f0000, fmt_rrr, trans_mulw_d_w),
    (0xffff8000, 0x001f8000, fmt_rrr, trans_mulw_d_wu),
    (0xffff8000, 0x00200000, fmt_rrr, trans_div_w),
    (0xffff8000, 0x00208000, fmt_rrr, trans_mod_w),
    (0xffff8000, 0x00210000, fmt_rrr, trans_div_wu),
    (0xffff8000, 0x00218000, fmt_rrr, trans_mod_wu),
    (0xffff8000, 0x00220000, fmt_rrr, trans_div_d),
    (0xffff8000, 0x00228000, fmt_rrr, trans_mod_d),
    (0xffff8000, 0x00230000, fmt_rrr, trans_div_du),
    (0xffff8000, 0x00238000, fmt_rrr, trans_mod_du),
    (0xfffe0000, 0x00040000, fmt_rrr_sa2p1, trans_alsl_w),
    (0xfffe0000, 0x00060000, fmt_rrr_sa2p1, trans_alsl_wu),
    (0xfffe0000, 0x002c0000, fmt_rrr_sa2p1, trans_alsl_d),
    (0xfffe0000, 0x002e0000, fmt_rrr_sa2p1, trans_alsl_uw),
    (0xfe000000, 0x14000000, fmt_r_i20, trans_lu12i_w),
    (0xfe000000, 0x16000000, fmt_r_i20, trans_lu32i_d),
    (0xffc00000, 0x03000000, fmt_rr_i12, trans_lu52i_d),
    (0xfe000000, 0x18000000, fmt_r_i20, trans_pcaddi),
    (0xfe000000, 0x1a000000, fmt_r_i20, trans_pcalau12i),
    (0xfe000000, 0x1c000000, fmt_r_i20, trans_pcaddu12i),
    (0xfe000000, 0x1e000000, fmt_r_i20, trans_pcaddu18i),
    (0xffc00000, 0x02800000, fmt_rr_i12, trans_addi_w),
    (0xffc00000, 0x02c00000, fmt_rr_i12, trans_addi_d),
    (0xfc000000, 0x10000000, fmt_rr_i16, trans_addu16i_d),
    (0xffc00000, 0x03400000, fmt_rr_ui12, trans_andi),
    (0xffc00000, 0x03800000, fmt_rr_ui12, trans_ori),
    (0xffc00000, 0x03c00000, fmt_rr_ui12, trans_xori),
    (0xffff8000, 0x00170000, fmt_rrr, trans_sll_w),
    (0xffff8000, 0x00178000, fmt_rrr, trans_srl_w),
    (0xffff8000, 0x00180000, fmt_rrr, trans_sra_w),
    (0xffff8000, 0x00188000, fmt_rrr, trans_sll_d),
    (0xffff8000, 0x00190000, fmt_rrr, trans_srl_d),
    (0xffff8000, 0x00198000, fmt_rrr, trans_sra_d),
    (0xffff8000, 0x001b0000, fmt_rrr, trans_rotr_w),
    (0xffff8000, 0x001b8000, fmt_rrr, trans_rotr_d),
    (0xffff8000, 0x00280000, fmt_rrr, trans_add_wu),
    (0xffff8000, 0x00430000, fmt_rrr, trans_max),
    (0xffff8000, 0x00438000, fmt_rrr, trans_maxu),
    (0xffff8000, 0x00440000, fmt_rrr, trans_maxwu),
    (0xffff8000, 0x00460000, fmt_rrr, trans_xnor),
    (0xffff8000, 0x00468000, fmt_rrr, trans_bitinv),
    (0xffff0000, 0x00470000, fmt_rr_ui6, trans_bitinvi),
    (0xffff8000, 0x004a8000, fmt_rrr, trans_min),
    (0xffff8000, 0x004b0000, fmt_rrr, trans_minu),
    (0xffff8000, 0x004b8000, fmt_rrr, trans_minwu),
    (0xffff8000, 0x00408000, fmt_rr_ui5, trans_slli_w),
    (0xffff8000, 0x00428000, fmt_rr_ui5, trans_slli_wu),
    (0xffff0000, 0x00410000, fmt_rr_ui6, trans_slli_d),
    (0xffff8000, 0x00448000, fmt_rr_ui5, trans_srli_w),
    (0xffff0000, 0x00450000, fmt_rr_ui6, trans_srli_d),
    (0xffff8000, 0x00488000, fmt_rr_ui5, trans_srai_w),
    (0xffff0000, 0x00490000, fmt_rr_ui6, trans_srai_d),
    (0xffff8000, 0x004c8000, fmt_rr_ui5, trans_rotri_w),
    (0xffff0000, 0x004d0000, fmt_rr_ui6, trans_rotri_d),
    (0xfffffc00, 0x00005800, fmt_rr, trans_ext_w_h),
    (0xfffffc00, 0x00005c00, fmt_rr, trans_ext_w_b),
    (0xfffffc00, 0x00001000, fmt_rr, trans_clo_w),
    (0xfffffc00, 0x00001400, fmt_rr, trans_clz_w),
    (0xfffffc00, 0x00001800, fmt_rr, trans_cto_w),
    (0xfffffc00, 0x00001c00, fmt_rr, trans_ctz_w),
    (0xfffffc00, 0x00002000, fmt_rr, trans_clo_d),
    (0xfffffc00, 0x00002400, fmt_rr, trans_clz_d),
    (0xfffffc00, 0x00002800, fmt_rr, trans_cto_d),
    (0xfffffc00, 0x00002c00, fmt_rr, trans_ctz_d),
    (0xfffffc00, 0x00003000, fmt_rr, trans_revb_2h),
    (0xfffffc00, 0x00003400, fmt_rr, trans_revb_4h),
    (0xfffffc00, 0x00003800, fmt_rr, trans_revb_2w),
    (0xfffffc00, 0x00003c00, fmt_rr, trans_revb_d),
    (0xfffffc00, 0x00004000, fmt_rr, trans_revh_2w),
    (0xfffffc00, 0x00004400, fmt_rr, trans_revh_d),
    (0xfffffc00, 0x00004800, fmt_rr, trans_bitrev_4b),
    (0xfffffc00, 0x00004c00, fmt_rr, trans_bitrev_8b),
    (0xfffffc00, 0x00005000, fmt_rr, trans_bitrev_w),
    (0xfffffc00, 0x00005400, fmt_rr, trans_bitrev_d),
    (0xfffffc00, 0x00008400, fmt_rr, trans_pcnt_w),
    (0xfffffc00, 0x00008800, fmt_rr, trans_pcnt_d),
    (0xfffffc00, 0x00008c00, fmt_rr, trans_orc_b),
    (0xfffe0000, 0x00080000, fmt_rrr_sa2, trans_bytepick_w),
    (0xfffc0000, 0x000c0000, fmt_rrr_sa3, trans_bytepick_d),
    (0xffff8000, 0x00130000, fmt_rrr, trans_maskeqz),
    (0xffff8000, 0x00138000, fmt_rrr, trans_masknez),
    (0xffe08000, 0x00600000, fmt_rr_2bw, trans_bstrins_w),
    (0xffe08000, 0x00608000, fmt_rr_2bw, trans_bstrpick_w),
    (0xffc00000, 0x00800000, fmt_rr_2bd, trans_bstrins_d),
    (0xffc00000, 0x00c00000, fmt_rr_2bd, trans_bstrpick_d),
    (0xffc00000, 0x28000000, fmt_rr_i12, trans_ld_b),
    (0xffc00000, 0x28400000, fmt_rr_i12, trans_ld_h),
    (0xffc00000, 0x28800000, fmt_rr_i12, trans_ld_w),
    (0xffc00000, 0x28c00000, fmt_rr_i12, trans_ld_d),
    (0xffc00000, 0x29000000, fmt_rr_i12, trans_st_b),
    (0xffc00000, 0x29400000, fmt_rr_i12, trans_st_h),
    (0xffc00000, 0x29800000, fmt_rr_i12, trans_st_w),
    (0xffc00000, 0x29c00000, fmt_rr_i12, trans_st_d),
    (0xffc00000, 0x2a000000, fmt_rr_i12, trans_ld_bu),
    (0xffc00000, 0x2a400000, fmt_rr_i12, trans_ld_hu),
    (0xffc00000, 0x2a800000, fmt_rr_i12, trans_ld_wu),
    (0xffff8000, 0x38000000, fmt_rrr, trans_ldx_b),
    (0xffff8000, 0x38040000, fmt_rrr, trans_ldx_h),
    (0xffff8000, 0x38080000, fmt_rrr, trans_ldx_w),
    (0xffff8000, 0x380c0000, fmt_rrr, trans_ldx_d),
    (0xffff8000, 0x38100000, fmt_rrr, trans_stx_b),
    (0xffff8000, 0x38140000, fmt_rrr, trans_stx_h),
    (0xffff8000, 0x38180000, fmt_rrr, trans_stx_w),
    (0xffff8000, 0x381c0000, fmt_rrr, trans_stx_d),
    (0xffff8000, 0x38200000, fmt_rrr, trans_ldx_bu),
    (0xffff8000, 0x38240000, fmt_rrr, trans_ldx_hu),
    (0xffff8000, 0x38280000, fmt_rrr, trans_ldx_wu),
    (0xffc00000, 0x2ac00000, fmt_hint_r_i12, trans_preld),
    (0xffff8000, 0x382c0000, fmt_hint_rr, trans_preldx),
    (0xffff8000, 0x38720000, fmt_i15, trans_dbar),
    (0xffff8000, 0x38728000, fmt_i15, trans_ibar),
    (0xff000000, 0x24000000, fmt_rr_i14s2, trans_ldptr_w),
    (0xff000000, 0x25000000, fmt_rr_i14s2, trans_stptr_w),
    (0xff000000, 0x26000000, fmt_rr_i14s2, trans_ldptr_d),
    (0xff000000, 0x27000000, fmt_rr_i14s2, trans_stptr_d),
    (0xff000000, 0x20000000, fmt_rr_i14s2, trans_ll_w),
    (0xff000000, 0x21000000, fmt_rr_i14s2, trans_sc_w),
    (0xff000000, 0x22000000, fmt_rr_i14s2, trans_ll_d),
    (0xff000000, 0x23000000, fmt_rr_i14s2, trans_sc_d),
    (0xfffffc00, 0x38578000, fmt_rr, trans_llacq_w),
    (0xfffffc00, 0x38578400, fmt_rr, trans_screl_w),
    (0xfffffc00, 0x38578800, fmt_rr, trans_llacq_d),
    (0xfffffc00, 0x38578c00, fmt_rr, trans_screl_d),
    (0xffff8000, 0x38580000, fmt_rrr, trans_amcas_b),
    (0xffff8000, 0x38588000, fmt_rrr, trans_amcas_h),
    (0xffff8000, 0x38590000, fmt_rrr, trans_amcas_w),
    (0xffff8000, 0x38598000, fmt_rrr, trans_amcas_d),
    (0xffff8000, 0x385a0000, fmt_rrr, trans_amcas_db_b),
    (0xffff8000, 0x385a8000, fmt_rrr, trans_amcas_db_h),
    (0xffff8000, 0x385b0000, fmt_rrr, trans_amcas_db_w),
    (0xffff8000, 0x385b8000, fmt_rrr, trans_amcas_db_d),
    (0xffff8000, 0x385c0000, fmt_rrr, trans_amswap_b),
    (0xffff8000, 0x385c8000, fmt_rrr, trans_amswap_h),
    (0xffff8000, 0x385d0000, fmt_rrr, trans_amadd_b),
    (0xffff8000, 0x385d8000, fmt_rrr, trans_amadd_h),
    (0xffff8000, 0x385e0000, fmt_rrr, trans_amswap_db_b),
    (0xffff8000, 0x385e8000, fmt_rrr, trans_amswap_db_h),
    (0xffff8000, 0x385f0000, fmt_rrr, trans_amadd_db_b),
    (0xffff8000, 0x385f8000, fmt_rrr, trans_amadd_db_h),
    (0xffff8000, 0x38600000, fmt_rrr, trans_amswap_w),
    (0xffff8000, 0x38608000, fmt_rrr, trans_amswap_d),
    (0xffff8000, 0x38610000, fmt_rrr, trans_amadd_w),
    (0xffff8000, 0x38618000, fmt_rrr, trans_amadd_d),
    (0xffff8000, 0x38620000, fmt_rrr, trans_amand_w),
    (0xffff8000, 0x38628000, fmt_rrr, trans_amand_d),
    (0xffff8000, 0x38630000, fmt_rrr, trans_amor_w),
    (0xffff8000, 0x38638000, fmt_rrr, trans_amor_d),
    (0xffff8000, 0x38640000, fmt_rrr, trans_amxor_w),
    (0xffff8000, 0x38648000, fmt_rrr, trans_amxor_d),
    (0xffff8000, 0x38650000, fmt_rrr, trans_ammax_w),
    (0xffff8000, 0x38658000, fmt_rrr, trans_ammax_d),
    (0xffff8000, 0x38660000, fmt_rrr, trans_ammin_w),
    (0xffff8000, 0x38668000, fmt_rrr, trans_ammin_d),
    (0xffff8000, 0x38670000, fmt_rrr, trans_ammax_wu),
    (0xffff8000, 0x38678000, fmt_rrr, trans_ammax_du),
    (0xffff8000, 0x38680000, fmt_rrr, trans_ammin_wu),
    (0xffff8000, 0x38688000, fmt_rrr, trans_ammin_du),
    (0xffff8000, 0x38690000, fmt_rrr, trans_amswap_db_w),
    (0xffff8000, 0x38698000, fmt_rrr, trans_amswap_db_d),
    (0xffff8000, 0x386a0000, fmt_rrr, trans_amadd_db_w),
    (0xffff8000, 0x386a8000, fmt_rrr, trans_amadd_db_d),
    (0xffff8000, 0x386b0000, fmt_rrr, trans_amand_db_w),
    (0xffff8000, 0x386b8000, fmt_rrr, trans_amand_db_d),
    (0xffff8000, 0x386c0000, fmt_rrr, trans_amor_db_w),
    (0xffff8000, 0x386c8000, fmt_rrr, trans_amor_db_d),
    (0xffff8000, 0x386d0000, fmt_rrr, trans_amxor_db_w),
    (0xffff8000, 0x386d8000, fmt_rrr, trans_amxor_db_d),
    (0xffff8000, 0x386e0000, fmt_rrr, trans_ammax_db_w),
    (0xffff8000, 0x386e8000, fmt_rrr, trans_ammax_db_d),
    (0xffff8000, 0x386f0000, fmt_rrr, trans_ammin_db_w),
    (0xffff8000, 0x386f8000, fmt_rrr, trans_ammin_db_d),
    (0xffff8000, 0x38700000, fmt_rrr, trans_ammax_db_wu),
    (0xffff8000, 0x38708000, fmt_rrr, trans_ammax_db_du),
    (0xffff8000, 0x38710000, fmt_rrr, trans_ammin_db_wu),
    (0xffff8000, 0x38718000, fmt_rrr, trans_ammin_db_du),
    (0xffff8000, 0x38570000, fmt_rrr, trans_sc_q),
    (0xffff8000, 0x00240000, fmt_rrr, trans_crc_w_b_w),
    (0xffff8000, 0x00248000, fmt_rrr, trans_crc_w_h_w),
    (0xffff8000, 0x00250000, fmt_rrr, trans_crc_w_w_w),
    (0xffff8000, 0x00258000, fmt_rrr, trans_crc_w_d_w),
    (0xffff8000, 0x00260000, fmt_rrr, trans_crcc_w_b_w),
    (0xffff8000, 0x00268000, fmt_rrr, trans_crcc_w_h_w),
    (0xffff8000, 0x00270000, fmt_rrr, trans_crcc_w_w_w),
    (0xffff8000, 0x00278000, fmt_rrr, trans_crcc_w_d_w),
    (0xffff8000, 0x002a0000, fmt_i15, trans_break),
    (0xffff8000, 0x002b0000, fmt_i15, trans_syscall),
    (0xffff801f, 0x00010000, fmt_rr_jk, trans_asrtle_d),
    (0xffff801f, 0x00018000, fmt_rr_jk, trans_asrtgt_d),
    (0xfffffc00, 0x00006000, fmt_rr, trans_rdtimel_w),
    (0xfffffc00, 0x00006400, fmt_rr, trans_rdtimeh_w),
    (0xfffffc00, 0x00006800, fmt_rr, trans_rdtime_d),
    (0xfffffc00, 0x00006c00, fmt_rr, trans_cpucfg),
    (0xfc000000, 0x40000000, fmt_r_offs21, trans_beqz),
    (0xfc000000, 0x44000000, fmt_r_offs21, trans_bnez),
    (0xfc000300, 0x48000000, fmt_c_offs21, trans_bceqz),
    (0xfc000300, 0x48000100, fmt_c_offs21, trans_bcnez),
    (0xfc000000, 0x4c000000, fmt_rr_i16s2, trans_jirl),
    (0xfc000000, 0x50000000, fmt_offs26, trans_b),
    (0xfc000000, 0x54000000, fmt_offs26, trans_bl),
    (0xfc000000, 0x58000000, fmt_rr_offs16, trans_beq),
    (0xfc000000, 0x5c000000, fmt_rr_offs16, trans_bne),
    (0xfc000000, 0x60000000, fmt_rr_offs16, trans_blt),
    (0xfc000000, 0x64000000, fmt_rr_offs16, trans_bge),
    (0xfc000000, 0x68000000, fmt_rr_offs16, trans_bltu),
    (0xfc000000, 0x6c000000, fmt_rr_offs16, trans_bgeu),
    (0xff0003e0, 0x04000000, fmt_r_csr, trans_csrrd),
    (0xff0003e0, 0x04000020, fmt_r_csr, trans_csrwr),
    (0xff000000, 0x04000000, fmt_rr_csr, trans_csrxchg),
    (0xfffffc00, 0x06480000, fmt_rr, trans_iocsrrd_b),
    (0xfffffc00, 0x06480400, fmt_rr, trans_iocsrrd_h),
    (0xfffffc00, 0x06480800, fmt_rr, trans_iocsrrd_w),
    (0xfffffc00, 0x06480c00, fmt_rr, trans_iocsrrd_d),
    (0xfffffc00, 0x06481000, fmt_rr, trans_iocsrwr_b),
    (0xfffffc00, 0x06481400, fmt_rr, trans_iocsrwr_h),
    (0xfffffc00, 0x06481800, fmt_rr, trans_iocsrwr_w),
    (0xfffffc00, 0x06481c00, fmt_rr, trans_iocsrwr_d),
    (0xffffffff, 0x06482800, fmt_empty, trans_tlbsrch),
    (0xffffffff, 0x06482c00, fmt_empty, trans_tlbrd),
    (0xffffffff, 0x06483000, fmt_empty, trans_tlbwr),
    (0xffffffff, 0x06483400, fmt_empty, trans_tlbfill),
    (0xffffffff, 0x06482000, fmt_empty, trans_tlbclr),
    (0xffffffff, 0x06482400, fmt_empty, trans_tlbflush),
    (0xffff8000, 0x06498000, fmt_i_rr, trans_invtlb),
    (0xffc00000, 0x06000000, fmt_cop_r_i, trans_cacop),
    (0xfffc0000, 0x06400000, fmt_rr_ui8, trans_lddir),
    (0xfffc001f, 0x06440000, fmt_j_i, trans_ldpte),
    (0xffffffff, 0x06483800, fmt_empty, trans_ertn),
    (0xffff8000, 0x002a8000, fmt_i15, trans_dbcl)]"

type_synonym 'd decoder = "u32 \<Rightarrow> ('d trans \<times> insn_arg) option"

definition la_decode :: "'d decoder \<Rightarrow> 'd decoder" where
  "la_decode other w =
    (case find (\<lambda>(msk, val, _, _). w AND msk = val) decode_table of
       Some (_, _, fmt, f) \<Rightarrow> Some (f, fmt w)
     | None \<Rightarrow> other w)"

text \<open>\<open>iocsrrd.h\<close>, \<open>iocsrrd.w\<close>, \<open>iocsrrd.d\<close> and \<open>iocsrwr.b\<close> execute \<open>a->rd = 0\<close> before they return: the argument struct they are
  given is changed, and that of no other instruction.\<close>

definition clears_rd :: "u32 \<Rightarrow> bool" where
  "clears_rd w \<longleftrightarrow> w AND 0xfffffc00 \<in> {0x06480400, 0x06480800, 0x06480c00, 0x06481000}"

definition arg_after :: "u32 \<Rightarrow> insn_arg \<Rightarrow> insn_arg" where
  "arg_after w a = (if clears_rd w then a\<lparr>rd := 0\<rparr> else a)"

section \<open>What the loop relies on\<close>

text \<open>\<open>tame_out env m\<close>: if the function answers false, the machine is as it was; if it raises an exception, the general
  registers and the program counter are.\<close>

definition kept :: "'d machine \<Rightarrow> 'd machine \<Rightarrow> bool" where
  "kept env e \<longleftrightarrow> gpr e = gpr env \<and> pc e = pc env"

fun tame_out :: "'d machine \<Rightarrow> (bool, 'd machine) outcome \<Rightarrow> bool" where
  "tame_out env (Ret r e) = (r \<or> e = env)"
| "tame_out env (Exn e) = kept env e"
| "tame_out env (Exit e) = True"
| "tame_out env Crash = True"

definition tame :: "'d trans \<Rightarrow> bool" where
  "tame f \<longleftrightarrow> (\<forall>a env. tame_out env (f a env))"

locale decoder =
  fixes decode :: "'d decoder"
  assumes tame: "decode w = Some (f, a) \<Longrightarrow> tame f"
begin

lemma rejected: "decode w = Some (f, a) \<Longrightarrow> f a env = Ret False env' \<Longrightarrow> env' = env"
  using tame [of w f a] by (metis tame_def tame_out.simps(1))

lemma raised: "decode w = Some (f, a) \<Longrightarrow> f a env = Exn env' \<Longrightarrow> gpr env' = gpr env \<and> pc env' = pc env"
  using tame [of w f a] by (metis kept_def tame_def tame_out.simps(2))

end

lemma tame_simple:
  "tame_out env (set_rd a v e)" "tame_out env (gen_rd a x v e)" "tame_out env (next_insn e)" "tame_out env (branch t a e)"
  "tame_out env (Ret True e)" "tame_out env (Ret False env)" "tame_out env (Exit e)" "tame_out env Crash"
  by (simp_all add: set_rd_def gen_rd_def next_insn_def branch_def)

lemma tame_raise: "kept env e \<Longrightarrow> tame_out env (do_raise_exception e x)"
  by (simp add: do_raise_exception_def kept_def cpu_clear_tc_def)

lemma tame_if: "tame_out env m \<Longrightarrow> tame_out env n \<Longrightarrow> tame_out env (if c then m else n)"
  by simp

lemma tame_option: "tame_out env m \<Longrightarrow> (\<And>x. tame_out env (f x)) \<Longrightarrow> tame_out env (case v of None \<Rightarrow> m | Some x \<Rightarrow> f x)"
  by (cases v) simp_all

lemma tame_PLV: "kept env e \<Longrightarrow> tame_out env m \<Longrightarrow> tame_out env (CHECK_PLV e m)"
  by (simp add: CHECK_PLV_def tame_raise)

lemma tame_FPE8: "tame_out env m \<Longrightarrow> tame_out env (CHECK_FPE8 env m)"
  by (simp add: CHECK_FPE8_def tame_raise kept_def)

lemma tame_bind:
  "out_inv (kept env) m \<Longrightarrow> (\<And>v s. kept env s \<Longrightarrow> tame_out env (f v s)) \<Longrightarrow> tame_out env (bind_out m f)"
  by (cases m) simp_all

lemma tame_case: "(\<And>x y. tame_out env (f x y e)) \<Longrightarrow> tame_out env ((case p of (x, y) \<Rightarrow> f x y) e)"
  by (cases p) simp

lemma tame_let: "(\<And>x y. tame_out env (f x y)) \<Longrightarrow> tame_out env (case p of (x, y) \<Rightarrow> f x y)"
  by (cases p) simp

lemma kept_simple: "kept env env" "kept env (env\<lparr>syscall_count := n\<rparr>)" "kept env (env\<lparr>CSR_BADV := v\<rparr>)"
  by (simp_all add: kept_def)

lemmas tame_intros = tame_simple tame_if tame_option tame_PLV tame_FPE8 tame_case kept_simple tame_let tame_raise

section \<open>Accesses keep the registers\<close>

lemma kept_regs: "kept env = (\<lambda>e. gpr e = gpr env \<and> pc e = pc env)"
  by (simp add: kept_def fun_eq_iff)

lemma kept_inv:
  assumes "kept env e"
  shows "out_inv (kept env) (ld_b va e)" "out_inv (kept env) (ld_h va e)" "out_inv (kept env) (ld_w va e)"
    "out_inv (kept env) (ld_d va e)" "out_inv (kept env) (st_b va v e)" "out_inv (kept env) (st_h va v e)"
    "out_inv (kept env) (st_w va v e)" "out_inv (kept env) (st_d va v e)" "out_inv (kept env) (load_pa va e)"
    "out_inv (kept env) (store_pa va e)" "out_inv (kept env) (fetch_pa va e)" "out_inv (kept env) (ram_ld n va e)"
    "out_inv (kept env) (ram_st n va v e)" "out_inv (kept env) (helper_tlbsrch e)" "out_inv (kept env) (helper_tlbrd e)"
    "out_inv (kept env) (helper_tlbwr e)" "out_inv (kept env) (helper_lddir b l m e)" "out_inv (kept env) (helper_ldpte b o' m e)"
  using assms unfolding kept_regs
  by (rule regs_access.ld_b_I regs_access.loads_I regs_access.st_b_I regs_access.stores_I regs_access.pa_I ram_ld_inv
    regs_kept.ram_st_I regs_kept.helper_tlbsrch_I regs_kept.helper_tlbrd_I regs_kept.helper_tlbwr_I helper_lddir_inv
    regs_kept.helper_ldpte_I)+

lemma kept_ram:
  assumes "kept env e"
  shows "out_inv (kept env) (ram_ldb va e)" "out_inv (kept env) (ram_ldh va e)" "out_inv (kept env) (ram_ldw va e)"
    "out_inv (kept env) (ram_ldd va e)" "out_inv (kept env) (ram_stb va v e)" "out_inv (kept env) (ram_sth va v e)"
    "out_inv (kept env) (ram_stw va v e)" "out_inv (kept env) (ram_std va v e)" "out_inv (kept env) (Ret w e)"
  using assms by (simp_all add: ram_ldb_def ram_ldh_def ram_ldw_def ram_ldd_def ram_stb_def ram_sth_def ram_stw_def
    ram_std_def ram_ld_def ram_st_def kept_def)

lemma read_va_kept: "out_inv (kept env) (read_va v env)" "read_va v env \<noteq> Exn e"
  by (simp_all add: read_va_def Let_def kept_def)

lemma kept_Ret: "kept env e \<Longrightarrow> out_inv (kept env) (Ret v e)"
  by simp

lemma out_inv_option:
  "(v = None \<Longrightarrow> out_inv I m) \<Longrightarrow> (\<And>x. v = Some x \<Longrightarrow> out_inv I (f x)) \<Longrightarrow> out_inv I (case v of None \<Rightarrow> m | Some x \<Rightarrow> f x)"
  by (cases v) simp_all

lemma out_inv_triple:
  "(\<And>x y z. p = (x, y, z) \<Longrightarrow> out_inv I (f x y z)) \<Longrightarrow> out_inv I (case p of (x, y, z) \<Rightarrow> f x y z)"
  by (cases p) simp

lemmas csr_cases = out_inv_if out_inv_option out_inv_triple kept_Ret kept_simple

lemma read_csr_kept: "out_inv (kept env) (helper_read_csr n env)"
  unfolding helper_read_csr_def by (intro csr_cases read_va_kept)

lemma special_csr_kept: "kept env (write_tcfg v env)" "kept env (write_llbctl v m env)"
  "out_inv (kept env) (loongarch_cpu_set_irq n l (env\<lparr>timer_int := b\<rparr>))"
  by (simp_all add: write_tcfg_def write_llbctl_def loongarch_cpu_set_irq_def Let_def kept_def cpu_settimer_def cpu_disable_timer_def
    split: option.split)

lemma plain_put_kept: "map_of plain_csrs n = Some (get, put, wm) \<Longrightarrow> kept env (put v env)"
  using csr_field.frame [OF plain_field, OF map_of_SomeD] by (fastforce simp: kept_def)

lemma va_write_kept: "kept env (f env) \<Longrightarrow> out_inv (kept env) (bind_out (read_va w env) (\<lambda>x e. Ret x (f e)))"
  by (simp add: read_va_def Let_def)

lemma kept_upd:
  "kept env (env\<lparr>CSR_TLBIDX := v\<rparr>)" "kept env (env\<lparr>CSR_TLBEHI := v\<rparr>)" "kept env (env\<lparr>CSR_ASID := v\<rparr>)"
  "kept env (if c then env else env\<lparr>CSR_PWCL := v\<rparr>)" "kept env (env\<lparr>CSR_STLBPS := v\<rparr>)" "kept env (env\<lparr>CSR_SAVE := f\<rparr>)"
  "kept env (env\<lparr>CSR_TID := v\<rparr>)" "kept env (env\<lparr>CSR_TLBREHI := v\<rparr>)" "kept env (env\<lparr>CSR_DMW := f\<rparr>)"
  "kept env e \<Longrightarrow> kept env (cpu_clear_tc e)"
  by (simp_all add: kept_def cpu_clear_tc_def)

lemma write_csr_kept: "out_inv (kept env) (helper_write_csr n v m env)"
  unfolding helper_write_csr_def Let_def
  by (intro csr_cases va_write_kept special_csr_kept out_inv_bindI kept_upd) (auto intro: plain_put_kept)

lemmas tame_steps = tame_intros tame_bind kept_inv kept_ram read_csr_kept write_csr_kept out_inv_if out_inv_bindI

section \<open>Every function of the table\<close>

lemma tame_alu:
  "list_all tame [
    trans_add_w, trans_add_d, trans_sub_w, trans_sub_d, trans_slt, trans_sltu, trans_slti, trans_sltui, trans_nor,
    trans_and, trans_or, trans_xor, trans_orn, trans_andn, trans_mul_w, trans_mulh_w, trans_mulh_wu, trans_mul_d,
    trans_mulh_d, trans_mulh_du, trans_mulw_d_w, trans_mulw_d_wu, trans_div_wu, trans_mod_wu, trans_div_du,
    trans_mod_du, trans_alsl_w, trans_alsl_wu, trans_alsl_d, trans_alsl_uw, trans_lu12i_w, trans_lu32i_d,
    trans_lu52i_d, trans_pcaddi, trans_pcalau12i, trans_pcaddu12i, trans_pcaddu18i, trans_addi_w, trans_addi_d,
    trans_addu16i_d, trans_andi, trans_ori, trans_xori, trans_sll_w, trans_srl_w, trans_sra_w, trans_sll_d,
    trans_srl_d, trans_sra_d, trans_rotr_w, trans_rotr_d, trans_add_wu, trans_max, trans_maxu, trans_maxwu,
    trans_xnor, trans_bitinv, trans_bitinvi, trans_min, trans_minu, trans_minwu, trans_slli_w, trans_slli_wu,
    trans_slli_d, trans_srli_w, trans_srli_d, trans_srai_w, trans_srai_d, trans_rotri_w, trans_rotri_d,
    trans_ext_w_h, trans_ext_w_b, trans_clo_w, trans_clz_w, trans_cto_w, trans_ctz_w, trans_clo_d, trans_clz_d,
    trans_cto_d, trans_ctz_d, trans_revb_2h, trans_revb_4h, trans_revb_2w, trans_revb_d, trans_revh_2w, trans_revh_d,
    trans_bitrev_4b, trans_bitrev_8b, trans_bitrev_w, trans_bitrev_d, trans_pcnt_w, trans_pcnt_d, trans_orc_b,
    trans_bytepick_w, trans_bytepick_d, trans_maskeqz, trans_masknez]"
  unfolding tame_def list.pred_inject alu_defs
  by (intro conjI allI list.pred_inject(1) tame_intros)

lemma tame_partial:
  "list_all tame [
    trans_div_w, trans_mod_w, trans_div_d, trans_mod_d, trans_bstrins_w, trans_bstrpick_w, trans_bstrins_d,
    trans_bstrpick_d]"
  unfolding tame_def list.pred_inject trans_div_w_def trans_mod_w_def trans_div_d_def trans_mod_d_def
    trans_bstrins_w_def trans_bstrpick_w_def trans_bstrins_d_def trans_bstrpick_d_def
  by (intro conjI allI list.pred_inject(1); simp split: option.split add: tame_simple Let_def)

lemma tame_loads:
  "list_all tame [
    trans_ld_b, trans_ld_h, trans_ld_w, trans_ld_d, trans_ld_bu, trans_ld_hu, trans_ld_wu, trans_ldx_b, trans_ldx_h,
    trans_ldx_w, trans_ldx_d, trans_ldx_bu, trans_ldx_hu, trans_ldx_wu, trans_ldptr_w, trans_ldptr_d]"
  unfolding tame_def list.pred_inject load_defs
  by (intro conjI allI list.pred_inject(1) tame_steps)

lemma tame_stores:
  "list_all tame [
    trans_st_b, trans_st_h, trans_st_w, trans_st_d, trans_stx_b, trans_stx_h, trans_stx_w, trans_stx_d,
    trans_stptr_w, trans_stptr_d]"
  unfolding tame_def list.pred_inject store_defs
  by (intro conjI allI list.pred_inject(1) tame_steps)

lemma tame_ll_link: "tame_out env (ll_link a ha v e)"
  by (simp add: ll_link_def ram_ldd_def ram_ld_def next_insn_def Let_def)

lemma tame_atomics:
  "list_all tame [
    trans_preld, trans_preldx, trans_dbar, trans_ibar, trans_ll_w, trans_sc_w, trans_ll_d, trans_sc_d, trans_llacq_w,
    trans_screl_w, trans_llacq_d, trans_screl_d, trans_amcas_b, trans_amcas_h, trans_amcas_w, trans_amcas_d,
    trans_amcas_db_b, trans_amcas_db_h, trans_amcas_db_w, trans_amcas_db_d, trans_amswap_b, trans_amswap_h,
    trans_amadd_b, trans_amadd_h, trans_amswap_db_b, trans_amswap_db_h, trans_amadd_db_b, trans_amadd_db_h,
    trans_amswap_w, trans_amswap_d, trans_amadd_w, trans_amadd_d, trans_amand_w, trans_amand_d, trans_amor_w,
    trans_amor_d, trans_amxor_w, trans_amxor_d, trans_ammax_w, trans_ammax_d, trans_ammin_w, trans_ammin_d,
    trans_ammax_wu, trans_ammax_du, trans_ammin_wu, trans_ammin_du, trans_amswap_db_w, trans_amswap_db_d,
    trans_amadd_db_w, trans_amadd_db_d, trans_amand_db_w, trans_amand_db_d, trans_amor_db_w, trans_amor_db_d,
    trans_amxor_db_w, trans_amxor_db_d, trans_ammax_db_w, trans_ammax_db_d, trans_ammin_db_w, trans_ammin_db_d,
    trans_ammax_db_wu, trans_ammax_db_du, trans_ammin_db_wu, trans_ammin_db_du, trans_sc_q]"
  unfolding tame_def list.pred_inject trans_preld_def trans_preldx_def trans_dbar_def trans_ibar_def trans_ll_w_def trans_sc_w_def trans_ll_d_def
    trans_sc_d_def trans_llacq_w_def trans_screl_w_def trans_llacq_d_def trans_screl_d_def trans_amcas_b_def
    trans_amcas_h_def trans_amcas_w_def trans_amcas_d_def trans_amcas_db_b_def trans_amcas_db_h_def trans_amcas_db_w_def
    trans_amcas_db_d_def trans_amswap_b_def trans_amswap_h_def trans_amadd_b_def trans_amadd_h_def trans_amswap_db_b_def
    trans_amswap_db_h_def trans_amadd_db_b_def trans_amadd_db_h_def trans_amswap_w_def trans_amswap_d_def
    trans_amadd_w_def trans_amadd_d_def trans_amand_w_def trans_amand_d_def trans_amor_w_def trans_amor_d_def
    trans_amxor_w_def trans_amxor_d_def trans_ammax_w_def trans_ammax_d_def trans_ammin_w_def trans_ammin_d_def
    trans_ammax_wu_def trans_ammax_du_def trans_ammin_wu_def trans_ammin_du_def trans_amswap_db_w_def
    trans_amswap_db_d_def trans_amadd_db_w_def trans_amadd_db_d_def trans_amand_db_w_def trans_amand_db_d_def
    trans_amor_db_w_def trans_amor_db_d_def trans_amxor_db_w_def trans_amxor_db_d_def trans_ammax_db_w_def
    trans_ammax_db_d_def trans_ammin_db_w_def trans_ammin_db_d_def trans_ammax_db_wu_def trans_ammax_db_du_def
    trans_ammin_db_wu_def trans_ammin_db_du_def trans_sc_q_def amo_def sc_body_def amcas_def
  by (intro conjI allI list.pred_inject(1) tame_steps tame_ll_link)

lemma tame_crc:
  "list_all tame [
    trans_crc_w_b_w, trans_crc_w_h_w, trans_crc_w_w_w, trans_crc_w_d_w, trans_crcc_w_b_w, trans_crcc_w_h_w,
    trans_crcc_w_w_w, trans_crcc_w_d_w]"
  unfolding tame_def list.pred_inject     trans_crc_w_b_w_def trans_crc_w_h_w_def trans_crc_w_w_w_def trans_crc_w_d_w_def trans_crcc_w_b_w_def
    trans_crcc_w_h_w_def trans_crcc_w_w_w_def trans_crcc_w_d_w_def
  by (intro conjI allI list.pred_inject(1) tame_intros)

lemma tame_sys:
  "list_all tame [
    trans_break, trans_syscall, trans_asrtle_d, trans_asrtgt_d, trans_rdtimel_w, trans_rdtimeh_w, trans_rdtime_d,
    trans_cpucfg, trans_beqz, trans_bnez, trans_bceqz, trans_bcnez, trans_jirl, trans_b, trans_bl, trans_beq,
    trans_bne, trans_blt, trans_bge, trans_bltu, trans_bgeu, trans_csrrd, trans_csrwr, trans_csrxchg,
    trans_iocsrrd_b, trans_iocsrrd_h, trans_iocsrrd_w, trans_iocsrrd_d, trans_iocsrwr_b, trans_iocsrwr_h,
    trans_iocsrwr_w, trans_iocsrwr_d, trans_tlbsrch, trans_tlbrd, trans_tlbwr, trans_tlbfill, trans_tlbclr,
    trans_tlbflush, trans_invtlb, trans_cacop, trans_lddir, trans_ldpte, trans_ertn, trans_dbcl]"
  unfolding tame_def list.pred_inject     trans_break_def trans_syscall_def trans_asrtle_d_def trans_asrtgt_d_def trans_rdtimel_w_def trans_rdtimeh_w_def
    trans_rdtime_d_def trans_cpucfg_def trans_beqz_def trans_bnez_def trans_bceqz_def trans_bcnez_def trans_jirl_def
    trans_b_def trans_bl_def trans_beq_def trans_bne_def trans_blt_def trans_bge_def trans_bltu_def trans_bgeu_def
    trans_csrrd_def trans_csrwr_def trans_csrxchg_def trans_iocsrrd_b_def trans_iocsrrd_h_def trans_iocsrrd_w_def
    trans_iocsrrd_d_def trans_iocsrwr_b_def trans_iocsrwr_h_def trans_iocsrwr_w_def trans_iocsrwr_d_def
    trans_tlbsrch_def trans_tlbrd_def trans_tlbwr_def trans_tlbfill_def trans_tlbclr_def trans_tlbflush_def
    trans_invtlb_def trans_cacop_def trans_lddir_def trans_ldpte_def trans_ertn_def trans_dbcl_def Let_def
  by (intro conjI allI list.pred_inject(1) tame_steps)

lemmas table_lists = tame_alu tame_partial tame_loads tame_stores tame_atomics tame_crc tame_sys

lemma table_tame: "list_all (\<lambda>(_, _, _, f). tame f) decode_table"
  unfolding decode_table_def by (simp only: list.pred_inject prod.case table_lists [unfolded list.pred_inject] simp_thms)

lemma decoder_la: "decoder other \<Longrightarrow> decoder (la_decode other)"
proof
  fix w f a
  assume o: "decoder other" and "la_decode other w = Some (f, a)"
  then consider "other w = Some (f, a)" | msk val fmt where "(msk, val, fmt, f) \<in> set decode_table"
    by (auto simp: la_decode_def find_Some_iff split: option.splits dest: nth_mem)
  then show "tame f"
  proof cases
    case 1
    then show ?thesis by (rule decoder.tame [OF o])
  next
    case 2
    then show ?thesis using table_tame by (fastforce simp: list_all_iff)
  qed
qed

section \<open>Decoding a given word\<close>

lemma la_decode_miss:
  fixes other :: "'d decoder"
  assumes "list_all (\<lambda>(msk, val, _, g). w AND msk \<noteq> val) (decode_table :: 'd pattern list)"
  shows "la_decode other w = other w"
proof -
  have "find (\<lambda>(msk, val, _, _). w AND msk = val) (decode_table :: 'd pattern list) = None"
    using assms by (auto simp: find_None_iff list_all_iff)
  then show ?thesis by (simp add: la_decode_def)
qed

lemma la_decode_hit:
  fixes other :: "'d decoder"
  assumes "list_all (\<lambda>(msk, val, fm, g). w AND msk = val \<longrightarrow> fm = fmt \<and> g = f) decode_table"
    and "list_ex (\<lambda>(msk, val, _, _). w AND msk = val) (decode_table :: 'd pattern list)"
  shows "la_decode other w = Some (f, fmt w)"
proof -
  obtain m v fm g where g: "find (\<lambda>(msk, val, _, _). w AND msk = val) decode_table = Some (m, v, fm, g :: 'd trans)"
    using assms(2) by (cases "find (\<lambda>(msk, val, _, _). w AND msk = val) (decode_table :: 'd pattern list)")
      (auto simp: find_None_iff list_ex_iff)
  then have "(m, v, fm, g) \<in> set decode_table" "w AND m = v" by (auto simp: find_Some_iff dest: nth_mem)
  then have "fm = fmt" "g = f" using assms(1) by (auto simp: list_all_iff)
  then show ?thesis using g by (simp add: la_decode_def)
qed

text \<open>A function whose arguments are changed does not read the field that is cleared: a second call with the struct it left
  behind does the same.\<close>

locale exec_decoder = decoder +
  assumes cleared: "decode w = Some (f, a) \<Longrightarrow> f (arg_after w a) = f a"

lemma arg_after_twice [simp]: "arg_after w (arg_after w a) = arg_after w a"
  by (simp add: arg_after_def)

lemma la_decode_prefix:
  fixes other :: "'d decoder"
  assumes "w AND m = v" and "list_all (\<lambda>(msk, val, _, g). v AND msk = val AND m \<longrightarrow> g = h) decode_table"
    and "list_ex (\<lambda>(msk, val, _, _). msk = m \<and> val = v) (decode_table :: 'd pattern list)"
    and "la_decode other w = Some (f, a)"
  shows "f = h"
proof -
  obtain m' v' fm g where g: "find (\<lambda>(msk, val, _, _). w AND msk = val) decode_table = Some (m', v', fm, g :: 'd trans)"
    using assms(1,3) by (cases "find (\<lambda>(msk, val, _, _). w AND msk = val) (decode_table :: 'd pattern list)")
      (auto simp: find_None_iff list_ex_iff)
  then have *: "(m', v', fm, g) \<in> set decode_table" "w AND m' = v'" by (auto simp: find_Some_iff dest: nth_mem)
  then have "v AND m' = v' AND m" using assms(1) by (metis and.assoc and.commute)
  then have "g = h" using assms(2) *(1) by (auto simp: list_all_iff)
  then show ?thesis using g assms(4) by (simp add: la_decode_def)
qed

lemma cleared_hit:
  fixes other :: "'d decoder"
  assumes "la_decode other w = Some (f, a)" and "clears_rd w"
  shows "f \<in> {trans_iocsrrd_h, trans_iocsrrd_w, trans_iocsrrd_d, trans_iocsrwr_b}"
proof -
  consider "w AND 0xfffffc00 = 0x06480400" | "w AND 0xfffffc00 = 0x06480800" | "w AND 0xfffffc00 = 0x06480c00"
    | "w AND 0xfffffc00 = 0x06481000"
    using assms(2) by (auto simp: clears_rd_def)
  then show ?thesis
  proof cases
    case 1
    have "f = trans_iocsrrd_h" by (rule la_decode_prefix [OF 1 _ _ assms(1)]; simp add: decode_table_def)
    then show ?thesis by simp
  next
    case 2
    have "f = trans_iocsrrd_w" by (rule la_decode_prefix [OF 2 _ _ assms(1)]; simp add: decode_table_def)
    then show ?thesis by simp
  next
    case 3
    have "f = trans_iocsrrd_d" by (rule la_decode_prefix [OF 3 _ _ assms(1)]; simp add: decode_table_def)
    then show ?thesis by simp
  next
    case 4
    have "f = trans_iocsrwr_b" by (rule la_decode_prefix [OF 4 _ _ assms(1)]; simp add: decode_table_def)
    then show ?thesis by simp
  qed
qed

lemma exec_decoder_la:
  assumes "decoder other"
  shows "exec_decoder (la_decode other)"
proof -
  have "f (arg_after w a) = f a" if "la_decode other w = Some (f, a)" for w f a
    using cleared_hit [OF that]
    by (auto simp: arg_after_def fun_eq_iff trans_iocsrrd_h_def trans_iocsrrd_w_def trans_iocsrrd_d_def trans_iocsrwr_b_def)
  then show ?thesis using decoder_la [OF assms] by (simp add: exec_decoder_def exec_decoder_axioms_def)
qed

interpretation la: exec_decoder "la_decode (\<lambda>_. None)"
  by (rule exec_decoder_la) (simp add: decoder_def)

lemma la_decode_zero: "la_decode other 0 = other 0"
  by (rule la_decode_miss) (simp add: decode_table_def)

end
