(* ===== verification/LA_Exec.thy ===== *)
theory LA_Exec
  imports LA_Decode
begin

text \<open>
  The execution loop: \<open>fetch\<close> and \<open>exec_env\<close> of \<open>main.c\<close>, \<open>interpreter\<close> of \<open>loongarch64/interpreter.c\<close> and the instruction
  cache of \<open>loongarch64/cpu.h\<close> (\<open>cpu_put_ic\<close>, \<open>cpu_get_ic\<close>), in the system-emulation build without the debugger, the
  plug-ins and the differential tests.

  \<^item> \<open>exec_state\<close> is the machine with the instruction cache, its hit counter and the pointer \<open>ic\<close> of \<open>exec_env\<close>, an
    index into the cache. Slot \<open>IC_NUM\<close> is \<open>dummy_inscache\<close>, the struct member that follows the array.
  \<^item> A slot keeps a function pointer (\<open>None\<close>: null, a call is a \<open>Crash\<close>), the decoded arguments and the word.
    The decoder is a parameter (\<open>la_decode other\<close> of \<open>LA_Decode\<close>); the build adds a call of \<open>cpu_put_ic\<close> before each call
    of a \<open>trans\<close> function (\<open>scripts/emu_cpu_put_ic.py\<close>). On a hit the function is given the arguments in the slot, and
    the four functions that execute \<open>a->rd = 0\<close> (\<open>clears_rd\<close>) change the slot; on a miss they are given a local of the
    decoder, after it was copied into the slot.
  \<^item> \<open>exec_iter\<close> is one round of the loop: an iteration of the inner \<open>while\<close>, followed by the \<open>else\<close> branch of \<open>sigsetjmp\<close>
    if it raised an exception. The local \<open>ic\<close> keeps its value across the \<open>siglongjmp\<close>.

  The lemmas show that the slots hold what the decoder returns for their word, up to that field, that register 0 reads zero at every
  instruction, and that the loop with the cache does what a loop that decodes every instruction does.
\<close>

section \<open>The instruction cache\<close>

record 'd INSCache =
  ic_insn :: u32
  ic_trans :: "'d trans option"
  ic_arg :: insn_arg

record 'd exec_state =
  cpu :: "'d machine"
  inscache :: "nat \<Rightarrow> 'd INSCache"
  ic_hit_count :: u64
  ic :: "nat option"

definition IC_NUM :: nat where "IC_NUM = 2 ^ 20"

definition IC_INDEX :: "u64 \<Rightarrow> nat" where
  "IC_INDEX va = unat (drop_bit 2 va AND 0xfffff)"

text \<open>\<open>memset\<close> in \<open>main\<close>, and \<open>ic = NULL\<close> in \<open>exec_env\<close>.\<close>

definition started :: "'d machine \<Rightarrow> 'd exec_state" where
  "started env = \<lparr>cpu = env, inscache = \<lambda>_. \<lparr>ic_insn = 0, ic_trans = None, ic_arg = no_args\<rparr>, ic_hit_count = 0, ic = None\<rparr>"

definition cpu_put_ic :: "'d trans \<Rightarrow> insn_arg \<Rightarrow> u32 \<Rightarrow> 'd exec_state \<Rightarrow> 'd exec_state" where
  "cpu_put_ic trans_func arg insn s = s\<lparr>inscache := (inscache s)(IC_INDEX (pc (cpu s)) :=
    \<lparr>ic_insn = insn, ic_trans = Some trans_func, ic_arg = arg\<rparr>)\<rparr>"

definition cpu_get_ic :: "u32 \<Rightarrow> 'd exec_state \<Rightarrow> nat option \<times> 'd exec_state" where
  "cpu_get_ic insn s =
    (let i = IC_INDEX (pc (cpu s))
     in if ic_insn (inscache s i) = insn then (Some i, s\<lparr>ic_hit_count := ic_hit_count s + 1\<rparr>) else (None, s))"

section \<open>Fetch\<close>

definition on_cpu :: "('d machine \<Rightarrow> ('a, 'd machine) outcome) \<Rightarrow> 'd exec_state \<Rightarrow> ('a, 'd exec_state) outcome" where
  "on_cpu f s = map_outcome (\<lambda>x. x) (\<lambda>e. s\<lparr>cpu := e\<rparr>) (f (cpu s))"

text \<open>The word at the program counter, with the one-page shortcut in front of \<open>fetch_pa\<close>.\<close>

definition fetch_word :: "'d machine \<Rightarrow> (u32, 'd machine) outcome" where
  "fetch_word env =
    (if pc env AND TARGET_PAGE_MASK = prev_pc_vpage env
     then let disp = pc env AND NOT TARGET_PAGE_MASK; ha = prev_pc_ppage env OR disp
          in bind_out (ram_lduw ha env) (\<lambda>insn. Ret (ucast insn))
     else bind_out (fetch_pa (pc env) env) (\<lambda>ha env.
       let env = env\<lparr>prev_pc_vpage := pc env AND TARGET_PAGE_MASK, prev_pc_ppage := ha AND TARGET_PAGE_MASK\<rparr>
       in bind_out (ram_lduw ha env) (\<lambda>insn. Ret (ucast insn))))"

text \<open>The slot for the word: the next one if it holds the word, else the one of the program counter.\<close>

definition next_ic :: "u32 \<Rightarrow> 'd exec_state \<Rightarrow> 'd exec_state" where
  "next_ic insn s =
    (case ic s of
       Some i \<Rightarrow> if ic_insn (inscache s (i + 1)) = insn
                 then s\<lparr>ic := Some (i + 1), ic_hit_count := ic_hit_count s + 1\<rparr>
                 else (let (p, s) = cpu_get_ic insn s in s\<lparr>ic := p\<rparr>)
     | None \<Rightarrow> (let (p, s) = cpu_get_ic insn s in s\<lparr>ic := p\<rparr>))"

definition fetch :: "'d exec_state \<Rightarrow> (u32, 'd exec_state) outcome" where
  "fetch s = bind_out (on_cpu fetch_word s) (\<lambda>insn s. Ret insn (next_ic insn s))"

section \<open>The loop\<close>

definition reset_r0 :: "'d machine \<Rightarrow> 'd machine" where
  "reset_r0 env = env\<lparr>gpr := (gpr env)(0 := 0)\<rparr>"

text \<open>The slot after its function has returned.\<close>

definition write_arg :: "nat \<Rightarrow> 'd exec_state \<Rightarrow> 'd exec_state" where
  "write_arg i s = s\<lparr>inscache := (inscache s)(i :=
    (inscache s i)\<lparr>ic_arg := arg_after (ic_insn (inscache s i)) (ic_arg (inscache s i))\<rparr>)\<rparr>"

definition interpreter :: "'d decoder \<Rightarrow> u32 \<Rightarrow> 'd exec_state \<Rightarrow> (bool, 'd exec_state) outcome" where
  "interpreter decode insn s =
    (case ic s of
       Some i \<Rightarrow>
         (case ic_trans (inscache s i) of
            None \<Rightarrow> Crash
          | Some trans_func \<Rightarrow> bind_out (on_cpu (trans_func (ic_arg (inscache s i))) s) (\<lambda>_ s.
              Ret True ((write_arg i s)\<lparr>cpu := reset_r0 (cpu s)\<rparr>)))
     | None \<Rightarrow>
         (case decode insn of
            None \<Rightarrow> Ret False s
          | Some (trans_func, arg) \<Rightarrow> bind_out (on_cpu (trans_func arg) (cpu_put_ic trans_func arg insn s)) (\<lambda>r s.
              if r then Ret True (s\<lparr>cpu := reset_r0 (cpu s)\<rparr>) else Ret False s)))"

definition poll_irq :: "'d machine \<Rightarrow> (unit, 'd machine) outcome" where
  "poll_irq env =
    bind_out (loongarch_cpu_check_irq env) (\<lambda>_ env.
      if loongarch_cpu_has_irq env then loongarch_cpu_do_interrupt (env\<lparr>exception_index := EXCCODE_INT\<rparr>)
      else Ret () env)"

definition count_insn :: "'d machine \<Rightarrow> 'd machine" where
  "count_insn env = env\<lparr>icount := icount env + 1\<rparr>"

definition exec_step :: "'d decoder \<Rightarrow> 'd exec_state \<Rightarrow> (unit, 'd exec_state) outcome" where
  "exec_step decode s =
    bind_out (on_cpu poll_irq s) (\<lambda>_ s.
      bind_out (fetch s) (\<lambda>insn s.
        bind_out (interpreter decode insn s) (\<lambda>_ s. Ret () (s\<lparr>cpu := count_insn (cpu s)\<rparr>))))"

definition take_exception :: "'d machine \<Rightarrow> (unit, 'd machine) outcome" where
  "take_exception env = bind_out (loongarch_cpu_do_interrupt env) (\<lambda>_ env. Ret () (env\<lparr>ecount := ecount env + 1\<rparr>))"

definition exec_iter :: "'d decoder \<Rightarrow> 'd exec_state \<Rightarrow> (unit, 'd exec_state) outcome" where
  "exec_iter decode s = (case exec_step decode s of Exn s \<Rightarrow> on_cpu take_exception s | m \<Rightarrow> m)"

section \<open>The loop without an instruction cache\<close>

definition ref_front :: "'d machine \<Rightarrow> (u32, 'd machine) outcome" where
  "ref_front env = bind_out (poll_irq env) (\<lambda>_. fetch_word)"

definition ref_interp :: "'d decoder \<Rightarrow> u32 \<Rightarrow> 'd machine \<Rightarrow> (unit, 'd machine) outcome" where
  "ref_interp decode insn env =
    (case decode insn of None \<Rightarrow> Ret () env
     | Some (f, a) \<Rightarrow> bind_out (f a env) (\<lambda>r env. Ret () (if r then reset_r0 env else env)))"

definition ref_step :: "'d decoder \<Rightarrow> 'd machine \<Rightarrow> (unit, 'd machine) outcome" where
  "ref_step decode env =
    bind_out (ref_front env) (\<lambda>insn env. bind_out (ref_interp decode insn env) (\<lambda>_ env. Ret () (count_insn env)))"

definition ref_iter :: "'d decoder \<Rightarrow> 'd machine \<Rightarrow> (unit, 'd machine) outcome" where
  "ref_iter decode env = (case ref_step decode env of Exn env \<Rightarrow> take_exception env | m \<Rightarrow> m)"

text \<open>The word 0 is not fetched in the next \<open>n\<close> rounds.\<close>

fun zero_free :: "'d decoder \<Rightarrow> nat \<Rightarrow> 'd machine \<Rightarrow> bool" where
  "zero_free decode 0 env = True"
| "zero_free decode (Suc n) env =
    ((case ref_front env of Ret w _ \<Rightarrow> w \<noteq> 0 | _ \<Rightarrow> True)
     \<and> (case ref_iter decode env of Ret _ e \<Rightarrow> zero_free decode n e | _ \<Rightarrow> True))"

section \<open>The invariant\<close>

definition slot_ok :: "'d decoder \<Rightarrow> 'd INSCache \<Rightarrow> bool" where
  "slot_ok decode c = (case ic_trans c of None \<Rightarrow> ic_insn c = 0 | Some f \<Rightarrow>
    (\<exists>a. decode (ic_insn c) = Some (f, a) \<and> (ic_arg c = a \<or> ic_arg c = arg_after (ic_insn c) a)))"

definition exec_inv :: "'d decoder \<Rightarrow> 'd exec_state \<Rightarrow> bool" where
  "exec_inv decode s \<longleftrightarrow> (\<forall>i \<le> IC_NUM. slot_ok decode (inscache s i)) \<and> ic_trans (inscache s IC_NUM) = None
    \<and> (\<forall>i. ic s = Some i \<longrightarrow> i < IC_NUM) \<and> gpr (cpu s) 0 = 0"

lemma interrupt_gpr: "out_inv (\<lambda>e. gpr e = gpr env) (loongarch_cpu_do_interrupt env)"
proof -
  have c: "gpr e = gpr env" if "exception_cause env = Some (e, c, u)" for e c u
    using that by (auto simp: exception_cause_def set_DERA_def Let_def split: if_splits)
  show ?thesis
    unfolding loongarch_cpu_do_interrupt_def Let_def
    by (auto split: option.split simp: c save_tlbr_def save_exc_def Let_def)
qed

lemma check_irq_gpr: "out_inv (\<lambda>e. gpr e = gpr env) (loongarch_cpu_check_irq env)"
  unfolding loongarch_cpu_check_irq_def Let_def loongarch_cpu_set_irq_def cpu_settimer_def
  by (auto split: option.split)

lemma irq_gpr:
  "out_inv (\<lambda>e. gpr e = gpr env) (poll_irq env)" "out_inv (\<lambda>e. gpr e = gpr env) (take_exception env)"
proof -
  have d: "out_inv (\<lambda>e. gpr e = gpr env) (loongarch_cpu_do_interrupt e)" if "gpr e = gpr env" for e
    using interrupt_gpr [of e] that by simp
  show "out_inv (\<lambda>e. gpr e = gpr env) (poll_irq env)"
    unfolding poll_irq_def by (intro out_inv_bindI check_irq_gpr out_inv_if d) simp_all
  show "out_inv (\<lambda>e. gpr e = gpr env) (take_exception env)"
    unfolding take_exception_def by (intro out_inv_bindI interrupt_gpr) simp
qed

lemma fetch_word_kept: "out_inv (kept env) (fetch_word env)"
proof -
  have "out_inv (kept env) (ram_lduw ha e)" if "kept env e" for ha e
    using that by (simp add: ram_lduw_def ram_ld_def)
  then show ?thesis
    unfolding fetch_word_def Let_def
    by (intro out_inv_if out_inv_bindI kept_inv kept_simple) (simp_all add: kept_def)
qed

text \<open>Like \<open>out_inv\<close>, for the outcomes after which the loop goes on.\<close>

fun goes_on :: "('s \<Rightarrow> bool) \<Rightarrow> ('a, 's) outcome \<Rightarrow> bool" where
  "goes_on I (Ret v s) = I s"
| "goes_on I (Exn s) = I s"
| "goes_on I m = True"

lemma goes_on_bind:
  assumes "goes_on I m" and "\<And>v s. m = Ret v s \<Longrightarrow> I s \<Longrightarrow> goes_on I (f v s)"
  shows "goes_on I (bind_out m f)"
  using assms by (cases m) simp_all

lemma goes_on_cpu: "goes_on I (on_cpu f s) = goes_on (\<lambda>e. I (s\<lparr>cpu := e\<rparr>)) (f (cpu s))"
  by (cases "f (cpu s)") (simp_all add: on_cpu_def)

lemma goes_on_mono: "out_inv J m \<Longrightarrow> (\<And>e. J e \<Longrightarrow> I e) \<Longrightarrow> goes_on I m"
  by (cases m) simp_all

text \<open>\<open>ready s insn\<close>: the state between \<open>fetch\<close> and \<open>interpreter\<close>.\<close>

definition cache_ok :: "'d decoder \<Rightarrow> 'd exec_state \<Rightarrow> bool" where
  "cache_ok decode s \<longleftrightarrow> (\<forall>i \<le> IC_NUM. slot_ok decode (inscache s i)) \<and> ic_trans (inscache s IC_NUM) = None"

definition ready :: "'d decoder \<Rightarrow> u32 \<Rightarrow> 'd exec_state \<Rightarrow> bool" where
  "ready decode insn s \<longleftrightarrow> cache_ok decode s \<and> gpr (cpu s) 0 = 0
    \<and> (\<forall>i. ic s = Some i \<longrightarrow> i \<le> IC_NUM \<and> ic_insn (inscache s i) = insn)"

lemma exec_inv_alt:
  "exec_inv decode s \<longleftrightarrow> cache_ok decode s \<and> (\<forall>i. ic s = Some i \<longrightarrow> i < IC_NUM) \<and> gpr (cpu s) 0 = 0"
  by (auto simp: exec_inv_def cache_ok_def)

lemma exec_inv_cpu: "exec_inv decode s \<Longrightarrow> gpr e 0 = 0 \<Longrightarrow> exec_inv decode (s\<lparr>cpu := e\<rparr>)"
  by (simp add: exec_inv_def)

lemma on_cpu_inv:
  assumes "exec_inv decode s" and "\<And>e. out_inv (\<lambda>e'. gpr e' = gpr e) (f e)"
  shows "goes_on (exec_inv decode) (on_cpu f s)"
  unfolding goes_on_cpu by (rule goes_on_mono [OF assms(2)]) (use assms(1) in \<open>auto simp: exec_inv_def\<close>)

lemma fetch_word_gpr: "out_inv (\<lambda>e'. gpr e' = gpr e) (fetch_word e)"
  by (rule out_inv_mono [OF fetch_word_kept]) (simp add: kept_def)

lemma IC_INDEX_less: "IC_INDEX va < IC_NUM"
proof -
  have "unat (take_bit 20 (drop_bit 2 va)) < 2 ^ 20" by (rule unat_take_bit_less)
  then show ?thesis by (simp add: IC_INDEX_def IC_NUM_def take_bit_eq_mask mask_eq_exp_minus_1)
qed

lemma next_ic_cpu [simp]: "cpu (next_ic insn s) = cpu s" "inscache (next_ic insn s) = inscache s"
  by (auto simp: next_ic_def cpu_get_ic_def Let_def split: option.split)

lemma next_ic_slot:
  "ic (next_ic insn s) = Some i \<Longrightarrow> ic_insn (inscache s i) = insn \<and> (i < IC_NUM \<or> (\<exists>j. ic s = Some j \<and> i = j + 1))"
  by (auto simp: next_ic_def cpu_get_ic_def Let_def IC_INDEX_less split: option.splits if_splits)

lemma next_ic_ready: "exec_inv decode s \<Longrightarrow> ready decode insn (next_ic insn s)"
  by (auto simp: exec_inv_alt ready_def cache_ok_def dest!: next_ic_slot)

lemma cpu_put_ic_ok:
  assumes "cache_ok decode s" and "decode insn = Some (f, a)"
  shows "cache_ok decode (cpu_put_ic f a insn s)"
  using assms IC_INDEX_less [of "pc (cpu s)"] by (auto simp: cache_ok_def cpu_put_ic_def slot_ok_def)

lemma write_arg_simps [simp]:
  "cpu (write_arg i s) = cpu s" "ic (write_arg i s) = ic s" "ic_trans (inscache (write_arg i s) j) = ic_trans (inscache s j)"
  by (simp_all add: write_arg_def)

lemma slot_ok_write: "slot_ok decode c \<Longrightarrow> slot_ok decode (c\<lparr>ic_arg := arg_after (ic_insn c) (ic_arg c)\<rparr>)"
  by (cases "ic_trans c") (auto simp: slot_ok_def)

lemma write_arg_ok: "cache_ok decode s \<Longrightarrow> cache_ok decode (write_arg i s)"
  by (simp add: cache_ok_def write_arg_def slot_ok_write)

lemma cache_ok_cpu [simp]: "cache_ok decode (s\<lparr>cpu := e\<rparr>) = cache_ok decode s"
  by (simp add: cache_ok_def)

lemma reset_r0_zero [simp]: "gpr (reset_r0 e) 0 = 0"
  by (simp add: reset_r0_def)

lemma reset_r0_id: "gpr e 0 = 0 \<Longrightarrow> reset_r0 e = e"
  by (simp add: reset_r0_def fun_upd_idem)

lemma count_insn_gpr [simp]: "gpr (count_insn e) = gpr e"
  by (simp add: count_insn_def)

section \<open>The loop keeps the invariant\<close>

context exec_decoder
begin

lemma exn_zero: "decode w = Some (f, a) \<Longrightarrow> f a env = Exn e \<Longrightarrow> gpr env 0 = 0 \<Longrightarrow> gpr e 0 = 0"
  using raised by fastforce

lemma false_zero: "decode w = Some (f, a) \<Longrightarrow> f a env = Ret False e \<Longrightarrow> gpr env 0 = 0 \<Longrightarrow> gpr e 0 = 0"
  using rejected by blast

lemma ready_slot:
  assumes "ready decode insn s" and "ic s = Some i" and "ic_trans (inscache s i) = Some f"
  obtains a where "decode insn = Some (f, a)" and "f (ic_arg (inscache s i)) = f a" and "i < IC_NUM"
proof -
  have i: "i \<le> IC_NUM" "ic_insn (inscache s i) = insn" "slot_ok decode (inscache s i)" "ic_trans (inscache s IC_NUM) = None"
    using assms(1,2) by (auto simp: ready_def cache_ok_def)
  then obtain a where "decode insn = Some (f, a)" "ic_arg (inscache s i) = a \<or> ic_arg (inscache s i) = arg_after insn a"
    using assms(3) by (auto simp: slot_ok_def)
  moreover have "i < IC_NUM" using i assms(3) by (cases "i = IC_NUM") auto
  ultimately show thesis using cleared [of insn f a] that [of a] by auto
qed

lemma interpreter_inv:
  assumes "ready decode insn s"
  shows "goes_on (exec_inv decode) (interpreter decode insn s)"
proof (cases "ic s")
  case None
  show ?thesis
  proof (cases "decode insn")
    case None
    then show ?thesis using assms \<open>ic s = None\<close> by (simp add: interpreter_def exec_inv_alt ready_def)
  next
    case (Some fa)
    obtain f a where fa: "decode insn = Some (f, a)" using Some by (cases fa) simp
    define t where "t = cpu_put_ic f a insn s"
    have t: "cache_ok decode t" "ic t = None" "cpu t = cpu s"
      using cpu_put_ic_ok [of decode s insn f a] fa assms \<open>ic s = None\<close> by (simp_all add: t_def ready_def) (simp_all add: cpu_put_ic_def)
    show ?thesis
      using fa \<open>ic s = None\<close> t assms false_zero [OF fa] exn_zero [OF fa]
      by (cases "f a (cpu s)") (auto simp: interpreter_def t_def [symmetric] on_cpu_def exec_inv_alt ready_def cache_ok_def)
  qed
next
  case (Some i)
  show ?thesis
  proof (cases "ic_trans (inscache s i)")
    case (Some f)
    obtain a where sl: "decode insn = Some (f, a)" "f (ic_arg (inscache s i)) = f a" "i < IC_NUM"
      by (rule ready_slot [OF assms \<open>ic s = Some i\<close> Some])
    show ?thesis
      using sl assms \<open>ic s = Some i\<close> Some exn_zero [OF sl(1)]
      by (cases "f a (cpu s)") (auto simp: interpreter_def on_cpu_def exec_inv_alt ready_def write_arg_ok)
  qed (simp add: interpreter_def Some)
qed

lemma exec_iter_inv:
  assumes "exec_inv decode s"
  shows "goes_on (exec_inv decode) (exec_iter decode s)"
proof -
  have "goes_on (exec_inv decode) (exec_step decode s)"
    unfolding exec_step_def fetch_def bind_out_assoc bind_out_simps
    by (intro goes_on_bind interpreter_inv next_ic_ready on_cpu_inv assms irq_gpr fetch_word_gpr) (simp_all add: exec_inv_def)
  then show ?thesis
    unfolding exec_iter_def by (cases "exec_step decode s") (auto intro!: on_cpu_inv irq_gpr)
qed

lemma iter_inv: "exec_inv decode s \<Longrightarrow> goes_on (exec_inv decode) (iter_out (exec_iter decode) n s)"
  by (induction n arbitrary: s) (auto intro!: goes_on_bind exec_iter_inv)

end

lemma started_inv: "gpr env 0 = 0 \<Longrightarrow> exec_inv decode (started env)"
  by (simp add: exec_inv_def started_def slot_ok_def)

section \<open>The cache changes nothing\<close>

text \<open>The outcome of a round on the machine alone.\<close>

abbreviation on_machine :: "('a, 'd exec_state) outcome \<Rightarrow> (unit, 'd machine) outcome" where
  "on_machine \<equiv> map_outcome (\<lambda>_. ()) cpu"

lemma unit_outcome [simp]: "map_outcome (\<lambda>_. ()) (\<lambda>e. e) (m :: (unit, 's) outcome) = m"
  by (cases m) simp_all

lemma bind_cong:
  assumes "on_machine m = map_outcome (\<lambda>_. ()) (\<lambda>e. e) n" and "\<And>v s w. m = Ret v s \<Longrightarrow> n = Ret w (cpu s) \<Longrightarrow> on_machine (f v s) = g w (cpu s)"
  shows "on_machine (bind_out m f) = bind_out n g"
  using assms by (cases m; cases n) simp_all

lemma on_cpu_machine: "on_machine (on_cpu f s) = map_outcome (\<lambda>_. ()) (\<lambda>e. e) (f (cpu s))"
  by (cases "f (cpu s)") (simp_all add: on_cpu_def)

lemma on_cpu_Ret: "on_cpu f s = Ret v t \<longleftrightarrow> (\<exists>e. f (cpu s) = Ret v e \<and> t = s\<lparr>cpu := e\<rparr>)"
  by (cases "f (cpu s)") (auto simp: on_cpu_def)

context exec_decoder
begin

lemma interpreter_ref:
  assumes "ready decode insn s" and "insn \<noteq> 0"
  shows "on_machine (interpreter decode insn s) = ref_interp decode insn (cpu s)"
proof (cases "ic s")
  case None
  then show ?thesis
    by (cases "decode insn")
      (auto simp: interpreter_def ref_interp_def on_cpu_def cpu_put_ic_def bind_out_def split: outcome.split)
next
  case (Some i)
  have "slot_ok decode (inscache s i)" "ic_insn (inscache s i) = insn"
    using assms(1) Some by (auto simp: ready_def cache_ok_def)
  then obtain f where f: "ic_trans (inscache s i) = Some f"
    using assms(2) by (auto simp: slot_ok_def split: option.splits)
  obtain a where sl: "decode insn = Some (f, a)" "f (ic_arg (inscache s i)) = f a"
    by (rule ready_slot [OF assms(1) Some f])
  show ?thesis
    using Some f sl assms(1) false_zero [OF sl(1)]
    by (cases "f a (cpu s)") (auto simp: interpreter_def ref_interp_def on_cpu_def reset_r0_id ready_def)
qed

lemma step_ref:
  assumes "exec_inv decode s" and "\<And>e. ref_front (cpu s) \<noteq> Ret 0 e"
  shows "on_machine (exec_step decode s) = ref_step decode (cpu s)"
proof -
  have i: "on_machine (bind_out (interpreter decode w (next_ic w t)) (\<lambda>_ t. Ret () (t\<lparr>cpu := count_insn (cpu t)\<rparr>)))
      = bind_out (ref_interp decode w (cpu t)) (\<lambda>_ e. Ret () (count_insn e))"
    if "exec_inv decode t" "w \<noteq> 0" for w t
    using interpreter_ref [OF next_ic_ready [OF that(1)] that(2)] by (intro bind_cong) (simp_all add: unit_outcome)
  have inv: "exec_inv decode t" "exec_inv decode u"
    if "on_cpu poll_irq s = Ret v t" "on_cpu fetch_word t = Ret w u" for v w t u
    using on_cpu_inv [OF assms(1) irq_gpr(1)] on_cpu_inv [of decode t fetch_word, OF _ fetch_word_gpr] that by simp_all
  show ?thesis
    unfolding exec_step_def ref_step_def ref_front_def fetch_def bind_out_assoc bind_out_simps
  proof (rule bind_cong [OF on_cpu_machine], rule bind_cong [OF on_cpu_machine])
    fix v t x w u y
    assume *: "on_cpu poll_irq s = Ret v t" "poll_irq (cpu s) = Ret x (cpu t)"
      "on_cpu fetch_word t = Ret w u" "fetch_word (cpu t) = Ret y (cpu u)"
    then have "y = w" "ref_front (cpu s) = Ret w (cpu u)" by (auto simp: on_cpu_Ret ref_front_def)
    then show "on_machine (bind_out (interpreter decode w (next_ic w u)) (\<lambda>_ t. Ret () (t\<lparr>cpu := count_insn (cpu t)\<rparr>)))
      = bind_out (ref_interp decode y (cpu u)) (\<lambda>_ e. Ret () (count_insn e))"
      using i [OF inv(2) [OF *(1,3)], of w] assms(2) by metis
  qed
qed

lemma iter_ref:
  assumes "exec_inv decode s" and "\<And>e. ref_front (cpu s) \<noteq> Ret 0 e"
  shows "on_machine (exec_iter decode s) = ref_iter decode (cpu s)"
  using step_ref [OF assms, symmetric]
  by (cases "exec_step decode s") (simp_all add: exec_iter_def ref_iter_def on_cpu_machine)

lemma iters_ref:
  "exec_inv decode s \<Longrightarrow> zero_free decode n (cpu s)
    \<Longrightarrow> on_machine (iter_out (exec_iter decode) n s) = iter_out (ref_iter decode) n (cpu s)"
proof (induction n arbitrary: s)
  case (Suc n)
  have r: "on_machine (exec_iter decode s) = ref_iter decode (cpu s)"
    using Suc.prems by (intro iter_ref) auto
  show ?case unfolding iter_out.simps
  proof (rule bind_cong)
    fix v t w
    assume *: "exec_iter decode s = Ret v t" "ref_iter decode (cpu s) = Ret w (cpu t)"
    then show "on_machine (iter_out (exec_iter decode) n t) = iter_out (ref_iter decode) n (cpu t)"
      using exec_iter_inv [OF Suc.prems(1)] Suc.prems(2) by (intro Suc.IH) simp_all
  qed (simp add: r)
qed simp

end

section \<open>A faulting instruction\<close>

lemma exception_return:
  assumes "plain_exception env" and "FIELD_EX64 (CSR_TLBRERA env) CSR_TLBRERA_ISTLBR = 0" and "is_la64 env"
  obtains e where "take_exception env = Ret () e" and "pc (helper_ertn e) = pc env" and "gpr (helper_ertn e) = gpr env"
    and "CSR_CRMD (helper_ertn e) = CSR_CRMD env" and "ram (helper_ertn e) = ram env"
proof -
  obtain d where d: "loongarch_cpu_do_interrupt env = Ret () d" "CSR_ERA d = pc env"
    "FIELD_EX64 (CSR_PRMD d) CSR_PRMD_PPLV = FIELD_EX64 (CSR_CRMD env) CSR_CRMD_PLV"
    "FIELD_EX64 (CSR_PRMD d) CSR_PRMD_PIE = FIELD_EX64 (CSR_CRMD env) CSR_CRMD_IE"
    "CSR_CRMD d = FIELD_DP64 (FIELD_DP64 (CSR_CRMD env) CSR_CRMD_PLV 0) CSR_CRMD_IE 0"
    "CSR_TLBRERA d = CSR_TLBRERA env" "cpucfg d = cpucfg env" "gpr d = gpr env" "ram d = ram env"
    using assms(1,2) by (rule entry_plain)
  let ?e = "d\<lparr>ecount := ecount d + 1\<rparr>"
  have r: "FIELD_EX64 (CSR_TLBRERA ?e) CSR_TLBRERA_ISTLBR = 0" "is_la64 ?e" "FIELD_EX64 (CSR_CRMD ?e) CSR_CRMD_PLV = 0"
    using assms d by (simp_all add: is_la64_def fld)
  show thesis
    using d ertn_plain [OF r] by (intro that [of ?e]) (simp_all add: take_exception_def field_defs f64.dp_restore_2)
qed

context exec_decoder
begin

lemma fault_restarts:
  assumes "exec_inv decode s" and "ref_front (cpu s) = Ret w e" and "w \<noteq> 0" and "decode w = Some (f, a)"
    and "f a e = Exn e'" and "plain_exception e'" and "FIELD_EX64 (CSR_TLBRERA e') CSR_TLBRERA_ISTLBR = 0" and "is_la64 e'"
  obtains s' where "exec_iter decode s = Ret () s'" and "pc (helper_ertn (cpu s')) = pc e"
    and "gpr (helper_ertn (cpu s')) = gpr e" and "CSR_CRMD (helper_ertn (cpu s')) = CSR_CRMD e'"
    and "ram (helper_ertn (cpu s')) = ram e'"
proof -
  obtain d where d: "take_exception e' = Ret () d" "pc (helper_ertn d) = pc e'" "gpr (helper_ertn d) = gpr e'"
    "CSR_CRMD (helper_ertn d) = CSR_CRMD e'" "ram (helper_ertn d) = ram e'"
    using assms(6-8) by (rule exception_return)
  have "ref_iter decode (cpu s) = take_exception e'"
    using assms(2,4,5) by (simp add: ref_iter_def ref_step_def ref_interp_def)
  then have "on_machine (exec_iter decode s) = Ret () d"
    using iter_ref [OF assms(1)] assms(2,3) d(1) by simp
  then obtain s' where "exec_iter decode s = Ret () s'" "cpu s' = d"
    by (cases "exec_iter decode s") auto
  then show thesis
    using that d raised [OF assms(4,5)] by simp
qed

end

section \<open>Undefined words\<close>

lemma undefined_spins:
  assumes "exec_inv decode s" and "ref_front (cpu s) = Ret w e" and "decode w = None" and "w \<noteq> 0"
  obtains s' where "exec_iter decode s = Ret () s'" and "cpu s' = count_insn e"
proof -
  obtain v t u where t: "on_cpu poll_irq s = Ret v t" "on_cpu fetch_word t = Ret w u" "cpu u = e" "exec_inv decode u"
  proof -
    obtain m where m: "poll_irq (cpu s) = Ret () m" "fetch_word m = Ret w e"
      using assms(2) by (cases "poll_irq (cpu s)") (auto simp: ref_front_def)
    have "exec_inv decode (s\<lparr>cpu := m\<rparr>)" "exec_inv decode (s\<lparr>cpu := e\<rparr>)"
      using assms(1) irq_gpr(1) [of "cpu s"] fetch_word_gpr [of m] m by (simp_all add: exec_inv_def)
    then show thesis using m by (intro that [of "()" "s\<lparr>cpu := m\<rparr>" "s\<lparr>cpu := e\<rparr>"]) (simp_all add: on_cpu_Ret)
  qed
  have "ic (next_ic w u) = None"
  proof (rule ccontr)
    assume "ic (next_ic w u) \<noteq> None"
    then obtain i where i: "ic (next_ic w u) = Some i" by blast
    then have "slot_ok decode (inscache u i)" "ic_insn (inscache u i) = w"
      using next_ic_ready [OF t(4), of w] by (auto simp: ready_def cache_ok_def)
    then show False using assms(3,4) by (auto simp: slot_ok_def split: option.splits)
  qed
  then show thesis
    using assms(3) t that by (auto simp: exec_iter_def exec_step_def fetch_def interpreter_def)
qed

lemma zero_word_crashes:
  assumes "exec_inv decode s" and "ref_front (cpu s) = Ret 0 e" and "decode 0 = None"
    and "ic_insn (inscache s (IC_INDEX (pc e))) = 0"
  shows "exec_iter decode s = Crash"
proof -
  obtain m where m: "poll_irq (cpu s) = Ret () m" "fetch_word m = Ret 0 e"
    using assms(2) by (cases "poll_irq (cpu s)") (auto simp: ref_front_def)
  define u where "u = s\<lparr>cpu := e\<rparr>"
  have u: "exec_inv decode u" "inscache u = inscache s" "cpu u = e"
    using assms(1) irq_gpr(1) [of "cpu s"] fetch_word_gpr [of m] m by (simp_all add: exec_inv_def u_def)
  obtain i where i: "ic (next_ic 0 u) = Some i"
    using assms(4) u by (cases "ic u") (force simp: next_ic_def cpu_get_ic_def Let_def)+
  then have "slot_ok decode (inscache u i)" "ic_insn (inscache u i) = 0"
    using next_ic_ready [OF u(1), of 0] by (auto simp: ready_def cache_ok_def)
  then have "ic_trans (inscache u i) = None" using assms(3) by (auto simp: slot_ok_def split: option.splits)
  then show ?thesis
    using m i by (simp add: exec_iter_def exec_step_def fetch_def interpreter_def on_cpu_def u_def)
qed

section \<open>Properties\<close>

text \<open>(C1) The instruction cache is transparent: a loop that decodes every instruction anew, and has no cache, takes
  the machine through the same states, exceptions and interrupts included, for any number of rounds in which the
  word 0 is not fetched. The decoder may be extended with any functions that do nothing when they answer false and
  keep the registers when they raise an exception.\<close>

theorem inscache_transparent:
  assumes "decoder other" and "exec_inv (la_decode other) s" and "zero_free (la_decode other) n (cpu s)"
  shows "map_outcome (\<lambda>_. ()) cpu (iter_out (exec_iter (la_decode other)) n s)
    = iter_out (ref_iter (la_decode other)) n (cpu s)"
  using exec_decoder.iters_ref [OF exec_decoder_la] assms by blast

text \<open>(C10) Register 0 reads zero at every instruction, although the instructions may write to it, and every filled slot
  of the instruction cache holds the function that the decoder returns for its word with the arguments it returns, or,
  for the four instructions that execute \<open>a->rd = 0\<close>, with these arguments and a cleared register field.\<close>

theorem zero_register:
  assumes "decoder other" and "gpr env 0 = 0" and "iter_out (exec_iter (la_decode other)) n (started env) = Ret () s"
  shows "gpr (cpu s) 0 = 0 \<and> (\<forall>i < IC_NUM. slot_ok (la_decode other) (inscache s i))"
  using exec_decoder.iter_inv [OF exec_decoder_la [OF assms(1)] started_inv [OF assms(2)], of n] assms(3)
  by (simp add: exec_inv_def)

text \<open>(C2) Restart: when an instruction raises an exception that is not a TLB refill, the round ends in the handler, and
  the return from it is to that instruction, with the general registers, the mode and the memory the instruction
  left.\<close>

theorem faulting_instruction_restarts:
  assumes "decoder other" and "exec_inv (la_decode other) s" and "ref_front (cpu s) = Ret w e" and "w \<noteq> 0"
    and "la_decode other w = Some (f, a)" and "f a e = Exn e'"
    and "plain_exception e'" and "FIELD_EX64 (CSR_TLBRERA e') CSR_TLBRERA_ISTLBR = 0" and "is_la64 e'"
  shows "\<exists>s'. exec_iter (la_decode other) s = Ret () s' \<and> pc (helper_ertn (cpu s')) = pc e
    \<and> gpr (helper_ertn (cpu s')) = gpr e \<and> CSR_CRMD (helper_ertn (cpu s')) = CSR_CRMD e'
    \<and> ram (helper_ertn (cpu s')) = ram e'"
  using exec_decoder.fault_restarts [OF exec_decoder_la [OF assms(1)] assms(2-9)] by metis

text \<open>(C11) Words that are no instruction. The loop logs a word other than 0 and counts it, and the machine is otherwise as
  it was after the fetch, at the same program counter: the next round fetches the word again. The word 0
  matches a slot of the instruction cache that was never filled, and the emulator calls a null pointer.\<close>

theorem undefined_words:
  assumes "exec_inv (la_decode other) s" and "ref_front (cpu s) = Ret w e" and "la_decode other w = None"
  shows "(w \<noteq> 0 \<longrightarrow> (\<exists>s'. exec_iter (la_decode other) s = Ret () s' \<and> cpu s' = count_insn e))
    \<and> (w = 0 \<and> ic_insn (inscache s (IC_INDEX (pc e))) = 0 \<longrightarrow> exec_iter (la_decode other) s = Crash)"
  using undefined_spins [OF assms(1-3)] zero_word_crashes [OF assms(1)] assms(2,3) by metis

section \<open>Witnesses\<close>

text \<open>A machine after boot whose RAM repeats one word, at an address whose page was fetched before.\<close>

abbreviation filled :: "u32 \<Rightarrow> unit machine" where
  "filled w \<equiv> (booted 0x1000)\<lparr>determined := False, timer_int := False, prev_pc_vpage := 0x1000, prev_pc_ppage := 0x1000,
    ram := \<lambda>a. ucast (drop_bit (8 * unat (a AND 3)) w)\<rparr>"

definition quiet :: "u32 \<Rightarrow> 'd machine \<Rightarrow> bool" where
  "quiet w m \<longleftrightarrow> \<not> determined m \<and> \<not> timer_int m \<and> \<not> loongarch_cpu_has_irq m \<and> gpr m 0 = 0 \<and> pc m = 0x1000
    \<and> prev_pc_vpage m = 0x1000 \<and> prev_pc_ppage m = 0x1000 \<and> ram m = (\<lambda>a. ucast (drop_bit (8 * unat (a AND 3)) w))"

lemma filled_quiet: "quiet w (filled w)"
  by (simp add: quiet_def main_cpu_setup_fields loongarch_cpu_has_irq_def zeroed_machine_def)

lemma quiet_fetch:
  assumes "quiet w m"
  shows "fetch_word m = Ret w m"
proof -
  have b: "(ucast (drop_bit n (ucast w :: u64)) :: u8) = ucast (drop_bit n w)" for n
    by (rule bit_word_eqI) (auto simp: bit_simps dest: bit_imp_le_length)
  have "[0..<4] = [0, 1, 2, 3 :: nat]" by (simp add: upt_rec)
  moreover have "le_bytes 4 (ucast w) = [ucast w, ucast (drop_bit 8 w), ucast (drop_bit 16 w), ucast (drop_bit 24 w)]"
    using b [of 0] b [of 8] b [of 16] b [of 24] by (simp add: numeral_eq_Suc)
  ultimately have "le_load (map (\<lambda>i. ram m (0x1000 + of_nat i)) [0..<4]) = le_load (le_bytes 4 (ucast w))"
    by (simp add: assms [unfolded quiet_def])
  also have "\<dots> = ucast w" by (subst le_load_bytes) (simp_all add: take_bit_ucast LA_Insn_Mem.ucast_ucast)
  finally have "ram_lduw 0x1000 m = Ret (ucast w) m"
    by (simp add: ram_lduw_def ram_ld_def ram_ok_def addr_in_ram_def upt_rec size_defs)
  then show ?thesis
    by (simp add: fetch_word_def assms [unfolded quiet_def] TARGET_PAGE_MASK_def TARGET_PAGE_BITS_def mask_eq_exp_minus_1 LA_Insn_Mem.ucast_ucast)
qed

lemma quiet_front: "quiet w m \<Longrightarrow> ref_front m = Ret w m"
  using quiet_fetch [of w m] by (simp add: quiet_def ref_front_def poll_irq_def loongarch_cpu_check_irq_def)

lemma none_decoder: "decoder (\<lambda>_. None)"
  by (simp add: decoder_def)

text \<open>A branch to itself: \<open>beq r0, r0, 0\<close>.\<close>

lemma decode_spin: "la_decode other 0x58000000 = Some (trans_beq, fmt_rr_offs16 0x58000000)"
  by (rule la_decode_hit; simp add: decode_table_def)

lemma spin_stays: "trans_beq (fmt_rr_offs16 0x58000000) m = Ret True m"
  by (simp add: trans_beq_def branch_def cpu_set_pc_def offsw_def fmt_rr_offs16_def extract32_def sextract32_def
    mask_eq_exp_minus_1)

lemma quiet_counts: "quiet w m \<Longrightarrow> quiet w (count_insn m)"
  by (simp add: quiet_def count_insn_def loongarch_cpu_has_irq_def)

lemma spin_round: "quiet 0x58000000 m \<Longrightarrow> ref_iter (la_decode other) m = Ret () (count_insn m)"
  using quiet_front [of _ m]
  by (simp add: ref_iter_def ref_step_def ref_interp_def decode_spin spin_stays reset_r0_id quiet_def)

lemma spin_zero_free: "quiet 0x58000000 m \<Longrightarrow> zero_free (la_decode other) n m"
proof (induction n arbitrary: m)
  case (Suc n)
  then show ?case using quiet_front [OF Suc.prems] spin_round [OF Suc.prems] quiet_counts [OF Suc.prems] by simp
qed simp

lemma filled_inv: "exec_inv decode (started (filled w))"
  using filled_quiet [of w] by (intro started_inv) (simp add: quiet_def)

theorem inscache_transparent_witness:
  "map_outcome (\<lambda>_. ()) cpu (iter_out (exec_iter (la_decode (\<lambda>_. None))) 3 (started (filled 0x58000000)))
    = iter_out (ref_iter (la_decode (\<lambda>_. None))) 3 (filled 0x58000000)"
  using inscache_transparent [OF none_decoder filled_inv, of 3 "0x58000000"] spin_zero_free [OF filled_quiet]
  by (simp add: started_def)

theorem zero_register_witness:
  "\<exists>s. iter_out (exec_iter (la_decode (\<lambda>_. None))) 2 (started (filled 0x58000000)) = Ret () s \<and> gpr (cpu s) 0 = 0"
proof -
  let ?m = "filled 0x58000000"
  have q: "quiet 0x58000000 ?m" by (rule filled_quiet)
  have "iter_out (ref_iter (la_decode (\<lambda>_. None))) 2 ?m = Ret () (count_insn (count_insn ?m))"
    by (simp add: numeral_2_eq_2 spin_round [OF q] spin_round [OF quiet_counts [OF q]])
  then obtain s where s: "iter_out (exec_iter (la_decode (\<lambda>_. None))) 2 (started ?m) = Ret () s"
    using la.iters_ref [OF filled_inv, of 2 "0x58000000"] spin_zero_free [OF q, of _ 2]
    by (cases "iter_out (exec_iter (la_decode (\<lambda>_. None))) 2 (started ?m)") (auto simp: started_def)
  then show ?thesis
    using zero_register [OF none_decoder _ s] q by (simp add: quiet_def)
qed

text \<open>A system call.\<close>

lemma decode_syscall: "la_decode other 0x002b0000 = Some (trans_syscall, fmt_i15 0x002b0000)"
  by (rule la_decode_hit; simp add: decode_table_def)

theorem faulting_instruction_restarts_witness:
  "\<exists>s'. exec_iter (la_decode (\<lambda>_. None)) (started (filled 0x002b0000)) = Ret () s' \<and> pc (helper_ertn (cpu s')) = 0x1000"
proof -
  let ?m = "filled 0x002b0000"
  let ?e = "(cpu_clear_tc (?m\<lparr>syscall_count := syscall_count ?m + 1\<rparr>))\<lparr>exception_index := EXCCODE_SYS\<rparr>"
  have q: "quiet 0x002b0000 ?m" by (rule filled_quiet)
  have "plain_exception ?e" by (auto simp: plain_exception_def exception_cause_def Let_def exc_defs)
  moreover have "FIELD_EX64 (CSR_TLBRERA ?e) CSR_TLBRERA_ISTLBR = 0" "is_la64 ?e"
    using main_cpu_setup_la64 [of "0x1000" "zeroed_machine 0x100000000 (replicate 16 empty_slot) ()"]
    by (simp_all add: main_cpu_setup_fields is_la64_def cpu_clear_tc_def)
  moreover have "trans_syscall (fmt_i15 0x002b0000) ?m = Exn ?e" by (simp add: trans_syscall_def do_raise_exception_def)
  ultimately have "\<exists>s'. exec_iter (la_decode (\<lambda>_. None)) (started ?m) = Ret () s' \<and> pc (helper_ertn (cpu s')) = pc ?m"
    using faulting_instruction_restarts [OF none_decoder filled_inv _ _ decode_syscall, of "0x002b0000" ?m ?e] quiet_front [OF q]
    by (auto simp: started_def)
  then show ?thesis using q by (simp add: quiet_def)
qed

text \<open>A word that is no instruction, and memory full of zeros.\<close>

lemma decode_ones: "la_decode (\<lambda>_. None) 0xffffffff = None"
  by (subst la_decode_miss) (simp_all add: decode_table_def)

theorem undefined_words_witness:
  "(\<exists>s'. exec_iter (la_decode (\<lambda>_. None)) (started (filled 0xffffffff)) = Ret () s' \<and> cpu s' = count_insn (filled 0xffffffff))
    \<and> exec_iter (la_decode (\<lambda>_. None)) (started (filled 0)) = Crash"
proof
  have z: "ref_front (filled 0) = Ret 0 (filled 0)" "la_decode (\<lambda>_. None) 0 = None"
    using quiet_front [OF filled_quiet [of 0]] la_decode_zero [of "\<lambda>_. None"] by simp_all
  show "\<exists>s'. exec_iter (la_decode (\<lambda>_. None)) (started (filled 0xffffffff)) = Ret () s' \<and> cpu s' = count_insn (filled 0xffffffff)"
    using undefined_words [OF filled_inv _ decode_ones, of "0xffffffff"] quiet_front [OF filled_quiet] by (simp add: started_def)
  show "exec_iter (la_decode (\<lambda>_. None)) (started (filled 0)) = Crash"
    using undefined_words [of "\<lambda>_. None" "started (filled 0)" 0 "filled 0", OF filled_inv] z by (simp add: started_def)
qed

end
