(* ===== verification/Dev_Fifo.thy ===== *)
theory Dev_Fifo
  imports Emu_Prelude
begin

text \<open>
  The byte queue of \<open>fifo.c\<close>: a circular buffer with 32-bit indices. The lemmas show that it implements a bounded
  queue of bytes.

  \<^item> \<open>data\<close> is the heap block; an access outside it is \<open>None\<close>, as is a failed assertion and a division by a zero capacity.
  \<^item> A pointer into the buffer, which \<open>fifo8_peek_buf\<close> and \<open>fifo8_pop_buf\<close> return, is the list of the bytes it gives access to.
  \<^item> The locale \<open>byte_queue\<close> is what the serial port relies on.
\<close>

section \<open>The buffer\<close>

record Fifo8 =
  data :: "u8 list"
  capacity :: u32
  head :: u32
  num :: u32

text \<open>\<open>g_new\<close> does not clear the block: \<open>block\<close> is what it holds.\<close>

definition fifo8_create :: "(nat \<Rightarrow> u8) \<Rightarrow> u32 \<Rightarrow> Fifo8" where
  "fifo8_create block cap = \<lparr>data = map block [0..<unat cap], capacity = cap, head = 0, num = 0\<rparr>"

definition fifo8_push :: "Fifo8 \<Rightarrow> u8 \<Rightarrow> Fifo8 option" where
  "fifo8_push fifo b =
    (if num fifo < capacity fifo
     then let i = unat ((head fifo + num fifo) mod capacity fifo)
          in if i < length (data fifo) then Some (fifo\<lparr>data := (data fifo)[i := b], num := num fifo + 1\<rparr>) else None
     else None)"

text \<open>\<open>memcpy(&data[start], src, n)\<close>.\<close>

definition copy_at :: "nat \<Rightarrow> u8 list \<Rightarrow> u8 list \<Rightarrow> u8 list option" where
  "copy_at start src dst =
    (if start + length src \<le> length dst then Some (take start dst @ src @ drop (start + length src) dst) else None)"

definition fifo8_push_all :: "Fifo8 \<Rightarrow> u8 list \<Rightarrow> Fifo8 option" where
  "fifo8_push_all fifo bs =
    (let n = (of_nat (length bs) :: u32)
     in if num fifo + n \<le> capacity fifo \<and> capacity fifo \<noteq> 0
        then let start = (head fifo + num fifo) mod capacity fifo
             in case (if start + n \<le> capacity fifo then copy_at (unat start) bs (data fifo)
                      else let avail = unat (capacity fifo - start)
                           in case copy_at (unat start) (take avail bs) (data fifo) of
                                None \<Rightarrow> None | Some d \<Rightarrow> copy_at 0 (drop avail bs) d) of
                  None \<Rightarrow> None
                | Some d \<Rightarrow> Some (fifo\<lparr>data := d, num := num fifo + n\<rparr>)
        else None)"

definition fifo8_pop :: "Fifo8 \<Rightarrow> (u8 \<times> Fifo8) option" where
  "fifo8_pop fifo =
    (if num fifo > 0 \<and> unat (head fifo) < length (data fifo) \<and> capacity fifo \<noteq> 0
     then Some (data fifo ! unat (head fifo), fifo\<lparr>head := (head fifo + 1) mod capacity fifo, num := num fifo - 1\<rparr>)
     else None)"

definition fifo8_peekpop_buf :: "Fifo8 \<Rightarrow> u32 \<Rightarrow> bool \<Rightarrow> (u8 list \<times> Fifo8) option" where
  "fifo8_peekpop_buf fifo mx do_pop =
    (if mx > 0 \<and> mx \<le> num fifo
     then let n = min (capacity fifo - head fifo) mx;
              buf = take (unat n) (drop (unat (head fifo)) (data fifo))
          in if \<not> do_pop then Some (buf, fifo)
             else if capacity fifo = 0 then None
             else Some (buf, fifo\<lparr>head := (head fifo + n) mod capacity fifo, num := num fifo - n\<rparr>)
     else None)"

definition fifo8_peek_buf :: "Fifo8 \<Rightarrow> u32 \<Rightarrow> (u8 list \<times> Fifo8) option" where
  "fifo8_peek_buf fifo mx = fifo8_peekpop_buf fifo mx False"

definition fifo8_pop_buf :: "Fifo8 \<Rightarrow> u32 \<Rightarrow> (u8 list \<times> Fifo8) option" where
  "fifo8_pop_buf fifo mx = fifo8_peekpop_buf fifo mx True"

definition fifo8_reset :: "Fifo8 \<Rightarrow> Fifo8" where
  "fifo8_reset fifo = fifo\<lparr>num := 0, head := 0\<rparr>"

definition fifo8_is_empty :: "Fifo8 \<Rightarrow> bool" where
  "fifo8_is_empty fifo \<longleftrightarrow> num fifo = 0"

definition fifo8_is_full :: "Fifo8 \<Rightarrow> bool" where
  "fifo8_is_full fifo \<longleftrightarrow> num fifo = capacity fifo"

definition fifo8_num_free :: "Fifo8 \<Rightarrow> u32" where
  "fifo8_num_free fifo = capacity fifo - num fifo"

definition fifo8_num_used :: "Fifo8 \<Rightarrow> u32" where
  "fifo8_num_used fifo = num fifo"

section \<open>The queue it stands for\<close>

text \<open>Below \<open>2 ^ 31\<close> the sum of two indices does not wrap.\<close>

definition fifo_ok :: "Fifo8 \<Rightarrow> bool" where
  "fifo_ok f \<longleftrightarrow> length (data f) = unat (capacity f) \<and> head f < capacity f \<and> num f \<le> capacity f \<and> capacity f < 2 ^ 31"

definition contents :: "Fifo8 \<Rightarrow> u8 list" where
  "contents f = map (\<lambda>i. data f ! ((unat (head f) + i) mod unat (capacity f))) [0..<unat (num f)]"

lemma length_contents [simp]: "length (contents f) = unat (num f)"
  by (simp add: contents_def)

lemma fifo_okD:
  assumes "fifo_ok f"
  shows "length (data f) = unat (capacity f)" and "unat (head f) < unat (capacity f)" and "unat (num f) \<le> unat (capacity f)"
    and "unat (capacity f) < 2 ^ 31" and "capacity f \<noteq> 0"
  using assms by (auto simp: fifo_ok_def word_less_nat_alt word_le_nat_alt)

lemma small_add:
  assumes "unat (a :: u32) + unat b < 2 ^ 32"
  shows "unat (a + b) = unat a + unat b"
  using assms by (simp add: unat_plus_if')

lemma end_index:
  assumes "fifo_ok f"
  shows "unat ((head f + num f) mod capacity f) = (unat (head f) + unat (num f)) mod unat (capacity f)"
proof -
  have "unat (head f + num f) = unat (head f) + unat (num f)"
    using fifo_okD [OF assms] by (intro small_add) simp
  then show ?thesis by (simp add: unat_mod_distrib)
qed

lemma mod_shift_neq:
  assumes "(i :: nat) < n" and "n < c" and "h < c"
  shows "(h + i) mod c \<noteq> (h + n) mod c"
proof
  assume "(h + i) mod c = (h + n) mod c"
  then have "(h + n - (h + i)) mod c = 0" by (metis add_le_cancel_left assms(1) less_imp_le mod_eq_dvd_iff_nat mod_0_imp_dvd dvd_imp_mod_0)
  then show False using assms by simp
qed

lemma push_queue:
  assumes "fifo_ok f" and "num f < capacity f"
  shows "\<exists>f'. fifo8_push f b = Some f' \<and> fifo_ok f' \<and> contents f' = contents f @ [b] \<and> capacity f' = capacity f"
proof -
  note ok = fifo_okD [OF assms(1)]
  let ?i = "(unat (head f) + unat (num f)) mod unat (capacity f)"
  let ?f = "f\<lparr>data := (data f)[?i := b], num := num f + 1\<rparr>"
  have n: "unat (num f) < unat (capacity f)" using assms(2) by (simp add: word_less_nat_alt)
  have n1: "unat (num f + 1) = unat (num f) + 1" using n ok(4) by (subst small_add) simp_all
  have i: "?i < length (data f)" using ok by simp
  then have "fifo8_push f b = Some ?f" using assms(2) by (simp add: fifo8_push_def end_index [OF assms(1)])
  moreover have "fifo_ok ?f"
    using assms(1) n n1 by (simp add: fifo_ok_def word_le_nat_alt)
  moreover have "(data f)[?i := b] ! ((unat (head f) + x) mod unat (capacity f)) = data f ! ((unat (head f) + x) mod unat (capacity f))"
    if "x < unat (num f)" for x
    using mod_shift_neq [OF that n ok(2)] by simp
  then have "contents ?f = contents f @ [b]"
    using i by (simp add: contents_def n1)
  ultimately show ?thesis by fastforce
qed

lemma pop_queue:
  assumes "fifo_ok f" and "num f \<noteq> 0"
  shows "\<exists>f'. fifo8_pop f = Some (hd (contents f), f') \<and> fifo_ok f' \<and> contents f' = tl (contents f) \<and> capacity f' = capacity f"
proof -
  note ok = fifo_okD [OF assms(1)]
  let ?f = "f\<lparr>head := (head f + 1) mod capacity f, num := num f - 1\<rparr>"
  have n: "0 < unat (num f)" using assms(2) by (simp add: unat_gt_0)
  have n1: "unat (num f - 1) = unat (num f) - 1" using assms(2) by (simp add: unat_minus_one)
  have h1: "unat ((head f + 1) mod capacity f) = (unat (head f) + 1) mod unat (capacity f)"
    using ok by (simp add: unat_mod_distrib small_add)
  have split: "[0..<unat (num f)] = 0 # map Suc [0..<unat (num f) - 1]"
    using n by (simp add: map_Suc_upt upt_conv_Cons)
  have c: "contents f = data f ! unat (head f) # contents ?f"
    using ok by (simp add: contents_def split n1 h1 mod_simps)
  have "fifo8_pop f = Some (data f ! unat (head f), ?f)"
    using ok assms(2) by (simp add: fifo8_pop_def word_neq_0_conv)
  moreover have "fifo_ok ?f"
    using assms(1) ok n1 h1 by (simp add: fifo_ok_def word_less_nat_alt word_le_nat_alt)
  ultimately show ?thesis by (simp add: c)
qed

lemma copy_nth:
  assumes "copy_at start src dst = Some d"
  shows "length d = length dst"
    and "k < length dst \<Longrightarrow> d ! k = (if start \<le> k \<and> k < start + length src then src ! (k - start) else dst ! k)"
  using assms by (auto simp: copy_at_def nth_append split: if_splits)

lemma copy_ok:
  assumes "start + length src \<le> length dst"
  obtains d where "copy_at start src dst = Some d"
  using assms by (simp add: copy_at_def)

lemma copy_wrapped:
  assumes "length dst = c" and "start < c" and "length src \<le> c"
    and "d = (if start + length src \<le> c then copy_at start src dst
      else case copy_at start (take (c - start) src) dst of None \<Rightarrow> None | Some e \<Rightarrow> copy_at 0 (drop (c - start) src) e)"
  obtains e where "d = Some e" and "length e = c"
    and "\<And>k. k < c \<Longrightarrow> e ! k = (if start \<le> k \<and> k - start < length src then src ! (k - start)
      else if k + c - start < length src then src ! (k + c - start) else dst ! k)"
proof (cases "start + length src \<le> c")
  case True
  then obtain e where e: "copy_at start src dst = Some e" using assms(1) copy_ok by blast
  show thesis
    by (rule that [of e]) (use e True assms copy_nth [OF e] in auto)
next
  case False
  then obtain e1 where e1: "copy_at start (take (c - start) src) dst = Some e1"
    using assms copy_ok [of start "take (c - start) src" dst] by auto
  obtain e where e: "copy_at 0 (drop (c - start) src) e1 = Some e"
    by (rule copy_ok [of 0 "drop (c - start) src" e1]) (use assms(1-3) copy_nth(1) [OF e1] in simp_all)
  show thesis
  proof (rule that [of e])
    show "d = Some e" using False e1 e assms(4) by simp
    show "length e = c" using copy_nth(1) [OF e] copy_nth(1) [OF e1] assms(1) by simp
    fix k assume k: "k < c"
    have k1: "e1 ! k = (if start \<le> k then src ! (k - start) else dst ! k)"
      using copy_nth(2) [OF e1, of k] False k assms(1,2) by (simp add: less_diff_conv)
    have k2: "e ! k = (if k < length src + start - c then src ! (k + c - start) else e1 ! k)"
      using copy_nth(2) [OF e, of k] copy_nth(1) [OF e1] k assms(1,2) by (simp add: add.commute)
    show "e ! k = (if start \<le> k \<and> k - start < length src then src ! (k - start)
        else if k + c - start < length src then src ! (k + c - start) else dst ! k)"
      using False assms(1-3) k k1 k2 by (cases "start \<le> k") auto
  qed
qed

lemma copy_circular:
  assumes "length dst = c" and "start < c" and "length src \<le> c"
    and "d = (if start + length src \<le> c then copy_at start src dst
      else case copy_at start (take (c - start) src) dst of None \<Rightarrow> None | Some e \<Rightarrow> copy_at 0 (drop (c - start) src) e)"
  obtains e where "d = Some e" and "length e = c" and "\<And>j. j < length src \<Longrightarrow> e ! ((start + j) mod c) = src ! j"
    and "\<And>k. k < c \<Longrightarrow> \<forall>j < length src. k \<noteq> (start + j) mod c \<Longrightarrow> e ! k = dst ! k"
proof -
  obtain e where e: "d = Some e" "length e = c"
    and nth: "\<And>k. k < c \<Longrightarrow> e ! k = (if start \<le> k \<and> k - start < length src then src ! (k - start)
      else if k + c - start < length src then src ! (k + c - start) else dst ! k)"
    by (rule copy_wrapped [OF assms]) (rule that)
  have 1: "e ! ((start + j) mod c) = src ! j" if "j < length src" for j
  proof (cases "start + j < c")
    case True
    then show ?thesis using nth [of "start + j"] that by simp
  next
    case False
    then have "(start + j) mod c = (start + j - c) mod c" by (intro le_mod_geq) simp
    then have k: "(start + j) mod c = start + j - c" using assms(2,3) that by simp
    have "start + j - c < c" "\<not> start \<le> start + j - c" "start + j - c + c - start = j" using False assms(2,3) that by linarith+
    then show ?thesis unfolding k using nth [of "start + j - c"] that by simp
  qed
  have 2: "e ! k = dst ! k" if k: "k < c" and x: "\<forall>j < length src. k \<noteq> (start + j) mod c" for k
  proof -
    have "\<not> (start \<le> k \<and> k - start < length src)" using x k by (auto dest: spec [of _ "k - start"])
    moreover have "\<not> k + c - start < length src" using x k assms(2) by (auto dest: spec [of _ "k + c - start"])
    ultimately show ?thesis unfolding nth [OF k] by argo
  qed
  show thesis by (rule that [OF e 1 2])
qed

lemma push_all_queue:
  assumes "fifo_ok f" and "unat (num f) + length bs \<le> unat (capacity f)"
  shows "\<exists>f'. fifo8_push_all f bs = Some f' \<and> fifo_ok f' \<and> contents f' = contents f @ bs \<and> capacity f' = capacity f"
proof -
  note ok = fifo_okD [OF assms(1)]
  let ?c = "unat (capacity f)" and ?h = "unat (head f)" and ?n = "unat (num f)" and ?l = "of_nat (length bs) :: u32"
  let ?w = "(head f + num f) mod capacity f"
  let ?s = "(?h + ?n) mod ?c"
  have l: "unat ?l = length bs" using ok(4) assms(2) by (simp add: unat_of_nat take_bit_nat_eq_self)
  have n: "unat (num f + ?l) = ?n + length bs" using ok(4) assms(2) l by (subst small_add) simp_all
  have s: "unat ?w = ?s" by (rule end_index [OF assms(1)])
  have sc: "?s < ?c" and lb: "length bs \<le> ?c" using ok assms(2) by simp_all
  have sl: "unat (?w + ?l) = ?s + length bs" using s l sc ok(4) lb by (subst small_add) simp_all
  have av: "unat (capacity f - ?w) = ?c - ?s" using s sc by (simp add: unat_sub word_le_nat_alt)
  obtain e where e: "(if ?s + length bs \<le> ?c then copy_at ?s bs (data f)
      else case copy_at ?s (take (?c - ?s) bs) (data f) of None \<Rightarrow> None | Some d \<Rightarrow> copy_at 0 (drop (?c - ?s) bs) d) = Some e"
    and len: "length e = ?c" and new: "\<And>j. j < length bs \<Longrightarrow> e ! ((?s + j) mod ?c) = bs ! j"
    and old: "\<And>k. k < ?c \<Longrightarrow> \<forall>j < length bs. k \<noteq> (?s + j) mod ?c \<Longrightarrow> e ! k = data f ! k"
    by (rule copy_circular [OF ok(1) sc lb refl]) (rule that)
  let ?f = "f\<lparr>data := e, num := num f + ?l\<rparr>"
  have r: "fifo8_push_all f bs = Some ?f"
    using e assms(2) ok(5) n
    by (cases "?s + length bs \<le> ?c") (simp_all add: fifo8_push_all_def word_le_nat_alt s sl av Let_def split: option.splits)
  have idx: "(?h + (?n + j)) mod ?c = (?s + j) mod ?c" for j by (simp add: mod_simps add.assoc)
  have "e ! ((?h + i) mod ?c) = data f ! ((?h + i) mod ?c)" if "i < ?n" for i
  proof (rule old)
    show "\<forall>j < length bs. (?h + i) mod ?c \<noteq> (?s + j) mod ?c"
      using mod_shift_neq [of i "?n + j" ?c ?h for j] that assms(2) ok(2) by (simp add: idx)
  qed (use ok in simp)
  moreover have "[0..<?n + length bs] = [0..<?n] @ map (\<lambda>j. ?n + j) [0..<length bs]"
    using map_add_upt [of ?n "length bs"] upt_add_eq_append [of 0 ?n "length bs"] by (simp add: add.commute)
  moreover have "map (\<lambda>j. e ! ((?s + j) mod ?c)) [0..<length bs] = bs" by (rule nth_equalityI) (simp_all add: new)
  ultimately have "contents ?f = contents f @ bs"
    by (simp add: contents_def n idx o_def cong: map_cong)
  moreover have "fifo_ok ?f" using assms ok n len by (simp add: fifo_ok_def word_le_nat_alt)
  ultimately show ?thesis using r by fastforce
qed

lemma peek_queue:
  assumes "fifo_ok f" and "0 < mx" and "mx \<le> num f"
  obtains n where "0 < n" and "n \<le> unat mx"
    and "fifo8_peek_buf f mx = Some (take n (contents f), f)"
    and "\<exists>f'. fifo8_pop_buf f mx = Some (take n (contents f), f') \<and> fifo_ok f' \<and> contents f' = drop n (contents f)
      \<and> capacity f' = capacity f"
proof -
  note ok = fifo_okD [OF assms(1)]
  let ?c = "unat (capacity f)" and ?h = "unat (head f)"
  let ?m = "min (capacity f - head f) mx"
  define n where "n = min (?c - ?h) (unat mx)"
  have hc: "unat (capacity f - head f) = ?c - ?h" using ok(2) by (simp add: unat_sub word_le_nat_alt)
  have m: "unat ?m = n" using hc by (simp add: n_def min_def word_le_nat_alt)
  have mx: "0 < unat mx" "unat mx \<le> unat (num f)" using assms(2,3) by (simp_all add: word_less_nat_alt word_le_nat_alt)
  have n: "0 < n" "n \<le> unat mx" "n \<le> unat (num f)" "?h + n \<le> ?c" using mx ok(2) by (auto simp: n_def)
  have buf: "take n (drop ?h (data f)) = take n (contents f)"
  proof (rule nth_equalityI)
    fix i assume "i < length (take n (drop ?h (data f)))"
    then show "take n (drop ?h (data f)) ! i = take n (contents f) ! i" using n ok(1) by (simp add: contents_def)
  qed (use n ok(1) in simp)
  let ?f = "f\<lparr>head := (head f + ?m) mod capacity f, num := num f - ?m\<rparr>"
  have num: "unat (num f - ?m) = unat (num f) - n" using n(3) m by (simp add: unat_sub word_le_nat_alt)
  have "unat (head f + ?m) = ?h + n" using ok m n by (subst small_add) simp_all
  then have hd: "unat ((head f + ?m) mod capacity f) = (?h + n) mod ?c" by (simp add: unat_mod_distrib)
  have "contents ?f = drop n (contents f)"
    using n(3) by (intro nth_equalityI) (simp_all add: contents_def num hd mod_simps add.assoc less_diff_conv add.commute [of _ n] add.left_commute [of n])
  moreover have "fifo_ok ?f"
    using assms(1) ok num hd by (simp add: fifo_ok_def word_less_nat_alt word_le_nat_alt)
  ultimately show thesis
    using assms(2,3) ok(5) buf m n
    by (intro that [of n]) (simp_all add: fifo8_peek_buf_def fifo8_pop_buf_def fifo8_peekpop_buf_def Let_def)
qed

section \<open>The interface\<close>

text \<open>A bounded queue of bytes.\<close>

locale byte_queue =
  fixes push :: "'q \<Rightarrow> u8 \<Rightarrow> 'q option" and pop :: "'q \<Rightarrow> (u8 \<times> 'q) option"
    and abs :: "'q \<Rightarrow> u8 list" and inv :: "'q \<Rightarrow> bool" and bound :: "'q \<Rightarrow> nat"
  assumes push_ok: "inv q \<Longrightarrow> length (abs q) < bound q
      \<Longrightarrow> \<exists>q'. push q b = Some q' \<and> inv q' \<and> abs q' = abs q @ [b] \<and> bound q' = bound q"
    and push_full: "inv q \<Longrightarrow> bound q \<le> length (abs q) \<Longrightarrow> push q b = None"
    and pop_ok: "inv q \<Longrightarrow> abs q \<noteq> [] \<Longrightarrow> \<exists>q'. pop q = Some (hd (abs q), q') \<and> inv q' \<and> abs q' = tl (abs q) \<and> bound q' = bound q"
    and pop_empty: "inv q \<Longrightarrow> abs q = [] \<Longrightarrow> pop q = None"
begin

text \<open>A byte that goes through an empty queue.\<close>

lemma push_pop:
  assumes "inv q" and "abs q = []" and "0 < bound q"
  obtains q' q'' where "push q b = Some q'" and "pop q' = Some (b, q'')" and "inv q''" and "abs q'' = []" and "bound q'' = bound q"
    and "inv q'" and "abs q' = [b]"
proof -
  obtain q' where q': "push q b = Some q'" "inv q'" "abs q' = [b]" "bound q' = bound q"
    using push_ok [OF assms(1), of b] assms(2,3) by auto
  moreover obtain q'' where "pop q' = Some (b, q'')" "inv q''" "abs q'' = []" "bound q'' = bound q'"
    using pop_ok [OF q'(2)] q'(3) by auto
  ultimately show thesis using that by simp
qed

end

interpretation fifo: byte_queue fifo8_push fifo8_pop contents fifo_ok "\<lambda>f. unat (capacity f)"
proof
  fix f and b :: u8
  assume ok: "fifo_ok f"
  show "\<exists>f'. fifo8_push f b = Some f' \<and> fifo_ok f' \<and> contents f' = contents f @ [b] \<and> unat (capacity f') = unat (capacity f)"
    if "length (contents f) < unat (capacity f)"
    using push_queue [OF ok, of b] that by (auto simp: word_less_nat_alt)
  show "fifo8_push f b = None" if "unat (capacity f) \<le> length (contents f)"
    using that by (simp add: fifo8_push_def word_less_nat_alt)
  show "\<exists>f'. fifo8_pop f = Some (hd (contents f), f') \<and> fifo_ok f' \<and> contents f' = tl (contents f)
      \<and> unat (capacity f') = unat (capacity f)" if "contents f \<noteq> []"
  proof -
    have "num f \<noteq> 0" using that by (auto simp: contents_def)
    then show ?thesis using pop_queue [OF ok] by auto
  qed
  show "fifo8_pop f = None" if "contents f = []"
    using that unat_gt_0 [of "num f"] by (auto simp: contents_def fifo8_pop_def word_neq_0_conv)
qed

lemma fifo_tests:
  assumes "fifo_ok f"
  shows "fifo8_is_empty f \<longleftrightarrow> contents f = []" and "fifo8_is_full f \<longleftrightarrow> length (contents f) = unat (capacity f)"
    and "unat (fifo8_num_used f) = length (contents f)" and "unat (fifo8_num_free f) = unat (capacity f) - length (contents f)"
  using fifo_okD(3) [OF assms] unat_eq_zero [of "num f"]
  by (auto simp: fifo8_is_empty_def fifo8_is_full_def fifo8_num_used_def fifo8_num_free_def contents_def unat_sub word_le_nat_alt word_unat_eq_iff)

lemma fifo_created:
  "0 < cap \<Longrightarrow> cap < 2 ^ 31 \<Longrightarrow> fifo_ok (fifo8_create block cap) \<and> contents (fifo8_create block cap) = []"
  "fifo_ok f \<Longrightarrow> fifo_ok (fifo8_reset f) \<and> contents (fifo8_reset f) = []"
  by (auto simp: fifo_ok_def fifo8_create_def fifo8_reset_def contents_def word_less_nat_alt)

section \<open>Sequences of operations\<close>

datatype fifo_op = Push u8 | PushAll "u8 list" | Pop | Reset

text \<open>An operation returns the bytes it takes out; \<open>None\<close> is a failed assertion.\<close>

fun fifo_step :: "fifo_op \<Rightarrow> Fifo8 \<Rightarrow> (u8 list \<times> Fifo8) option" where
  "fifo_step (Push b) f = map_option (Pair []) (fifo8_push f b)"
| "fifo_step (PushAll bs) f = map_option (Pair []) (fifo8_push_all f bs)"
| "fifo_step Pop f = map_option (\<lambda>(b, f). ([b], f)) (fifo8_pop f)"
| "fifo_step Reset f = Some ([], fifo8_reset f)"

fun queue_step :: "nat \<Rightarrow> fifo_op \<Rightarrow> u8 list \<Rightarrow> (u8 list \<times> u8 list) option" where
  "queue_step n (Push b) q = (if length q < n then Some ([], q @ [b]) else None)"
| "queue_step n (PushAll bs) q = (if length q + length bs \<le> n then Some ([], q @ bs) else None)"
| "queue_step n Pop q = (case q of [] \<Rightarrow> None | b # q \<Rightarrow> Some ([b], q))"
| "queue_step n Reset q = Some ([], [])"

fun run_ops :: "('o \<Rightarrow> 's \<Rightarrow> (u8 list \<times> 's) option) \<Rightarrow> 'o list \<Rightarrow> 's \<Rightarrow> (u8 list \<times> 's) option" where
  "run_ops f [] s = Some ([], s)"
| "run_ops f (p # ps) s =
    (case f p s of None \<Rightarrow> None
     | Some (out, s) \<Rightarrow> map_option (\<lambda>(out', s). (out @ out', s)) (run_ops f ps s))"

lemma step_refines:
  assumes "fifo_ok f" and "\<forall>bs. p = PushAll bs \<longrightarrow> length bs < 2 ^ 31"
  shows "map_option (\<lambda>(out, f). (out, contents f)) (fifo_step p f) = queue_step (unat (capacity f)) p (contents f)
    \<and> (\<forall>out f'. fifo_step p f = Some (out, f') \<longrightarrow> fifo_ok f' \<and> capacity f' = capacity f)"
proof (cases p)
  case (Push b)
  then show ?thesis
    using fifo.push_ok [OF assms(1), of b] fifo.push_full [OF assms(1), of b]
    by (cases "length (contents f) < unat (capacity f)") (auto simp: word_unat_eq_iff)
next
  case (PushAll bs)
  have full: "fifo8_push_all f bs = None" if "\<not> unat (num f) + length bs \<le> unat (capacity f)"
  proof -
    have l: "unat (of_nat (length bs) :: u32) = length bs"
      using assms(2) PushAll by (simp add: unat_of_nat take_bit_nat_eq_self)
    have "unat (num f + of_nat (length bs)) = unat (num f) + length bs"
      using assms(2) PushAll l fifo_okD [OF assms(1)] by (subst small_add) simp_all
    then show ?thesis using that by (simp add: fifo8_push_all_def word_le_nat_alt)
  qed
  then show ?thesis
    using push_all_queue [OF assms(1), of bs] PushAll by (cases "unat (num f) + length bs \<le> unat (capacity f)") auto
next
  case Pop
  then show ?thesis
    using fifo.pop_ok [OF assms(1)] fifo.pop_empty [OF assms(1)] by (cases "contents f") (auto simp: word_unat_eq_iff)
next
  case Reset
  then show ?thesis using fifo_created(2) [OF assms(1)] by (simp add: fifo8_reset_def)
qed

lemma run_refines:
  "fifo_ok f \<Longrightarrow> \<forall>bs. PushAll bs \<in> set ps \<longrightarrow> length bs < 2 ^ 31 \<Longrightarrow>
    map_option (\<lambda>(out, f). (out, contents f)) (run_ops fifo_step ps f) = run_ops (queue_step (unat (capacity f))) ps (contents f)"
proof (induction ps arbitrary: f)
  case (Cons p ps)
  have s: "map_option (\<lambda>(out, f). (out, contents f)) (fifo_step p f) = queue_step (unat (capacity f)) p (contents f)"
    "\<And>out f'. fifo_step p f = Some (out, f') \<Longrightarrow> fifo_ok f' \<and> capacity f' = capacity f"
    using step_refines [OF Cons.prems(1), of p] Cons.prems(2) by auto
  show ?case
  proof (cases "fifo_step p f")
    case None
    then show ?thesis using s(1) by simp
  next
    case (Some r)
    obtain out f' where r: "r = (out, f')" by (cases r)
    then have ok: "fifo_ok f'" "capacity f' = capacity f" using s(2) [of out f'] Some by auto
    have "queue_step (unat (capacity f)) p (contents f) = Some (out, contents f')" using s(1) Some r by simp
    then show ?thesis
      using Some r Cons.IH [OF ok(1), symmetric] Cons.prems(2) ok(2)
      by (cases "run_ops fifo_step ps f'") auto
  qed
qed simp

section \<open>Properties\<close>

text \<open>(C19) The circular buffer implements a bounded queue: any sequence of operations takes out the same bytes as on
  a list, ends with the same contents, and fails an assertion exactly where the list is full or empty. The
  blocks pushed at once are shorter than \<open>2 ^ 31\<close> bytes.\<close>

theorem fifo_refines_queue:
  assumes "fifo_ok f" and "\<forall>bs. PushAll bs \<in> set ps \<longrightarrow> length bs < 2 ^ 31"
  shows "map_option (\<lambda>(out, f). (out, contents f)) (run_ops fifo_step ps f)
    = run_ops (queue_step (unat (capacity f))) ps (contents f)"
  using assms by (rule run_refines)

theorem fifo_refines_queue_witness:
  "map_option (\<lambda>(out, f). (out, contents f)) (run_ops fifo_step [Push 1, PushAll [2, 3], Pop, Pop, PushAll [4, 5]]
      (fifo8_create (\<lambda>_. 0) 3)) = Some ([1, 2], [3, 4, 5])"
proof -
  have "fifo_ok (fifo8_create (\<lambda>_. 0) 3) \<and> contents (fifo8_create (\<lambda>_. 0) 3) = []" by (rule fifo_created) simp_all
  then show ?thesis
    using fifo_refines_queue [of "fifo8_create (\<lambda>_. 0) 3" "[Push 1, PushAll [2, 3], Pop, Pop, PushAll [4, 5]]"]
    by (simp add: fifo8_create_def)
qed

end
