(* ===== verification/Dev_Uart.thy ===== *)
theory Dev_Uart
  imports Emu_Prelude
begin

text \<open>
  What a guest relies on of a serial port, as an interface: the locale \<open>uart\<close>, and the driver loop that polls the line status, reads
  a byte when there is one and sends it back. Both serial ports of the emulator (\<open>device/serial.c\<close>, \<open>device/serial_plus.c\<close>)
  provide the interface; the lemmas on the driver are proved here once.
\<close>

text \<open>The results of the coming \<open>read\<close> calls on the terminal, and the bytes among them.\<close>

datatype host_read = Byte u8 | Again | Eof | ReadError

primrec host_bytes :: "host_read list \<Rightarrow> u8 list" where
  "host_bytes [] = []"
| "host_bytes (r # rs) = (case r of Byte b \<Rightarrow> b # host_bytes rs | _ \<Rightarrow> host_bytes rs)"

text \<open>One round of the driver: \<open>poll\<close> is what the emulator does between two instructions, \<open>status\<close> and \<open>data\<close> are the guest's reads of
  the line status and the data register, \<open>send\<close> its write of a byte.\<close>

definition getchar :: "('s \<Rightarrow> (unit, 's) outcome) \<Rightarrow> ('s \<Rightarrow> (u64, 's) outcome) \<Rightarrow> ('s \<Rightarrow> (u64, 's) outcome) \<Rightarrow> 's \<Rightarrow> (u8 list, 's) outcome" where
  "getchar poll status dat s =
    bind_out (poll s) (\<lambda>_ s. bind_out (status s) (\<lambda>l s.
      if l AND 1 \<noteq> 0 then bind_out (dat s) (\<lambda>b. Ret [ucast b]) else Ret [] s))"

fun write_all :: "(u8 \<Rightarrow> 's \<Rightarrow> (unit, 's) outcome) \<Rightarrow> u8 list \<Rightarrow> 's \<Rightarrow> (unit, 's) outcome" where
  "write_all send [] s = Ret () s"
| "write_all send (b # bs) s = bind_out (send b s) (\<lambda>_. write_all send bs)"

fun echo :: "('s \<Rightarrow> (unit, 's) outcome) \<Rightarrow> ('s \<Rightarrow> (u64, 's) outcome) \<Rightarrow> ('s \<Rightarrow> (u64, 's) outcome) \<Rightarrow> (u8 \<Rightarrow> 's \<Rightarrow> (unit, 's) outcome)
    \<Rightarrow> nat \<Rightarrow> 's \<Rightarrow> (unit, 's) outcome" where
  "echo poll status dat send 0 s = Ret () s"
| "echo poll status dat send (Suc n) s =
    bind_out (getchar poll status dat s) (\<lambda>bs s. bind_out (write_all send bs s) (\<lambda>_. echo poll status dat send n))"

locale uart =
  fixes poll :: "'s \<Rightarrow> (unit, 's) outcome" and status :: "'s \<Rightarrow> (u64, 's) outcome" and dat :: "'s \<Rightarrow> (u64, 's) outcome"
    and send :: "u8 \<Rightarrow> 's \<Rightarrow> (unit, 's) outcome" and inv :: "'s \<Rightarrow> bool" and ready :: "'s \<Rightarrow> bool"
    and pending :: "'s \<Rightarrow> u8 list" and out :: "'s \<Rightarrow> u8 list"
  assumes poll_ok: "inv s \<Longrightarrow> returns (poll s) (\<lambda>_ t. inv t \<and> pending t = pending s \<and> out t = out s)"
    and status_ok: "inv s \<Longrightarrow> returns (status s) (\<lambda>l t. inv t \<and> pending t = pending s \<and> out t = out s \<and> (l AND 1 \<noteq> 0 \<longrightarrow> ready t))"
    and dat_ok: "inv s \<Longrightarrow> ready s \<Longrightarrow> returns (dat s) (\<lambda>r t. inv t \<and> pending s = ucast r # pending t \<and> out t = out s)"
    and send_ok: "inv s \<Longrightarrow> returns (send b s) (\<lambda>_ t. inv t \<and> pending t = pending s \<and> out t = out s @ [b])"
begin

lemma getchar_ok:
  assumes "inv s"
  shows "returns (getchar poll status dat s) (\<lambda>bs t. inv t \<and> pending s = bs @ pending t \<and> out t = out s)"
  unfolding getchar_def
proof (rule returns_seq [OF poll_ok [OF assms]], rule returns_seq [OF status_ok])
  fix u l v
  assume u: "inv u \<and> pending u = pending s \<and> out u = out s"
    and v: "inv v \<and> pending v = pending u \<and> out v = out u \<and> (l AND 1 \<noteq> 0 \<longrightarrow> ready v)"
  show "returns (if l AND 1 \<noteq> 0 then bind_out (dat v) (\<lambda>b. Ret [ucast b]) else Ret [] v)
      (\<lambda>bs t. inv t \<and> pending s = bs @ pending t \<and> out t = out s)"
    using dat_ok [of v] u v by (auto simp: returns_bind elim: returns_mono)
qed simp

lemma write_all_ok: "inv s \<Longrightarrow> returns (write_all send bs s) (\<lambda>_ t. inv t \<and> pending t = pending s \<and> out t = out s @ bs)"
proof (induction bs arbitrary: s)
  case (Cons b bs)
  have u: "returns (write_all send bs u) (\<lambda>_ t. inv t \<and> pending t = pending s \<and> out t = out s @ b # bs)"
    if "inv u \<and> pending u = pending s \<and> out u = out s @ [b]" for u
    using Cons.IH [of u] that by simp
  then show ?case using returns_seq [OF send_ok [OF Cons.prems, of b] u] by simp
qed simp

lemma echo_ok:
  "inv s \<Longrightarrow> returns (echo poll status dat send n s) (\<lambda>_ t. \<exists>bs. pending s = bs @ pending t \<and> out t = out s @ bs)"
proof (induction n arbitrary: s)
  case (Suc n)
  show ?case
    unfolding echo.simps
  proof (rule returns_seq [OF getchar_ok [OF Suc.prems]], rule returns_seq [OF write_all_ok])
    fix bs u v
    assume u: "inv u \<and> pending s = bs @ pending u \<and> out u = out s" and v: "inv v \<and> pending v = pending u \<and> out v = out u @ bs"
    have "returns (echo poll status dat send n v) (\<lambda>_ t. \<exists>cs. pending v = cs @ pending t \<and> out t = out v @ cs)"
      using v by (intro Suc.IH) simp
    then show "returns (echo poll status dat send n v) (\<lambda>_ t. \<exists>cs. pending s = cs @ pending t \<and> out t = out s @ cs)"
      by (rule returns_mono) (use u v in auto)
  qed simp
qed simp

end

end
