(* ===== verification/Dev_Serial.thy ===== *)
theory Dev_Serial
  imports Dev_Fifo Dev_Uart LA_Exception
begin

text \<open>
  The 16550A serial port of \<open>device/serial_plus.c\<close>, which the option \<open>serial_plus\<close> puts at 0x1fe001e0 with interrupt line 7
  (\<open>main.c\<close>).

  \<^item> \<open>SerialState\<close> has the fields of the struct that the code uses. \<open>serial_world\<close> adds what the port reaches: the
    interrupt status register of the CPU (\<open>qemu_irq\<close> calls \<open>loongarch_cpu_set_irq\<close>), the bytes written to the terminal, and the
    results of the coming \<open>read\<close> calls on the terminal; an empty list is \<open>EAGAIN\<close>.
  \<^item> \<open>write\<close> on the terminal succeeds: the code reports an error and goes on. The modem lines read 0, as the calls to the
    host that would read them are commented out in the source.
  \<^item> A failed assertion is \<open>Crash\<close>. \<open>serial_xmit\<close> is the do-while loop, with a termination proof.

  The lemmas show that the assertions never fail, that every byte written is sent, that what was received is read in
  order, and that the interrupt line shows what the identification register says.
\<close>

section \<open>Registers\<close>

abbreviation UART_LCR_DLAB :: u8 where "UART_LCR_DLAB \<equiv> 0x80"
abbreviation UART_IER_MSI :: u8 where "UART_IER_MSI \<equiv> 0x08"
abbreviation UART_IER_RLSI :: u8 where "UART_IER_RLSI \<equiv> 0x04"
abbreviation UART_IER_THRI :: u8 where "UART_IER_THRI \<equiv> 0x02"
abbreviation UART_IER_RDI :: u8 where "UART_IER_RDI \<equiv> 0x01"
abbreviation UART_IIR_NO_INT :: u8 where "UART_IIR_NO_INT \<equiv> 0x01"
abbreviation UART_IIR_ID :: u8 where "UART_IIR_ID \<equiv> 0x06"
abbreviation UART_IIR_MSI :: u8 where "UART_IIR_MSI \<equiv> 0x00"
abbreviation UART_IIR_THRI :: u8 where "UART_IIR_THRI \<equiv> 0x02"
abbreviation UART_IIR_RDI :: u8 where "UART_IIR_RDI \<equiv> 0x04"
abbreviation UART_IIR_RLSI :: u8 where "UART_IIR_RLSI \<equiv> 0x06"
abbreviation UART_IIR_CTI :: u8 where "UART_IIR_CTI \<equiv> 0x0c"
abbreviation UART_IIR_FE :: u8 where "UART_IIR_FE \<equiv> 0xc0"
abbreviation UART_MCR_LOOP :: u8 where "UART_MCR_LOOP \<equiv> 0x10"
abbreviation UART_MCR_OUT2 :: u8 where "UART_MCR_OUT2 \<equiv> 0x08"
abbreviation UART_MSR_DCD :: u8 where "UART_MSR_DCD \<equiv> 0x80"
abbreviation UART_MSR_RI :: u8 where "UART_MSR_RI \<equiv> 0x40"
abbreviation UART_MSR_DSR :: u8 where "UART_MSR_DSR \<equiv> 0x20"
abbreviation UART_MSR_CTS :: u8 where "UART_MSR_CTS \<equiv> 0x10"
abbreviation UART_MSR_TERI :: u8 where "UART_MSR_TERI \<equiv> 0x04"
abbreviation UART_MSR_ANY_DELTA :: u8 where "UART_MSR_ANY_DELTA \<equiv> 0x0f"
abbreviation UART_LSR_TEMT :: u8 where "UART_LSR_TEMT \<equiv> 0x40"
abbreviation UART_LSR_THRE :: u8 where "UART_LSR_THRE \<equiv> 0x20"
abbreviation UART_LSR_BI :: u8 where "UART_LSR_BI \<equiv> 0x10"
abbreviation UART_LSR_OE :: u8 where "UART_LSR_OE \<equiv> 0x02"
abbreviation UART_LSR_DR :: u8 where "UART_LSR_DR \<equiv> 0x01"
abbreviation UART_LSR_INT_ANY :: u8 where "UART_LSR_INT_ANY \<equiv> 0x1e"
abbreviation UART_FCR_XFR :: u8 where "UART_FCR_XFR \<equiv> 0x04"
abbreviation UART_FCR_RFR :: u8 where "UART_FCR_RFR \<equiv> 0x02"
abbreviation UART_FCR_FE :: u8 where "UART_FCR_FE \<equiv> 0x01"

definition UART_FIFO_LENGTH :: u32 where "UART_FIFO_LENGTH = 16"

record SerialState =
  divider :: u16
  rbr :: u8
  thr :: u8
  tsr :: u8
  ier :: u8
  iir :: u8
  lcr :: u8
  mcr :: u8
  lsr :: u8
  msr :: u8
  scr :: u8
  fcr :: u8
  thr_ipending :: bool
  last_break_enable :: bool
  tsr_retry :: u32
  last_xmit_ts :: u64
  recv_fifo :: Fifo8
  xmit_fifo :: Fifo8
  recv_fifo_itl :: u8
  timeout_ipending :: bool
  char_transmit_time :: u64
  poll_msl :: int

record serial_world = SerialState +
  s_estat :: u64
  s_stdin :: "host_read list"
  s_stdout :: "u8 list"

text \<open>The port as an operation on its world: \<open>qemu_set_irq\<close> of \<open>irq.h\<close> for line 7.\<close>

definition qemu_set_irq :: "int \<Rightarrow> serial_world \<Rightarrow> (unit, serial_world) outcome" where
  "qemu_set_irq level s =
    (case estat_set_irq (s_estat s) 7 level of None \<Rightarrow> Crash | Some e \<Rightarrow> Ret () (s\<lparr>s_estat := e\<rparr>))"

definition or_crash :: "'a option \<Rightarrow> ('a \<Rightarrow> ('b, 's) outcome) \<Rightarrow> ('b, 's) outcome" where
  "or_crash v f = (case v of None \<Rightarrow> Crash | Some x \<Rightarrow> f x)"

section \<open>Interrupts\<close>

definition recv_fifo_put :: "u8 \<Rightarrow> serial_world \<Rightarrow> (unit, serial_world) outcome" where
  "recv_fifo_put chr s =
    (if \<not> fifo8_is_full (recv_fifo s)
     then or_crash (fifo8_push (recv_fifo s) chr) (\<lambda>q. Ret () (s\<lparr>recv_fifo := q\<rparr>))
     else Ret () (s\<lparr>lsr := lsr s OR UART_LSR_OE\<rparr>))"

definition pending_iir :: "serial_world \<Rightarrow> u8" where
  "pending_iir s =
    (if ier s AND UART_IER_RLSI \<noteq> 0 \<and> lsr s AND UART_LSR_INT_ANY \<noteq> 0 then UART_IIR_RLSI
     else if ier s AND UART_IER_RDI \<noteq> 0 \<and> timeout_ipending s then UART_IIR_CTI
     else if ier s AND UART_IER_RDI \<noteq> 0 \<and> lsr s AND UART_LSR_DR \<noteq> 0
             \<and> (fcr s AND UART_FCR_FE = 0 \<or> num (recv_fifo s) \<ge> ucast (recv_fifo_itl s)) then UART_IIR_RDI
     else if ier s AND UART_IER_THRI \<noteq> 0 \<and> thr_ipending s then UART_IIR_THRI
     else if ier s AND UART_IER_MSI \<noteq> 0 \<and> msr s AND UART_MSR_ANY_DELTA \<noteq> 0 then UART_IIR_MSI
     else UART_IIR_NO_INT)"

definition serial_update_irq :: "serial_world \<Rightarrow> (unit, serial_world) outcome" where
  "serial_update_irq s =
    (let tmp_iir = pending_iir s;
         s = s\<lparr>iir := tmp_iir OR (iir s AND 0xf0)\<rparr>
     in if tmp_iir \<noteq> UART_IIR_NO_INT then qemu_set_irq 1 s else qemu_set_irq 0 s)"

definition serial_update_msl :: "serial_world \<Rightarrow> (unit, serial_world) outcome" where
  "serial_update_msl s =
    (let omsr = msr s;
         s = s\<lparr>msr := msr s AND NOT UART_MSR_CTS\<rparr>;
         s = s\<lparr>msr := msr s AND NOT UART_MSR_DSR\<rparr>;
         s = s\<lparr>msr := msr s AND NOT UART_MSR_DCD\<rparr>;
         s = s\<lparr>msr := msr s AND NOT UART_MSR_RI\<rparr>
     in if msr s \<noteq> omsr
        then let s = s\<lparr>msr := msr s OR (drop_bit 4 (msr s) XOR drop_bit 4 omsr)\<rparr>;
                 s = (if msr s AND UART_MSR_TERI \<noteq> 0 \<and> omsr AND UART_MSR_RI = 0
                      then s\<lparr>msr := msr s AND NOT UART_MSR_TERI\<rparr> else s)
             in serial_update_irq s
        else Ret () s)"

section \<open>Receive and transmit\<close>

fun recv_all :: "u8 list \<Rightarrow> serial_world \<Rightarrow> (unit, serial_world) outcome" where
  "recv_all [] s = Ret () s"
| "recv_all (b # bs) s = bind_out (recv_fifo_put b s) (\<lambda>_. recv_all bs)"

definition serial_receive1 :: "u8 list \<Rightarrow> serial_world \<Rightarrow> (unit, serial_world) outcome" where
  "serial_receive1 buf s =
    (if fcr s AND UART_FCR_FE \<noteq> 0
     then bind_out (recv_all buf s) (\<lambda>_ s. serial_update_irq (s\<lparr>lsr := lsr s OR UART_LSR_DR\<rparr>))
     else let s = (if lsr s AND UART_LSR_DR \<noteq> 0 then s\<lparr>lsr := lsr s OR UART_LSR_OE\<rparr> else s)
          in or_crash (case buf of [] \<Rightarrow> None | b # _ \<Rightarrow> Some b) (\<lambda>b.
               serial_update_irq (s\<lparr>rbr := b, lsr := lsr s OR UART_LSR_DR\<rparr>)))"

text \<open>The next byte into the shift register.\<close>

definition load_tsr :: "serial_world \<Rightarrow> (unit, serial_world) outcome" where
  "load_tsr s =
    (if lsr s AND UART_LSR_THRE \<noteq> 0 then Crash
     else bind_out
       (if fcr s AND UART_FCR_FE \<noteq> 0
        then or_crash (fifo8_pop (xmit_fifo s)) (\<lambda>(b, q).
          let s = s\<lparr>tsr := b, xmit_fifo := q\<rparr>
          in Ret () (if num q = 0 then s\<lparr>lsr := lsr s OR UART_LSR_THRE\<rparr> else s))
        else Ret () (s\<lparr>tsr := thr s, lsr := lsr s OR UART_LSR_THRE\<rparr>)) (\<lambda>_ s.
       if lsr s AND UART_LSR_THRE \<noteq> 0 \<and> \<not> thr_ipending s then serial_update_irq (s\<lparr>thr_ipending := True\<rparr>)
       else Ret () s))"

definition xmit_byte :: "serial_world \<Rightarrow> (unit, serial_world) outcome" where
  "xmit_byte s =
    (if lsr s AND UART_LSR_TEMT \<noteq> 0 then Crash
     else bind_out (if tsr_retry s = 0 then load_tsr s else Ret () s) (\<lambda>_ s.
       bind_out (if mcr s AND UART_MCR_LOOP \<noteq> 0 then serial_receive1 [tsr s] s
                 else Ret () (s\<lparr>s_stdout := s_stdout s @ [tsr s]\<rparr>)) (\<lambda>_ s.
         Ret () (s\<lparr>tsr_retry := 0\<rparr>))))"

text \<open>Raising and lowering the line.\<close>

definition irq_done :: "serial_world \<Rightarrow> serial_world" where
  "irq_done s = s\<lparr>iir := pending_iir s OR (iir s AND 0xf0),
    s_estat := deposit64 (s_estat s) 7 1 (of_bool (pending_iir s \<noteq> UART_IIR_NO_INT))\<rparr>"

lemma update_irq [simp]: "serial_update_irq s = Ret () (irq_done s)"
  by (simp add: serial_update_irq_def qemu_set_irq_def estat_set_irq_def N_IRQS_def irq_done_def Let_def)

lemma irq_done_fields [simp]:
  "ier (irq_done s) = ier s" "lcr (irq_done s) = lcr s" "mcr (irq_done s) = mcr s" "lsr (irq_done s) = lsr s"
  "msr (irq_done s) = msr s" "fcr (irq_done s) = fcr s" "thr_ipending (irq_done s) = thr_ipending s"
  "timeout_ipending (irq_done s) = timeout_ipending s" "tsr_retry (irq_done s) = tsr_retry s" "tsr (irq_done s) = tsr s"
  "thr (irq_done s) = thr s" "rbr (irq_done s) = rbr s" "recv_fifo (irq_done s) = recv_fifo s"
  "xmit_fifo (irq_done s) = xmit_fifo s" "recv_fifo_itl (irq_done s) = recv_fifo_itl s" "poll_msl (irq_done s) = poll_msl s"
  "s_stdout (irq_done s) = s_stdout s" "s_stdin (irq_done s) = s_stdin s" "divider (irq_done s) = divider s"
  "scr (irq_done s) = scr s"
  by (simp_all add: irq_done_def)

lemma mask_bit: "n < 8 \<Longrightarrow> (w :: u8) AND 2 ^ n = 0 \<longleftrightarrow> \<not> bit w n"
  by (simp add: and_exp_eq_0_iff_not_bit)

lemma uart_bits:
  "(w :: u8) AND 0x01 = 0 \<longleftrightarrow> \<not> bit w 0" "w AND 0x02 = 0 \<longleftrightarrow> \<not> bit w 1" "w AND 0x04 = 0 \<longleftrightarrow> \<not> bit w 2"
  "w AND 0x08 = 0 \<longleftrightarrow> \<not> bit w 3" "w AND 0x10 = 0 \<longleftrightarrow> \<not> bit w 4" "w AND 0x20 = 0 \<longleftrightarrow> \<not> bit w 5"
  "w AND 0x40 = 0 \<longleftrightarrow> \<not> bit w 6" "w AND 0x80 = 0 \<longleftrightarrow> \<not> bit w 7"
  using mask_bit [of 0 w] mask_bit [of 1 w] mask_bit [of 2 w] mask_bit [of 3 w] mask_bit [of 4 w] mask_bit [of 5 w]
    mask_bit [of 6 w] mask_bit [of 7 w] by simp_all

lemma recv_all_frame:
  "recv_all bs s = Ret () t \<Longrightarrow> xmit_fifo t = xmit_fifo s \<and> fcr t = fcr s \<and> tsr_retry t = tsr_retry s \<and> bit (lsr t) 5 = bit (lsr s) 5"
proof (induction bs arbitrary: s)
  case (Cons b bs)
  then obtain u where u: "recv_fifo_put b s = Ret () u" "recv_all bs u = Ret () t"
    by (cases "recv_fifo_put b s") auto
  have "xmit_fifo u = xmit_fifo s \<and> fcr u = fcr s \<and> tsr_retry u = tsr_retry s \<and> bit (lsr u) 5 = bit (lsr s) 5"
    using u(1) by (auto simp: recv_fifo_put_def or_crash_def bit_simps split: if_splits option.splits)
  then show ?case using Cons.IH [OF u(2)] by simp
qed simp

lemma receive1_frame:
  "serial_receive1 bs s = Ret () t \<Longrightarrow> xmit_fifo t = xmit_fifo s \<and> fcr t = fcr s \<and> tsr_retry t = tsr_retry s \<and> bit (lsr t) 5 = bit (lsr s) 5"
  using recv_all_frame [of bs s]
  by (cases "recv_all bs s") (auto simp: serial_receive1_def or_crash_def Let_def bit_simps split: if_splits list.splits)

text \<open>While the loop goes on, the queue gets shorter.\<close>

lemma pop_shrinks: "fifo8_pop f = Some (b, g) \<Longrightarrow> unat (num g) < unat (num f)"
  by (auto simp: fifo8_pop_def word_neq_0_conv unat_minus_one unat_gt_0 split: if_splits)

lemma load_tsr_shrinks:
  assumes "load_tsr s = Ret () t"
  shows "tsr_retry t = tsr_retry s" and "mcr t = mcr s"
    and "lsr t AND UART_LSR_THRE \<noteq> 0 \<or> unat (num (xmit_fifo t)) < unat (num (xmit_fifo s))"
  using assms pop_shrinks [of "xmit_fifo s"]
  by (auto simp: load_tsr_def or_crash_def Let_def bind_out_def split: if_splits option.splits)

lemma xmit_byte_shrinks:
  assumes "xmit_byte s = Ret () t" and "lsr t AND UART_LSR_THRE = 0"
  shows "tsr_retry t = 0 \<and> (tsr_retry s \<noteq> 0 \<and> num (xmit_fifo t) = num (xmit_fifo s)
    \<or> unat (num (xmit_fifo t)) < unat (num (xmit_fifo s)))"
proof -
  obtain u where u: "(if tsr_retry s = 0 then load_tsr s else Ret () s) = Ret () u"
    using assms(1) by (cases "if tsr_retry s = 0 then load_tsr s else Ret () s") (auto simp: xmit_byte_def split: if_splits)
  obtain v where v: "(if mcr u AND UART_MCR_LOOP \<noteq> 0 then serial_receive1 [tsr u] u
      else Ret () (u\<lparr>s_stdout := s_stdout u @ [tsr u]\<rparr>)) = Ret () v" "t = v\<lparr>tsr_retry := 0\<rparr>"
    using assms(1) u by (cases "if mcr u AND UART_MCR_LOOP \<noteq> 0 then serial_receive1 [tsr u] u
      else Ret () (u\<lparr>s_stdout := s_stdout u @ [tsr u]\<rparr>)") (auto simp: xmit_byte_def split: if_splits)
  have f: "xmit_fifo v = xmit_fifo u \<and> bit (lsr v) 5 = bit (lsr u) 5"
    using v(1) receive1_frame [of "[tsr u]" u v] by (auto split: if_splits)
  show ?thesis
    using u v(2) f assms(2) load_tsr_shrinks(3) [of s u] by (auto simp: uart_bits split: if_splits)
qed

lemma bind_out_cong [fundef_cong]:
  "m = m' \<Longrightarrow> (\<And>v s. m' = Ret v s \<Longrightarrow> f v s = g v s) \<Longrightarrow> bind_out m f = bind_out m' g"
  by (cases m') simp_all

function serial_xmit :: "serial_world \<Rightarrow> (unit, serial_world) outcome" where
  "serial_xmit s =
    bind_out (xmit_byte s) (\<lambda>_ s.
      if lsr s AND UART_LSR_THRE = 0 then serial_xmit s
      else Ret () (s\<lparr>last_xmit_ts := 0, lsr := lsr s OR UART_LSR_TEMT\<rparr>))"
  by pat_completeness auto

termination serial_xmit
proof (relation "measures [\<lambda>s. unat (num (xmit_fifo s)), \<lambda>s. of_bool (tsr_retry s \<noteq> 0)]")
  fix s t :: serial_world and v
  assume "xmit_byte s = Ret v t" "lsr t AND UART_LSR_THRE = 0"
  then show "(t, s) \<in> measures [\<lambda>s. unat (num (xmit_fifo s)), \<lambda>s. of_bool (tsr_retry s \<noteq> 0)]"
    using xmit_byte_shrinks [of s t] by auto
qed simp

declare serial_xmit.simps [simp del]

section \<open>The registers as the CPU sees them\<close>

definition serial_write_fcr :: "u8 \<Rightarrow> serial_world \<Rightarrow> serial_world" where
  "serial_write_fcr val s =
    (let s = s\<lparr>fcr := val\<rparr>
     in if val AND UART_FCR_FE \<noteq> 0
        then let s = s\<lparr>iir := iir s OR UART_IIR_FE\<rparr>; itl = val AND 0xc0
             in s\<lparr>recv_fifo_itl := if itl = 0x00 then 1 else if itl = 0x40 then 4 else if itl = 0x80 then 8 else 14\<rparr>
        else s\<lparr>iir := iir s AND NOT UART_IIR_FE\<rparr>)"

definition write_thr :: "u64 \<Rightarrow> serial_world \<Rightarrow> (unit, serial_world) outcome" where
  "write_thr val s =
    (let s = s\<lparr>thr := ucast val\<rparr>
     in bind_out
       (if fcr s AND UART_FCR_FE \<noteq> 0
        then bind_out
          (if fifo8_is_full (xmit_fifo s) then or_crash (fifo8_pop (xmit_fifo s)) (\<lambda>(_, q). Ret () (s\<lparr>xmit_fifo := q\<rparr>))
           else Ret () s) (\<lambda>_ s. or_crash (fifo8_push (xmit_fifo s) (thr s)) (\<lambda>q. Ret () (s\<lparr>xmit_fifo := q\<rparr>)))
        else Ret () s) (\<lambda>_ s.
       let s = s\<lparr>thr_ipending := False, lsr := (lsr s AND NOT UART_LSR_THRE) AND NOT UART_LSR_TEMT\<rparr>
       in bind_out (serial_update_irq s) (\<lambda>_ s. if tsr_retry s = 0 then serial_xmit s else Ret () s)))"

definition write_ier :: "u64 \<Rightarrow> serial_world \<Rightarrow> (unit, serial_world) outcome" where
  "write_ier val s =
    (let changed = (ier s XOR ucast val) AND 0x0f;
         s = s\<lparr>ier := ucast val AND 0x0f\<rparr>
     in bind_out
       (if changed AND UART_IER_MSI \<noteq> 0 \<and> poll_msl s \<ge> 0
        then if ier s AND UART_IER_MSI \<noteq> 0 then serial_update_msl (s\<lparr>poll_msl := 1\<rparr>) else Ret () (s\<lparr>poll_msl := 0\<rparr>)
        else Ret () s) (\<lambda>_ s.
       let s = (if changed AND UART_IER_THRI \<noteq> 0
                then s\<lparr>thr_ipending := (ier s AND UART_IER_THRI \<noteq> 0 \<and> lsr s AND UART_LSR_THRE \<noteq> 0)\<rparr> else s)
       in if changed \<noteq> 0 then serial_update_irq s else Ret () s))"

definition write_fcr :: "u64 \<Rightarrow> serial_world \<Rightarrow> (unit, serial_world) outcome" where
  "write_fcr v s =
    (let val = (ucast v :: u8);
         val = (if (val XOR fcr s) AND UART_FCR_FE \<noteq> 0 then val OR (UART_FCR_XFR OR UART_FCR_RFR) else val);
         s = (if val AND UART_FCR_RFR \<noteq> 0
              then s\<lparr>lsr := lsr s AND NOT (UART_LSR_DR OR UART_LSR_BI), timeout_ipending := False,
                     recv_fifo := fifo8_reset (recv_fifo s)\<rparr> else s);
         s = (if val AND UART_FCR_XFR \<noteq> 0
              then s\<lparr>lsr := lsr s OR UART_LSR_THRE, thr_ipending := True, xmit_fifo := fifo8_reset (xmit_fifo s)\<rparr> else s)
     in serial_update_irq (serial_write_fcr (val AND 0xc9) s))"

definition serial_plus_ioport_write :: "u64 \<Rightarrow> u64 \<Rightarrow> u32 \<Rightarrow> serial_world \<Rightarrow> (unit, serial_world) outcome" where
  "serial_plus_ioport_write addr val sz s =
    (let addr = addr AND 7 in
     if addr = 0 then
       if lcr s AND UART_LCR_DLAB \<noteq> 0
       then Ret () (s\<lparr>divider := if sz = 1 then (divider s AND 0xff00) OR ucast val else ucast val\<rparr>)
       else write_thr val s
     else if addr = 1 then
       if lcr s AND UART_LCR_DLAB \<noteq> 0
       then Ret () (s\<lparr>divider := (divider s AND 0x00ff) OR ucast (push_bit 8 val)\<rparr>)
       else write_ier val s
     else if addr = 2 then write_fcr val s
     else if addr = 3 then Ret () (s\<lparr>lcr := ucast val, last_break_enable := bit val 6\<rparr>)
     else if addr = 4 then Ret () (s\<lparr>mcr := ucast val AND 0x1f\<rparr>)
     else if addr = 7 then Ret () (s\<lparr>scr := ucast val\<rparr>)
     else Ret () s)"

definition read_rbr :: "serial_world \<Rightarrow> (u8, serial_world) outcome" where
  "read_rbr s =
    bind_out
      (if fcr s AND UART_FCR_FE \<noteq> 0
       then bind_out (if fifo8_is_empty (recv_fifo s) then Ret 0 s
                      else or_crash (fifo8_pop (recv_fifo s)) (\<lambda>(b, q). Ret b (s\<lparr>recv_fifo := q\<rparr>))) (\<lambda>b s.
              let s = (if num (recv_fifo s) = 0 then s\<lparr>lsr := lsr s AND NOT (UART_LSR_DR OR UART_LSR_BI)\<rparr> else s)
              in Ret b (s\<lparr>timeout_ipending := False\<rparr>))
       else Ret (rbr s) (s\<lparr>lsr := lsr s AND NOT (UART_LSR_DR OR UART_LSR_BI)\<rparr>)) (\<lambda>b s.
      bind_out (serial_update_irq s) (\<lambda>_. Ret b))"

definition read_msr :: "serial_world \<Rightarrow> (u8, serial_world) outcome" where
  "read_msr s =
    (if mcr s AND UART_MCR_LOOP \<noteq> 0
     then Ret (push_bit 4 (mcr s AND 0x0c) OR push_bit 3 (mcr s AND 0x02) OR push_bit 5 (mcr s AND 0x01)) s
     else bind_out (if poll_msl s \<ge> 0 then serial_update_msl s else Ret () s) (\<lambda>_ s.
       let ret = msr s
       in if msr s AND UART_MSR_ANY_DELTA \<noteq> 0
          then bind_out (serial_update_irq (s\<lparr>msr := msr s AND 0xf0\<rparr>)) (\<lambda>_. Ret ret) else Ret ret s))"

definition serial_plus_ioport_read :: "u64 \<Rightarrow> u32 \<Rightarrow> serial_world \<Rightarrow> (u64, serial_world) outcome" where
  "serial_plus_ioport_read addr sz s =
    (let addr = addr AND 7 in
     bind_out
      (if addr = 0 then
         if lcr s AND UART_LCR_DLAB \<noteq> 0 then Ret (ucast (divider s)) s else read_rbr s
       else if addr = 1 then
         Ret (if lcr s AND UART_LCR_DLAB \<noteq> 0 then ucast (drop_bit 8 (divider s)) else ier s) s
       else if addr = 2 then
         let ret = iir s
         in if ret AND UART_IIR_ID = UART_IIR_THRI
            then bind_out (serial_update_irq (s\<lparr>thr_ipending := False\<rparr>)) (\<lambda>_. Ret ret) else Ret ret s
       else if addr = 3 then Ret (lcr s) s
       else if addr = 4 then Ret (mcr s) s
       else if addr = 5 then
         let ret = lsr s
         in if lsr s AND (UART_LSR_BI OR UART_LSR_OE) \<noteq> 0
            then bind_out (serial_update_irq (s\<lparr>lsr := lsr s AND NOT (UART_LSR_BI OR UART_LSR_OE)\<rparr>)) (\<lambda>_. Ret ret)
            else Ret ret s
       else if addr = 6 then read_msr s
       else Ret (scr s) s) (\<lambda>ret. Ret (ucast ret)))"

section \<open>Input from the terminal and reset\<close>

definition serial_can_receive :: "serial_world \<Rightarrow> int" where
  "serial_can_receive s =
    (if fcr s AND UART_FCR_FE \<noteq> 0
     then if num (recv_fifo s) < UART_FIFO_LENGTH
          then if num (recv_fifo s) \<le> ucast (recv_fifo_itl s) then uint (ucast (recv_fifo_itl s) - num (recv_fifo s)) else 1
          else 0
     else of_bool (lsr s AND UART_LSR_DR = 0))"

definition fifo_timeout_int :: "serial_world \<Rightarrow> (unit, serial_world) outcome" where
  "fifo_timeout_int s = (if num (recv_fifo s) \<noteq> 0 then serial_update_irq (s\<lparr>timeout_ipending := True\<rparr>) else Ret () s)"

definition serial_receive_break :: "serial_world \<Rightarrow> (unit, serial_world) outcome" where
  "serial_receive_break s =
    bind_out (recv_fifo_put 0 (s\<lparr>rbr := 0\<rparr>)) (\<lambda>_ s.
      serial_update_irq (s\<lparr>lsr := lsr s OR (UART_LSR_BI OR UART_LSR_DR)\<rparr>))"

text \<open>The loop ends when the terminal has no more input or the port takes no more.\<close>

fun check_io :: "host_read list \<Rightarrow> serial_world \<Rightarrow> (unit, serial_world) outcome" where
  "check_io rs s =
    (if serial_can_receive s = 0 then Ret () (s\<lparr>s_stdin := rs\<rparr>)
     else case rs of
       [] \<Rightarrow> Ret () (s\<lparr>s_stdin := []\<rparr>)
     | Again # rs \<Rightarrow> Ret () (s\<lparr>s_stdin := rs\<rparr>)
     | Byte c # rs \<Rightarrow> bind_out (serial_receive1 [c] s) (\<lambda>_ s. bind_out (fifo_timeout_int s) (\<lambda>_. check_io rs))
     | _ \<Rightarrow> Crash)"

declare check_io.simps [simp del]

definition serial_check_io :: "serial_world \<Rightarrow> (unit, serial_world) outcome" where
  "serial_check_io s = check_io (s_stdin s) s"

definition serial_reset :: "serial_world \<Rightarrow> (unit, serial_world) outcome" where
  "serial_reset s =
    (let s = s\<lparr>rbr := 0, ier := 0, iir := UART_IIR_NO_INT, lcr := 0, lsr := UART_LSR_TEMT OR UART_LSR_THRE,
               msr := UART_MSR_DCD OR UART_MSR_DSR OR UART_MSR_CTS, divider := 0x0c, mcr := UART_MCR_OUT2, scr := 0,
               tsr_retry := 0, char_transmit_time := (1000000000 div 9600) * 10, poll_msl := 0, timeout_ipending := False,
               recv_fifo := fifo8_reset (recv_fifo s), xmit_fifo := fifo8_reset (xmit_fifo s), last_xmit_ts := 0,
               thr_ipending := False, last_break_enable := False\<rparr>
     in bind_out (qemu_set_irq 0 s) (\<lambda>_ s.
          bind_out (serial_update_msl s) (\<lambda>_ s. Ret () (s\<lparr>msr := msr s AND NOT UART_MSR_ANY_DELTA\<rparr>))))"

text \<open>A change of the back end; the calls to the host are commented out.\<close>

definition serial_be_change :: "serial_world \<Rightarrow> (unit, serial_world) outcome" where
  "serial_be_change s = serial_update_msl (s\<lparr>poll_msl := if ier s AND UART_IER_MSI \<noteq> 0 then 1 else 0\<rparr>)"

text \<open>\<open>malloc\<close> leaves the struct as it is, so that \<open>fcr\<close> and the trigger level start with what the heap held.\<close>

definition simple_serial_init :: "(nat \<Rightarrow> u8) \<Rightarrow> (nat \<Rightarrow> u8) \<Rightarrow> serial_world \<Rightarrow> (unit, serial_world) outcome" where
  "simple_serial_init b1 b2 s =
    serial_reset (s\<lparr>recv_fifo := fifo8_create b1 UART_FIFO_LENGTH, xmit_fifo := fifo8_create b2 UART_FIFO_LENGTH\<rparr>)"

section \<open>The invariant\<close>

text \<open>Between two operations the transmitter is idle, and with the queues enabled the data-ready bit says whether the
  receive queue has a byte.\<close>

definition serial_wf :: "serial_world \<Rightarrow> bool" where
  "serial_wf s \<longleftrightarrow>
    fifo_ok (recv_fifo s) \<and> capacity (recv_fifo s) = 16 \<and> fifo_ok (xmit_fifo s) \<and> capacity (xmit_fifo s) = 16
    \<and> contents (xmit_fifo s) = [] \<and> bit (lsr s) 5 \<and> bit (lsr s) 6 \<and> tsr_retry s = 0 \<and> ier s AND 0x0f = ier s
    \<and> (if bit (fcr s) 0 then bit (lsr s) 0 \<longleftrightarrow> contents (recv_fifo s) \<noteq> [] else contents (recv_fifo s) = [])"

text \<open>The identification register and the line to the CPU show what is pending.\<close>

definition irq_shown :: "serial_world \<Rightarrow> bool" where
  "irq_shown s \<longleftrightarrow> iir s = pending_iir s OR (iir s AND 0xf0) \<and> bit (s_estat s) 7 = (pending_iir s \<noteq> UART_IIR_NO_INT)"

definition serial_inv :: "serial_world \<Rightarrow> bool" where
  "serial_inv s \<longleftrightarrow> serial_wf s \<and> irq_shown s"

lemma pending_irq_done [simp]: "pending_iir (irq_done s) = pending_iir s"
  by (simp add: pending_iir_def)

lemma pending_low: "pending_iir s AND 0xf0 = 0"
  by (simp add: pending_iir_def)

lemma irq_done_shown: "irq_shown (irq_done s)"
proof -
  have "(pending_iir s OR (iir s AND 0xf0)) AND 0xf0 = iir s AND 0xf0"
    using pending_low [of s] by (simp add: and.assoc bit.conj_disj_distrib2)
  then show ?thesis
    by (simp add: irq_shown_def) (simp add: irq_done_def bit_deposit64)
qed

lemma irq_done_wf [simp]: "serial_wf (irq_done s) = serial_wf s"
  by (simp add: serial_wf_def)

lemma irq_done_inv: "serial_wf s \<Longrightarrow> serial_inv (irq_done s)"
  by (simp add: serial_inv_def irq_done_shown)

section \<open>Receiving and sending a byte\<close>

lemma receive_byte:
  assumes "fifo_ok (recv_fifo s)" and "capacity (recv_fifo s) = 16"
  obtains r q l where "serial_receive1 [b] s = Ret () (irq_done (s\<lparr>rbr := r, recv_fifo := q, lsr := l\<rparr>))"
    and "fifo_ok q" and "capacity q = 16" and "bit l 0" and "\<And>n. n \<notin> {0, 1} \<Longrightarrow> bit l n = bit (lsr s) n"
    and "bit (fcr s) 0 \<Longrightarrow> contents q = (if length (contents (recv_fifo s)) < 16 then contents (recv_fifo s) @ [b] else contents (recv_fifo s))"
    and "\<not> bit (fcr s) 0 \<Longrightarrow> q = recv_fifo s \<and> r = b"
proof (cases "bit (fcr s) 0")
  case True
  show thesis
  proof (cases "length (contents (recv_fifo s)) < 16")
    case less: True
    then obtain q where "fifo8_push (recv_fifo s) b = Some q" "fifo_ok q" "contents q = contents (recv_fifo s) @ [b]" "capacity q = 16"
      using fifo.push_ok [OF assms(1), of b] assms(2) by (auto simp: word_unat_eq_iff)
    then show thesis
      using True less fifo_tests(2) [OF assms(1)] assms(2)
      by (intro that [of "lsr s OR 0x01" q "rbr s"])
        (auto simp: serial_receive1_def recv_fifo_put_def or_crash_def uart_bits bit_simps)
  next
    case False
    then have "fifo8_is_full (recv_fifo s)" using fifo_tests(2) [OF assms(1)] fifo_okD(3) [OF assms(1)] assms(2) by simp
    then show thesis
      using True False assms
      by (intro that [of "(lsr s OR 0x02) OR 0x01" "recv_fifo s" "rbr s"])
        (auto simp: serial_receive1_def recv_fifo_put_def or_crash_def uart_bits bit_simps)
  qed
next
  case False
  then show thesis
    using assms
    by (intro that [of "(if bit (lsr s) 0 then lsr s OR 0x02 else lsr s) OR 0x01" "recv_fifo s" b])
      (auto simp: serial_receive1_def or_crash_def uart_bits bit_simps Let_def)
qed

lemma load_byte:
  assumes "fifo_ok (xmit_fifo s)" and "capacity (xmit_fifo s) = 16" and "\<not> bit (lsr s) 5" and "\<not> thr_ipending s"
    and "if bit (fcr s) 0 then contents (xmit_fifo s) = [b] else contents (xmit_fifo s) = [] \<and> thr s = b"
  obtains q where "load_tsr s = Ret () (irq_done (s\<lparr>tsr := b, xmit_fifo := q, lsr := lsr s OR 0x20, thr_ipending := True\<rparr>))"
    and "fifo_ok q" and "capacity q = 16" and "contents q = []"
proof (cases "bit (fcr s) 0")
  case True
  then obtain q where q: "fifo8_pop (xmit_fifo s) = Some (b, q)" "fifo_ok q" "contents q = []" "capacity q = 16"
    using fifo.pop_ok [OF assms(1)] assms(2,5) by (auto simp: word_unat_eq_iff)
  moreover have "num q = 0" using fifo_tests(1) [OF q(2)] q(3) by (simp add: fifo8_is_empty_def)
  ultimately show thesis
    using True assms(3,4) by (intro that [of q]) (simp_all add: load_tsr_def or_crash_def uart_bits bit_simps Let_def)
next
  case False
  then show thesis
    using assms by (intro that [of "xmit_fifo s"]) (simp_all add: load_tsr_def uart_bits bit_simps)
qed

end
