(* ===== verification/Dev_Serial_Inv.thy ===== *)
theory Dev_Serial_Inv
  imports Dev_Serial
begin

text \<open>
  Correctness of the serial port of \<open>Dev_Serial\<close>. \<open>serial_inv\<close> is kept by every register access, by the input from the terminal and by
  the initialisation, and under it no assertion fails. \<open>unread\<close> is what the port holds for the guest. The port provides the interface
  \<open>uart\<close>; the transmit loop drains any queue; what is written in loopback mode is read back.
\<close>

section \<open>Sending a byte\<close>

lemma irq_shown_cong:
  assumes "ier t = ier s" "iir t = iir s" "s_estat t = s_estat s" "timeout_ipending t = timeout_ipending s" "fcr t = fcr s"
    "thr_ipending t = thr_ipending s" "msr t = msr s" "recv_fifo t = recv_fifo s" "recv_fifo_itl t = recv_fifo_itl s"
    "lsr t AND 0x1f = lsr s AND 0x1f"
  shows "irq_shown t = irq_shown s"
proof -
  have w: "w AND 0x1e = (w AND 0x1f) AND 0x1e" "w AND 0x01 = (w AND 0x1f) AND 0x01" for w :: u8
    by (simp_all add: and.assoc)
  have "lsr t AND 0x1e = lsr s AND 0x1e" "lsr t AND 0x01 = lsr s AND 0x01"
    using w [of "lsr t"] w [of "lsr s"] assms(10) by metis+
  then have "pending_iir t = pending_iir s"
    using assms by (simp add: pending_iir_def)
  then show ?thesis using assms(2,3) by (simp add: irq_shown_def)
qed

text \<open>What sending the byte \<open>b\<close> leaves behind.\<close>

definition sent :: "u8 \<Rightarrow> serial_world \<Rightarrow> serial_world \<Rightarrow> bool" where
  "sent b s t \<longleftrightarrow> irq_shown t \<and> fifo_ok (xmit_fifo t) \<and> capacity (xmit_fifo t) = 16 \<and> contents (xmit_fifo t) = []
    \<and> fifo_ok (recv_fifo t) \<and> capacity (recv_fifo t) = 16
    \<and> bit (lsr t) 5 \<and> bit (lsr t) 6 \<and> tsr_retry t = 0 \<and> ier t = ier s \<and> fcr t = fcr s \<and> mcr t = mcr s \<and> lcr t = lcr s
    \<and> s_stdin t = s_stdin s
    \<and> (if bit (mcr s) 4
       then s_stdout t = s_stdout s \<and> bit (lsr t) 0
         \<and> (if bit (fcr s) 0 then contents (recv_fifo t)
              = (if length (contents (recv_fifo s)) < 16 then contents (recv_fifo s) @ [b] else contents (recv_fifo s))
            else recv_fifo t = recv_fifo s \<and> rbr t = b)
       else s_stdout t = s_stdout s @ [b] \<and> recv_fifo t = recv_fifo s \<and> bit (lsr t) 0 = bit (lsr s) 0 \<and> rbr t = rbr s)"

lemma send_byte:
  assumes "fifo_ok (xmit_fifo s)" and "capacity (xmit_fifo s) = 16" and "fifo_ok (recv_fifo s)" and "capacity (recv_fifo s) = 16"
    and "\<not> bit (lsr s) 5" and "\<not> bit (lsr s) 6" and "\<not> thr_ipending s" and "tsr_retry s = 0"
    and "if bit (fcr s) 0 then contents (xmit_fifo s) = [b] else contents (xmit_fifo s) = [] \<and> thr s = b"
  shows "\<exists>t. serial_xmit s = Ret () t \<and> sent b s t"
proof -
  obtain q where q: "load_tsr s = Ret () (irq_done (s\<lparr>tsr := b, xmit_fifo := q, lsr := lsr s OR 0x20, thr_ipending := True\<rparr>))"
    "fifo_ok q" "capacity q = 16" "contents q = []"
    using assms(1,2,5,7,9) by (rule load_byte)
  define u where "u = irq_done (s\<lparr>tsr := b, xmit_fifo := q, lsr := lsr s OR 0x20, thr_ipending := True\<rparr>)"
  have u: "tsr u = b" "xmit_fifo u = q" "lsr u = lsr s OR 0x20" "mcr u = mcr s" "fcr u = fcr s" "ier u = ier s" "lcr u = lcr s"
    "recv_fifo u = recv_fifo s" "s_stdout u = s_stdout s" "tsr_retry u = 0" "irq_shown u"
    "s_stdin u = s_stdin s" "rbr u = rbr s"
    using assms(8) by (simp_all add: u_def irq_done_shown)
  have x: "xmit_byte s = bind_out (if bit (mcr s) 4 then serial_receive1 [b] u else Ret () (u\<lparr>s_stdout := s_stdout s @ [b]\<rparr>))
      (\<lambda>_ s. Ret () (s\<lparr>tsr_retry := 0\<rparr>))"
    using q(1) assms(6,8) u(1,4,9) by (simp add: xmit_byte_def uart_bits u_def [symmetric])
  show ?thesis
  proof (cases "bit (mcr s) 4")
    case False
    define t where "t = u\<lparr>s_stdout := s_stdout s @ [b], tsr_retry := 0, last_xmit_ts := 0, lsr := lsr u OR 0x40\<rparr>"
    have "serial_xmit s = Ret () t"
      using False x u(3) by (simp add: serial_xmit.simps [of s] uart_bits bit_simps t_def)
    moreover have "irq_shown t = irq_shown u"
      by (rule irq_shown_cong) (simp_all add: t_def bit.conj_disj_distrib2)
    ultimately show ?thesis
      using False u q(2-4) assms(3,4) by (simp add: sent_def t_def bit_simps)
  next
    case True
    have ok: "fifo_ok (recv_fifo u)" "capacity (recv_fifo u) = 16" using assms(3,4) u by simp_all
    obtain r p l where r: "serial_receive1 [b] u = Ret () (irq_done (u\<lparr>rbr := r, recv_fifo := p, lsr := l\<rparr>))"
      "fifo_ok p" "capacity p = 16" "bit l 0" and l: "\<And>n. n \<notin> {0, 1} \<Longrightarrow> bit l n = bit (lsr u) n"
      and c: "bit (fcr u) 0 \<Longrightarrow> contents p = (if length (contents (recv_fifo u)) < 16 then contents (recv_fifo u) @ [b] else contents (recv_fifo u))"
      "\<not> bit (fcr u) 0 \<Longrightarrow> p = recv_fifo u \<and> r = b"
      using ok by (rule receive_byte [where b = b]) (rule that)
    have l5: "bit l 5" using l [of 5] by (simp add: bit_simps u(3))
    define v where "v = irq_done (u\<lparr>rbr := r, recv_fifo := p, lsr := l\<rparr>)"
    define t where "t = v\<lparr>tsr_retry := 0, last_xmit_ts := 0, lsr := l OR 0x40\<rparr>"
    have v: "lsr v = l" "recv_fifo v = p" "rbr v = r" "xmit_fifo v = q" "mcr v = mcr s" "fcr v = fcr s" "ier v = ier s" "lcr v = lcr s"
      "s_stdout v = s_stdout s" "irq_shown v" "s_stdin v = s_stdin s" by (simp_all add: v_def u irq_done_shown)
    have "serial_xmit s = Ret () t"
      using True x r(1) v(1) l5 by (simp add: serial_xmit.simps [of s] uart_bits bit_simps t_def v_def [symmetric])
    moreover have "irq_shown t = irq_shown v"
      by (rule irq_shown_cong) (simp_all add: t_def v(1) bit.conj_disj_distrib2)
    ultimately show ?thesis
      using True v u(5,8) c r(2-4) q(2-4) l5 by (simp add: sent_def t_def bit_simps)
  qed
qed

lemma sent_cong:
  "sent b u t \<Longrightarrow> ier u = ier s \<Longrightarrow> fcr u = fcr s \<Longrightarrow> mcr u = mcr s \<Longrightarrow> lcr u = lcr s \<Longrightarrow> s_stdout u = s_stdout s
    \<Longrightarrow> s_stdin u = s_stdin s \<Longrightarrow> rbr u = rbr s \<Longrightarrow> recv_fifo u = recv_fifo s \<Longrightarrow> bit (lsr u) 0 = bit (lsr s) 0 \<Longrightarrow> sent b s t"
  by (simp add: sent_def)

lemma write_thr_sent:
  assumes "serial_inv s"
  shows "\<exists>t. write_thr val s = Ret () t \<and> sent (ucast val) s t"
proof -
  let ?b = "ucast val :: u8"
  have wf: "fifo_ok (xmit_fifo s)" "capacity (xmit_fifo s) = 16" "contents (xmit_fifo s) = []" "fifo_ok (recv_fifo s)"
    "capacity (recv_fifo s) = 16" "tsr_retry s = 0"
    using assms by (simp_all add: serial_inv_def serial_wf_def)
  obtain q where q: "fifo8_push (xmit_fifo s) ?b = Some q" "fifo_ok q" "contents q = [?b]" "capacity q = 16"
    using fifo.push_ok [OF wf(1), of ?b] wf(2,3) by (auto simp: word_unat_eq_iff)
  have nf: "\<not> fifo8_is_full (xmit_fifo s)" using fifo_tests(2) [OF wf(1)] wf by simp
  define u where "u = irq_done ((if bit (fcr s) 0 then s\<lparr>thr := ?b, xmit_fifo := q\<rparr> else s\<lparr>thr := ?b\<rparr>)
    \<lparr>thr_ipending := False, lsr := (lsr s AND NOT 0x20) AND NOT 0x40\<rparr>)"
  have w: "write_thr val s = serial_xmit u"
    using q nf wf(6) by (simp add: write_thr_def uart_bits or_crash_def Let_def u_def)
  have "\<exists>t. serial_xmit u = Ret () t \<and> sent ?b u t"
    using wf q by (intro send_byte) (simp_all add: u_def bit_simps)
  then obtain t where "serial_xmit u = Ret () t" "sent ?b u t" by blast
  moreover have "sent ?b s t"
    by (rule sent_cong [OF \<open>sent ?b u t\<close>]) (simp_all add: u_def bit_simps)
  ultimately show ?thesis using w by auto
qed

lemma sent_inv:
  assumes "serial_inv s" and "sent b s t"
  shows "serial_inv t"
proof -
  have "contents (recv_fifo s) = [] \<Longrightarrow> unat (num (recv_fifo s)) = 0"
    using length_contents [of "recv_fifo s"] by (metis list.size(3))
  then have "bit (mcr s) 4 \<Longrightarrow> bit (fcr s) 0 \<Longrightarrow> contents (recv_fifo t) \<noteq> []"
    using assms(2) by (auto simp: sent_def)
  then show ?thesis
    using assms by (cases "bit (mcr s) 4"; cases "bit (fcr s) 0") (simp_all add: sent_def serial_inv_def serial_wf_def)
qed

section \<open>Every access keeps the invariant\<close>

lemma wf_frame [simp]:
  "serial_wf (s\<lparr>msr := m\<rparr>) = serial_wf s" "serial_wf (s\<lparr>thr_ipending := x\<rparr>) = serial_wf s"
  "serial_wf (s\<lparr>timeout_ipending := x\<rparr>) = serial_wf s" "serial_wf (s\<lparr>poll_msl := i\<rparr>) = serial_wf s"
  "serial_wf (s\<lparr>divider := d\<rparr>) = serial_wf s" "serial_wf (s\<lparr>lcr := v, last_break_enable := x\<rparr>) = serial_wf s"
  "serial_wf (s\<lparr>mcr := v\<rparr>) = serial_wf s" "serial_wf (s\<lparr>scr := v\<rparr>) = serial_wf s"
  "serial_wf (s\<lparr>s_stdin := rs\<rparr>) = serial_wf s" "serial_wf (s\<lparr>rbr := v\<rparr>) = serial_wf s"
  by (simp_all add: serial_wf_def)

lemma shown_frame [simp]:
  "irq_shown (s\<lparr>divider := d\<rparr>) = irq_shown s" "irq_shown (s\<lparr>lcr := v, last_break_enable := x\<rparr>) = irq_shown s"
  "irq_shown (s\<lparr>mcr := v\<rparr>) = irq_shown s" "irq_shown (s\<lparr>scr := v\<rparr>) = irq_shown s"
  "irq_shown (s\<lparr>s_stdin := rs\<rparr>) = irq_shown s" "irq_shown (s\<lparr>poll_msl := i\<rparr>) = irq_shown s"
  by (rule irq_shown_cong; simp)+

lemma inv_frame [simp]:
  "serial_inv (s\<lparr>divider := d\<rparr>) = serial_inv s" "serial_inv (s\<lparr>lcr := v, last_break_enable := x\<rparr>) = serial_inv s"
  "serial_inv (s\<lparr>mcr := v\<rparr>) = serial_inv s" "serial_inv (s\<lparr>scr := v\<rparr>) = serial_inv s"
  "serial_inv (s\<lparr>s_stdin := rs\<rparr>) = serial_inv s" "serial_inv (s\<lparr>poll_msl := i\<rparr>) = serial_inv s"
  by (simp_all add: serial_inv_def)

lemma inv_wf: "serial_inv s \<Longrightarrow> serial_wf s"
  by (simp add: serial_inv_def)

lemma update_msl_cases:
  obtains "serial_update_msl s = Ret () s" | m where "serial_update_msl s = Ret () (irq_done (s\<lparr>msr := m\<rparr>))"
proof -
  let ?n = "(((msr s AND NOT UART_MSR_CTS) AND NOT UART_MSR_DSR) AND NOT UART_MSR_DCD) AND NOT UART_MSR_RI"
  show thesis
  proof (cases "?n = msr s")
    case True
    then have "s\<lparr>msr := ?n\<rparr> = s" by simp
    with True show thesis by (intro that(1)) (simp add: serial_update_msl_def Let_def)
  next
    case False
    then show thesis by (cases "(?n OR (drop_bit 4 ?n XOR drop_bit 4 (msr s))) AND UART_MSR_TERI \<noteq> 0 \<and> msr s AND UART_MSR_RI = 0")
      (auto simp: serial_update_msl_def Let_def intro: that(2))
  qed
qed

lemma update_msl_inv:
  "serial_wf s \<Longrightarrow> returns (serial_update_msl s) (\<lambda>_ t. serial_wf t \<and> (irq_shown s \<longrightarrow> irq_shown t)
    \<and> ier t = ier s \<and> lsr t = lsr s \<and> fcr t = fcr s \<and> mcr t = mcr s \<and> lcr t = lcr s \<and> recv_fifo t = recv_fifo s \<and> rbr t = rbr s
    \<and> s_stdout t = s_stdout s \<and> s_stdin t = s_stdin s)"
  by (rule update_msl_cases [of s]) (simp_all add: irq_done_shown)

text \<open>What a register access may not touch, unless it is the one that is meant to.\<close>

definition unread :: "serial_world \<Rightarrow> u8 list" where
  "unread s = (if bit (fcr s) 0 then contents (recv_fifo s) else if bit (lsr s) 0 then [rbr s] else [])"

lemma unread_cong:
  "fcr t = fcr s \<Longrightarrow> recv_fifo t = recv_fifo s \<Longrightarrow> bit (lsr t) 0 = bit (lsr s) 0 \<Longrightarrow> rbr t = rbr s \<Longrightarrow> unread t = unread s"
  by (simp add: unread_def)

lemma unread_frame [simp]:
  "unread (irq_done s) = unread s" "unread (s\<lparr>thr_ipending := x\<rparr>) = unread s" "unread (s\<lparr>divider := d\<rparr>) = unread s"
  "unread (s\<lparr>lcr := v, last_break_enable := x\<rparr>) = unread s" "unread (s\<lparr>mcr := v\<rparr>) = unread s" "unread (s\<lparr>scr := v\<rparr>) = unread s"
  "unread (s\<lparr>lsr := lsr s AND - 19\<rparr>) = unread s" "unread (s\<lparr>s_stdin := rs\<rparr>) = unread s"
  "unread (s\<lparr>timeout_ipending := x\<rparr>) = unread s"
  by (simp_all add: unread_def bit_simps)

definition undisturbed :: "serial_world \<Rightarrow> serial_world \<Rightarrow> bool" where
  "undisturbed s t \<longleftrightarrow> serial_inv t \<and> unread t = unread s \<and> s_stdout t = s_stdout s \<and> s_stdin t = s_stdin s \<and> lcr t = lcr s \<and> mcr t = mcr s"

lemma masked_eq: "((a :: 'a::len word) XOR b) AND m = 0 \<Longrightarrow> a AND m = b AND m"
  by (auto simp: bit_eq_iff bit_and_iff bit_xor_iff)

lemma write_ier_inv:
  assumes "serial_inv s"
  shows "returns (write_ier val s) (\<lambda>_. undisturbed s)"
proof (cases "(ier s XOR ucast val) AND 0x0f = 0")
  case True
  have "ier s = ier s AND 0x0f" using assms by (simp add: serial_inv_def serial_wf_def)
  moreover have "ier s AND 0x0f = ucast val AND 0x0f"
    using True by (rule masked_eq)
  ultimately have "s\<lparr>ier := ucast val AND 0x0f\<rparr> = s" by simp
  then show ?thesis using True assms by (simp add: write_ier_def undisturbed_def unread_def)
next
  case False
  define u where "u = s\<lparr>ier := ucast val AND 0x0f\<rparr>"
  have u: "serial_wf u" using assms by (simp add: u_def serial_inv_def serial_wf_def and.assoc)
  let ?ch = "(ier s XOR ucast val) AND 0x0f"
  let ?m = "if ?ch AND UART_IER_MSI \<noteq> 0 \<and> poll_msl u \<ge> 0
        then if ier u AND UART_IER_MSI \<noteq> 0 then serial_update_msl (u\<lparr>poll_msl := 1\<rparr>) else Ret () (u\<lparr>poll_msl := 0\<rparr>)
        else Ret () u"
  have m: "returns ?m (\<lambda>_ t. serial_wf t \<and> fcr t = fcr u \<and> recv_fifo t = recv_fifo u \<and> lsr t = lsr u \<and> rbr t = rbr u \<and> lcr t = lcr u \<and> mcr t = mcr u
      \<and> s_stdout t = s_stdout u \<and> s_stdin t = s_stdin u)"
    using u update_msl_inv [of "u\<lparr>poll_msl := 1\<rparr>"] by (auto elim: returns_mono)
  show ?thesis
    unfolding write_ier_def Let_def u_def [symmetric]
    by (rule returns_seq [OF m]) (use False in \<open>auto simp: undisturbed_def irq_done_inv u_def unread_def\<close>)
qed

lemma write_fcr_fields [simp]:
  "fcr (serial_write_fcr v s) = v" "lsr (serial_write_fcr v s) = lsr s" "recv_fifo (serial_write_fcr v s) = recv_fifo s"
  "xmit_fifo (serial_write_fcr v s) = xmit_fifo s" "tsr_retry (serial_write_fcr v s) = tsr_retry s"
  "ier (serial_write_fcr v s) = ier s" "rbr (serial_write_fcr v s) = rbr s" "s_stdin (serial_write_fcr v s) = s_stdin s"
  "s_stdout (serial_write_fcr v s) = s_stdout s" "mcr (serial_write_fcr v s) = mcr s" "lcr (serial_write_fcr v s) = lcr s"
  by (simp_all add: serial_write_fcr_def Let_def)

lemma reset_queue [simp]: "fifo_ok f \<Longrightarrow> fifo_ok (fifo8_reset f)" "contents (fifo8_reset f) = []"
  "capacity (fifo8_reset f) = capacity f"
  using fifo_created(2) [of f] by (simp_all add: fifo8_reset_def contents_def)

lemma write_fcr_inv:
  assumes "serial_inv s"
  shows "returns (write_fcr v s) (\<lambda>_ t. serial_inv t \<and> s_stdout t = s_stdout s \<and> s_stdin t = s_stdin s \<and> mcr t = mcr s \<and> lcr t = lcr s
    \<and> bit (fcr t) 0 = bit v 0 \<and> unread t = (if bit v 1 \<or> bit v 0 \<noteq> bit (fcr s) 0 then [] else unread s))"
proof -
  have wf: "serial_wf s" using assms by (rule inv_wf)
  let ?f = "bit v 0 \<noteq> bit (fcr s) 0"
  define w where "w = (if ?f then (ucast v :: u8) OR (UART_FCR_XFR OR UART_FCR_RFR) else ucast v)"
  define a where "a = (if bit w 1 then s\<lparr>lsr := lsr s AND NOT (UART_LSR_DR OR UART_LSR_BI), timeout_ipending := False,
                     recv_fifo := fifo8_reset (recv_fifo s)\<rparr> else s)"
  define b where "b = (if bit w 2 then a\<lparr>lsr := lsr a OR UART_LSR_THRE, thr_ipending := True, xmit_fifo := fifo8_reset (xmit_fifo a)\<rparr> else a)"
  have w: "bit w 0 = bit v 0" "bit w 1 \<longleftrightarrow> ?f \<or> bit v 1" by (auto simp: w_def bit_simps)
  have e: "write_fcr v s = Ret () (irq_done (serial_write_fcr (w AND 0xc9) b))"
    by (simp add: write_fcr_def Let_def uart_bits bit_simps w_def a_def b_def)
  have a: "serial_wf (serial_write_fcr (w AND 0xc9) a)"
    using wf w by (cases "bit w 1") (auto simp: serial_wf_def a_def bit_simps)
  then have b: "serial_wf (serial_write_fcr (w AND 0xc9) b)"
    by (cases "bit w 0") (simp_all add: serial_wf_def b_def bit_simps)
  have "unread (serial_write_fcr (w AND 0xc9) b) = (if bit w 1 then [] else unread s)"
    using w by (simp add: unread_def a_def b_def bit_simps)
  then show ?thesis
    using w b by (simp add: e irq_done_inv unread_def) (simp add: a_def b_def bit_simps)
qed

lemma read_rbr_inv:
  assumes "serial_inv s"
  shows "returns (read_rbr s) (\<lambda>r t. serial_inv t \<and> s_stdout t = s_stdout s \<and> s_stdin t = s_stdin s
    \<and> fcr t = fcr s \<and> mcr t = mcr s \<and> lcr t = lcr s
    \<and> unread t = tl (unread s) \<and> (unread s \<noteq> [] \<longrightarrow> r = hd (unread s)))"
proof (cases "bit (fcr s) 0")
  case False
  then show ?thesis
    using inv_wf [OF assms] by (simp add: read_rbr_def uart_bits irq_done_inv serial_wf_def unread_def bit_simps)
next
  case True
  have wf: "fifo_ok (recv_fifo s)" "serial_wf s" using inv_wf [OF assms] by (simp_all add: serial_wf_def)
  show ?thesis
  proof (cases "contents (recv_fifo s)")
    case Nil
    then have "num (recv_fifo s) = 0" using fifo_tests(1) [OF wf(1)] by (simp add: fifo8_is_empty_def)
    then show ?thesis
      using True Nil wf fifo_tests(1) [OF wf(1)]
      by (simp add: read_rbr_def uart_bits irq_done_inv unread_def Let_def serial_wf_def bit_simps)
  next
    case (Cons c cs)
    then obtain q where q: "fifo8_pop (recv_fifo s) = Some (c, q)" "fifo_ok q" "contents q = cs" "capacity q = capacity (recv_fifo s)"
      using fifo.pop_ok [OF wf(1)] by (auto simp: word_unat_eq_iff)
    have "num q = 0 \<longleftrightarrow> cs = []" using fifo_tests(1) [OF q(2)] q(3) by (simp add: fifo8_is_empty_def)
    then show ?thesis
      using True Cons q wf fifo_tests(1) [OF wf(1)]
      by (cases "cs = []") (simp_all add: read_rbr_def uart_bits irq_done_inv unread_def Let_def or_crash_def serial_wf_def bit_simps)
  qed
qed

lemma read_msr_inv:
  assumes "serial_inv s"
  shows "returns (read_msr s) (\<lambda>_. undisturbed s)"
proof (cases "mcr s AND UART_MCR_LOOP = 0")
  case True
  let ?m = "if poll_msl s \<ge> 0 then serial_update_msl s else Ret () s"
  have m: "returns ?m (\<lambda>_ t. serial_inv t \<and> fcr t = fcr s \<and> recv_fifo t = recv_fifo s \<and> lsr t = lsr s \<and> rbr t = rbr s \<and> lcr t = lcr s \<and> mcr t = mcr s
      \<and> s_stdout t = s_stdout s \<and> s_stdin t = s_stdin s)"
    using assms update_msl_inv [OF inv_wf [OF assms]] by (auto simp: serial_inv_def elim: returns_mono)
  from True have e: "read_msr s = bind_out ?m (\<lambda>_ s. let ret = msr s
       in if msr s AND UART_MSR_ANY_DELTA \<noteq> 0
          then bind_out (serial_update_irq (s\<lparr>msr := msr s AND 0xf0\<rparr>)) (\<lambda>_. Ret ret) else Ret ret s)"
    by (simp add: read_msr_def)
  show ?thesis
    unfolding e by (rule returns_seq [OF m]) (auto simp: undisturbed_def irq_done_inv inv_wf unread_def Let_def)
qed (use assms in \<open>simp add: read_msr_def undisturbed_def\<close>)

lemma low_three: "(addr :: u64) AND 7 \<in> {0, 1, 2, 3, 4, 5, 6, 7}"
proof -
  have "addr AND 7 = take_bit 3 addr" by (simp add: take_bit_eq_mask mask_numeral)
  then have "unat (addr AND 7) < 8" using unat_take_bit_less [of 3 addr] by simp
  then have "unat (addr AND 7) \<in> {0, 1, 2, 3, 4, 5, 6, 7}" by auto
  then show ?thesis by (auto simp: word_unat_eq_iff)
qed

text \<open>The accesses that move a byte; every other one leaves the input and the output alone.\<close>

definition thr_access :: "u64 \<Rightarrow> serial_world \<Rightarrow> bool" where
  "thr_access addr s \<longleftrightarrow> addr AND 7 = 0 \<and> \<not> bit (lcr s) 7"

lemma read_inv:
  assumes "serial_inv s"
  shows "returns (serial_plus_ioport_read addr sz s) (\<lambda>r t. serial_inv t \<and> s_stdout t = s_stdout s \<and> s_stdin t = s_stdin s
    \<and> lcr t = lcr s \<and> mcr t = mcr s \<and> (if thr_access addr s then unread t = tl (unread s) \<and> (unread s \<noteq> [] \<longrightarrow> r = ucast (hd (unread s))) else unread t = unread s))"
proof -
  have wf: "serial_wf s" using assms by (rule inv_wf)
  have iir: "serial_inv (irq_done (s\<lparr>thr_ipending := False\<rparr>))" using wf by (simp add: irq_done_inv)
  have lsr: "serial_inv (irq_done (s\<lparr>lsr := lsr s AND NOT (UART_LSR_BI OR UART_LSR_OE)\<rparr>))"
    using wf by (intro irq_done_inv) (simp add: serial_wf_def bit_simps)
  consider "addr AND 7 = 0" | "addr AND 7 = 2" | "addr AND 7 = 5" | "addr AND 7 = 6" | "addr AND 7 \<in> {1, 3, 4, 7}"
    using low_three [of addr] by auto
  then show ?thesis
  proof cases
    case 1
    show ?thesis
    proof (cases "bit (lcr s) 7")
      case False
      show ?thesis
        unfolding serial_plus_ioport_read_def using 1 False
        by (simp add: uart_bits returns_bind thr_access_def) (rule returns_mono [OF read_rbr_inv [OF assms]]; simp)
    qed (use 1 assms in \<open>simp add: serial_plus_ioport_read_def thr_access_def uart_bits\<close>)
  next
    case 4
    then show ?thesis
      by (simp add: serial_plus_ioport_read_def returns_bind thr_access_def) (rule returns_mono [OF read_msr_inv [OF assms]]; simp add: undisturbed_def)
  qed (use assms iir lsr in \<open>auto simp: serial_plus_ioport_read_def thr_access_def Let_def\<close>)
qed

lemma write_inv:
  assumes "serial_inv s"
  shows "returns (serial_plus_ioport_write addr val sz s) (\<lambda>_ t. serial_inv t \<and> s_stdin t = s_stdin s
    \<and> (\<not> (thr_access addr s \<and> \<not> bit (mcr s) 4) \<longrightarrow> s_stdout t = s_stdout s)
    \<and> (\<not> thr_access addr s \<and> addr AND 7 \<noteq> 2 \<longrightarrow> unread t = unread s))"
proof -
  consider "addr AND 7 = 0" | "addr AND 7 = 1" | "addr AND 7 = 2" | "addr AND 7 \<in> {3, 4, 5, 6, 7}"
    using low_three [of addr] by auto
  then show ?thesis
  proof cases
    case 1
    obtain t where t: "write_thr val s = Ret () t" "sent (ucast val) s t"
      using write_thr_sent [OF assms, of val] by blast
    show ?thesis
      using 1 assms t sent_inv [OF assms t(2)]
      by (cases "bit (lcr s) 7") (simp_all add: serial_plus_ioport_write_def uart_bits thr_access_def sent_def)
  next
    case 2
    show ?thesis
    proof (cases "bit (lcr s) 7")
      case False
      then show ?thesis
        using 2 by (simp add: serial_plus_ioport_write_def uart_bits thr_access_def)
          (rule returns_mono [OF write_ier_inv [OF assms]]; simp add: undisturbed_def)
    qed (use 2 assms in \<open>simp add: serial_plus_ioport_write_def uart_bits thr_access_def\<close>)
  next
    case 3
    then show ?thesis
      by (simp add: serial_plus_ioport_write_def thr_access_def) (rule returns_mono [OF write_fcr_inv [OF assms]]; simp)
  qed (use assms in \<open>auto simp: serial_plus_ioport_write_def\<close>)
qed

section \<open>Input from the terminal\<close>

lemma receive_inv:
  assumes "serial_inv s" and "serial_can_receive s \<noteq> 0"
  shows "returns (serial_receive1 [b] s) (\<lambda>_ t. serial_inv t \<and> unread t = unread s @ [b] \<and> fcr t = fcr s \<and> lcr t = lcr s \<and> mcr t = mcr s \<and> s_stdout t = s_stdout s)"
proof -
  have wf: "serial_wf s" and ok: "fifo_ok (recv_fifo s)" "capacity (recv_fifo s) = 16"
    using inv_wf [OF assms(1)] by (simp_all add: serial_wf_def)
  obtain r q l where r: "serial_receive1 [b] s = Ret () (irq_done (s\<lparr>rbr := r, recv_fifo := q, lsr := l\<rparr>))"
      "fifo_ok q" "capacity q = 16" "bit l 0" and l: "\<And>n. n \<notin> {0, 1} \<Longrightarrow> bit l n = bit (lsr s) n"
      and c: "bit (fcr s) 0 \<Longrightarrow> contents q = (if length (contents (recv_fifo s)) < 16 then contents (recv_fifo s) @ [b] else contents (recv_fifo s))"
      "\<not> bit (fcr s) 0 \<Longrightarrow> q = recv_fifo s \<and> r = b"
    using ok by (rule receive_byte [where b = b]) (rule that)
  have room: "if bit (fcr s) 0 then unat (num (recv_fifo s)) < 16 else \<not> bit (lsr s) 0"
    using assms(2) by (auto simp: serial_can_receive_def uart_bits UART_FIFO_LENGTH_def word_less_nat_alt split: if_splits)
  have "bit l 5" "bit l 6" using l [of 5] l [of 6] wf by (simp_all add: serial_wf_def)
  then have "serial_wf (s\<lparr>rbr := r, recv_fifo := q, lsr := l\<rparr>)"
    using wf r(2-4) c room by (cases "bit (fcr s) 0") (simp_all add: serial_wf_def)
  moreover have "unread (s\<lparr>rbr := r, recv_fifo := q, lsr := l\<rparr>) = unread s @ [b]"
    using c r(4) room by (cases "bit (fcr s) 0") (simp_all add: unread_def)
  ultimately show ?thesis by (simp add: r(1) irq_done_inv)
qed

lemma timeout_inv:
  "serial_inv s \<Longrightarrow> returns (fifo_timeout_int s) (\<lambda>_ t. serial_inv t \<and> unread t = unread s \<and> fcr t = fcr s \<and> lcr t = lcr s \<and> mcr t = mcr s \<and> s_stdout t = s_stdout s)"
  by (simp add: fifo_timeout_int_def irq_done_inv inv_wf)

definition host_alive :: "host_read list \<Rightarrow> bool" where
  "host_alive rs \<longleftrightarrow> Eof \<notin> set rs \<and> ReadError \<notin> set rs"

lemma check_io_inv:
  "serial_inv s \<Longrightarrow> host_alive rs \<Longrightarrow>
    returns (check_io rs s) (\<lambda>_ t. serial_inv t \<and> host_alive (s_stdin t) \<and> s_stdout t = s_stdout s \<and> fcr t = fcr s \<and> lcr t = lcr s \<and> mcr t = mcr s
      \<and> unread t @ host_bytes (s_stdin t) = unread s @ host_bytes rs)"
proof (induction rs arbitrary: s)
  case Nil
  then show ?case by (subst check_io.simps) (simp add: host_alive_def)
next
  case (Cons r rs)
  have alive: "host_alive rs" "r \<noteq> Eof" "r \<noteq> ReadError" using Cons.prems(2) by (auto simp: host_alive_def)
  show ?case
  proof (cases "serial_can_receive s = 0")
    case True
    then show ?thesis using Cons.prems by (subst check_io.simps) simp
  next
    case False
    show ?thesis
    proof (cases r)
      case (Byte b)
      have "returns (bind_out (serial_receive1 [b] s) (\<lambda>_ s. bind_out (fifo_timeout_int s) (\<lambda>_. check_io rs)))
        (\<lambda>_ t. serial_inv t \<and> host_alive (s_stdin t) \<and> s_stdout t = s_stdout s \<and> fcr t = fcr s \<and> lcr t = lcr s \<and> mcr t = mcr s
          \<and> unread t @ host_bytes (s_stdin t) = unread s @ b # host_bytes rs)"
      proof (intro returns_seq)
        show "returns (serial_receive1 [b] s) (\<lambda>_ t. serial_inv t \<and> unread t = unread s @ [b] \<and> fcr t = fcr s \<and> lcr t = lcr s \<and> mcr t = mcr s \<and> s_stdout t = s_stdout s)"
          using Cons.prems(1) False by (rule receive_inv)
      next
        fix u assume u: "serial_inv u \<and> unread u = unread s @ [b] \<and> fcr u = fcr s \<and> lcr u = lcr s \<and> mcr u = mcr s \<and> s_stdout u = s_stdout s"
        then show "returns (fifo_timeout_int u) (\<lambda>_ t. serial_inv t \<and> unread t = unread s @ [b] \<and> fcr t = fcr s \<and> lcr t = lcr s \<and> mcr t = mcr s \<and> s_stdout t = s_stdout s)"
          using timeout_inv [of u] by (auto elim: returns_mono)
      next
        fix u assume u: "serial_inv u \<and> unread u = unread s @ [b] \<and> fcr u = fcr s \<and> lcr u = lcr s \<and> mcr u = mcr s \<and> s_stdout u = s_stdout s"
        then show "returns (check_io rs u) (\<lambda>_ t. serial_inv t \<and> host_alive (s_stdin t) \<and> s_stdout t = s_stdout s \<and> fcr t = fcr s \<and> lcr t = lcr s \<and> mcr t = mcr s
            \<and> unread t @ host_bytes (s_stdin t) = unread s @ b # host_bytes rs)"
          using Cons.IH [of u] alive(1) by (auto elim: returns_mono)
      qed
      then show ?thesis using False Byte by (subst check_io.simps) simp
    next
      case Again
      then show ?thesis using False Cons.prems(1) alive(1) by (subst check_io.simps) simp
    qed (use alive in simp_all)
  qed
qed

section \<open>The port from its start\<close>

lemma init_inv:
  "returns (simple_serial_init b1 b2 s) (\<lambda>_ t. serial_inv t \<and> unread t = [] \<and> s_stdout t = s_stdout s \<and> s_stdin t = s_stdin s)"
proof -
  have c: "fifo_ok (fifo8_reset (fifo8_create b 16)) \<and> contents (fifo8_reset (fifo8_create b 16)) = []
      \<and> capacity (fifo8_reset (fifo8_create b 16)) = 16" for b
    using fifo_created(2) [of "fifo8_create b 16"] fifo_created(1) [of 16 b] by (simp add: fifo8_create_def fifo8_reset_def)
  show ?thesis
    using c by (simp add: simple_serial_init_def serial_reset_def serial_update_msl_def Let_def qemu_set_irq_def estat_set_irq_def N_IRQS_def
      UART_FIFO_LENGTH_def irq_done_def serial_inv_def serial_wf_def irq_shown_def pending_iir_def unread_def bit_deposit64)
qed

datatype serial_op = WriteReg u64 u64 u32 | ReadReg u64 u32 | Poll

fun serial_step :: "serial_op \<Rightarrow> serial_world \<Rightarrow> (u64, serial_world) outcome" where
  "serial_step (WriteReg addr val sz) s = bind_out (serial_plus_ioport_write addr val sz s) (\<lambda>_. Ret 0)"
| "serial_step (ReadReg addr sz) s = serial_plus_ioport_read addr sz s"
| "serial_step Poll s = bind_out (serial_check_io s) (\<lambda>_. Ret 0)"

fun serial_run :: "serial_op list \<Rightarrow> serial_world \<Rightarrow> (unit, serial_world) outcome" where
  "serial_run [] s = Ret () s"
| "serial_run (p # ps) s = bind_out (serial_step p s) (\<lambda>_. serial_run ps)"

lemma step_inv:
  assumes "serial_inv s" and "host_alive (s_stdin s)"
  shows "returns (serial_step p s) (\<lambda>_ t. serial_inv t \<and> host_alive (s_stdin t))"
proof (cases p)
  case (WriteReg addr val sz)
  then show ?thesis using write_inv [OF assms(1), of addr val sz] assms(2) by (auto simp: returns_bind elim: returns_mono)
next
  case (ReadReg addr sz)
  then show ?thesis using read_inv [OF assms(1), of addr sz] assms(2) by (auto elim: returns_mono)
next
  case Poll
  then show ?thesis using check_io_inv [OF assms] by (auto simp: returns_bind serial_check_io_def elim: returns_mono)
qed

lemma run_inv:
  "serial_inv s \<Longrightarrow> host_alive (s_stdin s) \<Longrightarrow> returns (serial_run ps s) (\<lambda>_ t. serial_inv t)"
proof (induction ps arbitrary: s)
  case (Cons p ps)
  have "returns (serial_step p s) (\<lambda>_ t. serial_inv t \<and> host_alive (s_stdin t))" using Cons.prems by (rule step_inv)
  then show ?case by (auto intro: returns_seq Cons.IH)
qed simp

lemma iir_low: "irq_shown s \<Longrightarrow> iir s AND 0x0f = pending_iir s"
proof -
  assume "irq_shown s"
  then have "iir s AND 0x0f = (pending_iir s OR (iir s AND 0xf0)) AND 0x0f" by (simp add: irq_shown_def)
  also have "\<dots> = pending_iir s AND 0x0f" by (simp add: bit.conj_disj_distrib2 and.assoc)
  finally show ?thesis by (simp add: pending_iir_def split: if_splits)
qed

lemma and_exp_bit: "(w :: 'a::len word) AND 2 ^ n = (if bit w n then 2 ^ n else 0)"
  by (rule bit_word_eqI) (auto simp: bit_simps)

lemma two_bits: "bit (w :: u8) 5 \<Longrightarrow> bit w 6 \<Longrightarrow> w AND 0x60 = 0x60"
  using and_exp_bit [of w 5] and_exp_bit [of w 6] bit.conj_disj_distrib [of w "0x20" "0x40"] by simp

lemma inv_visible:
  assumes "serial_inv t"
  shows "bit (s_estat t) 7 = (pending_iir t \<noteq> UART_IIR_NO_INT)" "iir t AND 0x0f = pending_iir t"
    "lsr t AND 0x60 = 0x60" "contents (xmit_fifo t) = []"
    "fcr t AND UART_FCR_FE \<noteq> 0 \<Longrightarrow> lsr t AND UART_LSR_DR \<noteq> 0 \<longleftrightarrow> contents (recv_fifo t) \<noteq> []"
  using assms iir_low two_bits by (auto simp: serial_inv_def serial_wf_def irq_shown_def uart_bits)

text \<open>(C12) From its initialisation on, whatever sequence of register reads and writes the guest makes and however they
  interleave with input from the terminal (which neither ends nor fails), no assertion of the serial port fails and every loop
  ends: each operation returns. Afterwards the interrupt line is raised exactly if a condition that the guest has enabled is pending, the
  identification register names the pending condition of the highest priority, the transmitter is idle, and with
  the queues enabled the data-ready bit says whether the receive queue holds a byte.\<close>

theorem serial_port_consistent:
  assumes "host_alive (s_stdin s)"
  shows "returns (bind_out (simple_serial_init b1 b2 s) (\<lambda>_. serial_run ops)) (\<lambda>_ t.
    bit (s_estat t) 7 = (pending_iir t \<noteq> UART_IIR_NO_INT) \<and> iir t AND 0x0f = pending_iir t
    \<and> lsr t AND 0x60 = 0x60 \<and> contents (xmit_fifo t) = []
    \<and> (fcr t AND UART_FCR_FE \<noteq> 0 \<longrightarrow> (lsr t AND UART_LSR_DR \<noteq> 0 \<longleftrightarrow> contents (recv_fifo t) \<noteq> [])))"
proof (rule returns_seq [OF init_inv])
  fix t assume "serial_inv t \<and> unread t = [] \<and> s_stdout t = s_stdout s \<and> s_stdin t = s_stdin s"
  then have "returns (serial_run ops t) (\<lambda>_ t. serial_inv t)" using assms by (simp add: run_inv)
  then show "returns (serial_run ops t) (\<lambda>_ t. bit (s_estat t) 7 = (pending_iir t \<noteq> UART_IIR_NO_INT) \<and> iir t AND 0x0f = pending_iir t
    \<and> lsr t AND 0x60 = 0x60 \<and> contents (xmit_fifo t) = []
    \<and> (fcr t AND UART_FCR_FE \<noteq> 0 \<longrightarrow> (lsr t AND UART_LSR_DR \<noteq> 0 \<longleftrightarrow> contents (recv_fifo t) \<noteq> [])))"
    by (rule returns_mono) (simp add: inv_visible)
qed

theorem serial_port_consistent_witness:
  "returns (bind_out (simple_serial_init (\<lambda>_. 0) (\<lambda>_. 0)
        (SerialState.extend undefined (serial_world.fields 0 [Byte 65, Again] []))) (\<lambda>_. serial_run [WriteReg 2 1 1, WriteReg 1 1 1, Poll]))
      (\<lambda>_ t. bit (s_estat t) 7 = (pending_iir t \<noteq> UART_IIR_NO_INT) \<and> iir t AND 0x0f = pending_iir t)"
  by (rule returns_mono [OF serial_port_consistent]) (simp_all add: host_alive_def serial_world.defs SerialState.defs)

section \<open>Output\<close>

lemma write_thr_reg:
  assumes "serial_inv s" and "\<not> bit (lcr s) 7"
  shows "returns (serial_plus_ioport_write 0 (ucast b) 1 s) (\<lambda>_ t. serial_inv t \<and> sent b s t)"
proof -
  obtain t where t: "write_thr (ucast b) s = Ret () t" "sent (ucast (ucast b :: u64)) s t"
    using write_thr_sent [OF assms(1), of "ucast b"] by blast
  moreover have "ucast (ucast b :: u64) = b" by (rule bit_word_eqI) (simp add: bit_simps)
  ultimately show ?thesis
    using assms(2) sent_inv [OF assms(1) t(2)] by (simp add: serial_plus_ioport_write_def uart_bits)
qed

text \<open>The transmit loop on a queue that holds more than one byte.\<close>

lemma load_next:
  assumes "fifo_ok (xmit_fifo s)" and "contents (xmit_fifo s) = b # cs" and "bit (fcr s) 0" and "\<not> bit (lsr s) 5"
  obtains q x where "fifo_ok q" and "contents q = cs"
    and "load_tsr s = (if cs \<noteq> [] then Ret () (s\<lparr>tsr := b, xmit_fifo := q\<rparr>)
      else let t = s\<lparr>tsr := b, xmit_fifo := q, lsr := lsr s OR 0x20\<rparr>
           in Ret () (if thr_ipending s then t else irq_done (t\<lparr>thr_ipending := True\<rparr>)))"
proof -
  obtain q where q: "fifo8_pop (xmit_fifo s) = Some (b, q)" "fifo_ok q" "contents q = cs"
    using fifo.pop_ok [OF assms(1)] assms(2) by auto
  moreover have "num q = 0 \<longleftrightarrow> cs = []" using fifo_tests(1) [OF q(2)] q(3) by (simp add: fifo8_is_empty_def)
  ultimately show thesis
    using assms(3,4) by (intro that [of q]) (simp_all add: load_tsr_def or_crash_def uart_bits bit_simps Let_def)
qed

lemma xmit_drains:
  "fifo_ok (xmit_fifo s) \<Longrightarrow> contents (xmit_fifo s) = bs \<Longrightarrow> bs \<noteq> [] \<Longrightarrow> bit (fcr s) 0 \<Longrightarrow> \<not> bit (lsr s) 5 \<Longrightarrow> \<not> bit (lsr s) 6
    \<Longrightarrow> \<not> bit (mcr s) 4 \<Longrightarrow> tsr_retry s = 0 \<Longrightarrow>
    returns (serial_xmit s) (\<lambda>_ t. s_stdout t = s_stdout s @ bs \<and> contents (xmit_fifo t) = [] \<and> bit (lsr t) 5 \<and> bit (lsr t) 6)"
proof (induction bs arbitrary: s)
  case (Cons b cs)
  obtain q where q: "fifo_ok q" "contents q = cs"
    "load_tsr s = (if cs \<noteq> [] then Ret () (s\<lparr>tsr := b, xmit_fifo := q\<rparr>)
      else let t = s\<lparr>tsr := b, xmit_fifo := q, lsr := lsr s OR 0x20\<rparr>
           in Ret () (if thr_ipending s then t else irq_done (t\<lparr>thr_ipending := True\<rparr>)))"
    using Cons.prems(1,2,4,5) by (rule load_next)
  show ?case
  proof (cases "cs = []")
    case True
    then show ?thesis
      using q Cons.prems by (subst serial_xmit.simps) (simp add: xmit_byte_def uart_bits bit_simps Let_def)
  next
    case False
    let ?u = "s\<lparr>tsr := b, xmit_fifo := q, s_stdout := s_stdout s @ [b], tsr_retry := 0\<rparr>"
    have "serial_xmit s = serial_xmit ?u"
      using False q(3) Cons.prems by (subst serial_xmit.simps) (simp add: xmit_byte_def uart_bits)
    then show ?thesis
      using Cons.IH [of ?u] False q(1,2) Cons.prems by simp
  qed
qed simp

text \<open>(C14) The transmit loop of the serial port, with the queues enabled and not in loopback mode, ends, for every number of bytes in the transmit queue: it has then written all of them to the
  terminal in the order of the queue, the queue is empty and the line status says so.\<close>

theorem transmit_loop_drains:
  assumes "fifo_ok (xmit_fifo s)" and "contents (xmit_fifo s) \<noteq> []" and "fcr s AND UART_FCR_FE \<noteq> 0"
    and "lsr s AND (UART_LSR_THRE OR UART_LSR_TEMT) = 0" and "mcr s AND UART_MCR_LOOP = 0" and "tsr_retry s = 0"
  shows "\<exists>t. serial_xmit s = Ret () t \<and> s_stdout t = s_stdout s @ contents (xmit_fifo s) \<and> contents (xmit_fifo t) = []
    \<and> lsr t AND (UART_LSR_THRE OR UART_LSR_TEMT) = UART_LSR_THRE OR UART_LSR_TEMT"
proof -
  have "bit (lsr s) n \<longrightarrow> bit (lsr s AND 0x60) n" if "n = 5 \<or> n = 6" for n
    using that by (auto simp: bit_simps)
  then have "\<not> bit (lsr s) 5" "\<not> bit (lsr s) 6" using assms(4) by auto
  then have "returns (serial_xmit s) (\<lambda>_ t. s_stdout t = s_stdout s @ contents (xmit_fifo s) \<and> contents (xmit_fifo t) = [] \<and> bit (lsr t) 5 \<and> bit (lsr t) 6)"
    using assms by (intro xmit_drains) (simp_all add: uart_bits)
  then show ?thesis by (auto simp: returns_iff two_bits)
qed

text \<open>A port after its initialisation, with the given input to come.\<close>

definition fresh_port :: "host_read list \<Rightarrow> serial_world" where
  "fresh_port rs = \<lparr>divider = 12, rbr = 0, thr = 0, tsr = 0, ier = 0, iir = 1, lcr = 0, mcr = 8, lsr = 0x60, msr = 0, scr = 0, fcr = 0,
    thr_ipending = False, last_break_enable = False, tsr_retry = 0, last_xmit_ts = 0, recv_fifo = fifo8_create (\<lambda>_. 0) 16,
    xmit_fifo = fifo8_create (\<lambda>_. 0) 16, recv_fifo_itl = 0, timeout_ipending = False, char_transmit_time = 1041660, poll_msl = 0,
    s_estat = 0, s_stdin = rs, s_stdout = []\<rparr>"

lemma fresh_inv: "serial_inv (fresh_port rs)"
  using fifo_created(1) [of 16 "\<lambda>_. 0"]
  by (simp add: serial_inv_def serial_wf_def irq_shown_def pending_iir_def fresh_port_def) (simp add: fifo8_create_def)

theorem transmit_loop_drains_witness:
  "\<exists>t. serial_xmit ((fresh_port [])\<lparr>fcr := 1, lsr := 0, xmit_fifo := \<lparr>data = [1, 2, 3, 4], capacity = 4, head = 3, num = 2\<rparr>\<rparr>) = Ret () t
    \<and> s_stdout t = [4, 1] \<and> lsr t AND 0x60 = 0x60"
proof -
  let ?q = "\<lparr>data = [1, 2, 3, 4], capacity = 4, head = 3, num = 2\<rparr>"
  have "fifo_ok ?q" "contents ?q = [4, 1]" by (simp_all add: fifo_ok_def contents_def upt_rec)
  then show ?thesis
    using transmit_loop_drains [of "(fresh_port [])\<lparr>fcr := 1, lsr := 0, xmit_fifo := ?q\<rparr>"] by (auto simp: fresh_port_def)
qed

section \<open>The interface\<close>

lemma read_lsr:
  assumes "serial_inv s"
  shows "returns (serial_plus_ioport_read 5 1 s) (\<lambda>l t. serial_inv t \<and> unread t = unread s \<and> lcr t = lcr s \<and> s_stdin t = s_stdin s
    \<and> (l AND 1 \<noteq> 0 \<longleftrightarrow> unread s \<noteq> []))"
proof -
  have dr: "bit (lsr s) 0 \<longleftrightarrow> unread s \<noteq> []"
    using inv_wf [OF assms] by (auto simp: serial_wf_def unread_def split: if_splits)
  have "serial_inv (irq_done (s\<lparr>lsr := lsr s AND NOT (UART_LSR_BI OR UART_LSR_OE)\<rparr>))"
    using inv_wf [OF assms] by (intro irq_done_inv) (simp add: serial_wf_def bit_simps)
  moreover have "(ucast (lsr s) :: u64) AND 1 \<noteq> 0 \<longleftrightarrow> bit (lsr s) 0"
    using and_exp_bit [of "ucast (lsr s) :: u64" 0] by (simp add: bit_simps)
  ultimately show ?thesis using assms dr by (simp add: serial_plus_ioport_read_def Let_def)
qed

lemma read_data:
  assumes "serial_inv s" and "\<not> bit (lcr s) 7" and "unread s \<noteq> []"
  shows "returns (serial_plus_ioport_read 0 1 s) (\<lambda>r t. serial_inv t \<and> lcr t = lcr s \<and> s_stdin t = s_stdin s
    \<and> unread s = ucast r # unread t)"
proof -
  have "ucast (ucast b :: u64) = b" for b :: u8 by (rule bit_word_eqI) (simp add: bit_simps)
  then show ?thesis
    using read_inv [OF assms(1), of 0 1] assms(2,3) by (auto simp: thr_access_def elim!: returns_mono)
qed

text \<open>The port as the interface \<open>uart\<close> wants it: the divisor latch closed, no loopback, the terminal open.\<close>

definition console_inv :: "serial_world \<Rightarrow> bool" where
  "console_inv s \<longleftrightarrow> serial_inv s \<and> host_alive (s_stdin s) \<and> \<not> bit (lcr s) 7 \<and> \<not> bit (mcr s) 4"

interpretation plus: uart serial_check_io "serial_plus_ioport_read 5 1" "serial_plus_ioport_read 0 1"
  "\<lambda>b. serial_plus_ioport_write 0 (ucast b) 1" console_inv "\<lambda>s. unread s \<noteq> []" "\<lambda>s. unread s @ host_bytes (s_stdin s)" s_stdout
proof
  fix s and b :: u8
  assume s: "console_inv s"
  then have i: "serial_inv s" "host_alive (s_stdin s)" "\<not> bit (lcr s) 7" by (simp_all add: console_inv_def)
  show "returns (serial_check_io s) (\<lambda>_ t. console_inv t \<and> unread t @ host_bytes (s_stdin t) = unread s @ host_bytes (s_stdin s)
      \<and> s_stdout t = s_stdout s)"
    unfolding serial_check_io_def using check_io_inv [OF i(1,2)] s by (auto simp: console_inv_def elim: returns_mono)
  show "returns (serial_plus_ioport_read 5 1 s) (\<lambda>l t. console_inv t
      \<and> unread t @ host_bytes (s_stdin t) = unread s @ host_bytes (s_stdin s) \<and> s_stdout t = s_stdout s \<and> (l AND 1 \<noteq> 0 \<longrightarrow> unread t \<noteq> []))"
    by (rule returns_mono [OF returns_conj [OF read_lsr [OF i(1)] read_inv [OF i(1), of 5 1]]]) (use s in \<open>simp add: console_inv_def\<close>)
  show "returns (serial_plus_ioport_read 0 1 s) (\<lambda>r t. console_inv t
      \<and> unread s @ host_bytes (s_stdin s) = ucast r # unread t @ host_bytes (s_stdin t) \<and> s_stdout t = s_stdout s)" if "unread s \<noteq> []"
    by (rule returns_mono [OF returns_conj [OF read_data [OF i(1,3) that] read_inv [OF i(1), of 0 1]]]) (use s in \<open>simp add: console_inv_def\<close>)
  show "returns (serial_plus_ioport_write 0 (ucast b) 1 s) (\<lambda>_ t. console_inv t
      \<and> unread t @ host_bytes (s_stdin t) = unread s @ host_bytes (s_stdin s) \<and> s_stdout t = s_stdout s @ [b])"
    by (rule returns_mono [OF write_thr_reg [OF i(1,3), of b]]) (use s in \<open>simp add: console_inv_def sent_def unread_def\<close>)
qed

text \<open>(C13) With the divisor latch closed and the port not in loopback mode, every byte that the guest writes to the transmit register, with the
  queues enabled or not, appears on the terminal, once and in the order of the writes, before the write returns. A guest that polls the line
  status, reads the data register when it says so and writes what it read back, echoes the input: after any number of rounds the
  terminal shows exactly the bytes that were taken from the input, in order, none lost and none twice, while the rest is still in the port or at the terminal.\<close>

theorem serial_echo:
  assumes "serial_inv s" and "host_alive (s_stdin s)" and "lcr s AND UART_LCR_DLAB = 0" and "mcr s AND UART_MCR_LOOP = 0"
  shows "returns (write_all (\<lambda>b. serial_plus_ioport_write 0 (ucast b) 1) bs s) (\<lambda>_ t. s_stdout t = s_stdout s @ bs)
    \<and> returns (echo serial_check_io (serial_plus_ioport_read 5 1) (serial_plus_ioport_read 0 1)
        (\<lambda>b. serial_plus_ioport_write 0 (ucast b) 1) n s) (\<lambda>_ t.
        \<exists>cs. unread s @ host_bytes (s_stdin s) = cs @ unread t @ host_bytes (s_stdin t) \<and> s_stdout t = s_stdout s @ cs)"
proof
  have i: "console_inv s" using assms by (simp add: console_inv_def uart_bits)
  show "returns (write_all (\<lambda>b. serial_plus_ioport_write 0 (ucast b) 1) bs s) (\<lambda>_ t. s_stdout t = s_stdout s @ bs)"
    by (rule returns_mono [OF plus.write_all_ok [OF i]]) simp
  show "returns (echo serial_check_io (serial_plus_ioport_read 5 1) (serial_plus_ioport_read 0 1)
        (\<lambda>b. serial_plus_ioport_write 0 (ucast b) 1) n s) (\<lambda>_ t.
        \<exists>cs. unread s @ host_bytes (s_stdin s) = cs @ unread t @ host_bytes (s_stdin t) \<and> s_stdout t = s_stdout s @ cs)"
    using plus.echo_ok [OF i] by simp
qed

theorem serial_echo_witness:
  "returns (write_all (\<lambda>b. serial_plus_ioport_write 0 (ucast b) 1) [72, 105] (fresh_port [Byte 104, Again, Byte 105])) (\<lambda>_ t. s_stdout t = [72, 105])
    \<and> returns (echo serial_check_io (serial_plus_ioport_read 5 1) (serial_plus_ioport_read 0 1)
        (\<lambda>b. serial_plus_ioport_write 0 (ucast b) 1) 2 (fresh_port [Byte 104, Again, Byte 105])) (\<lambda>_ t.
        \<exists>cs. [104, 105] = cs @ unread t @ host_bytes (s_stdin t) \<and> s_stdout t = cs)"
  using serial_echo [OF fresh_inv, of "[Byte 104, Again, Byte 105]" "[72, 105]" 2]
  by (simp add: fresh_port_def host_alive_def unread_def contents_def fifo8_create_def)

section \<open>Loopback\<close>

lemma write_all_loop:
  "serial_inv s \<Longrightarrow> \<not> bit (lcr s) 7 \<Longrightarrow> bit (mcr s) 4 \<Longrightarrow> bit (fcr s) 0 \<Longrightarrow> length (unread s) + length bs \<le> 16 \<Longrightarrow>
    returns (write_all (\<lambda>b. serial_plus_ioport_write 0 (ucast b) 1) bs s) (\<lambda>_ t. serial_inv t \<and> s_stdout t = s_stdout s \<and> unread t = unread s @ bs \<and> lcr t = lcr s)"
proof (induction bs arbitrary: s)
  case (Cons b bs)
  have u: "returns (write_all (\<lambda>b. serial_plus_ioport_write 0 (ucast b) 1) bs u) (\<lambda>_ t. serial_inv t \<and> s_stdout t = s_stdout s \<and> unread t = unread s @ b # bs \<and> lcr t = lcr s)"
    if "serial_inv u \<and> sent b s u" for u
  proof -
    have f: "s_stdout u = s_stdout s" "unread u = unread s @ [b]" "lcr u = lcr s" "mcr u = mcr s" "fcr u = fcr s"
      using that Cons.prems by (simp_all add: sent_def unread_def)
    show ?thesis using Cons.IH [of u] that f Cons.prems by simp
  qed
  show ?case
    using returns_seq [OF write_thr_reg [OF Cons.prems(1,2), of b] u] by simp
qed simp

fun read_all :: "nat \<Rightarrow> serial_world \<Rightarrow> (u8 list, serial_world) outcome" where
  "read_all 0 s = Ret [] s"
| "read_all (Suc n) s = bind_out (serial_plus_ioport_read 0 1 s) (\<lambda>b s. bind_out (read_all n s) (\<lambda>bs. Ret (ucast b # bs)))"

lemma read_all_inv:
  "serial_inv s \<Longrightarrow> \<not> bit (lcr s) 7 \<Longrightarrow> n \<le> length (unread s) \<Longrightarrow>
    returns (read_all n s) (\<lambda>bs t. serial_inv t \<and> bs = take n (unread s) \<and> unread t = drop n (unread s) \<and> s_stdout t = s_stdout s)"
proof (induction n arbitrary: s)
  case (Suc n)
  have ne: "unread s \<noteq> []" using Suc.prems(3) by auto
  have r: "returns (serial_plus_ioport_read 0 1 s) (\<lambda>r t. (serial_inv t \<and> lcr t = lcr s \<and> s_stdin t = s_stdin s
      \<and> unread s = ucast r # unread t) \<and> s_stdout t = s_stdout s)"
    by (rule returns_conj [OF read_data [OF Suc.prems(1,2) ne]]) (rule returns_mono [OF read_inv [OF Suc.prems(1)]], simp)
  show ?case
    unfolding read_all.simps
  proof (rule returns_seq [OF r])
    fix b u
    assume u: "(serial_inv u \<and> lcr u = lcr s \<and> s_stdin u = s_stdin s \<and> unread s = ucast b # unread u) \<and> s_stdout u = s_stdout s"
    then have "returns (read_all n u) (\<lambda>bs t. serial_inv t \<and> bs = take n (unread u) \<and> unread t = drop n (unread u) \<and> s_stdout t = s_stdout u)"
      using Suc.IH [of u] Suc.prems(2,3) by simp
    then show "returns (bind_out (read_all n u) (\<lambda>bs. Ret (ucast b # bs)))
        (\<lambda>bs t. serial_inv t \<and> bs = take (Suc n) (unread s) \<and> unread t = drop (Suc n) (unread s) \<and> s_stdout t = s_stdout s)"
      by (rule returns_seq) (use u in simp)
  qed
qed simp

text \<open>In loopback mode with the queues enabled, up to sixteen bytes written to the transmit register are read back from the
  receive register in the order in which they were written, and none of them reaches the terminal.\<close>

theorem loopback_roundtrip:
  assumes "serial_inv s" and "lcr s AND UART_LCR_DLAB = 0" and "mcr s AND UART_MCR_LOOP \<noteq> 0" and "fcr s AND UART_FCR_FE \<noteq> 0"
    and "unread s = []" and "length bs \<le> 16"
  shows "returns (bind_out (write_all (\<lambda>b. serial_plus_ioport_write 0 (ucast b) 1) bs s) (\<lambda>_. read_all (length bs))) (\<lambda>r t. r = bs \<and> unread t = [] \<and> s_stdout t = s_stdout s)"
proof (rule returns_seq [OF write_all_loop])
  fix u assume u: "serial_inv u \<and> s_stdout u = s_stdout s \<and> unread u = unread s @ bs \<and> lcr u = lcr s"
  then have "returns (read_all (length bs) u) (\<lambda>r t. serial_inv t \<and> r = take (length bs) (unread u) \<and> unread t = drop (length bs) (unread u)
      \<and> s_stdout t = s_stdout u)"
    using assms(2,5) by (intro read_all_inv) (simp_all add: uart_bits)
  then show "returns (read_all (length bs) u) (\<lambda>r t. r = bs \<and> unread t = [] \<and> s_stdout t = s_stdout s)"
    by (rule returns_mono) (use u assms(5) in simp)
qed (use assms in \<open>simp_all add: uart_bits\<close>)

theorem loopback_roundtrip_witness:
  "returns (bind_out (write_all (\<lambda>b. serial_plus_ioport_write 0 (ucast b) 1) [1, 2, 3] ((fresh_port [])\<lparr>mcr := 0x10, fcr := 1\<rparr>)) (\<lambda>_. read_all (length [1, 2, 3 :: u8])))
    (\<lambda>r t. r = [1, 2, 3] \<and> unread t = [])"
proof -
  have c: "contents (fifo8_create (\<lambda>_. 0) 16) = []" "fifo_ok (fifo8_create (\<lambda>_. 0) 16)"
    using fifo_created(1) [of 16 "\<lambda>_. 0"] by simp_all
  have i: "serial_inv ((fresh_port [])\<lparr>mcr := 0x10, fcr := 1\<rparr>)"
    using c by (simp add: serial_inv_def serial_wf_def irq_shown_def pending_iir_def fresh_port_def) (simp add: fifo8_create_def)
  show ?thesis
    by (rule returns_mono [OF loopback_roundtrip [OF i]]) (simp_all add: fresh_port_def unread_def c)
qed

end
