(* ===== verification/Dev_Console.thy ===== *)
theory Dev_Console
  imports Dev_Uart
begin

text \<open>
  The default serial port, \<open>device/serial.c\<close>: a port without queues and interrupts that keeps one byte of input. Its state is the global
  struct \<open>s\<close> with \<open>input\<close> and \<open>input_vaild\<close>; \<open>c_stdin\<close> has the results of the coming \<open>read\<close> calls (anything but a byte leaves the port
  without input) and \<open>c_stderr\<close> what the port has printed as output of the guest. The messages for the user are left out.
\<close>

record Console =
  divider :: u16
  ier :: u8
  iir :: u8
  lcr :: u8
  mcr :: u8
  lsr :: u8
  fcr :: u8
  thr_ipending :: bool
  last_break_enable :: bool
  input :: u8
  input_vaild :: bool
  c_stdin :: "host_read list"
  c_stderr :: "u8 list"

definition console_init :: "host_read list \<Rightarrow> Console" where
  "console_init rs = \<lparr>divider = 0, ier = 0, iir = 0x01, lcr = 0, mcr = 0, lsr = 0x60, fcr = 0, thr_ipending = False,
    last_break_enable = False, input = 0x78, input_vaild = False, c_stdin = rs, c_stderr = []\<rparr>"

definition try_read :: "Console \<Rightarrow> Console" where
  "try_read s =
    (if input_vaild s then s
     else case c_stdin s of
       [] \<Rightarrow> s
     | Byte b # rs \<Rightarrow> s\<lparr>input := b, input_vaild := True, c_stdin := rs\<rparr>
     | _ # rs \<Rightarrow> s\<lparr>c_stdin := rs\<rparr>)"

text \<open>\<open>input\<close> is a signed \<open>char\<close>, which the assignment to \<open>ret\<close> extends with its sign.\<close>

definition serial_ioport_read :: "u64 \<Rightarrow> u32 \<Rightarrow> Console \<Rightarrow> (u64, Console) outcome" where
  "serial_ioport_read addr sz s =
    (let s = try_read s in
     if addr = 0 then
       if lcr s AND 0x80 \<noteq> 0 then Ret (ucast (divider s AND 0xff)) s
       else Ret (ucast (scast (input s) :: u32)) (s\<lparr>input_vaild := False\<rparr>)
     else if addr = 1 then
       Ret (if lcr s AND 0x80 \<noteq> 0 then ucast (drop_bit 8 (divider s) AND 0xff) else ucast (ier s)) s
     else if addr = 2 then
       Ret 0 (if input_vaild s then s\<lparr>iir := 0x04\<rparr> else if iir s AND 0x06 = 0x02 then s\<lparr>thr_ipending := False\<rparr> else s)
     else if addr = 3 \<or> addr = 4 then Ret 0 s
     else if addr = 5 then Ret (ucast (lsr s) OR (if input_vaild s then 1 else 0)) s
     else if addr = 6 then Ret 0xb0 s
     else if addr = 7 then Ret 0 s
     else Crash)"

definition serial_ioport_write :: "u64 \<Rightarrow> u64 \<Rightarrow> u32 \<Rightarrow> Console \<Rightarrow> (unit, Console) outcome" where
  "serial_ioport_write addr val sz s =
    (let s = try_read s in
     if addr = 0 then
       if lcr s AND 0x80 \<noteq> 0 then Ret () (s\<lparr>divider := (divider s AND 0xff00) OR (ucast val AND 0xff)\<rparr>)
       else let s = s\<lparr>c_stderr := c_stderr s @ [ucast val], lsr := lsr s OR 0x60\<rparr>
            in Ret () (if input_vaild s then s\<lparr>iir := iir s OR 0x04, thr_ipending := False\<rparr>
                       else s\<lparr>iir := iir s OR 0x02, thr_ipending := True\<rparr>)
     else if addr = 1 then
       if lcr s AND 0x80 \<noteq> 0 then Ret () (s\<lparr>divider := (divider s AND 0xff) OR ucast (push_bit 8 val AND 0xff)\<rparr>)
       else Ret () (s\<lparr>ier := ucast val AND 0x0f\<rparr>)
     else if addr = 2 then Ret () (s\<lparr>fcr := ucast val AND 0xc9\<rparr>)
     else if addr = 3 then Ret () (s\<lparr>lcr := ucast val, last_break_enable := bit val 6\<rparr>)
     else if addr = 4 then Ret () (s\<lparr>mcr := ucast val AND 0x1f\<rparr>)
     else if addr = 5 \<or> addr = 6 \<or> addr = 7 then Ret () s
     else Crash)"

text \<open>What the guest has not read yet.\<close>

definition held :: "Console \<Rightarrow> u8 list" where
  "held s = (if input_vaild s then [input s] else [])"

lemma try_read_keeps:
  "held (try_read s) @ host_bytes (c_stdin (try_read s)) = held s @ host_bytes (c_stdin s)"
  "lcr (try_read s) = lcr s" "c_stderr (try_read s) = c_stderr s" "lsr (try_read s) = lsr s"
  by (auto simp: try_read_def held_def split: list.splits host_read.splits)

lemma low_byte_back:
  "ucast (ucast (scast (b :: u8) :: u32) :: u64) = b" "ucast (ucast b :: u64) = b"
  by (rule bit_word_eqI; simp add: bit_simps)+

text \<open>The line status without input: bit 0 is clear.\<close>

definition port_inv :: "Console \<Rightarrow> bool" where
  "port_inv s \<longleftrightarrow> \<not> bit (lcr s) 7 \<and> \<not> bit (lsr s) 0"

lemma dlab_bit: "(w :: u8) AND 0x80 = 0 \<longleftrightarrow> \<not> bit w 7"
  using and_exp_eq_0_iff_not_bit [of w 7] by simp

lemma dr_bit: "(w :: u64) AND 1 = 0 \<longleftrightarrow> \<not> bit w 0"
  using and_exp_eq_0_iff_not_bit [of w 0] by simp

interpretation dflt: uart "Ret ()" "serial_ioport_read 5 1" "serial_ioport_read 0 1" "\<lambda>b. serial_ioport_write 0 (ucast b) 1"
  port_inv input_vaild "\<lambda>s. held s @ host_bytes (c_stdin s)" c_stderr
proof
  fix s and b :: u8
  assume i: "port_inv s"
  have t: "port_inv (try_read s)" using i by (simp add: port_inv_def try_read_keeps)
  show "returns (Ret () s) (\<lambda>_ t. port_inv t \<and> held t @ host_bytes (c_stdin t) = held s @ host_bytes (c_stdin s) \<and> c_stderr t = c_stderr s)"
    using i by simp
  show "returns (serial_ioport_read 5 1 s) (\<lambda>l t. port_inv t \<and> held t @ host_bytes (c_stdin t) = held s @ host_bytes (c_stdin s)
      \<and> c_stderr t = c_stderr s \<and> (l AND 1 \<noteq> 0 \<longrightarrow> input_vaild t))"
    using t by (simp add: serial_ioport_read_def Let_def try_read_keeps port_inv_def dr_bit bit_simps)
  show "returns (serial_ioport_read 0 1 s) (\<lambda>r t. port_inv t \<and> held s @ host_bytes (c_stdin s) = ucast r # held t @ host_bytes (c_stdin t)
      \<and> c_stderr t = c_stderr s)" if "input_vaild s"
    using t i that by (simp add: serial_ioport_read_def try_read_def port_inv_def dlab_bit held_def low_byte_back)
  show "returns (serial_ioport_write 0 (ucast b) 1 s) (\<lambda>_ t. port_inv t
      \<and> held t @ host_bytes (c_stdin t) = held s @ host_bytes (c_stdin s) \<and> c_stderr t = c_stderr s @ [b])"
    using t try_read_keeps [of s]
    by (cases "input_vaild s"; cases "input_vaild (try_read s)")
      (simp_all add: serial_ioport_write_def Let_def port_inv_def dlab_bit low_byte_back bit_simps held_def)
qed

text \<open>On the default serial port, with the divisor latch closed, the bytes that the guest writes are printed in order, and a guest that polls the
  line status, reads a byte when there is one and writes it back echoes the input: after any number of rounds the output is exactly the bytes that
  were taken from the input, in order, none lost and none twice.\<close>

theorem console_echo:
  assumes "lcr s AND 0x80 = 0" and "lsr s AND 1 = 0"
  shows "returns (write_all (\<lambda>b. serial_ioport_write 0 (ucast b) 1) bs s) (\<lambda>_ t. c_stderr t = c_stderr s @ bs)
    \<and> returns (echo (Ret ()) (serial_ioport_read 5 1) (serial_ioport_read 0 1) (\<lambda>b. serial_ioport_write 0 (ucast b) 1) n s) (\<lambda>_ t.
        \<exists>cs. held s @ host_bytes (c_stdin s) = cs @ held t @ host_bytes (c_stdin t) \<and> c_stderr t = c_stderr s @ cs)"
proof
  have i: "port_inv s" using assms and_exp_eq_0_iff_not_bit [of "lsr s" 0] by (simp add: port_inv_def dlab_bit)
  show "returns (write_all (\<lambda>b. serial_ioport_write 0 (ucast b) 1) bs s) (\<lambda>_ t. c_stderr t = c_stderr s @ bs)"
    by (rule returns_mono [OF dflt.write_all_ok [OF i]]) simp
  show "returns (echo (Ret ()) (serial_ioport_read 5 1) (serial_ioport_read 0 1) (\<lambda>b. serial_ioport_write 0 (ucast b) 1) n s) (\<lambda>_ t.
        \<exists>cs. held s @ host_bytes (c_stdin s) = cs @ held t @ host_bytes (c_stdin t) \<and> c_stderr t = c_stderr s @ cs)"
    using dflt.echo_ok [OF i] by simp
qed

theorem console_echo_witness:
  "returns (write_all (\<lambda>b. serial_ioport_write 0 (ucast b) 1) [72, 105] (console_init [Byte 65])) (\<lambda>_ t. c_stderr t = [72, 105])
    \<and> returns (echo (Ret ()) (serial_ioport_read 5 1) (serial_ioport_read 0 1) (\<lambda>b. serial_ioport_write 0 (ucast b) 1) 3 (console_init [Byte 65])) (\<lambda>_ t.
        \<exists>cs. [65] = cs @ held t @ host_bytes (c_stdin t) \<and> c_stderr t = cs)"
  using console_echo [of "console_init [Byte 65]" "[72, 105]" 3] by (simp add: console_init_def held_def)

text \<open>A write of the high byte of the divisor latch on the default serial port clears it, whatever is written: the code masks the shifted value with
  0xff. What the guest then reads back as the high byte is 0.\<close>

theorem divisor_high_byte_lost:
  assumes "lcr s AND 0x80 \<noteq> 0"
  shows "returns (bind_out (serial_ioport_write 1 val 1 s) (\<lambda>_. serial_ioport_read 1 1)) (\<lambda>r t. r = 0 \<and> divider t = divider s AND 0xff)"
proof -
  have m: "(0xff :: 'a::len word) = mask 8" by (simp add: mask_numeral)
  have z: "(push_bit 8 val AND 0xff :: u64) = 0" unfolding m by (rule bit_word_eqI) (simp add: bit_simps)
  have d: "drop_bit 8 (w AND 0xff) AND 0xff = (0 :: u16)" for w :: u16
    unfolding m by (rule bit_word_eqI) (simp add: bit_simps)
  have k: "divider (try_read t) = divider t \<and> lcr (try_read t) = lcr t" for t
    by (auto simp: try_read_def split: list.splits host_read.splits)
  show ?thesis
    using assms k [of s] by (simp add: serial_ioport_write_def serial_ioport_read_def z d k Let_def)
qed

theorem divisor_high_byte_lost_witness:
  "returns (bind_out (serial_ioport_write 1 1 1 ((console_init [])\<lparr>lcr := 0x80, divider := 0x0c\<rparr>)) (\<lambda>_. serial_ioport_read 1 1))
    (\<lambda>r t. r = 0 \<and> divider t = 0x0c)"
  using divisor_high_byte_lost [of "(console_init [])\<lparr>lcr := 0x80, divider := 0x0c\<rparr>" 1] by simp

end
