(* ===== verification/RV_State.thy ===== *)
theory RV_State
  imports Bytes Bitops Device_IO
begin

text \<open>
  The RISC-V target: constants of \<open>riscv64/cpu_bits.h\<close> and \<open>pmp.h\<close>, the CPU state of \<open>riscv64/cpu.h\<close>, the address map and the RAM.

  \<^item> The model is of system emulation of a 64-bit core as \<open>cpu_reset\<close> sets it up: \<open>misa_ext\<close> has no hypervisor extension and no write changes
    it (\<open>misa_w\<close> is off). \<open>virt_enabled\<close> is then false and stays so; the branches under \<open>RVH\<close>, \<open>virt_enabled\<close> and two-stage translation are left
    out, with the registers that only they use.
  \<^item> \<open>CPURISCVState\<close> has the fields of the struct that the modelled code uses, with \<open>exception_index\<close> and the translation buffer \<open>tlb\<close> of
    \<open>CPUState\<close> and the configuration \<open>cfg\<close> of \<open>RISCVCPU\<close>. \<open>rv_irq\<close>, its first part, is what the interrupt lines and the timer act on: \<open>clock_seq\<close> are the values that
    \<open>nano_second\<close> returns and \<open>clock_pos\<close> counts those used, \<open>host_timer\<close> is the expiry last given to the host timer. \<open>rv_machine\<close> adds the RAM
    and the devices, which act on \<open>'d rv_world\<close>: their own state, the interrupt part and the RAM.
  \<^item> A name that the LoongArch target has too carries the suffix \<open>rv\<close>.
  \<^item> \<open>get_field\<close> and \<open>set_field\<close> are the macros that find a field by its mask; the lemmas give their bits for a mask of adjacent ones.
\<close>

section \<open>Constants\<close>

abbreviation MSTATUS_SIE :: u64 where "MSTATUS_SIE \<equiv> 0x2"
abbreviation MSTATUS_MIE :: u64 where "MSTATUS_MIE \<equiv> 0x8"
abbreviation MSTATUS_SPIE :: u64 where "MSTATUS_SPIE \<equiv> 0x20"
abbreviation MSTATUS_MPIE :: u64 where "MSTATUS_MPIE \<equiv> 0x80"
abbreviation MSTATUS_SPP :: u64 where "MSTATUS_SPP \<equiv> 0x100"
abbreviation MSTATUS_MPP :: u64 where "MSTATUS_MPP \<equiv> 0x1800"
abbreviation MSTATUS_FS :: u64 where "MSTATUS_FS \<equiv> 0x6000"
abbreviation MSTATUS_MPRV :: u64 where "MSTATUS_MPRV \<equiv> 0x20000"
abbreviation MSTATUS_SUM :: u64 where "MSTATUS_SUM \<equiv> 0x40000"
abbreviation MSTATUS_MXR :: u64 where "MSTATUS_MXR \<equiv> 0x80000"
abbreviation MSTATUS_TVM :: u64 where "MSTATUS_TVM \<equiv> 0x100000"
abbreviation MSTATUS_TW :: u64 where "MSTATUS_TW \<equiv> 0x200000"
abbreviation MSTATUS_TSR :: u64 where "MSTATUS_TSR \<equiv> 0x400000"
abbreviation MSTATUS_SPELP :: u64 where "MSTATUS_SPELP \<equiv> 0x800000"
abbreviation MSTATUS_MPELP :: u64 where "MSTATUS_MPELP \<equiv> 0x20000000000"
abbreviation MSTATUS_MPV :: u64 where "MSTATUS_MPV \<equiv> 0x8000000000"
abbreviation MSTATUS64_UXL :: u64 where "MSTATUS64_UXL \<equiv> 0x300000000"
abbreviation MSTATUS64_SXL :: u64 where "MSTATUS64_SXL \<equiv> 0xc00000000"
abbreviation SATP64_MODE :: u64 where "SATP64_MODE \<equiv> 0xf000000000000000"
abbreviation SATP64_PPN :: u64 where "SATP64_PPN \<equiv> 0xfffffffffff"
abbreviation VM_1_10_MBARE :: u64 where "VM_1_10_MBARE \<equiv> 0"
abbreviation VM_1_10_SV32 :: u64 where "VM_1_10_SV32 \<equiv> 1"
abbreviation VM_1_10_SV39 :: u64 where "VM_1_10_SV39 \<equiv> 8"
abbreviation VM_1_10_SV48 :: u64 where "VM_1_10_SV48 \<equiv> 9"
abbreviation VM_1_10_SV57 :: u64 where "VM_1_10_SV57 \<equiv> 10"
abbreviation PRV_U :: u64 where "PRV_U \<equiv> 0"
abbreviation PRV_S :: u64 where "PRV_S \<equiv> 1"
abbreviation PRV_M :: u64 where "PRV_M \<equiv> 3"
abbreviation PTE_V :: u64 where "PTE_V \<equiv> 0x1"
abbreviation PTE_R :: u64 where "PTE_R \<equiv> 0x2"
abbreviation PTE_W :: u64 where "PTE_W \<equiv> 0x4"
abbreviation PTE_X :: u64 where "PTE_X \<equiv> 0x8"
abbreviation PTE_U :: u64 where "PTE_U \<equiv> 0x10"
abbreviation PTE_A :: u64 where "PTE_A \<equiv> 0x40"
abbreviation PTE_D :: u64 where "PTE_D \<equiv> 0x80"
abbreviation PTE_PBMT :: u64 where "PTE_PBMT \<equiv> 0x6000000000000000"
abbreviation PTE_N :: u64 where "PTE_N \<equiv> 0x8000000000000000"
abbreviation PTE_RESERVED :: u64 where "PTE_RESERVED \<equiv> 0x1fc0000000000000"
abbreviation PTE_PPN_MASK :: u64 where "PTE_PPN_MASK \<equiv> 0x3ffffffffffc00"
abbreviation PTE_PPN_SHIFT :: nat where "PTE_PPN_SHIFT \<equiv> 10"
abbreviation PGSHIFT :: nat where "PGSHIFT \<equiv> 12"
abbreviation MENVCFG_ADUE :: u64 where "MENVCFG_ADUE \<equiv> 0x2000000000000000"
abbreviation MENVCFG_PBMTE :: u64 where "MENVCFG_PBMTE \<equiv> 0x4000000000000000"
abbreviation MIP_VSSIP :: u64 where "MIP_VSSIP \<equiv> 0x4"
abbreviation MIP_VSTIP :: u64 where "MIP_VSTIP \<equiv> 0x40"
abbreviation MIP_VSEIP :: u64 where "MIP_VSEIP \<equiv> 0x400"
abbreviation MIP_SGEIP :: u64 where "MIP_SGEIP \<equiv> 0x1000"
abbreviation MXL_RV32 :: u64 where "MXL_RV32 \<equiv> 1"
abbreviation MXL_RV64 :: u64 where "MXL_RV64 \<equiv> 2"
abbreviation MXL_RV128 :: u64 where "MXL_RV128 \<equiv> 3"
abbreviation RISCV_EXCP_INST_ADDR_MIS :: u32 where "RISCV_EXCP_INST_ADDR_MIS \<equiv> 0x0"
abbreviation RISCV_EXCP_INST_ACCESS_FAULT :: u32 where "RISCV_EXCP_INST_ACCESS_FAULT \<equiv> 0x1"
abbreviation RISCV_EXCP_ILLEGAL_INST :: u32 where "RISCV_EXCP_ILLEGAL_INST \<equiv> 0x2"
abbreviation RISCV_EXCP_BREAKPOINT :: u32 where "RISCV_EXCP_BREAKPOINT \<equiv> 0x3"
abbreviation RISCV_EXCP_LOAD_ADDR_MIS :: u32 where "RISCV_EXCP_LOAD_ADDR_MIS \<equiv> 0x4"
abbreviation RISCV_EXCP_LOAD_ACCESS_FAULT :: u32 where "RISCV_EXCP_LOAD_ACCESS_FAULT \<equiv> 0x5"
abbreviation RISCV_EXCP_STORE_AMO_ADDR_MIS :: u32 where "RISCV_EXCP_STORE_AMO_ADDR_MIS \<equiv> 0x6"
abbreviation RISCV_EXCP_STORE_AMO_ACCESS_FAULT :: u32 where "RISCV_EXCP_STORE_AMO_ACCESS_FAULT \<equiv> 0x7"
abbreviation RISCV_EXCP_U_ECALL :: u32 where "RISCV_EXCP_U_ECALL \<equiv> 0x8"
abbreviation RISCV_EXCP_S_ECALL :: u32 where "RISCV_EXCP_S_ECALL \<equiv> 0x9"
abbreviation RISCV_EXCP_M_ECALL :: u32 where "RISCV_EXCP_M_ECALL \<equiv> 0xb"
abbreviation RISCV_EXCP_INST_PAGE_FAULT :: u32 where "RISCV_EXCP_INST_PAGE_FAULT \<equiv> 0xc"
abbreviation RISCV_EXCP_LOAD_PAGE_FAULT :: u32 where "RISCV_EXCP_LOAD_PAGE_FAULT \<equiv> 0xd"
abbreviation RISCV_EXCP_STORE_PAGE_FAULT :: u32 where "RISCV_EXCP_STORE_PAGE_FAULT \<equiv> 0xf"
abbreviation RISCV_EXCP_SW_CHECK :: u32 where "RISCV_EXCP_SW_CHECK \<equiv> 0x12"
abbreviation RISCV_EXCP_INT_FLAG :: u32 where "RISCV_EXCP_INT_FLAG \<equiv> 0x80000000"
abbreviation RISCV_EXCP_INT_MASK :: u32 where "RISCV_EXCP_INT_MASK \<equiv> 0x7fffffff"
abbreviation IRQ_S_EXT :: nat where "IRQ_S_EXT \<equiv> 9"
abbreviation IRQ_M_EXT :: nat where "IRQ_M_EXT \<equiv> 11"
abbreviation IRQ_M_TIMER :: nat where "IRQ_M_TIMER \<equiv> 7"
abbreviation PRV_RESERVED :: u64 where "PRV_RESERVED \<equiv> 2"
abbreviation IPRIO_DEFAULT_M :: u32 where "IPRIO_DEFAULT_M \<equiv> 16"
abbreviation IPRIO_DEFAULT_S :: u32 where "IPRIO_DEFAULT_S \<equiv> 19"
abbreviation PTE_ATTR :: u64 where "PTE_ATTR \<equiv> PTE_N OR PTE_PBMT"
abbreviation MENVCFG_LPE :: u64 where "MENVCFG_LPE \<equiv> 4"
abbreviation MENVCFG_SSE :: u64 where "MENVCFG_SSE \<equiv> 8"
abbreviation SENVCFG_LPE :: u64 where "SENVCFG_LPE \<equiv> 4"
abbreviation SENVCFG_SSE :: u64 where "SENVCFG_SSE \<equiv> 8"
abbreviation MAX_RISCV_PMPS :: nat where "MAX_RISCV_PMPS \<equiv> 16"
abbreviation TARGET_PAGE_BITS_rv :: nat where "TARGET_PAGE_BITS_rv \<equiv> 12"
abbreviation TARGET_PAGE_SIZE :: u64 where "TARGET_PAGE_SIZE \<equiv> 0x1000"
abbreviation TARGET_PAGE_MASK_rv :: u64 where "TARGET_PAGE_MASK_rv \<equiv> NOT 0xfff"
abbreviation PAGE_READ_rv :: u32 where "PAGE_READ_rv \<equiv> 1"
abbreviation PAGE_WRITE_rv :: u32 where "PAGE_WRITE_rv \<equiv> 2"
abbreviation PAGE_EXEC_rv :: u32 where "PAGE_EXEC_rv \<equiv> 4"
abbreviation PMP_READ :: u8 where "PMP_READ \<equiv> 1"
abbreviation PMP_WRITE :: u8 where "PMP_WRITE \<equiv> 2"
abbreviation PMP_EXEC :: u8 where "PMP_EXEC \<equiv> 4"
abbreviation PMP_AMATCH :: u8 where "PMP_AMATCH \<equiv> 0x18"
abbreviation PMP_LOCK :: u8 where "PMP_LOCK \<equiv> 0x80"
abbreviation PMP_AMATCH_OFF :: u8 where "PMP_AMATCH_OFF \<equiv> 0"
abbreviation PMP_AMATCH_TOR :: u8 where "PMP_AMATCH_TOR \<equiv> 1"
abbreviation PMP_AMATCH_NA4 :: u8 where "PMP_AMATCH_NA4 \<equiv> 2"
abbreviation PMP_AMATCH_NAPOT :: u8 where "PMP_AMATCH_NAPOT \<equiv> 3"
abbreviation MSECCFG_MML :: u64 where "MSECCFG_MML \<equiv> 1"
abbreviation MSECCFG_MMWP :: u64 where "MSECCFG_MMWP \<equiv> 2"
abbreviation MSECCFG_RLB :: u64 where "MSECCFG_RLB \<equiv> 4"
abbreviation MSECCFG_MLPE :: u64 where "MSECCFG_MLPE \<equiv> 0x400"

text \<open>\<open>MMUAccessType\<close>, with its numbers.\<close>

datatype MMUAccessType = MMU_DATA_LOAD | MMU_DATA_STORE | MMU_INST_FETCH

definition access_number :: "MMUAccessType \<Rightarrow> nat" where
  "access_number t = (case t of MMU_DATA_LOAD \<Rightarrow> 0 | MMU_DATA_STORE \<Rightarrow> 1 | MMU_INST_FETCH \<Rightarrow> 2)"

section \<open>Fields by mask\<close>

definition low_one :: "u64 \<Rightarrow> u64" where
  "low_one m = m AND NOT (push_bit 1 m)"

definition get_field :: "u64 \<Rightarrow> u64 \<Rightarrow> u64" where
  "get_field reg m = (reg AND m) div low_one m"

definition set_field :: "u64 \<Rightarrow> u64 \<Rightarrow> u64 \<Rightarrow> u64" where
  "set_field reg m val = (reg AND NOT m) OR ((val * low_one m) AND m)"

text \<open>A mask of \<open>k\<close> ones from bit \<open>n\<close>.\<close>

definition ones :: "nat \<Rightarrow> nat \<Rightarrow> u64" where
  "ones n k = push_bit n (mask k)"

lemma word_size_64: "LENGTH(64) = 64"
  by simp

lemma bit_ones: "bit (ones n k) i \<longleftrightarrow> n \<le> i \<and> i < n + k \<and> i < 64"
  by (auto simp: ones_def bit_simps)

lemma low_one_ones:
  assumes "0 < k" and "n + k \<le> 64"
  shows "low_one (ones n k) = 2 ^ n"
proof (rule bit_word_eqI)
  fix i assume "i < LENGTH(64)"
  moreover have "bit (push_bit 1 (ones n k)) i \<longleftrightarrow> 1 \<le> i \<and> n \<le> i - 1 \<and> i - 1 < n + k \<and> i < 64"
    by (auto simp only: bit_push_bit_iff bit_ones possible_bit_word word_size_64)
  ultimately show "bit (low_one (ones n k)) i = bit (2 ^ n :: u64) i"
    using assms by (auto simp: low_one_def bit_and_iff bit_not_iff bit_ones bit_exp_iff)
qed

lemma get_field_ones:
  assumes "0 < k" and "n + k \<le> 64"
  shows "get_field reg (ones n k) = take_bit k (drop_bit n reg)"
proof -
  have "(reg AND ones n k) div 2 ^ n = drop_bit n (reg AND ones n k)"
    by (simp add: drop_bit_eq_div)
  also have "\<dots> = take_bit k (drop_bit n reg)"
    using assms by (intro bit_word_eqI) (auto simp: bit_ones bit_simps)
  finally show ?thesis using assms by (simp add: get_field_def low_one_ones)
qed

lemma bit_set_field:
  assumes "0 < k" and "n + k \<le> 64"
  shows "bit (set_field reg (ones n k) val) i = (if n \<le> i \<and> i < n + k then bit val (i - n) else bit reg i)"
proof -
  have "val * low_one (ones n k) = push_bit n val"
    using low_one_ones [OF assms] by (simp add: push_bit_eq_mult)
  then show ?thesis
    using assms by (auto simp: set_field_def bit_ones bit_simps)
qed

lemma get_set_same:
  assumes "0 < k" and "n + k \<le> 64"
  shows "get_field (set_field reg (ones n k) val) (ones n k) = take_bit k val"
  using assms by (intro bit_word_eqI) (auto simp: get_field_ones bit_set_field bit_simps)

lemma get_set_other:
  assumes "0 < k" and "n + k \<le> 64" and "0 < l" and "j + l \<le> 64" and "n + k \<le> j \<or> j + l \<le> n"
  shows "get_field (set_field reg (ones n k) val) (ones j l) = get_field reg (ones j l)"
  using assms by (intro bit_word_eqI) (auto simp: get_field_ones bit_set_field bit_simps)

lemma set_field_get:
  assumes "0 < k" and "n + k \<le> 64"
  shows "set_field reg (ones n k) (get_field reg (ones n k)) = reg"
  using assms by (intro bit_word_eqI) (auto simp: get_field_ones bit_set_field bit_simps)

lemma field_ones:
  "MSTATUS_SIE = ones 1 1" "MSTATUS_MIE = ones 3 1" "MSTATUS_SPIE = ones 5 1" "MSTATUS_MPIE = ones 7 1" "MSTATUS_SPP = ones 8 1"
  "MSTATUS_MPP = ones 11 2" "MSTATUS_FS = ones 13 2" "MSTATUS_MPRV = ones 17 1" "MSTATUS_SUM = ones 18 1" "MSTATUS_MXR = ones 19 1"
  "MSTATUS_TSR = ones 22 1" "MSTATUS_SPELP = ones 23 1" "MSTATUS_MPELP = ones 41 1" "MSTATUS_MPV = ones 39 1"
  "MSTATUS64_UXL = ones 32 2" "MSTATUS64_SXL = ones 34 2" "SATP64_MODE = ones 60 4" "SATP64_PPN = ones 0 44"
  "MSECCFG_MML = ones 0 1" "MSECCFG_MMWP = ones 1 1" "MSECCFG_RLB = ones 2 1"
  by (simp_all add: ones_def mask_numeral)

section \<open>State\<close>

record pmp_entry_t =
  addr_reg :: u64
  cfg_reg :: u8

record pmp_addr_t =
  pmp_sa :: u64
  pmp_ea :: u64

record pmp_table_t =
  pmp :: "pmp_entry_t list"
  pmp_addr :: "pmp_addr_t list"
  num_rules :: u32

record CPUTLBEntry =
  addr_read :: u64
  addr_write :: u64
  addr_code :: u64
  addend :: u64

record RISCVCPUConfig =
  ext_zicntr :: bool
  ext_zifencei :: bool
  ext_zicsr :: bool
  ext_zicfilp :: bool
  ext_zicfiss :: bool
  ext_svadu :: bool
  ext_svade :: bool
  ext_svnapot :: bool
  ext_svpbmt :: bool
  ext_smaia :: bool
  ext_ssaia :: bool
  ext_smepmp :: bool
  cfg_mmu :: bool
  cfg_pmp :: bool

record rv_irq =
  mip :: u64
  external_seip :: bool
  software_seip :: bool
  irq_count :: u64
  clint_mtimecmp :: u64
  host_timer :: u64
  icount :: u64
  determined :: bool
  clock_seq :: "nat \<Rightarrow> u64"
  clock_pos :: nat

record CPURISCVState = rv_irq +
  gpr :: "nat \<Rightarrow> u64"
  pc :: u64
  load_res :: u64
  load_val :: u64
  fpr :: "nat \<Rightarrow> u64"
  badaddr :: u64
  bins :: u64
  misa_mxl :: u64
  misa_ext :: u64
  xl :: u64
  ol :: u64
  address_xl :: u64
  elp :: bool
  excp_uw2 :: u64
  sw_check_code :: u64
  priv :: u64
  menvcfg :: u64
  senvcfg :: u64
  priv_ver :: u64
  resetvec :: u64
  mstatus :: u64
  miclaim :: u64
  mie :: u64
  mideleg :: u64
  sie :: u64
  satp :: u64
  stval :: u64
  medeleg :: u64
  stvec :: u64
  sepc :: u64
  scause :: u64
  mtvec :: u64
  mepc :: u64
  mcause :: u64
  mtval :: u64
  miprio :: "nat \<Rightarrow> u8"
  siprio :: "nat \<Rightarrow> u8"
  mvien :: u64
  mvip :: u64
  pmp_state :: pmp_table_t
  mseccfg :: u64
  cur_insn_len :: u32
  ecount :: u64
  tlbr_count :: u64
  timer_int :: bool
  exception_index :: u32
  tlb :: "nat \<Rightarrow> nat \<Rightarrow> CPUTLBEntry"
  cfg :: RISCVCPUConfig

text \<open>What the devices act on, and the whole machine.\<close>

type_synonym 'd rv_world = "'d \<times> rv_irq \<times> (u64 \<Rightarrow> u8)"

record 'd rv_machine = CPURISCVState +
  ram :: "u64 \<Rightarrow> u8"
  ram_size :: u64
  io_devices :: "'d rv_world io_device_t list"
  devs :: 'd

text \<open>The state as \<open>main\<close> allocates it, zeroed, with \<open>sz\<close> bytes of RAM above 2 GB.\<close>

definition zeroed_cfg :: RISCVCPUConfig where
  "zeroed_cfg = \<lparr>ext_zicntr = False, ext_zifencei = False, ext_zicsr = False, ext_zicfilp = False, ext_zicfiss = False, ext_svadu = False, ext_svade = False, ext_svnapot = False, ext_svpbmt = False, ext_smaia = False, ext_ssaia = False, ext_smepmp = False, cfg_mmu = False, cfg_pmp = False\<rparr>"

definition zeroed_rv :: "u64 \<Rightarrow> 'd rv_world io_device_t list \<Rightarrow> 'd \<Rightarrow> 'd rv_machine" where
  "zeroed_rv sz ds d = \<lparr>
    mip = 0, external_seip = False, software_seip = False, irq_count = 0, clint_mtimecmp = 0, host_timer = 0, icount = 0, determined = False, clock_seq = \<lambda>_. 0, clock_pos = 0,
    gpr = \<lambda>_. 0, pc = 0, load_res = 0, load_val = 0, fpr = \<lambda>_. 0, badaddr = 0, bins = 0, misa_mxl = 0,
    misa_ext = 0, xl = 0, ol = 0, address_xl = 0, elp = False, excp_uw2 = 0, sw_check_code = 0, priv = 0, menvcfg = 0,
    senvcfg = 0, priv_ver = 0, resetvec = 0, mstatus = 0, miclaim = 0, mie = 0, mideleg = 0, sie = 0, satp = 0, stval = 0,
    medeleg = 0, stvec = 0, sepc = 0, scause = 0, mtvec = 0, mepc = 0, mcause = 0, mtval = 0, miprio = \<lambda>_. 0,
    siprio = \<lambda>_. 0, mvien = 0, mvip = 0,
    pmp_state = \<lparr>pmp = replicate MAX_RISCV_PMPS \<lparr>addr_reg = 0, cfg_reg = 0\<rparr>, pmp_addr = replicate MAX_RISCV_PMPS \<lparr>pmp_sa = 0, pmp_ea = 0\<rparr>, num_rules = 0\<rparr>,
    mseccfg = 0, cur_insn_len = 0, ecount = 0, tlbr_count = 0, timer_int = False, exception_index = 0,
    tlb = \<lambda>_ _. \<lparr>addr_read = 0, addr_write = 0, addr_code = 0, addend = 0\<rparr>, cfg = zeroed_cfg,
    ram = \<lambda>_. 0, ram_size = sz, io_devices = ds,
    devs = d\<rparr>"

text \<open>\<open>tlb_flush\<close> (\<open>cpu.c\<close>) fills the translation buffer with ones.\<close>

definition no_entry :: CPUTLBEntry where
  "no_entry = \<lparr>addr_read = - 1, addr_write = - 1, addr_code = - 1, addend = - 1\<rparr>"

definition tlb_flush_rv :: "'d rv_machine \<Rightarrow> 'd rv_machine" where
  "tlb_flush_rv env = env\<lparr>tlb := \<lambda>_ _. no_entry\<rparr>"

definition RV :: "nat \<Rightarrow> u64" where
  "RV n = push_bit n 1"

definition riscv_has_ext :: "'d rv_machine \<Rightarrow> u64 \<Rightarrow> bool" where
  "riscv_has_ext env ext = (misa_ext env AND ext \<noteq> 0)"

end
