(* ===== verification/RV_PMP.thy ===== *)
theory RV_PMP
  imports RV_State
begin

text \<open>
  Physical memory protection (\<open>riscv64/pmp.c\<close>): sixteen entries, each with a configuration byte and an address register, and for each
  the range of addresses that they give, kept up to date by the writes of the CSRs.

  \<^item> An index is a natural number; the arrays have \<open>MAX_RISCV_PMPS\<close> elements (\<open>pmp_wf\<close>).
  \<^item> The functions that return a verdict and write \<open>allowed_privs\<close> return both. \<open>None\<close> is a failed assertion (\<open>g_assert_not_reached\<close>).
  \<^item> \<open>rule_range\<close> is the range of an entry as \<open>pmp_update_rule_addr\<close> computes it. The invariant \<open>pmp_inv\<close> says that the entries in use have
    their range and that \<open>num_rules\<close> counts them.

  The lemmas compare the check with the rules of the architecture (the lowest-numbered entry that touches the access decides), show
  that a page is cached as a whole only if the rules do not split it, and that a locked entry does not change.
\<close>

section \<open>Entries\<close>

definition pmp_get_a_field :: "u8 \<Rightarrow> u8" where
  "pmp_get_a_field c = drop_bit 3 c AND 3"

definition MSECCFG_MML_ISSET :: "'d rv_machine \<Rightarrow> bool" where
  "MSECCFG_MML_ISSET env = (get_field (mseccfg env) MSECCFG_MML \<noteq> 0)"

definition MSECCFG_MMWP_ISSET :: "'d rv_machine \<Rightarrow> bool" where
  "MSECCFG_MMWP_ISSET env = (get_field (mseccfg env) MSECCFG_MMWP \<noteq> 0)"

definition MSECCFG_RLB_ISSET :: "'d rv_machine \<Rightarrow> bool" where
  "MSECCFG_RLB_ISSET env = (get_field (mseccfg env) MSECCFG_RLB \<noteq> 0)"

abbreviation entry :: "'d rv_machine \<Rightarrow> nat \<Rightarrow> pmp_entry_t" where
  "entry env i \<equiv> pmp (pmp_state env) ! i"

abbreviation rng :: "'d rv_machine \<Rightarrow> nat \<Rightarrow> pmp_addr_t" where
  "rng env i \<equiv> pmp_addr (pmp_state env) ! i"

definition pmp_is_locked :: "'d rv_machine \<Rightarrow> nat \<Rightarrow> bool" where
  "pmp_is_locked env pmp_index =
    (if MSECCFG_RLB_ISSET env then False
     else if cfg_reg (entry env pmp_index) AND PMP_LOCK \<noteq> 0 then True
     else if MAX_RISCV_PMPS \<le> pmp_index + 1 then False
     else False)"

definition pmp_get_num_rules :: "'d rv_machine \<Rightarrow> u32" where
  "pmp_get_num_rules env = num_rules (pmp_state env)"

definition pmp_read_cfg :: "'d rv_machine \<Rightarrow> nat \<Rightarrow> u8" where
  "pmp_read_cfg env pmp_index = (if pmp_index < MAX_RISCV_PMPS then cfg_reg (entry env pmp_index) else 0)"

definition set_cfg :: "nat \<Rightarrow> u8 \<Rightarrow> 'd rv_machine \<Rightarrow> 'd rv_machine" where
  "set_cfg i val env = env\<lparr>pmp_state := (pmp_state env)\<lparr>pmp := (pmp (pmp_state env))[i := (entry env i)\<lparr>cfg_reg := val\<rparr>]\<rparr>\<rparr>"

definition set_addr :: "nat \<Rightarrow> u64 \<Rightarrow> 'd rv_machine \<Rightarrow> 'd rv_machine" where
  "set_addr i val env = env\<lparr>pmp_state := (pmp_state env)\<lparr>pmp := (pmp (pmp_state env))[i := (entry env i)\<lparr>addr_reg := val\<rparr>]\<rparr>\<rparr>"

definition set_range :: "nat \<Rightarrow> u64 \<times> u64 \<Rightarrow> 'd rv_machine \<Rightarrow> 'd rv_machine" where
  "set_range i r env = env\<lparr>pmp_state := (pmp_state env)\<lparr>pmp_addr := (pmp_addr (pmp_state env))[i := \<lparr>pmp_sa = fst r, pmp_ea = snd r\<rparr>]\<rparr>\<rparr>"

definition pmp_decode_napot :: "u64 \<Rightarrow> u64 \<times> u64" where
  "pmp_decode_napot a = (let a = push_bit 2 a OR 3 in (a AND (a + 1), a OR (a + 1)))"

text \<open>The range that the configuration, the address and the address of the entry before give.\<close>

definition rule_range :: "u8 \<Rightarrow> u64 \<Rightarrow> u64 \<Rightarrow> u64 \<times> u64" where
  "rule_range this_cfg this_addr prev_addr =
    (let a = pmp_get_a_field this_cfg in
     if a = PMP_AMATCH_OFF then (0, - 1)
     else if a = PMP_AMATCH_TOR then
       (let sa = push_bit 2 prev_addr; ea = push_bit 2 this_addr - 1 in if ea < sa then (0, 0) else (sa, ea))
     else if a = PMP_AMATCH_NA4 then (let sa = push_bit 2 this_addr in (sa, (sa + 4) - 1))
     else if a = PMP_AMATCH_NAPOT then pmp_decode_napot this_addr
     else (0, 0))"

definition prev_addr :: "'d rv_machine \<Rightarrow> nat \<Rightarrow> u64" where
  "prev_addr env i = (if 1 \<le> i then addr_reg (entry env (i - 1)) else 0)"

definition pmp_update_rule_addr :: "nat \<Rightarrow> 'd rv_machine \<Rightarrow> 'd rv_machine" where
  "pmp_update_rule_addr pmp_index env =
    set_range pmp_index (rule_range (cfg_reg (entry env pmp_index)) (addr_reg (entry env pmp_index)) (prev_addr env pmp_index)) env"

definition pmp_update_rule_nums :: "'d rv_machine \<Rightarrow> 'd rv_machine" where
  "pmp_update_rule_nums env =
    env\<lparr>pmp_state := (pmp_state env)\<lparr>num_rules :=
      fold (\<lambda>i n. if pmp_get_a_field (cfg_reg (entry env i)) \<noteq> PMP_AMATCH_OFF then n + 1 else n) [0..<MAX_RISCV_PMPS] 0\<rparr>\<rparr>"

text \<open>Whether a write of a configuration byte is ignored.\<close>

definition cfg_locked :: "'d rv_machine \<Rightarrow> nat \<Rightarrow> u8 \<Rightarrow> bool" where
  "cfg_locked env pmp_index val =
    (if ext_smepmp (cfg env) then
       \<not> (MSECCFG_RLB_ISSET env
          \<or> \<not> MSECCFG_MML_ISSET env \<and> \<not> pmp_is_locked env pmp_index
          \<or> MSECCFG_MML_ISSET env \<and>
              (val AND PMP_LOCK \<noteq> 0 \<and> val AND PMP_EXEC \<noteq> PMP_EXEC
               \<or> val AND PMP_LOCK \<noteq> PMP_LOCK \<and> val AND 7 \<noteq> PMP_WRITE OR PMP_EXEC))
     else pmp_is_locked env pmp_index)"

definition pmp_write_cfg :: "nat \<Rightarrow> u8 \<Rightarrow> 'd rv_machine \<Rightarrow> bool \<times> 'd rv_machine" where
  "pmp_write_cfg pmp_index val env =
    (if pmp_index < MAX_RISCV_PMPS then
       if cfg_locked env pmp_index val then (False, env)
       else if cfg_reg (entry env pmp_index) \<noteq> val then
         if val AND PMP_WRITE \<noteq> 0 \<and> val AND PMP_READ = 0 \<and> \<not> MSECCFG_MML_ISSET env then (False, env)
         else (True, pmp_update_rule_addr pmp_index (set_cfg pmp_index val env))
       else (False, env)
     else (False, env))"

definition pmp_unlock_entries :: "'d rv_machine \<Rightarrow> 'd rv_machine" where
  "pmp_unlock_entries env =
    fold (\<lambda>i env. set_cfg i (cfg_reg (entry env i) AND NOT (PMP_LOCK OR PMP_AMATCH)) env) [0..<unat (pmp_get_num_rules env)] env"

section \<open>The check\<close>

definition pmp_is_in_range :: "'d rv_machine \<Rightarrow> nat \<Rightarrow> u64 \<Rightarrow> bool" where
  "pmp_is_in_range env pmp_index a = (pmp_sa (rng env pmp_index) \<le> a \<and> a \<le> pmp_ea (rng env pmp_index))"

definition pmp_hart_has_privs_default :: "'d rv_machine \<Rightarrow> u8 \<Rightarrow> u64 \<Rightarrow> bool \<times> u8" where
  "pmp_hart_has_privs_default env privs mode =
    (if MSECCFG_MMWP_ISSET env then (False, 0)
     else if MSECCFG_MML_ISSET env then
       if mode = PRV_M \<and> privs AND PMP_EXEC = 0 then (True, PMP_READ OR PMP_WRITE) else (False, 0)
     else if \<not> cfg_pmp (cfg env) \<or> mode = PRV_M then (True, PMP_READ OR PMP_WRITE OR PMP_EXEC)
     else (False, 0))"

text \<open>The truth table of Smepmp, for machine mode and for the others.\<close>

definition smepmp_operation :: "u8 \<Rightarrow> u8" where
  "smepmp_operation c = drop_bit 4 (c AND PMP_LOCK) OR push_bit 2 (c AND PMP_READ) OR (c AND PMP_WRITE) OR drop_bit 2 (c AND PMP_EXEC)"

definition smepmp_machine :: "u8 \<Rightarrow> u8 option" where
  "smepmp_machine op =
    (if op \<in> {0, 1, 4, 5, 6, 7, 8} then Some 0
     else if op \<in> {2, 3, 14} then Some (PMP_READ OR PMP_WRITE)
     else if op \<in> {9, 10} then Some PMP_EXEC
     else if op \<in> {11, 13} then Some (PMP_READ OR PMP_EXEC)
     else if op \<in> {12, 15} then Some PMP_READ
     else None)"

definition smepmp_other :: "u8 \<Rightarrow> u8 option" where
  "smepmp_other op =
    (if op \<in> {0, 8, 9, 12, 13, 14} then Some 0
     else if op \<in> {1, 10, 11} then Some PMP_EXEC
     else if op \<in> {2, 4, 15} then Some PMP_READ
     else if op \<in> {3, 6} then Some (PMP_READ OR PMP_WRITE)
     else if op = 5 then Some (PMP_READ OR PMP_EXEC)
     else if op = 7 then Some (PMP_READ OR PMP_WRITE OR PMP_EXEC)
     else None)"

definition rule_privs :: "'d rv_machine \<Rightarrow> nat \<Rightarrow> u64 \<Rightarrow> u8 option" where
  "rule_privs env i mode =
    (if \<not> MSECCFG_MML_ISSET env then
       Some (if mode \<noteq> PRV_M \<or> pmp_is_locked env i then (PMP_READ OR PMP_WRITE OR PMP_EXEC) AND cfg_reg (entry env i)
             else PMP_READ OR PMP_WRITE OR PMP_EXEC)
     else if mode = PRV_M then smepmp_machine (smepmp_operation (cfg_reg (entry env i)))
     else smepmp_other (smepmp_operation (cfg_reg (entry env i))))"

fun check_rules :: "nat list \<Rightarrow> 'd rv_machine \<Rightarrow> u64 \<Rightarrow> u64 \<Rightarrow> u8 \<Rightarrow> u64 \<Rightarrow> (bool \<times> u8) option" where
  "check_rules [] env a pmp_size privs mode = Some (pmp_hart_has_privs_default env privs mode)"
| "check_rules (i # is) env a pmp_size privs mode =
    (let s = pmp_is_in_range env i a; e = pmp_is_in_range env i (a + pmp_size - 1) in
     if s \<noteq> e then Some (False, 0)
     else if s \<and> e \<and> pmp_get_a_field (cfg_reg (entry env i)) \<noteq> PMP_AMATCH_OFF then
       map_option (\<lambda>allowed. (privs AND allowed = privs, allowed)) (rule_privs env i mode)
     else check_rules is env a pmp_size privs mode)"

text \<open>\<open>pmp_size\<close> is an \<open>int\<close>.\<close>

definition pmp_hart_has_privs :: "'d rv_machine \<Rightarrow> u64 \<Rightarrow> u64 \<Rightarrow> u8 \<Rightarrow> u64 \<Rightarrow> (bool \<times> u8) option" where
  "pmp_hart_has_privs env a sz privs mode =
    (if pmp_get_num_rules env = 0 then Some (pmp_hart_has_privs_default env privs mode)
     else
       let pmp_size = signed_take_bit 31
         (if sz = 0 then if cfg_mmu (cfg env) then - (a OR TARGET_PAGE_MASK_rv) else push_bit (unat (misa_mxl env)) 2 else sz)
       in check_rules [0..<MAX_RISCV_PMPS] env a pmp_size privs mode)"

section \<open>The registers\<close>

definition pmpcfg_nums :: "'d rv_machine \<Rightarrow> nat" where
  "pmpcfg_nums env = push_bit (unat (misa_mxl env)) 2"

definition pmpcfg_csr_write :: "nat \<Rightarrow> u64 \<Rightarrow> 'd rv_machine \<Rightarrow> 'd rv_machine" where
  "pmpcfg_csr_write reg_index val env =
    (let (modified, env) = fold (\<lambda>i (modified, env).
           let cfg_val = ucast (drop_bit (8 * i) val AND 0xff); (m, env) = pmp_write_cfg (reg_index * 4 + i) cfg_val env
           in (modified \<or> m, env)) [0..<pmpcfg_nums env] (False, env)
     in if modified then tlb_flush_rv (pmp_update_rule_nums env) else env)"

definition pmpcfg_csr_read :: "nat \<Rightarrow> 'd rv_machine \<Rightarrow> u64" where
  "pmpcfg_csr_read reg_index env =
    fold (\<lambda>i cfg_val. cfg_val OR push_bit (i * 8) (ucast (pmp_read_cfg env (reg_index * 4 + i)))) [0..<pmpcfg_nums env] 0"

definition pmpaddr_csr_write :: "nat \<Rightarrow> u64 \<Rightarrow> 'd rv_machine \<Rightarrow> 'd rv_machine" where
  "pmpaddr_csr_write addr_index val env =
    (if addr_index < MAX_RISCV_PMPS then
       let has_next = addr_index + 1 < MAX_RISCV_PMPS;
           pmp_cfg = cfg_reg (entry env (addr_index + 1));
           is_next_cfg_tor = (has_next \<and> PMP_AMATCH_TOR = pmp_get_a_field pmp_cfg)
       in if has_next \<and> pmp_cfg AND PMP_LOCK \<noteq> 0 \<and> is_next_cfg_tor then env
          else if \<not> pmp_is_locked env addr_index then
            if addr_reg (entry env addr_index) \<noteq> val then
              let env = pmp_update_rule_addr addr_index (set_addr addr_index val env);
                  env = (if is_next_cfg_tor then pmp_update_rule_addr (addr_index + 1) env else env)
              in tlb_flush_rv env
            else env
          else env
     else env)"

definition pmpaddr_csr_read :: "nat \<Rightarrow> 'd rv_machine \<Rightarrow> u64" where
  "pmpaddr_csr_read addr_index env = (if addr_index < MAX_RISCV_PMPS then addr_reg (entry env addr_index) else 0)"

definition mseccfg_csr_write :: "u64 \<Rightarrow> 'd rv_machine \<Rightarrow> 'd rv_machine" where
  "mseccfg_csr_write val env =
    (let val = (if \<not> MSECCFG_RLB_ISSET env \<and> list_ex (pmp_is_locked env) [0..<MAX_RISCV_PMPS] then val AND NOT MSECCFG_RLB else val);
         sticky = MSECCFG_MMWP OR MSECCFG_MML;
         (val, env) =
           (if ext_smepmp (cfg env) then
              let val = val OR (mseccfg env AND sticky)
              in (val, if (val XOR mseccfg env) AND sticky \<noteq> 0 then tlb_flush_rv env else env)
            else (val AND NOT (MSECCFG_MMWP OR MSECCFG_MML OR MSECCFG_RLB), env));
         val = (if ext_zicfilp (cfg env) then val OR (val AND MSECCFG_MLPE) else val)
     in env\<lparr>mseccfg := val\<rparr>)"

definition mseccfg_csr_read :: "'d rv_machine \<Rightarrow> u64" where
  "mseccfg_csr_read env = mseccfg env"

fun split_by_rules :: "nat list \<Rightarrow> 'd rv_machine \<Rightarrow> u64 \<Rightarrow> u64 \<Rightarrow> u64" where
  "split_by_rules [] env tlb_sa tlb_ea = TARGET_PAGE_SIZE"
| "split_by_rules (i # is) env tlb_sa tlb_ea =
    (if pmp_get_a_field (cfg_reg (entry env i)) = PMP_AMATCH_OFF then split_by_rules is env tlb_sa tlb_ea
     else
       let sa = pmp_sa (rng env i); ea = pmp_ea (rng env i) in
       if sa \<le> tlb_sa \<and> tlb_ea \<le> ea then TARGET_PAGE_SIZE
       else if tlb_sa \<le> sa \<and> sa \<le> tlb_ea \<or> tlb_sa \<le> ea \<and> ea \<le> tlb_ea then 1
       else split_by_rules is env tlb_sa tlb_ea)"

definition pmp_get_tlb_size :: "'d rv_machine \<Rightarrow> u64 \<Rightarrow> u64" where
  "pmp_get_tlb_size env a =
    (let tlb_sa = a AND NOT (TARGET_PAGE_SIZE - 1); tlb_ea = tlb_sa + TARGET_PAGE_SIZE - 1 in
     if \<not> cfg_pmp (cfg env) \<or> pmp_get_num_rules env = 0 then TARGET_PAGE_SIZE
     else split_by_rules [0..<MAX_RISCV_PMPS] env tlb_sa tlb_ea)"

definition pmp_priv_to_page_prot :: "u8 \<Rightarrow> u32" where
  "pmp_priv_to_page_prot pmp_priv =
    (if pmp_priv AND PMP_READ \<noteq> 0 then PAGE_READ_rv else 0)
    OR (if pmp_priv AND PMP_WRITE \<noteq> 0 then PAGE_WRITE_rv else 0)
    OR (if pmp_priv AND PMP_EXEC \<noteq> 0 then PAGE_EXEC_rv else 0)"

section \<open>The invariant\<close>

abbreviation active :: "'d rv_machine \<Rightarrow> nat \<Rightarrow> bool" where
  "active env i \<equiv> pmp_get_a_field (cfg_reg (entry env i)) \<noteq> PMP_AMATCH_OFF"

abbreviation range_of :: "'d rv_machine \<Rightarrow> nat \<Rightarrow> u64 \<times> u64" where
  "range_of env i \<equiv> rule_range (cfg_reg (entry env i)) (addr_reg (entry env i)) (prev_addr env i)"

definition pmp_wf :: "'d rv_machine \<Rightarrow> bool" where
  "pmp_wf env = (length (pmp (pmp_state env)) = MAX_RISCV_PMPS \<and> length (pmp_addr (pmp_state env)) = MAX_RISCV_PMPS)"

text \<open>An entry that is off has the range that its last update gave it, everything, or that of the zeroed table.\<close>

definition range_ok :: "'d rv_machine \<Rightarrow> nat \<Rightarrow> bool" where
  "range_ok env i =
    ((pmp_sa (rng env i), pmp_ea (rng env i)) = range_of env i \<or> \<not> active env i \<and> pmp_sa (rng env i) = 0 \<and> pmp_ea (rng env i) = 0)"

definition ranges_ok :: "'d rv_machine \<Rightarrow> bool" where
  "ranges_ok env = (pmp_wf env \<and> (\<forall>i < MAX_RISCV_PMPS. range_ok env i))"

definition active_count :: "'d rv_machine \<Rightarrow> nat" where
  "active_count env = length (filter (active env) [0..<MAX_RISCV_PMPS])"

definition pmp_inv :: "'d rv_machine \<Rightarrow> bool" where
  "pmp_inv env = (ranges_ok env \<and> unat (num_rules (pmp_state env)) = active_count env)"

lemma nth_list_update_if: "xs[i := x] ! j = (if i = j \<and> i < length xs then x else xs ! j)"
  by (cases "i < length xs") (auto simp: nth_list_update list_update_beyond)

lemma pmp_fields [simp]:
  "pmp (pmp_state (set_cfg i val env)) = (pmp (pmp_state env))[i := (entry env i)\<lparr>cfg_reg := val\<rparr>]"
  "pmp_addr (pmp_state (set_cfg i val env)) = pmp_addr (pmp_state env)"
  "num_rules (pmp_state (set_cfg i val env)) = num_rules (pmp_state env)"
  "pmp (pmp_state (set_addr i a env)) = (pmp (pmp_state env))[i := (entry env i)\<lparr>addr_reg := a\<rparr>]"
  "pmp_addr (pmp_state (set_addr i a env)) = pmp_addr (pmp_state env)"
  "num_rules (pmp_state (set_addr i a env)) = num_rules (pmp_state env)"
  "pmp (pmp_state (set_range i r env)) = pmp (pmp_state env)"
  "pmp_addr (pmp_state (set_range i r env)) = (pmp_addr (pmp_state env))[i := \<lparr>pmp_sa = fst r, pmp_ea = snd r\<rparr>]"
  "num_rules (pmp_state (set_range i r env)) = num_rules (pmp_state env)"
  "pmp_state (tlb_flush_rv env) = pmp_state env"
  "pmp (pmp_state (pmp_update_rule_addr i env)) = pmp (pmp_state env)"
  "num_rules (pmp_state (pmp_update_rule_addr i env)) = num_rules (pmp_state env)"
  "pmp (pmp_state (pmp_update_rule_nums env)) = pmp (pmp_state env)"
  "pmp_addr (pmp_state (pmp_update_rule_nums env)) = pmp_addr (pmp_state env)"
  by (simp_all add: set_cfg_def set_addr_def set_range_def tlb_flush_rv_def pmp_update_rule_addr_def pmp_update_rule_nums_def)

lemma pmp_other_fields [simp]:
  "mseccfg (set_cfg i val env) = mseccfg env" "mseccfg (set_addr i a env) = mseccfg env" "mseccfg (set_range i r env) = mseccfg env"
  "mseccfg (pmp_update_rule_addr i env) = mseccfg env" "mseccfg (tlb_flush_rv env) = mseccfg env" "mseccfg (pmp_update_rule_nums env) = mseccfg env"
  "cfg (set_cfg i val env) = cfg env" "cfg (set_addr i a env) = cfg env" "cfg (set_range i r env) = cfg env"
  "cfg (pmp_update_rule_addr i env) = cfg env" "cfg (tlb_flush_rv env) = cfg env" "cfg (pmp_update_rule_nums env) = cfg env"
  "misa_mxl (set_cfg i val env) = misa_mxl env" "misa_mxl (set_range i r env) = misa_mxl env" "misa_mxl (pmp_update_rule_addr i env) = misa_mxl env"
  by (simp_all add: set_cfg_def set_addr_def set_range_def tlb_flush_rv_def pmp_update_rule_addr_def pmp_update_rule_nums_def)

lemma pmp_addr_update:
  "pmp_addr (pmp_state (pmp_update_rule_addr i env)) =
    (pmp_addr (pmp_state env))[i := \<lparr>pmp_sa = fst (range_of env i), pmp_ea = snd (range_of env i)\<rparr>]"
  by (simp add: pmp_update_rule_addr_def)

lemma prev_addr_update [simp]:
  "prev_addr (pmp_update_rule_addr i env) j = prev_addr env j" "prev_addr (tlb_flush_rv env) j = prev_addr env j"
  "prev_addr (pmp_update_rule_nums env) j = prev_addr env j"
  by (simp_all add: prev_addr_def)

lemma prev_addr_set_cfg [simp]:
  "pmp_wf env \<Longrightarrow> j < MAX_RISCV_PMPS \<Longrightarrow> prev_addr (set_cfg i val env) j = prev_addr env j"
  by (auto simp: prev_addr_def pmp_wf_def nth_list_update_if)

lemma prev_addr_set_addr:
  "pmp_wf env \<Longrightarrow> j < MAX_RISCV_PMPS \<Longrightarrow> prev_addr (set_addr i a env) j = (if j = i + 1 then a else prev_addr env j)"
  by (auto simp: prev_addr_def pmp_wf_def nth_list_update_if)

lemma pmp_wf_ops [simp]:
  "pmp_wf (set_cfg i val env) = pmp_wf env" "pmp_wf (set_addr i a env) = pmp_wf env" "pmp_wf (pmp_update_rule_addr i env) = pmp_wf env"
  "pmp_wf (tlb_flush_rv env) = pmp_wf env" "pmp_wf (pmp_update_rule_nums env) = pmp_wf env"
  by (auto simp: pmp_wf_def pmp_addr_update)

lemma prev_off: "pmp_get_a_field c \<noteq> PMP_AMATCH_TOR \<Longrightarrow> rule_range c a p = rule_range c a q"
  by (simp add: rule_range_def Let_def)

text \<open>A top-of-range entry with address 0 is empty, but its range wraps to the end of the address space.\<close>

lemma tor_zero_wraps: "pmp_get_a_field c = PMP_AMATCH_TOR \<Longrightarrow> rule_range c 0 p = (push_bit 2 p, - 1)"
  by (simp add: rule_range_def Let_def not_less)

lemma write_cfg_ranges: "ranges_ok env \<Longrightarrow> ranges_ok (snd (pmp_write_cfg i val env))"
  by (auto simp: pmp_write_cfg_def ranges_ok_def range_ok_def pmp_addr_update nth_list_update_if pmp_wf_def)

lemma write_cfg_same: "\<not> fst (pmp_write_cfg i val env) \<Longrightarrow> snd (pmp_write_cfg i val env) = env"
  by (simp add: pmp_write_cfg_def split: if_splits)

lemma write_cfg_frame [simp]:
  "cfg (snd (pmp_write_cfg i val env)) = cfg env" "mseccfg (snd (pmp_write_cfg i val env)) = mseccfg env"
  "pmp_wf (snd (pmp_write_cfg i val env)) = pmp_wf env"
  by (simp_all add: pmp_write_cfg_def)

text \<open>The loop of \<open>pmpcfg_csr_write\<close>.\<close>

definition write_cfgs :: "nat \<Rightarrow> u64 \<Rightarrow> nat list \<Rightarrow> bool \<times> 'd rv_machine \<Rightarrow> bool \<times> 'd rv_machine" where
  "write_cfgs reg_index val = fold (\<lambda>i (modified, env).
     let cfg_val = ucast (drop_bit (8 * i) val AND 0xff); (m, env) = pmp_write_cfg (reg_index * 4 + i) cfg_val env
     in (modified \<or> m, env))"

lemma write_cfgs_simps:
  "write_cfgs r val [] x = x"
  "write_cfgs r val (i # is) (m, env) =
    write_cfgs r val is (m \<or> fst (pmp_write_cfg (r * 4 + i) (ucast (drop_bit (8 * i) val AND 0xff)) env),
      snd (pmp_write_cfg (r * 4 + i) (ucast (drop_bit (8 * i) val AND 0xff)) env))"
  by (simp_all add: write_cfgs_def split_beta Let_def)

lemma write_cfgs_inv:
  assumes "P env" and "\<And>env i v. P env \<Longrightarrow> P (snd (pmp_write_cfg i v env))"
  shows "P (snd (write_cfgs r val is (m, env)))"
  using assms(1) by (induction "is" arbitrary: m env) (simp_all add: write_cfgs_simps assms(2))

lemma write_cfgs_same:
  "\<not> fst (write_cfgs r val is (m, env)) \<Longrightarrow> snd (write_cfgs r val is (m, env)) = env \<and> \<not> m"
  by (induction "is" arbitrary: m env) (auto simp: write_cfgs_simps write_cfg_same dest: write_cfg_same)

lemma pmpcfg_csr_write_alt:
  "pmpcfg_csr_write r val env =
    (let w = write_cfgs r val [0..<pmpcfg_nums env] (False, env)
     in if fst w then tlb_flush_rv (pmp_update_rule_nums (snd w)) else snd w)"
  by (simp add: pmpcfg_csr_write_def write_cfgs_def split_beta Let_def)

lemma recount: "unat (num_rules (pmp_state (pmp_update_rule_nums env))) = active_count env"
proof -
  have fold: "fold (\<lambda>i n. if P i then n + 1 else n) is k = (k + of_nat (length (filter P is)) :: u32)" for P "is" k
    by (induction "is" arbitrary: k) (simp_all add: add.assoc)
  have "active_count env \<le> 16"
    using length_filter_le [of "active env" "[0..<MAX_RISCV_PMPS]"] by (simp add: active_count_def del: length_filter_le)
  then show ?thesis
    by (simp add: pmp_update_rule_nums_def active_count_def unat_of_nat fold)
qed

lemma ranges_ok_cong:
  assumes "pmp_state e1 = pmp_state e2"
  shows "ranges_ok e1 = ranges_ok e2" and "active_count e1 = active_count e2"
  using assms by (simp_all add: ranges_ok_def range_ok_def pmp_wf_def prev_addr_def active_count_def)

lemma ranges_ok_update_nums [simp]: "ranges_ok (pmp_update_rule_nums env) = ranges_ok env" "active_count (pmp_update_rule_nums env) = active_count env"
  by (simp_all add: ranges_ok_def range_ok_def active_count_def)

lemma pmp_inv_flush [simp]: "pmp_inv (tlb_flush_rv env) = pmp_inv env"
  using ranges_ok_cong [of "tlb_flush_rv env" env] by (simp add: pmp_inv_def)

lemma pmpcfg_write_inv:
  assumes "pmp_inv env"
  shows "pmp_inv (pmpcfg_csr_write r val env)"
proof -
  let ?w = "write_cfgs r val [0..<pmpcfg_nums env] (False, env)"
  have "ranges_ok (snd ?w)"
    by (rule write_cfgs_inv) (use assms write_cfg_ranges in \<open>auto simp: pmp_inv_def\<close>)
  then show ?thesis
    using assms write_cfgs_same [of r val "[0..<pmpcfg_nums env]" False env]
    by (auto simp: pmpcfg_csr_write_alt Let_def pmp_inv_def recount ranges_ok_cong [of "tlb_flush_rv e" e for e])
qed

lemma pmpaddr_ranges:
  assumes "ranges_ok env" and "i < MAX_RISCV_PMPS"
    and e1: "e1 = pmp_update_rule_addr i (set_addr i val env)"
  shows "ranges_ok (if i + 1 < MAX_RISCV_PMPS \<and> PMP_AMATCH_TOR = pmp_get_a_field (cfg_reg (entry env (i + 1)))
                    then pmp_update_rule_addr (i + 1) e1 else e1)"
proof -
  have wf: "pmp_wf env" using assms(1) by (simp add: ranges_ok_def)
  have next_same: "rule_range (cfg_reg (entry env (Suc i))) (addr_reg (entry env (Suc i))) val = range_of env (Suc i)"
    if "pmp_get_a_field (cfg_reg (entry env (Suc i))) \<noteq> PMP_AMATCH_TOR"
    using that by (rule prev_off)
  have next_ok: "range_ok env (Suc i)" if "i < 15"
    using that assms(1) by (simp add: ranges_ok_def)
  show ?thesis
    using assms(1,2) wf next_same next_ok
    by (auto simp: e1 ranges_ok_def range_ok_def pmp_addr_update nth_list_update_if prev_addr_set_addr) (auto simp: pmp_wf_def)
qed

lemma active_count_update [simp]: "active_count (pmp_update_rule_addr i env) = active_count env"
  by (simp add: active_count_def)

lemma active_count_set_addr [simp]: "active_count (set_addr i val env) = active_count env"
proof -
  have "cfg_reg (entry (set_addr i val env) j) = cfg_reg (entry env j)" for j
    by (simp add: nth_list_update_if)
  then show ?thesis by (simp only: active_count_def)
qed

lemma pmpaddr_write_inv:
  assumes "pmp_inv env"
  shows "pmp_inv (pmpaddr_csr_write i val env)"
proof (cases "i < MAX_RISCV_PMPS")
  case True
  then show ?thesis
    using assms pmpaddr_ranges [of env i _ val] by (auto simp: pmpaddr_csr_write_def Let_def pmp_inv_def ranges_ok_cong [of "tlb_flush_rv e" e for e])
qed (use assms in \<open>simp add: pmpaddr_csr_write_def\<close>)

lemma mseccfg_write_state [simp]:
  "pmp_state (mseccfg_csr_write val env) = pmp_state env" "cfg (mseccfg_csr_write val env) = cfg env"
  by (simp_all add: mseccfg_csr_write_def Let_def)

lemma mseccfg_write_inv: "pmp_inv env \<Longrightarrow> pmp_inv (mseccfg_csr_write val env)"
  using ranges_ok_cong [of "mseccfg_csr_write val env" env] by (simp add: pmp_inv_def)

section \<open>Sequences of writes\<close>

datatype pmp_write = Write_cfg nat u64 | Write_addr nat u64 | Write_mseccfg u64

fun pmp_step :: "pmp_write \<Rightarrow> 'd rv_machine \<Rightarrow> 'd rv_machine" where
  "pmp_step (Write_cfg r val) env = pmpcfg_csr_write r val env"
| "pmp_step (Write_addr i val) env = pmpaddr_csr_write i val env"
| "pmp_step (Write_mseccfg val) env = mseccfg_csr_write val env"

lemma pmp_step_inv: "pmp_inv env \<Longrightarrow> pmp_inv (pmp_step w env)"
  by (cases w) (simp_all add: pmpcfg_write_inv pmpaddr_write_inv mseccfg_write_inv)

lemma pmp_steps_inv: "pmp_inv env \<Longrightarrow> pmp_inv (fold pmp_step ws env)"
  by (induction ws arbitrary: env) (simp_all add: pmp_step_inv)

text \<open>What a locked entry keeps, without Smepmp: the relation between the state before and after.\<close>

definition locked_at :: "nat \<Rightarrow> 'd rv_machine \<Rightarrow> bool" where
  "locked_at i env = (pmp_wf env \<and> \<not> ext_smepmp (cfg env) \<and> \<not> MSECCFG_RLB_ISSET env \<and> cfg_reg (entry env i) AND PMP_LOCK \<noteq> 0)"

definition kept :: "nat \<Rightarrow> 'd rv_machine \<Rightarrow> 'd rv_machine \<Rightarrow> bool" where
  "kept i env env' = (entry env' i = entry env i \<and> rng env' i = rng env i \<and> cfg env' = cfg env \<and> mseccfg env' = mseccfg env \<and> pmp_wf env' = pmp_wf env)"

lemma locked_is_locked: "locked_at i env \<Longrightarrow> pmp_is_locked env i"
  by (simp add: locked_at_def pmp_is_locked_def)

lemma kept_refl: "kept i env env"
  by (simp add: kept_def)

lemma kept_locked: "locked_at i env \<Longrightarrow> kept i env env' \<Longrightarrow> locked_at i env'"
  by (simp add: locked_at_def kept_def MSECCFG_RLB_ISSET_def)

lemma kept_trans: "kept i e1 e2 \<Longrightarrow> kept i e2 e3 \<Longrightarrow> kept i e1 e3"
  by (simp add: kept_def)

lemma write_cfg_kept:
  assumes "locked_at i env"
  shows "kept i env (snd (pmp_write_cfg j val env))"
proof (cases "j = i")
  case True
  then show ?thesis
    using locked_is_locked [OF assms] assms by (simp add: pmp_write_cfg_def cfg_locked_def kept_refl locked_at_def)
next
  case False
  then show ?thesis
    by (simp add: pmp_write_cfg_def kept_def pmp_addr_update nth_list_update_if)
qed

lemma pmpcfg_write_kept:
  assumes "locked_at i env"
  shows "kept i env (pmpcfg_csr_write r val env)"
proof -
  have "locked_at i (snd (write_cfgs r val [0..<pmpcfg_nums env] (False, env)))
      \<and> kept i env (snd (write_cfgs r val [0..<pmpcfg_nums env] (False, env)))" (is "?P (snd ?w)")
    by (rule write_cfgs_inv) (use assms kept_refl kept_locked kept_trans write_cfg_kept in \<open>blast+\<close>)
  then show ?thesis
    by (simp add: pmpcfg_csr_write_alt Let_def kept_def)
qed

lemma pmpaddr_write_kept:
  assumes "locked_at i env" and "i < MAX_RISCV_PMPS"
  shows "kept i env (pmpaddr_csr_write j val env)"
proof (cases "j = i")
  case True
  then show ?thesis
    using locked_is_locked [OF assms(1)] by (simp add: pmpaddr_csr_write_def Let_def kept_refl)
next
  case False
  then show ?thesis
    using assms by (auto simp: pmpaddr_csr_write_def Let_def kept_def pmp_addr_update nth_list_update_if locked_at_def)
qed

lemma no_smepmp_mseccfg:
  assumes "\<not> ext_smepmp (cfg env)"
  shows "\<not> MSECCFG_RLB_ISSET (mseccfg_csr_write val env)"
proof -
  have "get_field (x AND NOT (MSECCFG_MMWP OR MSECCFG_MML OR MSECCFG_RLB)) MSECCFG_RLB = 0" for x
    by (simp add: get_field_def and.assoc)
  then show ?thesis
    using assms by (simp add: MSECCFG_RLB_ISSET_def mseccfg_csr_write_def Let_def)
qed

lemma pmp_step_kept:
  assumes "locked_at i env" and "i < MAX_RISCV_PMPS"
  shows "locked_at i (pmp_step w env) \<and> entry (pmp_step w env) i = entry env i \<and> rng (pmp_step w env) i = rng env i"
proof (cases w)
  case (Write_cfg r val)
  then show ?thesis
    using pmpcfg_write_kept [OF assms(1), of r val] kept_locked [OF assms(1)] by (simp add: kept_def)
next
  case (Write_addr j val)
  then show ?thesis
    using pmpaddr_write_kept [OF assms, of j val] kept_locked [OF assms(1)] by (simp add: kept_def)
next
  case (Write_mseccfg val)
  then show ?thesis
    using assms no_smepmp_mseccfg [of env val] by (simp add: locked_at_def pmp_wf_def)
qed

lemma pmp_steps_kept:
  assumes "locked_at i env" and "i < MAX_RISCV_PMPS"
  shows "entry (fold pmp_step ws env) i = entry env i \<and> rng (fold pmp_step ws env) i = rng env i"
  using assms by (induction ws arbitrary: env) (simp_all add: pmp_step_kept)

section \<open>The rules of the architecture\<close>

text \<open>
  The addresses that an entry matches, over the numbers in the registers: an address register holds bits 2 and up of an
  address, and \<open>t\<close> trailing ones in it stand for a region of \<open>2 ^ (t + 3)\<close> bytes.
\<close>

fun trailing_ones :: "nat \<Rightarrow> nat \<Rightarrow> nat" where
  "trailing_ones 0 n = 0"
| "trailing_ones (Suc f) n = (if odd n then Suc (trailing_ones f (n div 2)) else 0)"

lemma trailing_ones_numeral:
  "trailing_ones (numeral k) n = (if odd n then Suc (trailing_ones (pred_numeral k) (n div 2)) else 0)"
  by (simp add: numeral_eq_Suc)

definition arch_match :: "u8 \<Rightarrow> nat \<Rightarrow> nat \<Rightarrow> nat \<Rightarrow> bool" where
  "arch_match c this prev x =
    (let a = pmp_get_a_field c in
     if a = PMP_AMATCH_TOR then 4 * prev \<le> x \<and> x < 4 * this
     else if a = PMP_AMATCH_NA4 then x div 4 = this
     else if a = PMP_AMATCH_NAPOT then (let t = trailing_ones 64 this in x div 2 ^ (t + 3) = this div 2 ^ (t + 1))
     else False)"

lemma trailing_ones_spec:
  assumes "n < 2 ^ f"
  shows "n mod 2 ^ (trailing_ones f n + 1) = 2 ^ trailing_ones f n - 1 \<and> trailing_ones f n \<le> f"
  using assms
proof (induction f arbitrary: n)
  case (Suc f)
  show ?case
  proof (cases "odd n")
    case True
    then obtain m where n: "n = 2 * m + 1" by (elim oddE)
    then have "m < 2 ^ f" using Suc.prems by simp
    note IH = Suc.IH [OF this]
    have "n mod 2 ^ (Suc (trailing_ones f m) + 1) = 2 * (m mod 2 ^ (trailing_ones f m + 1)) + 1"
      using n mod_mult2_eq [of n 2 "2 ^ (trailing_ones f m + 1)"] by simp
    also have "\<dots> = 2 ^ Suc (trailing_ones f m) - 1"
      using IH by (cases "(2 :: nat) ^ trailing_ones f m") simp_all
    finally show ?thesis using n IH by simp
  qed (simp add: even_iff_mod_2_eq_zero)
qed simp

lemma nat_div_eq_iff: "0 < d \<Longrightarrow> x div d = q \<longleftrightarrow> q * d \<le> x \<and> x < Suc q * d" for x d q :: nat
  using div_less_iff_less_mult [of d x "Suc q"] less_eq_div_iff_mult_less_eq [of d q x] by auto

lemma unat_of_nat_small: "n < 2 ^ 64 \<Longrightarrow> unat (of_nat n :: u64) = n"
  by (simp add: unat_of_nat)

lemma unat_exp_small: "k < 64 \<Longrightarrow> unat (2 ^ k :: u64) = 2 ^ k"
  using unat_of_nat_small [of "2 ^ k"] power_strict_increasing [of k 64 "2 :: nat"] by simp

lemma unat_mask_small: "k < 64 \<Longrightarrow> unat (mask k :: u64) = 2 ^ k - 1"
  using unat_of_nat_small [of "2 ^ k - 1"] power_strict_increasing [of k 64 "2 :: nat"]
  by (simp add: mask_eq_exp_minus_1 of_nat_diff less_imp_diff_less)

lemma napot_bounds:
  fixes q n :: nat
  assumes "q * 2 ^ (n + 1) + 2 ^ (n + 1) \<le> 2 ^ 63" and a: "unat a = q * 2 ^ (n + 1) + (2 ^ n - 1)"
  shows "unat (a AND (a + 1) :: u64) = q * 2 ^ (n + 1)" and "unat (a OR (a + 1)) = q * 2 ^ (n + 1) + (2 ^ (n + 1) - 1)"
proof -
  let ?Q = "push_bit (n + 1) (of_nat q :: u64)"
  have n: "n + 1 \<le> 63"
    using assms(1) power_le_imp_le_exp [of "2 :: nat" "n + 1" 63] by simp
  have pos: "(1 :: nat) \<le> 2 ^ n" by simp
  have q: "q < 2 ^ 63"
    by (rule less_le_trans [OF _ assms(1)], rule le_less_trans [of _ "q * 2 ^ (n + 1)"]) simp_all
  have uq: "unat (of_nat q :: u64) = q" using q by (simp add: unat_of_nat)
  have or_low: "unat (?Q OR l) = q * 2 ^ (n + 1) + unat l" if "unat l < 2 ^ (n + 1)" for l
  proof -
    have "(2 :: nat) ^ 63 < 2 ^ 64" by simp
    then have "unat (of_nat q :: u64) * 2 ^ (n + 1) + unat l < 2 ^ LENGTH(64)"
      unfolding uq word_size_64 using that assms(1) by linarith
    from unat_push_or [OF this that] show ?thesis by (simp only: uq)
  qed
  have low: "(2 :: nat) ^ n < 2 ^ (n + 1)" by simp
  have Q: "unat ?Q = q * 2 ^ (n + 1)"
    using or_low [of 0] by simp
  have top: "unat (?Q OR mask (n + 1)) = q * 2 ^ (n + 1) + (2 ^ (n + 1) - 1)"
    using or_low [of "mask (n + 1)"] unat_mask_small [of "n + 1"] n by simp
  have a1: "a = ?Q OR mask n"
    using or_low [of "mask n"] unat_mask_small [of n] n a low by (simp only: word_unat_eq_iff)
  have a2: "a + 1 = ?Q OR 2 ^ n"
  proof -
    have "unat (a + 1) = unat a + 1"
      using assms low pos unat_add_lem [of a 1] by simp
    moreover have "unat (?Q OR 2 ^ n) = q * 2 ^ (n + 1) + 2 ^ n"
      using or_low [of "2 ^ n"] unat_exp_small [of n] n low by simp
    ultimately show ?thesis
      using a pos by (simp only: word_unat_eq_iff)
  qed
  have "a AND (a + 1) = ?Q"
    by (simp only: a2) (simp only: a1, rule bit_word_eqI, auto simp: bit_simps)
  moreover have "a OR (a + 1) = ?Q OR mask (n + 1)"
    using n by (simp only: a2) (simp only: a1, rule bit_word_eqI, auto simp: bit_simps)
  ultimately show "unat (a AND (a + 1)) = q * 2 ^ (n + 1)" and "unat (a OR (a + 1)) = q * 2 ^ (n + 1) + (2 ^ (n + 1) - 1)"
    using Q top by simp_all
qed

lemma unat_shift2: "unat a < 2 ^ 54 \<Longrightarrow> unat (push_bit 2 a :: u64) = 4 * unat a"
  using unat_push_or [of a 2 0] by simp

lemma napot_match:
  assumes "unat a < 2 ^ 54"
  shows "fst (pmp_decode_napot a) \<le> x \<and> x \<le> snd (pmp_decode_napot a) \<longleftrightarrow>
    unat x div 2 ^ (trailing_ones 64 (unat a) + 3) = unat a div 2 ^ (trailing_ones 64 (unat a) + 1)"
proof -
  define t q where "t = trailing_ones 64 (unat a)" and "q = unat a div 2 ^ (t + 1)"
  have "unat a mod 2 ^ (t + 1) = 2 ^ t - 1"
    using trailing_ones_spec [of "unat a" 64] assms by (simp add: t_def)
  then have split: "unat a = q * 2 ^ (t + 1) + (2 ^ t - 1)"
    using div_mult_mod_eq [of "unat a" "2 ^ (t + 1)"] by (simp add: q_def)
  obtain P where P: "(2 :: nat) ^ t = Suc P" by (cases "(2 :: nat) ^ t") simp_all
  have exps: "(2 :: nat) ^ (t + 1) = 2 * Suc P" "(2 :: nat) ^ (t + 2) = 4 * Suc P" "(2 :: nat) ^ (t + 2 + 1) = 8 * Suc P" "(2 :: nat) ^ (t + 3) = 8 * Suc P"
    using P by (simp_all add: power_add)
  let ?a = "push_bit 2 a OR 3 :: u64"
  have "unat ?a = 4 * unat a + 3"
    using unat_push_or [of a 2 3] assms by simp
  then have ua: "unat ?a = q * 2 ^ (t + 2 + 1) + (2 ^ (t + 2) - 1)"
    using split P by (simp add: exps algebra_simps)
  have bound: "q * 2 ^ (t + 2 + 1) + 2 ^ (t + 2 + 1) \<le> 2 ^ 63"
    using assms split P by (simp add: exps algebra_simps)
  have "unat (fst (pmp_decode_napot a)) = q * (8 * Suc P)" "unat (snd (pmp_decode_napot a)) = q * (8 * Suc P) + (8 * Suc P - 1)"
    using napot_bounds [OF bound ua, unfolded exps] by (simp_all add: pmp_decode_napot_def Let_def)
  moreover have "unat x div (8 * Suc P) = q \<longleftrightarrow> q * (8 * Suc P) \<le> unat x \<and> unat x \<le> q * (8 * Suc P) + (8 * Suc P - 1)"
    by (subst nat_div_eq_iff) auto
  ultimately show ?thesis
    unfolding t_def [symmetric] unfolding q_def [symmetric] unfolding exps word_le_nat_alt by simp
qed

text \<open>The registers hold 54 bits, and no top-of-range entry is empty.\<close>

definition regs_ok :: "'d rv_machine \<Rightarrow> bool" where
  "regs_ok env = (\<forall>i < MAX_RISCV_PMPS. unat (addr_reg (entry env i)) < 2 ^ 54 \<and>
     (pmp_get_a_field (cfg_reg (entry env i)) = PMP_AMATCH_TOR \<longrightarrow> unat (prev_addr env i) < unat (addr_reg (entry env i))))"

lemma rule_range_match:
  assumes "unat a < 2 ^ 54" and "unat p < 2 ^ 54" and "pmp_get_a_field c = PMP_AMATCH_TOR \<longrightarrow> unat p < unat a"
    and "pmp_get_a_field c \<noteq> PMP_AMATCH_OFF"
  shows "fst (rule_range c a p) \<le> x \<and> x \<le> snd (rule_range c a p) \<longleftrightarrow> arch_match c (unat a) (unat p) (unat x)"
proof -
  have "pmp_get_a_field c = take_bit 2 (drop_bit 3 c)"
    using take_bit_eq_mask [of 2 "drop_bit 3 c"] by (simp add: pmp_get_a_field_def mask_numeral)
  then have "unat (pmp_get_a_field c) < 4"
    using unat_take_bit_less [of 2 "drop_bit 3 c"] by simp
  then have range: "pmp_get_a_field c \<in> {0, 1, 2, 3}"
    by (simp add: word_unat_eq_iff) linarith
  consider (tor) "pmp_get_a_field c = 1" | (na4) "pmp_get_a_field c = 2" | (napot) "pmp_get_a_field c = 3"
    using range assms(4) by auto
  then show ?thesis
  proof cases
    case tor
    have "unat (push_bit 2 a - 1) = 4 * unat a - 1"
      using assms(3) tor unat_shift2 [OF assms(1)] by (subst unat_sub) (auto simp: word_le_nat_alt)
    then show ?thesis
      using tor assms(3) unat_shift2 [OF assms(2)] by (auto simp: rule_range_def arch_match_def Let_def word_le_nat_alt word_less_nat_alt)
  next
    case na4
    have "unat (3 + push_bit 2 a) = 4 * unat a + 3"
      using unat_shift2 [OF assms(1)] assms(1) by (simp add: unat_add_lem [THEN iffD1])
    then show ?thesis
      using na4 nat_div_eq_iff [of 4 "unat x" "unat a"] unat_shift2 [OF assms(1)]
      by (auto simp: rule_range_def arch_match_def Let_def word_le_nat_alt)
  next
    case napot
    then show ?thesis
      using napot_match [OF assms(1), of x] by (simp add: rule_range_def arch_match_def Let_def)
  qed
qed

definition hits :: "'d rv_machine \<Rightarrow> nat \<Rightarrow> nat \<Rightarrow> bool" where
  "hits env i x = arch_match (cfg_reg (entry env i)) (unat (addr_reg (entry env i))) (unat (prev_addr env i)) x"

text \<open>
  What an entry allows under the lockdown of Smepmp (\<open>mseccfg.MML\<close>), by the bits L, R, W, X of its configuration. W without R, and all four, are
  the regions that machine mode shares with the other modes; another entry is for machine mode if it is locked, and for the other modes if
  it is not, with the permissions that it states.
\<close>

definition mml_privs :: "bool \<Rightarrow> u8 \<Rightarrow> u8" where
  "mml_privs machine c =
    (let l = bit c 7; r = bit c 0; w = bit c 1; x = bit c 2 in
     if l \<and> r \<and> w \<and> x then PMP_READ
     else if w \<and> \<not> r then
       if l then if machine \<and> x then PMP_READ OR PMP_EXEC else PMP_EXEC
       else if machine \<or> x then PMP_READ OR PMP_WRITE else PMP_READ
     else if l = machine then c AND 7
     else 0)"

text \<open>Without the lockdown machine mode is bound by the locked entries only.\<close>

definition arch_allows :: "'d rv_machine \<Rightarrow> nat \<Rightarrow> u8 \<Rightarrow> u64 \<Rightarrow> bool" where
  "arch_allows env i privs mode =
    (let c = cfg_reg (entry env i) in
     if MSECCFG_MML_ISSET env then privs AND mml_privs (mode = PRV_M) c = privs
     else if mode = PRV_M \<and> \<not> bit c 7 then privs AND 7 = privs
     else privs AND (c AND 7) = privs)"

text \<open>Without a match the other modes may not access, if there are entries at all, and machine mode may, unless the whitelist policy forbids it
  or it executes under the lockdown.\<close>

definition arch_default :: "'d rv_machine \<Rightarrow> u8 \<Rightarrow> u64 \<Rightarrow> bool" where
  "arch_default env privs mode \<longleftrightarrow> \<not> MSECCFG_MMWP_ISSET env \<and>
    (if mode = PRV_M then MSECCFG_MML_ISSET env \<longrightarrow> privs AND PMP_EXEC = 0
     else \<not> MSECCFG_MML_ISSET env \<and> \<not> cfg_pmp (cfg env))"

text \<open>
  The verdict on the \<open>n\<close> bytes from \<open>a\<close>: the first entry that matches one of them decides, and has to match all of them.
\<close>

fun arch_check :: "nat list \<Rightarrow> 'd rv_machine \<Rightarrow> nat \<Rightarrow> nat \<Rightarrow> u8 \<Rightarrow> u64 \<Rightarrow> bool" where
  "arch_check [] env a n privs mode = arch_default env privs mode"
| "arch_check (i # is) env a n privs mode =
    (if list_ex (\<lambda>k. hits env i (a + k)) [0..<n]
     then list_all (\<lambda>k. hits env i (a + k)) [0..<n] \<and> arch_allows env i privs mode
     else arch_check is env a n privs mode)"

lemma default_arch: "fst (pmp_hart_has_privs_default env privs mode) = arch_default env privs mode"
  by (simp add: pmp_hart_has_privs_default_def arch_default_def)

lemma and_bit_if: "c AND 2 ^ n = (if bit c n then 2 ^ n else 0)" for c :: "'w::len word"
  by (rule bit_word_eqI) (auto simp: bit_simps)

text \<open>The two tables of the code, entry by entry.\<close>

lemma smepmp_tables:
  "smepmp_machine (smepmp_operation c) = Some (mml_privs True c)" (is ?M)
  "smepmp_other (smepmp_operation c) = Some (mml_privs False c)" (is ?O)
proof -
  have l: "c AND PMP_LOCK = (if bit c 7 then PMP_LOCK else 0)" "c AND PMP_READ = (if bit c 0 then PMP_READ else 0)"
    "c AND PMP_WRITE = (if bit c 1 then PMP_WRITE else 0)" "c AND PMP_EXEC = (if bit c 2 then PMP_EXEC else 0)"
    using and_bit_if [of c 7] and_bit_if [of c 0] and_bit_if [of c 1] and_bit_if [of c 2] by simp_all
  have "c AND 7 = (c AND PMP_READ) OR (c AND PMP_WRITE) OR (c AND PMP_EXEC)"
    by (simp add: bit.conj_disj_distrib [symmetric])
  then have s: "c AND 7 = (if bit c 0 then PMP_READ else 0) OR (if bit c 1 then PMP_WRITE else 0) OR (if bit c 2 then PMP_EXEC else 0)"
    by (simp only: l)
  show ?M ?O
    unfolding smepmp_operation_def mml_privs_def Let_def l s
    by (simp_all add: smepmp_machine_def smepmp_other_def)
qed

lemma rule_privs_arch:
  assumes "\<not> MSECCFG_RLB_ISSET env \<or> MSECCFG_MML_ISSET env"
  shows "\<exists>allowed. rule_privs env i mode = Some allowed \<and> (privs AND allowed = privs) = arch_allows env i privs mode"
proof (cases "MSECCFG_MML_ISSET env")
  case False
  have "c AND PMP_LOCK \<noteq> 0 \<longleftrightarrow> bit c 7" for c :: u8
    using and_bit_if [of c 7] by simp
  then have "pmp_is_locked env i = bit (cfg_reg (entry env i)) 7" using assms False by (simp add: pmp_is_locked_def)
  then show ?thesis using False by (simp add: rule_privs_def arch_allows_def Let_def and.commute)
qed (simp add: rule_privs_def arch_allows_def smepmp_tables)

lemma hits_off: "\<not> active env i \<Longrightarrow> \<not> hits env i x"
  by (simp add: hits_def arch_match_def)

lemma arch_match_granule:
  assumes "x div 4 = y div 4"
  shows "arch_match c this p x = arch_match c this p y"
proof -
  have exp: "(2 :: nat) ^ (t + 3) = 4 * 2 ^ (t + 1)" for t by (simp add: power_add)
  have napot: "x div 2 ^ (t + 3) = y div 2 ^ (t + 3)" for t
    unfolding exp using assms by (simp only: div_mult2_eq)
  have tor: "4 * p \<le> z \<longleftrightarrow> p \<le> z div 4" "z < 4 * this \<longleftrightarrow> z div 4 < this" for z
    by (auto simp: less_eq_div_iff_mult_less_eq div_less_iff_less_mult)
  show ?thesis
    unfolding arch_match_def Let_def napot tor assms ..
qed

lemma hits_granule: "x div 4 = y div 4 \<Longrightarrow> hits env i x = hits env i y"
  unfolding hits_def by (rule arch_match_granule)

text \<open>An aligned access of at most eight bytes lies in the granules of its first and its last byte.\<close>

lemma aligned_granules:
  fixes a :: nat
  assumes "n \<in> {1, 2, 4, 8}" and "n dvd a" and "k < n"
  shows "(a + k) div 4 = a div 4 \<or> (a + k) div 4 = (a + (n - 1)) div 4"
proof -
  obtain m where a: "a = n * m" using assms(2) by (elim dvdE)
  consider "n = 1" | "n = 2" | "n = 4" | "n = 8" using assms(1) by auto
  then show ?thesis
  proof cases
    case 4
    have "(4 * (2 * m) + j) div 4 = 2 * m + j div 4" for j by simp
    then have "(8 * m + j) div 4 = 2 * m + j div 4" for j by (simp add: mult.assoc [symmetric])
    moreover have "k div 4 = 0 \<or> k div 4 = 1" using assms(3) 4 by simp arith
    ultimately show ?thesis using a 4 by auto
  next
    case 3
    then show ?thesis using assms(3) a by simp
  next
    case 2
    then have "k = 0 \<or> k = n - 1" using assms(3) by auto
    then show ?thesis by auto
  qed (use assms(3) in simp)
qed

lemma aligned_hits:
  assumes "n \<in> {1, 2, 4, 8}" and "n dvd a"
  shows "list_ex (\<lambda>k. hits env i (a + k)) [0..<n] \<longleftrightarrow> hits env i a \<or> hits env i (a + (n - 1))"
    and "list_all (\<lambda>k. hits env i (a + k)) [0..<n] \<longleftrightarrow> hits env i a \<and> hits env i (a + (n - 1))"
proof -
  have n: "0 < n" using assms(1) by auto
  have k: "hits env i (a + k) = hits env i a \<or> hits env i (a + k) = hits env i (a + (n - 1))" if "k < n" for k
    using aligned_granules [OF assms that] hits_granule by blast
  have first: "hits env i a = hits env i (a + 0)" by simp
  show "list_ex (\<lambda>k. hits env i (a + k)) [0..<n] \<longleftrightarrow> hits env i a \<or> hits env i (a + (n - 1))"
    unfolding list_ex_iff set_upt Bex_def atLeastLessThan_iff using k n first by (metis diff_less le0 less_numeral_extra(1))
  show "list_all (\<lambda>k. hits env i (a + k)) [0..<n] \<longleftrightarrow> hits env i a \<and> hits env i (a + (n - 1))"
    unfolding list_all_iff set_upt Ball_def atLeastLessThan_iff using k n first by (metis diff_less le0 less_numeral_extra(1))
qed

lemma in_range_hits:
  assumes "pmp_inv env" and "regs_ok env" and "i < MAX_RISCV_PMPS" and "active env i"
  shows "pmp_is_in_range env i x = hits env i (unat x)"
proof -
  have "range_ok env i" using assms(1,3) by (simp add: pmp_inv_def ranges_ok_def)
  then have "pmp_sa (rng env i) = fst (range_of env i)" "pmp_ea (rng env i) = snd (range_of env i)"
    using assms(4) by (auto simp: range_ok_def dest: arg_cong [of _ _ fst] arg_cong [of _ _ snd])
  moreover have "unat (addr_reg (entry env i)) < 2 ^ 54" "unat (prev_addr env i) < 2 ^ 54"
    using assms(2,3) by (auto simp: regs_ok_def prev_addr_def)
  ultimately show ?thesis
    using rule_range_match [of "addr_reg (entry env i)" "prev_addr env i" "cfg_reg (entry env i)" x] assms(2-4)
    by (simp add: pmp_is_in_range_def hits_def regs_ok_def)
qed

lemma off_in_range:
  assumes "pmp_inv env" and "i < MAX_RISCV_PMPS" and "\<not> active env i" and "x \<noteq> 0" and "y \<noteq> 0"
  shows "pmp_is_in_range env i x = pmp_is_in_range env i y"
proof -
  have "range_ok env i" using assms(1,2) by (simp add: pmp_inv_def ranges_ok_def)
  then show ?thesis
    using assms(3-5) by (auto simp: range_ok_def pmp_is_in_range_def rule_range_def)
qed

lemma aligned_last:
  assumes "unat sz \<in> {1, 2, 4, 8}" and "unat sz dvd unat (a :: u64)"
  shows "unat (a + sz - 1) = unat a + (unat sz - 1)"
proof -
  obtain q where q: "unat a = unat sz * q" using assms(2) by (elim dvdE)
  have "unat a < 18446744073709551616" using unsigned_less [of a] by simp
  moreover consider "unat sz = 1" | "unat sz = 2" | "unat sz = 4" | "unat sz = 8" using assms(1) by auto
  then have "unat sz * q < 18446744073709551616 \<longrightarrow> unat sz * q + (unat sz - 1) < 18446744073709551616"
    by cases (simp only:, presburger)+
  moreover have "sz \<noteq> 0" using assms(1) by auto
  then have "unat (sz - 1) = unat sz - 1" by (rule unat_minus_one)
  ultimately show ?thesis
    using unat_add_lem [of a "sz - 1"] q by (simp add: add_diff_eq)
qed

lemma check_rules_arch:
  assumes inv: "pmp_inv env" "regs_ok env" "\<not> MSECCFG_RLB_ISSET env \<or> MSECCFG_MML_ISSET env"
    and n: "unat sz \<in> {1, 2, 4, 8}" "unat sz dvd unat a" "a \<noteq> 0" and "set is \<subseteq> {0..<MAX_RISCV_PMPS}"
  shows "map_option fst (check_rules is env a sz privs mode) = Some (arch_check is env (unat a) (unat sz) privs mode)"
  using assms(7)
proof (induction "is")
  case (Cons i "is")
  note last = aligned_last [OF n(1,2)]
  have "unat (a + sz - 1) \<noteq> 0" using last n(3) by (simp add: unat_0_iff)
  then have "a + sz - 1 \<noteq> 0" by auto
  show ?case
  proof (cases "active env i")
    case True
    obtain allowed where "rule_privs env i mode = Some allowed" "(privs AND allowed = privs) = arch_allows env i privs mode"
      using rule_privs_arch [OF inv(3)] by blast
    then show ?thesis
      using Cons inv True by (auto simp: Let_def in_range_hits aligned_hits [OF n(1,2)] last)
  next
    case False
    then show ?thesis
      using Cons off_in_range [OF inv(1), of i a "a + sz - 1"] n(3) \<open>a + sz - 1 \<noteq> 0\<close>
      by (auto simp: Let_def hits_off list_ex_iff)
  qed
qed (simp add: default_arch)

lemma no_rules_arch:
  assumes "\<And>i. i \<in> set is \<Longrightarrow> \<not> active env i"
  shows "arch_check is env a n privs mode = fst (pmp_hart_has_privs_default env privs mode)"
  using assms by (induction "is") (simp_all add: hits_off list_ex_iff default_arch)

lemma num_rules_zero: "pmp_inv env \<Longrightarrow> pmp_get_num_rules env = 0 \<Longrightarrow> i < MAX_RISCV_PMPS \<Longrightarrow> \<not> active env i"
  by (auto simp: pmp_inv_def pmp_get_num_rules_def active_count_def filter_empty_conv)

lemma small_int: "unat sz < 2 ^ 31 \<Longrightarrow> signed_take_bit 31 sz = (sz :: u64)"
proof -
  assume "unat sz < 2 ^ 31"
  then have "take_bit 31 sz = sz"
    by (simp only: word_unat_eq_iff unat_take_bit take_bit_nat_eq_self)
  then show ?thesis
    by (metis bit_take_bit_iff less_irrefl signed_take_bit_eq_if_positive take_bit_signed_take_bit nat_le_linear signed_take_bit_take_bit take_bit_tightened)
qed

section \<open>A concrete machine\<close>

text \<open>Entry 0 covers 8 KB at 2 GB for reading and writing, entry 1 the page after it, locked, for reading.\<close>

definition pmp_example :: "unit rv_machine" where
  "pmp_example = (zeroed_rv 0x10000000 [] ())\<lparr>misa_mxl := MXL_RV64, cfg := zeroed_cfg\<lparr>cfg_pmp := True\<rparr>\<rparr>"

definition pmp_example_writes :: "pmp_write list" where
  "pmp_example_writes = [Write_addr 0 0x200003ff, Write_addr 1 0x20000c00, Write_cfg 0 0x891b]"

lemma pmp_example_inv: "pmp_inv pmp_example"
  by (auto simp: pmp_inv_def ranges_ok_def pmp_wf_def range_ok_def pmp_example_def zeroed_rv_def active_count_def pmp_get_a_field_def filter_empty_conv)

lemma pmp_example_after:
  "pmp_state (fold pmp_step pmp_example_writes pmp_example) =
    \<lparr>pmp = \<lparr>addr_reg = 0x200003ff, cfg_reg = 0x1b\<rparr> # \<lparr>addr_reg = 0x20000c00, cfg_reg = 0x89\<rparr> # replicate 14 \<lparr>addr_reg = 0, cfg_reg = 0\<rparr>,
     pmp_addr = \<lparr>pmp_sa = 0x80000000, pmp_ea = 0x80001fff\<rparr> # \<lparr>pmp_sa = 0x80000ffc, pmp_ea = 0x80002fff\<rparr> # replicate 14 \<lparr>pmp_sa = 0, pmp_ea = 0\<rparr>,
     num_rules = 2\<rparr>"
  by code_simp

lemma pmp_example_frame:
  "mseccfg (fold pmp_step pmp_example_writes pmp_example) = 0 \<and> cfg (fold pmp_step pmp_example_writes pmp_example) = zeroed_cfg\<lparr>cfg_pmp := True\<rparr>"
  by code_simp

lemma pmp_example_regs: "regs_ok (fold pmp_step pmp_example_writes pmp_example)"
  unfolding regs_ok_def prev_addr_def pmp_example_after
  by (auto simp: nth_Cons' pmp_get_a_field_def)

text \<open>The same writes with Smepmp under the lockdown.\<close>

definition pmp_lockdown :: "unit rv_machine" where
  "pmp_lockdown = pmp_example\<lparr>cfg := zeroed_cfg\<lparr>cfg_pmp := True, ext_smepmp := True\<rparr>, mseccfg := MSECCFG_MML\<rparr>"

lemma pmp_lockdown_inv: "pmp_inv pmp_lockdown"
  using pmp_example_inv ranges_ok_cong [of pmp_lockdown pmp_example] by (simp add: pmp_inv_def pmp_lockdown_def)

lemma pmp_lockdown_after:
  "pmp_state (fold pmp_step pmp_example_writes pmp_lockdown) = pmp_state (fold pmp_step pmp_example_writes pmp_example)"
  by code_simp

lemma pmp_lockdown_frame: "mseccfg (fold pmp_step pmp_example_writes pmp_lockdown) = MSECCFG_MML"
  by code_simp

lemma pmp_lockdown_regs: "regs_ok (fold pmp_step pmp_example_writes pmp_lockdown)"
  using pmp_example_regs unfolding regs_ok_def prev_addr_def pmp_lockdown_after .

section \<open>The properties\<close>

text \<open>(C26) The check of \<open>pmp_hart_has_privs\<close> gives the verdict of the architecture, with and without the lockdown of Smepmp (\<open>mseccfg.MML\<close>): after any
  writes of the configuration, address and security registers, for an aligned access of one, two, four or eight bytes at a nonzero address, when the
  address registers hold 54 bits and no top-of-range entry is empty. Without the lockdown the rule-lock bypass (\<open>mseccfg.RLB\<close>) is off: with it the code
  treats no entry as locked. The assertions of the code hold.\<close>

theorem pmp_check_architecture:
  assumes "pmp_inv env" and "env' = fold pmp_step ws env" and "regs_ok env'" and "\<not> MSECCFG_RLB_ISSET env' \<or> MSECCFG_MML_ISSET env'"
    and "unat sz \<in> {1, 2, 4, 8}" and "unat sz dvd unat a" and "a \<noteq> 0"
  shows "\<exists>allowed. pmp_hart_has_privs env' a sz privs mode =
    Some (arch_check [0..<MAX_RISCV_PMPS] env' (unat a) (unat sz) privs mode, allowed)"
proof -
  have inv: "pmp_inv env'" using assms(1,2) pmp_steps_inv by blast
  have "signed_take_bit 31 sz = sz" "sz \<noteq> 0"
    using assms(5) by (auto intro: small_int)
  moreover have "map_option fst (check_rules [0..<MAX_RISCV_PMPS] env' a sz privs mode)
      = Some (arch_check [0..<MAX_RISCV_PMPS] env' (unat a) (unat sz) privs mode)"
    by (rule check_rules_arch) (use inv assms in auto)
  moreover have "arch_check [0..<MAX_RISCV_PMPS] env' (unat a) (unat sz) privs mode = fst (pmp_hart_has_privs_default env' privs mode)"
    if "pmp_get_num_rules env' = 0"
    by (rule no_rules_arch) (use num_rules_zero [OF inv that] in simp)
  ultimately show ?thesis
    by (auto simp: pmp_hart_has_privs_def Let_def map_option_case split: option.splits) (metis prod.collapse)+
qed

theorem pmp_check_architecture_witness:
  "(\<exists>allowed. pmp_hart_has_privs (fold pmp_step pmp_example_writes pmp_example) 0x80000ff8 8 PMP_WRITE PRV_S = Some (True, allowed))
    \<and> (\<exists>allowed. pmp_hart_has_privs (fold pmp_step pmp_example_writes pmp_lockdown) 0x80000ff8 8 PMP_WRITE PRV_M = Some (False, allowed))"
proof -
  let ?e = "fold pmp_step pmp_example_writes pmp_example" and ?l = "fold pmp_step pmp_example_writes pmp_lockdown"
  have "trailing_ones 64 0x200003ff = 10" by (simp add: trailing_ones_numeral)
  then have "hits ?e 0 x \<longleftrightarrow> x div 8192 = 262144" "hits ?l 0 x \<longleftrightarrow> x div 8192 = 262144" for x
    by (simp_all add: hits_def pmp_example_after pmp_lockdown_after arch_match_def pmp_get_a_field_def)
  moreover have mml: "\<not> MSECCFG_RLB_ISSET ?e" "\<not> MSECCFG_MML_ISSET ?e" "MSECCFG_MML_ISSET ?l"
    by (simp_all add: MSECCFG_RLB_ISSET_def MSECCFG_MML_ISSET_def pmp_example_frame pmp_lockdown_frame get_field_def low_one_def)
  ultimately have "arch_check [0..<MAX_RISCV_PMPS] ?e (unat (0x80000ff8 :: u64)) (unat (8 :: u64)) PMP_WRITE PRV_S"
    "\<not> arch_check [0..<MAX_RISCV_PMPS] ?l (unat (0x80000ff8 :: u64)) (unat (8 :: u64)) PMP_WRITE PRV_M"
    using aligned_hits [where n = 8 and a = "0x80000ff8" and env = ?e and i = 0]
      aligned_hits [where n = 8 and a = "0x80000ff8" and env = ?l and i = 0]
    by (simp_all add: upt_conv_Cons [of 0 MAX_RISCV_PMPS] pmp_example_after pmp_lockdown_after arch_allows_def mml_privs_def Let_def
        del: upt_rec_numeral)
  then show ?thesis
    using pmp_check_architecture [OF pmp_example_inv refl pmp_example_regs, where sz = 8 and a = "0x80000ff8" and privs = PMP_WRITE and mode = PRV_S]
      pmp_check_architecture [OF pmp_lockdown_inv refl pmp_lockdown_regs, where sz = 8 and a = "0x80000ff8" and privs = PMP_WRITE and mode = PRV_M] mml
    by simp
qed

text \<open>Locked entries do not change: without Smepmp, after any sequence of writes of the configuration, address and security
  registers, a locked entry has its configuration, its address and its range, so that its verdict stays.\<close>

theorem locked_entry_stays:
  assumes "pmp_wf env" and "\<not> ext_smepmp (cfg env)" and "\<not> MSECCFG_RLB_ISSET env"
    and "i < MAX_RISCV_PMPS" and "cfg_reg (entry env i) AND PMP_LOCK \<noteq> 0"
  shows "entry (fold pmp_step ws env) i = entry env i \<and> rng (fold pmp_step ws env) i = rng env i"
  using pmp_steps_kept [of i env ws] assms by (simp add: locked_at_def)

theorem locked_entry_stays_witness:
  "entry (fold pmp_step [Write_addr 0 0, Write_addr 1 0, Write_cfg 0 0] (fold pmp_step pmp_example_writes pmp_example)) 1
    = \<lparr>addr_reg = 0x20000c00, cfg_reg = 0x89\<rparr>"
proof -
  let ?env = "fold pmp_step pmp_example_writes pmp_example"
  have "\<not> ext_smepmp (cfg ?env) \<and> \<not> MSECCFG_RLB_ISSET ?env"
    by (simp add: pmp_example_frame zeroed_cfg_def MSECCFG_RLB_ISSET_def get_field_def)
  moreover have "pmp_wf ?env" by (simp add: pmp_wf_def pmp_example_after)
  ultimately show ?thesis
    using locked_entry_stays [of ?env 1 "[Write_addr 0 0, Write_addr 1 0, Write_cfg 0 0]"] by (simp add: pmp_example_after)
qed

section \<open>Pages\<close>

lemma page_verdict:
  assumes inv: "pmp_inv env" and split: "split_by_rules is env s (s + 0xfff) = TARGET_PAGE_SIZE"
    and page: "s \<noteq> 0" and "set is \<subseteq> {0..<MAX_RISCV_PMPS}"
    and x: "s \<le> x" "x \<le> x + n - 1" "x + n - 1 \<le> s + 0xfff" and y: "s \<le> y" "y \<le> y + m - 1" "y + m - 1 \<le> s + 0xfff"
  shows "check_rules is env x n privs mode = check_rules is env y m privs mode"
  using split assms(4)
proof (induction "is")
  case (Cons i "is")
  have ends: "s \<le> x + n - 1" "x \<le> s + 0xfff" "s \<le> y + m - 1" "y \<le> s + 0xfff"
    using x y by (meson order_trans)+
  have nz: "z \<noteq> 0" if "s \<le> z" for z
    using that page by auto
  show ?case
  proof (cases "active env i")
    case True
    have all: "pmp_is_in_range env i z" if "pmp_sa (rng env i) \<le> s" "s + 0xfff \<le> pmp_ea (rng env i)" "s \<le> z" "z \<le> s + 0xfff" for z
      using that by (meson order_trans pmp_is_in_range_def)
    have none: "\<not> pmp_is_in_range env i z"
      if "\<not> (pmp_sa (rng env i) \<le> s \<and> s + 0xfff \<le> pmp_ea (rng env i))"
        "\<not> (s \<le> pmp_sa (rng env i) \<and> pmp_sa (rng env i) \<le> s + 0xfff)" "\<not> (s \<le> pmp_ea (rng env i) \<and> pmp_ea (rng env i) \<le> s + 0xfff)"
        "s \<le> z" "z \<le> s + 0xfff" for z
      using that by (meson order_trans linear pmp_is_in_range_def)
    show ?thesis
    proof (cases "pmp_sa (rng env i) \<le> s \<and> s + 0xfff \<le> pmp_ea (rng env i)")
      case covers: True
      then show ?thesis
        using True x y ends by (simp add: Let_def all)
    next
      case False
      then show ?thesis
        using Cons True x y ends by (simp add: Let_def none split: if_splits)
    qed
  next
    case False
    have "i < MAX_RISCV_PMPS" using Cons.prems(2) by simp
    note off = off_in_range [OF inv this False]
    have "pmp_is_in_range env i x = pmp_is_in_range env i (x + n - 1)" "pmp_is_in_range env i y = pmp_is_in_range env i (y + m - 1)"
      using off [OF nz nz] x(1) y(1) ends by blast+
    then show ?thesis
      using Cons False by (simp add: Let_def)
  qed
qed simp

text \<open>A page is cached whole only if the rules do not split it: when \<open>pmp_get_tlb_size\<close> answers the page size for an address,
  the check gives the same verdict and the same permissions for all accesses inside that page.\<close>

theorem whole_page_uniform:
  assumes "pmp_inv env" and "cfg_pmp (cfg env)" and "pmp_get_tlb_size env x = TARGET_PAGE_SIZE"
    and "s = x AND TARGET_PAGE_MASK_rv" and "s \<noteq> 0" and "0 < unat n" "unat n \<le> 4096" "0 < unat m" "unat m \<le> 4096"
    and "x \<le> x + n - 1" "x + n - 1 \<le> s + 0xfff" and "s \<le> y" "y \<le> y + m - 1" "y + m - 1 \<le> s + 0xfff"
  shows "pmp_hart_has_privs env x n privs mode = pmp_hart_has_privs env y m privs mode"
proof (cases "pmp_get_num_rules env = 0")
  case False
  have "s \<le> x" using assms(4) by (simp add: word_and_le2)
  moreover have "split_by_rules [0..<MAX_RISCV_PMPS] env s (s + 0xfff) = TARGET_PAGE_SIZE"
    using assms(2-4) False by (simp add: pmp_get_tlb_size_def Let_def add.commute)
  moreover have "n \<noteq> 0" "m \<noteq> 0" "signed_take_bit 31 n = n" "signed_take_bit 31 m = m"
    using assms(6-9) by (auto intro!: small_int)
  ultimately show ?thesis
    using False page_verdict [OF assms(1) _ assms(5) _ _ assms(10,11) assms(12-14), of "[0..<MAX_RISCV_PMPS]" privs mode]
    by (simp add: pmp_hart_has_privs_def Let_def)
qed (simp add: pmp_hart_has_privs_def)

theorem whole_page_uniform_witness:
  "pmp_hart_has_privs (fold pmp_step pmp_example_writes pmp_example) 0x80001008 8 PMP_READ PRV_U
    = pmp_hart_has_privs (fold pmp_step pmp_example_writes pmp_example) 0x80001ffe 2 PMP_READ PRV_U"
proof (rule whole_page_uniform [where s = "0x80001000"])
  show "pmp_inv (fold pmp_step pmp_example_writes pmp_example)"
    by (rule pmp_steps_inv [OF pmp_example_inv])
  show "cfg_pmp (cfg (fold pmp_step pmp_example_writes pmp_example))" by (simp add: pmp_example_frame)
  show "pmp_get_tlb_size (fold pmp_step pmp_example_writes pmp_example) 0x80001008 = TARGET_PAGE_SIZE"
    by (simp add: pmp_get_tlb_size_def pmp_get_num_rules_def pmp_example_frame pmp_example_after upt_rec [of 0] pmp_get_a_field_def)
qed simp_all

end
