(* ===== verification/RV_Trap.thy ===== *)
theory RV_Trap
  imports RV_PMP Host_Utils
begin

text \<open>
  Privilege modes, traps and interrupts of the RISC-V target: \<open>riscv_cpu_set_mode\<close>, the choice of an interrupt, trap entry
  (\<open>riscv64/cpu_helper.c\<close>), trap return (\<open>riscv64/op_helper.c\<close>), the interrupt lines, the timer device and reset (\<open>riscv64/cpu.c\<close>), and the polling of
  \<open>exec_env\<close> (\<open>main.c\<close>).

  \<^item> Left out with the hypervisor extension: \<open>vs_injected\<close>, \<open>htval\<close>, \<open>tinst\<close> and \<open>mtval2\<close>. \<open>riscv_cpu_update_mask\<close> writes two registers that
    nothing reads (pointer masking is off), and \<open>riscv_cpu_interrupt\<close> has no effect.
  \<^item> \<open>pick\<close> is the loop of \<open>riscv_cpu_pending_to_irq\<close>, with a termination proof. No interrupt is -1.
  \<^item> \<open>loongarch_cpu_check_irq\<close> ends with two calls that the option for the second serial port (\<open>serial_plus\<close>) enables, \<open>serial_check_io\<close> and
    \<open>riscv_plic_check_io\<close>; they are left out: the model is of the default configuration.
  \<^item> \<open>la_get_tval\<close> reads the instruction count in determined mode and the host clock otherwise.
\<close>

section \<open>Modes\<close>

definition cpu_get_xl :: "'d rv_machine \<Rightarrow> u64 \<Rightarrow> u64" where
  "cpu_get_xl env mode =
    (if misa_mxl env \<noteq> MXL_RV32 then
       if mode = PRV_M then misa_mxl env
       else if mode = PRV_U then get_field (mstatus env) MSTATUS64_UXL
       else get_field (mstatus env) MSTATUS64_SXL
     else misa_mxl env)"

definition cpu_recompute_xl :: "'d rv_machine \<Rightarrow> u64" where
  "cpu_recompute_xl env = cpu_get_xl env (priv env)"

definition riscv_cpu_sxl :: "'d rv_machine \<Rightarrow> u64" where
  "riscv_cpu_sxl env = (if misa_mxl env \<noteq> MXL_RV32 then get_field (mstatus env) MSTATUS64_SXL else MXL_RV32)"

definition cpu_get_fcfien :: "'d rv_machine \<Rightarrow> (bool, 'd rv_machine) outcome" where
  "cpu_get_fcfien env =
    (if \<not> ext_zicfilp (cfg env) then Ret False env
     else if priv env = PRV_U then
       if riscv_has_ext env (RV 18) then Ret (senvcfg env AND SENVCFG_LPE \<noteq> 0) env else Ret (menvcfg env AND MENVCFG_LPE \<noteq> 0) env
     else if priv env = PRV_S then Ret (menvcfg env AND MENVCFG_LPE \<noteq> 0) env
     else if priv env = PRV_M then Ret (mseccfg env AND MSECCFG_MLPE \<noteq> 0) env
     else Crash)"

definition riscv_cpu_set_mode :: "u64 \<Rightarrow> 'd rv_machine \<Rightarrow> (unit, 'd rv_machine) outcome" where
  "riscv_cpu_set_mode newpriv env =
    (if newpriv \<le> PRV_M \<and> newpriv \<noteq> PRV_RESERVED then
       let env = env\<lparr>priv := newpriv\<rparr>; env = env\<lparr>xl := cpu_recompute_xl env\<rparr>
       in Ret () (env\<lparr>load_res := - 1\<rparr>)
     else Crash)"

definition riscv_raise_exception :: "u32 \<Rightarrow> 'd rv_machine \<Rightarrow> ('a, 'd rv_machine) outcome" where
  "riscv_raise_exception exception env = Exn (env\<lparr>exception_index := exception\<rparr>)"

section \<open>The choice of an interrupt\<close>

text \<open>\<open>default_iprio\<close>: the interrupts in the order of their default priorities, from 4 up; the others have the lowest.\<close>

definition default_order :: "nat list" where
  "default_order =
    [47, 23, 46, 45, 22, 44, 43, 21, 42, 41, 20, 40,
     11, 3, 7, 9, 1, 5, 12, 10, 2, 6,
     39, 19, 38, 37, 18, 36, 35, 17, 34, 33, 16, 32]"

fun position :: "nat \<Rightarrow> nat list \<Rightarrow> nat option" where
  "position x [] = None"
| "position x (y # ys) = (if x = y then Some 0 else map_option Suc (position x ys))"

definition riscv_cpu_default_priority :: "nat \<Rightarrow> u8" where
  "riscv_cpu_default_priority irq = (case position irq default_order of Some n \<Rightarrow> of_nat (4 + n) | None \<Rightarrow> 255)"

definition irq_prio :: "nat \<Rightarrow> u32 \<Rightarrow> (nat \<Rightarrow> u8) \<Rightarrow> nat \<Rightarrow> u32" where
  "irq_prio extirq extirq_def_prio iprio irq =
    (if iprio irq \<noteq> 0 then ucast (iprio irq)
     else if irq = extirq then extirq_def_prio
     else if ucast (riscv_cpu_default_priority irq) < extirq_def_prio then 1 else 255)"

function pick :: "nat \<Rightarrow> u32 \<Rightarrow> (nat \<Rightarrow> u8) \<Rightarrow> nat \<Rightarrow> u64 \<Rightarrow> int \<Rightarrow> u32 \<Rightarrow> int" where
  "pick extirq extirq_def_prio iprio irq pending best_irq best_prio =
    (if pending = 0 then best_irq
     else
       let prio = irq_prio extirq extirq_def_prio iprio irq;
           better = (pending AND 1 \<noteq> 0 \<and> prio \<le> best_prio)
       in pick extirq extirq_def_prio iprio (irq + 1) (drop_bit 1 pending)
            (if better then int irq else best_irq) (if better then prio else best_prio))"
  by pat_completeness auto
termination
proof (relation "measure (\<lambda>(_, _, _, _, pending, _, _). unat pending)")
  fix extirq :: nat and extirq_def_prio :: u32 and iprio :: "nat \<Rightarrow> u8" and irq :: nat and pending :: u64 and best_irq :: int and best_prio :: u32
    and prio better
  assume "pending \<noteq> 0"
  then have "unat (drop_bit 1 pending) < unat pending"
    by (simp only: unat_drop_bit_div) (simp add: unat_gt_0)
  then show "((extirq, extirq_def_prio, iprio, irq + 1, drop_bit 1 pending, if better then int irq else best_irq, if better then prio else best_prio),
      extirq, extirq_def_prio, iprio, irq, pending, best_irq, best_prio) \<in> measure (\<lambda>(_, _, _, _, pending, _, _). unat pending)"
    by simp
qed simp

declare pick.simps [simp del]

definition riscv_cpu_pending_to_irq :: "'d rv_machine \<Rightarrow> nat \<Rightarrow> u32 \<Rightarrow> u64 \<Rightarrow> (nat \<Rightarrow> u8) \<Rightarrow> int" where
  "riscv_cpu_pending_to_irq env extirq extirq_def_prio pending iprio =
    (if pending = 0 then - 1
     else
       let irq = ctz64 pending in
       if \<not> (if extirq = IRQ_M_EXT then ext_smaia (cfg env) else ext_ssaia (cfg env)) then int irq
       else pick extirq extirq_def_prio iprio irq (drop_bit irq pending) (- 1) (- 1))"

definition riscv_cpu_all_pending :: "'d rv_machine \<Rightarrow> u64" where
  "riscv_cpu_all_pending env = mip env AND mie env"

definition riscv_cpu_mirq_pending :: "'d rv_machine \<Rightarrow> int" where
  "riscv_cpu_mirq_pending env =
    riscv_cpu_pending_to_irq env IRQ_M_EXT IPRIO_DEFAULT_M
      (riscv_cpu_all_pending env AND NOT (mideleg env) AND NOT (MIP_SGEIP OR MIP_VSSIP OR MIP_VSTIP OR MIP_VSEIP)) (miprio env)"

definition riscv_cpu_sirq_pending :: "'d rv_machine \<Rightarrow> int" where
  "riscv_cpu_sirq_pending env =
    (let irqs = riscv_cpu_all_pending env AND mideleg env AND NOT (MIP_VSSIP OR MIP_VSTIP OR MIP_VSEIP);
         irqs_f = mvip env AND mvien env AND NOT (mideleg env) AND sie env
     in riscv_cpu_pending_to_irq env IRQ_S_EXT IPRIO_DEFAULT_S (irqs OR irqs_f) (siprio env))"

definition m_enabled :: "'d rv_machine \<Rightarrow> bool" where
  "m_enabled env = (priv env < PRV_M \<or> priv env = PRV_M \<and> get_field (mstatus env) MSTATUS_MIE \<noteq> 0)"

definition s_enabled :: "'d rv_machine \<Rightarrow> bool" where
  "s_enabled env = (priv env < PRV_S \<or> priv env = PRV_S \<and> get_field (mstatus env) MSTATUS_SIE \<noteq> 0)"

definition riscv_cpu_local_irq_pending :: "'d rv_machine \<Rightarrow> int" where
  "riscv_cpu_local_irq_pending env =
    (let mie = (if m_enabled env then 1 else 0 :: u64); hsie = (if s_enabled env then 1 else 0 :: u64);
         pending = riscv_cpu_all_pending env;
         irqs = pending AND NOT (mideleg env) AND - mie
     in if irqs \<noteq> 0 then riscv_cpu_pending_to_irq env IRQ_M_EXT IPRIO_DEFAULT_M irqs (miprio env)
        else
          let irqs_f = mvip env AND (mvien env AND NOT (mideleg env)) AND sie env;
              irqs = ((pending AND mideleg env) OR irqs_f) AND - hsie
          in if irqs \<noteq> 0 then riscv_cpu_pending_to_irq env IRQ_S_EXT IPRIO_DEFAULT_S irqs (siprio env)
             else - 1)"

section \<open>Traps\<close>

definition promote_load_fault :: "u64 \<Rightarrow> u64" where
  "promote_load_fault orig_cause =
    (if orig_cause = 21 then 23
     else if orig_cause = ucast RISCV_EXCP_LOAD_ACCESS_FAULT then ucast RISCV_EXCP_STORE_AMO_ACCESS_FAULT
     else if orig_cause = ucast RISCV_EXCP_LOAD_PAGE_FAULT then ucast RISCV_EXCP_STORE_PAGE_FAULT
     else orig_cause)"

text \<open>Cause and trap value of an exception. Bit 0 of \<open>excp_uw2\<close> is \<open>RISCV_UW2_ALWAYS_STORE_AMO\<close>; 20 to 23 are the causes of guests.\<close>

definition exception_cause_rv :: "'d rv_machine \<Rightarrow> u64 \<Rightarrow> u64 \<times> u64" where
  "exception_cause_rv env cause =
    (let always_storeamo = (excp_uw2 env AND 1 \<noteq> 0);
         (cause, tval) =
           (if cause \<in> {21, 23, ucast RISCV_EXCP_LOAD_ADDR_MIS, ucast RISCV_EXCP_STORE_AMO_ADDR_MIS, ucast RISCV_EXCP_LOAD_ACCESS_FAULT,
              ucast RISCV_EXCP_STORE_AMO_ACCESS_FAULT, ucast RISCV_EXCP_LOAD_PAGE_FAULT, ucast RISCV_EXCP_STORE_PAGE_FAULT}
            then (if always_storeamo then promote_load_fault cause else cause, badaddr env)
            else if cause \<in> {20, ucast RISCV_EXCP_INST_ADDR_MIS, ucast RISCV_EXCP_INST_ACCESS_FAULT, ucast RISCV_EXCP_INST_PAGE_FAULT}
            then (cause, badaddr env)
            else if cause \<in> {22, ucast RISCV_EXCP_ILLEGAL_INST} then (cause, bins env)
            else if cause = ucast RISCV_EXCP_BREAKPOINT then (cause, badaddr env)
            else if cause = ucast RISCV_EXCP_SW_CHECK then (cause, sw_check_code env)
            else (cause, 0))
     in (if cause = ucast RISCV_EXCP_U_ECALL then
           if priv env = PRV_M then ucast RISCV_EXCP_M_ECALL
           else if priv env = PRV_S then ucast RISCV_EXCP_S_ECALL
           else if priv env = PRV_U then ucast RISCV_EXCP_U_ECALL
           else cause
         else cause, tval))"

text \<open>The vector of a trap: in vectored mode an interrupt enters at four times its cause.\<close>

definition trap_vector :: "u64 \<Rightarrow> bool \<Rightarrow> u64 \<Rightarrow> u64" where
  "trap_vector tvec async cause = push_bit 2 (drop_bit 2 tvec) + (if async \<and> tvec AND 3 = 1 then cause * 4 else 0)"

definition trap_to_s :: "bool \<Rightarrow> u64 \<Rightarrow> u64 \<Rightarrow> 'd rv_machine \<Rightarrow> (unit, 'd rv_machine) outcome" where
  "trap_to_s async cause tval env =
    bind_out (cpu_get_fcfien env) (\<lambda>fcfi env.
      let env = (if fcfi then env\<lparr>mstatus := set_field (mstatus env) MSTATUS_SPELP (of_bool (elp env))\<rparr> else env);
          s = mstatus env;
          s = set_field s MSTATUS_SPIE (get_field s MSTATUS_SIE);
          s = set_field s MSTATUS_SPP (priv env);
          s = set_field s MSTATUS_SIE 0;
          env = env\<lparr>mstatus := s\<rparr>;
          sxlen = 16 * 2 ^ unat (riscv_cpu_sxl env);
          env = env\<lparr>scause := cause OR push_bit (sxlen - 1) (of_bool async), sepc := pc env, stval := tval\<rparr>;
          env = env\<lparr>pc := trap_vector (stvec env) async cause\<rparr>
      in riscv_cpu_set_mode PRV_S env)"

definition trap_to_m :: "bool \<Rightarrow> u64 \<Rightarrow> u64 \<Rightarrow> 'd rv_machine \<Rightarrow> (unit, 'd rv_machine) outcome" where
  "trap_to_m async cause tval env =
    bind_out (cpu_get_fcfien env) (\<lambda>fcfi env.
      let env = (if fcfi then env\<lparr>mstatus := set_field (mstatus env) MSTATUS_MPELP (of_bool (elp env))\<rparr> else env);
          s = mstatus env;
          s = set_field s MSTATUS_MPIE (get_field s MSTATUS_MIE);
          s = set_field s MSTATUS_MPP (priv env);
          s = set_field s MSTATUS_MIE 0;
          env = env\<lparr>mstatus := s\<rparr>;
          mxlen = 16 * 2 ^ unat (misa_mxl env);
          env = env\<lparr>mcause := cause OR push_bit (mxlen - 1) (of_bool async), mepc := pc env, mtval := tval\<rparr>;
          env = env\<lparr>pc := trap_vector (mtvec env) async cause\<rparr>
      in riscv_cpu_set_mode PRV_M env)"

definition loongarch_cpu_do_interrupt_rv :: "'d rv_machine \<Rightarrow> (unit, 'd rv_machine) outcome" where
  "loongarch_cpu_do_interrupt_rv env =
    (let async = (exception_index env AND RISCV_EXCP_INT_FLAG \<noteq> 0);
         cause = ucast (exception_index env AND RISCV_EXCP_INT_MASK) :: u64;
         deleg = (if async then mideleg env else medeleg env);
         one = push_bit (unat cause mod 64) 1;
         s_injected = (mvip env AND one AND mvien env \<noteq> 0 \<and> mip env AND one = 0)
     in if \<not> async \<and> cause = ucast RISCV_EXCP_U_ECALL \<and> \<not> priv env \<le> 3 then Crash
        else
          let (cause, tval) = (if async then (cause, 0) else exception_cause_rv env cause)
          in bind_out
               (if priv env \<le> PRV_S \<and> cause < 64 \<and> (drop_bit (unat cause) deleg AND 1 \<noteq> 0 \<or> s_injected)
                then trap_to_s async cause tval env
                else trap_to_m async cause tval env)
               (\<lambda>_ env. Ret () (env\<lparr>elp := False\<rparr>)))"

definition riscv_cpu_exec_interrupt :: "'d rv_machine \<Rightarrow> (bool, 'd rv_machine) outcome" where
  "riscv_cpu_exec_interrupt env =
    (let interruptno = riscv_cpu_local_irq_pending env in
     if 0 \<le> interruptno then
       bind_out (loongarch_cpu_do_interrupt_rv (env\<lparr>exception_index := RISCV_EXCP_INT_FLAG OR of_int interruptno\<rparr>)) (\<lambda>_. Ret True)
     else Ret False env)"

section \<open>Trap return\<close>

definition helper_sret :: "'d rv_machine \<Rightarrow> (u64, 'd rv_machine) outcome" where
  "helper_sret env =
    (if \<not> PRV_S \<le> priv env then riscv_raise_exception RISCV_EXCP_ILLEGAL_INST env
     else
       let retpc = sepc env in
       if \<not> riscv_has_ext env (RV 2) \<and> retpc AND 3 \<noteq> 0 then riscv_raise_exception RISCV_EXCP_INST_ADDR_MIS env
       else if get_field (mstatus env) MSTATUS_TSR \<noteq> 0 \<and> \<not> PRV_M \<le> priv env then riscv_raise_exception RISCV_EXCP_ILLEGAL_INST env
       else
         let m = mstatus env;
             prev_priv = get_field m MSTATUS_SPP;
             m = set_field m MSTATUS_SIE (get_field m MSTATUS_SPIE);
             m = set_field m MSTATUS_SPIE 1;
             m = set_field m MSTATUS_SPP PRV_U;
             m = (if 2 \<le> priv_ver env then set_field m MSTATUS_MPRV 0 else m)
         in bind_out (riscv_cpu_set_mode prev_priv (env\<lparr>mstatus := m\<rparr>)) (\<lambda>_ env.
              bind_out (cpu_get_fcfien env) (\<lambda>fcfi env.
                let env = (if fcfi then env\<lparr>elp := get_field (mstatus env) MSTATUS_SPELP \<noteq> 0\<rparr> else env)
                in Ret retpc (env\<lparr>mstatus := set_field (mstatus env) MSTATUS_SPELP 0\<rparr>))))"

definition helper_mret :: "'d rv_machine \<Rightarrow> (u64, 'd rv_machine) outcome" where
  "helper_mret env =
    (if \<not> PRV_M \<le> priv env then riscv_raise_exception RISCV_EXCP_ILLEGAL_INST env
     else
       let retpc = mepc env in
       if \<not> riscv_has_ext env (RV 2) \<and> retpc AND 3 \<noteq> 0 then riscv_raise_exception RISCV_EXCP_INST_ADDR_MIS env
       else
         let m = mstatus env; prev_priv = get_field m MSTATUS_MPP in
         if cfg_pmp (cfg env) \<and> pmp_get_num_rules env = 0 \<and> prev_priv \<noteq> PRV_M then riscv_raise_exception RISCV_EXCP_INST_ACCESS_FAULT env
         else
           let m = set_field m MSTATUS_MIE (get_field m MSTATUS_MPIE);
               m = set_field m MSTATUS_MPIE 1;
               m = set_field m MSTATUS_MPP (if riscv_has_ext env (RV 20) then PRV_U else PRV_M);
               m = set_field m MSTATUS_MPV 0;
               m = (if 2 \<le> priv_ver env \<and> prev_priv \<noteq> PRV_M then set_field m MSTATUS_MPRV 0 else m)
           in bind_out (riscv_cpu_set_mode prev_priv (env\<lparr>mstatus := m\<rparr>)) (\<lambda>_ env.
                bind_out (cpu_get_fcfien env) (\<lambda>fcfi env.
                  let env = (if fcfi then env\<lparr>elp := get_field (mstatus env) MSTATUS_MPELP \<noteq> 0\<rparr> else env)
                  in Ret retpc (env\<lparr>mstatus := set_field (mstatus env) MSTATUS_MPELP 0\<rparr>))))"

section \<open>Interrupt lines and the timer\<close>

definition riscv_cpu_update_mip :: "u64 \<Rightarrow> u64 \<Rightarrow> 'a rv_irq_scheme \<Rightarrow> 'a rv_irq_scheme" where
  "riscv_cpu_update_mip m val env = env\<lparr>mip := (mip env AND NOT m) OR (val AND m)\<rparr>"

definition loongarch_cpu_set_irq_rv :: "nat \<Rightarrow> bool \<Rightarrow> 'a rv_irq_scheme \<Rightarrow> (unit, 'a rv_irq_scheme) outcome" where
  "loongarch_cpu_set_irq_rv irq level env =
    (let env = env\<lparr>irq_count := irq_count env + 1\<rparr>; m = push_bit irq 1 in
     if irq \<in> {0, 1, 2, 3, 4, 5, 6, 7, 8, 10, 11} then Ret () (riscv_cpu_update_mip m (- of_bool level) env)
     else if irq = IRQ_S_EXT then
       let env = env\<lparr>external_seip := level\<rparr>
       in Ret () (riscv_cpu_update_mip m (- of_bool (level \<or> software_seip env)) env)
     else Crash)"

definition la_get_tval_rv :: "'a rv_irq_scheme \<Rightarrow> u64 \<times> 'a rv_irq_scheme" where
  "la_get_tval_rv env =
    (if determined env then (icount env div 10, env)
     else (clock_seq env (clock_pos env) div 100, env\<lparr>clock_pos := clock_pos env + 1\<rparr>))"

definition clint_ioport_read :: "u64 \<Rightarrow> u32 \<Rightarrow> 'a rv_irq_scheme \<Rightarrow> (u64, 'a rv_irq_scheme) outcome" where
  "clint_ioport_read a sz env = Crash"

definition clint_ioport_write :: "u64 \<Rightarrow> u64 \<Rightarrow> u32 \<Rightarrow> 'a rv_irq_scheme \<Rightarrow> (unit, 'a rv_irq_scheme) outcome" where
  "clint_ioport_write a val sz env =
    (if a = 0 then if val \<noteq> 0 then Crash else Ret () env
     else if a = 0x4000 then
       let env = env\<lparr>clint_mtimecmp := val\<rparr>; (mtime, env) = la_get_tval_rv env in
       if determined env then
         if mtime < clint_mtimecmp env then loongarch_cpu_set_irq_rv IRQ_M_TIMER False env else Ret () env
       else
         let mtimecmp_clk = clint_mtimecmp env in
         if mtime < mtimecmp_clk then
           bind_out (loongarch_cpu_set_irq_rv IRQ_M_TIMER False env) (\<lambda>_ env.
             Ret () (env\<lparr>host_timer := (mtimecmp_clk - mtime) * 100\<rparr>))
         else loongarch_cpu_set_irq_rv IRQ_M_TIMER True env
     else Crash)"

definition loongarch_cpu_check_irq_rv :: "'d rv_machine \<Rightarrow> (unit, 'd rv_machine) outcome" where
  "loongarch_cpu_check_irq_rv env =
    (if determined env then
       let (tval, env) = la_get_tval_rv env in
       if clint_mtimecmp env \<le> tval then loongarch_cpu_set_irq_rv IRQ_M_TIMER True env else Ret () env
     else if timer_int env then loongarch_cpu_set_irq_rv IRQ_M_TIMER True (env\<lparr>timer_int := False\<rparr>)
     else Ret () env)"

definition loongarch_cpu_has_irq_rv :: "'d rv_machine \<Rightarrow> bool" where
  "loongarch_cpu_has_irq_rv env = (mip env OR (mvien env AND mvip env AND sie env) \<noteq> 0)"

text \<open>The polling at the head of a round of \<open>exec_env\<close>.\<close>

definition poll_interrupts_rv :: "'d rv_machine \<Rightarrow> (unit, 'd rv_machine) outcome" where
  "poll_interrupts_rv env =
    bind_out (loongarch_cpu_check_irq_rv env) (\<lambda>_ env.
      if loongarch_cpu_has_irq_rv env then bind_out (riscv_cpu_exec_interrupt env) (\<lambda>_. Ret ()) else Ret () env)"

section \<open>Reset\<close>

definition cpu_reset_rv :: "'d rv_machine \<Rightarrow> 'd rv_machine" where
  "cpu_reset_rv env =
    (let c = (cfg env)\<lparr>ext_zicntr := True, ext_zifencei := True, ext_zicsr := True, cfg_mmu := True, cfg_pmp := True\<rparr>;
         env = env\<lparr>cfg := c, xl := MXL_RV64, ol := MXL_RV64, address_xl := MXL_RV64, priv := PRV_M, clint_mtimecmp := - 1, misa_mxl := MXL_RV64,
           misa_ext := RV 8 OR RV 12 OR RV 0 OR RV 5 OR RV 3 OR RV 2 OR RV 20 OR RV 18,
           mstatus := mstatus env AND NOT (MSTATUS_MIE OR MSTATUS_MPRV)\<rparr>;
         env = (if MXL_RV32 < misa_mxl env then
           env\<lparr>mstatus := set_field (set_field (mstatus env) MSTATUS64_SXL (misa_mxl env)) MSTATUS64_UXL (misa_mxl env)\<rparr> else env);
         env = env\<lparr>mcause := 0, miclaim := MIP_SGEIP, pc := resetvec env, bins := 0,
           menvcfg := (if ext_svpbmt c then MENVCFG_PBMTE else 0) OR (if \<not> ext_svade c \<and> ext_svadu c then MENVCFG_ADUE else 0),
           miprio := (\<lambda>i. if i = IRQ_M_EXT then 0 else riscv_cpu_default_priority i),
           siprio := (\<lambda>i. if i = IRQ_S_EXT then 0 else riscv_cpu_default_priority i)\<rparr>;
         env = (if ext_smepmp c then env\<lparr>mseccfg := 0\<rparr> else env)
     in pmp_unlock_entries env)"

section \<open>The fields of the status register\<close>

lemma get_field_bit: "n < 64 \<Longrightarrow> get_field m (ones n 1) = of_bool (bit m n)"
  by (intro bit_word_eqI) (auto simp: get_field_ones bit_simps bit_iff_odd_drop_bit [of m])

lemma set_field_bit: "n < 64 \<Longrightarrow> bit (set_field m (ones n 1) v) i = (if i = n then bit v 0 else bit m i)"
  by (auto simp: bit_set_field le_less_Suc_eq)

lemma set_field_two: "k = Suc n \<Longrightarrow> n < 63 \<Longrightarrow> bit (set_field m (ones n 2) v) i = (if i = n then bit v 0 else if i = k then bit v 1 else bit m i)"
  by (cases "i = n"; cases "i = Suc n") (auto simp: bit_set_field)

lemma get_status_fields:
  "get_field m MSTATUS_SIE = of_bool (bit m 1)"
  "get_field m MSTATUS_MIE = of_bool (bit m 3)"
  "get_field m MSTATUS_SPIE = of_bool (bit m 5)"
  "get_field m MSTATUS_MPIE = of_bool (bit m 7)"
  "get_field m MSTATUS_SPP = of_bool (bit m 8)"
  "get_field m MSTATUS_MPRV = of_bool (bit m 17)"
  "get_field m MSTATUS_TSR = of_bool (bit m 22)"
  "get_field m MSTATUS_SPELP = of_bool (bit m 23)"
  "get_field m MSTATUS_MPV = of_bool (bit m 39)"
  "get_field m MSTATUS_MPELP = of_bool (bit m 41)"
  "get_field m MSTATUS_MPP = take_bit 2 (drop_bit 11 m)"
  "get_field m MSTATUS64_UXL = take_bit 2 (drop_bit 32 m)"
  "get_field m MSTATUS64_SXL = take_bit 2 (drop_bit 34 m)"
  unfolding field_ones by (rule get_field_bit; simp | rule get_field_ones; simp)+

lemma bit_status_fields:
  "bit (set_field m MSTATUS_SIE v) i = (if i = 1 then bit v 0 else bit m i)"
  "bit (set_field m MSTATUS_MIE v) i = (if i = 3 then bit v 0 else bit m i)"
  "bit (set_field m MSTATUS_SPIE v) i = (if i = 5 then bit v 0 else bit m i)"
  "bit (set_field m MSTATUS_MPIE v) i = (if i = 7 then bit v 0 else bit m i)"
  "bit (set_field m MSTATUS_SPP v) i = (if i = 8 then bit v 0 else bit m i)"
  "bit (set_field m MSTATUS_MPRV v) i = (if i = 17 then bit v 0 else bit m i)"
  "bit (set_field m MSTATUS_TSR v) i = (if i = 22 then bit v 0 else bit m i)"
  "bit (set_field m MSTATUS_SPELP v) i = (if i = 23 then bit v 0 else bit m i)"
  "bit (set_field m MSTATUS_MPV v) i = (if i = 39 then bit v 0 else bit m i)"
  "bit (set_field m MSTATUS_MPELP v) i = (if i = 41 then bit v 0 else bit m i)"
  "bit (set_field m MSTATUS_MPP v) i = (if i = 11 then bit v 0 else if i = 12 then bit v 1 else bit m i)"
  "bit (set_field m MSTATUS64_UXL v) i = (if i = 32 then bit v 0 else if i = 33 then bit v 1 else bit m i)"
  "bit (set_field m MSTATUS64_SXL v) i = (if i = 34 then bit v 0 else if i = 35 then bit v 1 else bit m i)"
  unfolding field_ones by (rule set_field_bit; simp | rule set_field_two; simp)+

section \<open>Trap entry\<close>

text \<open>The status register after the entry into a handler, bit by bit.\<close>

definition entered_m :: "u64 \<Rightarrow> u64 \<Rightarrow> u64 \<Rightarrow> bool" where
  "entered_m m p m' = (\<forall>i. bit m' i =
    (if i = 3 then False else if i = 7 then bit m 3 else if i = 11 then bit p 0 else if i = 12 then bit p 1 else bit m i))"

definition entered_s :: "u64 \<Rightarrow> u64 \<Rightarrow> u64 \<Rightarrow> bool" where
  "entered_s m p m' = (\<forall>i. bit m' i = (if i = 1 then False else if i = 5 then bit m 1 else if i = 8 then bit p 0 else bit m i))"

text \<open>What the handler and the return rely on of a trap: the state \<open>e'\<close> after it, from \<open>e\<close>.\<close>

definition same_config :: "'d rv_machine \<Rightarrow> 'd rv_machine \<Rightarrow> bool" where
  "same_config e e' = (cfg e' = cfg e \<and> misa_ext e' = misa_ext e \<and> misa_mxl e' = misa_mxl e \<and> pmp_state e' = pmp_state e \<and> priv_ver e' = priv_ver e)"

lemma bit_of_bool_0 [simp]: "bit (of_bool b :: u64) 0 = b"
  by simp

lemma m_entry_status:
  "entered_m m p (set_field (set_field (set_field m MSTATUS_MPIE (get_field m MSTATUS_MIE)) MSTATUS_MPP p) MSTATUS_MIE 0)"
  by (simp add: entered_m_def bit_status_fields get_status_fields)

lemma s_entry_status:
  "entered_s m p (set_field (set_field (set_field m MSTATUS_SPIE (get_field m MSTATUS_SIE)) MSTATUS_SPP p) MSTATUS_SIE 0)"
  by (simp add: entered_s_def bit_status_fields get_status_fields)

lemma trap_to_m_returns:
  assumes "\<not> ext_zicfilp (cfg env)"
  shows "returns (trap_to_m async cause tval env) (\<lambda>_ e.
    priv e = PRV_M \<and> mepc e = pc env \<and> entered_m (mstatus env) (priv env) (mstatus e) \<and> same_config env e \<and>
    mcause e = cause OR push_bit (16 * 2 ^ unat (misa_mxl env) - 1) (of_bool async) \<and> mtval e = tval \<and> pc e = trap_vector (mtvec env) async cause \<and>
    mip e = mip env \<and> mie e = mie env \<and> mideleg e = mideleg env \<and> mvip e = mvip env \<and> mvien e = mvien env \<and> sie e = sie env)"
  using assms m_entry_status [of "mstatus env" "priv env"]
  by (simp add: trap_to_m_def cpu_get_fcfien_def riscv_cpu_set_mode_def Let_def same_config_def)

lemma s_entry_sxl:
  "get_field (set_field (set_field (set_field m MSTATUS_SPIE x) MSTATUS_SPP y) MSTATUS_SIE z) MSTATUS64_SXL = get_field m MSTATUS64_SXL"
  by (rule bit_word_eqI) (auto simp: get_status_fields bit_status_fields bit_simps)

lemma trap_to_s_returns:
  assumes "\<not> ext_zicfilp (cfg env)"
  shows "returns (trap_to_s async cause tval env) (\<lambda>_ e.
    priv e = PRV_S \<and> sepc e = pc env \<and> entered_s (mstatus env) (priv env) (mstatus e) \<and> same_config env e \<and>
    scause e = cause OR push_bit (16 * 2 ^ unat (riscv_cpu_sxl env) - 1) (of_bool async) \<and> stval e = tval \<and> pc e = trap_vector (stvec env) async cause \<and>
    mip e = mip env \<and> mie e = mie env \<and> mideleg e = mideleg env \<and> mvip e = mvip env \<and> mvien e = mvien env \<and> sie e = sie env)"
  using assms s_entry_status [of "mstatus env" "priv env"]
  by (simp add: trap_to_s_def cpu_get_fcfien_def riscv_cpu_set_mode_def Let_def same_config_def riscv_cpu_sxl_def s_entry_sxl)

lemma mode_bits:
  assumes "p \<in> {PRV_U, PRV_S, PRV_M}"
  shows "bit p i \<longleftrightarrow> i = 0 \<and> p \<noteq> 0 \<or> i = 1 \<and> p = PRV_M"
proof -
  have "(3 :: u64) = mask 2" by (simp add: mask_numeral)
  then have "bit (3 :: u64) i \<longleftrightarrow> i < 2"
    by (simp only: bit_mask_iff) auto
  moreover have "bit (1 :: u64) i \<longleftrightarrow> i = 0"
    by (simp only: bit_1_iff)
  ultimately show ?thesis
    using assms by (auto simp: less_2_cases_iff)
qed

lemma entered_m_mpp:
  assumes "entered_m m p m'" and "p \<in> {PRV_U, PRV_S, PRV_M}"
  shows "get_field m' MSTATUS_MPP = p"
proof (rule bit_word_eqI)
  fix i
  show "bit (get_field m' MSTATUS_MPP) i = bit p i"
    using assms(1) by (auto simp: get_status_fields bit_simps entered_m_def mode_bits [OF assms(2)] less_2_cases_iff)
qed

lemma entered_s_spp:
  assumes "entered_s m p m'" and "p \<in> {PRV_U, PRV_S}"
  shows "get_field m' MSTATUS_SPP = p"
  using assms by (auto simp: get_status_fields entered_s_def)

lemma mret_returns:
  assumes "priv env = PRV_M" and "entered_m m p (mstatus env)" and p: "p \<in> {PRV_U, PRV_S, PRV_M}"
    and "riscv_has_ext env (RV 2)" and "riscv_has_ext env (RV 20)" and "\<not> ext_zicfilp (cfg env)"
    and "p = PRV_M \<or> pmp_get_num_rules env \<noteq> 0"
  shows "returns (helper_mret env) (\<lambda>v e. v = mepc env \<and> priv e = p \<and> load_res e = - 1 \<and>
    (\<forall>i. i \<notin> {7, 11, 12, 17, 39, 41} \<longrightarrow> bit (mstatus e) i = bit m i))"
proof -
  have "p \<le> PRV_M" "p \<noteq> PRV_RESERVED" using p by auto
  moreover have "bit (mstatus env) i = bit m i" if "i \<notin> {3, 7, 11, 12}" for i
    using assms(2) that by (simp add: entered_m_def)
  moreover have "bit (mstatus env) 7 = bit m 3"
    using assms(2) by (simp add: entered_m_def)
  ultimately show ?thesis
    using assms entered_m_mpp [OF assms(2) p]
    by (auto simp: helper_mret_def Let_def riscv_cpu_set_mode_def cpu_get_fcfien_def bit_status_fields get_status_fields(1-10))
qed

lemma sret_returns:
  assumes "priv env = PRV_S" and "entered_s m p (mstatus env)" and p: "p \<in> {PRV_U, PRV_S}"
    and "riscv_has_ext env (RV 2)" and "\<not> ext_zicfilp (cfg env)" and "\<not> bit m 22"
  shows "returns (helper_sret env) (\<lambda>v e. v = sepc env \<and> priv e = p \<and> load_res e = - 1 \<and>
    (\<forall>i. i \<notin> {5, 8, 17, 23} \<longrightarrow> bit (mstatus e) i = bit m i))"
proof -
  have "p \<le> PRV_M" "p \<noteq> PRV_RESERVED" using p by auto
  moreover have "bit (mstatus env) i = bit m i" if "i \<notin> {1, 5, 8}" for i
    using assms(2) that by (simp add: entered_s_def)
  moreover have "bit (mstatus env) 5 = bit m 1"
    using assms(2) by (simp add: entered_s_def)
  ultimately show ?thesis
    using assms entered_s_spp [OF assms(2) p]
    by (auto simp: helper_sret_def Let_def riscv_cpu_set_mode_def cpu_get_fcfien_def bit_status_fields get_status_fields(1-4,6-10))
qed

text \<open>Where a trap enters: at the base of the vector register, an interrupt in vectored mode four times its number further.\<close>

definition entry_of :: "u64 \<Rightarrow> u32 \<Rightarrow> u64" where
  "entry_of tvec index = (tvec AND NOT 3) + (if bit index 31 \<and> take_bit 2 tvec = 1 then 4 * ucast (take_bit 31 index) else 0)"

lemma entry_trap_vector:
  "\<not> bit index 31 \<Longrightarrow> trap_vector tvec False c = entry_of tvec index"
  "bit index 31 \<Longrightarrow> trap_vector tvec True (ucast (index AND RISCV_EXCP_INT_MASK)) = entry_of tvec index"
proof -
  have m: "tvec AND 3 = take_bit 2 tvec" "index AND 0x7fffffff = take_bit 31 index"
    by (simp_all add: take_bit_eq_mask mask_eq_exp_minus_1)
  have b: "push_bit 2 (drop_bit 2 tvec) = tvec AND NOT 3"
  proof -
    have "push_bit n (drop_bit n tvec) = tvec AND NOT (mask n)" for n
      by (rule bit_word_eqI) (auto simp: bit_simps)
    from this [of 2] show ?thesis by (simp add: mask_numeral)
  qed
  show "\<not> bit index 31 \<Longrightarrow> trap_vector tvec False c = entry_of tvec index"
    unfolding trap_vector_def entry_of_def b by simp
  show "bit index 31 \<Longrightarrow> trap_vector tvec True (ucast (index AND RISCV_EXCP_INT_MASK)) = entry_of tvec index"
    unfolding trap_vector_def entry_of_def b m by simp
qed

lemma async_flag: "index AND RISCV_EXCP_INT_FLAG \<noteq> 0 \<longleftrightarrow> bit (index :: u32) 31"
  using and_bit_if [of index 31] by simp

text \<open>The trap as a whole: who handles it, where it enters, what is saved, and what stays.\<close>

definition same_irq :: "'d rv_machine \<Rightarrow> 'd rv_machine \<Rightarrow> bool" where
  "same_irq e e' = (mip e' = mip e \<and> mie e' = mie e \<and> mideleg e' = mideleg e \<and> mvip e' = mvip e \<and> mvien e' = mvien e \<and> sie e' = sie e)"

definition trap_taken :: "'d rv_machine \<Rightarrow> 'd rv_machine \<Rightarrow> bool" where
  "trap_taken e e' = (same_config e e' \<and> same_irq e e' \<and>
    (priv e' = PRV_M \<and> mepc e' = pc e \<and> pc e' = entry_of (mtvec e) (exception_index e) \<and> entered_m (mstatus e) (priv e) (mstatus e') \<or>
     priv e' = PRV_S \<and> priv e \<le> PRV_S \<and> sepc e' = pc e \<and> pc e' = entry_of (stvec e) (exception_index e) \<and> entered_s (mstatus e) (priv e) (mstatus e')))"

lemma do_interrupt_returns:
  assumes "\<not> ext_zicfilp (cfg env)" and "priv env \<in> {PRV_U, PRV_S, PRV_M}"
  shows "returns (loongarch_cpu_do_interrupt_rv env) (\<lambda>_. trap_taken env)"
proof -
  let ?v = "\<lambda>a c. \<forall>tvec. trap_vector tvec a c = entry_of tvec (exception_index env)"
  have m: "returns (bind_out (trap_to_m a c t env) (\<lambda>_ env. Ret () (env\<lparr>elp := False\<rparr>))) (\<lambda>_. trap_taken env)" if "?v a c" for a c t
    by (rule returns_seq [OF trap_to_m_returns [OF assms(1)]]) (use that in \<open>simp add: trap_taken_def same_config_def same_irq_def\<close>)
  have s: "returns (bind_out (trap_to_s a c t env) (\<lambda>_ env. Ret () (env\<lparr>elp := False\<rparr>))) (\<lambda>_. trap_taken env)"
    if "priv env \<le> PRV_S" "?v a c" for a c t
    by (rule returns_seq [OF trap_to_s_returns [OF assms(1)]]) (use that in \<open>simp add: trap_taken_def same_config_def same_irq_def\<close>)
  have "priv env \<le> 3" using assms(2) by auto
  then show ?thesis
    by (cases "bit (exception_index env) 31")
      (auto simp: loongarch_cpu_do_interrupt_rv_def Let_def async_flag m s entry_trap_vector split: prod.splits)
qed

section \<open>The choice of an interrupt\<close>

lemma pick_spec:
  "pick x d ip irq pending best bp =
    (if pending = 0 then best else
      pick x d ip (irq + 1) (drop_bit 1 pending)
        (if bit pending 0 \<and> irq_prio x d ip irq \<le> bp then int irq else best) (if bit pending 0 \<and> irq_prio x d ip irq \<le> bp then irq_prio x d ip irq else bp))"
  by (subst pick.simps) (simp add: Let_def bit_0 and_one_eq odd_iff_mod_2_eq_one)

text \<open>The loop keeps a best candidate \<open>best\<close> of priority \<open>bp\<close>; it ends with one that is pending and has the least number.\<close>

definition best_of :: "(nat \<Rightarrow> bool) \<Rightarrow> (nat \<Rightarrow> 'a::linorder) \<Rightarrow> (nat \<Rightarrow> int) \<Rightarrow> int \<Rightarrow> 'a \<Rightarrow> int \<Rightarrow> bool" where
  "best_of Q f num best bp r \<longleftrightarrow>
    r = best \<and> (\<forall>k. Q k \<longrightarrow> bp < f k) \<or> (\<exists>k. r = num k \<and> Q k \<and> f k \<le> bp \<and> (\<forall>j. Q j \<longrightarrow> f k \<le> f j))"

lemma best_of_none: "(\<And>k. \<not> Q k) \<Longrightarrow> best_of Q f num best bp best"
  by (simp add: best_of_def)

lemma all_nat_split: "(\<forall>k. P k) \<longleftrightarrow> P 0 \<and> (\<forall>k. P (Suc k))" for P :: "nat \<Rightarrow> bool"
  by (metis not0_implies_Suc)

lemma best_of_step:
  assumes "better \<longleftrightarrow> Q 0 \<and> f 0 \<le> bp"
    and "best_of (\<lambda>k. Q (Suc k)) (\<lambda>k. f (Suc k)) (\<lambda>k. num (Suc k)) (if better then num 0 else best) (if better then f 0 else bp) r"
  shows "best_of Q f num best bp r"
  using assms(2)[unfolded best_of_def]
proof (elim disjE conjE exE)
  assume r: "r = (if better then num 0 else best)" and less: "\<forall>k. Q (Suc k) \<longrightarrow> (if better then f 0 else bp) < f (Suc k)"
  show ?thesis
  proof (cases better)
    case True
    then have "\<forall>j. Q j \<longrightarrow> f 0 \<le> f j" using less by (subst all_nat_split) (auto intro: less_imp_le)
    then show ?thesis using r True assms(1) by (auto simp: best_of_def)
  next
    case False
    then have "\<forall>k. Q k \<longrightarrow> bp < f k" using less assms(1) by (subst all_nat_split) auto
    then show ?thesis using r False by (simp add: best_of_def)
  qed
next
  fix k
  assume k: "r = num (Suc k)" "Q (Suc k)" and le: "f (Suc k) \<le> (if better then f 0 else bp)" and min: "\<forall>j. Q (Suc j) \<longrightarrow> f (Suc k) \<le> f (Suc j)"
  have "f (Suc k) \<le> bp" using le assms(1) by (auto split: if_splits)
  moreover have "\<forall>j. Q j \<longrightarrow> f (Suc k) \<le> f j"
    using min le assms(1) by (subst all_nat_split) (auto split: if_splits)
  ultimately show ?thesis using k by (auto simp: best_of_def)
qed

lemma pick_best:
  "best_of (bit pending) (\<lambda>k. irq_prio x d ip (irq + k)) (\<lambda>k. int (irq + k)) best bp (pick x d ip irq pending best bp)"
proof (induction x d ip irq pending best bp rule: pick.induct)
  case (1 x d ip irq pending best bp)
  show ?case
  proof (cases "pending = 0")
    case True
    then show ?thesis by (simp add: pick_spec best_of_none)
  next
    case False
    let ?prio = "irq_prio x d ip irq"
    have one: "pending AND 1 \<noteq> 0 \<longleftrightarrow> bit pending 0"
      by (simp add: bit_0 and_one_eq odd_iff_mod_2_eq_one)
    have "best_of (\<lambda>k. bit pending (Suc k)) (\<lambda>k. irq_prio x d ip (irq + Suc k)) (\<lambda>k. int (irq + Suc k))
        (if bit pending 0 \<and> ?prio \<le> bp then int (irq + 0) else best) (if bit pending 0 \<and> ?prio \<le> bp then irq_prio x d ip (irq + 0) else bp)
        (pick x d ip irq pending best bp)"
      using "1.IH" [OF False refl refl] False
      by (subst pick_spec, cases "bit pending 0 \<and> ?prio \<le> bp") (auto simp add: one bit_drop_bit_eq [abs_def] add.commute)
    then show ?thesis
      by (rule best_of_step [where better = "bit pending 0 \<and> ?prio \<le> bp", rotated]) simp_all
  qed
qed

lemma best_of_pending:
  assumes "best_of Q f num best bp r" and "Q k" and "f k \<le> bp"
  obtains j where "r = num j" and "Q j" and "\<And>i. Q i \<Longrightarrow> f j \<le> f i"
  using assms by (auto simp: best_of_def not_less [symmetric])

lemma irq_prio_max: "irq_prio x d ip i \<le> - 1"
  by simp

text \<open>The answer to a set of pending interrupts: one of them; the lowest number without the interrupt architecture extension, one of the
  best priority with it.\<close>

lemma pending_to_irq_spec:
  assumes "pending \<noteq> 0"
  obtains k where "riscv_cpu_pending_to_irq env x d pending ip = int k" and "bit pending k"
    and "\<not> (if x = IRQ_M_EXT then ext_smaia (cfg env) else ext_ssaia (cfg env)) \<Longrightarrow> \<forall>j. bit pending j \<longrightarrow> k \<le> j"
    and "(if x = IRQ_M_EXT then ext_smaia (cfg env) else ext_ssaia (cfg env)) \<Longrightarrow>
      \<forall>j. bit pending j \<longrightarrow> irq_prio x d ip k \<le> irq_prio x d ip j"
proof -
  let ?aia = "if x = IRQ_M_EXT then ext_smaia (cfg env) else ext_ssaia (cfg env)" and ?n = "ctz64 pending"
  note low = ctz64_low [OF assms]
  have lowest: "\<forall>j. bit pending j \<longrightarrow> ?n \<le> j" using low not_le by blast
  show thesis
  proof (cases ?aia)
    case False
    then show thesis
      using assms low lowest by (intro that [of ?n]) (simp_all add: riscv_cpu_pending_to_irq_def Let_def)
  next
    case True
    have "bit (drop_bit ?n pending) 0" using low by (simp add: bit_drop_bit_eq)
    then obtain j where j: "pick x d ip ?n (drop_bit ?n pending) (- 1) (- 1) = int (?n + j)" "bit (drop_bit ?n pending) j"
      "\<And>i. bit (drop_bit ?n pending) i \<Longrightarrow> irq_prio x d ip (?n + j) \<le> irq_prio x d ip (?n + i)"
      using best_of_pending [OF pick_best [of "drop_bit ?n pending" x d ip ?n "- 1" "- 1"], of 0] irq_prio_max by blast
    have "irq_prio x d ip (?n + j) \<le> irq_prio x d ip i" if "bit pending i" for i
      using j(3) [of "i - ?n"] that lowest by (simp add: bit_drop_bit_eq)
    then show thesis
      using assms True j by (intro that [of "?n + j"]) (simp_all add: riscv_cpu_pending_to_irq_def Let_def bit_drop_bit_eq)
  qed
qed

text \<open>When an interrupt may be taken: by machine mode if it is not delegated, by supervisor mode if it is delegated or injected.\<close>

definition m_takes :: "'d rv_machine \<Rightarrow> nat \<Rightarrow> bool" where
  "m_takes env n = (m_enabled env \<and> bit (mip env) n \<and> bit (mie env) n \<and> \<not> bit (mideleg env) n)"

definition s_takes :: "'d rv_machine \<Rightarrow> nat \<Rightarrow> bool" where
  "s_takes env n = (s_enabled env \<and>
    (bit (mip env) n \<and> bit (mie env) n \<and> bit (mideleg env) n \<or> bit (mvip env) n \<and> bit (mvien env) n \<and> \<not> bit (mideleg env) n \<and> bit (sie env) n))"

lemma word_zero_iff_bits: "w = 0 \<longleftrightarrow> (\<forall>n. \<not> bit (w :: u64) n)"
  by (auto simp: bit_eq_iff dest: bit_u64_imp_le)

lemma bit_minus_of_bool: "bit (- of_bool b :: u64) n \<longleftrightarrow> b \<and> n < 64"
  by (cases b) simp_all

lemma local_irq_spec:
  obtains (m) n where "riscv_cpu_local_irq_pending env = int n" "m_takes env n" "\<not> ext_smaia (cfg env) \<Longrightarrow> \<forall>k. m_takes env k \<longrightarrow> n \<le> k"
  | (s) n where "riscv_cpu_local_irq_pending env = int n" "s_takes env n" "\<forall>k. \<not> m_takes env k" "\<not> ext_ssaia (cfg env) \<Longrightarrow> \<forall>k. s_takes env k \<longrightarrow> n \<le> k"
  | (none) "riscv_cpu_local_irq_pending env = - 1" "\<forall>k. \<not> m_takes env k \<and> \<not> s_takes env k"
proof -
  define mirqs where "mirqs = riscv_cpu_all_pending env AND NOT (mideleg env) AND - (if m_enabled env then 1 else 0 :: u64)"
  define sirqs where "sirqs = ((riscv_cpu_all_pending env AND mideleg env) OR (mvip env AND (mvien env AND NOT (mideleg env)) AND sie env))
    AND - (if s_enabled env then 1 else 0 :: u64)"
  have mbit: "bit mirqs n = m_takes env n" for n
    by (auto simp: mirqs_def m_takes_def riscv_cpu_all_pending_def bit_simps dest: bit_u64_imp_le)
  have sbit: "bit sirqs n = s_takes env n" for n
    by (auto simp: sirqs_def s_takes_def riscv_cpu_all_pending_def bit_simps dest: bit_u64_imp_le)
  have unfold: "riscv_cpu_local_irq_pending env =
    (if mirqs \<noteq> 0 then riscv_cpu_pending_to_irq env IRQ_M_EXT IPRIO_DEFAULT_M mirqs (miprio env)
     else if sirqs \<noteq> 0 then riscv_cpu_pending_to_irq env IRQ_S_EXT IPRIO_DEFAULT_S sirqs (siprio env) else - 1)"
    by (simp add: riscv_cpu_local_irq_pending_def mirqs_def sirqs_def Let_def)
  consider "mirqs \<noteq> 0" | "mirqs = 0" "sirqs \<noteq> 0" | "mirqs = 0" "sirqs = 0" by blast
  then show thesis
  proof cases
    case 1
    then show thesis
      by (rule pending_to_irq_spec [of mirqs env IRQ_M_EXT IPRIO_DEFAULT_M "miprio env"]) (use 1 m mbit unfold in auto)
  next
    case 2
    have "\<forall>k. \<not> m_takes env k" using 2 mbit word_zero_iff_bits by auto
    then show thesis
      by (rule_tac pending_to_irq_spec [of sirqs env IRQ_S_EXT IPRIO_DEFAULT_S "siprio env"]) (use 2 s sbit unfold in auto)
  next
    case 3
    then have "\<forall>k. \<not> m_takes env k \<and> \<not> s_takes env k" using mbit sbit word_zero_iff_bits by auto
    then show thesis using 3 none unfold by simp
  qed
qed

section \<open>Delivery\<close>

lemma irq_index:
  assumes "n < 64"
  shows "(0x80000000 OR of_nat n :: u32) AND 0x80000000 \<noteq> 0" and "ucast ((0x80000000 OR of_nat n :: u32) AND 0x7fffffff) = (of_nat n :: u64)"
proof -
  have n: "take_bit 6 n = n" using assms by (simp add: take_bit_nat_eq_self)
  have m: "(0x7fffffff :: u32) = mask 31" "(0x80000000 :: u32) = 2 ^ 31" by (simp_all add: mask_numeral)
  have low: "take_bit 6 (of_nat n :: u32) = of_nat n" by (metis n of_nat_take_bit)
  have top: "bit (0x80000000 :: u32) i \<longleftrightarrow> i = 31" and mask: "bit (0x7fffffff :: u32) i \<longleftrightarrow> i < 31" for i
    by (simp_all only: m bit_exp_iff bit_mask_iff) auto
  have "bit ((0x80000000 OR of_nat n :: u32) AND 0x80000000) 31"
    by (simp only: bit_and_iff bit_or_iff top) simp
  then show "(0x80000000 OR of_nat n :: u32) AND 0x80000000 \<noteq> 0" by (metis bit_0_eq bot_apply bot_bool_def)
  have "(0x80000000 OR of_nat n :: u32) AND 0x7fffffff = of_nat n"
    by (subst (1 2) low [symmetric], rule bit_word_eqI) (auto simp only: bit_and_iff bit_or_iff bit_take_bit_iff top mask)
  then show "ucast ((0x80000000 OR of_nat n :: u32) AND 0x7fffffff) = (of_nat n :: u64)"
    using assms by (simp add: unsigned_of_nat take_bit_nat_eq_self)
qed

lemma takes_less: "m_takes env n \<Longrightarrow> n < 64" "s_takes env n \<Longrightarrow> n < 64"
  by (auto simp: m_takes_def s_takes_def dest: bit_u64_imp_le)

lemma bit_and_one: "drop_bit n w AND 1 \<noteq> 0 \<longleftrightarrow> bit w n" for w :: u64
  by (simp add: bit_iff_odd_drop_bit and_one_eq odd_iff_mod_2_eq_one)

lemma do_interrupt_async:
  assumes "n < 64" and "mvien env = 0"
  shows "loongarch_cpu_do_interrupt_rv (env\<lparr>exception_index := 0x80000000 OR of_nat n\<rparr>) =
    bind_out (if priv env \<le> PRV_S \<and> bit (mideleg env) n then trap_to_s True (of_nat n) 0 (env\<lparr>exception_index := 0x80000000 OR of_nat n\<rparr>)
              else trap_to_m True (of_nat n) 0 (env\<lparr>exception_index := 0x80000000 OR of_nat n\<rparr>))
      (\<lambda>_ env. Ret () (env\<lparr>elp := False\<rparr>))"
proof -
  have "unat (of_nat n :: u64) = n" "(of_nat n :: u64) < 64"
    using assms(1) by (simp_all add: unat_of_nat_small word_less_nat_alt)
  then show ?thesis
    unfolding loongarch_cpu_do_interrupt_rv_def Let_def
    using irq_index [OF assms(1)] assms(2) by (simp add: bit_and_one)
qed

text \<open>Interrupt \<open>n\<close> has been entered by machine mode, or by supervisor mode, from \<open>e\<close>.\<close>

definition entered_by_m :: "nat \<Rightarrow> 'd rv_machine \<Rightarrow> 'd rv_machine \<Rightarrow> bool" where
  "entered_by_m n e e' = (priv e' = PRV_M \<and> mepc e' = pc e \<and> mcause e' = of_nat n OR push_bit 63 1 \<and> mtval e' = 0 \<and> pc e' = trap_vector (mtvec e) True (of_nat n))"

definition entered_by_s :: "nat \<Rightarrow> 'd rv_machine \<Rightarrow> 'd rv_machine \<Rightarrow> bool" where
  "entered_by_s n e e' = (priv e' = PRV_S \<and> sepc e' = pc e \<and> scause e' = of_nat n OR push_bit 63 1 \<and> stval e' = 0 \<and> pc e' = trap_vector (stvec e) True (of_nat n))"

lemma interrupt_entry_m:
  assumes "\<not> ext_zicfilp (cfg env)" and "mvien env = 0" and "misa_mxl env = MXL_RV64" and "m_takes env n"
  shows "returns (loongarch_cpu_do_interrupt_rv (env\<lparr>exception_index := 0x80000000 OR of_nat n\<rparr>)) (\<lambda>_. entered_by_m n env)"
  unfolding do_interrupt_async [OF takes_less(1) [OF assms(4)] assms(2)]
  using trap_to_m_returns [of "env\<lparr>exception_index := 0x80000000 OR of_nat n\<rparr>" True "of_nat n" 0] assms
  by (auto simp: returns_bind entered_by_m_def m_takes_def elim!: returns_mono)

lemma interrupt_entry_s:
  assumes "\<not> ext_zicfilp (cfg env)" and "mvien env = 0" and "s_takes env n" and "misa_mxl env = MXL_RV64" and "get_field (mstatus env) MSTATUS64_SXL = MXL_RV64"
  shows "returns (loongarch_cpu_do_interrupt_rv (env\<lparr>exception_index := 0x80000000 OR of_nat n\<rparr>)) (\<lambda>_. entered_by_s n env)"
proof -
  have "priv env \<le> PRV_S" "bit (mideleg env) n"
    using assms by (auto simp: s_takes_def s_enabled_def)
  then show ?thesis
    unfolding do_interrupt_async [OF takes_less(2) [OF assms(3)] assms(2)]
    using trap_to_s_returns [of "env\<lparr>exception_index := 0x80000000 OR of_nat n\<rparr>" True "of_nat n" 0] assms
    by (auto simp: returns_bind entered_by_s_def riscv_cpu_sxl_def elim!: returns_mono)
qed

section \<open>A machine after reset\<close>

text \<open>A reset machine in user mode with machine software and timer interrupts pending and enabled and one delegated external interrupt, and a
  protection rule.\<close>

definition reset_example :: "unit rv_machine" where
  "reset_example = (cpu_reset_rv (zeroed_rv 0x10000000 [] ()))\<lparr>priv := PRV_U, pc := 0x80000004, mip := 0x288, mie := 0x288, mideleg := 0x200,
    mtvec := 0x80001000, pmp_state := (pmp_state (zeroed_rv 0x10000000 [] () :: unit rv_machine))\<lparr>num_rules := 1\<rparr>\<rparr>"

lemma reset_example_fields:
  "\<not> ext_zicfilp (cfg reset_example)" "\<not> ext_smaia (cfg reset_example)" "\<not> ext_ssaia (cfg reset_example)" "mvien reset_example = 0"
  "misa_mxl reset_example = MXL_RV64" "get_field (mstatus reset_example) MSTATUS64_SXL = MXL_RV64" "priv reset_example = PRV_U"
  "riscv_has_ext reset_example (RV 2)" "riscv_has_ext reset_example (RV 20)" "\<not> bit (mstatus reset_example) 22"
  "pmp_get_num_rules reset_example \<noteq> 0" "pc reset_example = 0x80000004" "mip reset_example = 0x288" "mie reset_example = 0x288"
  "mideleg reset_example = 0x200" "mtvec reset_example = 0x80001000"
  by (simp_all add: reset_example_def cpu_reset_rv_def zeroed_rv_def zeroed_cfg_def pmp_unlock_entries_def pmp_get_num_rules_def riscv_has_ext_def RV_def
      set_field_def get_field_def low_one_def)

section \<open>The properties\<close>

text \<open>(C27) Interrupt delivery, for a 64-bit core without the interrupt architecture extension, landing pads and injected interrupts (\<open>mvien\<close> is 0): if
  machine mode may take an interrupt, the lowest-numbered one of those is entered there; otherwise, if
  supervisor mode may take one, the lowest-numbered is entered there; otherwise nothing happens. Entry saves the program counter
  and the cause and goes to the vector. (The table in the source, like the architecture, orders interrupts by priority, 11, 3, 7,
  9, 1, 5; without the interrupt architecture extension the code takes the lowest number.)\<close>

theorem interrupt_delivery:
  assumes "\<not> ext_zicfilp (cfg env)" and "\<not> ext_smaia (cfg env)" and "\<not> ext_ssaia (cfg env)" and "mvien env = 0" and "misa_mxl env = MXL_RV64"
    and "get_field (mstatus env) MSTATUS64_SXL = MXL_RV64"
  shows "(\<exists>n. m_takes env n \<and> (\<forall>k. m_takes env k \<longrightarrow> n \<le> k) \<and> returns (riscv_cpu_exec_interrupt env) (\<lambda>taken e. taken \<and> entered_by_m n env e))
    \<or> (\<forall>k. \<not> m_takes env k) \<and>
      (\<exists>n. s_takes env n \<and> (\<forall>k. s_takes env k \<longrightarrow> n \<le> k) \<and> returns (riscv_cpu_exec_interrupt env) (\<lambda>taken e. taken \<and> entered_by_s n env e))
    \<or> (\<forall>k. \<not> m_takes env k \<and> \<not> s_takes env k) \<and> riscv_cpu_exec_interrupt env = Ret False env"
proof (cases rule: local_irq_spec [of env])
  case (m n)
  then have "returns (riscv_cpu_exec_interrupt env) (\<lambda>taken e. taken \<and> entered_by_m n env e)"
    using interrupt_entry_m [OF assms(1,4,5) m(2)] by (simp add: riscv_cpu_exec_interrupt_def returns_bind)
  then show ?thesis using m assms(2) by blast
next
  case (s n)
  then have "returns (riscv_cpu_exec_interrupt env) (\<lambda>taken e. taken \<and> entered_by_s n env e)"
    using interrupt_entry_s [OF assms(1,4) s(2) assms(5,6)] by (simp add: riscv_cpu_exec_interrupt_def returns_bind)
  then show ?thesis using s assms(3) by blast
next
  case none
  then show ?thesis by (simp add: riscv_cpu_exec_interrupt_def)
qed

theorem interrupt_delivery_witness:
  "returns (riscv_cpu_exec_interrupt reset_example) (\<lambda>taken e. taken \<and> entered_by_m 3 reset_example e)"
proof -
  have irqs: "bit (0x288 :: u64) n \<longleftrightarrow> n \<in> {3, 7, 9}" for n
  proof -
    have "(0x288 :: u64) = 2 ^ 3 OR (2 ^ 7 OR 2 ^ 9)" by simp
    then show ?thesis by (simp only: bit_or_iff bit_exp_iff possible_bit_word) auto
  qed
  have deleg: "bit (0x200 :: u64) n \<longleftrightarrow> n = 9" for n
  proof -
    have "(0x200 :: u64) = 2 ^ 9" by simp
    then show ?thesis by (simp only: bit_exp_iff possible_bit_word) auto
  qed
  have takes: "m_takes reset_example n \<longleftrightarrow> n = 3 \<or> n = 7" for n
    unfolding m_takes_def m_enabled_def reset_example_fields irqs deleg by auto
  obtain n where n: "n = 3 \<or> n = 7" "n \<le> 3"
    "returns (riscv_cpu_exec_interrupt reset_example) (\<lambda>taken e. taken \<and> entered_by_m n reset_example e)"
    using interrupt_delivery [OF reset_example_fields(1-6)] unfolding takes by blast
  then have "n = 3" by auto
  with n(3) show ?thesis by simp
qed

text \<open>(C28) A trap (without landing pads) always comes to its handler. It never lowers the privilege, it is handled by machine or supervisor mode, and it
  enters at the vector of that mode: the base address, for an interrupt in vectored mode four times its number further. The interrupted program counter
  is saved, and the interrupts are masked: no interrupt of the level of the handler or below is taken, so a handler is not entered again
  before it allows it.\<close>

theorem trap_masks:
  assumes "\<not> ext_zicfilp (cfg env)" and "priv env \<in> {PRV_U, PRV_S, PRV_M}"
  shows "returns (loongarch_cpu_do_interrupt_rv env) (\<lambda>_ e.
    priv env \<le> priv e \<and> (\<forall>n. \<not> s_takes e n)
    \<and> (priv e = PRV_S \<and> pc e = entry_of (stvec env) (exception_index env) \<and> sepc e = pc env
       \<or> priv e = PRV_M \<and> pc e = entry_of (mtvec env) (exception_index env) \<and> mepc e = pc env
         \<and> (\<forall>n. \<not> m_takes e n) \<and> riscv_cpu_local_irq_pending e = - 1))"
proof (rule returns_mono [OF do_interrupt_returns [OF assms]])
  fix v :: unit and e
  assume t: "trap_taken env e"
  have s: "\<not> s_takes e n" for n
    using t by (auto simp: trap_taken_def s_takes_def s_enabled_def get_status_fields entered_s_def)
  have m: "\<not> m_takes e n" if "priv e = PRV_M" for n
    using t that by (auto simp: trap_taken_def m_takes_def m_enabled_def get_status_fields entered_m_def)
  have "riscv_cpu_local_irq_pending e = - 1" if "priv e = PRV_M"
    by (cases rule: local_irq_spec [of e]) (use s m [OF that] in auto)
  then show "priv env \<le> priv e \<and> (\<forall>n. \<not> s_takes e n)
    \<and> (priv e = PRV_S \<and> pc e = entry_of (stvec env) (exception_index env) \<and> sepc e = pc env
       \<or> priv e = PRV_M \<and> pc e = entry_of (mtvec env) (exception_index env) \<and> mepc e = pc env
         \<and> (\<forall>n. \<not> m_takes e n) \<and> riscv_cpu_local_irq_pending e = - 1)"
    using t s m assms(2) by (auto simp: trap_taken_def)
qed

text \<open>Interrupt 7 of the example is not delegated and the vector of machine mode is vectored; the vector of supervisor mode is another.\<close>

theorem trap_masks_witness:
  "returns (loongarch_cpu_do_interrupt_rv (reset_example\<lparr>mtvec := 0x80001001, stvec := 0x80002001, exception_index := 0x80000007\<rparr>))
    (\<lambda>_ e. (\<forall>n. \<not> s_takes e n) \<and> (priv e = PRV_M \<and> pc e = 0x8000101c \<and> mepc e = 0x80000004
      \<or> priv e = PRV_S \<and> pc e = 0x8000201c \<and> sepc e = 0x80000004))"
proof -
  let ?e = "reset_example\<lparr>mtvec := 0x80001001, stvec := 0x80002001, exception_index := 0x80000007\<rparr>"
  have v: "entry_of 0x80001001 0x80000007 = 0x8000101c" "entry_of 0x80002001 0x80000007 = 0x8000201c"
    by (simp_all add: entry_of_def take_bit_eq_mask mask_eq_exp_minus_1)
  have "\<not> ext_zicfilp (cfg ?e)" "priv ?e \<in> {PRV_U, PRV_S, PRV_M}" "pc ?e = 0x80000004"
    using reset_example_fields(1,7,12) by simp_all
  note t = trap_masks [OF this(1,2)] this(3)
  show ?thesis by (rule returns_mono [OF t(1)]) (use t(2) v in auto)
qed

text \<open>The state \<open>h\<close> in which the handler returns: it has kept what the entry saved.\<close>

definition handler_done :: "'d rv_machine \<Rightarrow> 'd rv_machine \<Rightarrow> bool" where
  "handler_done e h = (priv h = priv e \<and> mstatus h = mstatus e \<and> mepc h = mepc e \<and> sepc h = sepc e \<and> same_config e h)"

text \<open>(C29) Trap and return are inverse: whatever a trap does, when its handler has kept the saved registers, the return instruction of
  the mode that handled it goes back to the interrupted instruction in the interrupted mode, with the interrupt enable of the
  handler's level and all other fields of the status register restored (the saved copies and the modify-privilege bit excepted).
  Machine mode can return to a lower mode only when a protection rule exists.\<close>

theorem trap_return:
  assumes "\<not> ext_zicfilp (cfg env)" and "priv env \<in> {PRV_U, PRV_S, PRV_M}" and "riscv_has_ext env (RV 2)" and "riscv_has_ext env (RV 20)"
    and "\<not> bit (mstatus env) 22" and "priv env = PRV_M \<or> pmp_get_num_rules env \<noteq> 0"
  shows "returns (loongarch_cpu_do_interrupt_rv env) (\<lambda>_ e. \<forall>h. handler_done e h \<longrightarrow>
    returns (if priv h = PRV_M then helper_mret h else helper_sret h) (\<lambda>v r.
      v = pc env \<and> priv r = priv env \<and> (\<forall>i. i \<notin> {5, 7, 8, 11, 12, 17, 23, 39, 41} \<longrightarrow> bit (mstatus r) i = bit (mstatus env) i)))"
proof (rule returns_mono [OF do_interrupt_returns [OF assms(1,2)]], intro allI impI)
  fix v :: unit and e h
  assume t: "trap_taken env e" and h: "handler_done e h"
  then have c: "same_config env h" by (auto simp: trap_taken_def handler_done_def same_config_def)
  show "returns (if priv h = PRV_M then helper_mret h else helper_sret h) (\<lambda>v r.
      v = pc env \<and> priv r = priv env \<and> (\<forall>i. i \<notin> {5, 7, 8, 11, 12, 17, 23, 39, 41} \<longrightarrow> bit (mstatus r) i = bit (mstatus env) i))"
  proof (cases "priv h = PRV_M")
    case True
    then have "entered_m (mstatus env) (priv env) (mstatus h)" "mepc h = pc env"
      using t h by (auto simp: trap_taken_def handler_done_def)
    then show ?thesis
      using mret_returns [of h "mstatus env" "priv env"] assms True c
      by (auto simp: same_config_def riscv_has_ext_def pmp_get_num_rules_def elim!: returns_mono)
  next
    case False
    then have s: "entered_s (mstatus env) (priv env) (mstatus h)" "sepc h = pc env" "priv h = PRV_S" "priv env \<le> PRV_S"
      using t h by (auto simp: trap_taken_def handler_done_def)
    then have "priv env \<in> {PRV_U, PRV_S}" using assms(2) by (auto simp: word_le_nat_alt)
    then show ?thesis
      using sret_returns [of h "mstatus env" "priv env"] assms s c
      by (auto simp: same_config_def riscv_has_ext_def elim!: returns_mono)
  qed
qed

theorem trap_return_witness:
  "returns (loongarch_cpu_do_interrupt_rv reset_example) (\<lambda>_ e.
    returns (if priv e = PRV_M then helper_mret e else helper_sret e) (\<lambda>v r. v = 0x80000004 \<and> priv r = PRV_U))"
proof -
  have "handler_done e e" for e :: "unit rv_machine" by (simp add: handler_done_def same_config_def)
  note refl_done = this
  have "priv reset_example \<in> {PRV_U, PRV_S, PRV_M}" "priv reset_example = PRV_M \<or> pmp_get_num_rules reset_example \<noteq> 0"
    using reset_example_fields(7,11) by simp_all
  note ret = trap_return [OF reset_example_fields(1) this(1) reset_example_fields(8-10) this(2), unfolded reset_example_fields(7,12)]
  show ?thesis
    by (rule returns_mono [OF ret], erule allE, drule mp, rule refl_done, erule returns_mono) simp
qed

section \<open>The timer\<close>

definition irq_bit :: "nat \<Rightarrow> bool \<Rightarrow> u64 \<Rightarrow> u64" where
  "irq_bit n b m = (m AND NOT (push_bit n 1)) OR (- of_bool b AND push_bit n 1)"

lemma bit_irq_bit: "n < 64 \<Longrightarrow> bit (irq_bit n b m) i = (if i = n then b else bit m i)"
  by (cases b) (auto simp: irq_bit_def bit_simps dest: bit_u64_imp_le)

lemma set_timer_irq:
  "loongarch_cpu_set_irq_rv IRQ_M_TIMER level env = Ret () (env\<lparr>irq_count := irq_count env + 1, mip := irq_bit IRQ_M_TIMER level (mip env)\<rparr>)"
  by (simp add: loongarch_cpu_set_irq_rv_def riscv_cpu_update_mip_def irq_bit_def Let_def)

lemma set_ext_irq:
  "loongarch_cpu_set_irq_rv IRQ_S_EXT level env =
    Ret () (env\<lparr>irq_count := irq_count env + 1, external_seip := level, mip := irq_bit IRQ_S_EXT (level \<or> software_seip env) (mip env)\<rparr>)"
  by (simp add: loongarch_cpu_set_irq_rv_def riscv_cpu_update_mip_def irq_bit_def Let_def)

text \<open>The timer line in determined mode: after a write of the compare register and the next poll the timer interrupt is pending exactly
  if the time has reached the written value; the compare register has it, and no other interrupt is touched.\<close>

theorem timer_line:
  assumes "determined env"
  shows "returns (bind_out (clint_ioport_write 0x4000 val sz env) (\<lambda>_. loongarch_cpu_check_irq_rv)) (\<lambda>_ e.
    clint_mtimecmp e = val \<and> (bit (mip e) IRQ_M_TIMER \<longleftrightarrow> val \<le> icount env div 10) \<and>
    (\<forall>i. i \<noteq> IRQ_M_TIMER \<longrightarrow> bit (mip e) i = bit (mip env) i))"
  using assms
  by (auto simp: clint_ioport_write_def loongarch_cpu_check_irq_rv_def la_get_tval_rv_def set_timer_irq Let_def bit_irq_bit not_less)

theorem timer_line_witness:
  "returns (bind_out (clint_ioport_write 0x4000 7 8 (reset_example\<lparr>icount := 75, determined := True\<rparr>)) (\<lambda>_. loongarch_cpu_check_irq_rv))
    (\<lambda>_ e. bit (mip e) IRQ_M_TIMER)"
  using timer_line [of "reset_example\<lparr>icount := 75, determined := True\<rparr>" 7 8] by (auto elim!: returns_mono)

end
