(* ===== verification/Dev_Plic.thy ===== *)
theory Dev_Plic
  imports RV_Trap
begin

text \<open>
  The interrupt controller of the RISC-V target (\<open>device/riscv_plic.c\<close>), at 0xc000000, with the serial port on source 1 and the disk on source 2
  (\<open>main.c\<close>).

  \<^item> The state is a \<open>PlicState\<close> and the interrupt part of the CPU, which \<open>qemu_set_irq\<close> reaches through the line of the supervisor external
    interrupt. The line for machine mode is never driven: the code that would is commented out.
  \<^item> \<open>atomic_set_masked\<close> retries until no other thread interferes; the emulator has one CPU thread, and the first try succeeds.
  \<^item> \<open>riscv_plic_init\<close> allocates with \<open>malloc\<close> and sets no register: the state that it starts from is its argument.

  The lemmas show that the line is raised exactly while an enabled source is pending, and that claims hand out the enabled pending sources
  once each, in ascending order.
\<close>

definition PLIC_SOURCE_NUM :: nat where "PLIC_SOURCE_NUM = 32"
definition PLIC_CONTEXT_NUM :: nat where "PLIC_CONTEXT_NUM = 32"

record PlicState =
  source_priority :: "nat \<Rightarrow> u32"
  pending :: "nat \<Rightarrow> u32"
  enable :: "nat \<Rightarrow> nat \<Rightarrow> u32"
  claimed :: "nat \<Rightarrow> u32"
  threshold :: "nat \<Rightarrow> u32"

type_synonym plic_world = "PlicState \<times> rv_irq"

definition atomic_set_masked :: "u32 \<Rightarrow> u32 \<Rightarrow> u32 \<Rightarrow> u32" where
  "atomic_set_masked a m val = (a AND NOT m) OR (val AND m)"

definition riscv_plic_set_pending :: "nat \<Rightarrow> bool \<Rightarrow> PlicState \<Rightarrow> PlicState" where
  "riscv_plic_set_pending irq level plic =
    plic\<lparr>pending := (pending plic)(irq div 32 := atomic_set_masked (pending plic (irq div 32)) (push_bit (irq mod 32) 1) (- of_bool level))\<rparr>"

definition riscv_plic_set_claimed :: "nat \<Rightarrow> bool \<Rightarrow> PlicState \<Rightarrow> PlicState" where
  "riscv_plic_set_claimed irq level plic =
    plic\<lparr>claimed := (claimed plic)(irq div 32 := atomic_set_masked (claimed plic (irq div 32)) (push_bit (irq mod 32) 1) (- of_bool level))\<rparr>"

definition riscv_plic_update :: "plic_world \<Rightarrow> (unit, plic_world) outcome" where
  "riscv_plic_update w = (case w of (plic, cpu) \<Rightarrow>
    (case loongarch_cpu_set_irq_rv IRQ_S_EXT (enable plic 1 0 AND pending plic 0 \<noteq> 0) cpu of
       Ret v cpu \<Rightarrow> Ret () (plic, cpu) | Exn cpu \<Rightarrow> Exn (plic, cpu) | Exit cpu \<Rightarrow> Exit (plic, cpu) | Crash \<Rightarrow> Crash))"

definition riscv_plic_irq_request :: "nat \<Rightarrow> bool \<Rightarrow> plic_world \<Rightarrow> (unit, plic_world) outcome" where
  "riscv_plic_irq_request irq level w =
    (if level then riscv_plic_update (riscv_plic_set_pending irq True (fst w), snd w) else Ret () w)"

text \<open>The loop of a claim: the first source that is enabled and pending.\<close>

fun claim_loop :: "nat list \<Rightarrow> nat \<Rightarrow> PlicState \<Rightarrow> u64 \<times> PlicState" where
  "claim_loop [] context s = (0, s)"
| "claim_loop (i # is) context s =
    (if push_bit i 1 AND enable s context 0 AND pending s 0 \<noteq> 0
     then (of_nat i, riscv_plic_set_claimed i True (riscv_plic_set_pending i False s))
     else claim_loop is context s)"

definition riscv_plic_ioport_read :: "u64 \<Rightarrow> u32 \<Rightarrow> plic_world \<Rightarrow> (u64, plic_world) outcome" where
  "riscv_plic_ioport_read a sz w =
    (let s = fst w in
     if \<not> (sz = 4 \<and> a mod 4 = 0) then Crash
     else if unat a < PLIC_SOURCE_NUM * 4 then Ret (ucast (source_priority s (unat a div 4))) w
     else if 0x1000 \<le> a \<and> unat a < 0x1000 + PLIC_SOURCE_NUM div 8 then Ret (ucast (pending s (unat (a - 0x1000) div 32))) w
     else if 0x2000 \<le> a \<and> a < 0x1F1FFC then
       let disp = unat (a - 0x2000); context = disp div 0x80
       in if context < PLIC_CONTEXT_NUM then Ret (ucast (enable s context ((disp mod 0x80) div 32))) w else Crash
     else if 0x200000 \<le> a \<and> a < 0x400000 then
       let disp = unat (a - 0x200000); context = disp div 0x1000; context_addr = disp mod 0x1000
       in if \<not> context < PLIC_CONTEXT_NUM then Crash
          else if context_addr = 0 then bind_out (riscv_plic_update w) (\<lambda>_. Ret (ucast (threshold s context)))
          else if context_addr = 4 then
            let (r, s) = claim_loop [0..<PLIC_SOURCE_NUM] context s
            in bind_out (riscv_plic_update (s, snd w)) (\<lambda>_. Ret r)
          else Crash
     else bind_out (riscv_plic_update w) (\<lambda>_. Ret 0))"

definition riscv_plic_ioport_write :: "u64 \<Rightarrow> u64 \<Rightarrow> u32 \<Rightarrow> plic_world \<Rightarrow> (unit, plic_world) outcome" where
  "riscv_plic_ioport_write a val sz w =
    (let s = fst w in
     if \<not> (sz = 4 \<and> a mod 4 = 0) then Crash
     else if unat a < PLIC_SOURCE_NUM * 4 then
       riscv_plic_update (s\<lparr>source_priority := (source_priority s)(unat a div 4 := ucast val)\<rparr>, snd w)
     else if 0x2000 \<le> a \<and> a < 0x1F1FFC then
       let disp = unat (a - 0x2000); context = disp div 0x80; i = (disp mod 0x80) div 32
       in if context < PLIC_CONTEXT_NUM
          then riscv_plic_update (s\<lparr>enable := (enable s)(context := (enable s context)(i := ucast val))\<rparr>, snd w) else Crash
     else if 0x200000 \<le> a \<and> a < 0x400000 then
       let disp = unat (a - 0x200000); context = disp div 0x1000; context_addr = disp mod 0x1000
       in if \<not> context < PLIC_CONTEXT_NUM then Crash
          else if context_addr = 0 then riscv_plic_update (s\<lparr>threshold := (threshold s)(context := ucast val)\<rparr>, snd w)
          else if context_addr = 4 then
            if unat val < PLIC_SOURCE_NUM then riscv_plic_update (riscv_plic_set_claimed (unat val) False s, snd w) else Crash
          else Crash
     else riscv_plic_update w)"

definition riscv_plic_check_io :: "plic_world \<Rightarrow> (unit, plic_world) outcome" where
  "riscv_plic_check_io w = riscv_plic_update w"

definition riscv_plic_init :: "PlicState \<Rightarrow> PlicState" where
  "riscv_plic_init s = s"

section \<open>The line\<close>

text \<open>The line of the supervisor external interrupt shows whether a source enabled for context 1 is pending.\<close>

definition plic_line :: "plic_world \<Rightarrow> bool" where
  "plic_line w = (case w of (plic, cpu) \<Rightarrow>
    (external_seip cpu \<longleftrightarrow> enable plic 1 0 AND pending plic 0 \<noteq> 0) \<and> (bit (mip cpu) IRQ_S_EXT \<longleftrightarrow> external_seip cpu \<or> software_seip cpu))"

lemma plic_update_returns:
  "returns (riscv_plic_update w) (\<lambda>_ w'. fst w' = fst w \<and> plic_line w' \<and> (\<forall>i. i \<noteq> IRQ_S_EXT \<longrightarrow> bit (mip (snd w')) i = bit (mip (snd w)) i))"
  by (cases w) (auto simp: riscv_plic_update_def set_ext_irq plic_line_def bit_irq_bit)

datatype plic_op = Plic_read u64 | Plic_write u64 u64 | Plic_request nat bool | Plic_check

fun plic_step :: "plic_op \<Rightarrow> plic_world \<Rightarrow> (unit, plic_world) outcome" where
  "plic_step (Plic_read a) w = bind_out (riscv_plic_ioport_read a 4 w) (\<lambda>_. Ret ())"
| "plic_step (Plic_write a val) w = riscv_plic_ioport_write a val 4 w"
| "plic_step (Plic_request irq level) w = riscv_plic_irq_request irq level w"
| "plic_step Plic_check w = riscv_plic_check_io w"

fun plic_run :: "plic_op list \<Rightarrow> plic_world \<Rightarrow> (unit, plic_world) outcome" where
  "plic_run [] w = Ret () w"
| "plic_run (x # xs) w = bind_out (plic_step x w) (\<lambda>_. plic_run xs)"

lemma returns_out_inv: "returns m (\<lambda>_. I) \<Longrightarrow> out_inv I m"
  by (cases m) simp_all

lemma update_line: "out_inv plic_line (riscv_plic_update w)"
  by (rule returns_out_inv, rule returns_mono [OF plic_update_returns]) simp

lemma plic_step_line: "plic_line w \<Longrightarrow> out_inv plic_line (plic_step x w)"
  by (cases x)
    (auto simp: riscv_plic_ioport_read_def riscv_plic_ioport_write_def riscv_plic_irq_request_def riscv_plic_check_io_def Let_def split_beta
      intro!: out_inv_bindI update_line)

section \<open>Claims\<close>

definition ready :: "nat \<Rightarrow> PlicState \<Rightarrow> nat list" where
  "ready context s = filter (\<lambda>i. bit (enable s context 0 AND pending s 0) i) [0..<PLIC_SOURCE_NUM]"

lemma and_push_bit: "push_bit i 1 AND w \<noteq> 0 \<longleftrightarrow> bit w i" for w :: u32
proof
  assume "push_bit i 1 AND w \<noteq> 0"
  then obtain k where "bit (push_bit i 1 AND w) k" by (auto simp: bit_eq_iff)
  then show "bit w i" by (auto simp: bit_simps)
next
  assume "bit w i"
  then have "bit (push_bit i 1 AND w) i" by (auto simp: bit_simps dest: bit_imp_le_length)
  then show "push_bit i 1 AND w \<noteq> 0" by (metis bit_0_eq bot_apply bot_bool_def)
qed

lemma claim_test: "2 ^ i AND e AND p = 0 \<longleftrightarrow> \<not> bit (e AND p) i" for e p :: u32
  using and_push_bit [of i "e AND p"] by auto

lemma claim_loop_filter:
  "claim_loop is context s = (case filter (\<lambda>i. bit (enable s context 0 AND pending s 0) i) is of
     [] \<Rightarrow> (0, s) | i # _ \<Rightarrow> (of_nat i, riscv_plic_set_claimed i True (riscv_plic_set_pending i False s)))"
  by (induction "is") (simp_all add: claim_test)

lemma set_pending_bits:
  "i < PLIC_SOURCE_NUM \<Longrightarrow> bit (pending (riscv_plic_set_pending i b s) 0) k = (if k = i then b else bit (pending s 0) k)"
  by (cases b) (auto simp: riscv_plic_set_pending_def atomic_set_masked_def bit_simps PLIC_SOURCE_NUM_def dest: bit_imp_le_length)

lemma set_fields [simp]:
  "enable (riscv_plic_set_pending i b s) = enable s" "enable (riscv_plic_set_claimed i b s) = enable s"
  "pending (riscv_plic_set_claimed i b s) = pending s"
  by (simp_all add: riscv_plic_set_pending_def riscv_plic_set_claimed_def)

lemma filter_drop_first:
  assumes "filter P xs = i # is" and "distinct xs"
  shows "filter (\<lambda>x. P x \<and> x \<noteq> i) xs = is"
proof -
  have "distinct (i # is)" using assms by (metis distinct_filter)
  then have "filter (\<lambda>x. x \<noteq> i) (filter P xs) = is" using assms(1) by (auto simp: filter_id_conv)
  then show ?thesis by (simp add: conj_commute)
qed

lemma ready_after_claim:
  assumes "ready context s = i # is"
  shows "ready context (riscv_plic_set_claimed i True (riscv_plic_set_pending i False s)) = is"
proof -
  have i: "i < PLIC_SOURCE_NUM"
    using arg_cong [OF assms, of set] by (auto simp: ready_def)
  show ?thesis
    using filter_drop_first [OF assms [unfolded ready_def]] by (simp add: ready_def bit_and_iff set_pending_bits [OF i] conj_ac cong: conj_cong)
qed

text \<open>A claim by context 1, and a sequence of them: the register at 0x201004.\<close>

fun plic_claims :: "nat \<Rightarrow> plic_world \<Rightarrow> (u64 list, plic_world) outcome" where
  "plic_claims 0 w = Ret [] w"
| "plic_claims (Suc n) w =
    bind_out (riscv_plic_ioport_read 0x201004 4 w) (\<lambda>r w. bind_out (plic_claims n w) (\<lambda>rs. Ret (r # rs)))"

lemma plic_claim:
  "returns (riscv_plic_ioport_read 0x201004 4 w) (\<lambda>r w'. plic_line w' \<and>
    (case ready 1 (fst w) of [] \<Rightarrow> r = 0 \<and> ready 1 (fst w') = [] | i # is \<Rightarrow> r = of_nat i \<and> ready 1 (fst w') = is))"
proof -
  obtain r s where c: "claim_loop [0..<PLIC_SOURCE_NUM] 1 (fst w) = (r, s)" by fastforce
  have read: "riscv_plic_ioport_read 0x201004 4 w = bind_out (riscv_plic_update (s, snd w)) (\<lambda>_. Ret r)"
    using c by (simp add: riscv_plic_ioport_read_def Let_def PLIC_CONTEXT_NUM_def PLIC_SOURCE_NUM_def)
  have "case ready 1 (fst w) of [] \<Rightarrow> r = 0 \<and> ready 1 s = [] | i # is \<Rightarrow> r = of_nat i \<and> ready 1 s = is"
    using c claim_loop_filter [of "[0..<PLIC_SOURCE_NUM]" 1 "fst w"] ready_after_claim [of 1 "fst w"]
    by (auto simp: ready_def [symmetric] split: list.splits)
  then show ?thesis
    unfolding read returns_bind using plic_update_returns [of "(s, snd w)"]
    by (auto elim!: returns_mono)
qed

lemma plic_claims_ready:
  assumes "ready 1 (fst w) = is" and "plic_line w"
  shows "returns (plic_claims (length is) w) (\<lambda>rs w'. rs = map of_nat is \<and> ready 1 (fst w') = [] \<and> plic_line w')"
  using assms
proof (induction "is" arbitrary: w)
  case (Cons i "is")
  have "returns (riscv_plic_ioport_read 0x201004 4 w) (\<lambda>r w'. plic_line w' \<and> r = of_nat i \<and> ready 1 (fst w') = is)"
    using plic_claim [of w] Cons.prems by simp
  then show ?case
    by simp (rule returns_seq, assumption, use Cons.IH in \<open>auto simp: returns_bind elim!: returns_mono\<close>)
qed simp

lemma ready_none: "ready (Suc 0) s = [] \<longleftrightarrow> enable s (Suc 0) 0 AND pending s 0 = 0"
  by (auto simp: ready_def filter_empty_conv PLIC_SOURCE_NUM_def bit_eq_iff dest: bit_imp_le_length)

lemma plic_run_line: "plic_line w \<Longrightarrow> out_inv plic_line (plic_run xs w)"
  by (induction xs arbitrary: w) (auto intro!: out_inv_bindI plic_step_line)

text \<open>(C30) The interrupt controller: under any sequence of register accesses and requests of the devices the line of the supervisor external
  interrupt is raised exactly while a source enabled for the supervisor is pending. Claims then hand out the enabled pending
  sources once each, in ascending order; after them the line is low, and a further claim reads 0. (Priorities and thresholds can be
  written and read; the code does not look at them.)\<close>

theorem plic_claims_drain:
  assumes "plic_line w0" and "plic_run xs w0 = Ret () w"
  shows "external_seip (snd w) = (ready 1 (fst w) \<noteq> []) \<and>
    returns (bind_out (plic_claims (length (ready 1 (fst w))) w) (\<lambda>rs w. bind_out (riscv_plic_ioport_read 0x201004 4 w) (\<lambda>r. Ret (rs, r)))) (\<lambda>(rs, r) w'.
      rs = map of_nat (ready 1 (fst w)) \<and> r = 0 \<and> \<not> external_seip (snd w'))"
proof -
  have line: "plic_line w" using plic_run_line [OF assms(1), of xs] assms(2) by simp
  have seip: "external_seip (snd w) = (ready 1 (fst w) \<noteq> [])" if "plic_line w" for w
    using that by (cases w) (simp add: plic_line_def ready_none)
  have low: "returns (riscv_plic_ioport_read 0x201004 4 w) (\<lambda>r w'. r = 0 \<and> ready 1 (fst w') = [] \<and> plic_line w')" if "ready 1 (fst w) = []" for w
    using plic_claim [of w] that by (simp add: conj_ac)
  have "returns (bind_out (plic_claims (length (ready 1 (fst w))) w) (\<lambda>rs w. bind_out (riscv_plic_ioport_read 0x201004 4 w) (\<lambda>r. Ret (rs, r)))) (\<lambda>(rs, r) w'.
      rs = map of_nat (ready 1 (fst w)) \<and> r = 0 \<and> \<not> external_seip (snd w'))"
    by (rule returns_seq [OF plic_claims_ready [OF refl line]], rule returns_seq [OF low]) (simp_all add: seip)
  then show ?thesis using seip [OF line] by simp
qed

definition plic_example :: plic_world where
  "plic_example =
    (\<lparr>source_priority = \<lambda>_. 0, pending = \<lambda>_. 0, enable = \<lambda>_ _. 0, claimed = \<lambda>_. 0, threshold = \<lambda>_. 0\<rparr>,
     \<lparr>mip = 0, external_seip = False, software_seip = False, irq_count = 0, clint_mtimecmp = 0, host_timer = 0, icount = 0, determined = True,
      clock_seq = \<lambda>_. 0, clock_pos = 0\<rparr>)"

definition plic_example_ops :: "plic_op list" where
  "plic_example_ops = [Plic_write 0x2080 0xffffffff, Plic_request 2 True, Plic_request 1 True, Plic_request 1 False]"

theorem plic_claims_drain_witness:
  "returns (plic_run plic_example_ops plic_example) (\<lambda>_ w. external_seip (snd w) \<and>
    returns (bind_out (plic_claims 2 w) (\<lambda>rs w. bind_out (riscv_plic_ioport_read 0x201004 4 w) (\<lambda>r. Ret (rs, r)))) (\<lambda>(rs, r) w'.
      rs = [1, 2] \<and> r = 0 \<and> \<not> external_seip (snd w')))"
proof -
  have line: "plic_line plic_example" by (simp add: plic_line_def plic_example_def)
  have "returns (plic_run plic_example_ops plic_example) (\<lambda>_ w. ready 1 (fst w) = [1, 2])"
    by code_simp
  then obtain w where w: "plic_run plic_example_ops plic_example = Ret () w" "ready 1 (fst w) = [1, 2]"
    by (auto simp: returns_iff)
  show ?thesis
    using plic_claims_drain [OF line w(1)] w by (simp add: numeral_2_eq_2)
qed

text \<open>The enable registers of one context all reach the same word: the write for sources 32 to 63, at offset 4, replaces the enables of sources
  0 to 31.\<close>

lemma enable_words_alias: "riscv_plic_ioport_write 0x2084 val 4 w = riscv_plic_ioport_write 0x2080 val 4 w"
  by (simp add: riscv_plic_ioport_write_def Let_def PLIC_SOURCE_NUM_def PLIC_CONTEXT_NUM_def)

end
