(* ===== verification/Dev_Blk.thy ===== *)
theory Dev_Blk
  imports Dev_Plic Bytes
begin

text \<open>
  The block device (\<open>device/simple_virtio_blk.c\<close>, \<open>simple_virtio_blk.h\<close>): a virtio device on one queue in the RAM of the guest, over a file of the host.

  \<^item> The state of the device, \<open>VirtioBlkState\<close>, and what it works on: the RAM, of which \<open>mapped\<close> says which addresses \<open>alloc_ram\<close> has mapped, the file,
    and the other end of its interrupt line, a state of type \<open>'c\<close> with the handler of the line as an argument. The name of the file is only logged.
  \<^item> The structures of the queue and of a request, and the offsets of the registers, are those of the virtio standard (\<open>linux/virtio_ring.h\<close>, \<open>virtio_blk.h\<close>,
    \<open>virtio_mmio.h\<close>), packed and little-endian.
  \<^item> The file is its bytes and the position of the stream. \<open>fseek\<close> refuses an offset that is negative as a \<open>long\<close> and leaves the position; \<open>fread\<close> and
    \<open>fwrite\<close> of one item of size 0 return 0; a write after the end fills the gap with zeros. The host has room for the file and its disk does
    not fail. A buffer outside the mapped memory is a \<open>Crash\<close>; the host may also refuse such a transfer with an error (\<open>EFAULT\<close>), and then the emulator
    ends by \<open>exit(-1)\<close>.
  \<^item> The loop of \<open>handle_request\<close> reads the index of the queue in every round, from memory that the device itself writes to. It need not end, so it
    is a partial function: \<open>None\<close> says that it does not return. \<open>exit(-1)\<close> is \<open>Exit\<close>.
\<close>

record VirtioBlkState =
  device_features :: u64
  driver_features :: u64
  virtio_mmio_device_features_sel :: u32
  virtio_mmio_driver_features_sel :: u32
  blk_status :: u32
  virtio_mmio_queue_sel :: u32
  queue_ready :: u32
  queue_num :: u32
  queue_desc :: u64
  queue_avail :: u64
  queue_used :: u64
  vq_avail_currect :: u16
  vq_used_currect :: u16
  capacity :: u64
  num_bytes_read :: u64
  num_bytes_write :: u64

record host_file =
  content :: "u8 list"
  fpos :: nat

record 'c blk = VirtioBlkState +
  blk_file :: host_file
  mem :: "u64 \<Rightarrow> u8"
  mapped :: "u64 \<Rightarrow> bool"
  irq_line :: 'c

section \<open>The memory of the guest\<close>

definition is_mapped :: "nat \<Rightarrow> u64 \<Rightarrow> 'c blk \<Rightarrow> bool" where
  "is_mapped n a s = list_all (\<lambda>i. mapped s (a + of_nat i)) [0..<n]"

definition peek :: "nat \<Rightarrow> u64 \<Rightarrow> (u64 \<Rightarrow> u8) \<Rightarrow> u64" where
  "peek n a m = le_load (map (\<lambda>i. m (a + of_nat i)) [0..<n])"

definition blk_ld :: "nat \<Rightarrow> u64 \<Rightarrow> 'c blk \<Rightarrow> (u64, 'c blk) outcome" where
  "blk_ld n a s = (if is_mapped n a s then Ret (peek n a (mem s)) s else Crash)"

definition blk_st :: "nat \<Rightarrow> u64 \<Rightarrow> u64 \<Rightarrow> 'c blk \<Rightarrow> (unit, 'c blk) outcome" where
  "blk_st n a v s = (if is_mapped n a s then Ret () (s\<lparr>mem := store_bytes a (le_bytes n v) (mem s)\<rparr>) else Crash)"

section \<open>The file\<close>

definition VIRTIO_SECTOR_SIZE :: u64 where "VIRTIO_SECTOR_SIZE = 512"

definition fseek :: "u64 \<Rightarrow> host_file \<Rightarrow> host_file" where
  "fseek offset f = (if offset < 0x8000000000000000 then f\<lparr>fpos := unat offset\<rparr> else f)"

definition overwrite :: "nat \<Rightarrow> u8 list \<Rightarrow> u8 list \<Rightarrow> u8 list" where
  "overwrite p bs c = take p (c @ replicate (p - length c) 0) @ bs @ drop (p + length bs) c"

definition blk_file_read :: "u64 \<Rightarrow> u64 \<Rightarrow> u64 \<Rightarrow> 'c blk \<Rightarrow> (unit, 'c blk) outcome" where
  "blk_file_read sector sz data s =
    (let f = fseek (sector * VIRTIO_SECTOR_SIZE) (blk_file s); bs = take (unat sz) (drop (fpos f) (content f));
         s' = s\<lparr>blk_file := f\<lparr>fpos := fpos f + length bs\<rparr>, mem := store_bytes data bs (mem s)\<rparr>
     in if \<not> is_mapped (length bs) data s then Crash
        else if sz = 0 \<or> length bs < unat sz then Exit s'
        else Ret () s')"

definition blk_file_write :: "u64 \<Rightarrow> u64 \<Rightarrow> u64 \<Rightarrow> 'c blk \<Rightarrow> (unit, 'c blk) outcome" where
  "blk_file_write sector sz data s =
    (let f = fseek (sector * VIRTIO_SECTOR_SIZE) (blk_file s); bs = map (\<lambda>i. mem s (data + of_nat i)) [0..<unat sz]
     in if sz = 0 then Exit (s\<lparr>blk_file := f\<rparr>)
        else if \<not> is_mapped (unat sz) data s then Crash
        else Ret () (s\<lparr>blk_file := \<lparr>content = overwrite (fpos f) bs (content f), fpos = fpos f + unat sz\<rparr>\<rparr>))"

definition simple_virtio_blk_init :: "u8 list option \<Rightarrow> (VirtioBlkState \<times> host_file, unit) outcome" where
  "simple_virtio_blk_init file =
    (case file of None \<Rightarrow> Crash
     | Some bytes \<Rightarrow>
        let sz = of_nat (length bytes) :: u64
        in if sz AND 0x100000 \<noteq> 0 then Exit ()
           else Ret (\<lparr>device_features = 0x100000000, driver_features = 0, virtio_mmio_device_features_sel = 0, virtio_mmio_driver_features_sel = 0,
             blk_status = 0, virtio_mmio_queue_sel = 0, queue_ready = 0, queue_num = 0, queue_desc = 0, queue_avail = 0, queue_used = 0,
             vq_avail_currect = 0, vq_used_currect = 0, capacity = sz, num_bytes_read = 0, num_bytes_write = 0\<rparr>, \<lparr>content = bytes, fpos = 0\<rparr>) ())"

section \<open>Requests\<close>

definition VIRTIO_BLK_T_IN :: u64 where "VIRTIO_BLK_T_IN = 0"
definition VIRTIO_BLK_T_OUT :: u64 where "VIRTIO_BLK_T_OUT = 1"

definition QUEUE_NUM_MASKED :: "'c blk \<Rightarrow> u32 \<Rightarrow> u32" where
  "QUEUE_NUM_MASKED s x = x AND (queue_num s - 1)"

text \<open>The fields of \<open>struct vring_desc\<close> (\<open>addr\<close>, \<open>len\<close>, \<open>flags\<close>, \<open>next\<close>), \<open>vring_avail\<close> and \<open>vring_used\<close> (\<open>flags\<close>, \<open>idx\<close>, \<open>ring\<close>), \<open>virtio_blk_outhdr\<close>
  (\<open>type\<close>, \<open>ioprio\<close>, \<open>sector\<close>).\<close>

definition desc_at :: "'c blk \<Rightarrow> u32 \<Rightarrow> u64" where
  "desc_at s i = queue_desc s + 16 * ucast i"

definition avail_ring_at :: "'c blk \<Rightarrow> u16 \<Rightarrow> u64" where
  "avail_ring_at s i = queue_avail s + 4 + 2 * ucast i"

definition used_ring_at :: "'c blk \<Rightarrow> u16 \<Rightarrow> u64" where
  "used_ring_at s i = queue_used s + 4 + 8 * ucast i"

definition transfer :: "u64 \<Rightarrow> u64 \<Rightarrow> u64 \<Rightarrow> 'c blk \<Rightarrow> (unit, 'c blk) outcome" where
  "transfer req data_len data_addr s =
    bind_out (blk_ld 4 req s) (\<lambda>ty s.
      if ty = VIRTIO_BLK_T_IN then
        bind_out (blk_ld 8 (req + 8) (s\<lparr>num_bytes_read := num_bytes_read s + data_len\<rparr>)) (\<lambda>sector. blk_file_read sector data_len data_addr)
      else if ty = VIRTIO_BLK_T_OUT then
        bind_out (blk_ld 8 (req + 8) (s\<lparr>num_bytes_write := num_bytes_write s + data_len\<rparr>)) (\<lambda>sector. blk_file_write sector data_len data_addr)
      else Ret () s)"

definition handle_one :: "'c blk \<Rightarrow> (unit, 'c blk) outcome" where
  "handle_one s =
    (let cur = vq_avail_currect s; vq_avail_currect_index = ucast (QUEUE_NUM_MASKED s (ucast cur)) :: u16
     in bind_out (blk_ld 2 (avail_ring_at s vq_avail_currect_index) s) (\<lambda>d s.
        let begin_vq_desc_idx = ucast d :: u32; i0 = begin_vq_desc_idx in
        bind_out (blk_ld 8 (desc_at s i0) s) (\<lambda>req s.
        bind_out (blk_ld 2 (desc_at s i0 + 14) s) (\<lambda>nxt s.
        if nxt \<noteq> ucast (QUEUE_NUM_MASKED s (i0 + 1)) then Exit s else
        let i1 = QUEUE_NUM_MASKED s (i0 + 1) in
        bind_out (blk_ld 4 (desc_at s i1 + 8) s) (\<lambda>data_len s.
        bind_out (blk_ld 8 (desc_at s i1) s) (\<lambda>data_addr s.
        bind_out (blk_ld 2 (desc_at s i1 + 14) s) (\<lambda>nxt s.
        if nxt \<noteq> ucast (QUEUE_NUM_MASKED s (i1 + 1)) then Exit s else
        let i2 = QUEUE_NUM_MASKED s (i1 + 1) in
        bind_out (blk_ld 8 (desc_at s i2) s) (\<lambda>status_addr s.
        bind_out (blk_st 4 (used_ring_at s vq_avail_currect_index) (ucast begin_vq_desc_idx) s) (\<lambda>_ s.
        bind_out (blk_st 4 (used_ring_at s vq_avail_currect_index + 4) data_len s) (\<lambda>_ s.
        bind_out (blk_st 1 status_addr 0 s) (\<lambda>_ s.
        bind_out (blk_st 2 (queue_used s + 2) (ucast (cur + 1)) s) (\<lambda>_ s.
        transfer req data_len data_addr (s\<lparr>vq_avail_currect := cur + 1\<rparr>)))))))))))))"

partial_function (option) handle_request :: "'c blk \<Rightarrow> (unit, 'c blk) outcome option" where
  "handle_request s =
    (case blk_ld 2 (queue_avail s + 2) s of
       Ret idx s \<Rightarrow>
         if ucast (vq_avail_currect s) \<noteq> idx then
           (case handle_one s of Ret u s \<Rightarrow> handle_request s | r \<Rightarrow> Some r)
         else Some (Ret () s)
     | Exn s \<Rightarrow> Some (Exn s) | Exit s \<Rightarrow> Some (Exit s) | Crash \<Rightarrow> Some Crash)"

section \<open>Registers\<close>

text \<open>The registers of \<open>linux/virtio_mmio.h\<close>.\<close>

definition VIRTIO_MMIO_MAGIC_VALUE :: u64 where [const_defs]: "VIRTIO_MMIO_MAGIC_VALUE = 0x000"
definition VIRTIO_MMIO_VERSION :: u64 where [const_defs]: "VIRTIO_MMIO_VERSION = 0x004"
definition VIRTIO_MMIO_DEVICE_ID :: u64 where [const_defs]: "VIRTIO_MMIO_DEVICE_ID = 0x008"
definition VIRTIO_MMIO_VENDOR_ID :: u64 where [const_defs]: "VIRTIO_MMIO_VENDOR_ID = 0x00c"
definition VIRTIO_MMIO_DEVICE_FEATURES :: u64 where [const_defs]: "VIRTIO_MMIO_DEVICE_FEATURES = 0x010"
definition VIRTIO_MMIO_DEVICE_FEATURES_SEL :: u64 where [const_defs]: "VIRTIO_MMIO_DEVICE_FEATURES_SEL = 0x014"
definition VIRTIO_MMIO_DRIVER_FEATURES :: u64 where [const_defs]: "VIRTIO_MMIO_DRIVER_FEATURES = 0x020"
definition VIRTIO_MMIO_DRIVER_FEATURES_SEL :: u64 where [const_defs]: "VIRTIO_MMIO_DRIVER_FEATURES_SEL = 0x024"
definition VIRTIO_MMIO_QUEUE_SEL :: u64 where [const_defs]: "VIRTIO_MMIO_QUEUE_SEL = 0x030"
definition VIRTIO_MMIO_QUEUE_NUM_MAX :: u64 where [const_defs]: "VIRTIO_MMIO_QUEUE_NUM_MAX = 0x034"
definition VIRTIO_MMIO_QUEUE_NUM :: u64 where [const_defs]: "VIRTIO_MMIO_QUEUE_NUM = 0x038"
definition VIRTIO_MMIO_QUEUE_READY :: u64 where [const_defs]: "VIRTIO_MMIO_QUEUE_READY = 0x044"
definition VIRTIO_MMIO_QUEUE_NOTIFY :: u64 where [const_defs]: "VIRTIO_MMIO_QUEUE_NOTIFY = 0x050"
definition VIRTIO_MMIO_INTERRUPT_STATUS :: u64 where [const_defs]: "VIRTIO_MMIO_INTERRUPT_STATUS = 0x060"
definition VIRTIO_MMIO_INTERRUPT_ACK :: u64 where [const_defs]: "VIRTIO_MMIO_INTERRUPT_ACK = 0x064"
definition VIRTIO_MMIO_STATUS :: u64 where [const_defs]: "VIRTIO_MMIO_STATUS = 0x070"
definition VIRTIO_MMIO_QUEUE_DESC_LOW :: u64 where [const_defs]: "VIRTIO_MMIO_QUEUE_DESC_LOW = 0x080"
definition VIRTIO_MMIO_QUEUE_DESC_HIGH :: u64 where [const_defs]: "VIRTIO_MMIO_QUEUE_DESC_HIGH = 0x084"
definition VIRTIO_MMIO_QUEUE_AVAIL_LOW :: u64 where [const_defs]: "VIRTIO_MMIO_QUEUE_AVAIL_LOW = 0x090"
definition VIRTIO_MMIO_QUEUE_AVAIL_HIGH :: u64 where [const_defs]: "VIRTIO_MMIO_QUEUE_AVAIL_HIGH = 0x094"
definition VIRTIO_MMIO_QUEUE_USED_LOW :: u64 where [const_defs]: "VIRTIO_MMIO_QUEUE_USED_LOW = 0x0a0"
definition VIRTIO_MMIO_QUEUE_USED_HIGH :: u64 where [const_defs]: "VIRTIO_MMIO_QUEUE_USED_HIGH = 0x0a4"
definition VIRTIO_MMIO_CONFIG_GENERATION :: u64 where [const_defs]: "VIRTIO_MMIO_CONFIG_GENERATION = 0x0fc"

definition SET_LOW32 :: "u64 \<Rightarrow> u64 \<Rightarrow> u64" where
  "SET_LOW32 x val = (x AND 0xFFFFFFFF00000000) OR (val AND 0xFFFFFFFF)"

definition SET_HIGH32 :: "u64 \<Rightarrow> u64 \<Rightarrow> u64" where
  "SET_HIGH32 x val = (x AND 0xFFFFFFFF) OR push_bit 32 (val AND 0xFFFFFFFF)"

definition virtio_blk_ioport_read :: "u64 \<Rightarrow> u32 \<Rightarrow> 'c blk \<Rightarrow> (u64, 'c blk) outcome" where
  "virtio_blk_ioport_read a sz s =
    (let r = (if a = VIRTIO_MMIO_MAGIC_VALUE then 0x74726976
       else if a = VIRTIO_MMIO_VERSION then 2
       else if a = VIRTIO_MMIO_DEVICE_ID then 2
       else if a = VIRTIO_MMIO_VENDOR_ID then 0x554D4551
       else if a = VIRTIO_MMIO_DEVICE_FEATURES then drop_bit (unat (virtio_mmio_device_features_sel s * 32) mod 64) (device_features s)
       else if a = VIRTIO_MMIO_INTERRUPT_STATUS then 1
       else if a = VIRTIO_MMIO_STATUS then ucast (blk_status s)
       else if a = VIRTIO_MMIO_QUEUE_READY then ucast (queue_ready s)
       else if a = VIRTIO_MMIO_QUEUE_NUM_MAX then 1024
       else if a = VIRTIO_MMIO_CONFIG_GENERATION then 0
       else if a = 0x100 then drop_bit 9 (capacity s)
       else 0)
     in Ret r s)"

definition set_line :: "(bool \<Rightarrow> 'c \<Rightarrow> (unit, 'c) outcome) \<Rightarrow> bool \<Rightarrow> 'c blk \<Rightarrow> (unit, 'c blk) outcome" where
  "set_line set_irq level s =
    (case set_irq level (irq_line s) of
       Ret v c \<Rightarrow> Ret () (s\<lparr>irq_line := c\<rparr>) | Exn c \<Rightarrow> Exn (s\<lparr>irq_line := c\<rparr>) | Exit c \<Rightarrow> Exit (s\<lparr>irq_line := c\<rparr>) | Crash \<Rightarrow> Crash)"

definition virtio_blk_ioport_write :: "(bool \<Rightarrow> 'c \<Rightarrow> (unit, 'c) outcome) \<Rightarrow> u64 \<Rightarrow> u64 \<Rightarrow> u32 \<Rightarrow> 'c blk \<Rightarrow> (unit, 'c blk) outcome option" where
  "virtio_blk_ioport_write set_irq a val sz s =
    (if a = VIRTIO_MMIO_STATUS then Some (Ret () (s\<lparr>blk_status := ucast val\<rparr>))
     else if a = VIRTIO_MMIO_DEVICE_FEATURES_SEL then Some (Ret () (s\<lparr>virtio_mmio_device_features_sel := ucast val\<rparr>))
     else if a = VIRTIO_MMIO_DRIVER_FEATURES then Some (Ret () (s\<lparr>driver_features := val\<rparr>))
     else if a = VIRTIO_MMIO_DRIVER_FEATURES_SEL then Some (Ret () (s\<lparr>virtio_mmio_driver_features_sel := ucast val\<rparr>))
     else if a = VIRTIO_MMIO_QUEUE_SEL then
       Some (if val = 0 then Ret () (s\<lparr>virtio_mmio_queue_sel := ucast val\<rparr>) else Crash)
     else if a = VIRTIO_MMIO_QUEUE_NUM then Some (Ret () (s\<lparr>queue_num := ucast val\<rparr>))
     else if a = VIRTIO_MMIO_QUEUE_READY then Some (Ret () (s\<lparr>queue_ready := ucast val\<rparr>))
     else if a = VIRTIO_MMIO_QUEUE_NOTIFY then
       (if val = 0 then map_option (\<lambda>r. bind_out r (\<lambda>_. set_line set_irq True)) (handle_request s) else Some Crash)
     else if a = VIRTIO_MMIO_INTERRUPT_ACK then Some (set_line set_irq False s)
     else if a = VIRTIO_MMIO_QUEUE_DESC_LOW then Some (Ret () (s\<lparr>queue_desc := SET_LOW32 (queue_desc s) val\<rparr>))
     else if a = VIRTIO_MMIO_QUEUE_DESC_HIGH then Some (Ret () (s\<lparr>queue_desc := SET_HIGH32 (queue_desc s) val\<rparr>))
     else if a = VIRTIO_MMIO_QUEUE_AVAIL_LOW then Some (Ret () (s\<lparr>queue_avail := SET_LOW32 (queue_avail s) val\<rparr>))
     else if a = VIRTIO_MMIO_QUEUE_AVAIL_HIGH then Some (Ret () (s\<lparr>queue_avail := SET_HIGH32 (queue_avail s) val\<rparr>))
     else if a = VIRTIO_MMIO_QUEUE_USED_LOW then Some (Ret () (s\<lparr>queue_used := SET_LOW32 (queue_used s) val\<rparr>))
     else if a = VIRTIO_MMIO_QUEUE_USED_HIGH then Some (Ret () (s\<lparr>queue_used := SET_HIGH32 (queue_used s) val\<rparr>))
     else Some (Ret () s))"

end
