(* ===== verification/Dev_Blk_Spec.thy ===== *)
theory Dev_Blk_Spec
  imports Dev_Blk
begin

text \<open>
  What the queue of the block device means to its driver: a request as the driver lays it out, its effect on the memory of the guest and on the
  disk, and the proof that a notification of the device has the effect of all pending requests in their order and then raises the
  interrupt.

  A region is an address and a length; two regions are \<open>apart\<close> if they share no byte, also around the end of the address space.
\<close>

type_synonym region = "u64 \<times> nat"

definition apart :: "region \<Rightarrow> region \<Rightarrow> bool" where
  "apart A B \<longleftrightarrow> snd A \<le> unat (fst B - fst A) \<and> snd B \<le> unat (fst A - fst B)"

definition agree :: "(u64 \<Rightarrow> u8) \<Rightarrow> (u64 \<Rightarrow> u8) \<Rightarrow> region \<Rightarrow> bool" where
  "agree m m' A \<longleftrightarrow> (\<forall>i < snd A. m' (fst A + of_nat i) = m (fst A + of_nat i))"

definition bytes_at :: "(u64 \<Rightarrow> u8) \<Rightarrow> region \<Rightarrow> u8 list" where
  "bytes_at m A = map (\<lambda>i. m (fst A + of_nat i)) [0..<snd A]"

lemma apart_byte:
  assumes "apart (a, n) (b, m)" and "j < m" and "m \<le> 2 ^ 64"
  shows "n \<le> unat (b + of_nat j - a)"
proof (rule ccontr)
  define i where "i = unat (b + of_nat j - a)"
  assume "\<not> n \<le> unat (b + of_nat j - a)"
  then have i: "i < n" by (simp add: i_def)
  have "of_nat i = b + of_nat j - a" by (simp add: i_def)
  then have eq: "b - a = of_nat i - of_nat j" by simp
  have le: "i < 2 ^ 64" "j < 2 ^ 64" using unsigned_less [of "b + of_nat j - a", where 'a = nat] assms(2,3) by (simp_all add: i_def)
  show False
  proof (cases "j \<le> i")
    case True
    then have "b - a = of_nat (i - j)" using eq by simp
    then have "unat (b - a) = i - j" using le by (simp add: unat_of_nat take_bit_nat_eq_self)
    then show False using assms(1) i unfolding apart_def by (simp, linarith)
  next
    case False
    have "a - b = - (b - a)" by simp
    then have "a - b = of_nat (j - i)" using eq False by simp
    then have "unat (a - b) = j - i" using le by (simp add: unat_of_nat take_bit_nat_eq_self)
    then show False using assms(1,2) unfolding apart_def by (simp, linarith)
  qed
qed

lemma agree_refl [simp]: "agree m m A"
  by (simp add: agree_def)

lemma agree_trans: "agree m m' A \<Longrightarrow> agree m' m'' A \<Longrightarrow> agree m m'' A"
  by (simp add: agree_def)

lemma agree_store: "apart (a, length bs) A \<Longrightarrow> snd A \<le> 2 ^ 64 \<Longrightarrow> agree m (store_bytes a bs m) A"
  by (cases A) (auto simp: agree_def intro!: store_bytes_other dest!: apart_byte)

lemma bytes_at_agree: "agree m m' A \<Longrightarrow> bytes_at m' A = bytes_at m A"
  by (simp add: bytes_at_def agree_def)

lemma peek_agree:
  assumes "agree m m' (b, n)" and "i + l \<le> n"
  shows "peek l (b + of_nat i) m' = peek l (b + of_nat i) m"
proof -
  have "m' (b + of_nat i + of_nat j) = m (b + of_nat i + of_nat j)" if "j < l" for j
    using assms that by (auto simp: agree_def add.assoc dest!: spec [of _ "i + j"])
  then have "map (\<lambda>j. m' (b + of_nat i + of_nat j)) [0..<l] = map (\<lambda>j. m (b + of_nat i + of_nat j)) [0..<l]" by simp
  then show ?thesis unfolding peek_def by (rule arg_cong)
qed

lemma bytes_at_store: "length bs = n \<Longrightarrow> n \<le> 2 ^ 64 \<Longrightarrow> bytes_at (store_bytes a bs m) (a, n) = bs"
  by (rule nth_equalityI) (simp_all add: bytes_at_def store_bytes_def unat_of_nat take_bit_nat_eq_self)

section \<open>Requests of the driver\<close>

record request =
  req_slot :: u16
  req_head :: u32
  req_hdr :: u64
  req_len :: u64
  req_data :: u64
  req_status :: u64
  req_type :: u64
  req_sector :: u64

definition slot_of :: "'c blk \<Rightarrow> u16 \<Rightarrow> u16" where
  "slot_of s k = ucast (QUEUE_NUM_MASKED s (ucast k))"

definition head_of :: "'c blk \<Rightarrow> u16 \<Rightarrow> u32" where
  "head_of s k = ucast (peek 2 (avail_ring_at s (slot_of s k)) (mem s))"

definition next_of :: "'c blk \<Rightarrow> u32 \<Rightarrow> u32" where
  "next_of s i = QUEUE_NUM_MASKED s (i + 1)"

definition request_at :: "'c blk \<Rightarrow> u16 \<Rightarrow> request" where
  "request_at s k =
    (let i0 = head_of s k; i1 = next_of s i0; i2 = next_of s i1; h = peek 8 (desc_at s i0) (mem s)
     in \<lparr>req_slot = slot_of s k, req_head = i0, req_hdr = h, req_len = peek 4 (desc_at s i1 + 8) (mem s), req_data = peek 8 (desc_at s i1) (mem s),
         req_status = peek 8 (desc_at s i2) (mem s), req_type = peek 4 h (mem s), req_sector = peek 8 (h + 8) (mem s)\<rparr>)"

text \<open>What the device reads of a request besides its data, and what it writes.\<close>

definition controls :: "'c blk \<Rightarrow> u16 \<Rightarrow> region list" where
  "controls s k =
    (let i0 = head_of s k; i1 = next_of s i0; i2 = next_of s i1
     in [(avail_ring_at s (slot_of s k), 2), (desc_at s i0, 16), (desc_at s i1, 16), (desc_at s i2, 16), (peek 8 (desc_at s i0) (mem s), 16)])"

definition marks :: "'c blk \<Rightarrow> request \<Rightarrow> region list" where
  "marks s r = [(used_ring_at s (req_slot r), 4), (used_ring_at s (req_slot r) + 4, 4), (req_status r, 1), (queue_used s + 2, 2)]"

definition outputs :: "'c blk \<Rightarrow> request \<Rightarrow> region list" where
  "outputs s r = marks s r @ (if req_type r = VIRTIO_BLK_T_IN then [(req_data r, unat (req_len r))] else [])"

definition chained :: "'c blk \<Rightarrow> u16 \<Rightarrow> bool" where
  "chained s k =
    (let i0 = head_of s k; i1 = next_of s i0
     in peek 2 (desc_at s i0 + 14) (mem s) = ucast i1 \<and> peek 2 (desc_at s i1 + 14) (mem s) = ucast (next_of s i1))"

definition fits :: "u8 list \<Rightarrow> request \<Rightarrow> bool" where
  "fits disk r \<longleftrightarrow> req_len r \<noteq> 0 \<and> 512 * unat (req_sector r) < 2 ^ 63
    \<and> (req_type r = VIRTIO_BLK_T_IN \<longrightarrow> 512 * unat (req_sector r) + unat (req_len r) \<le> length disk)"

definition formed :: "'c blk \<Rightarrow> u16 \<Rightarrow> bool" where
  "formed s k \<longleftrightarrow> chained s k \<and> list_all (\<lambda>(a, n). is_mapped n a s) (controls s k @ marks s (request_at s k))"

definition request_ok :: "'c blk \<Rightarrow> u16 \<Rightarrow> bool" where
  "request_ok s k =
    (let r = request_at s k
     in formed s k
        \<and> (req_type r = VIRTIO_BLK_T_IN \<or> req_type r = VIRTIO_BLK_T_OUT \<longrightarrow> fits (content (blk_file s)) r \<and> is_mapped (unat (req_len r)) (req_data r) s))"

definition avail_idx :: "'c blk \<Rightarrow> u16" where
  "avail_idx s = ucast (peek 2 (queue_avail s + 2) (mem s))"

definition pending_requests :: "'c blk \<Rightarrow> u16 list" where
  "pending_requests s = map (\<lambda>i. vq_avail_currect s + of_nat i) [0..<unat (avail_idx s - vq_avail_currect s)]"

definition queue_ok :: "'c blk \<Rightarrow> bool" where
  "queue_ok s \<longleftrightarrow> is_mapped 2 (queue_avail s + 2) s \<and> list_all (request_ok s) (pending_requests s)
    \<and> list_all (\<lambda>k. list_all (\<lambda>w. list_all (apart w) ((queue_avail s + 2, 2) # concat (map (controls s) (pending_requests s))))
        (outputs s (request_at s k))) (pending_requests s)"

section \<open>Their effect\<close>

definition mark :: "'c blk \<Rightarrow> u16 \<Rightarrow> request \<Rightarrow> (u64 \<Rightarrow> u8) \<Rightarrow> u64 \<Rightarrow> u8" where
  "mark s k r m =
    store_bytes (queue_used s + 2) (le_bytes 2 (ucast (k + 1))) (store_bytes (req_status r) [0]
      (store_bytes (used_ring_at s (req_slot r) + 4) (le_bytes 4 (req_len r)) (store_bytes (used_ring_at s (req_slot r)) (le_bytes 4 (ucast (req_head r))) m)))"

definition serve :: "'c blk \<Rightarrow> u16 \<Rightarrow> (u64 \<Rightarrow> u8) \<times> u8 list \<Rightarrow> (u64 \<Rightarrow> u8) \<times> u8 list" where
  "serve s k x =
    (let r = request_at s k; m = mark s k r (fst x); p = 512 * unat (req_sector r)
     in if req_type r = VIRTIO_BLK_T_IN then (store_bytes (req_data r) (take (unat (req_len r)) (drop p (snd x))) m, snd x)
        else if req_type r = VIRTIO_BLK_T_OUT then (m, overwrite p (bytes_at m (req_data r, unat (req_len r))) (snd x))
        else (m, snd x))"

section \<open>One request\<close>

lemma is_mapped_sub: "is_mapped n a s \<Longrightarrow> i + l \<le> n \<Longrightarrow> is_mapped l (a + of_nat i) s"
  unfolding is_mapped_def list_all_iff by (auto simp: add.assoc simp flip: of_nat_add)

lemma is_mapped_frame [simp]:
  "is_mapped n a (s\<lparr>mem := m\<rparr>) = is_mapped n a s" "is_mapped n a (s\<lparr>vq_avail_currect := k\<rparr>) = is_mapped n a s"
  "is_mapped n a (s\<lparr>num_bytes_read := x\<rparr>) = is_mapped n a s" "is_mapped n a (s\<lparr>num_bytes_write := x\<rparr>) = is_mapped n a s"
  "is_mapped n a (s\<lparr>blk_file := f\<rparr>) = is_mapped n a s"
  by (simp_all add: is_mapped_def)

lemma ring_frame [simp]:
  "desc_at (s\<lparr>mem := m\<rparr>) i = desc_at s i" "used_ring_at (s\<lparr>mem := m\<rparr>) j = used_ring_at s j" "QUEUE_NUM_MASKED (s\<lparr>mem := m\<rparr>) x = QUEUE_NUM_MASKED s x"
  by (simp_all add: desc_at_def used_ring_at_def QUEUE_NUM_MASKED_def)

definition same_setup :: "'c blk \<Rightarrow> 'c blk \<Rightarrow> bool" where
  "same_setup s s' \<longleftrightarrow> queue_num s' = queue_num s \<and> queue_desc s' = queue_desc s \<and> queue_avail s' = queue_avail s \<and> queue_used s' = queue_used s
    \<and> mapped s' = mapped s \<and> irq_line s' = irq_line s"

lemma sector_offset:
  assumes "512 * unat x < 2 ^ 63"
  shows "x * VIRTIO_SECTOR_SIZE < 0x8000000000000000" "unat (x * VIRTIO_SECTOR_SIZE) = 512 * unat x"
proof -
  show u: "unat (x * VIRTIO_SECTOR_SIZE) = 512 * unat x"
    using assms by (simp add: VIRTIO_SECTOR_SIZE_def unat_mult_lem [THEN iffD1])
  show "x * VIRTIO_SECTOR_SIZE < 0x8000000000000000"
    using assms u by (simp add: word_less_nat_alt)
qed

lemma agree_mark:
  assumes "list_all (\<lambda>w. apart w A) (marks s r)" and "snd A \<le> 2 ^ 64"
  shows "agree m (mark s k r m) A"
proof -
  have a: "apart (used_ring_at s (req_slot r), 4) A" "apart (used_ring_at s (req_slot r) + 4, 4) A" "apart (req_status r, 1) A" "apart (queue_used s + 2, 2) A"
    using assms(1) by (simp_all add: marks_def)
  show ?thesis
    unfolding mark_def using a assms(2)
    by (intro agree_trans [OF agree_trans [OF agree_trans [OF agree_store agree_store] agree_store] agree_store]) simp_all
qed

lemma fits_offset:
  assumes "fits disk r" and "blk_file s = f"
  shows "fseek (req_sector r * VIRTIO_SECTOR_SIZE) f = f\<lparr>fpos := 512 * unat (req_sector r)\<rparr>"
  using assms by (simp add: fits_def fseek_def sector_offset)

lemma fits_length:
  assumes "fits disk r" and "req_type r = VIRTIO_BLK_T_IN"
  shows "length (take (unat (req_len r)) (drop (512 * unat (req_sector r)) disk)) = unat (req_len r)"
  using assms unfolding fits_def by (simp add: min_absorb2 le_diff_conv2)

lemma file_read_ok:
  assumes "req_type r = VIRTIO_BLK_T_IN" and "fits (content (blk_file s)) r" and "is_mapped (unat (req_len r)) (req_data r) s"
  shows "blk_file_read (req_sector r) (req_len r) (req_data r) s =
    Ret () (s\<lparr>blk_file := (blk_file s)\<lparr>fpos := 512 * unat (req_sector r) + unat (req_len r)\<rparr>,
      mem := store_bytes (req_data r) (take (unat (req_len r)) (drop (512 * unat (req_sector r)) (content (blk_file s)))) (mem s)\<rparr>)"
  using assms fits_length [OF assms(2,1)] unfolding blk_file_read_def fits_offset [OF assms(2) refl] Let_def
  by (simp add: fits_def)

lemma file_write_ok:
  assumes "fits (content (blk_file s)) r" and "is_mapped (unat (req_len r)) (req_data r) s"
  shows "blk_file_write (req_sector r) (req_len r) (req_data r) s =
    Ret () (s\<lparr>blk_file := \<lparr>content = overwrite (512 * unat (req_sector r)) (bytes_at (mem s) (req_data r, unat (req_len r))) (content (blk_file s)),
      fpos = 512 * unat (req_sector r) + unat (req_len r)\<rparr>\<rparr>)"
  using assms unfolding blk_file_write_def fits_offset [OF assms(1) refl] Let_def
  by (simp add: fits_def bytes_at_def)

lemma transfer_cases:
  fixes s k
  defines "r \<equiv> request_at s k"
  assumes "formed s k" and "list_all (\<lambda>w. apart w (req_hdr r, 16)) (marks s r)" and "t = s\<lparr>mem := mark s k r (mem s), vq_avail_currect := k + 1\<rparr>"
  shows "transfer (req_hdr r) (req_len r) (req_data r) t =
    (if req_type r = VIRTIO_BLK_T_IN then blk_file_read (req_sector r) (req_len r) (req_data r) (t\<lparr>num_bytes_read := num_bytes_read t + req_len r\<rparr>)
     else if req_type r = VIRTIO_BLK_T_OUT then blk_file_write (req_sector r) (req_len r) (req_data r) (t\<lparr>num_bytes_write := num_bytes_write t + req_len r\<rparr>)
     else Ret () t)"
proof -
  have ag: "agree (mem s) (mark s k r (mem s)) (req_hdr r, 16)" using agree_mark [OF assms(3)] by simp
  have ty: "peek 4 (req_hdr r) (mark s k r (mem s)) = req_type r" and sec: "peek 8 (req_hdr r + 8) (mark s k r (mem s)) = req_sector r"
    using peek_agree [OF ag, of 0 4] peek_agree [OF ag, of 8 8] by (simp_all add: r_def request_at_def Let_def)
  have "is_mapped 16 (req_hdr r) s"
    using assms(2) by (simp add: formed_def controls_def r_def request_at_def Let_def)
  then have mp: "is_mapped 4 (req_hdr r) s" "is_mapped 8 (req_hdr r + 8) s"
    using is_mapped_sub [of 16 "req_hdr r" s 0 4] is_mapped_sub [of 16 "req_hdr r" s 8 8] by simp_all
  have t: "mem t = mark s k r (mem s)" "\<And>n a. is_mapped n a t = is_mapped n a s" by (simp_all add: assms(4))
  show ?thesis by (simp add: transfer_def blk_ld_def t ty sec mp)
qed

lemma transfer_serves:
  assumes "request_ok s k" and "list_all (\<lambda>w. apart w (req_hdr (request_at s k), 16)) (marks s (request_at s k))" and "t = s\<lparr>mem := mark s k (request_at s k) (mem s), vq_avail_currect := k + 1\<rparr>"
  obtains s' where "transfer (req_hdr (request_at s k)) (req_len (request_at s k)) (req_data (request_at s k)) t = Ret () s'"
    and "(mem s', content (blk_file s')) = serve s k (mem s, content (blk_file s))" and "vq_avail_currect s' = k + 1" and "same_setup s s'"
proof -
  define r where "r = request_at s k"
  have f: "req_type r = VIRTIO_BLK_T_IN \<or> req_type r = VIRTIO_BLK_T_OUT \<Longrightarrow> fits (content (blk_file s)) r \<and> is_mapped (unat (req_len r)) (req_data r) s"
    using assms(1) by (auto simp: request_ok_def r_def Let_def)
  have t: "mem t = mark s k r (mem s)" "blk_file t = blk_file s" "\<And>n a. is_mapped n a t = is_mapped n a s" "vq_avail_currect t = k + 1" "same_setup s t"
    by (simp_all add: assms(3) r_def same_setup_def)
  have sv: "serve s k (mem s, content (blk_file s)) = (if req_type r = VIRTIO_BLK_T_IN
      then (store_bytes (req_data r) (take (unat (req_len r)) (drop (512 * unat (req_sector r)) (content (blk_file s)))) (mem t), content (blk_file s))
      else if req_type r = VIRTIO_BLK_T_OUT
      then (mem t, overwrite (512 * unat (req_sector r)) (bytes_at (mem t) (req_data r, unat (req_len r))) (content (blk_file s)))
      else (mem t, content (blk_file s)))"
    by (simp add: serve_def Let_def t(1) r_def)
  define t1 where "t1 = t\<lparr>num_bytes_read := num_bytes_read t + req_len r\<rparr>"
  define t2 where "t2 = t\<lparr>num_bytes_write := num_bytes_write t + req_len r\<rparr>"
  have tr: "transfer (req_hdr r) (req_len r) (req_data r) t = (if req_type r = VIRTIO_BLK_T_IN then blk_file_read (req_sector r) (req_len r) (req_data r) t1
      else if req_type r = VIRTIO_BLK_T_OUT then blk_file_write (req_sector r) (req_len r) (req_data r) t2 else Ret () t)"
    using transfer_cases [OF _ assms(2,3)] assms(1) unfolding t1_def t2_def r_def request_ok_def Let_def by blast
  consider (i) "req_type r = VIRTIO_BLK_T_IN" | (o) "req_type r \<noteq> VIRTIO_BLK_T_IN" "req_type r = VIRTIO_BLK_T_OUT"
    | (n) "req_type r \<noteq> VIRTIO_BLK_T_IN" "req_type r \<noteq> VIRTIO_BLK_T_OUT" by blast
  then show thesis
  proof cases
    case i
    then have ok: "fits (content (blk_file t1)) r" "is_mapped (unat (req_len r)) (req_data r) t1" using f by (simp_all add: t1_def t)
    show thesis
      by (rule that [unfolded r_def [symmetric], OF tr [unfolded file_read_ok [OF i ok] if_P [OF i]]])
        (use i t in \<open>simp_all add: sv t1_def same_setup_def\<close>)
  next
    case o
    then have ok: "fits (content (blk_file t2)) r" "is_mapped (unat (req_len r)) (req_data r) t2" using f by (simp_all add: t2_def t)
    show thesis
      by (rule that [unfolded r_def [symmetric], OF tr [unfolded file_write_ok [OF ok] if_not_P [OF o(1)] if_P [OF o(2)]]])
        (use o t in \<open>simp_all add: sv t2_def same_setup_def\<close>)
  next
    case n
    then show thesis using that [unfolded r_def [symmetric], OF tr [unfolded if_not_P [OF n(1)] if_not_P [OF n(2)]]] t by (simp add: sv)
  qed
qed

lemma handle_one_transfers:
  fixes s k
  defines "r \<equiv> request_at s k"
  assumes "formed s k" and "vq_avail_currect s = k"
  shows "handle_one s = transfer (req_hdr r) (req_len r) (req_data r) (s\<lparr>mem := mark s k r (mem s), vq_avail_currect := k + 1\<rparr>)"
proof -
  define i0 where "i0 = head_of s k"
  define i1 where "i1 = next_of s i0"
  define i2 where "i2 = next_of s i1"
  have r: "req_slot r = slot_of s k" "req_head r = i0" "req_hdr r = peek 8 (desc_at s i0) (mem s)" "req_len r = peek 4 (desc_at s i1 + 8) (mem s)"
    "req_data r = peek 8 (desc_at s i1) (mem s)" "req_status r = peek 8 (desc_at s i2) (mem s)"
    by (simp_all add: r_def request_at_def Let_def i0_def i1_def i2_def)
  have d: "is_mapped 16 (desc_at s i0) s" "is_mapped 16 (desc_at s i1) s" "is_mapped 16 (desc_at s i2) s" and m: "is_mapped 2 (avail_ring_at s (slot_of s k)) s"
    "is_mapped 4 (used_ring_at s (slot_of s k)) s" "is_mapped 4 (used_ring_at s (slot_of s k) + 4) s" "is_mapped 1 (req_status r) s" "is_mapped 2 (queue_used s + 2) s"
    using assms(2) by (simp_all add: formed_def controls_def marks_def Let_def i0_def i1_def i2_def r(1) flip: r_def)
  have sub: "is_mapped 8 (desc_at s i0) s" "is_mapped 2 (desc_at s i0 + 14) s" "is_mapped 8 (desc_at s i1) s" "is_mapped 4 (desc_at s i1 + 8) s"
    "is_mapped 2 (desc_at s i1 + 14) s" "is_mapped 8 (desc_at s i2) s"
    using d [THEN is_mapped_sub, of 0 8] d [THEN is_mapped_sub, of 8 4] d [THEN is_mapped_sub, of 14 2] by simp_all
  have c: "peek 2 (desc_at s i0 + 14) (mem s) = ucast (QUEUE_NUM_MASKED s (i0 + 1))" "peek 2 (desc_at s i1 + 14) (mem s) = ucast (QUEUE_NUM_MASKED s (i1 + 1))"
    using assms(2) by (simp_all add: formed_def chained_def Let_def i0_def i1_def next_of_def)
  have h: "ucast (peek 2 (avail_ring_at s (slot_of s k)) (mem s)) = i0" by (simp add: i0_def head_of_def)
  have n: "QUEUE_NUM_MASKED s (i0 + 1) = i1" "QUEUE_NUM_MASKED s (i1 + 1) = i2" by (simp_all add: i1_def i2_def next_of_def)
  show ?thesis
    using m sub by (simp add: handle_one_def blk_ld_def blk_st_def assms(3) h c n Let_def mark_def r slot_of_def [symmetric])
qed

lemma handle_one_serves:
  assumes "request_ok s k" and "list_all (\<lambda>w. apart w (req_hdr (request_at s k), 16)) (marks s (request_at s k))" and "vq_avail_currect s = k"
  obtains s' where "handle_one s = Ret () s'"
    and "(mem s', content (blk_file s')) = serve s k (mem s, content (blk_file s))" and "vq_avail_currect s' = k + 1" and "same_setup s s'"
proof -
  have "formed s k" using assms(1) by (simp add: request_ok_def Let_def)
  from handle_one_transfers [OF this assms(3)] show thesis using transfer_serves [OF assms(1,2) refl] that by metis
qed

section \<open>The queue\<close>

lemma setup_frame:
  assumes "same_setup s s'"
  shows "slot_of s' k = slot_of s k" "next_of s' = next_of s" "desc_at s' = desc_at s" "avail_ring_at s' = avail_ring_at s" "used_ring_at s' = used_ring_at s"
    "is_mapped n a s' = is_mapped n a s" "queue_avail s' = queue_avail s" "queue_used s' = queue_used s"
  using assms by (simp_all add: same_setup_def slot_of_def next_of_def QUEUE_NUM_MASKED_def desc_at_def avail_ring_at_def used_ring_at_def is_mapped_def fun_eq_iff)

lemma request_frame:
  assumes "same_setup s s'" and "list_all (agree (mem s) (mem s')) (controls s k)"
  shows "request_at s' k = request_at s k" "controls s' k = controls s k" "chained s' k = chained s k"
proof -
  note fr = setup_frame [OF assms(1)]
  define i0 where "i0 = head_of s k"
  define i1 where "i1 = next_of s i0"
  define i2 where "i2 = next_of s i1"
  have ag: "agree (mem s) (mem s') (avail_ring_at s (slot_of s k), 2)" "agree (mem s) (mem s') (desc_at s i0, 16)" "agree (mem s) (mem s') (desc_at s i1, 16)"
    "agree (mem s) (mem s') (desc_at s i2, 16)" "agree (mem s) (mem s') (peek 8 (desc_at s i0) (mem s), 16)"
    using assms(2) by (simp_all add: controls_def Let_def i0_def i1_def i2_def)
  have p: "peek 2 (avail_ring_at s (slot_of s k)) (mem s') = peek 2 (avail_ring_at s (slot_of s k)) (mem s)"
    using peek_agree [OF ag(1), of 0 2] by simp
  then have h: "head_of s' k = i0" by (simp add: head_of_def fr i0_def)
  have q: "peek 8 (desc_at s i) (mem s') = peek 8 (desc_at s i) (mem s)" "peek 4 (desc_at s i + 8) (mem s') = peek 4 (desc_at s i + 8) (mem s)"
    "peek 2 (desc_at s i + 14) (mem s') = peek 2 (desc_at s i + 14) (mem s)" if "agree (mem s) (mem s') (desc_at s i, 16)" for i
    using peek_agree [OF that, of 0 8] peek_agree [OF that, of 8 4] peek_agree [OF that, of 14 2] by simp_all
  have t: "peek 4 (peek 8 (desc_at s i0) (mem s)) (mem s') = peek 4 (peek 8 (desc_at s i0) (mem s)) (mem s)"
    "peek 8 (peek 8 (desc_at s i0) (mem s) + 8) (mem s') = peek 8 (peek 8 (desc_at s i0) (mem s) + 8) (mem s)"
    using peek_agree [OF ag(5), of 0 4] peek_agree [OF ag(5), of 8 8] by simp_all
  note facts = Let_def fr h q [OF ag(2)] q [OF ag(3)] q [OF ag(4)] t i0_def [symmetric] i1_def [symmetric] i2_def [symmetric]
  show "request_at s' k = request_at s k" by (simp add: request_at_def facts)
  show "controls s' k = controls s k" by (simp add: controls_def facts)
  show "chained s' k = chained s k" by (simp add: chained_def facts)
qed

lemma length_overwrite: "length (overwrite p bs c) = max (length c) (p + length bs)"
  by (simp add: overwrite_def)

lemma serve_grows: "length d \<le> length (snd (serve s k (m, d)))"
  by (simp add: serve_def Let_def length_overwrite)

lemma serve_agree:
  assumes "list_all (\<lambda>w. apart w A) (outputs s (request_at s k))" and "snd A \<le> 2 ^ 64" and "request_ok s k"
  shows "agree m (fst (serve s k (m, content (blk_file s)))) A"
proof -
  define r where "r = request_at s k"
  have ag: "agree m (mark s k r m) A" using assms(1,2) by (intro agree_mark) (simp_all add: outputs_def r_def)
  show ?thesis
  proof (cases "req_type r = VIRTIO_BLK_T_IN")
    case True
    define bs where "bs = take (unat (req_len r)) (drop (512 * unat (req_sector r)) (content (blk_file s)))"
    have "fits (content (blk_file s)) r" using assms(3) True by (simp add: request_ok_def r_def Let_def)
    then have "length bs = unat (req_len r)" using True unfolding bs_def by (rule fits_length)
    then have "apart (req_data r, length bs) A" using assms(1) True by (simp add: outputs_def flip: r_def)
    then have "agree (mark s k r m) (store_bytes (req_data r) bs (mark s k r m)) A" using assms(2) by (rule agree_store)
    then show ?thesis using agree_trans [OF ag] True by (simp add: serve_def Let_def bs_def flip: r_def)
  qed (use ag in \<open>simp add: serve_def Let_def flip: r_def\<close>)
qed

lemma peek2_bound: "take_bit 16 (peek 2 a m) = peek 2 a m"
  by (rule bit_word_eqI) (auto simp: peek_def bit_simps numeral_2_eq_2 dest: bit_imp_le_length)

lemma ucast_avail_idx: "ucast (avail_idx s) = peek 2 (queue_avail s + 2) (mem s)"
proof -
  have "ucast (ucast x :: u16) = take_bit 16 x" for x :: u64 by (rule bit_word_eqI) (auto simp: bit_simps dest: bit_imp_le_length)
  then show ?thesis by (simp add: avail_idx_def peek2_bound)
qed

lemma ucast_inject_u16: "(ucast x :: u64) = ucast y \<Longrightarrow> x = y" for x y :: u16
proof (rule bit_word_eqI)
  fix n
  assume "(ucast x :: u64) = ucast y" and "n < LENGTH(16)"
  then have "bit (ucast x :: u64) n = bit (ucast y :: u64) n" and "n < 16" by simp_all
  then show "bit x n = bit y n" by (simp add: bit_simps)
qed

lemma pending_step:
  assumes "vq_avail_currect s \<noteq> avail_idx s" and "vq_avail_currect s' = vq_avail_currect s + 1" and "avail_idx s' = avail_idx s"
  shows "pending_requests s = vq_avail_currect s # pending_requests s'"
proof -
  have "unat (avail_idx s - (vq_avail_currect s + 1)) + 1 = unat (avail_idx s - vq_avail_currect s)"
    using unat_minus_one [of "avail_idx s - vq_avail_currect s"] assms(1) unat_gt_0 [of "avail_idx s - vq_avail_currect s"] by (simp add: algebra_simps)
  then have "[0..<unat (avail_idx s - vq_avail_currect s)] = 0 # map Suc [0..<unat (avail_idx s' - vq_avail_currect s')]"
    using assms(2,3) by (metis Suc_eq_plus1 map_Suc_upt upt_conv_Cons zero_less_Suc)
  then show ?thesis unfolding pending_requests_def by (simp add: assms(2) add.assoc)
qed

lemma serve_frame:
  assumes "same_setup s s'" and "request_at s' k = request_at s k"
  shows "serve s' k = serve s k"
  by (rule ext) (simp add: serve_def mark_def assms(2) setup_frame [OF assms(1)])

lemma outputs_frame: "same_setup s s' \<Longrightarrow> outputs s' r = outputs s r"
  by (simp add: outputs_def marks_def setup_frame)

lemma request_ok_frame:
  assumes "request_ok s k" and "same_setup s s'" and "list_all (agree (mem s) (mem s')) (controls s k)"
    and "length (content (blk_file s)) \<le> length (content (blk_file s'))"
  shows "request_ok s' k"
  using assms(1,4) by (auto simp: request_ok_def formed_def request_frame [OF assms(2,3)] marks_def setup_frame [OF assms(2)] fits_def Let_def)

lemma queue_step:
  assumes "queue_ok s" and "vq_avail_currect s \<noteq> avail_idx s"
  obtains s' where "handle_one s = Ret () s'" and "(mem s', content (blk_file s')) = serve s (vq_avail_currect s) (mem s, content (blk_file s))"
    and "queue_ok s'" and "same_setup s s'" and "avail_idx s' = avail_idx s" and "pending_requests s = vq_avail_currect s # pending_requests s'"
    and "\<forall>k \<in> set (pending_requests s'). serve s' k = serve s k"
proof -
  let ?k = "vq_avail_currect s"
  have "?k \<in> set (pending_requests s)" using pending_step [OF assms(2), of "s\<lparr>vq_avail_currect := ?k + 1\<rparr>"] by (simp add: avail_idx_def)
  then have ok: "request_ok s ?k" and ap: "\<And>k A. k \<in> set (pending_requests s) \<Longrightarrow> A \<in> set (controls s k) \<Longrightarrow> list_all (\<lambda>w. apart w A) (outputs s (request_at s ?k))"
    and ai: "list_all (\<lambda>w. apart w (queue_avail s + 2, 2)) (outputs s (request_at s ?k))"
    using assms(1) unfolding queue_ok_def list_all_iff by auto
  have "(req_hdr (request_at s ?k), 16) \<in> set (controls s ?k)" by (simp add: controls_def request_at_def Let_def)
  then have hd: "list_all (\<lambda>w. apart w (req_hdr (request_at s ?k), 16)) (marks s (request_at s ?k))"
    using ap [OF \<open>?k \<in> set (pending_requests s)\<close>] by (simp add: outputs_def)
  obtain s' where s': "handle_one s = Ret () s'" "(mem s', content (blk_file s')) = serve s ?k (mem s, content (blk_file s))" "vq_avail_currect s' = ?k + 1" "same_setup s s'"
    using handle_one_serves [OF ok hd refl] by blast
  have m': "mem s' = fst (serve s ?k (mem s, content (blk_file s)))" and c': "length (content (blk_file s)) \<le> length (content (blk_file s'))"
    using s'(2) serve_grows [of "content (blk_file s)" s ?k "mem s"] by (metis fst_conv, metis snd_conv)
  have sz: "snd A \<le> 2 ^ 64" if "A \<in> set (controls s k)" for A k using that by (auto simp: controls_def Let_def)
  have ag: "list_all (agree (mem s) (mem s')) (controls s k)" if "k \<in> set (pending_requests s)" for k
    using serve_agree [OF ap [OF that] sz ok] unfolding list_all_iff m' by blast
  have "agree (mem s) (mem s') (queue_avail s + 2, 2)" using serve_agree [OF ai _ ok] unfolding m' by simp
  then have ix: "avail_idx s' = avail_idx s"
    using peek_agree [of "mem s" "mem s'" "queue_avail s + 2" 2 0 2] by (simp add: avail_idx_def setup_frame [OF s'(4)])
  have p: "pending_requests s = ?k # pending_requests s'" by (rule pending_step [OF assms(2) s'(3) ix])
  have fr: "request_at s' k = request_at s k" "controls s' k = controls s k" "request_ok s' k" "serve s' k = serve s k" if "k \<in> set (pending_requests s')" for k
  proof -
    have k: "k \<in> set (pending_requests s)" using that p by simp
    show "request_at s' k = request_at s k" "controls s' k = controls s k" using request_frame [OF s'(4) ag [OF k]] by simp_all
    then show "serve s' k = serve s k" using serve_frame [OF s'(4)] by simp
    show "request_ok s' k" using assms(1) k request_ok_frame [OF _ s'(4) ag [OF k] c'] by (simp add: queue_ok_def list_all_iff)
  qed
  have "queue_ok s'"
    using assms(1) unfolding queue_ok_def p by (auto simp: list_all_iff fr setup_frame [OF s'(4)] outputs_frame [OF s'(4)]; blast)
  then show thesis using that [OF s'(1,2) _ s'(4) ix p] fr(4) by blast
qed

lemma foldl_serve_cong: "\<forall>k \<in> set ks. f k = g k \<Longrightarrow> foldl (\<lambda>x k. f k x) x ks = foldl (\<lambda>x k. g k x) x ks"
  by (induction ks arbitrary: x) simp_all

lemma queue_served:
  assumes "queue_ok s"
  shows "\<exists>s'. handle_request s = Some (Ret () s') \<and> (mem s', content (blk_file s')) = foldl (\<lambda>x k. serve s k x) (mem s, content (blk_file s)) (pending_requests s)
    \<and> vq_avail_currect s' = avail_idx s \<and> same_setup s s'"
  using assms
proof (induction "length (pending_requests s)" arbitrary: s)
  case 0
  then have "vq_avail_currect s = avail_idx s" "pending_requests s = []" by (simp_all add: pending_requests_def unat_eq_zero)
  moreover have "blk_ld 2 (queue_avail s + 2) s = Ret (peek 2 (queue_avail s + 2) (mem s)) s" using 0 by (simp add: queue_ok_def blk_ld_def)
  moreover have "ucast (avail_idx s) = peek 2 (queue_avail s + 2) (mem s)" by (rule ucast_avail_idx)
  ultimately show ?case by (subst handle_request.simps) (simp add: same_setup_def)
next
  case (Suc n)
  then have ne: "vq_avail_currect s \<noteq> avail_idx s" by (auto simp: pending_requests_def)
  obtain s' where s': "handle_one s = Ret () s'" "(mem s', content (blk_file s')) = serve s (vq_avail_currect s) (mem s, content (blk_file s))"
    "queue_ok s'" "same_setup s s'" "avail_idx s' = avail_idx s" "pending_requests s = vq_avail_currect s # pending_requests s'"
    "\<forall>k \<in> set (pending_requests s'). serve s' k = serve s k"
    using queue_step [OF Suc.prems ne] by blast
  have "n = length (pending_requests s')" using Suc.hyps(2) s'(6) by simp
  from Suc.hyps(1) [OF this s'(3)] obtain s'' where s'': "handle_request s' = Some (Ret () s'')"
    "(mem s'', content (blk_file s'')) = foldl (\<lambda>x k. serve s' k x) (mem s', content (blk_file s')) (pending_requests s')"
    "vq_avail_currect s'' = avail_idx s" "same_setup s' s''" using s'(5) by auto
  have "blk_ld 2 (queue_avail s + 2) s = Ret (peek 2 (queue_avail s + 2) (mem s)) s" using Suc.prems by (simp add: queue_ok_def blk_ld_def)
  moreover have "ucast (vq_avail_currect s) \<noteq> peek 2 (queue_avail s + 2) (mem s)"
    using ne ucast_avail_idx [of s] by (metis ucast_inject_u16)
  ultimately have "handle_request s = Some (Ret () s'')" using s'(1) s''(1) by (subst handle_request.simps) simp
  moreover have "(mem s'', content (blk_file s'')) = foldl (\<lambda>x k. serve s k x) (mem s, content (blk_file s)) (pending_requests s)"
    using s''(2) s'(2,6) foldl_serve_cong [OF s'(7)] by simp
  moreover have "same_setup s s''" using s'(4) s''(4) by (simp add: same_setup_def)
  ultimately show ?case using s''(3) by blast
qed

section \<open>What the driver sees\<close>

lemma notify_serves:
  assumes "queue_ok s"
  shows "\<exists>s'. virtio_blk_ioport_write set_irq VIRTIO_MMIO_QUEUE_NOTIFY 0 sz s = Some (set_line set_irq True s')
    \<and> (mem s', content (blk_file s')) = foldl (\<lambda>x k. serve s k x) (mem s, content (blk_file s)) (pending_requests s)
    \<and> vq_avail_currect s' = avail_idx s \<and> irq_line s' = irq_line s"
proof -
  obtain s' where s': "handle_request s = Some (Ret () s')" "(mem s', content (blk_file s')) = foldl (\<lambda>x k. serve s k x) (mem s, content (blk_file s)) (pending_requests s)"
    "vq_avail_currect s' = avail_idx s" "same_setup s s'"
    using queue_served [OF assms] by blast
  have "virtio_blk_ioport_write set_irq VIRTIO_MMIO_QUEUE_NOTIFY 0 sz s = Some (set_line set_irq True s')"
    by (simp add: virtio_blk_ioport_write_def const_defs s'(1))
  then show ?thesis using s' by (auto simp: same_setup_def)
qed

text \<open>
  (C37) The driver notifies the device of a queue whose pending requests are well formed and whose structures the device does not overwrite: the
  loop over the queue ends, the memory and the disk are those after all pending requests in their order, the device is up to
  date with the queue, and then it raises its interrupt.
\<close>

theorem blk_queue_served:
  assumes "queue_ok s"
  shows "\<exists>s'. virtio_blk_ioport_write set_irq VIRTIO_MMIO_QUEUE_NOTIFY 0 sz s = Some (set_line set_irq True s')
    \<and> (mem s', content (blk_file s')) = foldl (\<lambda>x k. serve s k x) (mem s, content (blk_file s)) (pending_requests s)
    \<and> vq_avail_currect s' = avail_idx s \<and> irq_line s' = irq_line s"
  by (rule notify_serves [OF assms])

lemma overwrite_read: "length bs = n \<Longrightarrow> take n (drop p (overwrite p bs c)) = bs"
  by (simp add: overwrite_def)

lemma bytes_at_length [simp]: "length (bytes_at m (a, n)) = n"
  by (simp add: bytes_at_def)

text \<open>
  (C38) A request that writes and one that then reads the same sectors, in one queue: the buffer of the second holds what was in the buffer of the
  first, and so does the disk.
\<close>

theorem blk_write_read:
  assumes "queue_ok s" and "pending_requests s = [k, l]" and "req_type (request_at s k) = VIRTIO_BLK_T_OUT" and "req_type (request_at s l) = VIRTIO_BLK_T_IN"
    and "req_sector (request_at s l) = req_sector (request_at s k)" and "req_len (request_at s l) = req_len (request_at s k)"
    and "list_all (\<lambda>w. apart w (req_data (request_at s k), unat (req_len (request_at s k)))) (marks s (request_at s k))"
  defines "n \<equiv> unat (req_len (request_at s k))" and "p \<equiv> 512 * unat (req_sector (request_at s k))"
    and "sent \<equiv> bytes_at (mem s) (req_data (request_at s k), unat (req_len (request_at s k)))"
  shows "\<exists>s'. virtio_blk_ioport_write set_irq VIRTIO_MMIO_QUEUE_NOTIFY 0 sz s = Some (set_line set_irq True s')
    \<and> bytes_at (mem s') (req_data (request_at s l), n) = sent \<and> take n (drop p (content (blk_file s'))) = sent"
proof -
  let ?r = "request_at s k" and ?q = "request_at s l"
  let ?m = "mark s k ?r (mem s)" and ?d = "overwrite p sent (content (blk_file s))"
  have n: "length sent = n" "n \<le> 2 ^ 64" using unsigned_less [of "req_len ?r", where 'a = nat] by (simp_all add: sent_def n_def)
  have "bytes_at ?m (req_data ?r, n) = sent"
    unfolding sent_def n_def by (rule bytes_at_agree, rule agree_mark [OF assms(7)]) (use n(2) in \<open>simp add: n_def\<close>)
  then have "serve s k (mem s, content (blk_file s)) = (?m, ?d)"
    using assms(3) by (simp add: serve_def Let_def p_def n_def VIRTIO_BLK_T_IN_def VIRTIO_BLK_T_OUT_def)
  moreover have "serve s l (?m, ?d) = (store_bytes (req_data ?q) sent (mark s l ?q ?m), ?d)"
    using assms(4-6) overwrite_read [OF n(1)] by (simp add: serve_def Let_def p_def n_def)
  ultimately have "foldl (\<lambda>x k. serve s k x) (mem s, content (blk_file s)) (pending_requests s) = (store_bytes (req_data ?q) sent (mark s l ?q ?m), ?d)"
    using assms(2) by simp
  moreover obtain s' where "virtio_blk_ioport_write set_irq VIRTIO_MMIO_QUEUE_NOTIFY 0 sz s = Some (set_line set_irq True s')"
    "(mem s', content (blk_file s')) = foldl (\<lambda>x k. serve s k x) (mem s, content (blk_file s)) (pending_requests s)"
    using notify_serves [OF assms(1)] by blast
  ultimately show ?thesis using n bytes_at_store [of sent n] overwrite_read [OF n(1)] by auto
qed

text \<open>Where a request is on the disk: \<open>fseek\<close> of an offset that is computed in 64 bits.\<close>

definition disk_position :: "'c blk \<Rightarrow> u64 \<Rightarrow> nat" where
  "disk_position s sector = (let p = 512 * unat sector mod 2 ^ 64 in if p < 2 ^ 63 then p else fpos (blk_file s))"

lemma fseek_position: "fpos (fseek (sector * VIRTIO_SECTOR_SIZE) (blk_file s)) = disk_position s sector"
proof -
  have "unat (sector * VIRTIO_SECTOR_SIZE) = 512 * unat sector mod 2 ^ 64"
    by (simp add: VIRTIO_SECTOR_SIZE_def unat_word_ariths mult.commute)
  then show ?thesis unfolding fseek_def disk_position_def Let_def word_less_nat_alt by simp
qed

lemma fseek_content [simp]: "content (fseek off f) = content f"
  by (simp add: fseek_def)

text \<open>
  (C40) A read request of length zero, or one that ends after the end of the disk, ends the emulator. Its position on the disk is 512 times its sector
  number in 64-bit arithmetic: a sector number of \<open>2 ^ 55\<close> or more wraps around. If the product is negative as a \<open>long\<close>, the position is the one where the last
  request left the file.
\<close>

theorem blk_short_read_exits:
  assumes "is_mapped 2 (queue_avail s + 2) s" and "vq_avail_currect s = k" and "k \<noteq> avail_idx s" and "formed s k"
    and "list_all (\<lambda>w. apart w (req_hdr (request_at s k), 16)) (marks s (request_at s k))"
    and "req_type (request_at s k) = VIRTIO_BLK_T_IN"
    and "is_mapped (unat (req_len (request_at s k))) (req_data (request_at s k)) s"
    and "req_len (request_at s k) = 0 \<or> length (content (blk_file s)) < disk_position s (req_sector (request_at s k)) + unat (req_len (request_at s k))"
  shows "\<exists>s'. virtio_blk_ioport_write set_irq VIRTIO_MMIO_QUEUE_NOTIFY 0 sz s = Some (Exit s')"
proof -
  let ?r = "request_at s k"
  let ?t = "s\<lparr>mem := mark s k ?r (mem s), vq_avail_currect := k + 1\<rparr>"
  have "is_mapped i (req_data ?r) s" if "i \<le> unat (req_len ?r)" for i
    using is_mapped_sub [OF assms(7), of 0 i] that by simp
  moreover have "req_len ?r = 0 \<or> length (content (blk_file s)) - disk_position s (req_sector ?r) < unat (req_len ?r)"
    using assms(8) unat_gt_0 [of "req_len ?r"] by auto
  ultimately have "\<exists>s'. blk_file_read (req_sector ?r) (req_len ?r) (req_data ?r) (?t\<lparr>num_bytes_read := num_bytes_read ?t + req_len ?r\<rparr>) = Exit s'"
    using fseek_position [of "req_sector ?r" s] by (auto simp: blk_file_read_def Let_def)
  then obtain s' where "handle_one s = Exit s'"
    using handle_one_transfers [OF assms(4,2)] transfer_cases [OF assms(4,5) refl] assms(6) by auto
  moreover have "blk_ld 2 (queue_avail s + 2) s = Ret (peek 2 (queue_avail s + 2) (mem s)) s" using assms(1) by (simp add: blk_ld_def)
  moreover have "ucast (vq_avail_currect s) \<noteq> peek 2 (queue_avail s + 2) (mem s)"
    using assms(2,3) ucast_avail_idx [of s] by (metis ucast_inject_u16)
  ultimately have "handle_request s = Some (Exit s')" by (subst handle_request.simps) simp
  then show ?thesis by (simp add: virtio_blk_ioport_write_def const_defs)
qed

text \<open>
  (C39) On the RISC-V machine, where the interrupt of the device is source 2 of the interrupt controller: once the requests are served, the source is
  pending, enabled or not, and, if the guest has enabled it for the supervisor, the supervisor external interrupt of the core is pending.
\<close>

theorem blk_interrupts_core:
  assumes "queue_ok s"
  shows "\<exists>s'. virtio_blk_ioport_write (riscv_plic_irq_request 2) VIRTIO_MMIO_QUEUE_NOTIFY 0 sz s = Some (Ret () s')
    \<and> vq_avail_currect s' = avail_idx s \<and> bit (pending (fst (irq_line s')) 0) 2
    \<and> (bit (enable (fst (irq_line s)) 1 0) 2 \<longrightarrow> bit (mip (snd (irq_line s'))) IRQ_S_EXT)"
proof -
  obtain s1 where s1: "virtio_blk_ioport_write (riscv_plic_irq_request 2) VIRTIO_MMIO_QUEUE_NOTIFY 0 sz s = Some (set_line (riscv_plic_irq_request 2) True s1)"
    "vq_avail_currect s1 = avail_idx s" "irq_line s1 = irq_line s"
    using notify_serves [OF assms] by blast
  let ?w = "(riscv_plic_set_pending 2 True (fst (irq_line s)), snd (irq_line s))"
  have p: "bit (pending (fst ?w) 0) 2" by (simp add: riscv_plic_set_pending_def atomic_set_masked_def bit_simps)
  have "enable (fst ?w) = enable (fst (irq_line s))" by (simp add: riscv_plic_set_pending_def)
  then have "enable (fst ?w) 1 0 AND pending (fst ?w) 0 \<noteq> 0" if "bit (enable (fst (irq_line s)) 1 0) 2"
    using p that by (metis bit_and_iff bit_0_eq bot_apply bot_bool_def)
  moreover obtain v where v: "riscv_plic_update ?w = Ret () v" "fst v = fst ?w" "plic_line v"
    using plic_update_returns [of ?w] by (cases "riscv_plic_update ?w") auto
  ultimately have "bit (mip (snd v)) IRQ_S_EXT" if "bit (enable (fst (irq_line s)) 1 0) 2" using that by (cases v) (simp add: plic_line_def)
  then show ?thesis using s1 v p by (auto simp: set_line_def riscv_plic_irq_request_def)
qed

section \<open>An example\<close>

text \<open>A queue of eight descriptors with two requests: four bytes are written to the first sector, then read back.\<close>

definition blk_example :: "'c \<Rightarrow> 'c blk" where
  "blk_example c =
    \<lparr>device_features = 0x100000000, driver_features = 0, virtio_mmio_device_features_sel = 0, virtio_mmio_driver_features_sel = 0,
     blk_status = 0, virtio_mmio_queue_sel = 0, queue_ready = 1, queue_num = 8, queue_desc = 0x1000, queue_avail = 0x2000, queue_used = 0x3000,
     vq_avail_currect = 0, vq_used_currect = 0, capacity = 6, num_bytes_read = 0, num_bytes_write = 0,
     blk_file = \<lparr>content = [9, 9, 9, 9, 9, 9], fpos = 0\<rparr>,
     mem = (\<lambda>_. 0)(0x2002 := 2, 0x2006 := 3,
       0x1001 := 0x40, 0x100e := 1, 0x1011 := 0x50, 0x1018 := 4, 0x101e := 2, 0x1021 := 0x70,
       0x1030 := 0x10, 0x1031 := 0x40, 0x103e := 4, 0x1041 := 0x60, 0x1048 := 4, 0x104e := 5, 0x1050 := 1, 0x1051 := 0x70,
       0x4000 := 1, 0x5000 := 1, 0x5001 := 2, 0x5002 := 3, 0x5003 := 4),
     mapped = (\<lambda>_. True), irq_line = c\<rparr>"

lemma example_pending: "pending_requests (blk_example c) = [0, 1]"
  by (simp add: pending_requests_def avail_idx_def blk_example_def peek_def upt_rec)

lemma example_requests:
  "request_at (blk_example c) 0 = \<lparr>req_slot = 0, req_head = 0, req_hdr = 0x4000, req_len = 4, req_data = 0x5000, req_status = 0x7000, req_type = 1, req_sector = 0\<rparr>"
  "request_at (blk_example c) 1 = \<lparr>req_slot = 1, req_head = 3, req_hdr = 0x4010, req_len = 4, req_data = 0x6000, req_status = 0x7001, req_type = 0, req_sector = 0\<rparr>"
  by code_simp+

lemma example_controls:
  "controls (blk_example c) 0 = [(0x2004, 2), (0x1000, 16), (0x1010, 16), (0x1020, 16), (0x4000, 16)]"
  "controls (blk_example c) 1 = [(0x2006, 2), (0x1030, 16), (0x1040, 16), (0x1050, 16), (0x4010, 16)]"
  "chained (blk_example c) 0" "chained (blk_example c) 1"
  by code_simp+

lemma example_marks:
  "marks (blk_example c) (request_at (blk_example c) 0) = [(0x3004, 4), (0x3008, 4), (0x7000, 1), (0x3002, 2)]"
  "marks (blk_example c) (request_at (blk_example c) 1) = [(0x300c, 4), (0x3010, 4), (0x7001, 1), (0x3002, 2)]"
  by (simp_all add: marks_def example_requests used_ring_at_def) (simp_all add: blk_example_def)

lemma apart_before: "0 < n \<Longrightarrow> unat a + n \<le> unat b \<Longrightarrow> unat b + m \<le> 2 ^ 64 \<Longrightarrow> apart (a, n) (b, m)"
  by (auto simp: apart_def unat_sub_if' word_le_nat_alt)

lemma apart_after: "0 < m \<Longrightarrow> unat b + m \<le> unat a \<Longrightarrow> unat a + n \<le> 2 ^ 64 \<Longrightarrow> apart (a, n) (b, m)"
  by (auto simp: apart_def unat_sub_if' word_le_nat_alt)

lemma example_ok: "queue_ok (blk_example c)"
proof -
  have m: "is_mapped n a (blk_example c)" for n a by (simp add: is_mapped_def blk_example_def list_all_iff)
  have c: "length (content (blk_file (blk_example c))) = 6" "queue_avail (blk_example c) = 0x2000" by (simp_all add: blk_example_def)
  have "request_ok (blk_example c) 0" "request_ok (blk_example c) 1"
    unfolding request_ok_def formed_def by (simp_all add: m example_controls example_requests fits_def c VIRTIO_BLK_T_IN_def VIRTIO_BLK_T_OUT_def list_all_iff split_beta)
  then show ?thesis
    unfolding queue_ok_def example_pending outputs_def
    by (simp add: m c example_controls example_marks) (simp add: example_requests VIRTIO_BLK_T_IN_def apart_before apart_after)
qed

theorem blk_queue_served_witness:
  "\<exists>s'. virtio_blk_ioport_write (\<lambda>l c. Ret () (l # c)) VIRTIO_MMIO_QUEUE_NOTIFY 0 4 (blk_example [True]) = Some (set_line (\<lambda>l c. Ret () (l # c)) True s')
    \<and> vq_avail_currect s' = 2"
proof -
  have "avail_idx (blk_example [True]) = 2" by code_simp
  then show ?thesis using blk_queue_served [OF example_ok [of "[True]"], of "\<lambda>l c. Ret () (l # c)" 4] by auto
qed

theorem blk_write_read_witness:
  "\<exists>s'. virtio_blk_ioport_write (\<lambda>l c. Ret () (l # c)) VIRTIO_MMIO_QUEUE_NOTIFY 0 4 (blk_example [True]) = Some (set_line (\<lambda>l c. Ret () (l # c)) True s')
    \<and> bytes_at (mem s') (0x6000, 4) = [1, 2, 3, 4] \<and> take 4 (content (blk_file s')) = [1, 2, 3, 4]"
proof -
  have b: "bytes_at (mem (blk_example [True])) (0x5000, 4) = [1, 2, 3, 4]" by code_simp
  have a: "list_all (\<lambda>w. apart w (0x5000, 4)) (marks (blk_example [True]) (request_at (blk_example [True]) 0))"
    by (simp add: example_marks apart_before apart_after)
  show ?thesis
    using blk_write_read [OF example_ok [of "[True]"] example_pending, of "\<lambda>l c. Ret () (l # c)" 4] a b
    by (simp add: example_requests VIRTIO_BLK_T_IN_def VIRTIO_BLK_T_OUT_def)
qed

theorem blk_short_read_exits_witness:
  "\<exists>s'. virtio_blk_ioport_write (\<lambda>l c. Ret () c) VIRTIO_MMIO_QUEUE_NOTIFY 0 4 ((blk_example ())\<lparr>vq_avail_currect := 1, blk_file := \<lparr>content = [9], fpos = 0\<rparr>\<rparr>) = Some (Exit s')"
proof -
  let ?e = "blk_example ()"
  let ?s = "?e\<lparr>vq_avail_currect := 1, blk_file := \<lparr>content = [9], fpos = 0\<rparr>\<rparr>"
  have fr: "same_setup ?e ?s" "list_all (agree (mem ?e) (mem ?s)) (controls ?e 1)" by (simp_all add: same_setup_def list_all_iff)
  note r = request_frame [OF fr] and f = setup_frame [OF fr(1)]
  have k: "marks ?s = marks ?e" by (rule ext) (simp add: marks_def f)
  have e: "is_mapped n a ?e" for n a by (simp add: is_mapped_def blk_example_def list_all_iff)
  then have m: "is_mapped n a ?s" for n a by (simp add: f)
  have "avail_idx ?s = 2" by code_simp
  moreover have "formed ?s 1" by (simp add: formed_def m e r k example_controls example_marks)
  moreover have "list_all (\<lambda>w. apart w (req_hdr (request_at ?s 1), 16)) (marks ?s (request_at ?s 1))"
    by (simp add: r k example_marks) (simp add: example_requests apart_before apart_after)
  ultimately show ?thesis
    by (intro blk_short_read_exits [of ?s 1]) (simp_all add: m e r example_requests VIRTIO_BLK_T_IN_def disk_position_def)
qed

theorem blk_interrupts_core_witness:
  "\<exists>s'. virtio_blk_ioport_write (riscv_plic_irq_request 2) VIRTIO_MMIO_QUEUE_NOTIFY 0 4
      (blk_example ((fst plic_example)\<lparr>enable := \<lambda>_ _. 4\<rparr>, snd plic_example)) = Some (Ret () s')
      \<and> bit (pending (fst (irq_line s')) 0) 2 \<and> bit (mip (snd (irq_line s'))) IRQ_S_EXT"
proof -
  let ?c = "((fst plic_example)\<lparr>enable := \<lambda>_ _. 4\<rparr>, snd plic_example)"
  have "bit (enable (fst (irq_line (blk_example ?c))) 1 0) 2" by (simp add: blk_example_def)
  then show ?thesis using blk_interrupts_core [OF example_ok [of ?c], of 4] by blast
qed

end
