(* ===== verification/RV_RAM.thy ===== *)
theory RV_RAM
  imports RV_State
begin

text \<open>
  The RAM of the RISC-V build: the address map of \<open>main.c\<close> and the accessors of \<open>riscv64/cpu.h\<close>, byte by byte in little-endian order. An access any
  byte of which \<open>alloc_ram\<close> does not map is \<open>Crash\<close>.
\<close>

definition SZ_1G_rv :: u64 where "SZ_1G_rv = 0x40000000"
definition SZ_2G_rv :: u64 where "SZ_2G_rv = 0x80000000"

definition addr_in_ram_rv :: "'d rv_machine \<Rightarrow> u64 \<Rightarrow> bool" where
  "addr_in_ram_rv env pa = (pa \<ge> SZ_1G_rv \<and> pa < ram_size env + SZ_2G_rv)"

definition addr_range_in_ram_rv :: "'d rv_machine \<Rightarrow> u64 \<Rightarrow> u64 \<Rightarrow> bool" where
  "addr_range_in_ram_rv env begin_addr end_addr = (begin_addr \<ge> SZ_1G_rv \<and> end_addr \<le> ram_size env + SZ_2G_rv)"

definition is_io_rv :: "u64 \<Rightarrow> bool" where
  "is_io_rv ha = (ha < 0x40000000)"

definition ram_ok_rv :: "nat \<Rightarrow> u64 \<Rightarrow> 'd rv_machine \<Rightarrow> bool" where
  "ram_ok_rv n addr env = list_all (\<lambda>i. addr_in_ram_rv env (addr + of_nat i)) [0..<n]"

definition ram_bytes_rv :: "nat \<Rightarrow> u64 \<Rightarrow> 'd rv_machine \<Rightarrow> u64" where
  "ram_bytes_rv n addr env = le_load (map (\<lambda>i. ram env (addr + of_nat i)) [0..<n])"

definition ram_ld_rv :: "nat \<Rightarrow> u64 \<Rightarrow> 'd rv_machine \<Rightarrow> (u64, 'd rv_machine) outcome" where
  "ram_ld_rv n addr env = (if ram_ok_rv n addr env then Ret (ram_bytes_rv n addr env) env else Crash)"

definition ram_st_rv :: "nat \<Rightarrow> u64 \<Rightarrow> u64 \<Rightarrow> 'd rv_machine \<Rightarrow> (unit, 'd rv_machine) outcome" where
  "ram_st_rv n addr data env =
    (if ram_ok_rv n addr env then Ret () (env\<lparr>ram := store_bytes addr (le_bytes n data) (ram env)\<rparr>) else Crash)"

definition ram_ldb_rv :: "u64 \<Rightarrow> 'd rv_machine \<Rightarrow> (u64, 'd rv_machine) outcome" where
  "ram_ldb_rv addr env = bind_out (ram_ld_rv 1 addr env) (\<lambda>v. Ret (sext 8 v))"

definition ram_ldh_rv :: "u64 \<Rightarrow> 'd rv_machine \<Rightarrow> (u64, 'd rv_machine) outcome" where
  "ram_ldh_rv addr env = bind_out (ram_ld_rv 2 addr env) (\<lambda>v. Ret (sext 16 v))"

definition ram_ldw_rv :: "u64 \<Rightarrow> 'd rv_machine \<Rightarrow> (u64, 'd rv_machine) outcome" where
  "ram_ldw_rv addr env = bind_out (ram_ld_rv 4 addr env) (\<lambda>v. Ret (sext 32 v))"

definition ram_ldd_rv :: "u64 \<Rightarrow> 'd rv_machine \<Rightarrow> (u64, 'd rv_machine) outcome" where
  "ram_ldd_rv addr env = ram_ld_rv 8 addr env"

definition ram_lduh_rv :: "u64 \<Rightarrow> 'd rv_machine \<Rightarrow> (u64, 'd rv_machine) outcome" where
  "ram_lduh_rv addr env = ram_ld_rv 2 addr env"

definition ram_stb_rv :: "u64 \<Rightarrow> u64 \<Rightarrow> 'd rv_machine \<Rightarrow> (unit, 'd rv_machine) outcome" where
  "ram_stb_rv addr data env = ram_st_rv 1 addr data env"

definition ram_sth_rv :: "u64 \<Rightarrow> u64 \<Rightarrow> 'd rv_machine \<Rightarrow> (unit, 'd rv_machine) outcome" where
  "ram_sth_rv addr data env = ram_st_rv 2 addr data env"

definition ram_stw_rv :: "u64 \<Rightarrow> u64 \<Rightarrow> 'd rv_machine \<Rightarrow> (unit, 'd rv_machine) outcome" where
  "ram_stw_rv addr data env = ram_st_rv 4 addr data env"

definition ram_std_rv :: "u64 \<Rightarrow> u64 \<Rightarrow> 'd rv_machine \<Rightarrow> (unit, 'd rv_machine) outcome" where
  "ram_std_rv addr data env = ram_st_rv 8 addr data env"

lemmas rv_ram_defs = ram_ldb_rv_def ram_ldh_rv_def ram_ldw_rv_def ram_ldd_rv_def ram_lduh_rv_def
  ram_stb_rv_def ram_sth_rv_def ram_stw_rv_def ram_std_rv_def

lemma ram_ok_rv_update [simp]: "ram_ok_rv n addr (env\<lparr>ram := m\<rparr>) = ram_ok_rv n addr env"
  by (simp add: ram_ok_rv_def addr_in_ram_rv_def)

lemma ram_bytes_after_st:
  assumes "n \<le> 8"
  shows "ram_bytes_rv n addr (env\<lparr>ram := store_bytes addr (le_bytes n data) m\<rparr>) = take_bit (8 * n) data"
  using store_bytes_same [of "le_bytes n data" addr m] assms
  by (simp add: ram_bytes_rv_def le_load_bytes)

lemma ram_ld_after_st_rv:
  assumes "ram_st_rv n addr data env = Ret () env'" and "n \<le> 8"
  shows "ram_ld_rv n addr env' = Ret (take_bit (8 * n) data) env'"
  using assms by (auto simp: ram_st_rv_def ram_ld_rv_def ram_bytes_after_st split: if_splits)

section \<open>Stored words\<close>

lemma aligned_diff:
  fixes a b :: u64
  assumes "8 dvd unat a" and "8 dvd unat b" and "a \<noteq> b" and "i < 8"
  shows "8 \<le> unat (a + of_nat i - b)"
proof -
  have d: "8 dvd unat (a - b)"
  proof (cases "b \<le> a")
    case True
    then show ?thesis using assms(1,2) by (simp add: unat_sub dvd_diff_nat)
  next
    case False
    then have "unat (a - b) = unat a + 2 ^ 64 - unat b" by (simp add: unat_sub_if' word_le_nat_alt)
    moreover have "8 dvd unat a + 2 ^ 64 - unat b" using assms(1,2) by (intro dvd_diff_nat dvd_add) simp_all
    ultimately show ?thesis by simp
  qed
  moreover have "unat (a - b) \<noteq> 0" using assms(3) by (simp add: unat_eq_zero)
  ultimately have ge: "8 \<le> unat (a - b)" by (meson dvd_imp_le gr0I)
  obtain q where q: "unat (a - b) = 8 * q" using d by (elim dvdE)
  then have "q < 2 ^ 61" using unsigned_less [of "a - b", where 'a = nat] by simp
  then have "unat (a - b) + i < 2 ^ 64" using q assms(4) by simp
  then have "unat (a - b + of_nat i) = unat (a - b) + i"
    using assms(4) by (subst unat_add_lem [THEN iffD1]) (simp_all add: unat_of_nat)
  then show ?thesis using ge by (simp add: algebra_simps)
qed

lemma aligned_store_load:
  assumes "8 dvd unat a" and "8 dvd unat b"
  shows "ram_bytes_rv 8 a (env\<lparr>ram := store_bytes b (le_bytes 8 v) m\<rparr>) = (if a = b then v else ram_bytes_rv 8 a (env\<lparr>ram := m\<rparr>))"
proof (cases "a = b")
  case True
  then show ?thesis by (simp add: ram_bytes_after_st take_bit_word_eq_self)
next
  case False
  have "store_bytes b (le_bytes 8 v) m (a + of_nat i) = m (a + of_nat i)" if "i < 8" for i
    using aligned_diff [OF assms False that] by (intro store_bytes_other) simp
  then have "map (\<lambda>i. store_bytes b (le_bytes 8 v) m (a + of_nat i)) [0..<8] = map (\<lambda>i. m (a + of_nat i)) [0..<8]"
    by simp
  then show ?thesis using False by (simp add: ram_bytes_rv_def del: map_eq_conv)
qed

lemma ram_ok_range:
  "n < 2 ^ 63 \<Longrightarrow> SZ_1G_rv \<le> a \<Longrightarrow> unat a + n \<le> unat (ram_size env + SZ_2G_rv) \<Longrightarrow> ram_ok_rv n a env"
  unfolding ram_ok_rv_def addr_in_ram_rv_def list_all_iff
proof (intro ballI)
  fix i assume h: "n < 2 ^ 63" "SZ_1G_rv \<le> a" "unat a + n \<le> unat (ram_size env + SZ_2G_rv)" "i \<in> set [0..<n]"
  then have i: "i < n" by simp
  have "unat a + i < 2 ^ 64" using h(3) i unsigned_less [of "ram_size env + SZ_2G_rv", where 'a = nat] by simp
  then have u: "unat (a + of_nat i) = unat a + i"
    using i h(1) by (subst unat_add_lem [THEN iffD1]) (simp_all add: unat_of_nat)
  show "SZ_1G_rv \<le> a + of_nat i \<and> a + of_nat i < ram_size env + SZ_2G_rv"
    using h(2,3) i by (simp add: word_le_nat_alt word_less_nat_alt u)
qed

end
