(* ===== verification/RV_MMU.thy ===== *)
theory RV_MMU
  imports RV_Trap RV_RAM
begin

text \<open>
  The MMU of the RISC-V build (\<open>riscv64/cpu_helper.c\<close>, \<open>internals.h\<close>, \<open>cpu.h\<close>, \<open>cpu.c\<close>): the page walk \<open>get_physical_address\<close>, the translation buffer with
  its fill and its flush, the MMU exceptions, and \<open>trans_pa\<close> on which all accesses rest.

  \<^item> Single-stage translation of the 64-bit core: without the hypervisor extension \<open>two_stage\<close> is false, and \<open>MXL\<close> and \<open>SXL\<close> keep the value of \<open>cpu_reset\<close>,
    so the branches for 32 bits are left out. \<open>is_debug\<close> and \<open>is_probe\<close> are false on every path that is modelled.
  \<^item> \<open>walk\<close> is the loop over the levels up to \<open>goto leaf\<close>; its argument is the number of levels left, so that \<open>ptshift\<close> is \<open>ptidxbits\<close> times the levels below.
    \<open>leaf_prot\<close> is the part from \<open>leaf\<close> to the access check, \<open>leaf_done\<close> the rest. One host thread changes the memory, so the
    compare-and-swap of a page table entry succeeds and \<open>goto restart\<close> is not taken.
  \<^item> A page table entry is read without a check that it is in RAM: outside of it the host faults (\<open>Crash\<close>).
\<close>

section \<open>MMU indices\<close>

abbreviation MMUIdx_U :: nat where "MMUIdx_U \<equiv> 0"
abbreviation MMUIdx_S :: nat where "MMUIdx_S \<equiv> 1"
abbreviation MMUIdx_S_SUM :: nat where "MMUIdx_S_SUM \<equiv> 2"
abbreviation MMUIdx_M :: nat where "MMUIdx_M \<equiv> 3"

definition mmuidx_priv :: "nat \<Rightarrow> u64" where
  "mmuidx_priv mmu_idx = (let ret = mmu_idx mod 4 in if ret = MMUIdx_S_SUM then PRV_S else of_nat ret)"

definition mmuidx_sum :: "nat \<Rightarrow> bool" where
  "mmuidx_sum mmu_idx = (mmu_idx mod 4 = MMUIdx_S_SUM)"

definition is_sstack_idx :: "nat \<Rightarrow> bool" where
  "is_sstack_idx mmu_idx = odd (mmu_idx div 8)"

definition riscv_env_mmu_index :: "'d rv_machine \<Rightarrow> bool \<Rightarrow> nat" where
  "riscv_env_mmu_index env ifetch =
    (let mode = priv env in
     if ifetch then unat mode
     else
       let mode = (if mode = PRV_M \<and> get_field (mstatus env) MSTATUS_MPRV \<noteq> 0 then get_field (mstatus env) MSTATUS_MPP else mode)
       in if mode = PRV_S \<and> get_field (mstatus env) MSTATUS_SUM \<noteq> 0 then MMUIdx_S_SUM else unat mode)"

text \<open>\<open>None\<close>: \<open>g_assert_not_reached\<close>.\<close>

definition cpu_get_bcfien :: "'d rv_machine \<Rightarrow> bool option" where
  "cpu_get_bcfien env =
    (if \<not> ext_zicfiss (cfg env) then Some False
     else if priv env = PRV_U then Some (senvcfg env AND SENVCFG_SSE \<noteq> 0)
     else if priv env = PRV_S then Some (menvcfg env AND MENVCFG_SSE \<noteq> 0)
     else if priv env = PRV_M then Some False
     else None)"

section \<open>The page walk\<close>

datatype translate_ret = TRANSLATE_SUCCESS | TRANSLATE_FAIL | TRANSLATE_PMP_FAIL

definition get_physical_address_pmp :: "'d rv_machine \<Rightarrow> u64 \<Rightarrow> MMUAccessType \<Rightarrow> u64 \<Rightarrow> translate_ret \<times> u32" where
  "get_physical_address_pmp env addr access_type mode = (TRANSLATE_SUCCESS, PAGE_READ_rv OR PAGE_WRITE_rv OR PAGE_EXEC_rv)"

datatype walk_result = Walk_crash | Walk_ret translate_ret | Walk_leaf u64 u64 u64 nat

definition pbmte :: "'d rv_machine \<Rightarrow> bool" where
  "pbmte env = (menvcfg env AND MENVCFG_PBMTE \<noteq> 0)"

definition adue :: "'d rv_machine \<Rightarrow> bool" where
  "adue env = (if ext_svadu (cfg env) then menvcfg env AND MENVCFG_ADUE \<noteq> 0 else \<not> ext_svade (cfg env))"

datatype pte_kind = Fail_pte | Leaf_pte | Inner_pte

definition pte_kind_of :: "'d rv_machine \<Rightarrow> u64 \<Rightarrow> pte_kind" where
  "pte_kind_of env pte =
    (if pte AND PTE_RESERVED \<noteq> 0 then Fail_pte
     else if \<not> pbmte env \<and> pte AND PTE_PBMT \<noteq> 0 then Fail_pte
     else if \<not> ext_svnapot (cfg env) \<and> pte AND PTE_N \<noteq> 0 then Fail_pte
     else if pte AND PTE_V = 0 then Fail_pte
     else if pte AND (PTE_R OR PTE_W OR PTE_X) \<noteq> 0 then Leaf_pte
     else if pte AND (PTE_D OR PTE_A OR PTE_U OR PTE_ATTR) \<noteq> 0 then Fail_pte
     else Inner_pte)"

fun walk :: "'d rv_machine \<Rightarrow> u64 \<Rightarrow> nat \<Rightarrow> u64 \<Rightarrow> nat \<Rightarrow> u64 \<Rightarrow> walk_result" where
  "walk env addr ptidxbits ptesize 0 base = Walk_ret TRANSLATE_FAIL"
| "walk env addr ptidxbits ptesize (Suc n) base =
    (let ptshift = n * ptidxbits;
         idx = drop_bit (PGSHIFT + ptshift) addr AND (push_bit ptidxbits 1 - 1);
         pte_addr = base + idx * ptesize
     in if fst (get_physical_address_pmp env pte_addr MMU_DATA_LOAD PRV_S) \<noteq> TRANSLATE_SUCCESS then Walk_ret TRANSLATE_PMP_FAIL
        else
          case ram_ldd_rv pte_addr env of
            Ret pte _ \<Rightarrow>
              let ppn = drop_bit PTE_PPN_SHIFT (pte AND PTE_PPN_MASK) in
              (case pte_kind_of env pte of
                 Fail_pte \<Rightarrow> Walk_ret TRANSLATE_FAIL
               | Leaf_pte \<Rightarrow> Walk_leaf pte ppn pte_addr n
               | Inner_pte \<Rightarrow> walk env addr ptidxbits ptesize n (push_bit PGSHIFT ppn))
          | _ \<Rightarrow> Walk_crash)"

text \<open>The permissions of a leaf, or the failure; \<open>None\<close>: an assertion.\<close>

definition leaf_prot :: "'d rv_machine \<Rightarrow> MMUAccessType \<Rightarrow> nat \<Rightarrow> u64 \<Rightarrow> u64 \<Rightarrow> nat \<Rightarrow> (translate_ret + u32) option" where
  "leaf_prot env access_type mmu_idx pte ppn ptshift =
    (let mode = mmuidx_priv mmu_idx;
         rwx = pte AND (PTE_R OR PTE_W OR PTE_X);
         finish = (\<lambda>sstack_page rwx.
           let prot = (if rwx AND PTE_R \<noteq> 0 then PAGE_READ_rv else 0);
               prot = (if rwx AND PTE_W \<noteq> 0 then prot OR PAGE_WRITE_rv else prot);
               prot = (if rwx AND PTE_X \<noteq> 0 then
                         (if get_field (mstatus env) MSTATUS_MXR \<noteq> 0 then prot OR PAGE_READ_rv else prot) OR PAGE_EXEC_rv
                       else prot)
           in if pte AND PTE_U \<noteq> 0 \<and> mode \<noteq> PRV_U \<and> \<not> mmuidx_sum mmu_idx then Inl TRANSLATE_FAIL
              else if pte AND PTE_U = 0 \<and> mode \<noteq> PRV_S then Inl TRANSLATE_FAIL
              else
                let prot = (if pte AND PTE_U \<noteq> 0 \<and> mode \<noteq> PRV_U then prot AND (PAGE_READ_rv OR PAGE_WRITE_rv) else prot)
                in if \<not> bit prot (access_number access_type)
                   then Inl (if sstack_page then TRANSLATE_PMP_FAIL else TRANSLATE_FAIL)
                   else Inr prot)
     in if ppn AND (push_bit ptshift 1 - 1) \<noteq> 0 then Some (Inl TRANSLATE_FAIL)
        else if \<not> pbmte env \<and> pte AND PTE_PBMT \<noteq> 0 then Some (Inl TRANSLATE_FAIL)
        else if rwx = PTE_W OR PTE_X then Some (Inl TRANSLATE_FAIL)
        else if rwx = PTE_W then
          map_option (\<lambda>bcfi. if bcfi then finish True (if is_sstack_idx mmu_idx then PTE_R OR PTE_W else PTE_R) else Inl TRANSLATE_FAIL)
            (cpu_get_bcfien env)
        else if rwx = PTE_R \<and> is_sstack_idx mmu_idx then Some (Inl TRANSLATE_FAIL)
        else Some (finish False rwx))"

text \<open>The accessed and dirty bits, and the physical address. Failures leave address and permissions zero.\<close>

definition leaf_done :: "'d rv_machine \<Rightarrow> u64 \<Rightarrow> MMUAccessType \<Rightarrow> u32 \<Rightarrow> u64 \<Rightarrow> u64 \<Rightarrow> u64 \<Rightarrow> nat \<Rightarrow> nat \<Rightarrow> (translate_ret \<times> u64 \<times> u32, 'd rv_machine) outcome" where
  "leaf_done env addr access_type prot pte ppn pte_addr level ptshift =
    (let store = (access_type = MMU_DATA_STORE) in
     if \<not> adue env \<and> (pte AND PTE_A = 0 \<or> store \<and> pte AND PTE_D = 0) then Ret (TRANSLATE_FAIL, 0, 0) env
     else
       let updated_pte = (if adue env then pte OR PTE_A OR (if store then PTE_D else 0) else pte)
       in bind_out (if updated_pte \<noteq> pte then ram_std_rv pte_addr updated_pte env else Ret () env) (\<lambda>_ env.
            let pte = updated_pte;
                vpn = drop_bit PGSHIFT addr;
                napot = (ext_svnapot (cfg env) \<and> pte AND PTE_N \<noteq> 0);
                napot_bits = ctz64 ppn + 1
            in if napot \<and> (level \<noteq> 0 \<or> napot_bits \<noteq> 4) then Ret (TRANSLATE_FAIL, 0, 0) env
               else
                 let napot_mask = (if napot then 15 else 0);
                     physical = push_bit PGSHIFT ((ppn AND NOT napot_mask) OR (vpn AND napot_mask) OR (vpn AND (push_bit ptshift 1 - 1)))
                       OR (addr AND NOT TARGET_PAGE_MASK_rv);
                     prot = (if \<not> store \<and> pte AND PTE_D = 0 then prot AND NOT PAGE_WRITE_rv else prot)
                 in Ret (TRANSLATE_SUCCESS, physical, prot) env))"

text \<open>The page table format of a mode: levels, bits per level, bytes of an entry.\<close>

definition vm_format :: "u64 \<Rightarrow> (nat \<times> nat \<times> u64) option" where
  "vm_format vm =
    (if vm = VM_1_10_SV32 then Some (2, 10, 4)
     else if vm = VM_1_10_SV39 then Some (3, 9, 8)
     else if vm = VM_1_10_SV48 then Some (4, 9, 8)
     else if vm = VM_1_10_SV57 then Some (5, 9, 8)
     else None)"

definition get_physical_address_rv :: "'d rv_machine \<Rightarrow> u64 \<Rightarrow> MMUAccessType \<Rightarrow> nat \<Rightarrow> (translate_ret \<times> u64 \<times> u32, 'd rv_machine) outcome" where
  "get_physical_address_rv env addr access_type mmu_idx =
    (let all = PAGE_READ_rv OR PAGE_WRITE_rv OR PAGE_EXEC_rv in
     if mmuidx_priv mmu_idx = PRV_M \<or> \<not> cfg_mmu (cfg env) then Ret (TRANSLATE_SUCCESS, addr, all) env
     else
       let base = push_bit PGSHIFT (get_field (satp env) SATP64_PPN);
           vm = get_field (satp env) SATP64_MODE
       in if vm = VM_1_10_MBARE then Ret (TRANSLATE_SUCCESS, addr, all) env
          else
            case vm_format vm of
              None \<Rightarrow> Crash
            | Some (levels, ptidxbits, ptesize) \<Rightarrow>
                let va_bits = PGSHIFT + levels * ptidxbits;
                    msbs_mask = push_bit (64 - (va_bits - 1)) 1 - 1;
                    masked_msbs = drop_bit (va_bits - 1) addr AND msbs_mask
                in if masked_msbs \<noteq> 0 \<and> masked_msbs \<noteq> msbs_mask then Ret (TRANSLATE_FAIL, 0, 0) env
                   else
                     case walk env addr ptidxbits ptesize levels base of
                       Walk_crash \<Rightarrow> Crash
                     | Walk_ret r \<Rightarrow> Ret (r, 0, 0) env
                     | Walk_leaf pte ppn pte_addr level \<Rightarrow>
                         (case leaf_prot env access_type mmu_idx pte ppn (level * ptidxbits) of
                            None \<Rightarrow> Crash
                          | Some (Inl r) \<Rightarrow> Ret (r, 0, 0) env
                          | Some (Inr prot) \<Rightarrow>
                              leaf_done env addr access_type prot pte ppn pte_addr level (level * ptidxbits)))"

section \<open>The translation buffer\<close>

definition raise_mmu_exception :: "'d rv_machine \<Rightarrow> u64 \<Rightarrow> MMUAccessType \<Rightarrow> bool \<Rightarrow> 'd rv_machine" where
  "raise_mmu_exception env address access_type pmp_violation =
    (let e = (case access_type of
        MMU_INST_FETCH \<Rightarrow> if pmp_violation then RISCV_EXCP_INST_ACCESS_FAULT else RISCV_EXCP_INST_PAGE_FAULT
      | MMU_DATA_LOAD \<Rightarrow> if pmp_violation then RISCV_EXCP_LOAD_ACCESS_FAULT else RISCV_EXCP_LOAD_PAGE_FAULT
      | MMU_DATA_STORE \<Rightarrow> if pmp_violation then RISCV_EXCP_STORE_AMO_ACCESS_FAULT else RISCV_EXCP_STORE_PAGE_FAULT)
     in env\<lparr>exception_index := e, badaddr := address\<rparr>)"

definition TC_INDEX_rv :: "u64 \<Rightarrow> nat" where
  "TC_INDEX_rv va = unat (drop_bit TARGET_PAGE_BITS_rv va AND 0xff)"

definition addr_idx :: "CPUTLBEntry \<Rightarrow> MMUAccessType \<Rightarrow> u64" where
  "addr_idx e access_type = (case access_type of MMU_DATA_LOAD \<Rightarrow> addr_read e | MMU_DATA_STORE \<Rightarrow> addr_write e | MMU_INST_FETCH \<Rightarrow> addr_code e)"

definition tlb_set_page :: "u64 \<Rightarrow> u64 \<Rightarrow> u32 \<Rightarrow> nat \<Rightarrow> u64 \<Rightarrow> 'd rv_machine \<Rightarrow> (unit, 'd rv_machine) outcome" where
  "tlb_set_page addr paddr prot mmu_idx sz env =
    (if \<not> (sz = 0 \<or> sz = TARGET_PAGE_SIZE) \<or> paddr AND NOT TARGET_PAGE_MASK_rv \<noteq> 0 \<or> addr AND NOT TARGET_PAGE_MASK_rv \<noteq> 0 then Crash
     else
       let page = addr AND TARGET_PAGE_MASK_rv;
           e = \<lparr>addr_read = (if prot AND PAGE_READ_rv \<noteq> 0 then page else - 1),
                addr_write = (if prot AND PAGE_WRITE_rv \<noteq> 0 then page else - 1),
                addr_code = (if prot AND PAGE_EXEC_rv \<noteq> 0 then page else - 1),
                addend = paddr\<rparr>
       in Ret () (env\<lparr>tlb := (tlb env)(mmu_idx := (tlb env mmu_idx)(TC_INDEX_rv addr := e)), tlbr_count := tlbr_count env + 1\<rparr>))"

definition tlb_get_page :: "'d rv_machine \<Rightarrow> u64 \<Rightarrow> MMUAccessType \<Rightarrow> nat \<Rightarrow> u64 option" where
  "tlb_get_page env addr access_type mmu_idx =
    (let e = tlb env mmu_idx (TC_INDEX_rv addr)
     in if addr_idx e access_type = addr AND TARGET_PAGE_MASK_rv then Some (addend e) else None)"

definition tlb_get_addr :: "'d rv_machine \<Rightarrow> u64 \<Rightarrow> MMUAccessType \<Rightarrow> nat \<Rightarrow> u64 option" where
  "tlb_get_addr env addr access_type mmu_idx =
    map_option (\<lambda>p. p OR (addr AND (TARGET_PAGE_SIZE - 1))) (tlb_get_page env addr access_type mmu_idx)"

definition riscv_cpu_tlb_fill :: "u64 \<Rightarrow> MMUAccessType \<Rightarrow> nat \<Rightarrow> 'd rv_machine \<Rightarrow> (unit, 'd rv_machine) outcome" where
  "riscv_cpu_tlb_fill address access_type mmu_idx env =
    bind_out (get_physical_address_rv env address access_type mmu_idx) (\<lambda>(ret, pa, prot) env.
      let (ret, prot, tlb_size) =
        (if ret = TRANSLATE_SUCCESS then
           let (ret, prot_pmp) = get_physical_address_pmp env pa access_type (mmuidx_priv mmu_idx)
           in (ret, prot AND prot_pmp, pmp_get_tlb_size env pa)
         else (ret, prot, TARGET_PAGE_SIZE))
      in if ret = TRANSLATE_SUCCESS
         then tlb_set_page (address AND NOT (tlb_size - 1)) (pa AND NOT (tlb_size - 1)) prot mmu_idx tlb_size env
         else Exn (raise_mmu_exception env address access_type (ret = TRANSLATE_PMP_FAIL)))"

definition trans_pa :: "u64 \<Rightarrow> MMUAccessType \<Rightarrow> 'd rv_machine \<Rightarrow> (u64, 'd rv_machine) outcome" where
  "trans_pa addr access_type env =
    (let mmu_idx = riscv_env_mmu_index env (access_type = MMU_INST_FETCH) in
     case tlb_get_addr env addr access_type mmu_idx of
       Some ha \<Rightarrow> Ret ha env
     | None \<Rightarrow> bind_out (riscv_cpu_tlb_fill addr access_type mmu_idx env) (\<lambda>_ env.
         case tlb_get_addr env addr access_type mmu_idx of Some ha \<Rightarrow> Ret ha env | None \<Rightarrow> Crash))"

section \<open>The walk of the architecture\<close>

text \<open>Bits of a page table entry.\<close>

lemma and_ones_zero: "w AND ones n k = 0 \<longleftrightarrow> (\<forall>i. n \<le> i \<and> i < n + k \<longrightarrow> \<not> bit w i)"
proof
  assume z: "w AND ones n k = 0"
  show "\<forall>i. n \<le> i \<and> i < n + k \<longrightarrow> \<not> bit w i"
  proof (intro allI impI)
    fix i assume i: "n \<le> i \<and> i < n + k"
    have "\<not> bit (w AND ones n k) i" using z by simp
    then show "\<not> bit w i" using i bit_imp_le_length [of w i] by (auto simp: bit_and_iff bit_ones)
  qed
next
  assume "\<forall>i. n \<le> i \<and> i < n + k \<longrightarrow> \<not> bit w i"
  then show "w AND ones n k = 0" by (intro bit_word_eqI) (auto simp: bit_and_iff bit_ones)
qed

lemma pte_masks:
  "PTE_V = ones 0 1" "PTE_R = ones 1 1" "PTE_W = ones 2 1" "PTE_X = ones 3 1" "PTE_U = ones 4 1" "PTE_A = ones 6 1" "PTE_D = ones 7 1"
  "PTE_RESERVED = ones 54 7" "PTE_PBMT = ones 61 2" "PTE_N = ones 63 1" "PTE_PPN_MASK = ones 10 44"
  by (simp_all add: ones_def mask_eq_exp_minus_1)

lemma and_or_zero: "w AND (a OR b) = 0 \<longleftrightarrow> w AND a = 0 \<and> w AND b = 0" for w :: u64
  by (simp add: bit.conj_disj_distrib or_eq_0_iff)

lemma and_one_zero: "w AND ones n (Suc 0) = 0 \<longleftrightarrow> \<not> bit w n"
proof -
  have "n \<le> i \<and> i < n + Suc 0 \<longleftrightarrow> i = n" for i by auto
  then show ?thesis unfolding and_ones_zero by auto
qed

lemma pte_bit_zero:
  "pte AND PTE_V = 0 \<longleftrightarrow> \<not> bit pte 0" "pte AND PTE_R = 0 \<longleftrightarrow> \<not> bit pte 1" "pte AND PTE_W = 0 \<longleftrightarrow> \<not> bit pte 2"
  "pte AND PTE_X = 0 \<longleftrightarrow> \<not> bit pte 3" "pte AND PTE_U = 0 \<longleftrightarrow> \<not> bit pte 4" "pte AND PTE_A = 0 \<longleftrightarrow> \<not> bit pte 6"
  "pte AND PTE_D = 0 \<longleftrightarrow> \<not> bit pte 7" "pte AND PTE_N = 0 \<longleftrightarrow> \<not> bit pte 63"
  unfolding pte_masks and_one_zero One_nat_def by (rule refl)+

lemma pte_rwx_zero: "pte AND (PTE_R OR PTE_W OR PTE_X) = 0 \<longleftrightarrow> \<not> bit pte 1 \<and> \<not> bit pte 2 \<and> \<not> bit pte 3"
  by (simp only: and_or_zero pte_bit_zero)

lemma pte_inner_zero:
  "pte AND (PTE_D OR PTE_A OR PTE_U OR PTE_ATTR) = 0 \<longleftrightarrow> \<not> bit pte 7 \<and> \<not> bit pte 6 \<and> \<not> bit pte 4 \<and> pte AND PTE_N = 0 \<and> pte AND PTE_PBMT = 0"
  by (simp only: and_or_zero pte_bit_zero)

text \<open>An entry with none of the reserved bits 54 to 63, in the basic architecture.\<close>

lemma and_ones_join: "w AND ones n k = 0 \<and> w AND ones (n + k) l = 0 \<longleftrightarrow> w AND ones n (k + l) = 0"
  unfolding and_ones_zero add.assoc [symmetric] by (auto dest: leI intro: le_less_trans)

lemma pte_high_zero: "pte AND PTE_RESERVED = 0 \<and> pte AND PTE_PBMT = 0 \<and> pte AND PTE_N = 0 \<longleftrightarrow> unat pte < 2 ^ 54"
proof -
  have "pte AND PTE_RESERVED = 0 \<and> pte AND PTE_PBMT = 0 \<and> pte AND PTE_N = 0 \<longleftrightarrow> pte AND ones 54 10 = 0"
    using and_ones_join [of pte 54 7 2] and_ones_join [of pte 54 9 1] unfolding pte_masks by (simp, blast)
  also have "\<dots> \<longleftrightarrow> take_bit 54 pte = pte"
    unfolding and_ones_zero by (auto simp: bit_eq_iff bit_take_bit_iff not_le [symmetric] dest: bit_imp_le_length)
  also have "\<dots> \<longleftrightarrow> unat pte < 2 ^ 54"
    by (simp add: word_unat_eq_iff unsigned_take_bit_eq take_bit_nat_eq_self_iff)
  finally show ?thesis .
qed

lemma unat_field: "unat (take_bit k (drop_bit n w)) = unat w div 2 ^ n mod 2 ^ k" for w :: u64
  unfolding unsigned_take_bit_eq unat_drop_bit_eq by (simp only: take_bit_eq_mod drop_bit_eq_div)

definition pte_ppn :: "u64 \<Rightarrow> nat" where
  "pte_ppn pte = unat pte div 2 ^ 10 mod 2 ^ 44"

lemma unat_ppn: "unat (drop_bit PTE_PPN_SHIFT (pte AND PTE_PPN_MASK)) = pte_ppn pte"
proof -
  have "drop_bit PTE_PPN_SHIFT (pte AND PTE_PPN_MASK) = take_bit 44 (drop_bit 10 pte)"
    unfolding pte_masks by (intro bit_word_eqI) (auto simp: bit_ones bit_simps)
  then show ?thesis by (simp only: pte_ppn_def unat_field)
qed

definition vpn :: "nat \<Rightarrow> nat \<Rightarrow> nat" where
  "vpn k va = va div 2 ^ (12 + 9 * k) mod 2 ^ 9"

lemma unat_idx: "unat (drop_bit (PGSHIFT + n * 9) addr AND (push_bit 9 1 - 1)) = vpn n (unat addr)" for addr :: u64
proof -
  have "drop_bit (PGSHIFT + n * 9) addr AND (push_bit 9 1 - 1) = take_bit 9 (drop_bit (12 + 9 * n) addr)"
    by (simp add: take_bit_eq_mask mask_eq_exp_minus_1 mult.commute)
  then show ?thesis by (simp only: vpn_def unat_field)
qed

text \<open>
  The address translation of the architecture for the tables with 8-byte entries, over natural numbers: \<open>arch_walk env va k a r\<close> follows the
  tables from the one at address \<open>a\<close>, whose entries are of level \<open>k\<close>. The result is a leaf with the entry, its address
  and its level, or \<open>None\<close> if an entry lies outside the RAM. There is none for an entry that is not valid or has reserved bits.
\<close>

definition pte_at :: "'d rv_machine \<Rightarrow> nat \<Rightarrow> u64 option" where
  "pte_at env a = (if ram_ok_rv 8 (of_nat a) env then Some (ram_bytes_rv 8 (of_nat a) env) else None)"

definition valid_pte :: "u64 \<Rightarrow> bool" where
  "valid_pte pte = (bit pte 0 \<and> unat pte < 2 ^ 54)"

definition leaf_pte :: "u64 \<Rightarrow> bool" where
  "leaf_pte pte = (bit pte 1 \<or> bit pte 2 \<or> bit pte 3)"

inductive arch_walk :: "'d rv_machine \<Rightarrow> nat \<Rightarrow> nat \<Rightarrow> nat \<Rightarrow> (u64 \<times> nat \<times> nat) option \<Rightarrow> bool" for env va where
  outside: "pte_at env (a + 8 * vpn k va) = None \<Longrightarrow> arch_walk env va k a None"
| leaf: "pte_at env (a + 8 * vpn k va) = Some pte \<Longrightarrow> valid_pte pte \<Longrightarrow> leaf_pte pte
    \<Longrightarrow> arch_walk env va k a (Some (pte, a + 8 * vpn k va, k))"
| pointer: "pte_at env (a + 8 * vpn (Suc k) va) = Some pte \<Longrightarrow> valid_pte pte \<Longrightarrow> \<not> leaf_pte pte
    \<Longrightarrow> \<not> bit pte 4 \<and> \<not> bit pte 6 \<and> \<not> bit pte 7 \<Longrightarrow> arch_walk env va k (4096 * pte_ppn pte) r \<Longrightarrow> arch_walk env va (Suc k) a r"

inductive_simps arch_walk_last: "arch_walk env va 0 a r"
inductive_simps arch_walk_next: "arch_walk env va (Suc k) a r"

text \<open>The core that \<open>cpu_reset\<close> configures has none of the extensions of the page table format.\<close>

definition plain_mmu :: "'d rv_machine \<Rightarrow> bool" where
  "plain_mmu env = (\<not> pbmte env \<and> \<not> ext_svnapot (cfg env) \<and> \<not> ext_zicfiss (cfg env) \<and> adue env \<and> cfg_mmu (cfg env))"

lemma vpn_less: "vpn k va < 512"
  by (simp add: vpn_def)

lemma pte_ppn_less: "pte_ppn pte < 2 ^ 44"
  by (simp add: pte_ppn_def)

text \<open>The addresses of the tables do not wrap around.\<close>

lemma table_addr:
  fixes addr :: u64
  assumes "unat base < 2 ^ 57"
  shows "unat (base + (drop_bit (PGSHIFT + n * 9) addr AND (push_bit 9 1 - 1)) * 8) = unat base + 8 * vpn n (unat addr)" (is "unat (base + ?i * 8) = _")
proof -
  have i: "unat ?i = vpn n (unat addr)" by (rule unat_idx)
  have "unat ?i * 8 < 2 ^ 64" using vpn_less [of n "unat addr"] unfolding i by simp
  then have m: "unat (?i * 8) = 8 * vpn n (unat addr)" using i by (subst unat_mult_lem [THEN iffD1]) simp_all
  have "unat base + unat (?i * 8) < 2 ^ 64" using assms vpn_less [of n "unat addr"] unfolding m by simp
  then have "unat (base + ?i * 8) = unat base + unat (?i * 8)" by (subst unat_add_lem [THEN iffD1]) simp_all
  then show ?thesis unfolding m .
qed

lemma unat_page: "unat p < 2 ^ 44 \<Longrightarrow> unat (push_bit PGSHIFT p) = 4096 * unat p" for p :: u64
  unfolding push_bit_eq_mult by (subst unat_mult_lem [THEN iffD1]) simp_all

lemma next_base: "unat (push_bit PGSHIFT (drop_bit PTE_PPN_SHIFT (pte AND PTE_PPN_MASK))) = 4096 * pte_ppn pte"
  using unat_page [of "drop_bit PTE_PPN_SHIFT (pte AND PTE_PPN_MASK)"] pte_ppn_less [of pte] unfolding unat_ppn by blast

text \<open>What the walk of the code finds.\<close>

fun walk_view :: "walk_result \<Rightarrow> (u64 \<times> nat \<times> nat) option option" where
  "walk_view Walk_crash = Some None"
| "walk_view (Walk_ret r) = None"
| "walk_view (Walk_leaf pte ppn a k) = Some (Some (pte, unat a, k))"

lemma plain_pte_kind:
  assumes "plain_mmu env"
  shows "pte_kind_of env pte =
    (if \<not> valid_pte pte then Fail_pte else if leaf_pte pte then Leaf_pte else if bit pte 4 \<or> bit pte 6 \<or> bit pte 7 then Fail_pte else Inner_pte)"
  using assms pte_high_zero [of pte]
  unfolding pte_kind_of_def pte_rwx_zero pte_inner_zero plain_mmu_def valid_pte_def leaf_pte_def pte_bit_zero(1) by auto

lemma walk_steps:
  fixes addr base :: u64 and k :: nat
  assumes "unat base < 2 ^ 57"
  defines "a \<equiv> unat base + 8 * vpn k (unat addr)"
  shows "walk env addr 9 8 (Suc k) base =
    (case pte_at env a of None \<Rightarrow> Walk_crash
     | Some pte \<Rightarrow> (case pte_kind_of env pte of
           Fail_pte \<Rightarrow> Walk_ret TRANSLATE_FAIL
         | Leaf_pte \<Rightarrow> Walk_leaf pte (of_nat (pte_ppn pte)) (of_nat a) k
         | Inner_pte \<Rightarrow> walk env addr 9 8 k (of_nat (4096 * pte_ppn pte))))"
proof -
  define w where "w = base + (drop_bit (PGSHIFT + k * 9) addr AND (push_bit 9 1 - 1)) * 8"
  have w: "w = of_nat a" using arg_cong [OF table_addr [OF assms(1), of k addr], where f = "of_nat :: nat \<Rightarrow> u64"] by (simp only: w_def a_def of_nat_unat ucast_id)
  have ppn: "drop_bit PTE_PPN_SHIFT (pte AND PTE_PPN_MASK) = of_nat (pte_ppn pte)" for pte
    unfolding unat_ppn [symmetric] by simp
  have nb: "push_bit PGSHIFT (of_nat (pte_ppn pte)) = (of_nat (4096 * pte_ppn pte) :: u64)" for pte
    by (simp add: push_bit_eq_mult)
  show ?thesis
    unfolding pte_at_def w [symmetric]
    by (simp only: walk.simps Let_def w_def [symmetric] ppn nb)
      (simp add: get_physical_address_pmp_def ram_ldd_rv_def ram_ld_rv_def)
qed

lemma of_nat_table: "unat (of_nat (4096 * pte_ppn pte) :: u64) = 4096 * pte_ppn pte" "4096 * pte_ppn pte < 2 ^ 57"
proof -
  show "4096 * pte_ppn pte < 2 ^ 57" using pte_ppn_less [of pte] by simp
  then show "unat (of_nat (4096 * pte_ppn pte) :: u64) = 4096 * pte_ppn pte" by (intro unat_of_nat_small) simp
qed

lemma table_addr_back: "unat base < 2 ^ 57 \<Longrightarrow> unat (of_nat (unat base + 8 * vpn k va) :: u64) = unat base + 8 * vpn k va" for base :: u64
  using vpn_less [of k va] by (intro unat_of_nat_small) simp

lemma walk_arch:
  assumes "plain_mmu env" and "unat base < 2 ^ 57"
  shows "walk_view (walk env addr 9 8 (Suc k) base) = Some r \<longleftrightarrow> arch_walk env (unat addr) k (unat base) r"
  using assms(2)
proof (induction k arbitrary: base)
  case 0
  show ?case
    unfolding arch_walk_last walk_steps [OF 0] plain_pte_kind [OF assms(1)]
    using table_addr_back [OF 0] by (auto split: option.split)
next
  case (Suc k)
  note IH = Suc.IH [of "of_nat (4096 * pte_ppn pte)" for pte, unfolded of_nat_table(1), OF of_nat_table(2)]
  show ?case
    unfolding arch_walk_next walk_steps [OF Suc.prems] plain_pte_kind [OF assms(1)]
    using table_addr_back [OF Suc.prems] by (auto simp del: walk.simps of_nat_mult of_nat_add simp: IH split: option.split)
qed


lemma bit_pte_consts:
  "bit PTE_R i \<longleftrightarrow> i = 1" "bit PTE_W i \<longleftrightarrow> i = 2" "bit PTE_X i \<longleftrightarrow> i = 3" "bit PTE_U i \<longleftrightarrow> i = 4" "bit PTE_A i \<longleftrightarrow> i = 6" "bit PTE_D i \<longleftrightarrow> i = 7"
  unfolding pte_masks bit_ones by auto

text \<open>Permissions: a page that is writable must be readable; supervisor code runs user pages never, and accesses them with \<open>SUM\<close>.\<close>

definition arch_permits :: "'d rv_machine \<Rightarrow> nat \<Rightarrow> MMUAccessType \<Rightarrow> u64 \<Rightarrow> bool" where
  "arch_permits env mmu_idx t pte \<longleftrightarrow> (bit pte 2 \<longrightarrow> bit pte 1)
    \<and> (case t of MMU_DATA_LOAD \<Rightarrow> bit pte 1 \<or> bit pte 3 \<and> get_field (mstatus env) MSTATUS_MXR \<noteq> 0
       | MMU_DATA_STORE \<Rightarrow> bit pte 2 | MMU_INST_FETCH \<Rightarrow> bit pte 3)
    \<and> (if bit pte 4 then mmuidx_priv mmu_idx = PRV_U \<or> mmuidx_sum mmu_idx \<and> t \<noteq> MMU_INST_FETCH else mmuidx_priv mmu_idx = PRV_S)"

definition arch_prot :: "'d rv_machine \<Rightarrow> nat \<Rightarrow> u64 \<Rightarrow> u32" where
  "arch_prot env mmu_idx pte =
    (if arch_permits env mmu_idx MMU_DATA_LOAD pte then PAGE_READ_rv else 0)
    OR (if arch_permits env mmu_idx MMU_DATA_STORE pte then PAGE_WRITE_rv else 0)
    OR (if arch_permits env mmu_idx MMU_INST_FETCH pte then PAGE_EXEC_rv else 0)"

lemma rwx_value:
  "pte AND (PTE_R OR PTE_W OR PTE_X) = (if bit pte 1 then PTE_R else 0) OR (if bit pte 2 then PTE_W else 0) OR (if bit pte 3 then PTE_X else 0)"
proof -
  have one: "pte AND ones n (Suc 0) = (if bit pte n then ones n (Suc 0) else 0)" for n
    by (intro bit_word_eqI) (auto simp: bit_and_iff bit_ones dest: le_antisym)
  show ?thesis
    unfolding bit.conj_disj_distrib pte_masks One_nat_def one by (rule refl)
qed

lemma mode_cases:
  assumes "m < 3"
  obtains "mmuidx_priv m = PRV_U" "\<not> mmuidx_sum m" | "mmuidx_priv m = PRV_S" "\<not> mmuidx_sum m" | "mmuidx_priv m = PRV_S" "mmuidx_sum m"
proof -
  have "m = 0 \<or> m = 1 \<or> m = 2" using assms by auto
  then show thesis by (elim disjE) (auto simp: mmuidx_priv_def mmuidx_sum_def intro: that)
qed

lemma leaf_prot_arch:
  assumes "plain_mmu env" and "m < 3" and "leaf_pte pte" and "unat pte < 2 ^ 54"
  shows "leaf_prot env t m pte ppn ptshift = Some
    (if ppn AND (push_bit ptshift 1 - 1) = 0 \<and> arch_permits env m t pte then Inr (arch_prot env m pte) else Inl TRANSLATE_FAIL)"
proof -
  have ss: "\<not> is_sstack_idx m" using assms(2) by (simp add: is_sstack_idx_def)
  have pb: "pte AND PTE_PBMT = 0" using pte_high_zero [of pte] assms(4) by blast
  have cf: "cpu_get_bcfien env = Some False" using assms(1) by (simp add: plain_mmu_def cpu_get_bcfien_def)
  show ?thesis
    unfolding leaf_prot_def rwx_value pte_bit_zero(5) Let_def pb cf
    using assms(2)
    by (cases rule: mode_cases; cases "bit pte 1"; cases "bit pte 2"; cases "bit pte 3"; cases "bit pte 4"; cases t)
      (simp_all add: ss arch_permits_def arch_prot_def access_number_def)
qed

text \<open>The physical address: the page number of the entry, and the offset within the page of its level.\<close>

lemma align_mask: "p AND (push_bit n 1 - 1) = take_bit n p" for p :: u64
  by (simp add: take_bit_eq_mask mask_eq_exp_minus_1)

lemma page_offset: "a AND NOT TARGET_PAGE_MASK_rv = take_bit 12 a" for a :: u64
  by (simp add: take_bit_eq_mask mask_eq_exp_minus_1)

lemma aligned_iff: "take_bit n p = 0 \<longleftrightarrow> 2 ^ n dvd unat p" for p :: u64
proof -
  have "take_bit n p = 0 \<longleftrightarrow> unat (take_bit n p) = 0" by (simp add: unat_eq_zero)
  then show ?thesis unfolding unsigned_take_bit_eq by (simp add: take_bit_eq_0_iff)
qed

lemma physical_page:
  fixes p addr :: u64
  assumes "unat p < 2 ^ 44" and "take_bit n p = 0" and "n \<le> 44"
  shows "unat (push_bit PGSHIFT (p OR take_bit n (drop_bit PGSHIFT addr)) OR take_bit 12 addr) = 4096 * unat p + unat addr mod 2 ^ (12 + n)"
proof -
  have low: "\<not> bit p i" if "i < n" for i
  proof -
    have "bit (take_bit n p) i = bit (0 :: u64) i" using assms(2) by simp
    then show ?thesis using that by (simp add: bit_take_bit_iff)
  qed
  have "push_bit PGSHIFT (p OR take_bit n (drop_bit PGSHIFT addr)) OR take_bit 12 addr = push_bit PGSHIFT p OR take_bit (12 + n) addr"
    using assms(3) by (intro bit_word_eqI) (auto simp: bit_simps)
  also have "\<dots> = push_bit PGSHIFT p + take_bit (12 + n) addr"
    by (intro disjunctive_add [symmetric]) (auto simp: bit_simps low)
  finally have e: "push_bit PGSHIFT (p OR take_bit n (drop_bit PGSHIFT addr)) OR take_bit 12 addr = push_bit PGSHIFT p + take_bit (12 + n) addr" .
  have t: "unat (take_bit (12 + n) addr) = unat addr mod 2 ^ (12 + n)" unfolding unsigned_take_bit_eq by (rule take_bit_eq_mod)
  have "unat addr mod 2 ^ (12 + n) < 2 ^ (12 + n)" by simp
  also have "\<dots> \<le> (2 :: nat) ^ 56" using assms(3) by (intro power_increasing) simp_all
  finally have "unat (push_bit PGSHIFT p) + unat (take_bit (12 + n) addr) < 2 ^ 64"
    using assms(1) unfolding unat_page [OF assms(1)] t by simp
  then have "unat (push_bit PGSHIFT p + take_bit (12 + n) addr) = unat (push_bit PGSHIFT p) + unat (take_bit (12 + n) addr)"
    by (subst unat_add_lem [THEN iffD1]) simp_all
  then show ?thesis unfolding e unat_page [OF assms(1)] t .
qed

text \<open>The state after a translation: the accessed bit is set, and for a store the dirty bit.\<close>

definition marked :: "MMUAccessType \<Rightarrow> u64 \<Rightarrow> u64" where
  "marked t pte = pte OR PTE_A OR (if t = MMU_DATA_STORE then PTE_D else 0)"

definition mark_used :: "MMUAccessType \<Rightarrow> nat \<Rightarrow> u64 \<Rightarrow> 'd rv_machine \<Rightarrow> 'd rv_machine" where
  "mark_used t a pte env =
    (if marked t pte = pte then env else env\<lparr>ram := store_bytes (of_nat a) (le_bytes 8 (marked t pte)) (ram env)\<rparr>)"

text \<open>The permissions that may be kept in the buffer: writing only once the dirty bit is set.\<close>

definition kept_prot :: "'d rv_machine \<Rightarrow> nat \<Rightarrow> MMUAccessType \<Rightarrow> u64 \<Rightarrow> u32" where
  "kept_prot env m t pte = (if bit (marked t pte) 7 then arch_prot env m pte else arch_prot env m pte AND NOT PAGE_WRITE_rv)"

lemma physical_word:
  assumes "2 ^ (9 * l) dvd pte_ppn pte" and "l \<le> 4"
  shows "(of_nat (4096 * pte_ppn pte + unat addr mod 2 ^ (12 + 9 * l)) :: u64)
    = push_bit PGSHIFT (of_nat (pte_ppn pte) OR take_bit (l * 9) (drop_bit PGSHIFT addr)) OR take_bit 12 addr"
proof -
  have p: "unat (of_nat (pte_ppn pte) :: u64) = pte_ppn pte" using pte_ppn_less [of pte] by (intro unat_of_nat_small) simp
  have al: "take_bit (l * 9) (of_nat (pte_ppn pte) :: u64) = 0" unfolding aligned_iff p using assms(1) by (simp add: mult.commute)
  show ?thesis
    using arg_cong [OF physical_page [of "of_nat (pte_ppn pte)" "l * 9" addr], where f = "of_nat :: nat \<Rightarrow> u64"] al pte_ppn_less [of pte] assms(2)
    by (simp add: p mult.commute del: of_nat_add of_nat_mult)
qed

lemma leaf_done_arch:
  assumes "plain_mmu env" and "pte_at env a = Some pte" and "2 ^ (9 * l) dvd pte_ppn pte" and "l \<le> 4"
  shows "leaf_done env addr t (arch_prot env m pte) pte (of_nat (pte_ppn pte)) (of_nat a) l (l * 9)
    = Ret (TRANSLATE_SUCCESS, of_nat (4096 * pte_ppn pte + unat addr mod 2 ^ (12 + 9 * l)), kept_prot env m t pte) (mark_used t a pte env)"
proof -
  have ok: "ram_ok_rv 8 (of_nat a) env" using assms(2) by (simp add: pte_at_def split: if_splits)
  have dirty: "\<not> bit (marked t pte) 7 \<Longrightarrow> t \<noteq> MMU_DATA_STORE" by (auto simp: marked_def bit_or_iff bit_pte_consts)
  show ?thesis
    using assms(1) ok dirty unfolding leaf_done_def Let_def plain_mmu_def page_offset align_mask marked_def [symmetric] pte_bit_zero
    by (simp add: ram_std_rv_def ram_st_rv_def mark_used_def kept_prot_def physical_word [OF assms(3,4)] del: of_nat_add of_nat_mult push_bit_or)
qed

definition vm_levels :: "u64 \<Rightarrow> nat option" where
  "vm_levels vm = (if vm = VM_1_10_SV39 then Some 3 else if vm = VM_1_10_SV48 then Some 4 else if vm = VM_1_10_SV57 then Some 5 else None)"

text \<open>The bits above the virtual address of \<open>n\<close> levels repeat its top bit.\<close>

definition canonical :: "nat \<Rightarrow> u64 \<Rightarrow> bool" where
  "canonical n addr = (signed_take_bit (11 + 9 * n) addr = addr)"

lemma canonical_msbs:
  fixes addr :: u64
  assumes "k < 64"
  shows "(let m = drop_bit k addr AND (push_bit (64 - k) 1 - 1) in m \<noteq> 0 \<and> m \<noteq> push_bit (64 - k) 1 - 1) \<longleftrightarrow> signed_take_bit k addr \<noteq> addr"
proof -
  have m: "drop_bit k addr AND (push_bit (64 - k) 1 - 1) = drop_bit k addr"
    unfolding align_mask using assms by (intro bit_word_eqI) (auto simp: bit_simps dest: bit_imp_le_length)
  have len: "bit addr i \<Longrightarrow> i < 64" for i using bit_imp_le_length [of addr i] by simp
  have z: "drop_bit k addr = 0 \<longleftrightarrow> (\<forall>i. k \<le> i \<and> i < 64 \<longrightarrow> \<not> bit addr i)"
    unfolding bit_eq_iff [of "drop_bit k addr"] by (simp add: bit_drop_bit_eq) (metis len le_add1 le_add_diff_inverse less_diff_conv2 add.commute less_imp_diff_less)
  have mk: "push_bit (64 - k) 1 - 1 = (mask (64 - k) :: u64)"
    by (simp add: mask_eq_exp_minus_1)
  have o: "drop_bit k addr = mask (64 - k) \<longleftrightarrow> (\<forall>i. k \<le> i \<and> i < 64 \<longrightarrow> bit addr i)"
  proof
    assume eq: "drop_bit k addr = mask (64 - k)"
    have "bit (drop_bit k addr) (i - k)" if "k \<le> i" "i < 64" for i
      unfolding eq using that by (auto simp: bit_mask_iff)
    then show "\<forall>i. k \<le> i \<and> i < 64 \<longrightarrow> bit addr i" by (auto simp: bit_drop_bit_eq)
  next
    assume "\<forall>i. k \<le> i \<and> i < 64 \<longrightarrow> bit addr i"
    then show "drop_bit k addr = mask (64 - k)"
      using assms by (intro bit_word_eqI) (auto simp: bit_drop_bit_eq bit_mask_iff dest: len)
  qed
  have s: "signed_take_bit k addr = addr \<longleftrightarrow> (\<forall>i. k \<le> i \<and> i < 64 \<longrightarrow> bit addr i = bit addr k)"
  proof
    assume eq: "signed_take_bit k addr = addr"
    have "bit addr i = bit addr k" if "k \<le> i" "i < 64" for i
    proof -
      have "bit addr i = bit (signed_take_bit k addr) i" by (simp only: eq)
      then show ?thesis using that by (simp add: bit_signed_take_bit_iff min_def)
    qed
    then show "\<forall>i. k \<le> i \<and> i < 64 \<longrightarrow> bit addr i = bit addr k" by blast
  next
    assume all: "\<forall>i. k \<le> i \<and> i < 64 \<longrightarrow> bit addr i = bit addr k"
    show "signed_take_bit k addr = addr"
    proof (rule bit_word_eqI)
      fix i assume "i < LENGTH(64)"
      then show "bit (signed_take_bit k addr) i = bit addr i"
        using all [rule_format, of i] by (cases "k \<le> i") (simp_all add: bit_signed_take_bit_iff min_def)
    qed
  qed
  have "(\<forall>i. k \<le> i \<and> i < 64 \<longrightarrow> bit addr i = bit addr k)
    \<longleftrightarrow> (\<forall>i. k \<le> i \<and> i < 64 \<longrightarrow> \<not> bit addr i) \<or> (\<forall>i. k \<le> i \<and> i < 64 \<longrightarrow> bit addr i)"
    using assms order.refl [of k] by metis
  then show ?thesis
    unfolding Let_def m unfolding mk z o s by blast
qed

section \<open>Translation as the architecture defines it\<close>

definition satp_levels :: "'d rv_machine \<Rightarrow> nat option" where
  "satp_levels env = vm_levels (get_field (satp env) SATP64_MODE)"

definition satp_root :: "'d rv_machine \<Rightarrow> nat" where
  "satp_root env = 4096 * unat (get_field (satp env) SATP64_PPN)"

definition arch_leaf :: "'d rv_machine \<Rightarrow> nat \<Rightarrow> u64 \<Rightarrow> (u64 \<times> nat \<times> nat) option \<Rightarrow> bool" where
  "arch_leaf env n addr r = (canonical n addr \<and> arch_walk env (unat addr) (n - 1) (satp_root env) r)"

lemma walk_leaf_parts:
  assumes "walk env addr 9 8 n base = Walk_leaf pte ppn a l" and "unat base < 2 ^ 57"
  shows "ppn = of_nat (pte_ppn pte) \<and> l < n \<and> pte_at env (unat a) = Some pte \<and> pte_kind_of env pte = Leaf_pte"
  using assms
proof (induction n arbitrary: base)
  case (Suc n)
  show ?case
    using Suc.prems Suc.IH [of "of_nat (4096 * pte_ppn p)" for p, unfolded of_nat_table(1), OF _ of_nat_table(2)] unfolding walk_steps [OF Suc.prems(2)]
    by (auto simp del: of_nat_mult of_nat_add simp: table_addr_back split: option.splits pte_kind.splits) fastforce
qed simp

lemma root_small: "unat (push_bit PGSHIFT (get_field (satp env) SATP64_PPN)) = satp_root env" "satp_root env < 2 ^ 57"
proof -
  have "unat (get_field (satp env) SATP64_PPN) < 2 ^ 44"
    unfolding field_ones using take_bit_nat_less_exp [of 44 "unat (satp env)"] by (simp add: get_field_ones unsigned_take_bit_eq)
  then show "unat (push_bit PGSHIFT (get_field (satp env) SATP64_PPN)) = satp_root env" "satp_root env < 2 ^ 57"
    unfolding satp_root_def by (simp_all only: unat_page) simp
qed

lemma vm_levels_format:
  assumes "vm_levels vm = Some n"
  shows "vm_format vm = Some (n, 9, 8)" and "vm \<noteq> VM_1_10_MBARE" and "n \<le> 5" and "0 < n"
  using assms by (auto simp: vm_levels_def vm_format_def split: if_splits)

lemma translate_cases:
  assumes "plain_mmu env" and "m < 3" and "satp_levels env = Some n"
  defines "base \<equiv> push_bit PGSHIFT (get_field (satp env) SATP64_PPN)"
  shows "get_physical_address_rv env addr t m =
    (if \<not> canonical n addr then Ret (TRANSLATE_FAIL, 0, 0) env
     else case walk env addr 9 8 n base of
       Walk_crash \<Rightarrow> Crash
     | Walk_ret r \<Rightarrow> Ret (r, 0, 0) env
     | Walk_leaf pte ppn a l \<Rightarrow>
         if 2 ^ (9 * l) dvd pte_ppn pte \<and> arch_permits env m t pte
         then Ret (TRANSLATE_SUCCESS, of_nat (4096 * pte_ppn pte + unat addr mod 2 ^ (12 + 9 * l)), kept_prot env m t pte) (mark_used t (unat a) pte env)
         else Ret (TRANSLATE_FAIL, 0, 0) env)"
proof -
  have vm: "vm_levels (get_field (satp env) SATP64_MODE) = Some n" using assms(3) unfolding satp_levels_def .
  note f = vm_levels_format [OF vm]
  have M: "mmuidx_priv m \<noteq> PRV_M" using assms(2) by (cases rule: mode_cases) simp_all
  have mmu: "cfg_mmu (cfg env)" using assms(1) by (simp add: plain_mmu_def)
  have b: "unat base < 2 ^ 57" unfolding base_def root_small(1) by (rule root_small(2))
  have va: "PGSHIFT + n * 9 - 1 = 11 + 9 * n" "11 + 9 * n < 64" using f(3,4) by simp_all
  have leaf: "(case leaf_prot env t m pte ppn (l * 9) of None \<Rightarrow> Crash | Some (Inl r) \<Rightarrow> Ret (r, 0, 0) env
      | Some (Inr prot) \<Rightarrow> leaf_done env addr t prot pte ppn a l (l * 9))
    = (if 2 ^ (9 * l) dvd pte_ppn pte \<and> arch_permits env m t pte
       then Ret (TRANSLATE_SUCCESS, of_nat (4096 * pte_ppn pte + unat addr mod 2 ^ (12 + 9 * l)), kept_prot env m t pte) (mark_used t (unat a) pte env)
       else Ret (TRANSLATE_FAIL, 0, 0) env)" if w: "walk env addr 9 8 n base = Walk_leaf pte ppn a l" for pte ppn a l
  proof -
    have p: "ppn = of_nat (pte_ppn pte)" "l \<le> 4" "pte_at env (unat a) = Some pte" "pte_kind_of env pte = Leaf_pte"
      using walk_leaf_parts [OF w b] f(3) by simp_all
    then have v: "leaf_pte pte" "unat pte < 2 ^ 54"
      unfolding plain_pte_kind [OF assms(1)] by (auto simp: valid_pte_def split: if_splits)
    have u: "unat (of_nat (pte_ppn pte) :: u64) = pte_ppn pte" using pte_ppn_less [of pte] by (intro unat_of_nat_small) simp
    have al: "ppn AND (push_bit (l * 9) 1 - 1) = 0 \<longleftrightarrow> 2 ^ (9 * l) dvd pte_ppn pte"
      unfolding align_mask aligned_iff p(1) u by (simp add: mult.commute)
    show ?thesis
      unfolding leaf_prot_arch [OF assms(1,2) v] al using leaf_done_arch [OF assms(1) p(3) _ p(2), of addr t m] p(1)
      by (simp del: of_nat_mult of_nat_add)
  qed
  show ?thesis
    unfolding get_physical_address_rv_def Let_def base_def [symmetric]
    using canonical_msbs [OF va(2), of addr] M mmu f(2)
    by (simp only: f(1) option.case prod.case va(1) canonical_def Let_def simp_thms if_False if_True)
      (auto simp: leaf split: walk_result.split)
qed

lemma walk_ret_fail: "walk env addr p s n base = Walk_ret r \<Longrightarrow> r = TRANSLATE_FAIL"
  by (induction n arbitrary: base) (auto simp: Let_def get_physical_address_pmp_def split: outcome.splits pte_kind.splits)

lemma walk_leaf_arch:
  fixes addr :: u64
  assumes "plain_mmu env" and "satp_levels env = Some n"
  defines "w \<equiv> walk env addr 9 8 n (push_bit PGSHIFT (get_field (satp env) SATP64_PPN))"
  shows "canonical n addr \<and> walk_view w = Some r \<longleftrightarrow> arch_leaf env n addr r"
proof -
  have "0 < n" using vm_levels_format(4) assms(2) by (simp add: satp_levels_def)
  then obtain k where "n = Suc k" using gr0_implies_Suc by blast
  moreover have "walk_view (walk env addr 9 8 (Suc k) (push_bit PGSHIFT (get_field (satp env) SATP64_PPN))) = Some r
    \<longleftrightarrow> arch_walk env (unat addr) k (satp_root env) r"
    unfolding root_small(1) [symmetric] by (rule walk_arch [OF assms(1)]) (unfold root_small(1), rule root_small(2))
  ultimately show ?thesis by (simp add: arch_leaf_def w_def del: walk.simps)
qed

lemma translation_arch:
  assumes "plain_mmu env" and "m < 3" and "satp_levels env = Some n"
  shows "get_physical_address_rv env addr t m = Ret (TRANSLATE_SUCCESS, pa, prot) env' \<longleftrightarrow>
      (\<exists>pte a l. arch_leaf env n addr (Some (pte, a, l)) \<and> 2 ^ (9 * l) dvd pte_ppn pte \<and> arch_permits env m t pte
        \<and> pa = of_nat (4096 * pte_ppn pte + unat addr mod 2 ^ (12 + 9 * l)) \<and> prot = kept_prot env m t pte \<and> env' = mark_used t a pte env)"
  unfolding translate_cases [OF assms, of addr t] walk_leaf_arch [OF assms(1,3), of addr, symmetric]
  using walk_ret_fail [of env addr 9 8 n "push_bit PGSHIFT (get_field (satp env) SATP64_PPN)"]
  by (cases "walk env addr 9 8 n (push_bit PGSHIFT (get_field (satp env) SATP64_PPN))") (auto simp del: of_nat_add of_nat_mult)

text \<open>
  (C31) \<open>get_physical_address\<close> translates as the architecture defines it, for every table format with 8-byte entries: it succeeds exactly if the
  tables lead to a leaf that is aligned for its level and permits the access, with the address and the permissions that follow
  from the leaf, and then marks the leaf as used; it faults the host exactly if an entry on the way lies outside the
  RAM; otherwise it reports a page fault and changes nothing.
\<close>

theorem page_walk_architecture:
  assumes "plain_mmu env" and "m < 3" and "satp_levels env = Some n"
  shows "(get_physical_address_rv env addr t m = Ret (TRANSLATE_SUCCESS, pa, prot) env' \<longleftrightarrow>
      (\<exists>pte a l. arch_leaf env n addr (Some (pte, a, l)) \<and> 2 ^ (9 * l) dvd pte_ppn pte \<and> arch_permits env m t pte
        \<and> pa = of_nat (4096 * pte_ppn pte + unat addr mod 2 ^ (12 + 9 * l)) \<and> prot = kept_prot env m t pte \<and> env' = mark_used t a pte env))
    \<and> (get_physical_address_rv env addr t m = Crash \<longleftrightarrow> arch_leaf env n addr None)
    \<and> (get_physical_address_rv env addr t m \<in> {Crash, Ret (TRANSLATE_FAIL, 0, 0) env}
      \<or> (\<exists>pa prot env'. get_physical_address_rv env addr t m = Ret (TRANSLATE_SUCCESS, pa, prot) env'))"
proof -
  let ?w = "walk env addr 9 8 n (push_bit PGSHIFT (get_field (satp env) SATP64_PPN))"
  note c = translate_cases [OF assms, of addr t]
  have r: "?w = Walk_ret x \<Longrightarrow> x = TRANSLATE_FAIL" for x by (rule walk_ret_fail)
  show ?thesis
    unfolding translation_arch [OF assms, symmetric] walk_leaf_arch [OF assms(1,3), of addr, symmetric] unfolding c
    using r by (cases ?w) (auto simp del: of_nat_add of_nat_mult)
qed

definition mmu_example :: "unit rv_machine" where
  "mmu_example = (tlb_flush_rv (zeroed_rv 0x100000 [] ()))\<lparr>cfg := zeroed_cfg\<lparr>cfg_mmu := True\<rparr>, satp := 0x8000000000080000,
    ram := store_bytes 0x80000008 (le_bytes 8 0x20000401)
      (store_bytes 0x80001008 (le_bytes 8 0x20000801) (store_bytes 0x80002008 (le_bytes 8 0x20001417) (\<lambda>_. 0)))\<rparr>"

lemma mmu_example_ptes:
  "pte_at mmu_example 0x80000008 = Some 0x20000401" "pte_at mmu_example 0x80001008 = Some 0x20000801" "pte_at mmu_example 0x80002008 = Some 0x20001417"
proof -
  have "ram_ok_rv 8 0x80000008 mmu_example" "ram_ok_rv 8 0x80001008 mmu_example" "ram_ok_rv 8 0x80002008 mmu_example"
    by (rule ram_ok_range; simp add: SZ_1G_rv_def SZ_2G_rv_def mmu_example_def tlb_flush_rv_def zeroed_rv_def)+
  then show "pte_at mmu_example 0x80000008 = Some 0x20000401" "pte_at mmu_example 0x80001008 = Some 0x20000801" "pte_at mmu_example 0x80002008 = Some 0x20001417"
    by (simp_all add: pte_at_def mmu_example_def aligned_store_load)
qed

lemma mmu_example_core: "plain_mmu mmu_example" "satp_levels mmu_example = Some 3" "satp_root mmu_example = 0x80000000"
proof -
  show "plain_mmu mmu_example"
    by (simp add: plain_mmu_def pbmte_def adue_def mmu_example_def tlb_flush_rv_def zeroed_rv_def zeroed_cfg_def)
  have "satp mmu_example = 0x8000000000080000" by (simp add: mmu_example_def tlb_flush_rv_def)
  then show "satp_levels mmu_example = Some 3" "satp_root mmu_example = 0x80000000"
    by (simp_all add: satp_levels_def satp_root_def vm_levels_def get_field_def low_one_def)
qed

lemma mmu_example_leaf: "arch_leaf mmu_example 3 0x40201234 (Some (0x20001417, 0x80002008, 0))"
proof -
  have v: "vpn 2 0x40201234 = 1" "vpn 1 0x40201234 = 1" "vpn 0 0x40201234 = 1" by (simp_all add: vpn_def)
  have p: "valid_pte 0x20000401" "valid_pte 0x20000801" "valid_pte 0x20001417" "\<not> leaf_pte 0x20000401" "\<not> leaf_pte 0x20000801" "leaf_pte 0x20001417"
    "pte_ppn 0x20000401 = 0x80001" "pte_ppn 0x20000801 = 0x80002"
    by (simp_all add: valid_pte_def leaf_pte_def pte_ppn_def)
  have "arch_walk mmu_example 0x40201234 0 0x80002000 (Some (0x20001417, 0x80002008, 0))"
    using arch_walk.leaf [where env = mmu_example and a = "0x80002000" and k = 0 and va = "0x40201234" and pte = "0x20001417"] by (simp add: v [unfolded One_nat_def] p mmu_example_ptes)
  then have "arch_walk mmu_example 0x40201234 1 0x80001000 (Some (0x20001417, 0x80002008, 0))"
    using arch_walk.pointer [where env = mmu_example and a = "0x80001000" and k = 0 and va = "0x40201234" and pte = "0x20000801"] by (simp add: v [unfolded One_nat_def] p mmu_example_ptes)
  then have "arch_walk mmu_example 0x40201234 2 0x80000000 (Some (0x20001417, 0x80002008, 0))"
    using arch_walk.pointer [where env = mmu_example and a = "0x80000000" and k = 1 and va = "0x40201234" and pte = "0x20000401"] by (simp add: v [unfolded numeral_2_eq_2 One_nat_def] p mmu_example_ptes numeral_2_eq_2)
  then show ?thesis
    by (simp add: arch_leaf_def mmu_example_core canonical_def)
qed

lemma mmu_example_permits:
  "arch_permits mmu_example 0 MMU_DATA_LOAD 0x20001417" "kept_prot mmu_example 0 MMU_DATA_LOAD 0x20001417 = PAGE_READ_rv" "pte_ppn 0x20001417 = 0x80005"
  by (simp_all add: arch_permits_def kept_prot_def arch_prot_def marked_def mmuidx_priv_def mmuidx_sum_def pte_ppn_def)

lemma mmu_example_translation:
  "get_physical_address_rv mmu_example 0x40201234 MMU_DATA_LOAD 0
    = Ret (TRANSLATE_SUCCESS, 0x80005234, PAGE_READ_rv) (mark_used MMU_DATA_LOAD 0x80002008 0x20001417 mmu_example)"
  by (rule translation_arch [where m = 0 and n = 3, THEN iffD2])
    (use mmu_example_core mmu_example_leaf mmu_example_permits in \<open>auto intro!: exI\<close>)

theorem page_walk_architecture_witness:
  "get_physical_address_rv mmu_example 0x40201234 MMU_DATA_LOAD 0
    = Ret (TRANSLATE_SUCCESS, 0x80005234, PAGE_READ_rv) (mark_used MMU_DATA_LOAD 0x80002008 0x20001417 mmu_example)"
  by (rule page_walk_architecture [where m = 0 and n = 3, THEN conjunct1, THEN iffD2])
    (use mmu_example_core mmu_example_leaf mmu_example_permits in \<open>auto intro!: exI\<close>)

end
