(* ===== verification/RV_TLB.thy ===== *)
theory RV_TLB
  imports RV_MMU
begin

text \<open>
  The translation buffer of the RISC-V build against the page walk: the invariant \<open>coherent\<close> (what the buffer answers is what a walk would answer now, and
  that walk would change nothing), that filling an entry keeps it although the walk writes the accessed and dirty bits of a leaf into the tables that other
  entries were read from, and the refinement of \<open>get_physical_address\<close> by \<open>trans_pa\<close>.
\<close>

section \<open>The translation buffer agrees with the walk\<close>

text \<open>Marking a leaf leaves the other entries and what the walks find.\<close>

lemma bit_marked: "bit (marked t pte) i = (bit pte i \<or> i = 6 \<or> i = 7 \<and> t = MMU_DATA_STORE)"
  unfolding marked_def by (cases "t = MMU_DATA_STORE") (simp_all only: bit_or_iff bit_pte_consts if_True if_False simp_thms bit_0_eq bot_fun_def, auto)

lemma marked_ppn [simp]: "pte_ppn (marked t pte) = pte_ppn pte"
proof -
  have "take_bit 44 (drop_bit 10 (marked t pte)) = take_bit 44 (drop_bit 10 pte)"
    by (intro bit_word_eqI) (auto simp: bit_marked bit_simps)
  then show ?thesis unfolding pte_ppn_def unat_field [symmetric] by simp
qed

lemma marked_valid [simp]: "valid_pte (marked t pte) = valid_pte pte" "leaf_pte (marked t pte) = leaf_pte pte"
proof -
  have "take_bit 54 (marked t pte) = marked t pte \<longleftrightarrow> take_bit 54 pte = pte"
    unfolding bit_eq_iff [of "take_bit 54 (marked t pte)"] bit_eq_iff [of "take_bit 54 pte"]
    by (auto simp: bit_marked bit_take_bit_iff)
  then have "unat (marked t pte) < 2 ^ 54 \<longleftrightarrow> unat pte < 2 ^ 54"
    by (simp add: word_unat_eq_iff unsigned_take_bit_eq take_bit_nat_eq_self_iff)
  then show "valid_pte (marked t pte) = valid_pte pte" by (simp add: valid_pte_def bit_marked)
  show "leaf_pte (marked t pte) = leaf_pte pte" by (simp add: leaf_pte_def bit_marked)
qed

lemma marked_permits [simp]: "arch_permits env m t' (marked t pte) = arch_permits env m t' pte"
  by (cases t') (simp_all add: arch_permits_def bit_marked)

lemma marked_twice: "marked t' pte = pte \<Longrightarrow> marked t' (marked t pte) = marked t pte"
  by (intro bit_word_eqI) (metis bit_marked)

lemma marked_same [simp]: "marked t (marked t pte) = marked t pte"
  by (intro bit_word_eqI) (auto simp: bit_marked)

lemma mark_used_fields [simp]:
  "cfg (mark_used t a pte env) = cfg env" "menvcfg (mark_used t a pte env) = menvcfg env" "mstatus (mark_used t a pte env) = mstatus env"
  "satp (mark_used t a pte env) = satp env" "priv (mark_used t a pte env) = priv env" "tlb (mark_used t a pte env) = tlb env"
  "pmp_state (mark_used t a pte env) = pmp_state env" "ram_size (mark_used t a pte env) = ram_size env"
  by (simp_all add: mark_used_def)

lemma ram_ok_mark [simp]: "ram_ok_rv n x (mark_used t a pte env) = ram_ok_rv n x env"
  by (simp add: ram_ok_rv_def addr_in_ram_rv_def)

lemma pte_at_marked:
  assumes "8 dvd a" and "8 dvd x" and "a < 2 ^ 64" and "x < 2 ^ 64" and "pte_at env a = Some pte"
  shows "pte_at (mark_used t a pte env) x = (if x = a then Some (marked t pte) else pte_at env x)"
proof -
  have e: "of_nat x = (of_nat a :: u64) \<longleftrightarrow> x = a"
    using assms(3,4) unat_of_nat_small by metis
  have "8 dvd unat (of_nat a :: u64)" "8 dvd unat (of_nat x :: u64)" using assms(1-4) by (simp_all add: unat_of_nat_small)
  then show ?thesis
    using assms(5) aligned_store_load [of "of_nat x" "of_nat a", where env = env and v = "marked t pte" and m = "ram env"] e
    by (auto simp: pte_at_def mark_used_def split: if_splits)
qed

lemma table_aligned: "8 dvd unat base \<Longrightarrow> 8 dvd unat base + 8 * vpn k va" for base :: u64
  by simp

lemma pte_kind_mark [simp]: "pte_kind_of (mark_used t a pte env) = pte_kind_of env"
  by (simp add: fun_eq_iff pte_kind_of_def pbmte_def)

fun remark :: "MMUAccessType \<Rightarrow> nat \<Rightarrow> walk_result \<Rightarrow> walk_result" where
  "remark t a (Walk_leaf pte ppn b l) = Walk_leaf (if unat b = a then marked t pte else pte) ppn b l"
| "remark t a w = w"

lemma walk_marked:
  assumes "plain_mmu env" and "8 dvd a" and "a < 2 ^ 64" and "pte_at env a = Some pte" and "pte_kind_of env pte = Leaf_pte"
    and "8 dvd unat base" and "unat base < 2 ^ 57"
  shows "walk (mark_used t a pte env) addr 9 8 n base = remark t a (walk env addr 9 8 n base)"
  using assms(6,7)
proof (induction n arbitrary: base)
  case (Suc n)
  let ?b = "unat base + 8 * vpn n (unat addr)"
  have b: "8 dvd ?b" "?b < 2 ^ 64" using Suc.prems vpn_less [of n "unat addr"] by simp_all
  note at = pte_at_marked [OF assms(2) b(1) assms(3) b(2) assms(4), of t]
  have k: "pte_kind_of env (marked t pte) = Leaf_pte"
    using assms(5) unfolding plain_pte_kind [OF assms(1)] by (auto split: if_splits)
  have IH: "walk (mark_used t a pte env) addr 9 8 n (of_nat (4096 * pte_ppn p)) = remark t a (walk env addr 9 8 n (of_nat (4096 * pte_ppn p)))" for p
    by (rule Suc.IH) (unfold of_nat_table(1), use of_nat_table(2) [of p] in simp_all)
  show ?case
    unfolding walk_steps [OF Suc.prems(2)] at
    using assms(4,5) k by (auto simp: IH unat_of_nat_small [OF b(2)] simp del: of_nat_mult of_nat_add walk.simps split: option.split pte_kind.split)
qed simp

text \<open>The modes of \<open>satp\<close> that a 64-bit core has.\<close>

definition vm_ok :: "'d rv_machine \<Rightarrow> bool" where
  "vm_ok env = (get_field (satp env) SATP64_MODE = VM_1_10_MBARE \<or> satp_levels env \<noteq> None)"

text \<open>A hit gives the address that a walk gives now, and that walk would mark nothing.\<close>

definition coherent :: "'d rv_machine \<Rightarrow> bool" where
  "coherent env \<longleftrightarrow> (\<forall>m va t ha. m < 4 \<longrightarrow> tlb_get_addr env va t m = Some ha
     \<longrightarrow> (\<exists>prot. get_physical_address_rv env va t m = Ret (TRANSLATE_SUCCESS, ha, prot) env))"

lemma page_not_all_ones: "va AND TARGET_PAGE_MASK_rv \<noteq> - 1" for va :: u64
proof
  assume e: "va AND TARGET_PAGE_MASK_rv = - 1"
  have "bit (va AND TARGET_PAGE_MASK_rv) 0 = bit (- 1 :: u64) 0" by (simp only: e)
  then show False by (simp add: bit_and_iff bit_not_iff)
qed

lemma coherent_empty:
  assumes "tlb env = (\<lambda>_ _. no_entry)"
  shows "coherent env"
proof -
  have "addr_idx no_entry t \<noteq> va AND TARGET_PAGE_MASK_rv" for t va
    using page_not_all_ones [of va, symmetric] by (cases t) (simp_all add: no_entry_def addr_idx_def)
  then have "tlb_get_addr env va t m = None" for va t m
    unfolding tlb_get_addr_def tlb_get_page_def Let_def assms by (simp only: if_False option.map)
  then show ?thesis by (simp add: coherent_def)
qed

lemma coherent_flush: "coherent (tlb_flush_rv env)"
  by (rule coherent_empty) (simp add: tlb_flush_rv_def)

text \<open>Translations by the identity, and by a leaf.\<close>

definition identity :: "'d rv_machine \<Rightarrow> nat \<Rightarrow> bool" where
  "identity env m \<longleftrightarrow> mmuidx_priv m = PRV_M \<or> get_field (satp env) SATP64_MODE = VM_1_10_MBARE"

lemma translate_identity:
  "identity env m \<Longrightarrow> get_physical_address_rv env addr t m = Ret (TRANSLATE_SUCCESS, addr, PAGE_READ_rv OR PAGE_WRITE_rv OR PAGE_EXEC_rv) env"
  by (auto simp: identity_def get_physical_address_rv_def Let_def)

lemma not_identity:
  assumes "vm_ok env" and "m < 4" and "\<not> identity env m"
  obtains n where "m < 3" "satp_levels env = Some n"
proof -
  have "m \<noteq> 3" using assms(3) by (auto simp: identity_def mmuidx_priv_def)
  then have "m < 3" using assms(2) by simp
  moreover obtain n where "satp_levels env = Some n" using assms(1,3) by (auto simp: vm_ok_def identity_def)
  ultimately show thesis by (rule that)
qed

text \<open>The state after a marking translation, up to the buffer.\<close>

definition same_but_tlb :: "'d rv_machine \<Rightarrow> 'd rv_machine \<Rightarrow> bool" where
  "same_but_tlb env env' \<longleftrightarrow> env' = env\<lparr>tlb := tlb env', tlbr_count := tlbr_count env'\<rparr>"

lemma walk_tlb [simp]: "walk (env\<lparr>tlb := x, tlbr_count := y\<rparr>) addr p s n base = walk env addr p s n base"
  by (induction n arbitrary: base)
    (auto simp: Let_def get_physical_address_pmp_def ram_ldd_rv_def ram_ld_rv_def ram_ok_rv_def ram_bytes_rv_def addr_in_ram_rv_def pte_kind_of_def pbmte_def
      split: pte_kind.split)

lemma permits_cong: "mstatus e = mstatus env \<Longrightarrow> arch_permits e m t pte = arch_permits env m t pte"
  by (cases t) (simp_all add: arch_permits_def)

lemma mark_tlb [simp]: "mark_used t a pte (env\<lparr>tlb := x, tlbr_count := y\<rparr>) = (mark_used t a pte env)\<lparr>tlb := x, tlbr_count := y\<rparr>"
  by (simp add: mark_used_def)

lemma marked_if_unchanged:
  assumes "pte_at env a = Some pte" and "8 dvd a" and "a < 2 ^ 64" and "mark_used t a pte env = env"
  shows "marked t pte = pte"
  using pte_at_marked [OF assms(2,2,3,3,1), of t] assms(1,4) by simp

lemma leaf_place:
  assumes "walk env addr 9 8 n base = Walk_leaf pte ppn a l" and "8 dvd unat base" and "unat base < 2 ^ 57"
  shows "8 dvd unat a"
  using assms
proof (induction n arbitrary: base)
  case (Suc n)
  have IH: "walk env addr 9 8 n (of_nat (4096 * pte_ppn p)) = Walk_leaf pte ppn a l \<Longrightarrow> 8 dvd unat a" for p
    using Suc.IH [of "of_nat (4096 * pte_ppn p)", unfolded of_nat_table(1)] of_nat_table(2) [of p] by simp
  show ?case
    using Suc.prems(1,2) IH unfolding walk_steps [OF Suc.prems(3)]
    by (auto simp: table_addr_back [OF Suc.prems(3)] simp del: of_nat_mult of_nat_add walk.simps split: option.splits pte_kind.splits)
qed simp

definition root_word :: "'d rv_machine \<Rightarrow> u64" where
  "root_word env = push_bit PGSHIFT (get_field (satp env) SATP64_PPN)"

lemma root_word: "8 dvd unat (root_word env)" "unat (root_word env) < 2 ^ 57"
  unfolding root_word_def root_small(1) using root_small(2) [of env] by (simp_all add: satp_root_def)

text \<open>What a successful translation by a leaf does.\<close>

lemma translate_success:
  assumes "plain_mmu env" and "m < 3" and "satp_levels env = Some n"
  shows "get_physical_address_rv env addr t m = Ret (TRANSLATE_SUCCESS, pa, prot) env' \<longleftrightarrow>
    canonical n addr \<and> (\<exists>pte ppn a l. walk env addr 9 8 n (root_word env) = Walk_leaf pte ppn a l \<and> 2 ^ (9 * l) dvd pte_ppn pte
      \<and> arch_permits env m t pte \<and> pa = of_nat (4096 * pte_ppn pte + unat addr mod 2 ^ (12 + 9 * l)) \<and> prot = kept_prot env m t pte
      \<and> env' = mark_used t (unat a) pte env)"
  unfolding translate_cases [OF assms] root_word_def [symmetric]
  using walk_ret_fail [of env addr 9 8 n "root_word env"]
  by (cases "walk env addr 9 8 n (root_word env)") (auto simp del: of_nat_add of_nat_mult)

text \<open>Marking the leaf of one translation keeps another one that marks nothing.\<close>

lemma translate_marked:
  assumes "plain_mmu env" and "m < 3" and "satp_levels env = Some n" and "get_physical_address_rv env addr t m = Ret (TRANSLATE_SUCCESS, pa, prot) env'"
    and "m' < 3" and "get_physical_address_rv env va t' m' = Ret (TRANSLATE_SUCCESS, ha, prot') env" and "same_but_tlb env' env2"
  shows "\<exists>prot. get_physical_address_rv env2 va t' m' = Ret (TRANSLATE_SUCCESS, ha, prot) env2"
proof -
  obtain pte ppn a l where w: "walk env addr 9 8 n (root_word env) = Walk_leaf pte ppn a l" and e': "env' = mark_used t (unat a) pte env"
    using assms(4) unfolding translate_success [OF assms(1-3)] by blast
  obtain qte qpn b k where v: "walk env va 9 8 n (root_word env) = Walk_leaf qte qpn b k" and c: "canonical n va"
    and q: "2 ^ (9 * k) dvd pte_ppn qte" "arch_permits env m' t' qte" "ha = of_nat (4096 * pte_ppn qte + unat va mod 2 ^ (12 + 9 * k))" "mark_used t' (unat b) qte env = env"
    using assms(6) unfolding translate_success [OF assms(1,5,3)] by metis
  have pa: "8 dvd unat a" "unat a < 2 ^ 64" "pte_at env (unat a) = Some pte" "pte_kind_of env pte = Leaf_pte"
    using leaf_place [OF w root_word] walk_leaf_parts [OF w root_word(2)] unsigned_less [of a, where 'a = nat] by auto
  have pb: "8 dvd unat b" "unat b < 2 ^ 64" "pte_at env (unat b) = Some qte"
    using leaf_place [OF v root_word] walk_leaf_parts [OF v root_word(2)] unsigned_less [of b, where 'a = nat] by auto
  have mk: "marked t' qte = qte" by (rule marked_if_unchanged [OF pb(3,1,2) q(4)])
  have r: "walk env' va 9 8 n (root_word env) = remark t (unat a) (Walk_leaf qte qpn b k)"
    unfolding e' v [symmetric] by (rule walk_marked [OF assms(1) pa root_word])
  have same: "b = a \<Longrightarrow> qte = pte" using pa(3) pb(3) by simp
  let ?q = "if unat b = unat a then marked t qte else qte"
  have e2: "env2 = env'\<lparr>tlb := tlb env2, tlbr_count := tlbr_count env2\<rparr>" using assms(7) by (simp add: same_but_tlb_def)
  have st: "mstatus env2 = mstatus env" by (subst e2) (simp add: e')
  have "plain_mmu env2" "satp_levels env2 = Some n" "root_word env2 = root_word env"
    using assms(1,3) by (subst e2, simp add: e' plain_mmu_def pbmte_def adue_def satp_levels_def root_word_def)+
  moreover have "walk env2 va 9 8 n (root_word env) = Walk_leaf ?q qpn b k"
    by (subst e2) (simp add: r)
  moreover have "arch_permits env2 m' t' ?q"
    using q(2) permits_cong [of env2 env m' t' ?q] by (simp add: st)
  moreover have "mark_used t' (unat b) ?q env2 = env2"
    using mk by (simp add: mark_used_def marked_twice)
  moreover have "pte_ppn ?q = pte_ppn qte" by simp
  ultimately show ?thesis
    using translate_success [OF _ assms(5), of env2 n va t' ha _ env2] c q(1,3) by (auto simp del: of_nat_mult of_nat_add)
qed

text \<open>Addresses of one page.\<close>

lemma page_mask: "va AND TARGET_PAGE_MASK_rv = push_bit 12 (drop_bit 12 va)" for va :: u64
proof -
  have "TARGET_PAGE_MASK_rv = NOT (mask 12)" by (simp add: mask_eq_exp_minus_1)
  then show ?thesis by (intro bit_word_eqI) (auto simp only: bit_and_iff bit_not_iff bit_mask_iff bit_push_bit_iff bit_drop_bit_eq possible_bit_word, auto)
qed

lemma same_page: "va AND TARGET_PAGE_MASK_rv = addr AND TARGET_PAGE_MASK_rv \<longleftrightarrow> drop_bit 12 va = drop_bit 12 addr" for va addr :: u64
  unfolding page_mask
proof
  assume "push_bit 12 (drop_bit 12 va) = push_bit 12 (drop_bit 12 addr)"
  then have "drop_bit 12 (push_bit 12 (drop_bit 12 va)) = drop_bit 12 (push_bit 12 (drop_bit 12 addr))" by simp
  moreover have "drop_bit 12 (push_bit 12 (drop_bit 12 x)) = drop_bit 12 x" for x :: u64
    by (intro bit_word_eqI) (auto simp: bit_simps dest: bit_imp_le_length)
  ultimately show "drop_bit 12 va = drop_bit 12 addr" by simp
qed simp

lemma same_page_shift: "drop_bit 12 va = drop_bit 12 addr \<Longrightarrow> 12 \<le> k \<Longrightarrow> drop_bit k va = drop_bit k addr" for va addr :: u64
  using drop_bit_drop_bit [of "k - 12" 12 va] drop_bit_drop_bit [of "k - 12" 12 addr] by simp

lemma page_split: "push_bit 12 (drop_bit 12 va) OR take_bit 12 va = va" for va :: u64
  by (intro bit_word_eqI) (auto simp: bit_simps)

lemma page_join: "push_bit 12 (drop_bit 12 (push_bit 12 x OR take_bit 12 y)) OR take_bit 12 z = push_bit 12 x OR take_bit 12 z" for x y z :: u64
  by (intro bit_word_eqI) (auto simp: bit_simps)

lemma walk_same_page: "drop_bit 12 va = drop_bit 12 addr \<Longrightarrow> walk env va p s n base = walk env addr p s n base"
proof (induction n arbitrary: base)
  case (Suc n)
  have "drop_bit (PGSHIFT + n * p) va = drop_bit (PGSHIFT + n * p) addr" by (rule same_page_shift [OF Suc.prems]) simp
  then show ?case unfolding walk.simps Let_def by (simp only: Suc.IH [OF Suc.prems])
qed simp

lemma canonical_same_page:
  assumes "drop_bit 12 va = drop_bit 12 addr" and "n \<le> 5" and "0 < n"
  shows "canonical n va = canonical n addr"
proof -
  have "drop_bit (11 + 9 * n) va = drop_bit (11 + 9 * n) addr" using assms(3) by (intro same_page_shift [OF assms(1)]) simp
  then show ?thesis
    unfolding canonical_def using canonical_msbs [of "11 + 9 * n" va] canonical_msbs [of "11 + 9 * n" addr] assms(2) by simp
qed

lemma TC_INDEX_page [simp]: "TC_INDEX_rv (addr AND TARGET_PAGE_MASK_rv) = TC_INDEX_rv addr"
proof -
  have "drop_bit 12 (push_bit 12 (drop_bit 12 addr)) = drop_bit 12 addr"
    by (intro bit_word_eqI) (auto simp: bit_simps dest: bit_imp_le_length)
  then show ?thesis unfolding TC_INDEX_rv_def page_mask by simp
qed

section \<open>Filling the buffer\<close>

lemma kept_prot_bit:
  "bit (kept_prot env m t pte) (access_number t') \<longleftrightarrow> arch_permits env m t' pte \<and> (t' = MMU_DATA_STORE \<longrightarrow> bit (marked t pte) 7)"
  by (cases t') (auto simp: kept_prot_def arch_prot_def access_number_def bit_simps)

definition new_entry :: "u64 \<Rightarrow> u64 \<Rightarrow> u32 \<Rightarrow> CPUTLBEntry" where
  "new_entry addr pa prot =
    (let page = addr AND TARGET_PAGE_MASK_rv
     in \<lparr>addr_read = (if bit prot 0 then page else - 1), addr_write = (if bit prot 1 then page else - 1),
         addr_code = (if bit prot 2 then page else - 1), addend = pa AND TARGET_PAGE_MASK_rv\<rparr>)"

lemma prot_bits: "prot AND PAGE_READ_rv = 0 \<longleftrightarrow> \<not> bit prot 0" "prot AND PAGE_WRITE_rv = 0 \<longleftrightarrow> \<not> bit prot 1" "prot AND PAGE_EXEC_rv = 0 \<longleftrightarrow> \<not> bit prot 2" for prot :: u32
  using and_exp_eq_0_iff_not_bit [of prot 0] and_exp_eq_0_iff_not_bit [of prot 1] and_exp_eq_0_iff_not_bit [of prot 2] by simp_all

lemma all_prot: "prot AND (PAGE_READ_rv OR PAGE_WRITE_rv OR PAGE_EXEC_rv) = take_bit 3 prot" for prot :: u32
  by (simp add: take_bit_eq_mask mask_eq_exp_minus_1)

lemma size_mask: "NOT (TARGET_PAGE_SIZE - 1) = (TARGET_PAGE_MASK_rv :: u64)"
  by simp

lemma set_page:
  fixes addr pa :: u64
  defines "page \<equiv> addr AND TARGET_PAGE_MASK_rv" and "frame \<equiv> pa AND TARGET_PAGE_MASK_rv"
  shows "tlb_set_page page frame (take_bit 3 prot) m TARGET_PAGE_SIZE env
    = Ret () (env\<lparr>tlb := (tlb env)(m := (tlb env m)(TC_INDEX_rv addr := new_entry addr pa prot)), tlbr_count := tlbr_count env + 1\<rparr>)"
proof -
  have al: "frame AND NOT TARGET_PAGE_MASK_rv = 0" "page AND NOT TARGET_PAGE_MASK_rv = 0" "page AND TARGET_PAGE_MASK_rv = page"
    by (simp_all add: page_def frame_def and.assoc)
  have i: "TC_INDEX_rv page = TC_INDEX_rv addr" unfolding page_def by (rule TC_INDEX_page)
  have e: "new_entry addr pa prot = \<lparr>addr_read = (if bit prot 0 then page else - 1), addr_write = (if bit prot 1 then page else - 1),
         addr_code = (if bit prot 2 then page else - 1), addend = frame\<rparr>"
    unfolding new_entry_def Let_def page_def frame_def ..
  have b: "bit (take_bit 3 prot) 0 = bit prot 0" "bit (take_bit 3 prot) 1 = bit prot 1" "bit (take_bit 3 prot) 2 = bit prot 2"
    by (simp_all add: bit_take_bit_iff)
  show ?thesis
    unfolding tlb_set_page_def al i e prot_bits b Let_def by simp
qed

lemma fill_sets:
  assumes "get_physical_address_rv env addr t m = Ret (TRANSLATE_SUCCESS, pa, prot) env1" and "pmp_get_tlb_size env1 pa = TARGET_PAGE_SIZE"
  shows "riscv_cpu_tlb_fill addr t m env = Ret () (env1\<lparr>tlb := (tlb env1)(m := (tlb env1 m)(TC_INDEX_rv addr := new_entry addr pa prot)), tlbr_count := tlbr_count env1 + 1\<rparr>)"
  unfolding riscv_cpu_tlb_fill_def assms(1) bind_out_simps prod.case get_physical_address_pmp_def Let_def assms(2) if_True all_prot size_mask set_page [symmetric]
  by (simp only: refl if_True prod.case size_mask)

section \<open>The buffer agrees with the tables\<close>

lemma same_but_tlb_fields [simp]:
  assumes "same_but_tlb env env'"
  shows "satp env' = satp env" "mstatus env' = mstatus env" "cfg env' = cfg env" "priv env' = priv env" "identity env' m = identity env m"
    "vm_ok env' = vm_ok env" "satp_levels env' = satp_levels env" "root_word env' = root_word env" "plain_mmu env' = plain_mmu env"
    "walk env' addr p s n base = walk env addr p s n base" "mark_used t a pte env = env \<Longrightarrow> mark_used t a pte env' = env'"
    "arch_permits env' m t pte = arch_permits env m t pte"
proof -
  have e: "env' = env\<lparr>tlb := tlb env', tlbr_count := tlbr_count env'\<rparr>" using assms by (simp add: same_but_tlb_def)
  show "satp env' = satp env" "mstatus env' = mstatus env" "cfg env' = cfg env" "priv env' = priv env" "identity env' m = identity env m"
    "vm_ok env' = vm_ok env" "satp_levels env' = satp_levels env" "root_word env' = root_word env" "plain_mmu env' = plain_mmu env"
    "walk env' addr p s n base = walk env addr p s n base"
    by (subst e, simp add: identity_def vm_ok_def satp_levels_def root_word_def plain_mmu_def pbmte_def adue_def)+
  show "arch_permits env' m t pte = arch_permits env m t pte"
    by (rule permits_cong) (subst e, simp)
  show "mark_used t a pte env' = env'" if "mark_used t a pte env = env"
    using that mark_tlb [where t = t and a = a and pte = pte and env = env and x = "tlb env'" and y = "tlbr_count env'"] e by simp
qed

lemma translate_keeps:
  assumes "plain_mmu env" and "vm_ok env" and "m < 4" and "m' < 4"
    and "get_physical_address_rv env addr t m = Ret (TRANSLATE_SUCCESS, pa, prot) env1" and "same_but_tlb env1 env2"
    and "get_physical_address_rv env va t' m' = Ret (TRANSLATE_SUCCESS, ha, prot') env"
  shows "\<exists>prot. get_physical_address_rv env2 va t' m' = Ret (TRANSLATE_SUCCESS, ha, prot) env2"
proof (cases "identity env m'")
  case True
  have "satp env1 = satp env"
  proof (cases "identity env m")
    case True then show ?thesis using assms(5) translate_identity [of env m addr t] by simp
  next
    case False
    then obtain n where "m < 3" "satp_levels env = Some n" using not_identity [OF assms(2,3)] by blast
    then show ?thesis using assms(5) translate_success [OF assms(1), of m n addr t pa prot env1] by auto
  qed
  then have "identity env2 m'" using True same_but_tlb_fields(1) [OF assms(6)] by (simp add: identity_def)
  then show ?thesis using translate_identity [of env2 m' va t'] translate_identity [OF True, of va t'] assms(7) by simp
next
  case F: False
  then obtain n where n: "m' < 3" "satp_levels env = Some n" using not_identity [OF assms(2,4)] by blast
  show ?thesis
  proof (cases "identity env m")
    case True
    then have e: "env1 = env" using assms(5) translate_identity [of env m addr t] by simp
    note f = same_but_tlb_fields [OF assms(6) [unfolded e]]
    have p: "plain_mmu env2" "satp_levels env2 = Some n" using f assms(1) n(2) by simp_all
    obtain pte ppn a l where "walk env va 9 8 n (root_word env) = Walk_leaf pte ppn a l" "canonical n va" "2 ^ (9 * l) dvd pte_ppn pte"
        "arch_permits env m' t' pte" "ha = of_nat (4096 * pte_ppn pte + unat va mod 2 ^ (12 + 9 * l))" "mark_used t' (unat a) pte env = env"
      using assms(7) unfolding translate_success [OF assms(1) n] by metis
    then show ?thesis
      unfolding translate_success [OF p(1) n(1) p(2)] using f by (auto simp del: of_nat_mult of_nat_add)
  next
    case False
    then have "m < 3" using not_identity [OF assms(2,3)] by blast
    then show ?thesis by (rule translate_marked [OF assms(1) _ n(2) assms(5) n(1) assms(7,6)])
  qed
qed

text \<open>The new entry.\<close>

lemma bit_frame: "(push_bit 12 x OR take_bit 12 y) AND TARGET_PAGE_MASK_rv OR take_bit 12 z = push_bit 12 x OR take_bit 12 z" for x y z :: u64
  unfolding page_mask by (rule page_join)

lemma offset: "a AND (TARGET_PAGE_SIZE - 1) = take_bit 12 a" for a :: u64
  by (simp add: take_bit_eq_mask mask_eq_exp_minus_1)

lemma new_entry_hit:
  assumes "addr_idx (new_entry addr pa prot) t = va AND TARGET_PAGE_MASK_rv"
  shows "bit prot (access_number t) \<and> drop_bit 12 va = drop_bit 12 addr"
  using assms page_not_all_ones [of va] unfolding same_page [symmetric]
  by (cases t) (auto simp: new_entry_def Let_def addr_idx_def access_number_def split: if_splits)

lemma new_entry_coherent:
  assumes "plain_mmu env" and "vm_ok env" and "m < 4"
    and "get_physical_address_rv env addr t m = Ret (TRANSLATE_SUCCESS, pa, prot) env1" and "same_but_tlb env1 env2"
    and "bit prot (access_number t')" and "drop_bit 12 va = drop_bit 12 addr"
  shows "\<exists>prot. get_physical_address_rv env2 va t' m = Ret (TRANSLATE_SUCCESS, (pa AND TARGET_PAGE_MASK_rv) OR take_bit 12 va, prot) env2"
proof (cases "identity env m")
  case True
  then have e: "env1 = env" "pa = addr" using assms(4) translate_identity [of env m addr t] by simp_all
  have "(addr AND TARGET_PAGE_MASK_rv) OR take_bit 12 va = va"
    unfolding page_mask assms(7) [symmetric] by (rule page_split)
  then show ?thesis
    using translate_identity [of env2 m va t'] same_but_tlb_fields(5) [OF assms(5) [unfolded e]] True e by simp
next
  case False
  then obtain n where n: "m < 3" "satp_levels env = Some n" using not_identity [OF assms(2,3)] by blast
  obtain pte ppn a l where w: "walk env addr 9 8 n (root_word env) = Walk_leaf pte ppn a l" and c: "canonical n addr"
    and q: "2 ^ (9 * l) dvd pte_ppn pte" "pa = of_nat (4096 * pte_ppn pte + unat addr mod 2 ^ (12 + 9 * l))"
      "prot = kept_prot env m t pte" "env1 = mark_used t (unat a) pte env"
    using assms(4) unfolding translate_success [OF assms(1) n] by blast
  have n5: "n \<le> 5" "0 < n" using vm_levels_format [of "get_field (satp env) SATP64_MODE" n] n(2) by (simp_all add: satp_levels_def)
  have wv: "walk env va 9 8 n (root_word env) = Walk_leaf pte ppn a l" by (rule trans [OF walk_same_page [OF assms(7)] w])
  have cv: "canonical n va" using c canonical_same_page [OF assms(7) n5] by simp
  have pa: "8 dvd unat a" "unat a < 2 ^ 64" "pte_at env (unat a) = Some pte" "pte_kind_of env pte = Leaf_pte" "l \<le> 4"
    using leaf_place [OF w root_word] walk_leaf_parts [OF w root_word(2)] unsigned_less [of a, where 'a = nat] n5 by auto
  have perm: "arch_permits env m t' pte" "t' = MMU_DATA_STORE \<Longrightarrow> bit (marked t pte) 7"
    using assms(6) unfolding q(3) kept_prot_bit by simp_all
  have "walk env1 va 9 8 n (root_word env) = remark t (unat a) (Walk_leaf pte ppn a l)"
    unfolding q(4) wv [symmetric] by (rule walk_marked [OF assms(1) pa(1-4) root_word])
  then have w2: "walk env2 va 9 8 n (root_word env2) = Walk_leaf (marked t pte) ppn a l"
    using same_but_tlb_fields [OF assms(5)] by (simp add: q(4) root_word_def)
  have "marked t' (marked t pte) = marked t pte"
    by (rule bit_word_eqI) (use perm(2) in \<open>auto simp: bit_marked\<close>)
  then have mk: "mark_used t' (unat a) (marked t pte) env2 = env2" by (simp add: mark_used_def)
  have pm: "arch_permits env2 m t' (marked t pte)"
    using perm(1) permits_cong [of env2 env m t' pte] same_but_tlb_fields(2) [OF assms(5)] by (simp add: q(4))
  have pl: "plain_mmu env2" "satp_levels env2 = Some n"
    using assms(1) n(2) same_but_tlb_fields [OF assms(5)] by (simp_all add: q(4) plain_mmu_def pbmte_def adue_def satp_levels_def)
  have dv: "drop_bit PGSHIFT va = drop_bit PGSHIFT addr" using assms(7) by simp
  have "(pa AND TARGET_PAGE_MASK_rv) OR take_bit 12 va = of_nat (4096 * pte_ppn pte + unat va mod 2 ^ (12 + 9 * l))"
    unfolding q(2) physical_word [OF q(1) pa(5)] dv by (rule bit_frame)
  then show ?thesis
    unfolding translate_success [OF pl(1) n(1) pl(2)] using cv w2 mk pm q(1) by (auto simp del: of_nat_mult of_nat_add)
qed

lemma success_state:
  assumes "plain_mmu env" and "vm_ok env" and "m < 4"
    and "get_physical_address_rv env addr t m = Ret (TRANSLATE_SUCCESS, pa, prot) env1"
  obtains r where "env1 = env\<lparr>ram := r\<rparr>"
proof (cases "identity env m")
  case True then show ?thesis using assms(4) translate_identity [of env m addr t] that [of "ram env"] by simp
next
  case False
  then obtain n where "m < 3" "satp_levels env = Some n" using not_identity [OF assms(2,3)] by blast
  then obtain a pte where "env1 = mark_used t a pte env" using assms(4) translate_success [OF assms(1), of m n addr t pa prot env1] by auto
  then show ?thesis using that [of "ram env1"] by (simp add: mark_used_def split: if_splits)
qed

lemma success_prot:
  assumes "plain_mmu env" and "vm_ok env" and "m < 4"
    and "get_physical_address_rv env addr t m = Ret (TRANSLATE_SUCCESS, pa, prot) env1"
  shows "bit prot (access_number t) \<and> (pa AND TARGET_PAGE_MASK_rv) OR take_bit 12 addr = pa"
proof (cases "identity env m")
  case True
  then have "pa = addr" "env1 = env" "prot = PAGE_READ_rv OR PAGE_WRITE_rv OR PAGE_EXEC_rv" using assms(4) translate_identity [of env m addr t] by simp_all
  moreover have "(addr AND TARGET_PAGE_MASK_rv) OR take_bit 12 addr = addr" unfolding page_mask by (rule page_split)
  ultimately show ?thesis by (cases t) (simp_all add: access_number_def)
next
  case False
  then obtain n where n: "m < 3" "satp_levels env = Some n" using not_identity [OF assms(2,3)] by blast
  obtain pte ppn a l where w: "walk env addr 9 8 n (root_word env) = Walk_leaf pte ppn a l"
    and q: "2 ^ (9 * l) dvd pte_ppn pte" "pa = of_nat (4096 * pte_ppn pte + unat addr mod 2 ^ (12 + 9 * l))" "arch_permits env m t pte"
      "prot = kept_prot env m t pte" "env1 = mark_used t (unat a) pte env"
    using assms(4) unfolding translate_success [OF assms(1) n] by blast
  have "n \<le> 5" using vm_levels_format [of "get_field (satp env) SATP64_MODE" n] n(2) by (simp add: satp_levels_def)
  then have l: "l \<le> 4" using walk_leaf_parts [OF w root_word(2)] by simp
  have "bit prot (access_number t)" unfolding q(4) kept_prot_bit using q(3) by (auto simp: bit_marked)
  moreover have "(pa AND TARGET_PAGE_MASK_rv) OR take_bit 12 addr = pa"
    unfolding q(2) physical_word [OF q(1) l] by (rule bit_frame)
  ultimately show ?thesis by simp
qed

lemma hit_frame: "tlb_get_addr env addr t m = (let e = tlb env m (TC_INDEX_rv addr) in if addr_idx e t = addr AND TARGET_PAGE_MASK_rv then Some (addend e OR take_bit 12 addr) else None)"
  unfolding tlb_get_addr_def tlb_get_page_def offset Let_def by simp

lemma fill_coherent:
  assumes "plain_mmu env" and "vm_ok env" and "m < 4" and "coherent env"
    and "get_physical_address_rv env addr t m = Ret (TRANSLATE_SUCCESS, pa, prot) env1"
  defines "env2 \<equiv> env1\<lparr>tlb := (tlb env1)(m := (tlb env1 m)(TC_INDEX_rv addr := new_entry addr pa prot)), tlbr_count := tlbr_count env1 + 1\<rparr>"
  shows "coherent env2"
proof -
  have sb: "same_but_tlb env1 env2" by (simp add: same_but_tlb_def env2_def)
  have tl: "tlb env1 = tlb env" by (rule success_state [OF assms(1-3,5)]) simp
  show ?thesis
    unfolding coherent_def
  proof (intro allI impI)
    fix m' va t' ha assume m': "m' < 4" and hit: "tlb_get_addr env2 va t' m' = Some ha"
    show "\<exists>prot. get_physical_address_rv env2 va t' m' = Ret (TRANSLATE_SUCCESS, ha, prot) env2"
    proof (cases "m' = m \<and> TC_INDEX_rv va = TC_INDEX_rv addr")
      case True
      then have "addr_idx (new_entry addr pa prot) t' = va AND TARGET_PAGE_MASK_rv" "ha = addend (new_entry addr pa prot) OR take_bit 12 va"
        using hit by (auto simp: hit_frame env2_def Let_def split: if_splits)
      then show ?thesis
        using new_entry_coherent [OF assms(1-3,5) sb, of t' va] new_entry_hit [of addr pa prot t' va] True by (simp add: new_entry_def Let_def)
    next
      case False
      then have "tlb env2 m' (TC_INDEX_rv va) = tlb env m' (TC_INDEX_rv va)" by (auto simp: env2_def tl)
      then have "tlb_get_addr env va t' m' = Some ha" using hit by (simp add: hit_frame)
      then obtain prot' where "get_physical_address_rv env va t' m' = Ret (TRANSLATE_SUCCESS, ha, prot') env"
        using assms(4) m' unfolding coherent_def by blast
      then show ?thesis by (rule translate_keeps [OF assms(1-3) m' assms(5) sb])
    qed
  qed
qed

lemma env_mmu_index_less: "priv env \<le> 3 \<Longrightarrow> riscv_env_mmu_index env ifetch < 4"
proof -
  assume "priv env \<le> 3"
  then have "unat (priv env) < 4" by (simp add: word_le_nat_alt)
  moreover have "unat (get_field (mstatus env) MSTATUS_MPP) < 4"
    unfolding field_ones using take_bit_nat_less_exp [of 2 "unat (drop_bit 11 (mstatus env))"] by (simp add: get_field_ones unsigned_take_bit_eq)
  ultimately show ?thesis by (simp add: riscv_env_mmu_index_def Let_def)
qed

text \<open>The invariant of the accesses.\<close>

definition mmu_ready :: "'d rv_machine \<Rightarrow> bool" where
  "mmu_ready env \<longleftrightarrow> plain_mmu env \<and> vm_ok env \<and> priv env \<le> 3 \<and> (\<forall>pa. pmp_get_tlb_size env pa = TARGET_PAGE_SIZE) \<and> coherent env"

lemma translation_outcome:
  assumes "plain_mmu env" and "vm_ok env" and "m < 4"
  shows "(\<exists>pa prot env1. get_physical_address_rv env addr t m = Ret (TRANSLATE_SUCCESS, pa, prot) env1)
    \<or> get_physical_address_rv env addr t m \<in> {Ret (TRANSLATE_FAIL, 0, 0) env, Crash}"
proof (cases "identity env m")
  case True then show ?thesis using translate_identity by blast
next
  case False
  then obtain n where n: "m < 3" "satp_levels env = Some n" using not_identity [OF assms(2,3)] by blast
  show ?thesis
    using walk_ret_fail [of env addr 9 8 n "root_word env"] unfolding translate_cases [OF assms(1) n] root_word_def [symmetric]
    by (cases "walk env addr 9 8 n (root_word env)") auto
qed

lemma tlb_size_cong:
  assumes "pmp_state e = pmp_state env" and "cfg e = cfg env"
  shows "pmp_get_tlb_size e pa = pmp_get_tlb_size env pa"
proof -
  have "split_by_rules is e x y = split_by_rules is env x y" for "is" x y
    by (induction "is") (simp_all add: assms Let_def)
  then show ?thesis by (simp add: pmp_get_tlb_size_def pmp_get_num_rules_def assms Let_def)
qed

lemma miss_fills:
  assumes "mmu_ready env" and "m < 4" and "tlb_get_addr env addr t m = None"
    and "get_physical_address_rv env addr t m = Ret (TRANSLATE_SUCCESS, pa, prot) env1"
  shows "\<exists>env2. riscv_cpu_tlb_fill addr t m env = Ret () env2 \<and> tlb_get_addr env2 addr t m = Some pa \<and> mmu_ready env2 \<and> same_but_tlb env1 env2"
proof -
  have r: "plain_mmu env" "vm_ok env" "coherent env" "priv env \<le> 3" and sz: "\<And>pa. pmp_get_tlb_size env pa = TARGET_PAGE_SIZE"
    using assms(1) by (simp_all add: mmu_ready_def)
  obtain x where x: "env1 = env\<lparr>ram := x\<rparr>" by (rule success_state [OF r(1,2) assms(2,4)])
  let ?e = "env1\<lparr>tlb := (tlb env1)(m := (tlb env1 m)(TC_INDEX_rv addr := new_entry addr pa prot)), tlbr_count := tlbr_count env1 + 1\<rparr>"
  have "pmp_get_tlb_size env1 pa = TARGET_PAGE_SIZE" "\<And>pa. pmp_get_tlb_size ?e pa = TARGET_PAGE_SIZE"
    using sz tlb_size_cong [of env1 env] tlb_size_cong [of ?e env] by (simp_all add: x)
  moreover have "tlb_get_addr ?e addr t m = Some pa"
    using success_prot [OF r(1,2) assms(2,4)]
    by (cases t) (simp_all add: hit_frame new_entry_def addr_idx_def access_number_def Let_def)
  moreover have "plain_mmu ?e" "vm_ok ?e" "priv ?e \<le> 3"
    using r by (simp_all add: x plain_mmu_def vm_ok_def pbmte_def adue_def satp_levels_def)
  moreover have "same_but_tlb env1 ?e" by (simp add: same_but_tlb_def)
  ultimately show ?thesis
    using fill_sets [OF assms(4)] fill_coherent [OF r(1,2) assms(2) r(3) assms(4)] unfolding mmu_ready_def by blast
qed

text \<open>
  (C32) \<open>trans_pa\<close> answers from the translation buffer what the page walk answers: hit or miss, it returns the address of the walk in the state
  of the walk, or raises the fault that the walk reports, and the buffer still agrees with the tables, also in the entries that were
  there before the walk marked a leaf; an empty buffer agrees with them.
\<close>

theorem cached_translation:
  assumes "mmu_ready env"
  shows "(case get_physical_address_rv env addr t (riscv_env_mmu_index env (t = MMU_INST_FETCH)) of
      Ret (r, pa, prot) env1 \<Rightarrow>
        if r = TRANSLATE_SUCCESS then \<exists>env2. trans_pa addr t env = Ret pa env2 \<and> mmu_ready env2 \<and> same_but_tlb env1 env2
        else trans_pa addr t env = Exn (raise_mmu_exception env addr t (r = TRANSLATE_PMP_FAIL))
    | Exn _ \<Rightarrow> False
    | Crash \<Rightarrow> trans_pa addr t env = Crash) \<and> coherent (tlb_flush_rv env)"
proof -
  let ?m = "riscv_env_mmu_index env (t = MMU_INST_FETCH)" and ?g = "get_physical_address_rv env addr t (riscv_env_mmu_index env (t = MMU_INST_FETCH))"
  have r: "plain_mmu env" "vm_ok env" "coherent env" and m: "?m < 4" and sz: "pmp_get_tlb_size env pa = TARGET_PAGE_SIZE" for pa
    using assms env_mmu_index_less [of env "t = MMU_INST_FETCH"] by (simp_all add: mmu_ready_def)
  have main: "case ?g of
      Ret (r, pa, prot) env1 \<Rightarrow>
        if r = TRANSLATE_SUCCESS then \<exists>env2. trans_pa addr t env = Ret pa env2 \<and> mmu_ready env2 \<and> same_but_tlb env1 env2
        else trans_pa addr t env = Exn (raise_mmu_exception env addr t (r = TRANSLATE_PMP_FAIL))
    | Exn _ \<Rightarrow> False
    | Crash \<Rightarrow> trans_pa addr t env = Crash"
  proof (cases "tlb_get_addr env addr t ?m")
    case (Some ha)
    then obtain prot where "?g = Ret (TRANSLATE_SUCCESS, ha, prot) env" using r(3) m unfolding coherent_def by blast
    then show ?thesis using Some assms by (simp add: trans_pa_def same_but_tlb_def)
  next
    case None
    show ?thesis
    proof (cases "\<exists>pa prot env1. ?g = Ret (TRANSLATE_SUCCESS, pa, prot) env1")
      case True
      then obtain pa prot env1 where g: "?g = Ret (TRANSLATE_SUCCESS, pa, prot) env1" by blast
      show ?thesis using miss_fills [OF assms m None g] g None by (auto simp: trans_pa_def)
    next
      case False
      then have "?g \<in> {Ret (TRANSLATE_FAIL, 0, 0) env, Crash}" using translation_outcome [OF r(1,2) m, of addr t] by blast
      then show ?thesis using None by (auto simp: trans_pa_def riscv_cpu_tlb_fill_def)
    qed
  qed
  show ?thesis by (rule conjI [OF main coherent_flush])
qed

lemma mmu_example_ready: "mmu_ready mmu_example"
proof -
  have "vm_ok mmu_example" using mmu_example_core(2) by (simp add: vm_ok_def)
  moreover have "priv mmu_example \<le> 3" "\<And>pa. pmp_get_tlb_size mmu_example pa = TARGET_PAGE_SIZE"
    by (simp_all add: mmu_example_def zeroed_rv_def zeroed_cfg_def pmp_get_tlb_size_def tlb_flush_rv_def)
  moreover have "coherent mmu_example" by (rule coherent_empty) (simp add: mmu_example_def tlb_flush_rv_def)
  ultimately show ?thesis
    using mmu_example_core(1) unfolding mmu_ready_def by simp
qed

theorem cached_translation_witness:
  "\<exists>env2. trans_pa 0x40201234 MMU_DATA_LOAD mmu_example = Ret 0x80005234 env2 \<and> mmu_ready env2"
proof -
  have i: "riscv_env_mmu_index mmu_example False = 0"
    by (simp add: riscv_env_mmu_index_def tlb_flush_rv_def mmu_example_def zeroed_rv_def)
  show ?thesis
    using cached_translation [OF mmu_example_ready, where addr = "0x40201234" and t = MMU_DATA_LOAD] by (auto simp: i mmu_example_translation)
qed

end
