(* ===== verification/RV_Mem.thy ===== *)
theory RV_Mem
  imports RV_TLB
begin

text \<open>
  The guest memory of the RISC-V build (\<open>riscv64/interpreter.c\<close>, \<open>main.c\<close>): \<open>load_pa\<close> and \<open>store_pa\<close> over \<open>trans_pa\<close>, then the RAM, or a
  device below 1 GB. An access that crosses a page is made byte by byte, from the highest address down, each byte with its own translation; so a store
  finds out whether its last byte faults before it writes any.
\<close>

definition is_one_page_rv :: "u64 \<Rightarrow> u64 \<Rightarrow> bool" where
  "is_one_page_rv addr bytes = (addr AND TARGET_PAGE_MASK_rv = (addr + bytes - 1) AND TARGET_PAGE_MASK_rv)"

definition is_two_page_rv :: "u64 \<Rightarrow> u64 \<Rightarrow> bool" where
  "is_two_page_rv addr bytes = (\<not> is_one_page_rv addr bytes)"

definition is_aligned_rv :: "u64 \<Rightarrow> u64 \<Rightarrow> bool" where
  "is_aligned_rv addr bytes = is_one_page_rv addr bytes"

definition is_unaligned_rv :: "u64 \<Rightarrow> u64 \<Rightarrow> bool" where
  "is_unaligned_rv addr bytes = (\<not> is_aligned_rv addr bytes)"

definition load_pa_rv :: "u64 \<Rightarrow> 'd rv_machine \<Rightarrow> (u64, 'd rv_machine) outcome" where
  "load_pa_rv addr env = trans_pa addr MMU_DATA_LOAD env"

definition store_pa_rv :: "u64 \<Rightarrow> 'd rv_machine \<Rightarrow> (u64, 'd rv_machine) outcome" where
  "store_pa_rv addr env = trans_pa addr MMU_DATA_STORE env"

section \<open>Devices\<close>

text \<open>A device access runs on the part of the machine that the devices can reach: their own state, the interrupt lines, the RAM.\<close>

definition world_rv :: "'d rv_machine \<Rightarrow> 'd rv_world" where
  "world_rv env = (devs env, rv_irq.truncate env, ram env)"

definition put_world_rv :: "'d rv_world \<Rightarrow> 'd rv_machine \<Rightarrow> 'd rv_machine" where
  "put_world_rv w env =
    (case w of (d, i, mem) \<Rightarrow>
      env\<lparr>mip := mip i, external_seip := external_seip i, software_seip := software_seip i, irq_count := irq_count i, clint_mtimecmp := clint_mtimecmp i,
        host_timer := host_timer i, icount := icount i, determined := determined i, clock_seq := clock_seq i, clock_pos := clock_pos i,
        ram := mem, devs := d\<rparr>)"

definition io_lift_rv :: "('a, 'd rv_world) outcome \<Rightarrow> 'd rv_machine \<Rightarrow> ('a, 'd rv_machine) outcome" where
  "io_lift_rv r env =
    (case r of Ret v w \<Rightarrow> Ret v (put_world_rv w env) | Exn w \<Rightarrow> Exn (put_world_rv w env) | Exit w \<Rightarrow> Exit (put_world_rv w env) | Crash \<Rightarrow> Crash)"

definition do_io_st_rv :: "u64 \<Rightarrow> u64 \<Rightarrow> u32 \<Rightarrow> 'd rv_machine \<Rightarrow> (unit, 'd rv_machine) outcome" where
  "do_io_st_rv ha data sz env = io_lift_rv (io_write (io_devices env) ha data sz (world_rv env)) env"

definition do_io_ld_rv :: "u64 \<Rightarrow> u32 \<Rightarrow> 'd rv_machine \<Rightarrow> (u64, 'd rv_machine) outcome" where
  "do_io_ld_rv ha sz env = io_lift_rv (io_read (io_devices env) ha sz (world_rv env)) env"

section \<open>Loads\<close>

text \<open>The result of a signed C type is the sign-extended number.\<close>

definition ld_b_rv :: "u64 \<Rightarrow> 'd rv_machine \<Rightarrow> (u64, 'd rv_machine) outcome" where
  "ld_b_rv va env =
    bind_out (load_pa_rv va env) (\<lambda>ha env.
      bind_out (if is_io_rv ha then do_io_ld_rv ha 1 env else ram_ldb_rv ha env) (\<lambda>data. Ret (sext 8 data)))"

fun ld_bytes_rv :: "nat \<Rightarrow> u64 \<Rightarrow> u64 \<Rightarrow> 'd rv_machine \<Rightarrow> (u64, 'd rv_machine) outcome" where
  "ld_bytes_rv 0 va data env = Ret data env"
| "ld_bytes_rv (Suc i) va data env =
    bind_out (ld_b_rv (va + of_nat i) env) (\<lambda>b. ld_bytes_rv i va (data OR push_bit (i * 8) (b AND 0xff)))"

text \<open>The common body of \<open>ld_h\<close>, \<open>ld_w\<close> and \<open>ld_d\<close>.\<close>

definition ld_body_rv :: "nat \<Rightarrow> (u64 \<Rightarrow> 'd rv_machine \<Rightarrow> (u64, 'd rv_machine) outcome) \<Rightarrow> u64 \<Rightarrow> 'd rv_machine \<Rightarrow> (u64, 'd rv_machine) outcome" where
  "ld_body_rv data_size ram_access va env =
    bind_out (load_pa_rv va env) (\<lambda>ha env.
      if is_io_rv ha then do_io_ld_rv ha (of_nat data_size) env
      else if is_aligned_rv va (of_nat data_size) then ram_access ha env
      else ld_bytes_rv data_size va 0 env)"

definition ld_h_rv :: "u64 \<Rightarrow> 'd rv_machine \<Rightarrow> (u64, 'd rv_machine) outcome" where
  "ld_h_rv va env = bind_out (ld_body_rv 2 ram_ldh_rv va env) (\<lambda>data. Ret (sext 16 data))"

definition ld_w_rv :: "u64 \<Rightarrow> 'd rv_machine \<Rightarrow> (u64, 'd rv_machine) outcome" where
  "ld_w_rv va env = bind_out (ld_body_rv 4 ram_ldw_rv va env) (\<lambda>data. Ret (sext 32 data))"

definition ld_d_rv :: "u64 \<Rightarrow> 'd rv_machine \<Rightarrow> (u64, 'd rv_machine) outcome" where
  "ld_d_rv va env = ld_body_rv 8 ram_ldd_rv va env"

section \<open>Stores\<close>

definition st_b_rv :: "u64 \<Rightarrow> u64 \<Rightarrow> 'd rv_machine \<Rightarrow> (unit, 'd rv_machine) outcome" where
  "st_b_rv va data env =
    bind_out (store_pa_rv va env) (\<lambda>ha env.
      if is_io_rv ha then do_io_st_rv ha (take_bit 8 data) 1 env else ram_stb_rv ha (take_bit 8 data) env)"

fun st_bytes_rv :: "nat \<Rightarrow> u64 \<Rightarrow> u64 \<Rightarrow> 'd rv_machine \<Rightarrow> (unit, 'd rv_machine) outcome" where
  "st_bytes_rv 0 va data env = Ret () env"
| "st_bytes_rv (Suc i) va data env =
    bind_out (st_b_rv (va + of_nat i) (drop_bit (i * 8) data AND 0xff) env) (\<lambda>_. st_bytes_rv i va data)"

definition st_body_rv :: "nat \<Rightarrow> (u64 \<Rightarrow> u64 \<Rightarrow> 'd rv_machine \<Rightarrow> (unit, 'd rv_machine) outcome) \<Rightarrow> u64 \<Rightarrow> u64 \<Rightarrow> 'd rv_machine \<Rightarrow> (unit, 'd rv_machine) outcome" where
  "st_body_rv data_size ram_access va data env =
    bind_out (store_pa_rv va env) (\<lambda>ha env.
      if is_io_rv ha then do_io_st_rv ha data (of_nat data_size) env
      else if is_aligned_rv va (of_nat data_size) then ram_access ha data env
      else st_bytes_rv data_size va data env)"

definition st_h_rv :: "u64 \<Rightarrow> u64 \<Rightarrow> 'd rv_machine \<Rightarrow> (unit, 'd rv_machine) outcome" where
  "st_h_rv va data env = st_body_rv 2 ram_sth_rv va (take_bit 16 data) env"

definition st_w_rv :: "u64 \<Rightarrow> u64 \<Rightarrow> 'd rv_machine \<Rightarrow> (unit, 'd rv_machine) outcome" where
  "st_w_rv va data env = st_body_rv 4 ram_stw_rv va (take_bit 32 data) env"

definition st_d_rv :: "u64 \<Rightarrow> u64 \<Rightarrow> 'd rv_machine \<Rightarrow> (unit, 'd rv_machine) outcome" where
  "st_d_rv va data env = st_body_rv 8 ram_std_rv va data env"

section \<open>Translations leave their page in the buffer\<close>

text \<open>What a translation that returns has done: the address is the walk's, the state that of the walk up to the buffer, and the page is in the buffer.\<close>

definition hits :: "'d rv_machine \<Rightarrow> u64 \<Rightarrow> MMUAccessType \<Rightarrow> u64 \<Rightarrow> bool" where
  "hits env va t ha = (tlb_get_addr env va t (riscv_env_mmu_index env (t = MMU_INST_FETCH)) = Some ha)"

abbreviation walked :: "'d rv_machine \<Rightarrow> u64 \<Rightarrow> MMUAccessType \<Rightarrow> (translate_ret \<times> u64 \<times> u32, 'd rv_machine) outcome" where
  "walked env va t \<equiv> get_physical_address_rv env va t (riscv_env_mmu_index env (t = MMU_INST_FETCH))"

definition other_page_kept :: "'d rv_machine \<Rightarrow> u64 \<Rightarrow> 'd rv_machine \<Rightarrow> bool" where
  "other_page_kept env va env' = (\<forall>m i. i \<noteq> TC_INDEX_rv va \<longrightarrow> tlb env' m i = tlb env m i)"

lemma same_but_tlb_refl [simp]: "same_but_tlb env env"
  by (simp add: same_but_tlb_def)

lemma trans_pa_hit: "hits env va t ha \<Longrightarrow> trans_pa va t env = Ret ha env"
  by (simp add: hits_def trans_pa_def Let_def)

lemma mmu_index_frame: "same_but_tlb env env' \<Longrightarrow> riscv_env_mmu_index env' b = riscv_env_mmu_index env b"
  by (simp add: riscv_env_mmu_index_def Let_def)

lemma trans_pa_Ret:
  assumes "mmu_ready env" and "trans_pa va t env = Ret ha env1"
  shows "\<exists>prot env2. walked env va t = Ret (TRANSLATE_SUCCESS, ha, prot) env2 \<and> same_but_tlb env2 env1 \<and> mmu_ready env1
    \<and> hits env1 va t ha \<and> other_page_kept env va env1"
proof -
  let ?m = "riscv_env_mmu_index env (t = MMU_INST_FETCH)"
  have r: "plain_mmu env" "vm_ok env" "coherent env" "?m < 4"
    using assms(1) env_mmu_index_less [of env "t = MMU_INST_FETCH"] by (simp_all add: mmu_ready_def)
  show ?thesis
  proof (cases "tlb_get_addr env va t ?m")
    case (Some a)
    then obtain prot where "walked env va t = Ret (TRANSLATE_SUCCESS, a, prot) env" using r unfolding coherent_def by blast
    then show ?thesis using Some assms by (simp add: trans_pa_def hits_def other_page_kept_def)
  next
    case None
    consider (ok) pa prot env2 where "walked env va t = Ret (TRANSLATE_SUCCESS, pa, prot) env2" | (no) "walked env va t \<in> {Ret (TRANSLATE_FAIL, 0, 0) env, Crash}"
      using translation_outcome [OF r(1,2,4), of va t] by blast
    then show ?thesis
    proof cases
      case ok
      obtain x where x: "env2 = env\<lparr>ram := x\<rparr>" by (rule success_state [OF r(1,2,4) ok])
      have sz: "pmp_get_tlb_size env2 pa = TARGET_PAGE_SIZE" using assms(1) tlb_size_cong [of env2 env pa] by (simp add: x mmu_ready_def)
      obtain e where e: "riscv_cpu_tlb_fill va t ?m env = Ret () e" "tlb_get_addr e va t ?m = Some pa" "mmu_ready e" "same_but_tlb env2 e"
        using miss_fills [OF assms(1) r(4) None ok] by blast
      then have "ha = pa" "env1 = e" using assms(2) None by (simp_all add: trans_pa_def)
      moreover have "riscv_env_mmu_index e (t = MMU_INST_FETCH) = ?m"
        unfolding mmu_index_frame [OF e(4)] by (simp add: riscv_env_mmu_index_def Let_def x)
      moreover have "other_page_kept env va e"
        using e(1) unfolding fill_sets [OF ok sz] by (auto simp: other_page_kept_def x)
      ultimately show ?thesis using e ok by (simp add: hits_def)
    next
      case no then show ?thesis using assms(2) None by (auto simp: trans_pa_def riscv_cpu_tlb_fill_def)
    qed
  qed
qed

lemma trans_pa_Exn:
  assumes "mmu_ready env" and "trans_pa va t env = Exn env1"
  shows "env1 = raise_mmu_exception env va t False"
proof -
  let ?m = "riscv_env_mmu_index env (t = MMU_INST_FETCH)"
  have r: "plain_mmu env" "vm_ok env" "?m < 4"
    using assms(1) env_mmu_index_less [of env "t = MMU_INST_FETCH"] by (simp_all add: mmu_ready_def)
  have None: "tlb_get_addr env va t ?m = None" using assms(2) by (auto simp: trans_pa_def Let_def split: option.splits)
  consider (ok) pa prot env2 where "walked env va t = Ret (TRANSLATE_SUCCESS, pa, prot) env2" | (no) "walked env va t \<in> {Ret (TRANSLATE_FAIL, 0, 0) env, Crash}"
    using translation_outcome [OF r, of va t] by blast
  then show ?thesis
  proof cases
    case ok then show ?thesis using miss_fills [OF assms(1) r(3) None ok] assms(2) None by (auto simp: trans_pa_def)
  next
    case no then show ?thesis using assms(2) None by (auto simp: trans_pa_def riscv_cpu_tlb_fill_def)
  qed
qed

text \<open>What a store or a device changes is nothing that a lookup reads.\<close>

definition same_lookups :: "'d rv_machine \<Rightarrow> 'd rv_machine \<Rightarrow> bool" where
  "same_lookups env env' \<longleftrightarrow> tlb env' = tlb env \<and> priv env' = priv env \<and> mstatus env' = mstatus env \<and> io_devices env' = io_devices env"

lemma hits_frame:
  assumes "same_lookups env env'" and "hits env va t ha"
  shows "hits env' va t ha"
proof -
  have "riscv_env_mmu_index env' b = riscv_env_mmu_index env b" for b
    using assms(1) by (simp add: same_lookups_def riscv_env_mmu_index_def Let_def)
  moreover have "tlb_get_addr env' a t m = tlb_get_addr env a t m" for a m
    using assms(1) by (simp add: same_lookups_def tlb_get_addr_def tlb_get_page_def)
  ultimately show ?thesis using assms(2) by (simp add: hits_def)
qed

lemma same_lookups_trans: "same_lookups a b \<Longrightarrow> same_lookups b c \<Longrightarrow> same_lookups a c"
  by (simp add: same_lookups_def)

text \<open>No device leaves its callback by a \<open>siglongjmp\<close>.\<close>

definition io_no_exn_rv :: "'d rv_machine \<Rightarrow> bool" where
  "io_no_exn_rv env = (\<forall>d \<in> set (io_devices env). \<forall>a v s w e. dev_write d a v s w \<noteq> Exn e)"

lemma dispatch_no_exn: "\<forall>d \<in> set ds. \<forall>a v s w e. dev_write d a v s w \<noteq> Exn e \<Longrightarrow> io_write ds ha data sz w \<noteq> Exn e"
  by (induction ds) auto

lemma io_write_no_exn_rv: "io_no_exn_rv env \<Longrightarrow> do_io_st_rv ha data sz env \<noteq> Exn e"
  using dispatch_no_exn [of "io_devices env" ha data sz "world_rv env"]
  by (auto simp only: do_io_st_rv_def io_lift_rv_def io_no_exn_rv_def split: outcome.splits)

lemma io_write_lookups: "do_io_st_rv ha data sz env = Ret () env' \<Longrightarrow> same_lookups env env'"
  by (auto simp: do_io_st_rv_def io_lift_rv_def put_world_rv_def same_lookups_def split: outcome.splits prod.splits)

lemma ram_st_lookups: "ram_st_rv n ha data env = Ret () env' \<Longrightarrow> same_lookups env env'"
  by (auto simp: ram_st_rv_def same_lookups_def split: if_splits)

lemma st_b_hit:
  assumes "hits env va MMU_DATA_STORE ha" and "io_no_exn_rv env"
  shows "st_b_rv va v env \<noteq> Exn e \<and> (st_b_rv va v env = Ret () env' \<longrightarrow> same_lookups env env' \<and> io_no_exn_rv env')"
proof -
  have s: "st_b_rv va v env = (if is_io_rv ha then do_io_st_rv ha (take_bit 8 v) 1 env else ram_st_rv 1 ha (take_bit 8 v) env)"
    by (simp add: st_b_rv_def store_pa_rv_def trans_pa_hit [OF assms(1)] ram_stb_rv_def)
  have "ram_st_rv 1 ha (take_bit 8 v) env \<noteq> Exn e" by (simp add: ram_st_rv_def)
  moreover have "st_b_rv va v env = Ret () env' \<Longrightarrow> same_lookups env env'"
    using io_write_lookups [of ha "take_bit 8 v" 1 env env'] ram_st_lookups [of 1 ha "take_bit 8 v" env env'] by (simp add: s split: if_splits)
  ultimately show ?thesis
    using io_write_no_exn_rv [OF assms(2)] assms(2) by (auto simp: s io_no_exn_rv_def same_lookups_def)
qed

lemma st_bytes_hit:
  assumes "\<forall>i < n. \<exists>ha. hits env (va + of_nat i) MMU_DATA_STORE ha" and "io_no_exn_rv env"
  shows "st_bytes_rv n va v env \<noteq> Exn e"
  using assms
proof (induction n arbitrary: env)
  case (Suc n)
  obtain ha where h: "hits env (va + of_nat n) MMU_DATA_STORE ha" using Suc.prems(1) by blast
  note s = st_b_hit [OF h Suc.prems(2), of "drop_bit (n * 8) v AND 0xff"]
  show ?case
  proof (cases "st_b_rv (va + of_nat n) (drop_bit (n * 8) v AND 0xff) env")
    case (Ret u env')
    then have e: "same_lookups env env'" "io_no_exn_rv env'" using s [of undefined env'] by simp_all
    have "\<forall>i < n. \<exists>ha. hits env' (va + of_nat i) MMU_DATA_STORE ha" using Suc.prems(1) hits_frame [OF e(1)] by (meson less_SucI)
    then show ?thesis using Suc.IH [OF _ e(2)] Ret by simp
  qed (use s in auto)
qed simp

section \<open>The pages of an access\<close>

lemma page_number: "unat (drop_bit 12 (va + of_nat i)) = ((unat va + i) div 4096) mod 2 ^ 52" for va :: u64
proof -
  have "unat (va + of_nat i) = (unat va + i) mod (4096 * 2 ^ 52)"
    by (simp add: unat_word_ariths unat_of_nat mod_simps)
  then have "unat (drop_bit 12 (va + of_nat i)) = (unat va + i) mod (4096 * 2 ^ 52) div 4096"
    by (simp add: unat_drop_bit_div)
  also have "\<dots> = ((unat va + i) div 4096) mod 2 ^ 52" unfolding mod_mult2_eq by simp
  finally show ?thesis .
qed

lemma page_of_byte:
  fixes va :: u64
  assumes "i < n" and "n \<le> 8"
  shows "drop_bit 12 (va + of_nat i) \<in> {drop_bit 12 va, drop_bit 12 (va + of_nat (n - 1))}"
proof -
  have "(unat va + i) div 4096 = unat va div 4096 \<or> (unat va + i) div 4096 = (unat va + (n - 1)) div 4096"
    using assms by linarith
  then show ?thesis
    using page_number [of va i] page_number [of va "n - 1"] page_number [of va 0] by (auto simp: word_unat_eq_iff)
qed

lemma next_page_index:
  fixes va :: u64
  assumes "n \<le> 8" and "drop_bit 12 (va + of_nat (n - 1)) \<noteq> drop_bit 12 va"
  shows "TC_INDEX_rv va \<noteq> TC_INDEX_rv (va + of_nat (n - 1))"
proof -
  have v0: "va + of_nat 0 = va" by simp
  have m: "TC_INDEX_rv a = unat (drop_bit 12 a) mod 256" for a
  proof -
    have e: "drop_bit TARGET_PAGE_BITS_rv a AND 0xff = take_bit 8 (drop_bit 12 a)" by (simp add: take_bit_eq_mask mask_eq_exp_minus_1)
    have "unat (take_bit 8 (drop_bit 12 a)) = unat (drop_bit 12 a) mod 2 ^ 8" unfolding unsigned_take_bit_eq by (rule take_bit_eq_mod)
    then show ?thesis unfolding TC_INDEX_rv_def e by simp
  qed
  have mm: "(x :: nat) mod 2 ^ 52 mod 256 = x mod 256" for x by (rule mod_mod_cancel) simp
  have "(unat va + (n - 1)) div 4096 \<noteq> unat va div 4096"
    using assms(2) page_number [of va "n - 1"] page_number [of va 0] by (auto simp: word_unat_eq_iff)
  then have e: "(unat va + (n - 1)) div 4096 = Suc (unat va div 4096)" using assms(1) by linarith
  have "(unat va + (n - 1)) div 4096 mod 256 \<noteq> unat va div 4096 mod 256" unfolding e by (simp add: mod_Suc)
  moreover have "unat (drop_bit 12 va) = (unat va div 4096) mod 2 ^ 52" using page_number [of va 0] v0 by (simp only: add_0_right)
  ultimately show ?thesis unfolding m page_number by (simp only: mm)
qed

lemma one_page: "is_aligned_rv va (of_nat n) \<longleftrightarrow> drop_bit 12 va = drop_bit 12 (va + of_nat n - 1)"
  unfolding is_aligned_rv_def is_one_page_rv_def same_page ..

lemma last_byte: "0 < n \<Longrightarrow> va + of_nat (n - 1) = va + of_nat n - 1" for va :: u64
  by (simp add: of_nat_diff)

lemma hits_page:
  assumes "hits env va t ha" and "drop_bit 12 a = drop_bit 12 va"
  shows "\<exists>ha'. hits env a t ha'"
proof -
  have "TC_INDEX_rv a = TC_INDEX_rv va" using assms(2) by (simp add: TC_INDEX_rv_def)
  moreover have "a AND TARGET_PAGE_MASK_rv = va AND TARGET_PAGE_MASK_rv" unfolding same_page by (rule assms(2))
  ultimately show ?thesis using assms(1) by (auto simp: hits_def hit_frame Let_def split: if_splits)
qed

lemma other_page_hits:
  assumes "hits env va t ha" and "other_page_kept env a env'" and "TC_INDEX_rv va \<noteq> TC_INDEX_rv a" and "priv env' = priv env" and "mstatus env' = mstatus env"
  shows "hits env' va t ha"
proof -
  have "riscv_env_mmu_index env' b = riscv_env_mmu_index env b" for b
    using assms(4,5) by (simp add: riscv_env_mmu_index_def Let_def)
  then show ?thesis using assms(1-3) by (simp add: hits_def hit_frame other_page_kept_def)
qed

section \<open>Stores that fault\<close>

text \<open>A store faults at its first byte, or at the last one after the walk of the first has succeeded; nothing else has happened.\<close>

definition store_fault :: "nat \<Rightarrow> u64 \<Rightarrow> 'd rv_machine \<Rightarrow> 'd rv_machine \<Rightarrow> bool" where
  "store_fault n va env env' \<longleftrightarrow> env' = raise_mmu_exception env va MMU_DATA_STORE False
    \<or> (\<exists>pa prot env1 env2. walked env va MMU_DATA_STORE = Ret (TRANSLATE_SUCCESS, pa, prot) env1 \<and> same_but_tlb env1 env2
        \<and> env' = raise_mmu_exception env2 (va + of_nat (n - 1)) MMU_DATA_STORE False)"

lemma walked_frame:
  assumes "mmu_ready env" and "walked env va t = Ret (TRANSLATE_SUCCESS, pa, prot) env1" and "same_but_tlb env1 env2"
  obtains r where "env2 = env\<lparr>ram := r, tlb := tlb env2, tlbr_count := tlbr_count env2\<rparr>"
proof -
  have r: "plain_mmu env" "vm_ok env" "riscv_env_mmu_index env (t = MMU_INST_FETCH) < 4"
    using assms(1) env_mmu_index_less [of env "t = MMU_INST_FETCH"] by (simp_all add: mmu_ready_def)
  obtain x where "env1 = env\<lparr>ram := x\<rparr>" by (rule success_state [OF r assms(2)])
  then show thesis using that [of x] assms(3) by (simp add: same_but_tlb_def)
qed

lemma st_cross_page:
  assumes "mmu_ready env" and "io_no_exn_rv env" and "hits env va MMU_DATA_STORE ha" and "1 < n" and "n \<le> 8" and "\<not> is_aligned_rv va (of_nat n)"
    and "st_bytes_rv n va v env = Exn env'"
  shows "env' = raise_mmu_exception env (va + of_nat (n - 1)) MMU_DATA_STORE False"
proof -
  obtain k where k: "n = Suc k" using assms(4) by (cases n) auto
  let ?a = "va + of_nat k" and ?b = "drop_bit (k * 8) v AND 0xff"
  have ne: "drop_bit 12 ?a \<noteq> drop_bit 12 va"
    using assms(6) last_byte [of n va] assms(4) unfolding one_page by (simp add: k)
  show ?thesis
  proof (cases "trans_pa ?a MMU_DATA_STORE env")
    case (Exn e)
    then have "st_bytes_rv n va v env = Exn e" by (simp add: k st_b_rv_def store_pa_rv_def)
    then show ?thesis using trans_pa_Exn [OF assms(1) Exn] assms(7) by (simp add: k)
  next
    case (Ret hb e)
    obtain prot env2 where w: "walked env ?a MMU_DATA_STORE = Ret (TRANSLATE_SUCCESS, hb, prot) env2" "same_but_tlb env2 e"
        "hits e ?a MMU_DATA_STORE hb" "other_page_kept env ?a e"
      using trans_pa_Ret [OF assms(1) Ret] by blast
    obtain r where e: "e = env\<lparr>ram := r, tlb := tlb e, tlbr_count := tlbr_count e\<rparr>" by (rule walked_frame [OF assms(1) w(1,2)])
    have f: "priv e = priv env" "mstatus e = mstatus env" "io_devices e = io_devices env" by (subst e, simp)+
    have "hits e va MMU_DATA_STORE ha"
      using other_page_hits [OF assms(3) w(4) _ f(1,2)] next_page_index [of n va] assms(5) ne by (simp add: k)
    then have "\<forall>i < n. \<exists>ha. hits e (va + of_nat i) MMU_DATA_STORE ha"
      using page_of_byte [of _ n va] assms(5) hits_page w(3) by (metis k diff_Suc_1 insertE singletonD)
    moreover have "io_no_exn_rv e" using assms(2) f(3) by (simp add: io_no_exn_rv_def)
    moreover have "st_bytes_rv n va v env = st_bytes_rv n va v e"
      by (simp add: k st_b_rv_def store_pa_rv_def Ret trans_pa_hit [OF w(3)])
    ultimately show ?thesis using st_bytes_hit [of n e va v env'] assms(7) by simp
  next
    case (Exit e) then show ?thesis using assms(7) by (simp add: k st_b_rv_def store_pa_rv_def)
  next
    case Crash then show ?thesis using assms(7) by (simp add: k st_b_rv_def store_pa_rv_def)
  qed
qed

definition rv_stores :: "((u64 \<Rightarrow> u64 \<Rightarrow> 'd rv_machine \<Rightarrow> (unit, 'd rv_machine) outcome) \<times> nat) list" where
  "rv_stores = [(st_b_rv, 1), (st_h_rv, 2), (st_w_rv, 4), (st_d_rv, 8)]"

lemma st_body_fault:
  assumes "mmu_ready env" and "io_no_exn_rv env" and "1 < n" and "n \<le> 8" and "\<And>x env e. acc x v env \<noteq> Exn e"
    and "st_body_rv n acc va v env = Exn env'"
  shows "store_fault n va env env'"
proof (cases "trans_pa va MMU_DATA_STORE env")
  case (Exn e)
  then show ?thesis using assms(6) trans_pa_Exn [OF assms(1) Exn] by (simp add: st_body_rv_def store_pa_rv_def store_fault_def)
next
  case (Ret ha e)
  obtain prot env2 where w: "walked env va MMU_DATA_STORE = Ret (TRANSLATE_SUCCESS, ha, prot) env2" "same_but_tlb env2 e" "mmu_ready e"
      "hits e va MMU_DATA_STORE ha"
    using trans_pa_Ret [OF assms(1) Ret] by blast
  obtain r where e: "e = env\<lparr>ram := r, tlb := tlb e, tlbr_count := tlbr_count e\<rparr>" by (rule walked_frame [OF assms(1) w(1,2)])
  have io: "io_no_exn_rv e" using assms(2) by (subst e) (simp add: io_no_exn_rv_def)
  have "\<not> is_aligned_rv va (of_nat n) \<and> st_bytes_rv n va v e = Exn env'"
    using assms(5,6) io_write_no_exn_rv [OF io] by (auto simp: st_body_rv_def store_pa_rv_def Ret split: if_splits)
  then have "env' = raise_mmu_exception e (va + of_nat (n - 1)) MMU_DATA_STORE False"
    using st_cross_page [OF w(3) io w(4) assms(3,4)] by blast
  then show ?thesis using w(1,2) unfolding store_fault_def by blast
qed (use assms(6) in \<open>simp_all add: st_body_rv_def store_pa_rv_def\<close>)

lemma rv_ram_tlb: "ram (env\<lparr>tlb := t, tlbr_count := c\<rparr>) = ram (env :: 'd rv_machine)"
  by simp

lemma ram_st_no_exn [simp]: "ram_st_rv n x v env \<noteq> Exn e"
  by (simp add: ram_st_rv_def)

text \<open>The RAM after a store that faults.\<close>

definition only_marked :: "u64 \<Rightarrow> 'd rv_machine \<Rightarrow> 'd rv_machine \<Rightarrow> bool" where
  "only_marked va env env' \<longleftrightarrow> ram env' = ram env \<or>
    (\<exists>k pte a l. satp_levels env = Some k \<and> arch_leaf env k va (Some (pte, a, l)) \<and> ram env' = ram (mark_used MMU_DATA_STORE a pte env))"

lemma walked_only_marks:
  assumes "mmu_ready env" and "walked env va MMU_DATA_STORE = Ret (TRANSLATE_SUCCESS, pa, prot) env1"
  shows "only_marked va env env1"
proof -
  let ?m = "riscv_env_mmu_index env False"
  have r: "plain_mmu env" "vm_ok env" "?m < 4"
    using assms(1) env_mmu_index_less [of env False] by (simp_all add: mmu_ready_def)
  show ?thesis
  proof (cases "identity env ?m")
    case True then show ?thesis using assms(2) translate_identity [of env ?m va MMU_DATA_STORE] by (simp add: only_marked_def)
  next
    case False
    then obtain n where n: "?m < 3" "satp_levels env = Some n" using not_identity [OF r(2,3)] by blast
    have "get_physical_address_rv env va MMU_DATA_STORE ?m = Ret (TRANSLATE_SUCCESS, pa, prot) env1" using assms(2) by simp
    then show ?thesis using n(2) unfolding translation_arch [OF r(1) n] only_marked_def by blast
  qed
qed

text \<open>
  (C35) A store that faults has stored none of its bytes and reached no device, also when it crosses into a page that faults: the state is that of the fault of
  the first byte, with the RAM unchanged, or of the last one, and then the walk of the first page has marked its page table entry as accessed and
  dirty, which is the only change of the RAM.
\<close>

theorem rv_store_fault_clean:
  assumes "(st, n) \<in> set rv_stores" and "mmu_ready env" and "io_no_exn_rv env" and "st va v env = Exn env'"
  shows "store_fault n va env env' \<and> only_marked va env env' \<and> gpr env' = gpr env \<and> pc env' = pc env \<and> devs env' = devs env"
proof -
  have "store_fault n va env env'"
  proof (cases "n = 1")
    case True
    then have s: "st_b_rv va v env = Exn env'" using assms(1,4) by (auto simp: rv_stores_def)
    show ?thesis
    proof (cases "trans_pa va MMU_DATA_STORE env")
      case (Exn e)
      then show ?thesis using s trans_pa_Exn [OF assms(2) Exn] by (simp add: st_b_rv_def store_pa_rv_def store_fault_def)
    next
      case (Ret ha e)
      obtain prot env2 where w: "walked env va MMU_DATA_STORE = Ret (TRANSLATE_SUCCESS, ha, prot) env2" "same_but_tlb env2 e"
        using trans_pa_Ret [OF assms(2) Ret] by blast
      obtain r where e: "e = env\<lparr>ram := r, tlb := tlb e, tlbr_count := tlbr_count e\<rparr>" by (rule walked_frame [OF assms(2) w])
      have "io_no_exn_rv e" using assms(3) by (subst e) (simp add: io_no_exn_rv_def)
      then show ?thesis using s io_write_no_exn_rv [of e] by (simp add: st_b_rv_def store_pa_rv_def Ret ram_stb_rv_def split: if_splits)
    qed (use s in \<open>simp_all add: st_b_rv_def store_pa_rv_def\<close>)
  next
    case False
    note f = st_body_fault [OF assms(2,3), where va = va and env' = env']
    show ?thesis
      using assms(1,4) False f [of 2 ram_sth_rv "take_bit 16 v"] f [of 4 ram_stw_rv "take_bit 32 v"] f [of 8 ram_std_rv v]
      by (auto simp: rv_stores_def st_h_rv_def st_w_rv_def st_d_rv_def ram_sth_rv_def ram_stw_rv_def ram_std_rv_def)
  qed
  moreover have "only_marked va env e' \<and> gpr e' = gpr env \<and> pc e' = pc env \<and> devs e' = devs env" if f: "store_fault n va env e'" for e'
    using f unfolding store_fault_def
  proof
    assume "\<exists>pa prot env1 env2. walked env va MMU_DATA_STORE = Ret (TRANSLATE_SUCCESS, pa, prot) env1 \<and> same_but_tlb env1 env2
      \<and> e' = raise_mmu_exception env2 (va + of_nat (n - 1)) MMU_DATA_STORE False"
    then obtain pa prot env1 env2 where w: "walked env va MMU_DATA_STORE = Ret (TRANSLATE_SUCCESS, pa, prot) env1" "same_but_tlb env1 env2"
      and e: "e' = raise_mmu_exception env2 (va + of_nat (n - 1)) MMU_DATA_STORE False" by blast
    obtain r where r: "env2 = env\<lparr>ram := r, tlb := tlb env2, tlbr_count := tlbr_count env2\<rparr>" by (rule walked_frame [OF assms(2) w])
    have "gpr env2 = gpr env" "pc env2 = pc env" "devs env2 = devs env" by (subst r, simp)+
    moreover have "ram env2 = ram env1"
    proof -
      have "env2 = env1\<lparr>tlb := tlb env2, tlbr_count := tlbr_count env2\<rparr>" using w(2) by (simp add: same_but_tlb_def)
      then show ?thesis by (metis rv_ram_tlb)
    qed
    ultimately show ?thesis
      using walked_only_marks [OF assms(2) w(1)] unfolding e raise_mmu_exception_def by (simp add: Let_def only_marked_def)
  qed (simp add: raise_mmu_exception_def Let_def only_marked_def)
  ultimately show ?thesis by blast
qed

lemma zero_bytes: "ram_bytes_rv n a (env\<lparr>ram := \<lambda>_. 0\<rparr>) = 0"
proof -
  have "le_load (replicate n 0) = 0" by (induction n) simp_all
  then show ?thesis by (simp add: ram_bytes_rv_def map_replicate_const)
qed

lemma null_misses: "st_d_rv 0 v mmu_example = Exn (raise_mmu_exception mmu_example 0 MMU_DATA_STORE False)"
proof -
  have i: "riscv_env_mmu_index mmu_example False = 0"
    by (simp add: riscv_env_mmu_index_def tlb_flush_rv_def mmu_example_def zeroed_rv_def)
  have "ram_ok_rv 8 0x80000000 mmu_example"
    by (rule ram_ok_range; simp add: SZ_1G_rv_def SZ_2G_rv_def mmu_example_def tlb_flush_rv_def zeroed_rv_def)
  then have p: "pte_at mmu_example 0x80000000 = Some 0"
    by (simp add: pte_at_def mmu_example_def aligned_store_load zero_bytes)
  have b: "unat (root_word mmu_example) = 0x80000000" unfolding root_word_def root_small(1) by (rule mmu_example_core(3))
  have "walk mmu_example 0 9 8 (Suc 2) (root_word mmu_example) = Walk_ret TRANSLATE_FAIL"
    unfolding walk_steps [OF root_word(2)] b by (simp add: vpn_def p plain_pte_kind [OF mmu_example_core(1)] valid_pte_def)
  then have w: "get_physical_address_rv mmu_example 0 MMU_DATA_STORE 0 = Ret (TRANSLATE_FAIL, 0, 0) mmu_example"
    using translate_cases [OF mmu_example_core(1) _ mmu_example_core(2), of 0] by (simp add: canonical_def root_word_def numeral_3_eq_3 numeral_2_eq_2)
  have "tlb_get_addr mmu_example 0 MMU_DATA_STORE 0 = None"
  proof (rule ccontr)
    assume "tlb_get_addr mmu_example 0 MMU_DATA_STORE 0 \<noteq> None"
    then obtain ha where h: "tlb_get_addr mmu_example 0 MMU_DATA_STORE 0 = Some ha" by blast
    have "coherent mmu_example" using mmu_example_ready by (simp add: mmu_ready_def)
    then have "\<exists>prot. get_physical_address_rv mmu_example 0 MMU_DATA_STORE 0 = Ret (TRANSLATE_SUCCESS, ha, prot) mmu_example"
      using h unfolding coherent_def by (metis zero_less_numeral)
    then show False by (simp add: w)
  qed
  then show ?thesis
    by (simp add: st_d_rv_def st_body_rv_def store_pa_rv_def trans_pa_def i riscv_cpu_tlb_fill_def w)
qed

theorem rv_store_fault_clean_witness:
  "st_d_rv 0 7 mmu_example = Exn (raise_mmu_exception mmu_example 0 MMU_DATA_STORE False)
    \<and> store_fault 8 0 mmu_example (raise_mmu_exception mmu_example 0 MMU_DATA_STORE False)"
proof -
  have "io_no_exn_rv mmu_example" by (simp add: io_no_exn_rv_def mmu_example_def tlb_flush_rv_def zeroed_rv_def)
  then show ?thesis
    using rv_store_fault_clean [of st_d_rv 8 mmu_example 0 7, OF _ mmu_example_ready _ null_misses] null_misses by (simp add: rv_stores_def)
qed

section \<open>Loads after stores\<close>

lemma trans_pa_walk:
  assumes "mmu_ready env" and "walked env va t = Ret (TRANSLATE_SUCCESS, pa, prot) env1"
  shows "\<exists>env2. trans_pa va t env = Ret pa env2 \<and> mmu_ready env2 \<and> same_but_tlb env1 env2"
proof -
  let ?m = "riscv_env_mmu_index env (t = MMU_INST_FETCH)"
  have r: "coherent env" "?m < 4" using assms(1) env_mmu_index_less [of env "t = MMU_INST_FETCH"] by (simp_all add: mmu_ready_def)
  show ?thesis
  proof (cases "tlb_get_addr env va t ?m")
    case None then show ?thesis using miss_fills [OF assms(1) r(2) None assms(2)] by (auto simp: trans_pa_def)
  next
    case (Some ha)
    then have "\<exists>prot. walked env va t = Ret (TRANSLATE_SUCCESS, ha, prot) env" using r unfolding coherent_def by blast
    then show ?thesis using Some assms by (auto simp: trans_pa_def)
  qed
qed

text \<open>A page that the buffer holds for stores it holds for loads: whoever may write a page may read it.\<close>

definition writable_readable :: "'d rv_machine \<Rightarrow> bool" where
  "writable_readable env \<longleftrightarrow> (\<forall>m i. addr_write (tlb env m i) \<noteq> - 1 \<longrightarrow> addr_read (tlb env m i) = addr_write (tlb env m i))"

lemma empty_writable: "tlb env = (\<lambda>_ _. no_entry) \<Longrightarrow> writable_readable env"
  by (simp add: writable_readable_def no_entry_def)

lemma success_readable:
  assumes "plain_mmu env" and "vm_ok env" and "m < 4"
    and "get_physical_address_rv env addr t m = Ret (TRANSLATE_SUCCESS, pa, prot) env1" and "bit prot 1"
  shows "bit prot 0"
proof (cases "identity env m")
  case True
  then show ?thesis using assms(4) translate_identity [of env m addr t] by simp
next
  case False
  then obtain n where n: "m < 3" "satp_levels env = Some n" using not_identity [OF assms(2,3)] by blast
  obtain pte where q: "prot = kept_prot env m t pte" using assms(4) unfolding translate_success [OF assms(1) n] by blast
  then have "arch_permits env m MMU_DATA_STORE pte"
    using kept_prot_bit [of env m t pte MMU_DATA_STORE] assms(5) by (simp add: access_number_def)
  then have "arch_permits env m MMU_DATA_LOAD pte" by (auto simp: arch_permits_def split: if_splits)
  then show ?thesis using q kept_prot_bit [of env m t pte MMU_DATA_LOAD] by (simp add: access_number_def)
qed

lemma translation_writable:
  assumes "mmu_ready env" and "writable_readable env" and "trans_pa va t env = Ret pa e"
  shows "writable_readable e"
proof -
  let ?m = "riscv_env_mmu_index env (t = MMU_INST_FETCH)"
  have r: "plain_mmu env" "vm_ok env" "?m < 4"
    using assms(1) env_mmu_index_less [of env "t = MMU_INST_FETCH"] by (simp_all add: mmu_ready_def)
  show ?thesis
  proof (cases "tlb_get_addr env va t ?m")
    case (Some a) then show ?thesis using assms(2,3) by (simp add: trans_pa_def)
  next
    case None
    obtain prot env1 where w: "walked env va t = Ret (TRANSLATE_SUCCESS, pa, prot) env1" using trans_pa_Ret [OF assms(1,3)] by blast
    obtain x where x: "env1 = env\<lparr>ram := x\<rparr>" by (rule success_state [OF r w])
    have "pmp_get_tlb_size env1 pa = TARGET_PAGE_SIZE" using assms(1) tlb_size_cong [of env1 env pa] by (simp add: x mmu_ready_def)
    then have "tlb e = (tlb env)(?m := (tlb env ?m)(TC_INDEX_rv va := new_entry va pa prot))"
      using assms(3) None fill_sets [OF w] by (auto simp: trans_pa_def Let_def x split: option.splits)
    moreover have "addr_write (new_entry va pa prot) \<noteq> - 1 \<longrightarrow> addr_read (new_entry va pa prot) = addr_write (new_entry va pa prot)"
      using success_readable [OF r w] by (simp add: new_entry_def Let_def)
    ultimately show ?thesis using assms(2) by (simp add: writable_readable_def)
  qed
qed

lemma store_page_readable:
  assumes "writable_readable env" and "hits env va MMU_DATA_STORE pa"
  shows "hits env va MMU_DATA_LOAD pa"
proof -
  let ?e = "tlb env (riscv_env_mmu_index env False) (TC_INDEX_rv va)"
  have "addr_write ?e = va AND TARGET_PAGE_MASK_rv" "pa = addend ?e OR take_bit 12 va"
    using assms(2) by (simp_all add: hits_def hit_frame addr_idx_def Let_def split: if_splits)
  moreover from this have "addr_read ?e = addr_write ?e"
    using assms(1) page_not_all_ones [of va] by (simp add: writable_readable_def)
  ultimately show ?thesis by (simp add: hits_def hit_frame addr_idx_def Let_def)
qed

lemma same_but_tlb_size:
  assumes "same_but_tlb env env'"
  shows "ram_size env' = ram_size env"
proof -
  have "env' = env\<lparr>tlb := tlb env', tlbr_count := tlbr_count env'\<rparr>" using assms by (simp add: same_but_tlb_def)
  then have "ram_size env' = ram_size (env\<lparr>tlb := tlb env', tlbr_count := tlbr_count env'\<rparr>)" by (rule arg_cong)
  then show ?thesis by simp
qed

definition rv_accesses :: "((u64 \<Rightarrow> u64 \<Rightarrow> 'd rv_machine \<Rightarrow> (unit, 'd rv_machine) outcome) \<times> (u64 \<Rightarrow> 'd rv_machine \<Rightarrow> (u64, 'd rv_machine) outcome) \<times> nat) list" where
  "rv_accesses = [(st_b_rv, ld_b_rv, 1), (st_h_rv, ld_h_rv, 2), (st_w_rv, ld_w_rv, 4), (st_d_rv, ld_d_rv, 8)]"

lemma sext_of_sext: "sext n (sext n v) = sext n v"
  by (simp add: sext_def)

lemma bit_sext_rv: "i < 64 \<Longrightarrow> bit (sext n v) i = bit v (min i (n - 1))"
  by (simp add: sext_def bit_signed_take_bit_iff min.commute)

lemma sext_of_take: "0 < n \<Longrightarrow> sext n (take_bit n v) = sext n v"
  by (rule bit_word_eqI) (auto simp: bit_sext_rv bit_take_bit_iff)

lemma sext_full: "sext 64 v = v"
  by (rule bit_word_eqI) (simp add: bit_sext_rv min_def)

lemma take_full: "take_bit 64 v = v" for v :: u64
  by (rule bit_word_eqI) (simp add: bit_take_bit_iff)

lemma store_in_page:
  assumes "(st, ld, n) \<in> set rv_accesses" and "is_aligned_rv va (of_nat n)" and "trans_pa va MMU_DATA_STORE env = Ret pa e" and "\<not> is_io_rv pa"
  shows "st va v env = ram_st_rv n pa (take_bit (8 * n) v) e"
  using assms by (auto simp: rv_accesses_def st_b_rv_def st_h_rv_def st_w_rv_def st_d_rv_def st_body_rv_def store_pa_rv_def ram_stb_rv_def ram_sth_rv_def ram_stw_rv_def ram_std_rv_def take_full)

lemma load_in_page:
  assumes "(st, ld, n) \<in> set rv_accesses" and "is_aligned_rv va (of_nat n)" and "trans_pa va MMU_DATA_LOAD env = Ret pa e" and "\<not> is_io_rv pa"
  shows "ld va env = bind_out (ram_ld_rv n pa e) (\<lambda>v. Ret (sext (8 * n) v))"
  using assms by (auto simp: rv_accesses_def ld_b_rv_def ld_h_rv_def ld_w_rv_def ld_d_rv_def ld_body_rv_def load_pa_rv_def ram_ldb_rv_def ram_ldh_rv_def ram_ldw_rv_def ram_ldd_rv_def
    sext_of_sext sext_full bind_out_assoc)

text \<open>
  (C36) What a store of 8, 4, 2 or 1 bytes within a page of RAM has written, the load of that size at that virtual address returns,
  sign-extended, with and without translation. The buffer of translations agrees with the page tables before the store, and its writable pages are
  readable, as every translation keeps it; the store itself may change the page tables, since the load finds the page in the buffer.
\<close>

theorem rv_store_load:
  assumes "(st, ld, n) \<in> set rv_accesses" and "mmu_ready env" and "writable_readable env" and "is_aligned_rv va (of_nat n)"
    and "trans_pa va MMU_DATA_STORE env = Ret pa e" and "\<not> is_io_rv pa" and "st va v env = Ret () env'"
  shows "ld va env' = Ret (sext (8 * n) v) env' \<and> writable_readable env'"
proof -
  have s: "ram_st_rv n pa (take_bit (8 * n) v) e = Ret () env'" using store_in_page [OF assms(1,4-6)] assms(7) by simp
  have w: "writable_readable e" by (rule translation_writable [OF assms(2,3,5)])
  have "hits e va MMU_DATA_LOAD pa"
    using store_page_readable [OF w] trans_pa_Ret [OF assms(2,5)] by blast
  then have "hits env' va MMU_DATA_LOAD pa" by (rule hits_frame [OF ram_st_lookups [OF s]])
  then have t: "trans_pa va MMU_DATA_LOAD env' = Ret pa env'" by (rule trans_pa_hit)
  have n: "n \<le> 8" "0 < n" using assms(1) by (auto simp: rv_accesses_def)
  have "ram_ld_rv n pa env' = Ret (take_bit (8 * n) v) env'"
    using ram_ld_after_st_rv [OF s n(1)] by simp
  then have "ld va env' = Ret (sext (8 * n) v) env'"
    using load_in_page [OF assms(1,4) t assms(6)] n(2) by (simp add: sext_of_take)
  moreover have "writable_readable env'" using w ram_st_lookups [OF s] by (simp add: writable_readable_def same_lookups_def)
  ultimately show ?thesis by blast
qed

text \<open>The user page at \<open>0x40201000\<close> of the example, through three levels of page tables.\<close>

theorem rv_store_load_witness:
  "\<exists>env'. st_d_rv 0x40201234 0x123456789 mmu_example = Ret () env' \<and> ld_d_rv 0x40201234 env' = Ret 0x123456789 env'"
proof -
  let ?v = "0x123456789 :: u64" and ?e = "mark_used MMU_DATA_STORE 0x80002008 0x20001417 mmu_example"
  have m: "riscv_env_mmu_index mmu_example False = 0"
    by (simp add: riscv_env_mmu_index_def tlb_flush_rv_def mmu_example_def zeroed_rv_def)
  have "arch_permits mmu_example 0 MMU_DATA_STORE 0x20001417"
    by (simp add: arch_permits_def mmuidx_priv_def)
  then have "\<exists>prot. walked mmu_example 0x40201234 MMU_DATA_STORE = Ret (TRANSLATE_SUCCESS, 0x80005234, prot) ?e"
    using translation_arch [OF mmu_example_core(1) _ mmu_example_core(2), of 0 "0x40201234" MMU_DATA_STORE] mmu_example_leaf mmu_example_permits(3) m
    by fastforce
  then obtain e where t: "trans_pa 0x40201234 MMU_DATA_STORE mmu_example = Ret 0x80005234 e" "same_but_tlb ?e e"
    using trans_pa_walk [OF mmu_example_ready] by blast
  have io: "\<not> is_io_rv 0x80005234" by (simp add: is_io_rv_def)
  have al: "is_aligned_rv 0x40201234 (of_nat 8)" by (simp add: is_aligned_rv_def is_one_page_rv_def)
  have mem: "(st_d_rv, ld_d_rv, 8) \<in> set rv_accesses" by (simp add: rv_accesses_def)
  have "ram_size e = ram_size ?e" by (rule same_but_tlb_size [OF t(2)])
  then have "ram_size e = 0x100000" by (simp add: mark_used_def mmu_example_def zeroed_rv_def tlb_flush_rv_def)
  then have "ram_ok_rv 8 0x80005234 e"
    by (intro ram_ok_range) (simp_all add: SZ_1G_rv_def SZ_2G_rv_def)
  then obtain env' where s: "ram_st_rv 8 0x80005234 (take_bit (8 * 8) ?v) e = Ret () env'" by (simp add: ram_st_rv_def)
  then have "st_d_rv 0x40201234 ?v mmu_example = Ret () env'"
    using store_in_page [OF mem al t(1) io, of ?v] by simp
  moreover have "writable_readable mmu_example" by (rule empty_writable) (simp add: mmu_example_def tlb_flush_rv_def)
  ultimately show ?thesis
    using rv_store_load [OF mem mmu_example_ready _ al t(1) io, of ?v env'] sext_full by auto
qed

section \<open>What an access keeps\<close>

text \<open>A property that does not depend on what translations, devices and the RAM change.\<close>

locale rv_access_inv =
  fixes I :: "'d rv_machine \<Rightarrow> bool"
  assumes upd [simp]: "I (env\<lparr>ram := r\<rparr>) = I env" "I (env\<lparr>tlb := t, tlbr_count := c\<rparr>) = I env"
    "I (env\<lparr>exception_index := e, badaddr := b\<rparr>) = I env" "I (put_world_rv wld env) = I env"
begin

lemma ram_I:
  assumes "I env"
  shows "out_inv I (ram_ld_rv n a env)" and "out_inv I (ram_st_rv n a v env)"
  using assms by (simp_all add: ram_ld_rv_def ram_st_rv_def)

lemma walk_I:
  assumes "I env"
  shows "out_inv I (get_physical_address_rv env addr t m)"
proof -
  have "out_inv I (leaf_done env addr t p pte ppn a l s)" for p pte ppn a l s
    unfolding leaf_done_def Let_def ram_std_rv_def
    by (intro out_inv_if out_inv_bindI ram_I assms; simp add: assms)
  then show ?thesis
    using assms by (auto simp: get_physical_address_rv_def Let_def split: option.split walk_result.split sum.split)
qed

lemma fill_I: "I env \<Longrightarrow> out_inv I (riscv_cpu_tlb_fill addr t m env)"
  unfolding riscv_cpu_tlb_fill_def
  by (rule out_inv_bindI, erule walk_I) (auto simp: tlb_set_page_def raise_mmu_exception_def get_physical_address_pmp_def Let_def)

lemma trans_I: "I env \<Longrightarrow> out_inv I (trans_pa addr t env)"
  unfolding trans_pa_def Let_def by (auto intro!: out_inv_bindI fill_I split: option.split)

lemma io_I:
  assumes "I env"
  shows "out_inv I (do_io_ld_rv ha sz env)" and "out_inv I (do_io_st_rv ha v sz env)"
  using assms by (simp_all add: do_io_ld_rv_def do_io_st_rv_def io_lift_rv_def split: outcome.split)

lemma ld_b_I: "I env \<Longrightarrow> out_inv I (ld_b_rv va env)"
  unfolding ld_b_rv_def load_pa_rv_def ram_ldb_rv_def by (auto intro!: out_inv_bindI trans_I io_I ram_I)

lemma ld_bytes_I: "I env \<Longrightarrow> out_inv I (ld_bytes_rv n va d env)"
  by (induction n va d env rule: ld_bytes_rv.induct) (auto intro!: out_inv_bindI ld_b_I)

lemma ld_body_I:
  assumes "\<And>ha e. I e \<Longrightarrow> out_inv I (acc ha e)" and "I env"
  shows "out_inv I (ld_body_rv n acc va env)"
  unfolding ld_body_rv_def load_pa_rv_def using assms by (auto intro!: out_inv_bindI trans_I io_I ld_bytes_I)

lemma loads_I:
  assumes "I env"
  shows "out_inv I (ld_h_rv va env)" and "out_inv I (ld_w_rv va env)" and "out_inv I (ld_d_rv va env)"
  unfolding ld_h_rv_def ld_w_rv_def ld_d_rv_def using assms
  by (auto intro!: out_inv_bindI ld_body_I ram_I simp: ram_ldh_rv_def ram_ldw_rv_def ram_ldd_rv_def)

lemma st_b_I: "I env \<Longrightarrow> out_inv I (st_b_rv va v env)"
  unfolding st_b_rv_def store_pa_rv_def ram_stb_rv_def by (auto intro!: out_inv_bindI trans_I io_I ram_I)

lemma st_bytes_I: "I env \<Longrightarrow> out_inv I (st_bytes_rv n va d env)"
  by (induction n va d env rule: st_bytes_rv.induct) (auto intro!: out_inv_bindI st_b_I)

lemma st_body_I:
  assumes "\<And>ha v e. I e \<Longrightarrow> out_inv I (acc ha v e)" and "I env"
  shows "out_inv I (st_body_rv n acc va v env)"
  unfolding st_body_rv_def store_pa_rv_def using assms by (auto intro!: out_inv_bindI trans_I io_I st_bytes_I)

lemma stores_I:
  assumes "I env"
  shows "out_inv I (st_h_rv va v env)" and "out_inv I (st_w_rv va v env)" and "out_inv I (st_d_rv va v env)"
  unfolding st_h_rv_def st_w_rv_def st_d_rv_def using assms
  by (auto intro!: st_body_I ram_I simp: ram_sth_rv_def ram_stw_rv_def ram_std_rv_def)

end

interpretation rv_core: rv_access_inv "\<lambda>e. gpr e = g \<and> pc e = p \<and> ol e = l \<and> cur_insn_len e = len \<and> load_res e = res \<and> load_val e = val" for g p l len res val
  by unfold_locales (simp_all add: put_world_rv_def split: prod.split)

end
