(* ===== verification/RV_Insn.thy ===== *)
theory RV_Insn
  imports RV_Mem "HOL-Library.Signed_Division"
begin

text \<open>
  The base integer instructions of the RISC-V build with the extensions M and A (\<open>riscv64/interpreter.c\<close>), one definition per \<open>trans\<close> function.

  \<^item> The argument structs that the decoder generates are one record, \<open>rv_arg\<close>, with the fields of all of them; register numbers are five bits
    by the decoder, \<open>imm\<close> is the C \<open>int\<close>.
  \<^item> \<open>interpreter\<close> sets \<open>ol\<close> to \<open>MXL_RV64\<close> before every instruction and the 32-bit forms set it to \<open>MXL_RV32\<close>, so the assertions of \<open>get_gpr\<close> and
    \<open>gen_set_gpr\<close> on other values are not reached; \<open>MXL_RV128\<close> behaves as \<open>MXL_RV64\<close>.
  \<^item> Signed arithmetic wraps, and a shift takes its amount modulo the width, as the hosts do. A division by zero, and the signed division
    of the least number by -1, trap on the host (\<open>Crash\<close>).
  \<^item> The wait of \<open>wfi\<close> takes a list that says, for every \<open>sleep(1)\<close>, whether the host timer fired in it; \<open>None\<close>: the list ended first.
  \<^item> The statistics of \<open>ecall\<close> (\<open>syscall_count\<close>) and of the performance counters are not part of the state.
\<close>

record rv_arg =
  rd :: nat
  rs1 :: nat
  rs2 :: nat
  imm :: int
  shamt :: nat

definition immw_rv :: "rv_arg \<Rightarrow> u64" where
  "immw_rv a = of_int (imm a)"

datatype DisasExtend_rv = EXT_NONE_rv | EXT_SIGN_rv | EXT_ZERO_rv

definition get_gpr :: "nat \<Rightarrow> DisasExtend_rv \<Rightarrow> 'd rv_machine \<Rightarrow> u64" where
  "get_gpr reg_num ext env =
    (if ol env = MXL_RV32 then
       (case ext of EXT_NONE_rv \<Rightarrow> gpr env reg_num | EXT_SIGN_rv \<Rightarrow> sext 32 (gpr env reg_num) | EXT_ZERO_rv \<Rightarrow> take_bit 32 (gpr env reg_num))
     else gpr env reg_num)"

definition gen_set_gpr :: "nat \<Rightarrow> u64 \<Rightarrow> 'd rv_machine \<Rightarrow> 'd rv_machine" where
  "gen_set_gpr reg_num t env =
    (if reg_num \<noteq> 0 then env\<lparr>gpr := (gpr env)(reg_num := if ol env = MXL_RV32 then sext 32 t else t)\<rparr> else env)"

definition gen_set_gpri :: "nat \<Rightarrow> u64 \<Rightarrow> 'd rv_machine \<Rightarrow> 'd rv_machine" where
  "gen_set_gpri reg_num t env =
    (if reg_num \<noteq> 0 then env\<lparr>gpr := (gpr env)(reg_num := if ol env = MXL_RV32 then sext 32 t else t)\<rparr> else env)"

definition gen_pc_plus_diff :: "u64 \<Rightarrow> 'd rv_machine \<Rightarrow> u64" where
  "gen_pc_plus_diff diff env = (let dest = pc env + diff in if xl env = MXL_RV32 then sext 32 dest else dest)"

definition get_address :: "nat \<Rightarrow> u64 \<Rightarrow> 'd rv_machine \<Rightarrow> u64" where
  "get_address r i env = (let addr = get_gpr r EXT_NONE_rv env + i in if address_xl env = MXL_RV32 then take_bit 32 addr else addr)"

definition cpu_set_pc :: "u64 \<Rightarrow> 'd rv_machine \<Rightarrow> 'd rv_machine" where
  "cpu_set_pc value env = env\<lparr>pc := if xl env = MXL_RV32 then sext 32 value else value\<rparr>"

text \<open>Division on the host, for \<open>n\<close> bits.\<close>

definition host_sdiv :: "nat \<Rightarrow> u64 \<Rightarrow> u64 \<Rightarrow> u64 option" where
  "host_sdiv n x y =
    (let a = sint (sext n x); b = sint (sext n y) in if b = 0 \<or> a = - (2 ^ (n - 1)) \<and> b = - 1 then None else Some (of_int (a sdiv b)))"

definition host_smod :: "nat \<Rightarrow> u64 \<Rightarrow> u64 \<Rightarrow> u64 option" where
  "host_smod n x y =
    (let a = sint (sext n x); b = sint (sext n y) in if b = 0 \<or> a = - (2 ^ (n - 1)) \<and> b = - 1 then None else Some (of_int (a smod b)))"

definition host_udiv :: "nat \<Rightarrow> u64 \<Rightarrow> u64 \<Rightarrow> u64 option" where
  "host_udiv n x y = (if take_bit n y = 0 then None else Some (take_bit n x div take_bit n y))"

definition host_umod :: "nat \<Rightarrow> u64 \<Rightarrow> u64 \<Rightarrow> u64 option" where
  "host_umod n x y = (if take_bit n y = 0 then None else Some (take_bit n x mod take_bit n y))"

definition set_result :: "rv_arg \<Rightarrow> u64 option \<Rightarrow> 'd rv_machine \<Rightarrow> (bool, 'd rv_machine) outcome" where
  "set_result a r env = (case r of None \<Rightarrow> Crash | Some v \<Rightarrow> Ret True (gen_set_gpr (rd a) v env))"

section \<open>Integer instructions\<close>

definition trans_addi_rv :: "rv_arg \<Rightarrow> 'd rv_machine \<Rightarrow> (bool, 'd rv_machine) outcome" where
  "trans_addi_rv a env =
    (let src1 = get_gpr (rs1 a) EXT_NONE_rv env
     in Ret True (gen_set_gpr (rd a) (src1 + immw_rv a) env))"

definition trans_addiw_rv :: "rv_arg \<Rightarrow> 'd rv_machine \<Rightarrow> (bool, 'd rv_machine) outcome" where
  "trans_addiw_rv a env =
    (let env = env\<lparr>ol := MXL_RV32\<rparr>; src1 = get_gpr (rs1 a) EXT_NONE_rv env
     in Ret True (gen_set_gpr (rd a) (src1 + immw_rv a) env))"

definition trans_addw_rv :: "rv_arg \<Rightarrow> 'd rv_machine \<Rightarrow> (bool, 'd rv_machine) outcome" where
  "trans_addw_rv a env =
    (let env = env\<lparr>ol := MXL_RV32\<rparr>; src1 = get_gpr (rs1 a) EXT_NONE_rv env; src2 = get_gpr (rs2 a) EXT_NONE_rv env
     in Ret True (gen_set_gpr (rd a) (sext 32 (src1 + src2)) env))"

definition trans_subw_rv :: "rv_arg \<Rightarrow> 'd rv_machine \<Rightarrow> (bool, 'd rv_machine) outcome" where
  "trans_subw_rv a env =
    (let env = env\<lparr>ol := MXL_RV32\<rparr>; src1 = get_gpr (rs1 a) EXT_NONE_rv env; src2 = get_gpr (rs2 a) EXT_NONE_rv env
     in Ret True (gen_set_gpr (rd a) (sext 32 (src1 - src2)) env))"

definition trans_slliw_rv :: "rv_arg \<Rightarrow> 'd rv_machine \<Rightarrow> (bool, 'd rv_machine) outcome" where
  "trans_slliw_rv a env =
    (let env = env\<lparr>ol := MXL_RV32\<rparr>; src1 = get_gpr (rs1 a) EXT_NONE_rv env
     in Ret True (gen_set_gpr (rd a) (push_bit (shamt a mod 64) src1) env))"

definition trans_sllw_rv :: "rv_arg \<Rightarrow> 'd rv_machine \<Rightarrow> (bool, 'd rv_machine) outcome" where
  "trans_sllw_rv a env =
    (let env = env\<lparr>ol := MXL_RV32\<rparr>; src1 = get_gpr (rs1 a) EXT_NONE_rv env; src2 = get_gpr (rs2 a) EXT_NONE_rv env
     in Ret True (gen_set_gpr (rd a) (push_bit (unat (src2 AND 0x1f)) src1) env))"

definition trans_srliw_rv :: "rv_arg \<Rightarrow> 'd rv_machine \<Rightarrow> (bool, 'd rv_machine) outcome" where
  "trans_srliw_rv a env =
    (let env = env\<lparr>ol := MXL_RV32\<rparr>; src1 = get_gpr (rs1 a) EXT_NONE_rv env
     in Ret True (gen_set_gpr (rd a) (drop_bit (shamt a mod 32) (take_bit 32 src1)) env))"

definition trans_srlw_rv :: "rv_arg \<Rightarrow> 'd rv_machine \<Rightarrow> (bool, 'd rv_machine) outcome" where
  "trans_srlw_rv a env =
    (let env = env\<lparr>ol := MXL_RV32\<rparr>; src1 = get_gpr (rs1 a) EXT_NONE_rv env; src2 = get_gpr (rs2 a) EXT_NONE_rv env
     in Ret True (gen_set_gpr (rd a) (drop_bit (unat (src2 AND 0x1f)) (take_bit 32 src1)) env))"

definition trans_sraiw_rv :: "rv_arg \<Rightarrow> 'd rv_machine \<Rightarrow> (bool, 'd rv_machine) outcome" where
  "trans_sraiw_rv a env =
    (let env = env\<lparr>ol := MXL_RV32\<rparr>; src1 = get_gpr (rs1 a) EXT_NONE_rv env
     in Ret True (gen_set_gpr (rd a) (signed_drop_bit (shamt a mod 32) (sext 32 src1)) env))"

definition trans_sraw_rv :: "rv_arg \<Rightarrow> 'd rv_machine \<Rightarrow> (bool, 'd rv_machine) outcome" where
  "trans_sraw_rv a env =
    (let env = env\<lparr>ol := MXL_RV32\<rparr>; src1 = get_gpr (rs1 a) EXT_NONE_rv env; src2 = get_gpr (rs2 a) EXT_NONE_rv env
     in Ret True (gen_set_gpr (rd a) (signed_drop_bit (unat (src2 AND 0x1f)) (sext 32 src1)) env))"

definition trans_add_rv :: "rv_arg \<Rightarrow> 'd rv_machine \<Rightarrow> (bool, 'd rv_machine) outcome" where
  "trans_add_rv a env =
    (let src1 = get_gpr (rs1 a) EXT_NONE_rv env; src2 = get_gpr (rs2 a) EXT_NONE_rv env
     in Ret True (gen_set_gpr (rd a) (src1 + src2) env))"

definition trans_sub_rv :: "rv_arg \<Rightarrow> 'd rv_machine \<Rightarrow> (bool, 'd rv_machine) outcome" where
  "trans_sub_rv a env =
    (let src1 = get_gpr (rs1 a) EXT_NONE_rv env; src2 = get_gpr (rs2 a) EXT_NONE_rv env
     in Ret True (gen_set_gpr (rd a) (src1 - src2) env))"

definition trans_and_rv :: "rv_arg \<Rightarrow> 'd rv_machine \<Rightarrow> (bool, 'd rv_machine) outcome" where
  "trans_and_rv a env =
    (let src1 = get_gpr (rs1 a) EXT_NONE_rv env; src2 = get_gpr (rs2 a) EXT_NONE_rv env
     in Ret True (gen_set_gpr (rd a) (src1 AND src2) env))"

definition trans_andi_rv :: "rv_arg \<Rightarrow> 'd rv_machine \<Rightarrow> (bool, 'd rv_machine) outcome" where
  "trans_andi_rv a env =
    (let src1 = get_gpr (rs1 a) EXT_NONE_rv env
     in Ret True (gen_set_gpr (rd a) (src1 AND immw_rv a) env))"

definition trans_or_rv :: "rv_arg \<Rightarrow> 'd rv_machine \<Rightarrow> (bool, 'd rv_machine) outcome" where
  "trans_or_rv a env =
    (let src1 = get_gpr (rs1 a) EXT_NONE_rv env; src2 = get_gpr (rs2 a) EXT_NONE_rv env
     in Ret True (gen_set_gpr (rd a) (src1 OR src2) env))"

definition trans_ori_rv :: "rv_arg \<Rightarrow> 'd rv_machine \<Rightarrow> (bool, 'd rv_machine) outcome" where
  "trans_ori_rv a env =
    (let src1 = get_gpr (rs1 a) EXT_NONE_rv env
     in Ret True (gen_set_gpr (rd a) (src1 OR immw_rv a) env))"

definition trans_xor_rv :: "rv_arg \<Rightarrow> 'd rv_machine \<Rightarrow> (bool, 'd rv_machine) outcome" where
  "trans_xor_rv a env =
    (let src1 = get_gpr (rs1 a) EXT_NONE_rv env; src2 = get_gpr (rs2 a) EXT_NONE_rv env
     in Ret True (gen_set_gpr (rd a) (src1 XOR src2) env))"

definition trans_xori_rv :: "rv_arg \<Rightarrow> 'd rv_machine \<Rightarrow> (bool, 'd rv_machine) outcome" where
  "trans_xori_rv a env =
    (let src1 = get_gpr (rs1 a) EXT_NONE_rv env
     in Ret True (gen_set_gpr (rd a) (src1 XOR immw_rv a) env))"

definition trans_auipc_rv :: "rv_arg \<Rightarrow> 'd rv_machine \<Rightarrow> (bool, 'd rv_machine) outcome" where
  "trans_auipc_rv a env =
    Ret True (gen_set_gpr (rd a) (gen_pc_plus_diff (immw_rv a) env) env)"

definition trans_lui_rv :: "rv_arg \<Rightarrow> 'd rv_machine \<Rightarrow> (bool, 'd rv_machine) outcome" where
  "trans_lui_rv a env =
    Ret True (gen_set_gpri (rd a) (immw_rv a) env)"

definition trans_mul_rv :: "rv_arg \<Rightarrow> 'd rv_machine \<Rightarrow> (bool, 'd rv_machine) outcome" where
  "trans_mul_rv a env =
    (let src1 = get_gpr (rs1 a) EXT_NONE_rv env; src2 = get_gpr (rs2 a) EXT_NONE_rv env
     in Ret True (gen_set_gpr (rd a) (src1 * src2) env))"

definition trans_div_rv :: "rv_arg \<Rightarrow> 'd rv_machine \<Rightarrow> (bool, 'd rv_machine) outcome" where
  "trans_div_rv a env =
    (let src1 = get_gpr (rs1 a) EXT_NONE_rv env; src2 = get_gpr (rs2 a) EXT_NONE_rv env
     in if src2 = 0 then set_result a (Some (- 1)) env
        else if xl env = MXL_RV32 \<and> src1 = - 0x80000000 \<and> sext 32 src2 = - 1 then set_result a (Some src1) env
        else if xl env = MXL_RV64 \<and> src1 = - 0x8000000000000000 \<and> src2 = - 1 then set_result a (Some src1) env
        else set_result a (host_sdiv 64 src1 src2) env)"

definition trans_rem_rv :: "rv_arg \<Rightarrow> 'd rv_machine \<Rightarrow> (bool, 'd rv_machine) outcome" where
  "trans_rem_rv a env =
    (let src1 = get_gpr (rs1 a) EXT_NONE_rv env; src2 = get_gpr (rs2 a) EXT_NONE_rv env
     in set_result a (host_smod 64 src1 src2) env)"

definition trans_divu_rv :: "rv_arg \<Rightarrow> 'd rv_machine \<Rightarrow> (bool, 'd rv_machine) outcome" where
  "trans_divu_rv a env =
    (let src1 = get_gpr (rs1 a) EXT_NONE_rv env; src2 = get_gpr (rs2 a) EXT_NONE_rv env
     in set_result a (host_udiv 64 src1 src2) env)"

definition trans_remu_rv :: "rv_arg \<Rightarrow> 'd rv_machine \<Rightarrow> (bool, 'd rv_machine) outcome" where
  "trans_remu_rv a env =
    (let src1 = get_gpr (rs1 a) EXT_NONE_rv env; src2 = get_gpr (rs2 a) EXT_NONE_rv env
     in set_result a (host_umod 64 src1 src2) env)"

definition trans_mulh_rv :: "rv_arg \<Rightarrow> 'd rv_machine \<Rightarrow> (bool, 'd rv_machine) outcome" where
  "trans_mulh_rv a env =
    (let src1 = get_gpr (rs1 a) EXT_NONE_rv env; src2 = get_gpr (rs2 a) EXT_NONE_rv env;
         dest = (if xl env = MXL_RV32 then signed_drop_bit 32 (sext 32 src1 * sext 32 src2) else of_int (sint src1 * sint src2 div 2 ^ 64))
     in Ret True (gen_set_gpr (rd a) dest env))"

definition trans_mulhu_rv :: "rv_arg \<Rightarrow> 'd rv_machine \<Rightarrow> (bool, 'd rv_machine) outcome" where
  "trans_mulhu_rv a env =
    (let src1 = get_gpr (rs1 a) EXT_NONE_rv env; src2 = get_gpr (rs2 a) EXT_NONE_rv env;
         dest = (if xl env = MXL_RV32 then signed_drop_bit 32 (take_bit 32 src1 * take_bit 32 src2) else of_int (uint src1 * uint src2 div 2 ^ 64))
     in Ret True (gen_set_gpr (rd a) dest env))"

definition trans_mulw_rv :: "rv_arg \<Rightarrow> 'd rv_machine \<Rightarrow> (bool, 'd rv_machine) outcome" where
  "trans_mulw_rv a env =
    (let env = env\<lparr>ol := MXL_RV32\<rparr>; src1 = get_gpr (rs1 a) EXT_NONE_rv env; src2 = get_gpr (rs2 a) EXT_NONE_rv env
     in Ret True (gen_set_gpr (rd a) (sext 32 (src1 * src2)) env))"

definition trans_divw_rv :: "rv_arg \<Rightarrow> 'd rv_machine \<Rightarrow> (bool, 'd rv_machine) outcome" where
  "trans_divw_rv a env =
    (let env = env\<lparr>ol := MXL_RV32\<rparr>; src1 = get_gpr (rs1 a) EXT_NONE_rv env; src2 = get_gpr (rs2 a) EXT_NONE_rv env
     in set_result a (host_sdiv 32 src1 src2) env)"

definition trans_divuw_rv :: "rv_arg \<Rightarrow> 'd rv_machine \<Rightarrow> (bool, 'd rv_machine) outcome" where
  "trans_divuw_rv a env =
    (let env = env\<lparr>ol := MXL_RV32\<rparr>; src1 = get_gpr (rs1 a) EXT_NONE_rv env; src2 = get_gpr (rs2 a) EXT_NONE_rv env
     in set_result a (host_udiv 32 src1 src2) env)"

definition trans_remw_rv :: "rv_arg \<Rightarrow> 'd rv_machine \<Rightarrow> (bool, 'd rv_machine) outcome" where
  "trans_remw_rv a env =
    (let env = env\<lparr>ol := MXL_RV32\<rparr>; src1 = get_gpr (rs1 a) EXT_NONE_rv env; src2 = get_gpr (rs2 a) EXT_NONE_rv env
     in set_result a (host_smod 32 src1 src2) env)"

definition trans_remuw_rv :: "rv_arg \<Rightarrow> 'd rv_machine \<Rightarrow> (bool, 'd rv_machine) outcome" where
  "trans_remuw_rv a env =
    (let env = env\<lparr>ol := MXL_RV32\<rparr>; src1 = get_gpr (rs1 a) EXT_NONE_rv env; src2 = get_gpr (rs2 a) EXT_NONE_rv env
     in set_result a (host_umod 32 src1 src2) env)"

definition trans_sll_rv :: "rv_arg \<Rightarrow> 'd rv_machine \<Rightarrow> (bool, 'd rv_machine) outcome" where
  "trans_sll_rv a env =
    (let src1 = get_gpr (rs1 a) EXT_NONE_rv env; src2 = get_gpr (rs2 a) EXT_NONE_rv env;
         (src1, src2) = (if xl env = MXL_RV32 then (take_bit 32 src1, src2 AND 0x1f) else (src1, src2 AND 0x3f))
     in Ret True (gen_set_gpr (rd a) (push_bit (unat src2) src1) env))"

definition trans_slli_rv :: "rv_arg \<Rightarrow> 'd rv_machine \<Rightarrow> (bool, 'd rv_machine) outcome" where
  "trans_slli_rv a env =
    (let src1 = get_gpr (rs1 a) EXT_NONE_rv env
     in Ret True (gen_set_gpr (rd a) (push_bit (shamt a mod 64) src1) env))"

definition trans_sra_rv :: "rv_arg \<Rightarrow> 'd rv_machine \<Rightarrow> (bool, 'd rv_machine) outcome" where
  "trans_sra_rv a env =
    (let src1 = get_gpr (rs1 a) EXT_NONE_rv env; src2 = get_gpr (rs2 a) EXT_NONE_rv env;
         (src1, src2) = (if xl env = MXL_RV32 then (sext 32 src1, src2 AND 0x1f) else (src1, src2 AND 0x3f))
     in Ret True (gen_set_gpr (rd a) (signed_drop_bit (unat src2) src1) env))"

definition trans_srai_rv :: "rv_arg \<Rightarrow> 'd rv_machine \<Rightarrow> (bool, 'd rv_machine) outcome" where
  "trans_srai_rv a env =
    (let src1 = get_gpr (rs1 a) EXT_NONE_rv env; src1 = (if xl env = MXL_RV32 then sext 32 src1 else src1)
     in Ret True (gen_set_gpr (rd a) (signed_drop_bit (shamt a mod 64) src1) env))"

definition trans_srl_rv :: "rv_arg \<Rightarrow> 'd rv_machine \<Rightarrow> (bool, 'd rv_machine) outcome" where
  "trans_srl_rv a env =
    (let src1 = get_gpr (rs1 a) EXT_NONE_rv env; src2 = get_gpr (rs2 a) EXT_NONE_rv env;
         (src1, src2) = (if xl env = MXL_RV32 then (take_bit 32 src1, src2 AND 0x1f) else (src1, src2 AND 0x3f))
     in Ret True (gen_set_gpr (rd a) (drop_bit (unat src2) src1) env))"

definition trans_srli_rv :: "rv_arg \<Rightarrow> 'd rv_machine \<Rightarrow> (bool, 'd rv_machine) outcome" where
  "trans_srli_rv a env =
    (let src1 = get_gpr (rs1 a) EXT_NONE_rv env; src1 = (if xl env = MXL_RV32 then take_bit 32 src1 else src1)
     in Ret True (gen_set_gpr (rd a) (drop_bit (shamt a mod 64) src1) env))"

definition trans_slt_rv :: "rv_arg \<Rightarrow> 'd rv_machine \<Rightarrow> (bool, 'd rv_machine) outcome" where
  "trans_slt_rv a env =
    Ret True (gen_set_gpr (rd a) (of_bool (get_gpr (rs1 a) EXT_SIGN_rv env <s get_gpr (rs2 a) EXT_SIGN_rv env)) env)"

definition trans_slti_rv :: "rv_arg \<Rightarrow> 'd rv_machine \<Rightarrow> (bool, 'd rv_machine) outcome" where
  "trans_slti_rv a env =
    Ret True (gen_set_gpr (rd a) (of_bool (get_gpr (rs1 a) EXT_SIGN_rv env <s immw_rv a)) env)"

definition trans_sltu_rv :: "rv_arg \<Rightarrow> 'd rv_machine \<Rightarrow> (bool, 'd rv_machine) outcome" where
  "trans_sltu_rv a env =
    Ret True (gen_set_gpr (rd a) (of_bool (get_gpr (rs1 a) EXT_SIGN_rv env < get_gpr (rs2 a) EXT_SIGN_rv env)) env)"

definition trans_sltiu_rv :: "rv_arg \<Rightarrow> 'd rv_machine \<Rightarrow> (bool, 'd rv_machine) outcome" where
  "trans_sltiu_rv a env =
    Ret True (gen_set_gpr (rd a) (of_bool (get_gpr (rs1 a) EXT_SIGN_rv env < immw_rv a)) env)"

section \<open>Branches\<close>

definition branch_rv :: "rv_arg \<Rightarrow> bool \<Rightarrow> 'd rv_machine \<Rightarrow> (bool, 'd rv_machine) outcome" where
  "branch_rv a taken env = Ret True (if taken then (cpu_set_pc (pc env + immw_rv a) env)\<lparr>cur_insn_len := 0\<rparr> else env)"

definition trans_beq_rv :: "rv_arg \<Rightarrow> 'd rv_machine \<Rightarrow> (bool, 'd rv_machine) outcome" where
  "trans_beq_rv a env =
    branch_rv a (get_gpr (rs1 a) EXT_SIGN_rv env = get_gpr (rs2 a) EXT_SIGN_rv env) env"

definition trans_bne_rv :: "rv_arg \<Rightarrow> 'd rv_machine \<Rightarrow> (bool, 'd rv_machine) outcome" where
  "trans_bne_rv a env =
    branch_rv a (get_gpr (rs1 a) EXT_SIGN_rv env \<noteq> get_gpr (rs2 a) EXT_SIGN_rv env) env"

definition trans_blt_rv :: "rv_arg \<Rightarrow> 'd rv_machine \<Rightarrow> (bool, 'd rv_machine) outcome" where
  "trans_blt_rv a env =
    branch_rv a (get_gpr (rs1 a) EXT_SIGN_rv env <s get_gpr (rs2 a) EXT_SIGN_rv env) env"

definition trans_bltu_rv :: "rv_arg \<Rightarrow> 'd rv_machine \<Rightarrow> (bool, 'd rv_machine) outcome" where
  "trans_bltu_rv a env =
    branch_rv a (get_gpr (rs1 a) EXT_SIGN_rv env < get_gpr (rs2 a) EXT_SIGN_rv env) env"

definition trans_bge_rv :: "rv_arg \<Rightarrow> 'd rv_machine \<Rightarrow> (bool, 'd rv_machine) outcome" where
  "trans_bge_rv a env =
    branch_rv a (get_gpr (rs2 a) EXT_SIGN_rv env \<le>s get_gpr (rs1 a) EXT_SIGN_rv env) env"

definition trans_bgeu_rv :: "rv_arg \<Rightarrow> 'd rv_machine \<Rightarrow> (bool, 'd rv_machine) outcome" where
  "trans_bgeu_rv a env =
    branch_rv a (get_gpr (rs2 a) EXT_SIGN_rv env \<le> get_gpr (rs1 a) EXT_SIGN_rv env) env"

definition trans_jal_rv :: "rv_arg \<Rightarrow> 'd rv_machine \<Rightarrow> (bool, 'd rv_machine) outcome" where
  "trans_jal_rv a env =
    (let target_pc = gen_pc_plus_diff (immw_rv a) env; succ_pc = gen_pc_plus_diff (ucast (cur_insn_len env)) env
     in Ret True ((cpu_set_pc target_pc (gen_set_gpr (rd a) succ_pc env))\<lparr>cur_insn_len := 0\<rparr>))"

definition trans_jalr_rv :: "rv_arg \<Rightarrow> 'd rv_machine \<Rightarrow> (bool, 'd rv_machine) outcome" where
  "trans_jalr_rv a env =
    (let target_pc = get_gpr (rs1 a) EXT_NONE_rv env + immw_rv a; succ_pc = gen_pc_plus_diff (ucast (cur_insn_len env)) env
     in Ret True ((cpu_set_pc target_pc (gen_set_gpr (rd a) succ_pc env))\<lparr>cur_insn_len := 0\<rparr>))"

section \<open>Loads and stores\<close>

definition trans_lb_rv :: "rv_arg \<Rightarrow> 'd rv_machine \<Rightarrow> (bool, 'd rv_machine) outcome" where
  "trans_lb_rv a env =
    bind_out (ld_b_rv (get_address (rs1 a) (immw_rv a) env) env) (\<lambda>dest env. Ret True (gen_set_gpr (rd a) dest env))"

definition trans_lbu_rv :: "rv_arg \<Rightarrow> 'd rv_machine \<Rightarrow> (bool, 'd rv_machine) outcome" where
  "trans_lbu_rv a env =
    bind_out (ld_b_rv (get_address (rs1 a) (immw_rv a) env) env) (\<lambda>dest env. Ret True (gen_set_gpr (rd a) (take_bit 8 dest) env))"

definition trans_lh_rv :: "rv_arg \<Rightarrow> 'd rv_machine \<Rightarrow> (bool, 'd rv_machine) outcome" where
  "trans_lh_rv a env =
    bind_out (ld_h_rv (get_address (rs1 a) (immw_rv a) env) env) (\<lambda>dest env. Ret True (gen_set_gpr (rd a) dest env))"

definition trans_lhu_rv :: "rv_arg \<Rightarrow> 'd rv_machine \<Rightarrow> (bool, 'd rv_machine) outcome" where
  "trans_lhu_rv a env =
    bind_out (ld_h_rv (get_address (rs1 a) (immw_rv a) env) env) (\<lambda>dest env. Ret True (gen_set_gpr (rd a) (take_bit 16 dest) env))"

definition trans_lw_rv :: "rv_arg \<Rightarrow> 'd rv_machine \<Rightarrow> (bool, 'd rv_machine) outcome" where
  "trans_lw_rv a env =
    bind_out (ld_w_rv (get_address (rs1 a) (immw_rv a) env) env) (\<lambda>dest env. Ret True (gen_set_gpr (rd a) dest env))"

definition trans_lwu_rv :: "rv_arg \<Rightarrow> 'd rv_machine \<Rightarrow> (bool, 'd rv_machine) outcome" where
  "trans_lwu_rv a env =
    bind_out (ld_w_rv (get_address (rs1 a) (immw_rv a) env) env) (\<lambda>dest env. Ret True (gen_set_gpr (rd a) (take_bit 32 dest) env))"

definition trans_ld_rv :: "rv_arg \<Rightarrow> 'd rv_machine \<Rightarrow> (bool, 'd rv_machine) outcome" where
  "trans_ld_rv a env =
    bind_out (ld_d_rv (get_address (rs1 a) (immw_rv a) env) env) (\<lambda>dest env. Ret True (gen_set_gpr (rd a) dest env))"

definition trans_sb_rv :: "rv_arg \<Rightarrow> 'd rv_machine \<Rightarrow> (bool, 'd rv_machine) outcome" where
  "trans_sb_rv a env =
    bind_out (st_b_rv (get_address (rs1 a) (immw_rv a) env) (get_gpr (rs2 a) EXT_NONE_rv env) env) (\<lambda>_. Ret True)"

definition trans_sh_rv :: "rv_arg \<Rightarrow> 'd rv_machine \<Rightarrow> (bool, 'd rv_machine) outcome" where
  "trans_sh_rv a env =
    bind_out (st_h_rv (get_address (rs1 a) (immw_rv a) env) (get_gpr (rs2 a) EXT_NONE_rv env) env) (\<lambda>_. Ret True)"

definition trans_sw_rv :: "rv_arg \<Rightarrow> 'd rv_machine \<Rightarrow> (bool, 'd rv_machine) outcome" where
  "trans_sw_rv a env =
    bind_out (st_w_rv (get_address (rs1 a) (immw_rv a) env) (get_gpr (rs2 a) EXT_NONE_rv env) env) (\<lambda>_. Ret True)"

definition trans_sd_rv :: "rv_arg \<Rightarrow> 'd rv_machine \<Rightarrow> (bool, 'd rv_machine) outcome" where
  "trans_sd_rv a env =
    bind_out (st_d_rv (get_address (rs1 a) (immw_rv a) env) (get_gpr (rs2 a) EXT_NONE_rv env) env) (\<lambda>_. Ret True)"

section \<open>Atomic instructions\<close>

text \<open>All of them load, read the operand, store, then write the old value; \<open>opr\<close> is the new value.\<close>

definition amo_w_rv :: "(u64 \<Rightarrow> u64 \<Rightarrow> u64) \<Rightarrow> rv_arg \<Rightarrow> 'd rv_machine \<Rightarrow> (bool, 'd rv_machine) outcome" where
  "amo_w_rv opr a env =
    (let addr = get_address (rs1 a) 0 env in
     bind_out (ld_w_rv addr env) (\<lambda>dest env.
       let data = get_gpr (rs2 a) EXT_NONE_rv env in
       bind_out (st_w_rv addr (opr dest data) env) (\<lambda>_ env. Ret True (gen_set_gpr (rd a) (sext 32 dest) env))))"

definition amo_d_rv :: "(u64 \<Rightarrow> u64 \<Rightarrow> u64) \<Rightarrow> rv_arg \<Rightarrow> 'd rv_machine \<Rightarrow> (bool, 'd rv_machine) outcome" where
  "amo_d_rv opr a env =
    (let addr = get_address (rs1 a) 0 env in
     bind_out (ld_d_rv addr env) (\<lambda>dest env.
       let data = get_gpr (rs2 a) EXT_NONE_rv env in
       bind_out (st_d_rv addr (opr dest data) env) (\<lambda>_ env. Ret True (gen_set_gpr (rd a) dest env))))"

definition trans_amoadd_w_rv :: "rv_arg \<Rightarrow> 'd rv_machine \<Rightarrow> (bool, 'd rv_machine) outcome" where
  "trans_amoadd_w_rv a env =
    amo_w_rv (\<lambda>x y. x + y) a env"

definition trans_amoadd_d_rv :: "rv_arg \<Rightarrow> 'd rv_machine \<Rightarrow> (bool, 'd rv_machine) outcome" where
  "trans_amoadd_d_rv a env =
    amo_d_rv (\<lambda>x y. x + y) a env"

definition trans_amoand_w_rv :: "rv_arg \<Rightarrow> 'd rv_machine \<Rightarrow> (bool, 'd rv_machine) outcome" where
  "trans_amoand_w_rv a env =
    amo_w_rv (\<lambda>x y. x AND y) a env"

definition trans_amoand_d_rv :: "rv_arg \<Rightarrow> 'd rv_machine \<Rightarrow> (bool, 'd rv_machine) outcome" where
  "trans_amoand_d_rv a env =
    amo_d_rv (\<lambda>x y. x AND y) a env"

definition trans_amoor_w_rv :: "rv_arg \<Rightarrow> 'd rv_machine \<Rightarrow> (bool, 'd rv_machine) outcome" where
  "trans_amoor_w_rv a env =
    amo_w_rv (\<lambda>x y. x OR y) a env"

definition trans_amoor_d_rv :: "rv_arg \<Rightarrow> 'd rv_machine \<Rightarrow> (bool, 'd rv_machine) outcome" where
  "trans_amoor_d_rv a env =
    amo_d_rv (\<lambda>x y. x OR y) a env"

definition trans_amoxor_w_rv :: "rv_arg \<Rightarrow> 'd rv_machine \<Rightarrow> (bool, 'd rv_machine) outcome" where
  "trans_amoxor_w_rv a env =
    amo_w_rv (\<lambda>x y. x XOR y) a env"

definition trans_amoxor_d_rv :: "rv_arg \<Rightarrow> 'd rv_machine \<Rightarrow> (bool, 'd rv_machine) outcome" where
  "trans_amoxor_d_rv a env =
    amo_d_rv (\<lambda>x y. x XOR y) a env"

definition trans_amomax_w_rv :: "rv_arg \<Rightarrow> 'd rv_machine \<Rightarrow> (bool, 'd rv_machine) outcome" where
  "trans_amomax_w_rv a env =
    amo_w_rv (\<lambda>x y. if sext 32 y <s sext 32 x then sext 32 x else sext 32 y) a env"

definition trans_amomax_d_rv :: "rv_arg \<Rightarrow> 'd rv_machine \<Rightarrow> (bool, 'd rv_machine) outcome" where
  "trans_amomax_d_rv a env =
    amo_d_rv (\<lambda>x y. if y <s x then x else y) a env"

definition trans_amomaxu_w_rv :: "rv_arg \<Rightarrow> 'd rv_machine \<Rightarrow> (bool, 'd rv_machine) outcome" where
  "trans_amomaxu_w_rv a env =
    amo_w_rv (\<lambda>x y. if take_bit 32 y < take_bit 32 x then take_bit 32 x else take_bit 32 y) a env"

definition trans_amomaxu_d_rv :: "rv_arg \<Rightarrow> 'd rv_machine \<Rightarrow> (bool, 'd rv_machine) outcome" where
  "trans_amomaxu_d_rv a env =
    amo_d_rv (\<lambda>x y. if y < x then x else y) a env"

definition trans_amomin_w_rv :: "rv_arg \<Rightarrow> 'd rv_machine \<Rightarrow> (bool, 'd rv_machine) outcome" where
  "trans_amomin_w_rv a env =
    amo_w_rv (\<lambda>x y. if sext 32 x <s sext 32 y then sext 32 x else sext 32 y) a env"

definition trans_amomin_d_rv :: "rv_arg \<Rightarrow> 'd rv_machine \<Rightarrow> (bool, 'd rv_machine) outcome" where
  "trans_amomin_d_rv a env =
    amo_d_rv (\<lambda>x y. if x <s y then x else y) a env"

definition trans_amominu_w_rv :: "rv_arg \<Rightarrow> 'd rv_machine \<Rightarrow> (bool, 'd rv_machine) outcome" where
  "trans_amominu_w_rv a env =
    amo_w_rv (\<lambda>x y. if take_bit 32 x < take_bit 32 y then take_bit 32 x else take_bit 32 y) a env"

definition trans_amominu_d_rv :: "rv_arg \<Rightarrow> 'd rv_machine \<Rightarrow> (bool, 'd rv_machine) outcome" where
  "trans_amominu_d_rv a env =
    amo_d_rv (\<lambda>x y. if x < y then x else y) a env"

definition trans_amoswap_w_rv :: "rv_arg \<Rightarrow> 'd rv_machine \<Rightarrow> (bool, 'd rv_machine) outcome" where
  "trans_amoswap_w_rv a env =
    amo_w_rv (\<lambda>x y. y) a env"

definition trans_amoswap_d_rv :: "rv_arg \<Rightarrow> 'd rv_machine \<Rightarrow> (bool, 'd rv_machine) outcome" where
  "trans_amoswap_d_rv a env =
    amo_d_rv (\<lambda>x y. y) a env"

definition trans_lr_w_rv :: "rv_arg \<Rightarrow> 'd rv_machine \<Rightarrow> (bool, 'd rv_machine) outcome" where
  "trans_lr_w_rv a env =
    (let addr = get_address (rs1 a) 0 env in
     bind_out (ld_w_rv addr env) (\<lambda>dest env. Ret True (gen_set_gpr (rd a) (sext 32 dest) (env\<lparr>load_res := addr, load_val := dest\<rparr>))))"

definition trans_lr_d_rv :: "rv_arg \<Rightarrow> 'd rv_machine \<Rightarrow> (bool, 'd rv_machine) outcome" where
  "trans_lr_d_rv a env =
    (let addr = get_address (rs1 a) 0 env in
     bind_out (ld_d_rv addr env) (\<lambda>dest env. Ret True (gen_set_gpr (rd a) dest (env\<lparr>load_res := addr, load_val := dest\<rparr>))))"

definition trans_sc_w_rv :: "rv_arg \<Rightarrow> 'd rv_machine \<Rightarrow> (bool, 'd rv_machine) outcome" where
  "trans_sc_w_rv a env =
    (let addr = get_address (rs1 a) 0 env; data = get_gpr (rs2 a) EXT_NONE_rv env;
         fail = (\<lambda>env. Ret True ((gen_set_gpr (rd a) 1 env)\<lparr>load_res := - 1\<rparr>))
     in if addr \<noteq> load_res env then fail env
        else bind_out (ld_w_rv addr env) (\<lambda>v env.
          if v \<noteq> load_val env then fail env
          else bind_out (st_w_rv addr data env) (\<lambda>_ env. Ret True ((gen_set_gpr (rd a) 0 env)\<lparr>load_res := - 1\<rparr>))))"

definition trans_sc_d_rv :: "rv_arg \<Rightarrow> 'd rv_machine \<Rightarrow> (bool, 'd rv_machine) outcome" where
  "trans_sc_d_rv a env =
    (let addr = get_address (rs1 a) 0 env; data = get_gpr (rs2 a) EXT_NONE_rv env;
         fail = (\<lambda>env. Ret True ((gen_set_gpr (rd a) 1 env)\<lparr>load_res := - 1\<rparr>))
     in if addr \<noteq> load_res env then fail env
        else bind_out (ld_d_rv addr env) (\<lambda>v env.
          if v \<noteq> load_val env then fail env
          else bind_out (st_d_rv addr data env) (\<lambda>_ env. Ret True ((gen_set_gpr (rd a) 0 env)\<lparr>load_res := - 1\<rparr>))))"

section \<open>System instructions\<close>

definition trans_fence_rv :: "rv_arg \<Rightarrow> 'd rv_machine \<Rightarrow> (bool, 'd rv_machine) outcome" where
  "trans_fence_rv a env =
    Ret True env"

definition trans_fence_i_rv :: "rv_arg \<Rightarrow> 'd rv_machine \<Rightarrow> (bool, 'd rv_machine) outcome" where
  "trans_fence_i_rv a env =
    Ret True env"

definition trans_pause_rv :: "rv_arg \<Rightarrow> 'd rv_machine \<Rightarrow> (bool, 'd rv_machine) outcome" where
  "trans_pause_rv a env =
    Ret True env"

definition trans_sret_rv :: "rv_arg \<Rightarrow> 'd rv_machine \<Rightarrow> (bool, 'd rv_machine) outcome" where
  "trans_sret_rv a env =
    bind_out (helper_sret env) (\<lambda>retpc env. Ret True (env\<lparr>pc := retpc, cur_insn_len := 0\<rparr>))"

definition trans_mret_rv :: "rv_arg \<Rightarrow> 'd rv_machine \<Rightarrow> (bool, 'd rv_machine) outcome" where
  "trans_mret_rv a env =
    bind_out (helper_mret env) (\<lambda>retpc env. Ret True (env\<lparr>pc := retpc, cur_insn_len := 0\<rparr>))"

fun wfi_wait :: "bool list \<Rightarrow> 'd rv_machine \<Rightarrow> (bool, 'd rv_machine) outcome option" where
  "wfi_wait sleeps env =
    (case loongarch_cpu_check_irq_rv env of
       Ret _ env \<Rightarrow>
         (if loongarch_cpu_has_irq_rv env then Some (Ret True env)
          else case sleeps of [] \<Rightarrow> None | fired # sleeps \<Rightarrow> wfi_wait sleeps (if fired then env\<lparr>timer_int := True\<rparr> else env))
     | Exn env \<Rightarrow> Some (Exn env) | Exit env \<Rightarrow> Some (Exit env) | Crash \<Rightarrow> Some Crash)"

definition trans_wfi_rv :: "bool list \<Rightarrow> rv_arg \<Rightarrow> 'd rv_machine \<Rightarrow> (bool, 'd rv_machine) outcome option" where
  "trans_wfi_rv sleeps a env = (if determined env then Some (Ret True env) else wfi_wait sleeps env)"

definition trans_ebreak_rv :: "rv_arg \<Rightarrow> 'd rv_machine \<Rightarrow> (bool, 'd rv_machine) outcome" where
  "trans_ebreak_rv a env =
    riscv_raise_exception RISCV_EXCP_BREAKPOINT (env\<lparr>badaddr := pc env\<rparr>)"

definition trans_ecall_rv :: "rv_arg \<Rightarrow> 'd rv_machine \<Rightarrow> (bool, 'd rv_machine) outcome" where
  "trans_ecall_rv a env =
    riscv_raise_exception RISCV_EXCP_U_ECALL env"

definition trans_sfence_vma_rv :: "rv_arg \<Rightarrow> 'd rv_machine \<Rightarrow> (bool, 'd rv_machine) outcome" where
  "trans_sfence_vma_rv a env =
    Ret True (tlb_flush_rv env)"

end
