(* ===== verification/RV_Insn_Spec.thy ===== *)
theory RV_Insn_Spec
  imports RV_Insn
begin

text \<open>
  What the RISC-V integer instructions do: the arithmetic against the architecture, in integers; exceptions of memory instructions are precise; the
  results of narrow instructions have their width.
\<close>

section \<open>The arithmetic of the architecture\<close>

text \<open>
  The unprivileged specification in integers: registers hold signed numbers of 64 bits, \<open>uns\<close> and \<open>sgn32\<close> are a number read as unsigned of \<open>n\<close> bits and as signed of 32 bits,
  results wrap when they are written. \<open>sdiv\<close> and \<open>smod\<close> truncate towards zero.
\<close>

datatype rv_op = Op_add | Op_sub | Op_sll | Op_slt | Op_sltu | Op_xor | Op_srl | Op_sra | Op_or | Op_and
  | Op_addw | Op_subw | Op_sllw | Op_srlw | Op_sraw
  | Op_mul | Op_mulh | Op_mulhu | Op_div | Op_divu | Op_rem | Op_remu
  | Op_mulw | Op_divw | Op_divuw | Op_remw | Op_remuw

abbreviation uns :: "nat \<Rightarrow> int \<Rightarrow> int" where "uns n x \<equiv> x mod 2 ^ n"

definition sgn32 :: "int \<Rightarrow> int" where
  "sgn32 x = (x + 2 ^ 31) mod 2 ^ 32 - 2 ^ 31"


fun arch_alu :: "rv_op \<Rightarrow> int \<Rightarrow> int \<Rightarrow> int" where
  "arch_alu Op_add x y = x + y"
| "arch_alu Op_sub x y = x - y"
| "arch_alu Op_sll x y = x * 2 ^ nat (uns 6 y)"
| "arch_alu Op_slt x y = of_bool (x < y)"
| "arch_alu Op_sltu x y = of_bool (uns 64 x < uns 64 y)"
| "arch_alu Op_xor x y = x XOR y"
| "arch_alu Op_srl x y = uns 64 x div 2 ^ nat (uns 6 y)"
| "arch_alu Op_sra x y = x div 2 ^ nat (uns 6 y)"
| "arch_alu Op_or x y = x OR y"
| "arch_alu Op_and x y = x AND y"
| "arch_alu Op_addw x y = sgn32 (x + y)"
| "arch_alu Op_subw x y = sgn32 (x - y)"
| "arch_alu Op_sllw x y = sgn32 (x * 2 ^ nat (uns 5 y))"
| "arch_alu Op_srlw x y = sgn32 (uns 32 x div 2 ^ nat (uns 5 y))"
| "arch_alu Op_sraw x y = sgn32 x div 2 ^ nat (uns 5 y)"
| "arch_alu Op_mul x y = x * y"
| "arch_alu Op_mulh x y = x * y div 2 ^ 64"
| "arch_alu Op_mulhu x y = uns 64 x * uns 64 y div 2 ^ 64"
| "arch_alu Op_div x y = (if y = 0 then - 1 else x sdiv y)"
| "arch_alu Op_divu x y = (if y = 0 then - 1 else uns 64 x div uns 64 y)"
| "arch_alu Op_rem x y = (if y = 0 then x else x smod y)"
| "arch_alu Op_remu x y = (if y = 0 then x else uns 64 x mod uns 64 y)"
| "arch_alu Op_mulw x y = sgn32 (x * y)"
| "arch_alu Op_divw x y = (if sgn32 y = 0 then - 1 else sgn32 (sgn32 x sdiv sgn32 y))"
| "arch_alu Op_divuw x y = (if sgn32 y = 0 then - 1 else sgn32 (uns 32 x div uns 32 y))"
| "arch_alu Op_remw x y = (if sgn32 y = 0 then sgn32 x else sgn32 (sgn32 x smod sgn32 y))"
| "arch_alu Op_remuw x y = (if sgn32 y = 0 then sgn32 x else sgn32 (uns 32 x mod uns 32 y))"

text \<open>The divisions that the code makes without a check.\<close>

fun host_traps :: "rv_op \<Rightarrow> int \<Rightarrow> int \<Rightarrow> bool" where
  "host_traps Op_rem x y = (y = 0 \<or> x = - (2 ^ 63) \<and> y = - 1)"
| "host_traps Op_divu x y = (y = 0)"
| "host_traps Op_remu x y = (y = 0)"
| "host_traps Op_divw x y = (sgn32 y = 0 \<or> sgn32 x = - (2 ^ 31) \<and> sgn32 y = - 1)"
| "host_traps Op_remw x y = (sgn32 y = 0 \<or> sgn32 x = - (2 ^ 31) \<and> sgn32 y = - 1)"
| "host_traps Op_divuw x y = (sgn32 y = 0)"
| "host_traps Op_remuw x y = (sgn32 y = 0)"
| "host_traps op x y = False"

datatype operand = Reg | Imm12 | Sh6 | Sh5

fun operand2 :: "operand \<Rightarrow> rv_arg \<Rightarrow> 'd rv_machine \<Rightarrow> int" where
  "operand2 Reg a env = sint (gpr env (rs2 a))"
| "operand2 Imm12 a env = imm a"
| "operand2 Sh6 a env = int (shamt a)"
| "operand2 Sh5 a env = int (shamt a)"

fun operand_ok :: "operand \<Rightarrow> rv_arg \<Rightarrow> bool" where
  "operand_ok Reg a = True"
| "operand_ok Imm12 a = (imm a \<in> {- 2048 ..< 2048})"
| "operand_ok Sh6 a = (shamt a < 64)"
| "operand_ok Sh5 a = (shamt a < 32)"

definition rv_alu :: "(rv_op \<times> operand \<times> (rv_arg \<Rightarrow> 'd rv_machine \<Rightarrow> (bool, 'd rv_machine) outcome)) list" where
  "rv_alu =
    [(Op_add, Reg, trans_add_rv), (Op_add, Imm12, trans_addi_rv), (Op_sub, Reg, trans_sub_rv),
     (Op_sll, Reg, trans_sll_rv), (Op_sll, Sh6, trans_slli_rv), (Op_slt, Reg, trans_slt_rv), (Op_slt, Imm12, trans_slti_rv),
     (Op_sltu, Reg, trans_sltu_rv), (Op_sltu, Imm12, trans_sltiu_rv), (Op_xor, Reg, trans_xor_rv), (Op_xor, Imm12, trans_xori_rv),
     (Op_srl, Reg, trans_srl_rv), (Op_srl, Sh6, trans_srli_rv), (Op_sra, Reg, trans_sra_rv), (Op_sra, Sh6, trans_srai_rv),
     (Op_or, Reg, trans_or_rv), (Op_or, Imm12, trans_ori_rv), (Op_and, Reg, trans_and_rv), (Op_and, Imm12, trans_andi_rv),
     (Op_addw, Reg, trans_addw_rv), (Op_addw, Imm12, trans_addiw_rv), (Op_subw, Reg, trans_subw_rv),
     (Op_sllw, Reg, trans_sllw_rv), (Op_sllw, Sh5, trans_slliw_rv), (Op_srlw, Reg, trans_srlw_rv), (Op_srlw, Sh5, trans_srliw_rv),
     (Op_sraw, Reg, trans_sraw_rv), (Op_sraw, Sh5, trans_sraiw_rv),
     (Op_mul, Reg, trans_mul_rv), (Op_mulh, Reg, trans_mulh_rv), (Op_mulhu, Reg, trans_mulhu_rv),
     (Op_div, Reg, trans_div_rv), (Op_divu, Reg, trans_divu_rv), (Op_rem, Reg, trans_rem_rv), (Op_remu, Reg, trans_remu_rv),
     (Op_mulw, Reg, trans_mulw_rv), (Op_divw, Reg, trans_divw_rv), (Op_divuw, Reg, trans_divuw_rv),
     (Op_remw, Reg, trans_remw_rv), (Op_remuw, Reg, trans_remuw_rv)]"

section \<open>Words and integers\<close>

lemma unsigned_sint: "uint x = uns 64 (sint x)" for x :: u64
  using uint_word_of_int [of "sint x", where 'a = 64] by simp

lemma sext_of_int: "0 < n \<Longrightarrow> n \<le> 64 \<Longrightarrow> sext n (of_int z) = of_int (signed_take_bit (n - 1) z)"
  by (rule bit_word_eqI) (auto simp: bit_sext_rv bit_of_int_iff bit_signed_take_bit_iff min_def)

lemma w_signed: "sgn32 z = signed_take_bit 31 z"
  unfolding sgn32_def signed_take_bit_eq_take_bit_shift take_bit_eq_mod by simp

lemma sext32: "sext 32 (of_int z) = of_int (sgn32 z)" "sext 32 x = of_int (sgn32 (sint x))"
proof -
  show a: "sext 32 (of_int z) = of_int (sgn32 z)" for z unfolding w_signed by (subst sext_of_int) simp_all
  show "sext 32 x = of_int (sgn32 (sint x))" using a [of "sint x"] by simp
qed

lemma sint_w: "sint (of_int (sgn32 z) :: u64) = sgn32 z"
proof -
  have "- (2 ^ 31) \<le> sgn32 z" "sgn32 z < 2 ^ 31" using w_signed [of z] signed_take_bit_int_greater_eq_minus_exp [of 31 z] signed_take_bit_int_less_exp [of 31 z] by simp_all
  then show ?thesis by (simp add: signed_of_int signed_take_bit_int_eq_self)
qed

lemma sint_sext32: "sint (sext 32 x) = sgn32 (sint x)"
  unfolding sext32(2) by (rule sint_w)

lemma w_w: "sgn32 (sgn32 z) = sgn32 z"
  unfolding w_signed by simp

lemma take32: "uint (take_bit 32 x) = uns 32 (sint x)" for x :: u64
proof -
  have "uint (take_bit 32 x) = uint x mod 2 ^ 32" unfolding unsigned_take_bit_eq by (rule take_bit_eq_mod)
  also have "\<dots> = uns 32 (sint x)" unfolding unsigned_sint by (rule mod_mod_cancel) simp
  finally show ?thesis .
qed

definition narrow :: "rv_op \<Rightarrow> bool" where
  "narrow op = (op \<in> {Op_addw, Op_subw, Op_sllw, Op_srlw, Op_sraw, Op_mulw, Op_divw, Op_divuw, Op_remw, Op_remuw})"

text \<open>The state with the result written; register 0 is not.\<close>

definition written :: "bool \<Rightarrow> nat \<Rightarrow> u64 \<Rightarrow> 'd rv_machine \<Rightarrow> 'd rv_machine" where
  "written nrw r v env =
    (let env = (if nrw then env\<lparr>ol := MXL_RV32\<rparr> else env) in if r = 0 then env else env\<lparr>gpr := (gpr env)(r := v)\<rparr>)"

definition alu_ok :: "rv_op \<times> operand \<times> (rv_arg \<Rightarrow> 'd rv_machine \<Rightarrow> (bool, 'd rv_machine) outcome) \<Rightarrow> bool" where
  "alu_ok row = (case row of (op, k, f) \<Rightarrow> \<forall>a env. operand_ok k a \<longrightarrow> xl env = MXL_RV64 \<longrightarrow> ol env = MXL_RV64 \<longrightarrow>
    f a env = (let x = sint (gpr env (rs1 a)); y = operand2 k a env in
      if host_traps op x y then Crash else Ret True (written (narrow op) (rd a) (of_int (arch_alu op x y)) env)))"

lemma take_uint: "n \<le> 64 \<Longrightarrow> uint (take_bit n x) = uns n (sint x)" for x :: u64
proof -
  assume n: "n \<le> 64"
  have "uint (take_bit n x) = uint x mod 2 ^ n" unfolding unsigned_take_bit_eq by (rule take_bit_eq_mod)
  also have "\<dots> = uns n (sint x)" unfolding unsigned_sint by (rule mod_mod_cancel) (rule le_imp_power_dvd [OF n])
  finally show ?thesis .
qed

lemma shift_amounts: "unat (y AND 0x3f) = nat (uns 6 (sint y))" "unat (y AND 0x1f) = nat (uns 5 (sint y))" for y :: u64
proof -
  have e: "y AND 0x3f = take_bit 6 y" "y AND 0x1f = take_bit 5 y" by (simp_all add: take_bit_eq_mask mask_eq_exp_minus_1)
  have t: "unat (take_bit n y) = nat (uns n (sint y))" if "n \<le> 64" for n
    unfolding unat_eq_nat_uint take_uint [OF that] ..
  show "unat (y AND 0x3f) = nat (uns 6 (sint y))" "unat (y AND 0x1f) = nat (uns 5 (sint y))"
    unfolding e by (rule t, simp)+
qed

lemma shift_imm: "k < 2 ^ n \<Longrightarrow> nat (uns n (int k)) = k"
proof -
  assume "k < 2 ^ n"
  then have "int k < 2 ^ n" by (metis of_nat_less_iff of_nat_numeral of_nat_power)
  then show ?thesis by simp
qed

lemma shifts_of_int:
  fixes x :: u64
  shows "push_bit n x = of_int (sint x * 2 ^ n)" "drop_bit n x = of_int (uns 64 (sint x) div 2 ^ n)" "signed_drop_bit n x = of_int (sint x div 2 ^ n)"
proof -
  show "push_bit n x = of_int (sint x * 2 ^ n)" by (simp add: push_bit_eq_mult)
  have "uint (drop_bit n x) = uint x div 2 ^ n" unfolding uint_nat unat_drop_bit_div by (simp add: zdiv_int)
  then show "drop_bit n x = of_int (uns 64 (sint x) div 2 ^ n)"
    unfolding unsigned_sint [symmetric] by (metis word_of_int_uint)
  have "sint (signed_drop_bit n x) = sint x div 2 ^ n" by (simp add: sint_signed_drop_bit_eq drop_bit_eq_div)
  from arg_cong [OF this, of "of_int :: int \<Rightarrow> u64"] show "signed_drop_bit n x = of_int (sint x div 2 ^ n)" by simp
qed

lemmas alu_defs = alu_ok_def narrow_def written_def get_gpr_def gen_set_gpr_def set_result_def Let_def

lemma alu_sums:
  "alu_ok (Op_add, Reg, trans_add_rv)" "alu_ok (Op_add, Imm12, trans_addi_rv)" "alu_ok (Op_sub, Reg, trans_sub_rv)"
  by (simp_all add: alu_defs trans_add_rv_def trans_addi_rv_def trans_sub_rv_def immw_rv_def)

lemma alu_logic:
  "alu_ok (Op_xor, Reg, trans_xor_rv)" "alu_ok (Op_xor, Imm12, trans_xori_rv)" "alu_ok (Op_or, Reg, trans_or_rv)" "alu_ok (Op_or, Imm12, trans_ori_rv)"
  "alu_ok (Op_and, Reg, trans_and_rv)" "alu_ok (Op_and, Imm12, trans_andi_rv)"
  by (simp_all add: alu_defs trans_xor_rv_def trans_xori_rv_def trans_or_rv_def trans_ori_rv_def trans_and_rv_def trans_andi_rv_def immw_rv_def
      of_int_xor_eq of_int_or_eq of_int_and_eq)

lemma imm12: "imm a \<in> {- 2048 ..< 2048} \<Longrightarrow> sint (immw_rv a) = imm a"
  unfolding immw_rv_def by (simp add: signed_of_int signed_take_bit_int_eq_self)

lemma alu_compare:
  "alu_ok (Op_slt, Reg, trans_slt_rv)" "alu_ok (Op_slt, Imm12, trans_slti_rv)" "alu_ok (Op_sltu, Reg, trans_sltu_rv)" "alu_ok (Op_sltu, Imm12, trans_sltiu_rv)"
  unfolding alu_ok_def trans_slt_rv_def trans_slti_rv_def trans_sltu_rv_def trans_sltiu_rv_def word_sless_alt word_less_alt unsigned_sint
  using imm12 by (auto simp: alu_defs)

lemma alu_shifts:
  "alu_ok (Op_sll, Reg, trans_sll_rv)" "alu_ok (Op_srl, Reg, trans_srl_rv)" "alu_ok (Op_sra, Reg, trans_sra_rv)"
  by (simp_all add: alu_defs trans_sll_rv_def trans_srl_rv_def trans_sra_rv_def shift_amounts shifts_of_int)

lemma alu_shift_imms:
  "alu_ok (Op_sll, Sh6, trans_slli_rv)" "alu_ok (Op_srl, Sh6, trans_srli_rv)" "alu_ok (Op_sra, Sh6, trans_srai_rv)"
  using shift_imm [of _ 6] by (simp_all add: alu_defs trans_slli_rv_def trans_srli_rv_def trans_srai_rv_def shifts_of_int)

lemma w_in_range: "- (2 ^ 31) \<le> z \<Longrightarrow> z < 2 ^ 31 \<Longrightarrow> sgn32 z = z"
  unfolding w_signed by (rule signed_take_bit_int_eq_self)

lemma w_range: "- (2 ^ 31) \<le> sgn32 z" "sgn32 z < 2 ^ 31"
  unfolding w_signed by (rule signed_take_bit_int_greater_eq_minus_exp, rule signed_take_bit_int_less_exp)

lemma div_power_range: "- (2 ^ 31) \<le> z \<Longrightarrow> z < 2 ^ 31 \<Longrightarrow> - (2 ^ 31) \<le> z div 2 ^ n \<and> z div 2 ^ n < 2 ^ 31" for z :: int
proof (cases "0 \<le> z")
  case True
  assume "z < 2 ^ 31"
  moreover have "0 \<le> z div 2 ^ n" using True by (simp add: pos_imp_zdiv_nonneg_iff)
  moreover have "z div 2 ^ n \<le> z" using True zdiv_mono2 [of z 1 "2 ^ n"] by simp
  ultimately show ?thesis by linarith
next
  case False
  assume "- (2 ^ 31) \<le> z"
  moreover have "z div 2 ^ n < 0" using False by (simp add: pos_imp_zdiv_neg_iff)
  moreover have "z \<le> z div 2 ^ n"
  proof -
    have "z * 2 ^ n \<le> z * 1" using False by (intro mult_left_mono_neg) simp_all
    then have "z * 2 ^ n div 2 ^ n \<le> z div 2 ^ n" by (intro zdiv_mono1) simp_all
    then show ?thesis by simp
  qed
  ultimately show ?thesis by linarith
qed

lemma narrow_words:
  fixes x y :: u64
  shows "sext 32 (x + y) = of_int (sgn32 (sint x + sint y))" "sext 32 (x - y) = of_int (sgn32 (sint x - sint y))" "sext 32 (x * y) = of_int (sgn32 (sint x * sint y))"
    "sext 32 (push_bit n x) = of_int (sgn32 (sint x * 2 ^ n))" "sext 32 (drop_bit n (take_bit 32 x)) = of_int (sgn32 (uns 32 (sint x) div 2 ^ n))"
    "sext 32 (signed_drop_bit n (sext 32 x)) = of_int (sgn32 (sint x) div 2 ^ n)"
proof -
  show "sext 32 (x + y) = of_int (sgn32 (sint x + sint y))" "sext 32 (x - y) = of_int (sgn32 (sint x - sint y))" "sext 32 (x * y) = of_int (sgn32 (sint x * sint y))"
    unfolding sext32(1) [symmetric] by simp_all
  show "sext 32 (push_bit n x) = of_int (sgn32 (sint x * 2 ^ n))"
    unfolding shifts_of_int by (rule sext32(1))
  have "drop_bit n (take_bit 32 x) = of_int (uns 32 (sint x) div 2 ^ n)"
    unfolding shifts_of_int(2) unsigned_sint [symmetric] take32 ..
  then show "sext 32 (drop_bit n (take_bit 32 x)) = of_int (sgn32 (uns 32 (sint x) div 2 ^ n))" by (simp only: sext32(1))
  have "sgn32 (sgn32 (sint x) div 2 ^ n) = sgn32 (sint x) div 2 ^ n"
    using div_power_range [OF w_range, of "sint x" n] by (intro w_in_range) simp_all
  then show "sext 32 (signed_drop_bit n (sext 32 x)) = of_int (sgn32 (sint x) div 2 ^ n)"
    unfolding shifts_of_int sint_sext32 sext32(1) by simp
qed

lemma alu_narrow:
  "alu_ok (Op_addw, Reg, trans_addw_rv)" "alu_ok (Op_subw, Reg, trans_subw_rv)" "alu_ok (Op_mulw, Reg, trans_mulw_rv)"
  "alu_ok (Op_sllw, Reg, trans_sllw_rv)" "alu_ok (Op_srlw, Reg, trans_srlw_rv)" "alu_ok (Op_sraw, Reg, trans_sraw_rv)"
  by (simp_all add: alu_defs trans_addw_rv_def trans_subw_rv_def trans_mulw_rv_def trans_sllw_rv_def trans_srlw_rv_def trans_sraw_rv_def
      narrow_words sext32(1) w_w shift_amounts)

lemma alu_narrow_imm:
  "alu_ok (Op_addw, Imm12, trans_addiw_rv)" "alu_ok (Op_sllw, Sh5, trans_slliw_rv)" "alu_ok (Op_srlw, Sh5, trans_srliw_rv)" "alu_ok (Op_sraw, Sh5, trans_sraiw_rv)"
proof -
  show "alu_ok (Op_addw, Imm12, trans_addiw_rv)"
    using imm12 by (simp add: alu_defs trans_addiw_rv_def narrow_words)
  show "alu_ok (Op_sllw, Sh5, trans_slliw_rv)" "alu_ok (Op_srlw, Sh5, trans_srliw_rv)" "alu_ok (Op_sraw, Sh5, trans_sraiw_rv)"
    using shift_imm [of _ 5] by (simp_all add: alu_defs trans_slliw_rv_def trans_srliw_rv_def trans_sraiw_rv_def narrow_words)
qed

lemma alu_products:
  "alu_ok (Op_mul, Reg, trans_mul_rv)" "alu_ok (Op_mulh, Reg, trans_mulh_rv)" "alu_ok (Op_mulhu, Reg, trans_mulhu_rv)"
  unfolding trans_mulhu_rv_def [abs_def] unsigned_sint by (simp_all add: alu_defs trans_mul_rv_def trans_mulh_rv_def)

lemma sint_eqs: "sint x = 0 \<longleftrightarrow> x = 0" "sint x = - 1 \<longleftrightarrow> x = - 1" "sint x = - (2 ^ 63) \<longleftrightarrow> x = - 0x8000000000000000" for x :: u64
proof -
  have e: "sint x = sint y \<longleftrightarrow> x = y" for y :: u64
  proof
    assume "sint x = sint y"
    from arg_cong [OF this, of "of_int :: int \<Rightarrow> u64"] show "x = y" by simp
  qed simp
  show "sint x = 0 \<longleftrightarrow> x = 0" "sint x = - 1 \<longleftrightarrow> x = - 1" "sint x = - (2 ^ 63) \<longleftrightarrow> x = - 0x8000000000000000"
    using e [of 0] e [of "- 1"] e [of "- 0x8000000000000000"] by simp_all
qed

lemma host_division64:
  "host_sdiv 64 x y = (if sint y = 0 \<or> sint x = - (2 ^ 63) \<and> sint y = - 1 then None else Some (of_int (sint x sdiv sint y)))"
  "host_smod 64 x y = (if sint y = 0 \<or> sint x = - (2 ^ 63) \<and> sint y = - 1 then None else Some (of_int (sint x smod sint y)))"
  "host_udiv 64 x y = (if sint y = 0 then None else Some (of_int (uns 64 (sint x) div uns 64 (sint y))))"
  "host_umod 64 x y = (if sint y = 0 then None else Some (of_int (uns 64 (sint x) mod uns 64 (sint y))))"
  unfolding host_sdiv_def host_smod_def host_udiv_def host_umod_def Let_def sext_full take_full unsigned_sint [symmetric] sint_eqs(1) word_div_def word_mod_def
  by simp_all

lemma set_result_if: "set_result a (if c then None else Some v) env = (if c then Crash else Ret True (gen_set_gpr (rd a) v env))"
  by (simp add: set_result_def)

lemma full_length:
  assumes "ol env = MXL_RV64"
  shows "get_gpr r ext env = gpr env r" and "gen_set_gpr r v env = written False r v env"
  using assms by (simp_all add: get_gpr_def gen_set_gpr_def written_def)

lemma wide_alu:
  fixes f :: "rv_arg \<Rightarrow> 'd rv_machine \<Rightarrow> (bool, 'd rv_machine) outcome"
  assumes "\<And>a env. xl env = MXL_RV64 \<Longrightarrow> ol env = MXL_RV64 \<Longrightarrow> f a env = set_result a (h (gpr env (rs1 a)) (gpr env (rs2 a))) env"
    and "\<And>x y. h x y = (if host_traps op (sint x) (sint y) then None else Some (of_int (arch_alu op (sint x) (sint y))))" and "\<not> narrow op"
  shows "alu_ok (op, Reg, f)"
  unfolding alu_ok_def prod.case
proof (intro allI impI)
  fix a and env :: "'d rv_machine" assume e: "xl env = MXL_RV64" "ol env = MXL_RV64"
  show "f a env = (let x = sint (gpr env (rs1 a)); y = operand2 Reg a env
    in if host_traps op x y then Crash else Ret True (written (narrow op) (rd a) (of_int (arch_alu op x y)) env))"
    unfolding assms(1) [OF e] assms(2) set_result_if full_length [OF e(2)] Let_def operand2.simps using assms(3) by simp
qed

definition guarded_sdiv :: "u64 \<Rightarrow> u64 \<Rightarrow> u64 option" where
  "guarded_sdiv x y = (if y = 0 then Some (- 1) else if x = - 0x8000000000000000 \<and> y = - 1 then Some x else host_sdiv 64 x y)"

lemma guarded_division: "guarded_sdiv x y = Some (of_int (arch_alu Op_div (sint x) (sint y)))"
proof -
  consider "y = 0" | "y \<noteq> 0" "x = - 0x8000000000000000" "y = - 1" | "y \<noteq> 0" "\<not> (x = - 0x8000000000000000 \<and> y = - 1)" by blast
  then show ?thesis
  proof cases
    case 2
    have "0x8000000000000000 + 0x8000000000000000 = (0 :: u64)" by simp
    then have "- 0x8000000000000000 = (0x8000000000000000 :: u64)" by (rule minus_unique)
    then show ?thesis using 2 by (simp add: guarded_sdiv_def signed_divide_int_def)
  next
    case 3
    then have "\<not> (sint y = 0 \<or> sint x = - (2 ^ 63) \<and> sint y = - 1)" unfolding sint_eqs by simp
    then show ?thesis unfolding guarded_sdiv_def host_division64(1) arch_alu.simps if_not_P [OF 3(1)] if_not_P [OF 3(2)] sint_eqs(1) by (simp only: if_False)
  qed (simp add: guarded_sdiv_def)
qed

lemma alu_division:
  "alu_ok (Op_div, Reg, trans_div_rv)" "alu_ok (Op_rem, Reg, trans_rem_rv)" "alu_ok (Op_divu, Reg, trans_divu_rv)" "alu_ok (Op_remu, Reg, trans_remu_rv)"
proof -
  show "alu_ok (Op_div, Reg, trans_div_rv)"
  proof (rule wide_alu [where h = guarded_sdiv])
    show "guarded_sdiv x y = (if host_traps Op_div (sint x) (sint y) then None else Some (of_int (arch_alu Op_div (sint x) (sint y))))" for x y
      unfolding guarded_division by simp
    show "trans_div_rv a env = set_result a (guarded_sdiv (gpr env (rs1 a)) (gpr env (rs2 a))) env" if "xl env = MXL_RV64" "ol env = MXL_RV64" for a env
      using that by (simp add: trans_div_rv_def guarded_sdiv_def full_length Let_def)
  qed (simp add: narrow_def)
  show "alu_ok (Op_rem, Reg, trans_rem_rv)"
    by (rule wide_alu [where h = "host_smod 64"], simp add: trans_rem_rv_def full_length, unfold host_division64 host_traps.simps arch_alu.simps, auto simp: narrow_def)
  show "alu_ok (Op_divu, Reg, trans_divu_rv)" "alu_ok (Op_remu, Reg, trans_remu_rv)"
    by (rule wide_alu [where h = "host_udiv 64"], simp add: trans_divu_rv_def full_length, unfold host_division64 host_traps.simps arch_alu.simps, simp, simp add: narrow_def)
      (rule wide_alu [where h = "host_umod 64"], simp add: trans_remu_rv_def full_length, unfold host_division64 host_traps.simps arch_alu.simps, simp, simp add: narrow_def)
qed

lemma w_zero: "sgn32 z = 0 \<longleftrightarrow> uns 32 z = 0"
  using signed_take_bit_eq_iff_take_bit_eq [of 31 z 0] unfolding w_signed by (simp add: take_bit_eq_mod)

lemma host_division32:
  "host_sdiv 32 x y = (if sgn32 (sint y) = 0 \<or> sgn32 (sint x) = - (2 ^ 31) \<and> sgn32 (sint y) = - 1 then None else Some (of_int (sgn32 (sint x) sdiv sgn32 (sint y))))"
  "host_smod 32 x y = (if sgn32 (sint y) = 0 \<or> sgn32 (sint x) = - (2 ^ 31) \<and> sgn32 (sint y) = - 1 then None else Some (of_int (sgn32 (sint x) smod sgn32 (sint y))))"
  "host_udiv 32 x y = (if sgn32 (sint y) = 0 then None else Some (of_int (uns 32 (sint x) div uns 32 (sint y))))"
  "host_umod 32 x y = (if sgn32 (sint y) = 0 then None else Some (of_int (uns 32 (sint x) mod uns 32 (sint y))))"
proof -
  show "host_sdiv 32 x y = (if sgn32 (sint y) = 0 \<or> sgn32 (sint x) = - (2 ^ 31) \<and> sgn32 (sint y) = - 1 then None else Some (of_int (sgn32 (sint x) sdiv sgn32 (sint y))))"
    "host_smod 32 x y = (if sgn32 (sint y) = 0 \<or> sgn32 (sint x) = - (2 ^ 31) \<and> sgn32 (sint y) = - 1 then None else Some (of_int (sgn32 (sint x) smod sgn32 (sint y))))"
    unfolding host_sdiv_def host_smod_def Let_def sint_sext32 by simp_all
  have "take_bit 32 y = 0 \<longleftrightarrow> uint (take_bit 32 y) = uint (0 :: u64)" by (rule word_uint_eq_iff)
  then have z: "take_bit 32 y = 0 \<longleftrightarrow> sgn32 (sint y) = 0" unfolding w_zero take32 by simp
  show "host_udiv 32 x y = (if sgn32 (sint y) = 0 then None else Some (of_int (uns 32 (sint x) div uns 32 (sint y))))"
    "host_umod 32 x y = (if sgn32 (sint y) = 0 then None else Some (of_int (uns 32 (sint x) mod uns 32 (sint y))))"
    unfolding host_udiv_def host_umod_def z word_div_def word_mod_def take32 by simp_all
qed

lemma alu_narrow_division:
  "alu_ok (Op_divw, Reg, trans_divw_rv)" "alu_ok (Op_remw, Reg, trans_remw_rv)" "alu_ok (Op_divuw, Reg, trans_divuw_rv)" "alu_ok (Op_remuw, Reg, trans_remuw_rv)"
  by (simp_all add: alu_defs trans_divw_rv_def trans_remw_rv_def trans_divuw_rv_def trans_remuw_rv_def host_division32 sext32(1))

lemma rv_alu_ok: "list_all alu_ok rv_alu"
  unfolding rv_alu_def by (simp add: alu_sums alu_logic alu_compare alu_shifts alu_shift_imms alu_narrow alu_narrow_imm alu_products alu_division alu_narrow_division)

text \<open>
  (C33) The integer instructions with two operands, 40 of them with registers, immediates and shift amounts, compute what the architecture defines over the
  integers and change nothing but the destination register (and the operand length, which the next instruction sets again);
  only the divisions that \<open>host_traps\<close> lists end the emulator by a trap of the host.
\<close>

theorem rv_alu_architecture:
  assumes "(op, k, f) \<in> set rv_alu" and "operand_ok k a" and "xl env = MXL_RV64" and "ol env = MXL_RV64"
  defines "x \<equiv> sint (gpr env (rs1 a))" and "y \<equiv> operand2 k a env"
  shows "f a env = (if host_traps op x y then Crash else Ret True (written (narrow op) (rd a) (of_int (arch_alu op x y)) env))"
  using assms(1-4) rv_alu_ok unfolding list_all_iff x_def y_def by (auto simp: alu_ok_def Let_def)

definition alu_example :: "unit rv_machine" where
  "alu_example = (zeroed_rv 0 [] ())\<lparr>xl := MXL_RV64, ol := MXL_RV64, gpr := (\<lambda>_. 0)(5 := 7, 6 := - 2)\<rparr>"

theorem rv_alu_architecture_witness:
  "trans_divw_rv \<lparr>rd = 3, rs1 = 5, rs2 = 6, imm = 0, shamt = 0\<rparr> alu_example = Ret True (written True 3 (- 3) alu_example)
    \<and> trans_divu_rv \<lparr>rd = 3, rs1 = 5, rs2 = 0, imm = 0, shamt = 0\<rparr> alu_example = Crash"
proof -
  have e: "xl alu_example = MXL_RV64" "ol alu_example = MXL_RV64" "gpr alu_example 5 = 7" "gpr alu_example 6 = - 2" "gpr alu_example 0 = 0"
    by (simp_all add: alu_example_def)
  have "(Op_divw, Reg, trans_divw_rv) \<in> set rv_alu" "(Op_divu, Reg, trans_divu_rv) \<in> set rv_alu" by (simp_all add: rv_alu_def)
  from rv_alu_architecture [OF this(1) _ e(1,2), of "\<lparr>rd = 3, rs1 = 5, rs2 = 6, imm = 0, shamt = 0\<rparr>"]
    rv_alu_architecture [OF this(2) _ e(1,2), of "\<lparr>rd = 3, rs1 = 5, rs2 = 0, imm = 0, shamt = 0\<rparr>"]
  show ?thesis by (simp add: e sgn32_def narrow_def signed_divide_int_def)
qed

section \<open>Memory instructions\<close>

text \<open>The state that an exception leaves.\<close>

definition exn_keeps_rv :: "('s \<Rightarrow> bool) \<Rightarrow> ('a, 's) outcome \<Rightarrow> bool" where
  "exn_keeps_rv I m = (\<forall>s. m = Exn s \<longrightarrow> I s)"

lemma exn_keeps_rv_bind:
  assumes "out_inv I m" and "\<And>v s. I s \<Longrightarrow> exn_keeps_rv I (f v s)"
  shows "exn_keeps_rv I (bind_out m f)"
  using assms by (cases m) (auto simp: exn_keeps_rv_def)

lemma exn_keeps_rv_simps [simp]: "exn_keeps_rv I (Ret v s)" "exn_keeps_rv I Crash"
  by (simp_all add: exn_keeps_rv_def)

definition rv_loads :: "(rv_arg \<Rightarrow> 'd rv_machine \<Rightarrow> (bool, 'd rv_machine) outcome) list" where
  "rv_loads = [trans_lb_rv, trans_lbu_rv, trans_lh_rv, trans_lhu_rv, trans_lw_rv, trans_lwu_rv, trans_ld_rv, trans_lr_w_rv, trans_lr_d_rv]"

definition rv_store_insns :: "(rv_arg \<Rightarrow> 'd rv_machine \<Rightarrow> (bool, 'd rv_machine) outcome) list" where
  "rv_store_insns = [trans_sb_rv, trans_sh_rv, trans_sw_rv, trans_sd_rv, trans_sc_w_rv, trans_sc_d_rv]"

definition rv_amos_w :: "(rv_arg \<Rightarrow> 'd rv_machine \<Rightarrow> (bool, 'd rv_machine) outcome) list" where
  "rv_amos_w = [trans_amoadd_w_rv, trans_amoand_w_rv, trans_amoor_w_rv, trans_amoxor_w_rv, trans_amomax_w_rv, trans_amomaxu_w_rv, trans_amomin_w_rv, trans_amominu_w_rv, trans_amoswap_w_rv]"

definition rv_amos_d :: "(rv_arg \<Rightarrow> 'd rv_machine \<Rightarrow> (bool, 'd rv_machine) outcome) list" where
  "rv_amos_d = [trans_amoadd_d_rv, trans_amoand_d_rv, trans_amoor_d_rv, trans_amoxor_d_rv, trans_amomax_d_rv, trans_amomaxu_d_rv, trans_amomin_d_rv, trans_amominu_d_rv, trans_amoswap_d_rv]"

lemmas rv_amo_defs = trans_amoadd_w_rv_def trans_amoand_w_rv_def trans_amoor_w_rv_def trans_amoxor_w_rv_def trans_amomax_w_rv_def trans_amomaxu_w_rv_def
  trans_amomin_w_rv_def trans_amominu_w_rv_def trans_amoswap_w_rv_def trans_amoadd_d_rv_def trans_amoand_d_rv_def trans_amoor_d_rv_def trans_amoxor_d_rv_def
  trans_amomax_d_rv_def trans_amomaxu_d_rv_def trans_amomin_d_rv_def trans_amominu_d_rv_def trans_amoswap_d_rv_def

lemma amos_w: "f \<in> set rv_amos_w \<Longrightarrow> \<exists>opr. f = amo_w_rv opr" and amos_d: "f \<in> set rv_amos_d \<Longrightarrow> \<exists>opr. f = amo_d_rv opr"
  unfolding rv_amos_w_def rv_amos_d_def rv_amo_defs [abs_def] by auto

abbreviation same_core :: "'d rv_machine \<Rightarrow> 'd rv_machine \<Rightarrow> bool" where
  "same_core env e \<equiv> gpr e = gpr env \<and> pc e = pc env \<and> ol e = ol env \<and> cur_insn_len e = cur_insn_len env \<and> load_res e = load_res env \<and> load_val e = load_val env"

lemmas rv_core_loads = rv_core.ld_b_I rv_core.loads_I
lemmas rv_core_stores = rv_core.st_b_I rv_core.stores_I

lemma loads_precise_rv: "f \<in> set rv_loads \<Longrightarrow> exn_keeps_rv (same_core env) (f a env)"
  unfolding rv_loads_def
  by (auto simp: trans_lb_rv_def trans_lbu_rv_def trans_lh_rv_def trans_lhu_rv_def trans_lw_rv_def trans_lwu_rv_def trans_ld_rv_def trans_lr_w_rv_def trans_lr_d_rv_def Let_def
      intro!: exn_keeps_rv_bind rv_core_loads)

lemma stores_precise_rv: "f \<in> set rv_store_insns \<Longrightarrow> exn_keeps_rv (same_core env) (f a env)"
  unfolding rv_store_insns_def
  by (auto simp: trans_sb_rv_def trans_sh_rv_def trans_sw_rv_def trans_sd_rv_def trans_sc_w_rv_def trans_sc_d_rv_def Let_def
      intro!: exn_keeps_rv_bind rv_core_loads rv_core_stores)

lemma amos_precise_rv: "exn_keeps_rv (same_core env) (amo_w_rv opr a env)" "exn_keeps_rv (same_core env) (amo_d_rv opr a env)"
  by (auto simp: amo_w_rv_def amo_d_rv_def Let_def intro!: exn_keeps_rv_bind rv_core_loads rv_core_stores)

text \<open>
  A load, store, atomic operation, load-reserved or store-conditional that raises an exception has changed no register, not the program
  counter and not the reservation, so that it can be run again after the handler has returned.
\<close>

theorem rv_precise_exceptions:
  assumes "f \<in> set (rv_loads @ rv_store_insns @ rv_amos_w @ rv_amos_d)" and "f a env = Exn env'"
  shows "gpr env' = gpr env \<and> pc env' = pc env \<and> load_res env' = load_res env \<and> load_val env' = load_val env"
proof -
  have "exn_keeps_rv (same_core env) (f a env)"
    using assms(1) by (auto dest!: amos_w amos_d intro: loads_precise_rv stores_precise_rv amos_precise_rv)
  then show ?thesis using assms(2) by (simp add: exn_keeps_rv_def)
qed

theorem rv_precise_exceptions_witness:
  "\<exists>env'. trans_sd_rv \<lparr>rd = 0, rs1 = 0, rs2 = 0, imm = 0, shamt = 0\<rparr> mmu_example = Exn env' \<and> gpr env' = gpr mmu_example"
proof -
  let ?a = "\<lparr>rd = 0, rs1 = 0, rs2 = 0, imm = 0, shamt = 0\<rparr>"
  have "get_address 0 0 mmu_example = 0"
    by (simp add: get_address_def get_gpr_def mmu_example_def tlb_flush_rv_def zeroed_rv_def Let_def)
  then have "trans_sd_rv ?a mmu_example = Exn (raise_mmu_exception mmu_example 0 MMU_DATA_STORE False)"
    by (simp add: trans_sd_rv_def immw_rv_def null_misses)
  then show ?thesis
    using rv_precise_exceptions [of trans_sd_rv ?a mmu_example] by (auto simp: rv_store_insns_def)
qed

section \<open>The width of results\<close>

lemma sint_sext_range:
  assumes "0 < n" and "n \<le> 64"
  shows "- (2 ^ (n - 1)) \<le> sint (sext n x) \<and> sint (sext n x) < 2 ^ (n - 1)"
proof -
  let ?z = "signed_take_bit (n - 1) (sint x)"
  have r: "- (2 ^ (n - 1)) \<le> ?z" "?z < 2 ^ (n - 1)"
    by (rule signed_take_bit_int_greater_eq_minus_exp, rule signed_take_bit_int_less_exp)
  have "(2 :: int) ^ (n - 1) \<le> 2 ^ 63" using assms by (intro power_increasing) simp_all
  then have b: "- (2 ^ 63) \<le> ?z" "?z < 2 ^ 63" using r by linarith+
  have "sext n x = of_int ?z" using sext_of_int [OF assms, of "sint x"] by simp
  then have "sint (sext n x) = signed_take_bit 63 ?z" by (simp add: signed_of_int)
  also have "\<dots> = ?z" by (rule signed_take_bit_int_eq_self [OF b])
  finally show ?thesis using r by simp
qed

lemma sint_take_range:
  fixes x :: u64
  assumes "n < 64"
  shows "0 \<le> sint (take_bit n x) \<and> sint (take_bit n x) < 2 ^ n"
proof -
  have eq: "uint (take_bit n x) = take_bit n (uint x)" by (rule unsigned_take_bit_eq)
  have r: "0 \<le> take_bit n (uint x)" "take_bit n (uint x) < 2 ^ n" by simp_all
  have "(2 :: int) ^ n \<le> 2 ^ 63" using assms by (intro power_increasing) simp_all
  then have b: "- (2 ^ 63) \<le> uint (take_bit n x)" "uint (take_bit n x) < 2 ^ 63" unfolding eq using r by linarith+
  have "sint (take_bit n x) = signed_take_bit 63 (uint (take_bit n x))" by (simp add: sint_uint)
  also have "\<dots> = uint (take_bit n x)" by (rule signed_take_bit_int_eq_self [OF b])
  finally show ?thesis unfolding eq using r by simp
qed

definition rv_narrow :: "(rv_arg \<Rightarrow> 'd rv_machine \<Rightarrow> (bool, 'd rv_machine) outcome) list" where
  "rv_narrow = [trans_addw_rv, trans_addiw_rv, trans_subw_rv, trans_sllw_rv, trans_slliw_rv, trans_srlw_rv, trans_srliw_rv, trans_sraw_rv, trans_sraiw_rv,
    trans_mulw_rv, trans_divw_rv, trans_divuw_rv, trans_remw_rv, trans_remuw_rv]"

definition rv_widths :: "((rv_arg \<Rightarrow> 'd rv_machine \<Rightarrow> (bool, 'd rv_machine) outcome) \<times> int \<times> int) list" where
  "rv_widths =
    [(trans_lb_rv, - (2 ^ 7), 2 ^ 7), (trans_lbu_rv, 0, 2 ^ 8), (trans_lh_rv, - (2 ^ 15), 2 ^ 15), (trans_lhu_rv, 0, 2 ^ 16),
     (trans_lw_rv, - (2 ^ 31), 2 ^ 31), (trans_lwu_rv, 0, 2 ^ 32), (trans_lr_w_rv, - (2 ^ 31), 2 ^ 31)]
    @ map (\<lambda>f. (f, - (2 ^ 31), 2 ^ 31)) (rv_narrow @ rv_amos_w)
    @ map (\<lambda>f. (f, 0, 2)) [trans_slt_rv, trans_slti_rv, trans_sltu_rv, trans_sltiu_rv, trans_sc_w_rv, trans_sc_d_rv]"

definition width_ok :: "(rv_arg \<Rightarrow> 'd rv_machine \<Rightarrow> (bool, 'd rv_machine) outcome) \<times> int \<times> int \<Rightarrow> bool" where
  "width_ok row = (case row of (f, lo, hi) \<Rightarrow> \<forall>a env r env'. ol env = MXL_RV64 \<longrightarrow> rd a \<noteq> 0 \<longrightarrow> f a env = Ret r env' \<longrightarrow>
    lo \<le> sint (gpr env' (rd a)) \<and> sint (gpr env' (rd a)) < hi)"

lemma narrow_set: "rd a \<noteq> 0 \<Longrightarrow> ol env = MXL_RV32 \<Longrightarrow> gpr (gen_set_gpr (rd a) v env) (rd a) = sext 32 v"
  by (simp add: gen_set_gpr_def)

lemma narrow_width: "f \<in> set rv_narrow \<Longrightarrow> width_ok (f, - (2 ^ 31), 2 ^ 31)"
  using sint_sext_range [of 32]
  unfolding rv_narrow_def width_ok_def prod.case
  by (auto simp: trans_addw_rv_def trans_addiw_rv_def trans_subw_rv_def trans_sllw_rv_def trans_slliw_rv_def trans_srlw_rv_def trans_srliw_rv_def trans_sraw_rv_def trans_sraiw_rv_def
      trans_mulw_rv_def trans_divw_rv_def trans_divuw_rv_def trans_remw_rv_def trans_remuw_rv_def Let_def set_result_def narrow_set split: option.splits)

lemma compare_width:
  "width_ok (trans_slt_rv, 0, 2)" "width_ok (trans_slti_rv, 0, 2)" "width_ok (trans_sltu_rv, 0, 2)" "width_ok (trans_sltiu_rv, 0, 2)"
  by (auto simp: width_ok_def trans_slt_rv_def trans_slti_rv_def trans_sltu_rv_def trans_sltiu_rv_def gen_set_gpr_def)

lemma ld_frame_ol: "ld \<in> {ld_b_rv, ld_h_rv, ld_w_rv, ld_d_rv} \<Longrightarrow> ld va env = Ret d e \<Longrightarrow> ol e = ol env"
  using rv_core.ld_b_I [of env "gpr env" "pc env" "ol env" "cur_insn_len env" "load_res env" "load_val env" va]
    rv_core.loads_I [of env "gpr env" "pc env" "ol env" "cur_insn_len env" "load_res env" "load_val env" va] by auto

lemma bind_Ret: "bind_out m f = Ret v e \<Longrightarrow> \<exists>x s. m = Ret x s \<and> f x s = Ret v e"
  by (cases m) auto

lemma load_sext:
  "ld_b_rv va env = Ret d e \<Longrightarrow> \<exists>x. d = sext 8 x" "ld_h_rv va env = Ret d e \<Longrightarrow> \<exists>x. d = sext 16 x" "ld_w_rv va env = Ret d e \<Longrightarrow> \<exists>x. d = sext 32 x"
  unfolding ld_b_rv_def ld_h_rv_def ld_w_rv_def by (auto dest!: bind_Ret)

lemma set_wide: "rd a \<noteq> 0 \<Longrightarrow> ol env = MXL_RV64 \<Longrightarrow> gpr (gen_set_gpr (rd a) v env) (rd a) = v"
  by (simp add: gen_set_gpr_def)

lemma signed_load_width:
  assumes "ld \<in> {ld_b_rv, ld_h_rv, ld_w_rv, ld_d_rv}" and "\<And>va env d e. ld va env = Ret d e \<Longrightarrow> lo \<le> sint (g d) \<and> sint (g d) < hi"
    and "\<And>a env. f a env = bind_out (ld (va a env) env) (\<lambda>d e. Ret True (gen_set_gpr (rd a) (g d) (put a env d e)))" and "\<And>a env d e. ol (put a env d e) = ol e"
  shows "width_ok (f, lo, hi)"
  unfolding width_ok_def prod.case
proof (intro allI impI)
  fix a r and env env' :: "'a rv_machine"
  assume h: "ol env = MXL_RV64" "rd a \<noteq> 0" "f a env = Ret r env'"
  then obtain d e where d: "ld (va a env) env = Ret d e" "env' = gen_set_gpr (rd a) (g d) (put a env d e)"
    using assms(3) [of a env] by (auto dest!: bind_Ret)
  then show "lo \<le> sint (gpr env' (rd a)) \<and> sint (gpr env' (rd a)) < hi"
    using assms(2) [OF d(1)] ld_frame_ol [OF assms(1) d(1)] set_wide [OF h(2), of "put a env d e"] assms(4) h(1) by simp
qed


lemma load_widths:
  "width_ok (trans_lb_rv, - (2 ^ 7), 2 ^ 7)" "width_ok (trans_lbu_rv, 0, 2 ^ 8)" "width_ok (trans_lh_rv, - (2 ^ 15), 2 ^ 15)" "width_ok (trans_lhu_rv, 0, 2 ^ 16)"
  "width_ok (trans_lw_rv, - (2 ^ 31), 2 ^ 31)" "width_ok (trans_lwu_rv, 0, 2 ^ 32)" "width_ok (trans_lr_w_rv, - (2 ^ 31), 2 ^ 31)"
proof -
  have s: "- (2 ^ 7) \<le> sint (sext 8 x) \<and> sint (sext 8 x) < 2 ^ 7" "- (2 ^ 15) \<le> sint (sext 16 x) \<and> sint (sext 16 x) < 2 ^ 15"
    "- (2 ^ 31) \<le> sint (sext 32 x) \<and> sint (sext 32 x) < 2 ^ 31" for x
    using sint_sext_range [of 8 x] sint_sext_range [of 16 x] sint_sext_range [of 32 x] by simp_all
  let ?va = "\<lambda>a env. get_address (rs1 a) (immw_rv a) env" and ?same = "\<lambda>a env d e. e"
  show "width_ok (trans_lb_rv, - (2 ^ 7), 2 ^ 7)"
    by (rule signed_load_width [where ld = ld_b_rv and g = id and va = ?va and put = ?same]) (use s in \<open>auto simp: trans_lb_rv_def dest: load_sext\<close>)
  show "width_ok (trans_lbu_rv, 0, 2 ^ 8)"
    by (rule signed_load_width [where ld = ld_b_rv and g = "take_bit 8" and va = ?va and put = ?same],
        simp, rule sint_take_range, simp, simp add: trans_lbu_rv_def, simp)
  show "width_ok (trans_lh_rv, - (2 ^ 15), 2 ^ 15)"
    by (rule signed_load_width [where ld = ld_h_rv and g = id and va = ?va and put = ?same]) (use s in \<open>auto simp: trans_lh_rv_def dest: load_sext\<close>)
  show "width_ok (trans_lw_rv, - (2 ^ 31), 2 ^ 31)"
    by (rule signed_load_width [where ld = ld_w_rv and g = id and va = ?va and put = ?same]) (use s in \<open>auto simp: trans_lw_rv_def dest: load_sext\<close>)
  show "width_ok (trans_lr_w_rv, - (2 ^ 31), 2 ^ 31)"
    by (rule signed_load_width [where ld = ld_w_rv and g = "sext 32" and va = "\<lambda>a env. get_address (rs1 a) 0 env"
          and put = "\<lambda>a env d e. e\<lparr>load_res := get_address (rs1 a) 0 env, load_val := d\<rparr>"]) (use s(3) in \<open>auto simp: trans_lr_w_rv_def Let_def\<close>)
  show "width_ok (trans_lhu_rv, 0, 2 ^ 16)"
    by (rule signed_load_width [where ld = ld_h_rv and g = "take_bit 16" and va = ?va and put = ?same],
        simp, rule sint_take_range, simp, simp add: trans_lhu_rv_def, simp)
  show "width_ok (trans_lwu_rv, 0, 2 ^ 32)"
    by (rule signed_load_width [where ld = ld_w_rv and g = "take_bit 32" and va = ?va and put = ?same],
        simp, rule sint_take_range, simp, simp add: trans_lwu_rv_def, simp)
qed


lemma st_frame_ol: "st \<in> {st_b_rv, st_h_rv, st_w_rv, st_d_rv} \<Longrightarrow> st va v env = Ret () e \<Longrightarrow> ol e = ol env"
  using rv_core.st_b_I [of env "gpr env" "pc env" "ol env" "cur_insn_len env" "load_res env" "load_val env" va v]
    rv_core.stores_I [of env "gpr env" "pc env" "ol env" "cur_insn_len env" "load_res env" "load_val env" va v] by auto

lemma amo_width: "width_ok (amo_w_rv opr, - (2 ^ 31), 2 ^ 31)"
  using sint_sext_range [of 32] unfolding width_ok_def prod.case
  by (auto simp: amo_w_rv_def Let_def set_wide dest!: bind_Ret ld_frame_ol [of ld_w_rv, simplified] st_frame_ol [of st_w_rv, simplified])

lemma sc_width: "width_ok (trans_sc_w_rv, 0, 2)" "width_ok (trans_sc_d_rv, 0, 2)"
  unfolding width_ok_def prod.case
  by (auto simp: trans_sc_w_rv_def trans_sc_d_rv_def Let_def set_wide split: if_splits
      dest!: bind_Ret ld_frame_ol [of ld_w_rv, simplified] ld_frame_ol [of ld_d_rv, simplified] st_frame_ol [of st_w_rv, simplified] st_frame_ol [of st_d_rv, simplified])

text \<open>
  (C34) The result of an instruction of a given width is a number of that width: the loads of 1, 2 and 4 bytes and the load-reserved word, signed and unsigned; the 32-bit
  arithmetic and the 32-bit atomics give sign-extended 32-bit numbers; comparisons and store-conditionals give 0 or 1.
\<close>

theorem rv_result_widths:
  assumes "(f, lo, hi) \<in> set rv_widths" and "ol env = MXL_RV64" and "rd a \<noteq> 0" and "f a env = Ret r env'"
  shows "lo \<le> sint (gpr env' (rd a)) \<and> sint (gpr env' (rd a)) < hi"
proof -
  have "f \<in> set rv_amos_w \<Longrightarrow> width_ok (f, - (2 ^ 31), 2 ^ 31)" using amos_w amo_width by metis
  then have "width_ok (f, lo, hi)"
    using assms(1) narrow_width [of f] unfolding rv_widths_def
    by (auto simp: load_widths [simplified] compare_width sc_width)
  then show ?thesis using assms(2-4) unfolding width_ok_def by blast
qed

theorem rv_result_widths_witness:
  "\<exists>env'. trans_addw_rv \<lparr>rd = 3, rs1 = 5, rs2 = 6, imm = 0, shamt = 0\<rparr> alu_example = Ret True env' \<and> - (2 ^ 31) \<le> sint (gpr env' 3) \<and> sint (gpr env' 3) < 2 ^ 31"
proof -
  let ?a = "\<lparr>rd = 3, rs1 = 5, rs2 = 6, imm = 0, shamt = 0\<rparr>"
  have m: "(trans_addw_rv, - (2 ^ 31), 2 ^ 31) \<in> set rv_widths" by (simp add: rv_widths_def rv_narrow_def)
  have o: "ol alu_example = MXL_RV64" by (simp add: alu_example_def)
  obtain env' where e: "trans_addw_rv ?a alu_example = Ret True env'" by (simp add: trans_addw_rv_def Let_def)
  then show ?thesis using rv_result_widths [OF m o _ e] by simp
qed

end
