(* ===== verification/Spec2Isabelle.thy ===== *)
theory Spec2Isabelle
  imports Host_Utils Device_IO LA_Refill LA_Exec Dev_Serial_Inv Dev_Console Dev_Blk_Spec RV_Insn_Spec
begin

text \<open>
  A verification development for LA_EMU, an interpreter for LoongArch machines (with a second, RISC-V target).

  \<^bold>\<open>The program.\<close> \<open>main.c\<close> allocates the guest RAM, loads a kernel, sets the CPU up and runs \<open>exec_env\<close>: poll the
  timer and the interrupt lines, enter the interrupt handler if one is due, fetch a word, decode it, run its
  \<open>trans\<close> function. An exception is a \<open>siglongjmp\<close> back into \<open>exec_env\<close>, which enters the handler of the guest. Every
  memory access goes through three translation caches in front of the MMU (\<open>loongarch64/cpu_helper.c\<close>,
  \<open>loongarch64/tlb_helper.c\<close>), then to the RAM or, through a table of devices (\<open>device/device_io.c\<close>), to a device; decoded
  instructions are kept in an instruction cache.

  \<^bold>\<open>The theories,\<close> in the order of their imports:

  \<^item> \<open>Emu_Prelude\<close>: machine integers, and \<open>outcome\<close>, the result of a C call on the emulator state: \<open>Ret\<close> a normal return,
    \<open>Exn\<close> a \<open>siglongjmp\<close> (\<open>cpu_loop_exit\<close>), \<open>Exit\<close> a \<open>laemu_exit\<close>, \<open>Crash\<close> an assertion, an abort or an access outside an array
    or a mapping. \<open>bind_out\<close> sequences calls, \<open>out_inv\<close> lifts an invariant, \<open>iter_out f n\<close> runs a loop body \<open>n\<close> times.
  \<^item> \<open>Bitops\<close> (\<open>include/qemu/bitops.h\<close>, \<open>include/hw/registerfields.h\<close>): rotations, extract and deposit, register fields; the
    field laws are proved once in a locale for both widths.
  \<^item> \<open>Host_Utils\<close> (\<open>include/qemu/host-utils.h\<close>, \<open>host-utils.c\<close>, \<open>include/qemu/bswap.h\<close>): 128-bit products and shifts, counts,
    reversals, overflow flags.
  \<^item> \<open>Device_IO\<close> (\<open>device/device_io.c\<close>): registration, dispatch. A device is a pair of functions on the world it can act on.
  \<^item> \<open>Bytes\<close>: little-endian byte strings in the memory of the host.
  \<^item> \<open>LA_Regs\<close>, \<open>LA_State\<close> (\<open>loongarch64/cpu-csr.h\<close>, \<open>internals.h\<close>, \<open>cpu.h\<close>): register numbers and fields, \<open>CPUArchState\<close> as a record,
    extended to \<open>machine\<close> by the RAM, the devices and the global variables that the core reads.
  \<^item> \<open>LA_Exception\<close> (\<open>loongarch64/cpu.c\<close>, \<open>main.c\<close>, \<open>tlb_helper.c\<close>): reset, the configuration of the cores, exception entry and
    return, interrupt lines, the timer in both modes.
  \<^item> \<open>LA_RAM\<close> (\<open>main.c\<close>, \<open>cpu.h\<close>): the address map and the RAM accessors.
  \<^item> \<open>LA_TLB\<close> (\<open>cpu_helper.c\<close>, \<open>tlb_helper.c\<close>): search, translation, permission checks, direct-map windows, the hardware page
    walk, the TLB instructions, the MMU exceptions. \<open>LA_Refill\<close>: the cycle of a TLB refill.
  \<^item> \<open>LA_Mem\<close> (\<open>interpreter.c\<close>): the translation caches, I/O, loads and stores of 1 to 32 bytes, page crossings.
  \<^item> \<open>LA_CSR\<close>, \<open>LA_Insn\<close>, \<open>LA_Insn_Mem\<close>, \<open>LA_Insn_Sys\<close>, \<open>LA_Crc\<close> (\<open>interpreter.c\<close>): the CSR accesses and one definition per
    \<open>trans\<close> function: arithmetic and logic, memory and atomics, branches, traps and privileged instructions, CRC.
  \<^item> \<open>LA_Decode\<close> (\<open>insns.decode\<close>): formats and patterns. \<open>LA_Exec\<close> (\<open>main.c\<close>, \<open>interpreter.c\<close>, \<open>cpu.h\<close>): the instruction cache,
    \<open>fetch\<close>, \<open>interpreter\<close>, \<open>exec_env\<close>.
  \<^item> \<open>Dev_Fifo\<close> (\<open>fifo.c\<close>): the byte queue. \<open>Dev_Uart\<close>: the terminal of the host, and what a guest relies on of a serial port.
    \<open>Dev_Serial\<close>, \<open>Dev_Serial_Inv\<close> (\<open>device/serial_plus.c\<close>): the port with queues, its registers and its invariant.
    \<open>Dev_Console\<close> (\<open>device/serial.c\<close>): the default port.
  \<^item> The RISC-V build, independent of the \<open>LA\<close> theories. \<open>RV_State\<close> (\<open>riscv64/cpu_bits.h\<close>, \<open>cpu.h\<close>): constants, mask fields, the state.
    \<open>RV_PMP\<close> (\<open>riscv64/pmp.c\<close>): the physical memory protection. \<open>RV_Trap\<close> (\<open>riscv64/cpu_helper.c\<close>, \<open>op_helper.c\<close>, \<open>cpu.c\<close>, \<open>main.c\<close>): the choice
    of an interrupt, trap entry and return, the interrupt lines, the timer, reset. \<open>RV_RAM\<close> (\<open>main.c\<close>, \<open>cpu.h\<close>): the RAM. \<open>RV_MMU\<close>, \<open>RV_TLB\<close>
    (\<open>riscv64/cpu_helper.c\<close>, \<open>internals.h\<close>, \<open>cpu.h\<close>, \<open>cpu.c\<close>): the page walk and the translation buffer. \<open>RV_Mem\<close>
    (\<open>riscv64/interpreter.c\<close>): loads and stores. \<open>RV_Insn\<close> (\<open>riscv64/interpreter.c\<close>): one definition per \<open>trans\<close> function of the integer instructions;
    \<open>RV_Insn_Spec\<close>: the architecture's operations on integers, and the theorems on the instructions. \<open>Dev_Plic\<close> (\<open>device/riscv_plic.c\<close>): the
    interrupt controller.
  \<^item> \<open>Dev_Blk\<close> (\<open>device/simple_virtio_blk.c\<close>): the block device of both machines, its registers, its queue in the RAM and its file. \<open>Dev_Blk_Spec\<close>: the
    requests of a driver, their effect, and that the device has it.

  \<^bold>\<open>Interfaces.\<close> The laws that one part relies on are locales, interpreted on the definitions of the model:
  \<open>tlb_maintenance\<close> for the invalidating operations (seven interpretations); \<open>mmu_inv\<close> and \<open>access_inv\<close> for what a translation and
  a memory access keep (the TLB invariant; the registers and the program counter); \<open>tc_port\<close> for a translation
  cache (fetch, load, store); \<open>csr_field\<close> for a plain CSR; \<open>decoder\<close> for what the execution loop relies on of the instructions,
  proved for every pattern of the table, and its extension \<open>exec_decoder\<close> for the instructions that write to their cached arguments; \<open>byte_queue\<close> for the bounded queue; \<open>uart\<close> for a polled serial port, interpreted
  on both ports; \<open>rv_access_inv\<close> for what the accesses of the RISC-V core keep.

  \<^bold>\<open>What the theorems show.\<close>

  \<^item> Execution (\<open>LA_Exec\<close>): the loop with the instruction cache refines a loop that decodes every instruction; register 0
    reads zero; an instruction that faults can be restarted; what undefined words do.
  \<^item> Memory (\<open>LA_Mem\<close>, \<open>LA_RAM\<close>): loads return what was stored, also across pages; the caches answer as the MMU
    does; a store that faults has written nothing; RAM and I/O do not overlap.
  \<^item> Translation (\<open>LA_TLB\<close>, \<open>LA_Refill\<close>): the TLB invariant; user accesses are checked; pages that the walker and the page faults invalidate miss, and \<open>invtlb\<close> empties the TLB; the refill
    cycle maps the page and returns.
  \<^item> Exceptions and interrupts (\<open>LA_Exception\<close>, \<open>LA_CSR\<close>, \<open>LA_Insn_Sys\<close>): entry and return are inverse; the vector of an interrupt;
    the timer fires when it should; \<open>idle\<close> wakes up; privileged instructions trap.
  \<^item> Instructions: atomics, load-linked and store-conditional, precise exceptions, division, products,
    reversals, bit strings, branches, CRCs against their polynomials.
  \<^item> Devices (\<open>Dev_Fifo\<close>, \<open>Dev_Serial_Inv\<close>, \<open>Dev_Console\<close>, \<open>Dev_Blk_Spec\<close>): the circular buffer is a bounded list; the interrupt line and the status registers
    of the port show its state; the transmit loop ends with the queue empty; a polling guest echoes its input; the
    loopback returns what was written; the block device serves all pending requests in order and interrupts the core, what was
    written to the disk is read back, and which requests end the emulator.
  \<^item> RISC-V (\<open>RV_PMP\<close>, \<open>RV_Trap\<close>, \<open>RV_MMU\<close>, \<open>RV_TLB\<close>, \<open>RV_Mem\<close>, \<open>RV_Insn_Spec\<close>, \<open>Dev_Plic\<close>): the protection check agrees with the architecture's byte-wise definition, with and without the lockdown of Smepmp, locked
    entries stay, a page that is reported whole has one verdict; the interrupt that is taken is, without the interrupt
    architecture extension, the lowest-numbered of those that may be; a trap enters at its vector, saves the place and masks interrupts, and its return restores the level and the place; the lines of the timer and of the controller show
    their state, and claims drain the controller; the page walk is that of the architecture, stated as an inductive
    relation over page tables of numbers, and the translation buffer gives what the walk gives; a store that faults has stored no byte; loads return what was
    stored; the integer instructions compute the architecture's functions of integers but for the divisions that trap on the host, their
    results keep to their widths, and a memory instruction that faults has changed no register.
  \<^item> Where the code does something else than it means to, the theorem states what the code does: the 64-bit atomic
    minimum and maximum, the stale caches after a write of CRMD, the division that traps on the host, undefined words.

  \<^bold>\<open>The build that is modelled.\<close> System emulation of LoongArch (no \<open>CONFIG_USER_ONLY\<close>), core la464, without \<open>CONFIG_DIFF\<close>, \<open>CONFIG_COSIM\<close>,
  \<open>CONFIG_GDB\<close>, \<open>CONFIG_CLI\<close>, \<open>CONFIG_PLUGIN\<close> and \<open>CONFIG_PERF\<close>, with logging off, on a little-endian host whose compiler has \<open>__int128\<close>
  (\<open>osdep.h\<close> defines \<open>CONFIG_INT128\<close>; the portable multiplication is modelled too). Signed arithmetic wraps, and a shift takes its amount modulo the
  width, as the hosts do; a signed division that overflows traps. The registers and structures of virtio are those of its standard (the headers of Linux
  that the source includes). The values of \<open>rand()\<close>, of the clock and of the
  host timer are inputs of the model. The serial port of the machine is the default one: the last branch of \<open>loongarch_cpu_check_irq\<close>, which polls the
  port with queues, is taken with the option \<open>serial_plus\<close> only and is left out; the port itself is modelled. The RISC-V theories model the build for RV64 of the core that \<open>cpu_reset\<close> configures: it has no hypervisor
  extension, so \<open>virt_enabled\<close> and the hypervisor registers are zero and their branches are left out; the other extensions
  are fields of the configuration.

  \<^bold>\<open>Loops and bounds.\<close> All loops of the core end by structural recursion: searches over the TLB and the device table, the bytes of an
  access, the levels of the page walk (at most five); the transmit loop of the serial port ends by the number of queued bytes,
  the search for the best interrupt by the pending bits that are left. Three loops of the program need not end: \<open>handle_request\<close> of the block device, a partial function of which the theorem shows
  that it returns for every well-formed queue; \<open>exec_env\<close> is \<open>iter_out exec_iter n\<close>
  for every number \<open>n\<close> of rounds, and the wait of \<open>idle\<close>, like that of \<open>wfi\<close>, takes a list that says after which sleeps the timer has
  fired; \<open>None\<close> means that the list ended first, and the theorem on \<open>idle\<close> gives the list that is long enough.

  \<^bold>\<open>Parameters.\<close> The devices behind the table are, for the core, functions of the device world; the theorems that need it
  assume that no device callback leaves by an exception. The decoder of the instructions that are not modelled is the
  argument \<open>other\<close> of \<open>la_decode\<close>; the theorems on the loop assume the locale \<open>decoder\<close> of it.

  \<^bold>\<open>Not modelled.\<close> Floating point (\<open>softfloat.c\<close>, \<open>fpu_helper.c\<close>) and vectors (\<open>vec_helper.c\<close>, \<open>tcg-runtime-gvec.c\<close>): taken from QEMU and
  Berkeley SoftFloat. Binary translation (\<open>lbt_helper.c\<close>). Of the RISC-V target the CSR table, the floating-point instructions and the decoder. User mode (\<open>syscall.c\<close>), which forwards system calls to the host. Checkpoints,
  differential tests, the debugger stub, the command line and the option parser of \<open>main\<close>: I/O around the core.

  \<^bold>\<open>Plan.\<close> The decoder, the execution loop and the CSR table of the RISC-V target, the integer vector operations.
\<close>

end
